(* ===== verification/Prelude.thy ===== *)
theory Prelude
  imports Main
begin

text \<open>
  The development's shared layer. It holds
  \<^item> the shape of a fallible, stateful Go function: a program takes a state and
    returns either an error (\<open>Inl\<close>) or a value (\<open>Inr\<close>) together with the new
    state. A Go function that fails keeps the effects it had before it failed, so the
    state is returned on both branches;
  \<^item> the combinators the translated functions are written with: \<open>bindE\<close> is
    \<^verbatim>\<open>x, err := m; if err != nil { return err }\<close>, \<open>attempt\<close> is
    \<^verbatim>\<open>x, err := m\<close> with the error inspected by what follows, \<open>ignoring\<close> is
    \<^verbatim>\<open>_ = m\<close>, \<open>guardE\<close> is a \<^verbatim>\<open>defer\<close> that runs a clean-up when the
    function returns an error, and \<open>forE\<close> / \<open>forI\<close> are the two loops over a slice
    (stopping at the first error, or ignoring errors);
  \<^item> Hoare triples \<open>hoare\<close> and invariant preservation \<open>keeps\<close> for such
    programs, with one rule per combinator in the collections \<open>hoare_rules\<close> and
    \<open>keeps_rules\<close>;
  \<^item> generic lemmas on lists that the components share.
\<close>

named_theorems keeps_rules \<open>preservation of an invariant, one rule per combinator\<close>
named_theorems hoare_rules \<open>Hoare rules, one per combinator\<close>
named_theorems prog_defs \<open>definitions of the program combinators, for evaluation\<close>

type_synonym ('s, 'x, 'a) prog = "'s \<Rightarrow> ('x + 'a) \<times> 's"

section \<open>Combinators\<close>

definition ret :: "'a \<Rightarrow> ('s, 'x, 'a) prog" where
  [prog_defs]: "ret x = (\<lambda>s. (Inr x, s))"

definition fail :: "'x \<Rightarrow> ('s, 'x, 'a) prog" where
  [prog_defs]: "fail e = (\<lambda>s. (Inl e, s))"

definition bindE :: "('s, 'x, 'a) prog \<Rightarrow> ('a \<Rightarrow> ('s, 'x, 'b) prog) \<Rightarrow> ('s, 'x, 'b) prog" where
  [prog_defs]: "bindE m k =
     (\<lambda>s. case m s of (Inl e, s') \<Rightarrow> (Inl e, s') | (Inr x, s') \<Rightarrow> k x s')"

definition attempt :: "('s \<Rightarrow> 'r \<times> 's) \<Rightarrow> ('r \<Rightarrow> 's \<Rightarrow> 'b \<times> 's) \<Rightarrow> 's \<Rightarrow> 'b \<times> 's" where
  [prog_defs]: "attempt m k = (\<lambda>s. case m s of (r, s') \<Rightarrow> k r s')"

definition ignoring :: "('s \<Rightarrow> 'r \<times> 's) \<Rightarrow> ('s \<Rightarrow> 'b \<times> 's) \<Rightarrow> 's \<Rightarrow> 'b \<times> 's" where
  [prog_defs]: "ignoring m k = attempt m (\<lambda>_. k)"

definition guardE :: "('s \<Rightarrow> 'u \<times> 's) \<Rightarrow> ('s, 'x, 'a) prog \<Rightarrow> ('s, 'x, 'a) prog" where
  [prog_defs]: "guardE cleanup m =
     (\<lambda>s. case m s of (Inl e, s') \<Rightarrow> (Inl e, snd (cleanup s')) | (Inr x, s') \<Rightarrow> (Inr x, s'))"

definition finallyE :: "('s \<Rightarrow> 'u \<times> 's) \<Rightarrow> ('s \<Rightarrow> 'r \<times> 's) \<Rightarrow> 's \<Rightarrow> 'r \<times> 's" where
  [prog_defs]: "finallyE cleanup m = (\<lambda>s. case m s of (r, s') \<Rightarrow> (r, snd (cleanup s')))"

definition withS :: "('s \<Rightarrow> 's \<Rightarrow> 'b \<times> 's) \<Rightarrow> 's \<Rightarrow> 'b \<times> 's" where
  [prog_defs]: "withS f = (\<lambda>s. f s s)"

primrec forE :: "('i \<Rightarrow> ('s, 'x, unit) prog) \<Rightarrow> 'i list \<Rightarrow> ('s, 'x, unit) prog" where
  "forE f [] = ret ()"
| "forE f (x # xs) = bindE (f x) (\<lambda>_. forE f xs)"

primrec forI :: "('i \<Rightarrow> 's \<Rightarrow> 'r \<times> 's) \<Rightarrow> 'i list \<Rightarrow> ('s, 'x, unit) prog" where
  "forI f [] = ret ()"
| "forI f (x # xs) = ignoring (f x) (forI f xs)"

text \<open>The combinators applied to a state, to run a program on a concrete one.\<close>

lemma prog_run:
  "ret x s = (Inr x, s)" "fail e s = (Inl e, s)"
  "bindE m k s = (case m s of (Inl e, s') \<Rightarrow> (Inl e, s') | (Inr x, s') \<Rightarrow> k x s')"
  "attempt m' k' s = (case m' s of (r, s') \<Rightarrow> k' r s')"
  "ignoring m' k'' s = k'' (snd (m' s))"
  "guardE c m s = (case m s of (Inl e, s') \<Rightarrow> (Inl e, snd (c s')) | (Inr x, s') \<Rightarrow> (Inr x, s'))"
  "finallyE c m' s = (case m' s of (r, s') \<Rightarrow> (r, snd (c s')))"
  "withS f s = f s s"
  by (simp_all add: prog_defs split: prod.splits)

section \<open>Triples and preserved invariants\<close>

definition hoare :: "('s \<Rightarrow> bool) \<Rightarrow> ('s \<Rightarrow> 'r \<times> 's) \<Rightarrow> ('r \<Rightarrow> 's \<Rightarrow> bool) \<Rightarrow> bool" where
  "hoare P m Q \<longleftrightarrow> (\<forall>s. P s \<longrightarrow> Q (fst (m s)) (snd (m s)))"

definition keeps :: "('s \<Rightarrow> bool) \<Rightarrow> ('s \<Rightarrow> 'r \<times> 's) \<Rightarrow> bool" where
  "keeps I m \<longleftrightarrow> (\<forall>s. I s \<longrightarrow> I (snd (m s)))"

lemma hoareI: "(\<And>s. P s \<Longrightarrow> Q (fst (m s)) (snd (m s))) \<Longrightarrow> hoare P m Q"
  by (simp add: hoare_def)

lemma hoareD: "hoare P m Q \<Longrightarrow> P s \<Longrightarrow> Q (fst (m s)) (snd (m s))"
  by (simp add: hoare_def)

lemma hoare_result: "hoare P m Q \<Longrightarrow> P s \<Longrightarrow> m s = (r, s') \<Longrightarrow> Q r s'"
  by (metis hoareD fst_conv snd_conv)

lemma keepsI: "(\<And>s. I s \<Longrightarrow> I (snd (m s))) \<Longrightarrow> keeps I m"
  by (simp add: keeps_def)

lemma keepsD: "keeps I m \<Longrightarrow> I s \<Longrightarrow> I (snd (m s))"
  by (simp add: keeps_def)

lemma keeps_result: "keeps I m \<Longrightarrow> I s \<Longrightarrow> m s = (r, s') \<Longrightarrow> I s'"
  by (metis keepsD snd_conv)

lemma keeps_hoare: "keeps I m \<longleftrightarrow> hoare I m (\<lambda>_. I)"
  by (simp add: keeps_def hoare_def)

lemma hoare_weaken:
  "hoare P' m Q' \<Longrightarrow> (\<And>s. P s \<Longrightarrow> P' s) \<Longrightarrow> (\<And>r s. Q' r s \<Longrightarrow> Q r s) \<Longrightarrow> hoare P m Q"
  by (simp add: hoare_def)

lemma hoare_pre: "hoare P' m Q \<Longrightarrow> (\<And>s. P s \<Longrightarrow> P' s) \<Longrightarrow> hoare P m Q"
  by (simp add: hoare_def)

lemma hoare_conj: "hoare P m Q \<Longrightarrow> hoare P' m Q' \<Longrightarrow> hoare (\<lambda>s. P s \<and> P' s) m (\<lambda>r s. Q r s \<and> Q' r s)"
  by (simp add: hoare_def)

lemma hoare_frame: "hoare P m Q \<Longrightarrow> keeps I m \<Longrightarrow> hoare (\<lambda>s. P s \<and> I s) m (\<lambda>r s. Q r s \<and> I s)"
  by (simp add: hoare_def keeps_def)

lemma hoare_ret [hoare_rules]: "(\<And>s. P s \<Longrightarrow> Q (Inr x) s) \<Longrightarrow> hoare P (ret x) Q"
  by (simp add: hoare_def ret_def)

lemma hoare_fail [hoare_rules]: "(\<And>s. P s \<Longrightarrow> Q (Inl e) s) \<Longrightarrow> hoare P (fail e) Q"
  by (simp add: hoare_def fail_def)

lemma hoare_bindE:
  assumes "hoare P m R" "\<And>x. hoare (R (Inr x)) (k x) Q" "\<And>e s. R (Inl e) s \<Longrightarrow> Q (Inl e) s"
  shows "hoare P (bindE m k) Q"
  using assms by (fastforce simp: hoare_def bindE_def split: prod.splits sum.splits)

lemma hoare_bindE_keeps:
  assumes "keeps I m" "\<And>x. hoare I (k x) Q" "\<And>e s. I s \<Longrightarrow> Q (Inl e) s"
  shows "hoare I (bindE m k) Q"
  by (rule hoare_bindE [OF assms(1) [unfolded keeps_hoare]]) (simp_all add: assms)

lemma bindE_Inr: "bindE m k s = (Inr x, s') \<Longrightarrow> (\<And>y s1. m s = (Inr y, s1) \<Longrightarrow> k y s1 = (Inr x, s') \<Longrightarrow> thesis) \<Longrightarrow> thesis"
  by (auto simp: bindE_def split: prod.splits sum.splits)

lemma hoare_attempt:
  assumes "hoare P m R" "\<And>r. hoare (R r) (k r) Q"
  shows "hoare P (attempt m k) Q"
  using assms by (fastforce simp: hoare_def attempt_def split: prod.splits)

lemma hoare_ignoring:
  assumes "hoare P m (\<lambda>_. R)" "hoare R k Q"
  shows "hoare P (ignoring m k) Q"
  using assms by (auto simp: ignoring_def intro: hoare_attempt)

lemma hoare_guardE:
  assumes "hoare P m (\<lambda>r s. case r of Inl e \<Rightarrow> R e s | Inr x \<Rightarrow> Q (Inr x) s)"
    and "\<And>e. hoare (R e) c (\<lambda>_. Q (Inl e))"
  shows "hoare P (guardE c m) Q"
  using assms by (fastforce simp: hoare_def guardE_def split: prod.splits sum.splits)

lemma hoare_finallyE:
  assumes "hoare P m R" "\<And>r. hoare (R r) c (\<lambda>_. Q r)"
  shows "hoare P (finallyE c m) Q"
  using assms by (fastforce simp: hoare_def finallyE_def split: prod.splits)

lemma hoare_withS: "(\<And>t. hoare (\<lambda>s. P s \<and> s = t) (f t) Q) \<Longrightarrow> hoare P (withS f) Q"
  by (auto simp: hoare_def withS_def)

lemma hoare_if [hoare_rules]:
  "(b \<Longrightarrow> hoare P m Q) \<Longrightarrow> (\<not> b \<Longrightarrow> hoare P n Q) \<Longrightarrow> hoare P (if b then m else n) Q"
  by simp

lemma keeps_ret [keeps_rules]: "keeps I (ret x)"
  by (simp add: keeps_def ret_def)

lemma keeps_fail [keeps_rules]: "keeps I (fail e)"
  by (simp add: keeps_def fail_def)

lemma keeps_bindE [keeps_rules]: "keeps I m \<Longrightarrow> (\<And>x. keeps I (k x)) \<Longrightarrow> keeps I (bindE m k)"
  by (fastforce simp: keeps_def bindE_def split: prod.splits sum.splits)

lemma keeps_attempt [keeps_rules]: "keeps I m \<Longrightarrow> (\<And>r. keeps I (k r)) \<Longrightarrow> keeps I (attempt m k)"
  by (fastforce simp: keeps_def attempt_def split: prod.splits)

lemma keeps_ignoring [keeps_rules]: "keeps I m \<Longrightarrow> keeps I k \<Longrightarrow> keeps I (ignoring m k)"
  by (simp add: ignoring_def keeps_attempt)

lemma keeps_guardE [keeps_rules]: "keeps I m \<Longrightarrow> keeps I c \<Longrightarrow> keeps I (guardE c m)"
  by (fastforce simp: keeps_def guardE_def split: prod.splits sum.splits)

lemma keeps_finallyE [keeps_rules]: "keeps I m \<Longrightarrow> keeps I c \<Longrightarrow> keeps I (finallyE c m)"
  by (fastforce simp: keeps_def finallyE_def split: prod.splits)

lemma keeps_withS [keeps_rules]: "(\<And>t. keeps I (f t)) \<Longrightarrow> keeps I (withS f)"
  by (auto simp: keeps_def withS_def)

lemma keeps_if [keeps_rules]: "(b \<Longrightarrow> keeps I m) \<Longrightarrow> (\<not> b \<Longrightarrow> keeps I n) \<Longrightarrow> keeps I (if b then m else n)"
  by simp

lemma keeps_case_sum [keeps_rules]:
  "(\<And>e. r = Inl e \<Longrightarrow> keeps I (f e)) \<Longrightarrow> (\<And>x. r = Inr x \<Longrightarrow> keeps I (g x)) \<Longrightarrow>
   keeps I (case r of Inl e \<Rightarrow> f e | Inr x \<Rightarrow> g x)"
  by (cases r) auto

lemma keeps_case_option [keeps_rules]:
  "(r = None \<Longrightarrow> keeps I f) \<Longrightarrow> (\<And>x. r = Some x \<Longrightarrow> keeps I (g x)) \<Longrightarrow>
   keeps I (case r of None \<Rightarrow> f | Some x \<Rightarrow> g x)"
  by (cases r) auto

lemma keeps_case_prod [keeps_rules]:
  "(\<And>a b. p = (a, b) \<Longrightarrow> keeps I (f a b)) \<Longrightarrow> keeps I (case p of (a, b) \<Rightarrow> f a b)"
  by (cases p) auto

lemma keeps_Let [keeps_rules]: "(\<And>y. y = x \<Longrightarrow> keeps I (f y)) \<Longrightarrow> keeps I (let y = x in f y)"
  by simp

lemma keeps_forE [keeps_rules]: "(\<And>x. x \<in> set xs \<Longrightarrow> keeps I (f x)) \<Longrightarrow> keeps I (forE f xs)"
  by (induction xs) (auto intro!: keeps_rules)

lemma keeps_forI [keeps_rules]: "(\<And>x. x \<in> set xs \<Longrightarrow> keeps I (f x)) \<Longrightarrow> keeps I (forI f xs)"
  by (induction xs) (auto intro!: keeps_rules)

lemma keeps_conj: "keeps I m \<Longrightarrow> keeps J m \<Longrightarrow> keeps (\<lambda>s. I s \<and> J s) m"
  by (simp add: keeps_def)

text \<open>An invariant together with a fact about the value returned.\<close>

definition keeps_with :: "('s \<Rightarrow> bool) \<Rightarrow> ('a \<Rightarrow> bool) \<Rightarrow> ('s, 'x, 'a) prog \<Rightarrow> bool" where
  "keeps_with I \<Phi> m \<longleftrightarrow> hoare I m (\<lambda>r s. I s \<and> (\<forall>x. r = Inr x \<longrightarrow> \<Phi> x))"

lemma keeps_bindE_with: "keeps_with I \<Phi> m \<Longrightarrow> (\<And>x. \<Phi> x \<Longrightarrow> keeps I (k x)) \<Longrightarrow> keeps I (bindE m k)"
  by (fastforce simp: keeps_with_def keeps_def hoare_def bindE_def split: prod.splits sum.splits)

lemma keeps_with_guardE: "keeps_with I \<Phi> m \<Longrightarrow> keeps I c \<Longrightarrow> keeps_with I \<Phi> (guardE c m)"
  by (fastforce simp: keeps_with_def keeps_def hoare_def guardE_def split: prod.splits sum.splits)

section \<open>Lists\<close>

lemma filter_eq_selfI: "(\<And>x. x \<in> set xs \<Longrightarrow> P x) \<Longrightarrow> filter P xs = xs"
  by (simp add: filter_id_conv)

lemma distinct_map_unique:
  "distinct (map f xs) \<Longrightarrow> x \<in> set xs \<Longrightarrow> y \<in> set xs \<Longrightarrow> f x = f y \<Longrightarrow> x = y"
  by (auto simp: distinct_map inj_on_def)

lemma find_SomeD: "find P xs = Some x \<Longrightarrow> x \<in> set xs \<and> P x"
  by (induction xs) (auto split: if_splits)

lemma distinct_other:
  assumes "1 < length xs" "distinct xs"
  obtains b where "b \<in> set xs" "b \<noteq> a"
proof -
  obtain x y zs where "xs = x # y # zs" using assms(1) by (cases xs; cases "tl xs") auto
  with assms(2) that [of x] that [of y] show thesis by (cases "x = a") auto
qed

end
