(* ===== verification/GoStrings.thy ===== *)
theory GoStrings
  imports Prelude
begin

text \<open>
  The part of Go's standard library (packages \<^verbatim>\<open>strings\<close>, \<^verbatim>\<open>strconv\<close>,
  \<^verbatim>\<open>fmt\<close>) that the modelled packages use, as executable functions on
  \<open>string\<close> (a list of bytes, like a Go string), with the lemmas the components share:
  a split joined again is the original, decimal printing followed by parsing is the
  identity, replacement leaves no occurrence of a single character behind.

  White space is the Unicode white space of \<^verbatim>\<open>unicode.IsSpace\<close> in its UTF-8
  encoding. \<open>ToLower\<close> maps the ASCII capitals and the two non-ASCII code points whose
  lower case is ASCII (U+0130 and U+212A); other non-ASCII letters are left alone, so on
  strings with other non-ASCII capitals it differs from \<^verbatim>\<open>strings.ToLower\<close>.
\<close>

section \<open>Characters\<close>

abbreviation nl :: char where "nl \<equiv> CHR 0x0A"
abbreviation cr :: char where "cr \<equiv> CHR 0x0D"
abbreviation tab :: char where "tab \<equiv> CHR 0x09"
abbreviation nul :: char where "nul \<equiv> CHR 0x00"
abbreviation dquote :: char where "dquote \<equiv> CHR 0x22"
abbreviation squote :: char where "squote \<equiv> CHR 0x27"
abbreviation bslash :: char where "bslash \<equiv> CHR 0x5C"

definition byte_val :: "char \<Rightarrow> nat" where
  "byte_val c = of_char c"

definition is_lower :: "char \<Rightarrow> bool" where
  "is_lower c \<longleftrightarrow> 97 \<le> byte_val c \<and> byte_val c \<le> 122"

definition is_upper :: "char \<Rightarrow> bool" where
  "is_upper c \<longleftrightarrow> 65 \<le> byte_val c \<and> byte_val c \<le> 90"

definition is_digit :: "char \<Rightarrow> bool" where
  "is_digit c \<longleftrightarrow> 48 \<le> byte_val c \<and> byte_val c \<le> 57"

lemma byte_val_eq_iff [simp]: "byte_val a = byte_val b \<longleftrightarrow> a = b"
  by (simp add: byte_val_def)

section \<open>Searching, splitting, joining\<close>

definition HasPrefix :: "string \<Rightarrow> string \<Rightarrow> bool" where
  "HasPrefix s p \<longleftrightarrow> take (length p) s = p"

text \<open>\<^verbatim>\<open>strings.Index\<close>: the first position of a substring.\<close>

fun Index :: "string \<Rightarrow> string \<Rightarrow> nat option" where
  "Index [] sub = (if sub = [] then Some 0 else None)"
| "Index (c # cs) sub =
     (if HasPrefix (c # cs) sub then Some 0 else map_option Suc (Index cs sub))"

definition Contains :: "string \<Rightarrow> string \<Rightarrow> bool" where
  "Contains s sub \<longleftrightarrow> Index s sub \<noteq> None"

definition ContainsAny :: "string \<Rightarrow> string \<Rightarrow> bool" where
  "ContainsAny s chars \<longleftrightarrow> list_ex (\<lambda>c. c \<in> set chars) s"

text \<open>\<^verbatim>\<open>strings.Split\<close> with a one-byte separator.\<close>

fun Split :: "string \<Rightarrow> char \<Rightarrow> string list" where
  "Split [] c = [[]]"
| "Split (x # xs) c =
     (if x = c then [] # Split xs c
      else (case Split xs c of [] \<Rightarrow> [[x]] | y # ys \<Rightarrow> (x # y) # ys))"

fun Join :: "string list \<Rightarrow> string \<Rightarrow> string" where
  "Join [] sep = []"
| "Join [x] sep = x"
| "Join (x # y # zs) sep = x @ sep @ Join (y # zs) sep"

text \<open>\<^verbatim>\<open>strings.Cut\<close> with a one-byte separator.\<close>

fun Cut :: "string \<Rightarrow> char \<Rightarrow> string \<times> string \<times> bool" where
  "Cut [] c = ([], [], False)"
| "Cut (x # xs) c =
     (if x = c then ([], xs, True)
      else (case Cut xs c of (a, b, f) \<Rightarrow> (x # a, b, f)))"

text \<open>\<^verbatim>\<open>strings.ReplaceAll\<close> with a non-empty pattern.\<close>

function ReplaceAll :: "string \<Rightarrow> string \<Rightarrow> string \<Rightarrow> string" where
  "ReplaceAll s old new =
     (case s of [] \<Rightarrow> []
      | c # cs \<Rightarrow>
          if old \<noteq> [] \<and> HasPrefix s old then new @ ReplaceAll (drop (length old) s) old new
          else c # ReplaceAll cs old new)"
  by pat_completeness auto
termination
  by (relation "measure (\<lambda>(s, _, _). length s)") auto

declare ReplaceAll.simps [simp del]

section \<open>White space and case\<close>

definition space_runes :: "string list" where
  "space_runes =
     [[CHR 0x20], [CHR 0x09], [CHR 0x0A], [CHR 0x0B], [CHR 0x0C], [CHR 0x0D],
      [CHR 0xC2, CHR 0x85], [CHR 0xC2, CHR 0xA0], [CHR 0xE1, CHR 0x9A, CHR 0x80]]
     @ map (\<lambda>k. [CHR 0xE2, CHR 0x80, char_of (128 + k)]) [0..<11]
     @ [[CHR 0xE2, CHR 0x80, CHR 0xA8], [CHR 0xE2, CHR 0x80, CHR 0xA9],
        [CHR 0xE2, CHR 0x80, CHR 0xAF], [CHR 0xE2, CHR 0x81, CHR 0x9F],
        [CHR 0xE3, CHR 0x80, CHR 0x80]]"

definition leading_space :: "string \<Rightarrow> string option" where
  "leading_space s = find (HasPrefix s) space_runes"

definition trailing_space :: "string \<Rightarrow> string option" where
  "trailing_space s = find (\<lambda>r. HasPrefix (rev s) (rev r)) space_runes"

lemma space_runes_nonempty: "r \<in> set space_runes \<Longrightarrow> r \<noteq> []"
  by (auto simp: space_runes_def)

lemma leading_space_shorter:
  "leading_space s = Some r \<Longrightarrow> length (drop (length r) s) < length s"
  by (cases s) (auto simp: leading_space_def find_Some_iff HasPrefix_def
      dest!: nth_mem dest: space_runes_nonempty)

lemma trailing_space_shorter:
  assumes "trailing_space s = Some r"
  shows "length (take (length s - length r) s) < length s"
proof -
  from assms have r: "r \<in> set space_runes" "take (length r) (rev s) = rev r"
    by (auto simp: trailing_space_def find_Some_iff HasPrefix_def)
  from r(1) have "0 < length r" by (simp add: space_runes_nonempty)
  moreover from r(2) have "length r \<le> length s"
    by (metis length_rev length_take min.cobounded1)
  ultimately have "length s - length r < length s" by linarith
  then show ?thesis by simp
qed

function TrimLeftSpace :: "string \<Rightarrow> string" where
  "TrimLeftSpace s =
     (case leading_space s of None \<Rightarrow> s | Some r \<Rightarrow> TrimLeftSpace (drop (length r) s))"
  by pat_completeness auto
termination
  by (relation "measure length") (use leading_space_shorter in auto)

function TrimRightSpace :: "string \<Rightarrow> string" where
  "TrimRightSpace s =
     (case trailing_space s of None \<Rightarrow> s
      | Some r \<Rightarrow> TrimRightSpace (take (length s - length r) s))"
  by pat_completeness auto
termination
  by (relation "measure length") (use trailing_space_shorter in auto)

declare TrimLeftSpace.simps [simp del] TrimRightSpace.simps [simp del]

definition TrimSpace :: "string \<Rightarrow> string" where
  "TrimSpace s = TrimRightSpace (TrimLeftSpace s)"

definition lower_char :: "char \<Rightarrow> char" where
  "lower_char c = (if is_upper c then char_of (byte_val c + 32) else c)"

fun ToLower :: "string \<Rightarrow> string" where
  "ToLower [] = []"
| "ToLower (c # cs) =
     (if HasPrefix (c # cs) [CHR 0xC4, CHR 0xB0] then CHR ''i'' # ToLower (drop 1 cs)
      else if HasPrefix (c # cs) [CHR 0xE2, CHR 0x84, CHR 0xAA] then CHR ''k'' # ToLower (drop 2 cs)
      else lower_char c # ToLower cs)"

section \<open>Numbers\<close>

definition digit_char :: "nat \<Rightarrow> char" where
  "digit_char d = char_of (48 + d)"

definition digit_val :: "char \<Rightarrow> nat" where
  "digit_val c = byte_val c - 48"

fun show_nat :: "nat \<Rightarrow> string" where
  "show_nat n = (if n < 10 then [digit_char n] else show_nat (n div 10) @ [digit_char (n mod 10)])"

declare show_nat.simps [simp del]

text \<open>\<^verbatim>\<open>strconv.Itoa\<close> and \<^verbatim>\<open>fmt.Sprintf("%d", i)\<close>.\<close>

definition Itoa :: "int \<Rightarrow> string" where
  "Itoa i = (if i < 0 then CHR ''-'' # show_nat (nat (- i)) else show_nat (nat i))"

datatype num_error = ErrSyntax | ErrRange

text \<open>
  \<^verbatim>\<open>strconv.ParseUint(s, 10, 64)\<close> reads its digits from left to right and reports
  an overflow as soon as it happens, before any later malformed byte.
\<close>

fun parse_digits :: "nat \<Rightarrow> nat \<Rightarrow> string \<Rightarrow> num_error + nat" where
  "parse_digits lim n [] = Inr n"
| "parse_digits lim n (c # cs) =
     (if is_digit c then
        (let m = 10 * n + digit_val c
         in if lim < m then Inl ErrRange else parse_digits lim m cs)
      else Inl ErrSyntax)"

definition ParseUint :: "string \<Rightarrow> num_error + nat" where
  "ParseUint s = (if s = [] then Inl ErrSyntax else parse_digits (2 ^ 64 - 1) 0 s)"

definition ParseInt :: "string \<Rightarrow> num_error + int" where
  "ParseInt s =
     (let neg = (s \<noteq> [] \<and> hd s = CHR ''-'');
          t = (if s \<noteq> [] \<and> (hd s = CHR ''-'' \<or> hd s = CHR ''+'') then tl s else s)
      in case ParseUint t of
           Inl ErrSyntax \<Rightarrow> Inl ErrSyntax
         | Inl ErrRange \<Rightarrow> Inl ErrRange
         | Inr u \<Rightarrow>
             if \<not> neg \<and> 2 ^ 63 \<le> u then Inl ErrRange
             else if neg \<and> 2 ^ 63 < u then Inl ErrRange
             else Inr (if neg then - int u else int u))"

text \<open>
  \<^verbatim>\<open>fmt.Sscanf(s, "%d", &n)\<close>: leading spaces, an optional sign, the longest run
  of digits; whatever follows is ignored. \<open>None\<close> is an error (no digit, or a value
  outside \<^verbatim>\<open>int\<close>).
\<close>

definition scan_int :: "string \<Rightarrow> int option" where
  "scan_int s =
     (let t = dropWhile (\<lambda>c. c = CHR 0x20 \<or> c = tab \<or> c = cr) s;
          neg = (t \<noteq> [] \<and> hd t = CHR ''-'');
          u = (if t \<noteq> [] \<and> (hd t = CHR ''-'' \<or> hd t = CHR ''+'') then tl t else t);
          ds = takeWhile is_digit u
      in case ParseInt ((if neg then [CHR ''-''] else []) @ ds) of
           Inl _ \<Rightarrow> None | Inr i \<Rightarrow> if ds = [] then None else Some i)"

section \<open>Lemmas\<close>

lemma HasPrefix_append [simp]: "HasPrefix (p @ s) p"
  by (simp add: HasPrefix_def)

lemma HasPrefix_iff: "HasPrefix s p \<longleftrightarrow> (\<exists>t. s = p @ t)"
  by (metis HasPrefix_append HasPrefix_def append_take_drop_id)

lemma Index_Some:
  "Index s sub = Some i \<Longrightarrow> i \<le> length s \<and> HasPrefix (drop i s) sub"
  by (induction s sub arbitrary: i rule: Index.induct) (auto simp: HasPrefix_def split: if_splits)

lemma Index_append: "Index (a @ sub @ b) sub \<noteq> None"
proof (induction a)
  case Nil
  then show ?case
    by (cases "sub @ b") (auto, metis HasPrefix_append)
next
  case (Cons c a)
  then show ?case by auto
qed

lemma Index_None_iff: "Index s sub = None \<longleftrightarrow> (\<nexists>a b. s = a @ sub @ b)"
proof
  assume "Index s sub = None"
  then show "\<nexists>a b. s = a @ sub @ b" using Index_append by metis
next
  assume n: "\<nexists>a b. s = a @ sub @ b"
  show "Index s sub = None"
  proof (rule ccontr)
    assume "Index s sub \<noteq> None"
    then obtain i where "Index s sub = Some i" by blast
    then have "HasPrefix (drop i s) sub" using Index_Some by blast
    then obtain t where "drop i s = sub @ t" by (auto simp: HasPrefix_iff)
    then have "s = take i s @ sub @ t" by (metis append_take_drop_id)
    with n show False by blast
  qed
qed

lemma Contains_iff: "Contains s sub \<longleftrightarrow> (\<exists>a b. s = a @ sub @ b)"
  by (simp add: Contains_def Index_None_iff)

lemma Index_Some_split:
  "Index s sub = Some i \<Longrightarrow> s = take i s @ sub @ drop (i + length sub) s"
  by (metis HasPrefix_iff Index_Some append_eq_conv_conj append_take_drop_id drop_drop add.commute)

lemma Split_not_Nil [simp]: "Split s c \<noteq> []"
  by (induction s c rule: Split.induct) (auto split: list.splits)

lemma Join_Cons: "xs \<noteq> [] \<Longrightarrow> Join (x # xs) sep = x @ sep @ Join xs sep"
  by (cases xs) auto

lemma Join_Split: "Join (Split s c) [c] = s"
proof (induction s c rule: Split.induct)
  case (1 c)
  then show ?case by simp
next
  case (2 x xs c)
  show ?case
  proof (cases "x = c")
    case True
    with 2 show ?thesis by (simp add: Join_Cons)
  next
    case False
    obtain y ys where ys: "Split xs c = y # ys" by (meson Split_not_Nil neq_Nil_conv)
    with 2 False have "Join (y # ys) [c] = xs" by simp
    with False ys show ?thesis by (cases ys) auto
  qed
qed

lemma Split_parts: "p \<in> set (Split s c) \<Longrightarrow> c \<notin> set p"
  by (induction s c arbitrary: p rule: Split.induct) (auto split: list.splits if_splits)

lemma Split_chars: "p \<in> set (Split s c) \<Longrightarrow> set p \<subseteq> set s"
proof (induction s c arbitrary: p rule: Split.induct)
  case (1 c)
  then show ?case by simp
next
  case (2 x xs c)
  obtain y ys where ys: "Split xs c = y # ys" by (meson Split_not_Nil neq_Nil_conv)
  with 2 show ?case by (cases "x = c") fastforce+
qed

lemma Split_no_sep: "c \<notin> set s \<Longrightarrow> Split s c = [s]"
  by (induction s) auto

lemma Split_append: "c \<notin> set a \<Longrightarrow> Split (a @ c # s) c = a # Split s c"
  by (induction a) auto

lemma set_Split: "set s \<subseteq> insert c (\<Union>p\<in>set (Split s c). set p)"
proof (induction s c rule: Split.induct)
  case (1 c)
  then show ?case by simp
next
  case (2 x xs c)
  obtain y ys where ys: "Split xs c = y # ys" by (meson Split_not_Nil neq_Nil_conv)
  with 2 show ?case by (cases "x = c") auto
qed

lemma is_digit_digit_char: "d < 10 \<Longrightarrow> is_digit (digit_char d)"
  by (simp add: is_digit_def digit_char_def byte_val_def)

lemma digit_val_digit_char: "d < 10 \<Longrightarrow> digit_val (digit_char d) = d"
  by (simp add: digit_val_def digit_char_def byte_val_def)

lemma show_nat_digits: "list_all is_digit (show_nat n)"
proof (induction n rule: show_nat.induct)
  case (1 n)
  then show ?case
    by (subst show_nat.simps) (auto simp: is_digit_digit_char)
qed

lemma show_nat_not_Nil [simp]: "show_nat n \<noteq> []"
  by (subst show_nat.simps) simp

lemma parse_digits_append:
  "parse_digits lim n (a @ b) =
     (case parse_digits lim n a of Inl e \<Rightarrow> Inl e | Inr m \<Rightarrow> parse_digits lim m b)"
  by (induction lim n a rule: parse_digits.induct) (auto simp: Let_def)

lemma parse_digits_show: "n \<le> lim \<Longrightarrow> parse_digits lim 0 (show_nat n) = Inr n"
proof (induction n rule: show_nat.induct)
  case (1 n)
  show ?case
  proof (cases "n < 10")
    case True
    with 1 show ?thesis
      by (subst show_nat.simps) (simp add: is_digit_digit_char digit_val_digit_char)
  next
    case False
    with 1 have IH: "parse_digits lim 0 (show_nat (n div 10)) = Inr (n div 10)" by simp
    have d: "is_digit (digit_char (n mod 10))" "digit_val (digit_char (n mod 10)) = n mod 10"
      by (simp_all add: is_digit_digit_char digit_val_digit_char)
    from False have "show_nat n = show_nat (n div 10) @ [digit_char (n mod 10)]"
      by (subst show_nat.simps) simp
    with IH d \<open>n \<le> lim\<close> show ?thesis by (simp add: parse_digits_append)
  qed
qed

lemma parse_digits_bound: "parse_digits lim n s = Inr m \<Longrightarrow> n \<le> lim \<Longrightarrow> m \<le> lim"
  by (induction lim n s rule: parse_digits.induct) (auto simp: Let_def split: if_splits)

lemma ParseInt_range: "ParseInt s = Inr i \<Longrightarrow> - (2 ^ 63) \<le> i \<and> i < 2 ^ 63"
  by (auto simp: ParseInt_def Let_def split: sum.splits num_error.splits if_splits)

lemma ParseInt_Itoa:
  assumes "- (2 ^ 63) \<le> i" "i < 2 ^ 63"
  shows "ParseInt (Itoa i) = Inr i"
proof -
  have hd: "hd (show_nat n) \<noteq> CHR ''-'' \<and> hd (show_nat n) \<noteq> CHR ''+''" for n
  proof -
    have "is_digit (hd (show_nat n))"
      using show_nat_digits [of n] by (cases "show_nat n") auto
    then show ?thesis by (auto simp: is_digit_def byte_val_def)
  qed
  have p: "n \<le> 2 ^ 63 \<Longrightarrow> ParseUint (show_nat n) = Inr n" for n
    by (simp add: ParseUint_def parse_digits_show)
  show ?thesis
  proof (cases "i < 0")
    case True
    with assms have "nat (- i) \<le> 2 ^ 63" by simp
    with True p show ?thesis by (simp add: ParseInt_def Itoa_def Let_def)
  next
    case False
    with assms have "nat i \<le> 2 ^ 63" "nat i < 2 ^ 63" by simp_all
    with False p hd show ?thesis by (simp add: ParseInt_def Itoa_def Let_def)
  qed
qed

lemma ReplaceAll_Nil [simp]: "ReplaceAll [] old new = []"
  by (simp add: ReplaceAll.simps)

lemma ReplaceAll_char:
  "ReplaceAll (c # cs) [o1] new = (if c = o1 then new else [c]) @ ReplaceAll cs [o1] new"
  by (subst ReplaceAll.simps) (simp add: HasPrefix_def)

lemma ReplaceAll_char_append:
  "ReplaceAll (a @ b) [o1] new = ReplaceAll a [o1] new @ ReplaceAll b [o1] new"
  by (induction a) (simp_all add: ReplaceAll_char)

lemma ReplaceAll_char_gone: "o1 \<notin> set new \<Longrightarrow> o1 \<notin> set (ReplaceAll s [o1] new)"
  by (induction s) (auto simp: ReplaceAll_char)

lemma ReplaceAll_char_set: "set (ReplaceAll s [o1] new) \<subseteq> set s \<union> set new"
  by (induction s) (auto simp: ReplaceAll_char)

section \<open>Evaluating numerals\<close>

lemma digit_char_simps:
  "digit_char 0 = CHR ''0''" "digit_char 1 = CHR ''1''" "digit_char (Suc 0) = CHR ''1''" "digit_char 2 = CHR ''2''"
  "digit_char 3 = CHR ''3''" "digit_char 4 = CHR ''4''" "digit_char 5 = CHR ''5''" "digit_char 6 = CHR ''6''"
  "digit_char 7 = CHR ''7''" "digit_char 8 = CHR ''8''" "digit_char 9 = CHR ''9''"
  by code_simp+

lemmas str_eval = show_nat.simps digit_char_simps Itoa_def is_digit_def byte_val_def digit_val_def
  ParseInt_def ParseUint_def scan_int_def Let_def

section \<open>Trimming\<close>

lemma TrimSpace_Nil: "TrimSpace [] = []"
  by code_simp

lemma take_TrimLeft: "\<exists>a. s = a @ TrimLeftSpace s"
proof (induction s rule: TrimLeftSpace.induct)
  case (1 s)
  show ?case
  proof (cases "leading_space s")
    case (Some r)
    from 1 [OF Some] obtain a where "drop (length r) s = a @ TrimLeftSpace (drop (length r) s)" by blast
    then have "s = (take (length r) s @ a) @ TrimLeftSpace (drop (length r) s)" by (metis append.assoc append_take_drop_id)
    moreover have "TrimLeftSpace s = TrimLeftSpace (drop (length r) s)" by (subst TrimLeftSpace.simps) (simp add: Some)
    ultimately show ?thesis by metis
  qed (simp add: TrimLeftSpace.simps)
qed

lemma take_TrimRight: "\<exists>b. s = TrimRightSpace s @ b"
proof (induction s rule: TrimRightSpace.induct)
  case (1 s)
  show ?case
  proof (cases "trailing_space s")
    case (Some r)
    let ?t = "take (length s - length r) s"
    from 1 [OF Some] obtain b where "?t = TrimRightSpace ?t @ b" by blast
    then have "s = TrimRightSpace ?t @ (b @ drop (length s - length r) s)" by (metis append.assoc append_take_drop_id)
    moreover have "TrimRightSpace s = TrimRightSpace ?t" by (subst TrimRightSpace.simps) (simp add: Some)
    ultimately show ?thesis by metis
  qed (simp add: TrimRightSpace.simps)
qed

lemma TrimSpace_infix: "\<exists>a b. s = a @ TrimSpace s @ b"
  unfolding TrimSpace_def by (metis take_TrimLeft take_TrimRight)

lemma TrimSpace_set: "set (TrimSpace s) \<subseteq> set s"
proof -
  obtain a b where "s = a @ TrimSpace s @ b" using TrimSpace_infix by blast
  then have "set s = set a \<union> set (TrimSpace s) \<union> set b" by (metis set_append Un_assoc)
  then show ?thesis by blast
qed

lemma TrimSpace_length: "length (TrimSpace s) \<le> length s"
proof -
  obtain a b where "s = a @ TrimSpace s @ b" using TrimSpace_infix by blast
  then have "length s = length a + length (TrimSpace s) + length b" by (metis length_append add.assoc)
  then show ?thesis by linarith
qed

lemma TrimLeft_chars: "c \<in> set s \<Longrightarrow> c \<in> set (TrimLeftSpace s) \<or> (\<exists>r\<in>set space_runes. c \<in> set r)"
proof (induction s rule: TrimLeftSpace.induct)
  case (1 s)
  show ?case
  proof (cases "leading_space s")
    case (Some r)
    then have r: "r \<in> set space_runes" "HasPrefix s r" by (auto simp: leading_space_def dest: find_SomeD)
    then have "s = r @ drop (length r) s" by (auto simp: HasPrefix_iff)
    then have "c \<in> set r \<or> c \<in> set (drop (length r) s)" using 1(2) by (metis Un_iff set_append)
    with r(1) 1(1) [OF Some] show ?thesis by (subst TrimLeftSpace.simps) (auto simp: Some)
  qed (use 1(2) in \<open>simp add: TrimLeftSpace.simps\<close>)
qed

lemma TrimRight_chars: "c \<in> set s \<Longrightarrow> c \<in> set (TrimRightSpace s) \<or> (\<exists>r\<in>set space_runes. c \<in> set r)"
proof (induction s rule: TrimRightSpace.induct)
  case (1 s)
  show ?case
  proof (cases "trailing_space s")
    case (Some r)
    then have r: "r \<in> set space_runes" "HasPrefix (rev s) (rev r)" by (auto simp: trailing_space_def dest: find_SomeD)
    then obtain t where "rev s = rev r @ t" by (auto simp: HasPrefix_iff)
    then have "s = rev t @ r" by (metis rev_append rev_rev_ident)
    then have "c \<in> set r \<or> c \<in> set (take (length s - length r) s)" using 1(2) by auto
    with r(1) 1(1) [OF Some] show ?thesis by (subst TrimRightSpace.simps) (auto simp: Some)
  qed (use 1(2) in \<open>simp add: TrimRightSpace.simps\<close>)
qed

lemma TrimSpace_chars: "c \<in> set s \<Longrightarrow> c \<in> set (TrimSpace s) \<or> (\<exists>r\<in>set space_runes. c \<in> set r)"
  unfolding TrimSpace_def using TrimLeft_chars TrimRight_chars by blast

end
