(* ===== verification/Apperr.thy ===== *)
theory Apperr
  imports GoStrings
begin

text \<open>
  Package \<^verbatim>\<open>internal/apperr\<close>: typed domain errors and their HTTP status.

  A Go \<^verbatim>\<open>error\<close> is \<open>AppErr\<close> for a value of \<^verbatim>\<open>*apperr.Error\<close>, with its
  code, message and optional cause; \<open>Plain\<close> for \<^verbatim>\<open>errors.New\<close> and for
  \<^verbatim>\<open>fmt.Errorf\<close> without \<^verbatim>\<open>%w\<close>; and \<open>Wrapf\<close> for \<^verbatim>\<open>fmt.Errorf\<close> with
  \<^verbatim>\<open>%w\<close>, with the text around the wrapped error. \<open>Kind\<close> is \<^verbatim>\<open>errors.As\<close>: the
  first \<open>AppErr\<close> of the chain decides.
\<close>

datatype Code = KindInternal | KindInvalid | KindUnauthorized | KindForbidden | KindNotFound | KindConflict

datatype goerr = AppErr Code string "goerr option" | Plain string | Wrapf string goerr

type_synonym ('s, 'a) gofun = "('s, goerr, 'a) prog"

definition New :: "Code \<Rightarrow> string \<Rightarrow> goerr" where
  "New code msg = AppErr code msg None"

definition Wrap :: "Code \<Rightarrow> string \<Rightarrow> goerr \<Rightarrow> goerr" where
  "Wrap code msg cause = AppErr code msg (Some cause)"

fun Error :: "goerr \<Rightarrow> string" where
  "Error (AppErr c m None) = m"
| "Error (AppErr c m (Some e)) = m @ '': '' @ Error e"
| "Error (Plain m) = m"
| "Error (Wrapf m e) = m @ Error e"

fun Kind :: "goerr \<Rightarrow> Code" where
  "Kind (AppErr c _ _) = c"
| "Kind (Plain _) = KindInternal"
| "Kind (Wrapf _ e) = Kind e"

definition HTTPStatus :: "goerr \<Rightarrow> nat" where
  "HTTPStatus e = (case Kind e of
       KindInvalid \<Rightarrow> 400
     | KindUnauthorized \<Rightarrow> 401
     | KindForbidden \<Rightarrow> 403
     | KindNotFound \<Rightarrow> 404
     | KindConflict \<Rightarrow> 409
     | _ \<Rightarrow> 500)"

lemma Kind_New [simp]: "Kind (New c m) = c"
  by (simp add: New_def)

lemma Kind_Wrap [simp]: "Kind (Wrap c m e) = c"
  by (simp add: Wrap_def)

lemma Error_New [simp]: "Error (New c m) = m"
  by (simp add: New_def)

lemma New_neq_Wrap [simp]: "New c m \<noteq> Wrap c' m' e"
  by (simp add: New_def Wrap_def)

end
