(* ===== verification/PgConfig.thy ===== *)
theory PgConfig
  imports Apperr
begin

text \<open>
  Package \<^verbatim>\<open>internal/pgconfig\<close>: the validation boundary for user-supplied GUC
  parameters and extensions, and the merged list of preload libraries.

  A \<^verbatim>\<open>map[string]string\<close> is an association list; its order is the order in which
  one iteration of the Go map visits the keys, so a fact proved for every list holds for
  every iteration order.
\<close>

type_synonym strmap = "(string \<times> string) list"

definition platformOwned :: "string list" where
  "platformOwned =
     [''archive_mode'', ''archive_command'', ''wal_level'', ''max_wal_senders'',
      ''max_replication_slots'', ''max_slot_wal_keep_size'', ''hot_standby'',
      ''shared_preload_libraries'']"

text \<open>\<^verbatim>\<open>gucKeyRe\<close>: \<^verbatim>\<open>^[a-z][a-z0-9_]*$\<close>.\<close>

definition gucKeyRe :: "string \<Rightarrow> bool" where
  "gucKeyRe s \<longleftrightarrow>
     (case s of [] \<Rightarrow> False
      | c # cs \<Rightarrow> is_lower c \<and> list_all (\<lambda>c. is_lower c \<or> is_digit c \<or> c = CHR ''_'') cs)"

definition statStatements :: string where
  "statStatements = ''pg_stat_statements''"

record extension =
  ext_name :: string
  preloadLibrary :: string

definition allowedExtensions :: "extension list" where
  "allowedExtensions =
     [\<lparr>ext_name = ''pg_trgm'', preloadLibrary = []\<rparr>,
      \<lparr>ext_name = ''pgcrypto'', preloadLibrary = []\<rparr>,
      \<lparr>ext_name = ''uuid-ossp'', preloadLibrary = []\<rparr>,
      \<lparr>ext_name = ''hstore'', preloadLibrary = []\<rparr>,
      \<lparr>ext_name = ''citext'', preloadLibrary = []\<rparr>,
      \<lparr>ext_name = ''timescaledb'', preloadLibrary = ''timescaledb''\<rparr>]"

definition AllowedExtensionNames :: "string list" where
  "AllowedExtensionNames = map ext_name allowedExtensions"

definition lookupExtension :: "string \<Rightarrow> extension option" where
  "lookupExtension name = find (\<lambda>e. ext_name e = name) allowedExtensions"

fun ValidateParameters :: "strmap \<Rightarrow> goerr option" where
  "ValidateParameters [] = None"
| "ValidateParameters ((k, v) # params) =
     (let key = ToLower (TrimSpace k) in
      if \<not> gucKeyRe key then
        Some (New KindInvalid (''config: invalid parameter name: '' @ k))
      else if key \<in> set platformOwned then
        Some (New KindInvalid (''config: parameter is managed by the platform and cannot be set: '' @ key))
      else if v = [] \<or> ContainsAny v [nl, cr, nul] then
        Some (New KindInvalid (''config: invalid value for parameter '' @ key))
      else ValidateParameters params)"

fun ValidateExtensions :: "string list \<Rightarrow> goerr option" where
  "ValidateExtensions [] = None"
| "ValidateExtensions (e # exts) =
     (case lookupExtension e of
        None \<Rightarrow> Some (New KindInvalid (''config: extension not allowed: '' @ e))
      | Some _ \<Rightarrow> ValidateExtensions exts)"

text \<open>The loop of \<open>PreloadLibraries\<close>: the libraries so far are also the seen set.\<close>

fun preload_loop :: "string list \<Rightarrow> string list \<Rightarrow> string list" where
  "preload_loop libs [] = libs"
| "preload_loop libs (name # exts) =
     (case lookupExtension name of
        None \<Rightarrow> preload_loop libs exts
      | Some e \<Rightarrow>
          if preloadLibrary e = [] \<or> preloadLibrary e \<in> set libs then preload_loop libs exts
          else preload_loop (libs @ [preloadLibrary e]) exts)"

definition PreloadLibraries :: "string list \<Rightarrow> string list" where
  "PreloadLibraries exts = preload_loop [statStatements] exts"

section \<open>What validation guarantees\<close>

definition param_ok :: "string \<times> string \<Rightarrow> bool" where
  "param_ok kv \<longleftrightarrow>
     gucKeyRe (ToLower (TrimSpace (fst kv))) \<and> ToLower (TrimSpace (fst kv)) \<notin> set platformOwned \<and>
     snd kv \<noteq> [] \<and> nl \<notin> set (snd kv) \<and> cr \<notin> set (snd kv) \<and> nul \<notin> set (snd kv)"

lemma ValidateParameters_iff: "ValidateParameters ps = None \<longleftrightarrow> list_all param_ok ps"
  by (induction ps rule: ValidateParameters.induct)
    (auto simp: param_ok_def Let_def ContainsAny_def list_ex_iff)

lemma ValidateParameters_kind: "ValidateParameters ps = Some e \<Longrightarrow> Kind e = KindInvalid"
  by (induction ps rule: ValidateParameters.induct) (auto simp: Let_def split: if_splits)

lemma ValidateExtensions_iff:
  "ValidateExtensions es = None \<longleftrightarrow> set es \<subseteq> set AllowedExtensionNames"
proof (induction es rule: ValidateExtensions.induct)
  case (2 e exts)
  have "lookupExtension e = None \<longleftrightarrow> e \<notin> set AllowedExtensionNames"
    by (auto simp: lookupExtension_def AllowedExtensionNames_def find_None_iff)
  with 2 show ?case by (auto split: option.splits)
qed simp

lemma ValidateExtensions_kind: "ValidateExtensions es = Some e \<Longrightarrow> Kind e = KindInvalid"
  by (induction es rule: ValidateExtensions.induct) (auto split: option.splits)

lemma preload_loop_extends: "\<exists>ls. preload_loop libs exts = libs @ ls"
  by (induction libs exts rule: preload_loop.induct) (auto split: option.splits)

lemma preload_loop_distinct: "distinct libs \<Longrightarrow> distinct (preload_loop libs exts)"
  by (induction libs exts rule: preload_loop.induct) (auto split: option.splits)

lemma preload_loop_set:
  "set (preload_loop libs exts) =
     set libs \<union> {preloadLibrary e | e n. n \<in> set exts \<and> lookupExtension n = Some e \<and> preloadLibrary e \<noteq> []}"
proof (induction libs exts rule: preload_loop.induct)
  case (2 libs name exts)
  then show ?case by (cases "lookupExtension name") auto
qed simp

text \<open>
  The preload list always starts with \<^verbatim>\<open>pg_stat_statements\<close>, has no duplicates,
  and contains exactly that library and the preload libraries of the requested allowlisted
  extensions: extension libraries are merged in, never a replacement.
\<close>

theorem PreloadLibraries_merge:
  "hd (PreloadLibraries exts) = statStatements \<and> distinct (PreloadLibraries exts) \<and>
   set (PreloadLibraries exts) =
     insert statStatements
       {preloadLibrary e | e n. n \<in> set exts \<and> lookupExtension n = Some e \<and> preloadLibrary e \<noteq> []}"
proof (intro conjI)
  obtain ls where "PreloadLibraries exts = [statStatements] @ ls"
    unfolding PreloadLibraries_def using preload_loop_extends by blast
  then show "hd (PreloadLibraries exts) = statStatements" by simp
  show "distinct (PreloadLibraries exts)"
    by (simp add: PreloadLibraries_def preload_loop_distinct)
qed (simp add: PreloadLibraries_def preload_loop_set)

end
