(* ===== verification/Instance.thy ===== *)
theory Instance
  imports PgConfig
begin

text \<open>
  The data model of \<^verbatim>\<open>internal/instance/instance.go\<close> and
  \<^verbatim>\<open>internal/cluster/cluster.go\<close>: managed instances, clusters, the inputs that
  create them and their validation. Fields carry the prefix of their struct
  (\<open>i_\<close> Instance, \<open>n_\<close> NewInstance, \<open>c_\<close> Cluster, \<open>nc_\<close> NewCluster).
  The timestamps \<^verbatim>\<open>CreatedAt\<close> and \<^verbatim>\<open>UpdatedAt\<close> appear only as the order of
  the rows of a table.
\<close>

section \<open>Instances\<close>

datatype Status = StatusProvisioning | StatusRunning | StatusStopped | StatusError
  | StatusDestroying | StatusRestoring

fun status_string :: "Status \<Rightarrow> string" where
  "status_string StatusProvisioning = ''provisioning''"
| "status_string StatusRunning = ''running''"
| "status_string StatusStopped = ''stopped''"
| "status_string StatusError = ''error''"
| "status_string StatusDestroying = ''destroying''"
| "status_string StatusRestoring = ''restoring''"

text \<open>\<open>RoleUnset\<close> is the empty string, which a request may carry before defaults apply.\<close>

datatype Role = RoleUnset | RoleStandalone | RolePrimary | RoleReplica

datatype RepoType = RepoS3 | RepoLocal | RepoOther string

fun role_string :: "Role \<Rightarrow> string" where
  "role_string RoleUnset = []"
| "role_string RoleStandalone = ''standalone''"
| "role_string RolePrimary = ''primary''"
| "role_string RoleReplica = ''replica''"

fun repo_string :: "RepoType \<Rightarrow> string" where
  "repo_string RepoS3 = ''s3''"
| "repo_string RepoLocal = ''local''"
| "repo_string (RepoOther s) = s"

definition RepoType_Valid :: "RepoType \<Rightarrow> bool" where
  "RepoType_Valid r \<longleftrightarrow> r = RepoS3 \<or> r = RepoLocal"

definition SupportedVersions :: "string list" where
  "SupportedVersions = [''17'', ''16'', ''15'', ''14'', ''13'']"

definition DefaultVersion :: string where
  "DefaultVersion = ''16''"

definition VersionSupported :: "string \<Rightarrow> bool" where
  "VersionSupported v \<longleftrightarrow> list_ex (\<lambda>s. s = v) SupportedVersions"

definition ImageForVersion :: "string \<Rightarrow> string" where
  "ImageForVersion v = ''pgfleet/postgres-pgbackrest:'' @ v"

definition minInstancePasswordLen :: nat where
  "minInstancePasswordLen = 8"

text \<open>\<^verbatim>\<open>nameRe\<close>: \<^verbatim>\<open>^[a-z][a-z0-9-]{1,38}$\<close>.\<close>

definition nameRe :: "string \<Rightarrow> bool" where
  "nameRe s \<longleftrightarrow>
     (case s of [] \<Rightarrow> False
      | c # cs \<Rightarrow> is_lower c \<and> 1 \<le> length cs \<and> length cs \<le> 38 \<and>
          list_all (\<lambda>c. is_lower c \<or> is_digit c \<or> c = CHR ''-'') cs)"

record Instance =
  i_ID :: string
  i_Name :: string
  i_Status :: Status
  i_Image :: string
  i_PGVersion :: string
  i_ContainerID :: string
  i_HostPort :: int
  i_DataVolume :: string
  i_RepoType :: RepoType
  i_Stanza :: string
  i_Superuser :: string
  i_LastError :: string
  i_ClusterID :: string
  i_Role :: Role
  i_Parameters :: strmap
  i_Extensions :: "string list"
  i_Public :: bool
  i_Encrypted :: bool

record NewInstance =
  n_Name :: string
  n_Image :: string
  n_PGVersion :: string
  n_ClusterID :: string
  n_Role :: Role
  n_RepoType :: RepoType
  n_Superuser :: string
  n_Password :: string
  n_Parameters :: strmap
  n_Extensions :: "string list"

definition NewInstance_Validate :: "NewInstance \<Rightarrow> goerr option" where
  "NewInstance_Validate n =
     (if \<not> nameRe (n_Name n) then
        Some (New KindInvalid ''instance: name must match [a-z][a-z0-9-]{1,38}'')
      else if \<not> RepoType_Valid (n_RepoType n) then
        Some (New KindInvalid ''instance: invalid repo type'')
      else if length (n_Password n) < minInstancePasswordLen then
        Some (New KindInvalid ''instance: superuser password too short'')
      else if n_PGVersion n \<noteq> [] \<and> \<not> VersionSupported (n_PGVersion n) then
        Some (New KindInvalid ''instance: unsupported Postgres version'')
      else (case ValidateParameters (n_Parameters n) of
          Some e \<Rightarrow> Some e
        | None \<Rightarrow> (case ValidateExtensions (n_Extensions n) of
            Some e \<Rightarrow> Some e
          | None \<Rightarrow> None)))"

definition StanzaFor :: "string \<Rightarrow> string" where
  "StanzaFor name = name"

text \<open>
  \<open>applyDefaults\<close> of \<^verbatim>\<open>repo.go\<close>. The nil and the empty map (and slice) are the
  same list here, so its last two assignments are the identity.
\<close>

definition applyDefaults :: "NewInstance \<Rightarrow> NewInstance" where
  "applyDefaults n =
     (let n1 = (if n_PGVersion n = [] then n\<lparr>n_PGVersion := DefaultVersion\<rparr> else n);
          n2 = (if n_Image n1 = [] then n1\<lparr>n_Image := ImageForVersion (n_PGVersion n1)\<rparr> else n1);
          n3 = (if n_Superuser n2 = [] then n2\<lparr>n_Superuser := ''postgres''\<rparr> else n2)
      in if n_Role n3 = RoleUnset then n3\<lparr>n_Role := RoleStandalone\<rparr> else n3)"

section \<open>Clusters\<close>

datatype cluster_status = CStatusProvisioning | CStatusRunning | CStatusDegraded | CStatusError
  | CStatusDestroying

record Cluster =
  c_ID :: string
  c_Name :: string
  c_Status :: cluster_status
  c_PrimaryInstanceID :: string
  c_RouterContainerID :: string
  c_RouterPort :: int
  c_LastError :: string
  c_PoolMode :: string

record NewCluster =
  nc_Name :: string
  nc_PoolMode :: string

definition NewCluster_Validate :: "NewCluster \<Rightarrow> goerr option" where
  "NewCluster_Validate n =
     (if \<not> nameRe (nc_Name n) then
        Some (New KindInvalid ''cluster: name must match [a-z][a-z0-9-]{1,38}'')
      else if nc_PoolMode n \<noteq> [] \<and> nc_PoolMode n \<noteq> ''transaction'' \<and> nc_PoolMode n \<noteq> ''session'' then
        Some (New KindInvalid ''cluster: pool_mode must be transaction or session'')
      else None)"

section \<open>What validation guarantees\<close>

lemma nameRe_chars:
  "nameRe s \<Longrightarrow> c \<in> set s \<Longrightarrow> is_lower c \<or> is_digit c \<or> c = CHR ''-''"
  by (auto simp: nameRe_def list_all_iff split: list.splits)

lemma nameRe_length: "nameRe s \<Longrightarrow> 2 \<le> length s \<and> length s \<le> 39"
  by (auto simp: nameRe_def split: list.splits)

lemma Validate_None:
  "NewInstance_Validate n = None \<longleftrightarrow>
     nameRe (n_Name n) \<and> RepoType_Valid (n_RepoType n) \<and> minInstancePasswordLen \<le> length (n_Password n) \<and>
     (n_PGVersion n = [] \<or> n_PGVersion n \<in> set SupportedVersions) \<and>
     list_all param_ok (n_Parameters n) \<and> set (n_Extensions n) \<subseteq> set AllowedExtensionNames"
  by (auto simp: NewInstance_Validate_def ValidateParameters_iff [symmetric] ValidateExtensions_iff [symmetric]
      VersionSupported_def list_ex_iff split: option.splits)

lemma Validate_kind: "NewInstance_Validate n = Some e \<Longrightarrow> Kind e = KindInvalid"
  by (auto simp: NewInstance_Validate_def ValidateParameters_kind ValidateExtensions_kind
      split: if_splits option.splits)

lemma applyDefaults_fields [simp]:
  "n_Name (applyDefaults n) = n_Name n" "n_RepoType (applyDefaults n) = n_RepoType n"
  "n_Password (applyDefaults n) = n_Password n" "n_ClusterID (applyDefaults n) = n_ClusterID n"
  "n_Parameters (applyDefaults n) = n_Parameters n" "n_Extensions (applyDefaults n) = n_Extensions n"
  by (simp_all add: applyDefaults_def Let_def)

lemma applyDefaults_filled:
  "n_Role (applyDefaults n) \<noteq> RoleUnset \<and> n_PGVersion (applyDefaults n) \<noteq> [] \<and>
   n_Image (applyDefaults n) \<noteq> [] \<and> n_Superuser (applyDefaults n) \<noteq> []"
  by (auto simp: applyDefaults_def Let_def DefaultVersion_def ImageForVersion_def)

lemma applyDefaults_idem: "applyDefaults (applyDefaults n) = applyDefaults n"
  by (auto simp: applyDefaults_def Let_def DefaultVersion_def ImageForVersion_def)

end
