(* ===== verification/PgBackRest.thy ===== *)
theory PgBackRest
  imports PgConfig "HOL-Library.Char_ord" "HOL-Library.List_Lexorder"
begin

text \<open>
  Package \<^verbatim>\<open>internal/pgbackrest\<close>: rendering \<^verbatim>\<open>pgbackrest.conf\<close>, building the
  command lines, and turning the decoded \<^verbatim>\<open>info --output=json\<close> document into the
  stanzas of the catalog. A \<^verbatim>\<open>strings.Builder\<close> is the concatenation of what is written
  to it; \<^verbatim>\<open>sort.Strings\<close> is \<open>sort\<close> in the byte order of strings. The text of an
  error quotes a value without the escapes \<^verbatim>\<open>%q\<close> uses for unprintable characters.
\<close>

section \<open>Configuration (config.go)\<close>

record RepoS3_conf =
  s3_Endpoint :: string
  s3_Bucket :: string
  s3_Region :: string
  s3_Key :: string
  s3_Secret :: string
  s3_PathPrefix :: string
  s3_URIStyle :: string
  s3_VerifyTLS :: bool

record InstanceConf =
  ic_Stanza :: string
  ic_PGDataPath :: string
  ic_PGPort :: int
  ic_RetentionFull :: int
  ic_RepoType :: string
  ic_S3 :: RepoS3_conf
  ic_LocalPath :: string
  ic_CipherPass :: string
  ic_BlockIncr :: bool
  ic_Repo2Path :: string

text \<open>One \<^verbatim>\<open>Fprintf\<close> of a \<^verbatim>\<open>key=value\<close> line.\<close>

definition conf_line :: "string \<Rightarrow> string \<Rightarrow> string" where
  "conf_line key v = key @ ''='' @ v @ [nl]"

definition repo1_lines :: "InstanceConf \<Rightarrow> goerr + string" where
  "repo1_lines c =
     (if ic_RepoType c = ''s3'' then
        Inr (conf_line ''repo1-type'' ''s3'' @
             conf_line ''repo1-path'' (s3_PathPrefix (ic_S3 c)) @
             conf_line ''repo1-s3-endpoint'' (s3_Endpoint (ic_S3 c)) @
             conf_line ''repo1-s3-bucket'' (s3_Bucket (ic_S3 c)) @
             conf_line ''repo1-s3-region'' (s3_Region (ic_S3 c)) @
             conf_line ''repo1-s3-uri-style'' (if s3_URIStyle (ic_S3 c) = [] then ''path'' else s3_URIStyle (ic_S3 c)) @
             conf_line ''repo1-s3-key'' (s3_Key (ic_S3 c)) @
             conf_line ''repo1-s3-key-secret'' (s3_Secret (ic_S3 c)) @
             conf_line ''repo1-storage-verify-tls'' (if s3_VerifyTLS (ic_S3 c) then ''y'' else ''n''))
      else if ic_RepoType c = ''local'' then
        Inr (conf_line ''repo1-type'' ''posix'' @
             conf_line ''repo1-path'' (ic_LocalPath c))
      else Inl (Plain (''pgbackrest: unknown repo type '' @ [dquote] @ ic_RepoType c @ [dquote])))"

definition cipher_lines :: "string \<Rightarrow> string \<Rightarrow> string" where
  "cipher_lines repo pass =
     (if pass \<noteq> [] then
        conf_line (repo @ ''-cipher-type'') ''aes-256-cbc'' @ conf_line (repo @ ''-cipher-pass'') pass
      else [])"

definition conf_retention :: "InstanceConf \<Rightarrow> int" where
  "conf_retention c = (if ic_RetentionFull c \<le> 0 then 2 else ic_RetentionFull c)"

definition repo2_lines :: "InstanceConf \<Rightarrow> string" where
  "repo2_lines c =
     (if ic_Repo2Path c \<noteq> [] then
        conf_line ''repo2-type'' ''posix'' @
        conf_line ''repo2-path'' (ic_Repo2Path c) @
        cipher_lines ''repo2'' (ic_CipherPass c) @
        conf_line ''repo2-retention-full'' (Itoa (conf_retention c))
      else [])"

definition BackrestConf :: "InstanceConf \<Rightarrow> goerr + string" where
  "BackrestConf c =
     (case repo1_lines c of
        Inl e \<Rightarrow> Inl e
      | Inr repo1 \<Rightarrow> Inr (
          ''[global]'' @ [nl] @ repo1 @
          cipher_lines ''repo1'' (ic_CipherPass c) @
          conf_line ''repo1-retention-full'' (Itoa (conf_retention c)) @
          (if ic_BlockIncr c then conf_line ''repo1-block'' ''y'' else []) @
          repo2_lines c @
          conf_line ''start-fast'' ''y'' @
          conf_line ''log-level-console'' ''info'' @
          [nl] @
          ''['' @ ic_Stanza c @ '']'' @ [nl] @
          conf_line ''pg1-path'' (ic_PGDataPath c) @
          conf_line ''pg1-port'' (Itoa (ic_PGPort c))))"

definition PostgresConf :: "string \<Rightarrow> string" where
  "PostgresConf stanza =
     ''archive_mode = on'' @ [nl] @
     ''archive_command = '' @ [squote] @ ''pgbackrest --stanza='' @ stanza @ '' archive-push %p'' @ [squote, nl] @
     ''archive_timeout = 60'' @ [nl] @
     ''wal_level = replica'' @ [nl] @
     ''max_wal_senders = 3'' @ [nl]"

section \<open>Commands (cmd.go)\<close>

definition base :: "string \<Rightarrow> string \<Rightarrow> string list" where
  "base stanza confPath = [''pgbackrest'', ''--config='' @ confPath, ''--stanza='' @ stanza]"

definition StanzaCreate :: "string \<Rightarrow> string \<Rightarrow> string list" where
  "StanzaCreate stanza confPath = base stanza confPath @ [''stanza-create'']"

definition Check :: "string \<Rightarrow> string \<Rightarrow> string list" where
  "Check stanza confPath = base stanza confPath @ [''check'']"

definition backupTypes :: "string list" where
  "backupTypes = [''full'', ''incr'', ''diff'']"

record BackupOpts =
  bo_Annotations :: strmap
  bo_BackupStandby :: bool

definition map_get :: "strmap \<Rightarrow> string \<Rightarrow> string" where
  "map_get m k = (case map_of m k of None \<Rightarrow> [] | Some v \<Rightarrow> v)"

definition Backup :: "string \<Rightarrow> string \<Rightarrow> string \<Rightarrow> BackupOpts \<Rightarrow> goerr + string list" where
  "Backup stanza confPath backupType opts =
     (if backupType \<notin> set backupTypes then
        Inl (Plain (''pgbackrest: invalid backup type '' @ [dquote] @ backupType @ [dquote]))
      else
        let keys = sort (filter (\<lambda>k. k \<noteq> []) (map fst (bo_Annotations opts))) in
        Inr (base stanza confPath @ [''--type='' @ backupType] @
             (if bo_BackupStandby opts then [''--backup-standby''] else []) @
             map (\<lambda>k. ''--annotation='' @ k @ ''='' @ map_get (bo_Annotations opts) k) keys @
             [''backup'']))"

definition Info :: "string \<Rightarrow> string \<Rightarrow> string list" where
  "Info stanza confPath = base stanza confPath @ [''--output=json'', ''info'']"

definition Verify :: "string \<Rightarrow> string \<Rightarrow> string list" where
  "Verify stanza confPath = base stanza confPath @ [''verify'']"

definition Expire :: "string \<Rightarrow> string \<Rightarrow> string list" where
  "Expire stanza confPath = base stanza confPath @ [''expire'']"

definition ExpireSet :: "string \<Rightarrow> string \<Rightarrow> string \<Rightarrow> goerr + string list" where
  "ExpireSet stanza confPath st =
     (if st = [] then Inl (Plain ''pgbackrest: expire --set requires a backup label'')
      else Inr (base stanza confPath @ [''--set='' @ st, ''expire'']))"

record RestoreOpts =
  ro_Type :: string
  ro_Target :: string
  ro_TargetAction :: string
  ro_Set :: string
  ro_Delta :: bool
  ro_Repo :: int

definition Restore_args :: "string \<Rightarrow> string \<Rightarrow> RestoreOpts \<Rightarrow> goerr + string list" where
  "Restore_args stanza confPath opts =
     (if ro_Type opts \<noteq> [] \<and> ro_Target opts = [] then
        Inl (Plain (''pgbackrest: restore --type='' @ ro_Type opts @ '' requires a target''))
      else Inr (base stanza confPath @
        (if 0 < ro_Repo opts then [''--repo='' @ Itoa (ro_Repo opts)] else []) @
        (if ro_Type opts \<noteq> [] then
           [''--type='' @ ro_Type opts, ''--target='' @ ro_Target opts] @
           (if ro_TargetAction opts \<noteq> [] then [''--target-action='' @ ro_TargetAction opts] else [])
         else if ro_Set opts \<noteq> [] then [''--type=immediate'', ''--target-action=promote''] else []) @
        (if ro_Set opts \<noteq> [] then [''--set='' @ ro_Set opts] else []) @
        (if ro_Delta opts then [''--delta''] else []) @
        [''restore'']))"

section \<open>The catalog document (info.go)\<close>

text \<open>\<open>None\<close> is the zero \<^verbatim>\<open>time.Time\<close>, \<open>Some s\<close> is \<open>s\<close> seconds after the epoch.\<close>

type_synonym gotime = "int option"

record BackupInfo =
  b_Label :: string
  b_Type :: string
  b_StartTime :: gotime
  b_StopTime :: gotime
  b_Size :: int
  b_Delta :: int
  b_RepoSize :: int
  b_RepoDelta :: int
  b_WALStart :: string
  b_WALStop :: string
  b_References :: "string list"
  b_Error :: bool
  b_Annotations :: strmap

record Stanza =
  sz_Name :: string
  sz_StatusCode :: int
  sz_StatusMessage :: string
  sz_Backups :: "BackupInfo list"

record rawBackup =
  rb_Label :: string
  rb_Type :: string
  rb_Start :: int
  rb_Stop :: int
  rb_Size :: int
  rb_Delta :: int
  rb_RepoSize :: int
  rb_RepoDelta :: int
  rb_ArchiveStart :: string
  rb_ArchiveStop :: string
  rb_Reference :: "string list"
  rb_Error :: bool
  rb_Annotation :: strmap

record rawStanza =
  rs_Name :: string
  rs_Code :: int
  rs_Message :: string
  rs_Backup :: "rawBackup list"

definition Healthy :: "Stanza \<Rightarrow> bool" where
  "Healthy s \<longleftrightarrow> sz_StatusCode s = 0"

definition epochToTime :: "int \<Rightarrow> gotime" where
  "epochToTime sec = (if sec \<le> 0 then None else Some sec)"

definition backup_of_raw :: "rawBackup \<Rightarrow> BackupInfo" where
  "backup_of_raw rb = \<lparr>b_Label = rb_Label rb, b_Type = rb_Type rb,
     b_StartTime = epochToTime (rb_Start rb), b_StopTime = epochToTime (rb_Stop rb),
     b_Size = rb_Size rb, b_Delta = rb_Delta rb, b_RepoSize = rb_RepoSize rb,
     b_RepoDelta = rb_RepoDelta rb, b_WALStart = rb_ArchiveStart rb, b_WALStop = rb_ArchiveStop rb,
     b_References = rb_Reference rb, b_Error = rb_Error rb, b_Annotations = rb_Annotation rb\<rparr>"

definition stanza_of_raw :: "rawStanza \<Rightarrow> Stanza" where
  "stanza_of_raw rs = \<lparr>sz_Name = rs_Name rs, sz_StatusCode = rs_Code rs,
     sz_StatusMessage = rs_Message rs, sz_Backups = map backup_of_raw (rs_Backup rs)\<rparr>"

text \<open>The decoder of \<^verbatim>\<open>encoding/json\<close> into the raw shapes is the argument \<open>unmarshal\<close>.\<close>

definition ParseInfo :: "(string \<Rightarrow> goerr + rawStanza list) \<Rightarrow> string \<Rightarrow> goerr + Stanza list" where
  "ParseInfo unmarshal data =
     (case unmarshal data of
        Inl e \<Rightarrow> Inl (Wrapf ''pgbackrest: parse info json: '' e)
      | Inr raw \<Rightarrow> Inr (map stanza_of_raw raw))"

end
