(* ===== verification/Docker.thy ===== *)
theory Docker
  imports PgBackRest "HOL-Library.AList"
begin

text \<open>
  Package \<^verbatim>\<open>internal/docker\<close>: the \<^verbatim>\<open>ContainerRuntime\<close> interface the control
  plane depends on, the in-memory \<^verbatim>\<open>Fake\<close> that implements it, and the capped
  output buffer.

  The Docker daemon is not part of the repository, so the interface is a record of
  operations on an abstract environment state \<open>'e\<close>, a parameter of every definition
  that uses it. The record also carries what those definitions take from the process: the
  clock, the \<^verbatim>\<open>select\<close> on the context and a timer, the random source, and the
  standard library's cryptography and JSON decoder.
  The locale \<open>container_host\<close> states what the daemon documents (identifiers are fresh,
  an operation changes the container or volume it names and no other, time does not go
  back). It is interpreted on the \<^verbatim>\<open>Fake\<close> of \<^verbatim>\<open>fake.go\<close>. It does not promise that a
  removal works, not even a forced one: the daemon refuses to remove a volume that a container uses.
\<close>

section \<open>The runtime interface (runtime.go)\<close>

definition LabelManaged :: string where "LabelManaged = ''pgfleet.managed''"
definition LabelInstance :: string where "LabelInstance = ''pgfleet.instance''"
definition LabelRole :: string where "LabelRole = ''pgfleet.role''"
definition LabelName :: string where "LabelName = ''pgfleet.name''"
definition LabelStanza :: string where "LabelStanza = ''pgfleet.stanza''"
definition LabelRepoType :: string where "LabelRepoType = ''pgfleet.repo''"
definition LabelPGVersion :: string where "LabelPGVersion = ''pgfleet.pgversion''"
definition LabelCluster :: string where "LabelCluster = ''pgfleet.cluster''"

lemmas label_defs = LabelManaged_def LabelInstance_def LabelRole_def LabelName_def
  LabelStanza_def LabelRepoType_def LabelPGVersion_def LabelCluster_def

record port_mapping =
  ContainerPort :: int
  HostPort :: int
  Protocol :: string
  HostIP :: string

record mount =
  Volume :: string
  Path :: string
  ReadOnly :: bool

record container_spec =
  cs_Name :: string
  cs_Image :: string
  cs_Cmd :: "string list"
  cs_Env :: strmap
  cs_Labels :: strmap
  cs_Ports :: "port_mapping list"
  cs_Mounts :: "mount list"
  cs_Networks :: "string list"
  cs_User :: string
  cs_RestartPolicy :: string

record exec_result =
  ExitCode :: int
  Stdout :: string
  Stderr :: string

record container_state =
  st_ID :: string
  st_Name :: string
  st_Status :: string
  st_Running :: bool
  st_ExitCode :: int
  st_Health :: string
  st_Ports :: strmap
  st_RestartPolicy :: string

record container_info =
  ci_ID :: string
  ci_Name :: string
  ci_State :: string
  ci_Labels :: strmap

text \<open>
  The operations of \<^verbatim>\<open>ContainerRuntime\<close> that the control plane calls, then the
  process environment: \<open>Now\<close> is \<^verbatim>\<open>time.Now()\<close> in nanoseconds, \<open>Wait d\<close> is
  \<^verbatim>\<open>select { case <-ctx.Done(): return ctx.Err(); case <-time.After(d): }\<close>,
  \<open>RandRead n\<close> is \<^verbatim>\<open>rand.Read\<close> into \<open>n\<close> bytes. The record \<open>lib\<close> has
  HMAC-SHA256 of a key and a message; AES-256-GCM \<^verbatim>\<open>Seal\<close> and \<^verbatim>\<open>Open\<close> of a key, a
  nonce and a text (\<open>None\<close>: authentication failed); and \<^verbatim>\<open>json.Unmarshal\<close> of the
  pgBackRest information document.
\<close>

record lib =
  HmacSHA256 :: "string \<Rightarrow> string \<Rightarrow> string"
  GcmSeal :: "string \<Rightarrow> string \<Rightarrow> string \<Rightarrow> string"
  GcmOpen :: "string \<Rightarrow> string \<Rightarrow> string \<Rightarrow> string option"
  UnmarshalInfo :: "string \<Rightarrow> goerr + rawStanza list"

record 'e host =
  EnsureImage :: "string \<Rightarrow> ('e, unit) gofun"
  CreateContainer :: "container_spec \<Rightarrow> ('e, string) gofun"
  StartContainer :: "string \<Rightarrow> ('e, unit) gofun"
  StopContainer :: "string \<Rightarrow> nat option \<Rightarrow> ('e, unit) gofun"
  RemoveContainer :: "string \<Rightarrow> bool \<Rightarrow> ('e, unit) gofun"
  Inspect :: "string \<Rightarrow> ('e, container_state) gofun"
  Exec :: "string \<Rightarrow> string list \<Rightarrow> ('e, exec_result) gofun"
  Logs :: "string \<Rightarrow> bool \<Rightarrow> ('e, string) gofun"
  ListByLabel :: "strmap \<Rightarrow> ('e, container_info list) gofun"
  CreateVolume :: "string \<Rightarrow> strmap \<Rightarrow> ('e, unit) gofun"
  RemoveVolume :: "string \<Rightarrow> bool \<Rightarrow> ('e, unit) gofun"
  Now :: "'e \<Rightarrow> int"
  Wait :: "int \<Rightarrow> ('e, unit) gofun"
  RandRead :: "nat \<Rightarrow> ('e, string) gofun"
  Lib :: lib

text \<open>Indexing a Go map: the zero value for a missing key.\<close>

abbreviation lookup0 :: "strmap \<Rightarrow> string \<Rightarrow> string" where
  "lookup0 \<equiv> map_get"

definition labelsMatch :: "strmap \<Rightarrow> strmap \<Rightarrow> bool" where
  "labelsMatch have want \<longleftrightarrow> list_all (\<lambda>(k, v). lookup0 have k = v) want"

section \<open>The in-memory runtime (fake.go)\<close>

record fake_container =
  fc_spec :: container_spec
  fc_status :: string
  fc_running :: bool
  fc_exitCode :: int
  fc_ports :: strmap

record fake =
  fk_seq :: nat
  fk_containers :: "(string \<times> fake_container) list"
  fk_volumes :: "(string \<times> strmap) list"

definition NewFake :: fake where
  "NewFake = \<lparr>fk_seq = 0, fk_containers = [], fk_volumes = []\<rparr>"

definition fake_get :: "fake \<Rightarrow> string \<Rightarrow> goerr + fake_container" where
  "fake_get f cid = (case map_of (fk_containers f) cid of
       None \<Rightarrow> Inl (New KindNotFound (''container not found: '' @ cid))
     | Some c \<Rightarrow> Inr c)"

definition MarkExited :: "string \<Rightarrow> int \<Rightarrow> fake \<Rightarrow> fake" where
  "MarkExited cid ec f = (case map_of (fk_containers f) cid of
       None \<Rightarrow> f
     | Some c \<Rightarrow> f\<lparr>fk_containers := AList.update cid
         (c\<lparr>fc_running := False, fc_status := ''exited'', fc_exitCode := ec\<rparr>) (fk_containers f)\<rparr>)"

definition fake_EnsureImage :: "goerr option \<Rightarrow> string \<Rightarrow> (fake, unit) gofun" where
  "fake_EnsureImage imgErr ref = (case imgErr of None \<Rightarrow> ret () | Some e \<Rightarrow> fail e)"

definition fake_ports :: "nat \<Rightarrow> port_mapping list \<Rightarrow> strmap" where
  "fake_ports seq ps = fold (\<lambda>p m. AList.update
       (Itoa (ContainerPort p) @ ''/'' @ (if Protocol p = [] then ''tcp'' else Protocol p))
       (Itoa (if HostPort p = 0 then 30000 + int seq else HostPort p)) m) ps []"

definition fake_CreateContainer :: "container_spec \<Rightarrow> (fake, string) gofun" where
  "fake_CreateContainer spec f =
     (let seq = Suc (fk_seq f); cid = ''fake-'' @ show_nat seq
      in (Inr cid, f\<lparr>fk_seq := seq, fk_containers := AList.update cid
            \<lparr>fc_spec = spec, fc_status = ''created'', fc_running = False, fc_exitCode = 0,
             fc_ports = fake_ports seq (cs_Ports spec)\<rparr> (fk_containers f)\<rparr>))"

definition fake_StartContainer :: "(fake \<Rightarrow> string \<Rightarrow> fake) \<Rightarrow> string \<Rightarrow> (fake, unit) gofun" where
  "fake_StartContainer onStart cid f = (case fake_get f cid of
       Inl e \<Rightarrow> (Inl e, f)
     | Inr c \<Rightarrow> (Inr (), onStart (f\<lparr>fk_containers := AList.update cid
           (c\<lparr>fc_running := True, fc_status := ''running''\<rparr>) (fk_containers f)\<rparr>) cid))"

definition fake_StopContainer :: "string \<Rightarrow> nat option \<Rightarrow> (fake, unit) gofun" where
  "fake_StopContainer cid timeout f = (case fake_get f cid of
       Inl e \<Rightarrow> (Inl e, f)
     | Inr c \<Rightarrow> (Inr (), f\<lparr>fk_containers := AList.update cid
           (c\<lparr>fc_running := False, fc_status := ''exited''\<rparr>) (fk_containers f)\<rparr>))"

definition fake_RemoveContainer :: "string \<Rightarrow> bool \<Rightarrow> (fake, unit) gofun" where
  "fake_RemoveContainer cid force f = (case fake_get f cid of
       Inl e \<Rightarrow> (Inl e, f)
     | Inr c \<Rightarrow>
         if fc_running c \<and> \<not> force
         then (Inl (New KindConflict ''container is running; use force''), f)
         else (Inr (), f\<lparr>fk_containers := AList.delete cid (fk_containers f)\<rparr>))"

definition fake_Inspect :: "string \<Rightarrow> (fake, container_state) gofun" where
  "fake_Inspect cid f = (case fake_get f cid of
       Inl e \<Rightarrow> (Inl e, f)
     | Inr c \<Rightarrow> (Inr \<lparr>st_ID = cid, st_Name = cs_Name (fc_spec c), st_Status = fc_status c,
           st_Running = fc_running c, st_ExitCode = fc_exitCode c, st_Health = [],
           st_Ports = fc_ports c, st_RestartPolicy = cs_RestartPolicy (fc_spec c)\<rparr>, f))"

definition fake_Exec ::
    "(string \<Rightarrow> string list \<Rightarrow> goerr + exec_result) option \<Rightarrow> string \<Rightarrow> string list \<Rightarrow> (fake, exec_result) gofun" where
  "fake_Exec execFunc cid cmd f = (case fake_get f cid of
       Inl e \<Rightarrow> (Inl e, f)
     | Inr c \<Rightarrow>
         if \<not> fc_running c then (Inl (New KindConflict ''container is not running''), f)
         else (case execFunc of
                 Some fn \<Rightarrow> (fn cid cmd, f)
               | None \<Rightarrow> (Inr \<lparr>ExitCode = 0, Stdout = [], Stderr = []\<rparr>, f)))"

definition fake_Logs :: "string \<Rightarrow> bool \<Rightarrow> (fake, string) gofun" where
  "fake_Logs cid follow f = (case fake_get f cid of Inl e \<Rightarrow> (Inl e, f) | Inr c \<Rightarrow> (Inr [], f))"

definition fake_ListByLabel :: "strmap \<Rightarrow> (fake, container_info list) gofun" where
  "fake_ListByLabel labels f =
     (Inr (map (\<lambda>(cid, c). \<lparr>ci_ID = cid, ci_Name = cs_Name (fc_spec c), ci_State = fc_status c,
                            ci_Labels = cs_Labels (fc_spec c)\<rparr>)
            (filter (\<lambda>(cid, c). labelsMatch (cs_Labels (fc_spec c)) labels) (fk_containers f))), f)"

definition fake_CreateVolume :: "string \<Rightarrow> strmap \<Rightarrow> (fake, unit) gofun" where
  "fake_CreateVolume name labels f =
     (Inr (), f\<lparr>fk_volumes := AList.update name labels (fk_volumes f)\<rparr>)"

definition fake_RemoveVolume :: "string \<Rightarrow> bool \<Rightarrow> (fake, unit) gofun" where
  "fake_RemoveVolume name force f =
     (Inr (), f\<lparr>fk_volumes := AList.delete name (fk_volumes f)\<rparr>)"

text \<open>The process around the fake: its clock and whether the context is cancelled.\<close>

record process =
  pr_now :: int
  pr_cancelled :: bool
  pr_random :: "nat \<Rightarrow> char"
  pr_drawn :: nat

type_synonym fake_env = "fake \<times> process"

definition on_fake :: "(fake, 'a) gofun \<Rightarrow> (fake_env, 'a) gofun" where
  "on_fake m = (\<lambda>(f, p). case m f of (r, f') \<Rightarrow> (r, (f', p)))"

definition fake_wait :: "int \<Rightarrow> (fake_env, unit) gofun" where
  "fake_wait d = (\<lambda>(f, p). if pr_cancelled p then (Inl (Plain ''context canceled''), (f, p))
                           else (Inr (), (f, p\<lparr>pr_now := pr_now p + max 0 d\<rparr>)))"

definition fake_rand :: "nat \<Rightarrow> (fake_env, string) gofun" where
  "fake_rand n = (\<lambda>(f, p). (Inr (map (\<lambda>i. pr_random p (pr_drawn p + i)) [0..<n]),
                            (f, p\<lparr>pr_drawn := pr_drawn p + n\<rparr>)))"

text \<open>
  The hook \<^verbatim>\<open>OnStart\<close> that tests use for one-shot containers: a container whose
  specification has an exit code exits with it as soon as it starts.
\<close>

definition one_shot :: "(container_spec \<Rightarrow> int option) \<Rightarrow> fake \<Rightarrow> string \<Rightarrow> fake" where
  "one_shot exitOf f cid = (case map_of (fk_containers f) cid of
       None \<Rightarrow> f
     | Some c \<Rightarrow> (case exitOf (fc_spec c) of None \<Rightarrow> f | Some ec \<Rightarrow> MarkExited cid ec f))"

definition fake_host ::
    "(string \<Rightarrow> string list \<Rightarrow> goerr + exec_result) option \<Rightarrow> goerr option \<Rightarrow>
     (container_spec \<Rightarrow> int option) \<Rightarrow> lib \<Rightarrow> fake_env host" where
  "fake_host execFunc imgErr exitOf lb = \<lparr>
     EnsureImage = (\<lambda>ref. on_fake (fake_EnsureImage imgErr ref)),
     CreateContainer = (\<lambda>spec. on_fake (fake_CreateContainer spec)),
     StartContainer = (\<lambda>cid. on_fake (fake_StartContainer (one_shot exitOf) cid)),
     StopContainer = (\<lambda>cid t. on_fake (fake_StopContainer cid t)),
     RemoveContainer = (\<lambda>cid force. on_fake (fake_RemoveContainer cid force)),
     Inspect = (\<lambda>cid. on_fake (fake_Inspect cid)),
     Exec = (\<lambda>cid cmd. on_fake (fake_Exec execFunc cid cmd)),
     Logs = (\<lambda>cid follow. on_fake (fake_Logs cid follow)),
     ListByLabel = (\<lambda>l. on_fake (fake_ListByLabel l)),
     CreateVolume = (\<lambda>n l. on_fake (fake_CreateVolume n l)),
     RemoveVolume = (\<lambda>n force. on_fake (fake_RemoveVolume n force)),
     Now = (\<lambda>(f, p). pr_now p),
     Wait = fake_wait,
     RandRead = fake_rand,
     Lib = lb\<rparr>"

lemmas fake_run = fake_host_def on_fake_def fake_EnsureImage_def fake_CreateVolume_def fake_RemoveVolume_def
  fake_CreateContainer_def fake_StartContainer_def fake_StopContainer_def fake_RemoveContainer_def
  fake_get_def one_shot_def MarkExited_def fake_Inspect_def fake_Exec_def fake_Logs_def fake_ports_def NewFake_def

section \<open>The capped output buffer (cappedbuffer.go)\<close>

record cappedBuffer =
  cb_buf :: string
  cb_limit :: int
  cb_truncated :: bool

definition cb_Write :: "cappedBuffer \<Rightarrow> string \<Rightarrow> nat \<times> cappedBuffer" where
  "cb_Write c p =
     (let remaining = cb_limit c - int (length (cb_buf c)) in
      if remaining \<le> 0 then
        (length p, if 0 < length p then c\<lparr>cb_truncated := True\<rparr> else c)
      else if remaining < int (length p) then
        (length p, c\<lparr>cb_buf := cb_buf c @ take (nat remaining) p, cb_truncated := True\<rparr>)
      else (length p, c\<lparr>cb_buf := cb_buf c @ p\<rparr>))"

primrec cb_write_all :: "cappedBuffer \<Rightarrow> string list \<Rightarrow> cappedBuffer" where
  "cb_write_all c [] = c"
| "cb_write_all c (p # ps) = cb_write_all (snd (cb_Write c p)) ps"

section \<open>What the runtime promises\<close>

locale container_host =
  fixes h :: "'e host"
    and inv :: "'e \<Rightarrow> bool"
    and conts :: "'e \<Rightarrow> string set"
    and vols :: "'e \<Rightarrow> string set"
  assumes inv_EnsureImage: "keeps inv (EnsureImage h ref)"
    and inv_CreateContainer: "keeps inv (CreateContainer h spec)"
    and inv_StartContainer: "keeps inv (StartContainer h cid)"
    and inv_StopContainer: "keeps inv (StopContainer h cid tmo)"
    and inv_RemoveContainer: "keeps inv (RemoveContainer h cid force)"
    and inv_Inspect: "keeps inv (Inspect h cid)"
    and inv_Exec: "keeps inv (Exec h cid cmd)"
    and inv_Logs: "keeps inv (Logs h cid follow)"
    and inv_ListByLabel: "keeps inv (ListByLabel h labels)"
    and inv_CreateVolume: "keeps inv (CreateVolume h name labels)"
    and inv_RemoveVolume: "keeps inv (RemoveVolume h name force)"
    and inv_Wait: "keeps inv (Wait h d)"
    and inv_RandRead: "keeps inv (RandRead h n)"
    and create_fresh: "inv e \<Longrightarrow> CreateContainer h spec e = (Inr cid, e') \<Longrightarrow>
        cid \<notin> conts e \<and> cid \<noteq> [] \<and> conts e' = insert cid (conts e)"
    and create_fail: "inv e \<Longrightarrow> CreateContainer h spec e = (Inl x, e') \<Longrightarrow> conts e' = conts e"
    and create_vols: "inv e \<Longrightarrow> CreateContainer h spec e = (rs, e') \<Longrightarrow>
        vols e \<subseteq> vols e' \<and> vols e' \<subseteq> vols e \<union> Volume ` set (cs_Mounts spec)"
    and remove_cont: "inv e \<Longrightarrow> RemoveContainer h cid force e = (Inr u, e') \<Longrightarrow> conts e' = conts e - {cid}"
    and remove_cont_fail: "inv e \<Longrightarrow> RemoveContainer h cid force e = (Inl x, e') \<Longrightarrow>
        conts e - {cid} \<subseteq> conts e' \<and> conts e' \<subseteq> conts e"
    and remove_cont_vols: "inv e \<Longrightarrow> RemoveContainer h cid force e = (r, e') \<Longrightarrow> vols e' = vols e"
    and create_vol: "inv e \<Longrightarrow> CreateVolume h name labels e = (Inr u, e') \<Longrightarrow> vols e' = insert name (vols e)"
    and create_vol_fail: "inv e \<Longrightarrow> CreateVolume h name labels e = (Inl x, e') \<Longrightarrow> vols e' = vols e"
    and create_vol_conts: "inv e \<Longrightarrow> CreateVolume h name labels e = (r, e') \<Longrightarrow> conts e' = conts e"
    and remove_vol: "inv e \<Longrightarrow> RemoveVolume h name force e = (Inr u, e') \<Longrightarrow> vols e' = vols e - {name}"
    and remove_vol_fail: "inv e \<Longrightarrow> RemoveVolume h name force e = (Inl x, e') \<Longrightarrow>
        vols e - {name} \<subseteq> vols e' \<and> vols e' \<subseteq> vols e"
    and remove_vol_conts: "inv e \<Longrightarrow> RemoveVolume h name force e = (r, e') \<Longrightarrow> conts e' = conts e"
    and frame_EnsureImage: "inv e \<Longrightarrow> EnsureImage h ref e = (r, e') \<Longrightarrow> conts e' = conts e \<and> vols e' = vols e"
    and frame_StartContainer: "inv e \<Longrightarrow> StartContainer h cid e = (r, e') \<Longrightarrow> conts e' = conts e \<and> vols e' = vols e"
    and frame_StopContainer: "inv e \<Longrightarrow> StopContainer h cid tmo e = (r, e') \<Longrightarrow> conts e' = conts e \<and> vols e' = vols e"
    and frame_Inspect: "inv e \<Longrightarrow> Inspect h cid e = (s, e') \<Longrightarrow> conts e' = conts e \<and> vols e' = vols e"
    and frame_Exec: "inv e \<Longrightarrow> Exec h cid cmd e = (xr, e') \<Longrightarrow> conts e' = conts e \<and> vols e' = vols e"
    and frame_Logs: "inv e \<Longrightarrow> Logs h cid follow e = (l, e') \<Longrightarrow> conts e' = conts e \<and> vols e' = vols e"
    and frame_ListByLabel: "inv e \<Longrightarrow> ListByLabel h labels e = (ls, e') \<Longrightarrow> conts e' = conts e \<and> vols e' = vols e"
    and frame_Wait: "inv e \<Longrightarrow> Wait h d e = (r, e') \<Longrightarrow> conts e' = conts e \<and> vols e' = vols e"
    and frame_RandRead: "inv e \<Longrightarrow> RandRead h n e = (br, e') \<Longrightarrow> conts e' = conts e \<and> vols e' = vols e"
    and rand_length: "RandRead h n e = (Inr bs, e') \<Longrightarrow> length bs = n"
    and time_Exec: "Exec h cid cmd e = (xr, e') \<Longrightarrow> Now h e \<le> Now h e'"
    and time_Inspect: "Inspect h cid e = (s, e') \<Longrightarrow> Now h e \<le> Now h e'"
    and time_Logs: "Logs h cid follow e = (l, e') \<Longrightarrow> Now h e \<le> Now h e'"
    and time_Wait: "Wait h d e = (Inr u, e') \<Longrightarrow> Now h e + d \<le> Now h e'"

text \<open>
  A removal the daemon refused: the forced removal of container \<open>c\<close> failed when the containers were
  \<open>C\<close>, or that of volume \<open>v\<close> when they were \<open>C\<close> and the volume existed.
\<close>

definition cont_refused :: "'e host \<Rightarrow> ('e \<Rightarrow> bool) \<Rightarrow> ('e \<Rightarrow> string set) \<Rightarrow> string \<Rightarrow> string set \<Rightarrow> bool" where
  "cont_refused h rinv conts c C \<longleftrightarrow> (\<exists>e x e'. rinv e \<and> conts e = C \<and> RemoveContainer h c True e = (Inl x, e'))"

definition vol_refused :: "'e host \<Rightarrow> ('e \<Rightarrow> bool) \<Rightarrow> ('e \<Rightarrow> string set) \<Rightarrow> ('e \<Rightarrow> string set) \<Rightarrow> string \<Rightarrow> string set \<Rightarrow> bool" where
  "vol_refused h rinv conts vols v C \<longleftrightarrow>
     (\<exists>e x e'. rinv e \<and> conts e = C \<and> v \<in> vols e \<and> RemoveVolume h v True e = (Inl x, e'))"

section \<open>The fake keeps the promises\<close>

definition cids :: "fake \<Rightarrow> string set" where
  "cids f = fst ` set (fk_containers f)"

definition vids :: "fake \<Rightarrow> string set" where
  "vids f = fst ` set (fk_volumes f)"

definition ids_ok :: "fake \<Rightarrow> bool" where
  "ids_ok f \<longleftrightarrow> (\<forall>c\<in>cids f. \<exists>k\<le>fk_seq f. c = ''fake-'' @ show_nat k)"

definition same_objects :: "fake \<Rightarrow> fake \<Rightarrow> bool" where
  "same_objects f f' \<longleftrightarrow> cids f' = cids f \<and> vids f' = vids f \<and> fk_seq f' = fk_seq f"

abbreviation fake_inv :: "fake_env \<Rightarrow> bool" where "fake_inv e \<equiv> ids_ok (fst e)"
abbreviation fake_conts :: "fake_env \<Rightarrow> string set" where "fake_conts e \<equiv> cids (fst e)"
abbreviation fake_vols :: "fake_env \<Rightarrow> string set" where "fake_vols e \<equiv> vids (fst e)"

lemma show_nat_inject [simp]: "show_nat m = show_nat n \<longleftrightarrow> m = n"
proof
  assume "show_nat m = show_nat n"
  moreover have "parse_digits (max m n) 0 (show_nat m) = Inr m"
    "parse_digits (max m n) 0 (show_nat n) = Inr n" by (simp_all add: parse_digits_show)
  ultimately show "m = n" by (metis sum.inject(2))
qed simp

lemma cids_update: "cids (g\<lparr>fk_containers := AList.update c x (fk_containers f)\<rparr>) = insert c (cids f)"
  by (simp add: cids_def dom_map_of_conv_image_fst [symmetric] update_conv')

lemma cids_delete: "cids (g\<lparr>fk_containers := AList.delete c (fk_containers f)\<rparr>) = cids f - {c}"
  by (auto simp: cids_def AList.delete_eq)

lemma vids_update: "vids (g\<lparr>fk_volumes := AList.update v x (fk_volumes f)\<rparr>) = insert v (vids f)"
  by (simp add: vids_def dom_map_of_conv_image_fst [symmetric] update_conv')

lemma vids_delete: "vids (g\<lparr>fk_volumes := AList.delete v (fk_volumes f)\<rparr>) = vids f - {v}"
  by (auto simp: vids_def AList.delete_eq)

lemma cids_frame [simp]:
  "cids (f\<lparr>fk_seq := n\<rparr>) = cids f" "cids (f\<lparr>fk_volumes := vs\<rparr>) = cids f"
  "vids (f\<lparr>fk_seq := n\<rparr>) = vids f" "vids (f\<lparr>fk_containers := cs\<rparr>) = vids f"
  by (simp_all add: cids_def vids_def)

lemma map_of_cids: "map_of (fk_containers f) c = None \<longleftrightarrow> c \<notin> cids f"
  by (simp add: cids_def map_of_eq_None_iff)

lemma map_of_cids_Some: "map_of (fk_containers f) c = Some x \<Longrightarrow> c \<in> cids f"
  by (metis map_of_cids option.distinct(1))

lemma fake_get_cont: "fake_get f c = Inr x \<Longrightarrow> c \<in> cids f"
  by (auto simp: fake_get_def split: option.splits dest: map_of_cids_Some)

lemma fake_get_fail: "fake_get f c = Inl e \<Longrightarrow> c \<notin> cids f"
  by (auto simp: fake_get_def map_of_cids split: option.splits)

lemma same_objects_refl [simp]: "same_objects f f"
  by (simp add: same_objects_def)

lemma same_objects_trans: "same_objects f g \<Longrightarrow> same_objects g k \<Longrightarrow> same_objects f k"
  by (simp add: same_objects_def)

lemma same_update: "c \<in> cids f \<Longrightarrow> same_objects f (f\<lparr>fk_containers := AList.update c x (fk_containers f)\<rparr>)"
  by (simp add: same_objects_def cids_update insert_absorb)

lemma same_one_shot: "same_objects f (one_shot x f c)"
  by (auto simp: one_shot_def MarkExited_def split: option.splits intro!: same_update dest: map_of_cids_Some)

lemma same_fake_ops:
  "same_objects f (snd (fake_EnsureImage imgErr ref f))"
  "same_objects f (snd (fake_StartContainer (one_shot x) c f))"
  "same_objects f (snd (fake_StopContainer c tmo f))"
  "same_objects f (snd (fake_Inspect c f))"
  "same_objects f (snd (fake_Exec execFunc c cmd f))"
  "same_objects f (snd (fake_Logs c follow f))"
  "same_objects f (snd (fake_ListByLabel labels f))"
proof -
  show "same_objects f (snd (fake_StartContainer (one_shot x) c f))"
    by (auto simp: fake_StartContainer_def split: sum.splits dest!: fake_get_cont
        intro: same_objects_trans [OF same_update same_one_shot])
qed (auto simp: fake_EnsureImage_def fake_StopContainer_def fake_Inspect_def fake_Exec_def
    fake_Logs_def fake_ListByLabel_def prog_defs
    split: sum.splits option.splits dest!: fake_get_cont intro: same_update)

lemma same_keeps_ids: "same_objects f f' \<Longrightarrow> ids_ok f \<Longrightarrow> ids_ok f'"
  by (simp add: same_objects_def ids_ok_def)

lemma on_fake_result: "on_fake m e = (r, e') \<Longrightarrow> m (fst e) = (r, fst e')"
  by (cases e) (auto simp: on_fake_def split: prod.splits)

lemma on_fake_snd [simp]: "fst (snd (on_fake m e)) = snd (m (fst e))" "fst (on_fake m e) = fst (m (fst e))"
  by (simp_all add: on_fake_def split: prod.splits)

lemma on_fake_clock: "on_fake m e = (r, e') \<Longrightarrow> snd e' = snd e"
  by (cases e) (auto simp: on_fake_def split: prod.splits)

lemma fake_frame: "on_fake m e = (r, e') \<Longrightarrow> same_objects (fst e) (snd (m (fst e))) \<Longrightarrow>
    fake_conts e' = fake_conts e \<and> fake_vols e' = fake_vols e"
  by (drule on_fake_result) (simp add: same_objects_def)

lemma keeps_ids_on_fake: "(\<And>f. ids_ok f \<Longrightarrow> ids_ok (snd (m f))) \<Longrightarrow> keeps fake_inv (on_fake m)"
  by (simp add: keeps_def)

lemma fake_create_ids: "ids_ok f \<Longrightarrow> ids_ok (snd (fake_CreateContainer spec f))"
  by (auto simp: ids_ok_def fake_CreateContainer_def Let_def cids_update intro: le_SucI)

lemma fake_create_spec:
  assumes "ids_ok f" "fake_CreateContainer spec f = (r, f')"
  shows "\<exists>c. r = Inr c \<and> c \<notin> cids f \<and> c \<noteq> [] \<and> cids f' = insert c (cids f) \<and> vids f' = vids f"
proof -
  have "''fake-'' @ show_nat (Suc (fk_seq f)) \<notin> cids f"
    using assms(1) by (auto simp: ids_ok_def)
  then show ?thesis
    using assms(2) by (auto simp: fake_CreateContainer_def Let_def cids_update)
qed

lemma fake_remove_spec:
  "fake_RemoveContainer c force f = (r, f') \<Longrightarrow>
     vids f' = vids f \<and> fk_seq f' = fk_seq f \<and> cids f' = (if r = Inr () then cids f - {c} else cids f)"
  by (auto simp: fake_RemoveContainer_def cids_delete split: sum.splits if_splits)

lemma fake_remove_ids: "ids_ok f \<Longrightarrow> ids_ok (snd (fake_RemoveContainer c force f))"
  by (auto simp: fake_RemoveContainer_def ids_ok_def cids_delete split: sum.split)

lemma fake_volume_spec:
  "fake_CreateVolume v l f = (r, f') \<Longrightarrow> r = Inr () \<and> vids f' = insert v (vids f) \<and> cids f' = cids f"
  "fake_RemoveVolume v force f = (r, f') \<Longrightarrow> r = Inr () \<and> vids f' = vids f - {v} \<and> cids f' = cids f"
  by (auto simp: fake_CreateVolume_def fake_RemoveVolume_def vids_update vids_delete)

lemma fake_wait_frame: "fake_wait d e = (r, e') \<Longrightarrow> fst e' = fst e \<and> (r = Inr () \<longrightarrow> pr_now (snd e) + d \<le> pr_now (snd e'))"
  by (cases e) (auto simp: fake_wait_def split: if_splits)

interpretation fake_rt: container_host "fake_host execFunc imgErr exitOf lb" fake_inv fake_conts fake_vols
  for execFunc imgErr exitOf lb
proof (unfold_locales, unfold fake_host_def host.simps, goal_cases)
  case 1 show ?case by (rule keeps_ids_on_fake) (rule same_keeps_ids [OF same_fake_ops(1)])
next
  case 2 show ?case by (rule keeps_ids_on_fake) (rule fake_create_ids)
next
  case 3 show ?case by (rule keeps_ids_on_fake) (rule same_keeps_ids [OF same_fake_ops(2)])
next
  case 4 show ?case by (rule keeps_ids_on_fake) (rule same_keeps_ids [OF same_fake_ops(3)])
next
  case 5 show ?case by (rule keeps_ids_on_fake) (rule fake_remove_ids)
next
  case 6 show ?case by (rule keeps_ids_on_fake) (rule same_keeps_ids [OF same_fake_ops(4)])
next
  case 7 show ?case by (rule keeps_ids_on_fake) (rule same_keeps_ids [OF same_fake_ops(5)])
next
  case 8 show ?case by (rule keeps_ids_on_fake) (rule same_keeps_ids [OF same_fake_ops(6)])
next
  case 9 show ?case by (rule keeps_ids_on_fake) (rule same_keeps_ids [OF same_fake_ops(7)])
next
  case 10 show ?case by (rule keeps_ids_on_fake) (simp add: ids_ok_def fake_CreateVolume_def)
next
  case 11 show ?case by (rule keeps_ids_on_fake) (simp add: ids_ok_def fake_RemoveVolume_def)
next
  case 12 show ?case by (simp add: keeps_def fake_wait_def split: prod.splits)
next
  case 13 show ?case by (simp add: keeps_def fake_rand_def split: prod.splits)
next
  case 14 then show ?case using fake_create_spec [OF 14(1) on_fake_result [OF 14(2)]] by simp
next
  case 15 then show ?case using fake_create_spec [OF 15(1) on_fake_result [OF 15(2)]] by simp
next
  case 16 then show ?case using fake_create_spec [OF 16(1) on_fake_result [OF 16(2)]] by auto
next
  case 17 then show ?case by (auto dest!: on_fake_result fake_remove_spec)
next
  case 18 then show ?case by (auto dest!: on_fake_result fake_remove_spec)
next
  case 19 then show ?case by (auto dest!: on_fake_result fake_remove_spec)
next
  case 20 then show ?case by (auto dest!: on_fake_result fake_volume_spec(1))
next
  case 21 then show ?case by (auto dest!: on_fake_result fake_volume_spec(1))
next
  case 22 then show ?case by (auto dest!: on_fake_result fake_volume_spec(1))
next
  case 23 then show ?case by (auto dest!: on_fake_result fake_volume_spec(2))
next
  case 24 then show ?case by (auto dest!: on_fake_result fake_volume_spec(2))
next
  case 25 then show ?case by (auto dest!: on_fake_result fake_volume_spec(2))
next
  case 26 then show ?case by (simp add: fake_frame same_fake_ops(1))
next
  case 27 then show ?case by (simp add: fake_frame same_fake_ops(2))
next
  case 28 then show ?case by (simp add: fake_frame same_fake_ops(3))
next
  case 29 then show ?case by (simp add: fake_frame same_fake_ops(4))
next
  case 30 then show ?case by (simp add: fake_frame same_fake_ops(5))
next
  case 31 then show ?case by (simp add: fake_frame same_fake_ops(6))
next
  case 32 then show ?case by (simp add: fake_frame same_fake_ops(7))
next
  case 33 then show ?case by (simp add: fake_wait_frame)
next
  case 34 then show ?case by (auto simp: fake_rand_def split: prod.splits)
next
  case 35 then show ?case by (auto simp: fake_rand_def split: prod.splits)
next
  case 36 then show ?case by (auto dest!: on_fake_clock split: prod.splits)
next
  case 37 then show ?case by (auto dest!: on_fake_clock split: prod.splits)
next
  case 38 then show ?case by (auto dest!: on_fake_clock split: prod.splits)
next
  case 39 then show ?case by (auto dest!: fake_wait_frame split: prod.splits)
qed

section \<open>Facts about the capped buffer\<close>

definition cb_wf :: "cappedBuffer \<Rightarrow> bool" where
  "cb_wf c \<longleftrightarrow> int (length (cb_buf c)) \<le> cb_limit c"

lemma cb_Write_reports_all: "fst (cb_Write c p) = length p"
  by (simp add: cb_Write_def Let_def)

lemma cb_Write_wf: "cb_wf c \<Longrightarrow> cb_wf (snd (cb_Write c p))"
  by (auto simp: cb_Write_def cb_wf_def Let_def)

lemma cb_Write_limit [simp]: "cb_limit (snd (cb_Write c p)) = cb_limit c"
  by (simp add: cb_Write_def Let_def)

lemma cb_Write_buf:
  "cb_wf c \<Longrightarrow> cb_buf (snd (cb_Write c p)) = take (nat (cb_limit c)) (cb_buf c @ p)"
  by (auto simp: cb_Write_def cb_wf_def Let_def nat_diff_distrib)

lemma cb_Write_truncated:
  "cb_wf c \<Longrightarrow> cb_truncated (snd (cb_Write c p)) \<longleftrightarrow>
     cb_truncated c \<or> cb_limit c < int (length (cb_buf c) + length p)"
  by (auto simp: cb_Write_def cb_wf_def Let_def)

lemma cb_write_all_gen:
  "cb_wf c \<Longrightarrow> cb_wf (cb_write_all c ps) \<and> cb_limit (cb_write_all c ps) = cb_limit c \<and>
     cb_buf (cb_write_all c ps) = take (nat (cb_limit c)) (cb_buf c @ concat ps) \<and>
     (cb_truncated (cb_write_all c ps) \<longleftrightarrow>
        cb_truncated c \<or> cb_limit c < int (length (cb_buf c) + length (concat ps)))"
proof (induction ps arbitrary: c)
  case (Cons p ps)
  have len: "length (take (nat (cb_limit c)) (cb_buf c @ p)) = min (nat (cb_limit c)) (length (cb_buf c) + length p)"
    by simp
  show ?case
    using Cons.IH [OF cb_Write_wf [OF Cons.prems, of p]] Cons.prems
    by (auto simp: cb_Write_buf cb_Write_truncated len cb_wf_def min_def)
qed (simp add: cb_wf_def)

text \<open>
  Whatever sequence of chunks a container writes, the buffer never holds more than its
  limit, it holds exactly the first \<open>limit\<close> bytes of the whole output, and the truncation
  flag is set if and only if some byte was dropped.
\<close>

theorem cb_write_all_correct:
  assumes "0 \<le> limit"
  shows "let c = cb_write_all \<lparr>cb_buf = [], cb_limit = limit, cb_truncated = False\<rparr> ps in
           int (length (cb_buf c)) \<le> limit \<and>
           cb_buf c = take (nat limit) (concat ps) \<and>
           (cb_truncated c \<longleftrightarrow> limit < int (length (concat ps)))"
  using cb_write_all_gen [of "\<lparr>cb_buf = [], cb_limit = limit, cb_truncated = False\<rparr>" ps] assms
  by (auto simp: cb_wf_def Let_def)

theorem cb_write_all_correct_witness:
  "(0::int) \<le> 3 \<and>
   cb_buf (cb_write_all \<lparr>cb_buf = [], cb_limit = 3, cb_truncated = False\<rparr> [''ab'', ''cd'']) = ''abc''"
  using cb_write_all_correct [of 3 "[''ab'', ''cd'']"] by (simp add: Let_def)

end
