(* ===== verification/Secrets.thy ===== *)
theory Secrets
  imports Docker
begin

text \<open>
  Package \<^verbatim>\<open>internal/secrets\<close>: envelope encryption. A secret is sealed under a fresh
  data key, the data key under the long-lived key. AES-256-GCM and the random source are
  the fields \<open>GcmSeal\<close>, \<open>GcmOpen\<close> and \<open>RandRead\<close> of the host; a GCM instance
  is represented by its key. The wire form (\<^verbatim>\<open>Marshal\<close>, \<^verbatim>\<open>Unmarshal\<close>) is the JSON
  encoding of the \<open>Sealed\<close> record, and a stored blob is that record.
\<close>

definition CurrentKeyVersion :: int where
  "CurrentKeyVersion = 1"

definition keyLen :: nat where
  "keyLen = 32"

definition NonceSize :: nat where
  "NonceSize = 12"

record Sealed =
  Ciphertext :: string
  Nonce :: string
  EncryptedDEK :: string
  DEKNonce :: string
  KeyVersion :: int

definition newGCM :: "string \<Rightarrow> goerr + string" where
  "newGCM key = (if length key \<noteq> keyLen then Inl (Plain ''key must be 32 bytes'') else Inr key)"

definition Cipher_New :: "string \<Rightarrow> goerr + string" where
  "Cipher_New kek = (case newGCM kek of
       Inl e \<Rightarrow> Inl (Wrapf ''secrets: invalid KEK: '' e)
     | Inr gcm \<Rightarrow> Inr gcm)"

definition wrap_error :: "(goerr \<Rightarrow> goerr) \<Rightarrow> ('s, 'a) gofun \<Rightarrow> ('s, 'a) gofun" where
  "wrap_error w m = attempt m (\<lambda>r. case r of Inl e \<Rightarrow> fail (w e) | Inr x \<Rightarrow> ret x)"

definition seal :: "'e host \<Rightarrow> string \<Rightarrow> string \<Rightarrow> ('e, string \<times> string) gofun" where
  "seal h aead plaintext =
     bindE (wrap_error (Wrapf ''secrets: generate nonce: '') (RandRead h NonceSize)) (\<lambda>nonce.
     ret (nonce, GcmSeal (Lib h) aead nonce plaintext))"

definition Encrypt :: "'e host \<Rightarrow> string \<Rightarrow> string \<Rightarrow> ('e, Sealed) gofun" where
  "Encrypt h kekGCM plaintext =
     bindE (wrap_error (Wrapf ''secrets: generate DEK: '') (RandRead h keyLen)) (\<lambda>dek.
     case newGCM dek of
       Inl e \<Rightarrow> fail e
     | Inr dekGCM \<Rightarrow>
         bindE (seal h dekGCM plaintext) (\<lambda>(dataNonce, ciphertext).
         bindE (seal h kekGCM dek) (\<lambda>(dekNonce, wrappedDEK).
         ret \<lparr>Ciphertext = ciphertext, Nonce = dataNonce, EncryptedDEK = wrappedDEK,
              DEKNonce = dekNonce, KeyVersion = CurrentKeyVersion\<rparr>)))"

definition gcm_auth_failed :: goerr where
  "gcm_auth_failed = Plain ''cipher: message authentication failed''"

definition Decrypt :: "lib \<Rightarrow> string \<Rightarrow> Sealed \<Rightarrow> goerr + string" where
  "Decrypt lb kekGCM s =
     (if length (DEKNonce s) \<noteq> NonceSize then
        Inl (Plain ''secrets: malformed sealed secret (DEK nonce length)'')
      else case GcmOpen lb kekGCM (DEKNonce s) (EncryptedDEK s) of
        None \<Rightarrow> Inl (Wrapf ''secrets: unwrap DEK: '' gcm_auth_failed)
      | Some dek \<Rightarrow> (case newGCM dek of
          Inl e \<Rightarrow> Inl e
        | Inr dekGCM \<Rightarrow>
            if length (Nonce s) \<noteq> NonceSize then
              Inl (Plain ''secrets: malformed sealed secret (data nonce length)'')
            else (case GcmOpen lb dekGCM (Nonce s) (Ciphertext s) of
              None \<Rightarrow> Inl (Wrapf ''secrets: decrypt: '' gcm_auth_failed)
            | Some plaintext \<Rightarrow> Inr plaintext)))"

section \<open>Decryption inverts encryption\<close>

text \<open>
  What the code relies on: opening what was sealed under the same key and nonce gives the
  text back, and the random source delivers the bytes asked for.
\<close>

locale gcm_host =
  fixes h :: "'e host"
  assumes gcm_open: "length key = keyLen \<Longrightarrow> length nonce = NonceSize \<Longrightarrow>
      GcmOpen (Lib h) key nonce (GcmSeal (Lib h) key nonce plain) = Some plain"
    and gcm_rand: "RandRead h n e = (Inr bs, e') \<Longrightarrow> length bs = n"
begin

lemma seal_result:
  assumes "seal h key plain e = (Inr (nonce, ct), e')"
  shows "length nonce = NonceSize \<and> ct = GcmSeal (Lib h) key nonce plain"
  using assms gcm_rand
  by (auto simp: seal_def wrap_error_def prog_defs split: prod.splits sum.splits)

lemma Decrypt_Encrypt:
  assumes "length kek = keyLen" "Encrypt h kek plain e = (Inr s, e')"
  shows "Decrypt (Lib h) kek s = Inr plain"
proof -
  from assms(2) obtain dek e1 n1 c1 e2 n2 c2 e3 where *:
    "RandRead h keyLen e = (Inr dek, e1)" "newGCM dek = Inr dek"
    "seal h dek plain e1 = (Inr (n1, c1), e2)" "seal h kek dek e2 = (Inr (n2, c2), e3)"
    "s = \<lparr>Ciphertext = c1, Nonce = n1, EncryptedDEK = c2, DEKNonce = n2, KeyVersion = CurrentKeyVersion\<rparr>"
    unfolding Encrypt_def wrap_error_def
    by (auto simp: prog_defs newGCM_def split: prod.splits sum.splits if_splits)
  have "length dek = keyLen" using gcm_rand [OF *(1)] .
  then show ?thesis
    using seal_result [OF *(3)] seal_result [OF *(4)] *(2,5) assms(1)
    by (simp add: Decrypt_def gcm_open)
qed

end

text \<open>
  A toy cipher with an authentication tag, used to exhibit concrete runs: the ciphertext is
  the key, the nonce and the text, and opening checks the first two.
\<close>

definition tagged_lib :: lib where
  "tagged_lib = \<lparr>HmacSHA256 = (\<lambda>k m. k @ m), GcmSeal = (\<lambda>k n p. k @ n @ p),
     GcmOpen = (\<lambda>k n c. if take (length k + length n) c = k @ n then Some (drop (length k + length n) c) else None),
     UnmarshalInfo = (\<lambda>_. Inl (Plain ''unexpected end of JSON input''))\<rparr>"

definition plain_process :: process where
  "plain_process = \<lparr>pr_now = 0, pr_cancelled = False, pr_random = (\<lambda>i. char_of i), pr_drawn = 0\<rparr>"

interpretation fake_gcm: gcm_host "fake_host execFunc imgErr exitOf tagged_lib"
  for execFunc imgErr exitOf
proof (unfold_locales, goal_cases)
  case 1 then show ?case by (simp add: fake_host_def tagged_lib_def)
next
  case 2 then show ?case by (rule fake_rt.rand_length)
qed

text \<open>
  Envelope encryption round trip: whenever \<open>Encrypt\<close> under a 32-byte key returns a
  sealed secret, \<open>Decrypt\<close> under the same key returns the plaintext, for every AEAD that
  opens what it sealed and every random source.
\<close>

theorem Encrypt_Decrypt_roundtrip:
  assumes "\<And>key nonce p. length key = keyLen \<Longrightarrow> length nonce = NonceSize \<Longrightarrow>
      GcmOpen (Lib h) key nonce (GcmSeal (Lib h) key nonce p) = Some p"
    and "\<And>n e bs e'. RandRead h n e = (Inr bs, e') \<Longrightarrow> length bs = n"
    and "Cipher_New kek = Inr c" "Encrypt h c plain e = (Inr s, e')"
  shows "Decrypt (Lib h) c s = Inr plain"
proof -
  from assms(3) have "length c = keyLen"
    by (auto simp: Cipher_New_def newGCM_def split: if_splits)
  then show ?thesis
    using gcm_host.Decrypt_Encrypt [of h] assms(1,2,4) by (simp add: gcm_host_def)
qed

theorem Encrypt_Decrypt_roundtrip_witness:
  "\<exists>s e'. Encrypt (fake_host None None (\<lambda>_. None) tagged_lib) (replicate 32 (CHR ''k'')) ''pw''
            (NewFake, plain_process) = (Inr s, e') \<and>
          Decrypt tagged_lib (replicate 32 (CHR ''k'')) s = Inr ''pw''"
proof -
  let ?h = "fake_host None None (\<lambda>_. None) tagged_lib" and ?k = "replicate 32 (CHR ''k'')"
  obtain s e' where run: "Encrypt ?h ?k ''pw'' (NewFake, plain_process) = (Inr s, e')"
    by (simp add: Encrypt_def seal_def wrap_error_def prog_defs newGCM_def keyLen_def
        fake_host_def fake_rand_def)
  have lb: "Lib ?h = tagged_lib" by (simp add: fake_host_def)
  have "Decrypt (Lib ?h) ?k s = Inr ''pw''"
    by (rule Encrypt_Decrypt_roundtrip [where kek = ?k, OF fake_gcm.gcm_open fake_gcm.gcm_rand _ run])
      (simp_all add: Cipher_New_def newGCM_def keyLen_def)
  with run lb show ?thesis by auto
qed

end
