(* ===== verification/MetaDB.thy ===== *)
theory MetaDB
  imports Instance Secrets
begin

text \<open>
  The metadata database and the repositories over it:
  \<^verbatim>\<open>internal/instance/repo.go\<close>, \<^verbatim>\<open>internal/cluster/repo.go\<close>,
  \<^verbatim>\<open>internal/backup/catalog.go\<close> and \<^verbatim>\<open>internal/events\<close>, with the tables and constraints of
  \<^verbatim>\<open>internal/store/migrations\<close>.

  A table is the list of its rows in the order of their \<^verbatim>\<open>created_at\<close>. Each repository
  method is one SQL statement, translated with the constraints that decide its outcome:
  unique names, one primary per cluster, foreign keys, cascading deletes. Any statement may
  fail for reasons outside the program (a lost connection): \<open>faults\<close> is the schedule of
  those failures, one entry per statement, and a failed statement has no effect. A theorem
  about an arbitrary \<open>metadb\<close> therefore holds for every such schedule. \<open>uuids\<close> is the
  sequence of values \<^verbatim>\<open>gen_random_uuid()\<close> returns. The column
  \<^verbatim>\<open>superuser_secret\<close> is kept apart as \<open>sealed_of\<close>; identifiers are compared as text.
\<close>

record NewEvent =
  ev_InstanceID :: string
  ev_ClusterID :: string
  ev_Type :: string
  ev_Message :: string
  ev_Metadata :: strmap

record Event = NewEvent +
  ev_ID :: string

record metadb =
  faults :: "bool list"
  uuids :: "nat \<Rightarrow> string"
  next_uuid :: nat
  instances :: "Instance list"
  sealed_of :: "(string \<times> Sealed) list"
  clusters :: "Cluster list"
  backups :: "(string \<times> BackupInfo) list"
  events :: "Event list"

text \<open>The state of the control plane as the components see it: the environment, the database and
  the process-wide counter behind unique container names.\<close>

record 'e world =
  env :: 'e
  db :: metadb
  stampCounter :: int

definition onE :: "('e, 'a) gofun \<Rightarrow> ('e world, 'a) gofun" where
  "onE m w = (case m (env w) of (r, e') \<Rightarrow> (r, w\<lparr>env := e'\<rparr>))"

definition onD :: "(metadb, 'a) gofun \<Rightarrow> ('e world, 'a) gofun" where
  "onD m w = (case m (db w) of (r, d') \<Rightarrow> (r, w\<lparr>db := d'\<rparr>))"

definition stmt :: "string \<Rightarrow> (metadb, 'a) gofun \<Rightarrow> (metadb, 'a) gofun" where
  "stmt msg m d = (case faults d of
       [] \<Rightarrow> m d
     | bad # fs \<Rightarrow>
         if bad then (Inl (Wrap KindInternal msg (Plain ''statement failed'')), d\<lparr>faults := fs\<rparr>)
         else m (d\<lparr>faults := fs\<rparr>))"

definition uniqueViolation :: goerr where
  "uniqueViolation = Plain ''23505''"

definition foreignKeyViolation :: goerr where
  "foreignKeyViolation = Plain ''23503''"

section \<open>Constraints\<close>

text \<open>The partial unique index \<^verbatim>\<open>one_primary_per_cluster\<close>.\<close>

definition one_primary :: "Instance list \<Rightarrow> bool" where
  "one_primary is \<longleftrightarrow>
     distinct (map i_ClusterID (filter (\<lambda>i. i_Role i = RolePrimary \<and> i_ClusterID i \<noteq> []) is))"

definition ids_of :: "metadb \<Rightarrow> string set" where
  "ids_of d = i_ID ` set (instances d)"

section \<open>Instances (instance/repo.go)\<close>

definition scan_instance :: "string \<Rightarrow> NewInstance \<Rightarrow> Instance" where
  "scan_instance uid n = \<lparr>i_ID = uid, i_Name = n_Name n, i_Status = StatusProvisioning,
     i_Image = n_Image n, i_PGVersion = n_PGVersion n, i_ContainerID = [], i_HostPort = 0,
     i_DataVolume = [], i_RepoType = n_RepoType n, i_Stanza = StanzaFor (n_Name n),
     i_Superuser = n_Superuser n, i_LastError = [], i_ClusterID = n_ClusterID n, i_Role = n_Role n,
     i_Parameters = n_Parameters n, i_Extensions = n_Extensions n, i_Public = False, i_Encrypted = False\<rparr>"

definition instance_insert :: "NewInstance \<Rightarrow> Sealed \<Rightarrow> (metadb, Instance) gofun" where
  "instance_insert n blob d =
     (let uid = uuids d (next_uuid d); d' = d\<lparr>next_uuid := Suc (next_uuid d)\<rparr>;
          row = scan_instance uid n in
      if uid \<in> ids_of d \<or> n_Name n \<in> i_Name ` set (instances d) \<or> \<not> one_primary (instances d @ [row]) then
        (Inl (Wrap KindConflict ''instance: name already exists'' uniqueViolation), d')
      else if n_ClusterID n \<noteq> [] \<and> n_ClusterID n \<notin> c_ID ` set (clusters d) then
        (Inl (Wrap KindInternal ''instance: create'' foreignKeyViolation), d')
      else (Inr row, d'\<lparr>instances := instances d @ [row], sealed_of := (uid, blob) # sealed_of d\<rparr>))"

definition instance_Create :: "'e host \<Rightarrow> string \<Rightarrow> NewInstance \<Rightarrow> ('e world, Instance) gofun" where
  "instance_Create h kek n0 =
     (case NewInstance_Validate n0 of
        Some e \<Rightarrow> fail e
      | None \<Rightarrow>
          let n = applyDefaults n0 in
          bindE (wrap_error (Wrap KindInternal ''instance: encrypt password'') (onE (Encrypt h kek (n_Password n)))) (\<lambda>blob.
          onD (stmt ''instance: create'' (instance_insert n blob))))"

definition find_instance :: "metadb \<Rightarrow> string \<Rightarrow> Instance option" where
  "find_instance d iid = find (\<lambda>i. i_ID i = iid) (instances d)"

definition queryOne :: "(Instance \<Rightarrow> bool) \<Rightarrow> (metadb, Instance) gofun" where
  "queryOne P = stmt ''instance: query'' (\<lambda>d. case find P (instances d) of
       None \<Rightarrow> (Inl (New KindNotFound ''instance: not found''), d)
     | Some i \<Rightarrow> (Inr i, d))"

definition instance_Get :: "string \<Rightarrow> (metadb, Instance) gofun" where
  "instance_Get iid = queryOne (\<lambda>i. i_ID i = iid)"

definition instance_GetByName :: "string \<Rightarrow> (metadb, Instance) gofun" where
  "instance_GetByName name = queryOne (\<lambda>i. i_Name i = name)"

definition queryMany :: "(Instance list \<Rightarrow> Instance list) \<Rightarrow> (metadb, Instance list) gofun" where
  "queryMany sel = stmt ''instance: query'' (\<lambda>d. (Inr (sel (instances d)), d))"

definition instance_List :: "(metadb, Instance list) gofun" where
  "instance_List = queryMany rev"

definition cluster_members :: "string \<Rightarrow> Instance list \<Rightarrow> Instance list" where
  "cluster_members cid is =
     (let ms = filter (\<lambda>i. i_ClusterID i = cid \<and> cid \<noteq> []) is
      in filter (\<lambda>i. i_Role i = RolePrimary) ms @ filter (\<lambda>i. i_Role i \<noteq> RolePrimary) ms)"

definition instance_ListByCluster :: "string \<Rightarrow> (metadb, Instance list) gofun" where
  "instance_ListByCluster cid = queryMany (cluster_members cid)"

definition update_rows :: "string \<Rightarrow> (Instance \<Rightarrow> Instance) \<Rightarrow> Instance list \<Rightarrow> Instance list" where
  "update_rows iid up is = map (\<lambda>i. if i_ID i = iid then up i else i) is"

text \<open>\<open>exec\<close> with an \<^verbatim>\<open>UPDATE instances ... WHERE id = $1\<close>.\<close>

definition instance_exec :: "(Instance \<Rightarrow> Instance) \<Rightarrow> string \<Rightarrow> (metadb, unit) gofun" where
  "instance_exec up iid = stmt ''instance: exec'' (\<lambda>d.
     let rows = update_rows iid up (instances d) in
     if iid \<notin> ids_of d then (Inl (New KindNotFound ''instance: not found''), d)
     else if \<not> one_primary rows then (Inl (Wrap KindInternal ''instance: exec'' uniqueViolation), d)
     else (Inr (), d\<lparr>instances := rows\<rparr>))"

definition instance_SetRole :: "string \<Rightarrow> Role \<Rightarrow> (metadb, unit) gofun" where
  "instance_SetRole iid role = instance_exec (\<lambda>i. i\<lparr>i_Role := role\<rparr>) iid"

definition instance_SetPublic :: "string \<Rightarrow> bool \<Rightarrow> (metadb, unit) gofun" where
  "instance_SetPublic iid public = instance_exec (\<lambda>i. i\<lparr>i_Public := public\<rparr>) iid"

definition instance_SetEncrypted :: "string \<Rightarrow> bool \<Rightarrow> (metadb, unit) gofun" where
  "instance_SetEncrypted iid encrypted = instance_exec (\<lambda>i. i\<lparr>i_Encrypted := encrypted\<rparr>) iid"

definition instance_SetStatus :: "string \<Rightarrow> Status \<Rightarrow> string \<Rightarrow> (metadb, unit) gofun" where
  "instance_SetStatus iid status lastErr =
     instance_exec (\<lambda>i. i\<lparr>i_Status := status, i_LastError := lastErr\<rparr>) iid"

definition instance_SetRuntime :: "string \<Rightarrow> string \<Rightarrow> int \<Rightarrow> (metadb, unit) gofun" where
  "instance_SetRuntime iid containerID hostPort =
     instance_exec (\<lambda>i. i\<lparr>i_ContainerID := containerID, i_HostPort := hostPort\<rparr>) iid"

definition instance_SetDataVolume :: "string \<Rightarrow> string \<Rightarrow> (metadb, unit) gofun" where
  "instance_SetDataVolume iid volume = instance_exec (\<lambda>i. i\<lparr>i_DataVolume := volume\<rparr>) iid"

definition instance_Password :: "lib \<Rightarrow> string \<Rightarrow> string \<Rightarrow> (metadb, string) gofun" where
  "instance_Password lb kek iid = stmt ''instance: read secret'' (\<lambda>d.
     if iid \<notin> ids_of d then (Inl (New KindNotFound ''instance: not found''), d)
     else case map_of (sealed_of d) iid of
        None \<Rightarrow> (Inl (Wrap KindInternal ''instance: unmarshal secret'' (Plain ''unexpected end of JSON input'')), d)
      | Some blob \<Rightarrow> (case Decrypt lb kek blob of
            Inl e \<Rightarrow> (Inl (Wrap KindInternal ''instance: decrypt secret'' e), d)
          | Inr plain \<Rightarrow> (Inr plain, d)))"

text \<open>
  Deleting instance rows: their backups go with them and a cluster that named one of them as
  its primary gets a null primary.
\<close>

definition drop_instances :: "(Instance \<Rightarrow> bool) \<Rightarrow> metadb \<Rightarrow> metadb" where
  "drop_instances P d =
     (let gone = i_ID ` {i \<in> set (instances d). P i} in
      d\<lparr>instances := filter (\<lambda>i. \<not> P i) (instances d),
        backups := filter (\<lambda>(iid, b). iid \<notin> gone) (backups d),
        events := filter (\<lambda>ev. ev_InstanceID ev \<notin> gone) (events d),
        clusters := map (\<lambda>c. if c_PrimaryInstanceID c \<in> gone then c\<lparr>c_PrimaryInstanceID := []\<rparr> else c) (clusters d)\<rparr>)"

definition instance_Delete :: "string \<Rightarrow> (metadb, unit) gofun" where
  "instance_Delete iid = stmt ''instance: exec'' (\<lambda>d.
     if iid \<notin> ids_of d then (Inl (New KindNotFound ''instance: not found''), d)
     else (Inr (), drop_instances (\<lambda>i. i_ID i = iid) d))"

section \<open>Clusters (cluster/repo.go)\<close>

definition cluster_insert :: "string \<Rightarrow> string \<Rightarrow> (metadb, Cluster) gofun" where
  "cluster_insert name poolMode d =
     (let uid = uuids d (next_uuid d); d' = d\<lparr>next_uuid := Suc (next_uuid d)\<rparr>;
          row = \<lparr>c_ID = uid, c_Name = name, c_Status = CStatusProvisioning, c_PrimaryInstanceID = [],
                 c_RouterContainerID = [], c_RouterPort = 0, c_LastError = [], c_PoolMode = poolMode\<rparr> in
      if uid \<in> c_ID ` set (clusters d) \<or> name \<in> c_Name ` set (clusters d) then
        (Inl (Wrap KindConflict ''cluster: name already exists'' uniqueViolation), d')
      else (Inr row, d'\<lparr>clusters := clusters d @ [row]\<rparr>))"

definition cluster_Create :: "NewCluster \<Rightarrow> (metadb, Cluster) gofun" where
  "cluster_Create n =
     (case NewCluster_Validate n of
        Some e \<Rightarrow> fail e
      | None \<Rightarrow> stmt ''cluster: create''
          (cluster_insert (nc_Name n) (if nc_PoolMode n = [] then ''transaction'' else nc_PoolMode n)))"

definition cluster_Get :: "string \<Rightarrow> (metadb, Cluster) gofun" where
  "cluster_Get cid = stmt ''cluster: query'' (\<lambda>d. case find (\<lambda>c. c_ID c = cid) (clusters d) of
       None \<Rightarrow> (Inl (New KindNotFound ''cluster: not found''), d)
     | Some c \<Rightarrow> (Inr c, d))"

definition cluster_List :: "(metadb, Cluster list) gofun" where
  "cluster_List = stmt ''cluster: list'' (\<lambda>d. (Inr (rev (clusters d)), d))"

definition cluster_exec :: "(Cluster \<Rightarrow> Cluster) \<Rightarrow> string \<Rightarrow> (metadb, unit) gofun" where
  "cluster_exec up cid = stmt ''cluster: exec'' (\<lambda>d.
     let rows = map (\<lambda>c. if c_ID c = cid then up c else c) (clusters d) in
     if cid \<notin> c_ID ` set (clusters d) then (Inl (New KindNotFound ''cluster: not found''), d)
     else if \<not> list_all (\<lambda>c. c_PrimaryInstanceID c = [] \<or> c_PrimaryInstanceID c \<in> ids_of d) rows then
       (Inl (Wrap KindInternal ''cluster: exec'' foreignKeyViolation), d)
     else (Inr (), d\<lparr>clusters := rows\<rparr>))"

definition cluster_SetPrimary :: "string \<Rightarrow> string \<Rightarrow> (metadb, unit) gofun" where
  "cluster_SetPrimary cid iid = cluster_exec (\<lambda>c. c\<lparr>c_PrimaryInstanceID := iid\<rparr>) cid"

definition cluster_SetRouter :: "string \<Rightarrow> string \<Rightarrow> int \<Rightarrow> (metadb, unit) gofun" where
  "cluster_SetRouter cid containerID port =
     cluster_exec (\<lambda>c. c\<lparr>c_RouterContainerID := containerID, c_RouterPort := port\<rparr>) cid"

definition cluster_SetStatus :: "string \<Rightarrow> cluster_status \<Rightarrow> string \<Rightarrow> (metadb, unit) gofun" where
  "cluster_SetStatus cid status lastErr =
     cluster_exec (\<lambda>c. c\<lparr>c_Status := status, c_LastError := lastErr\<rparr>) cid"

definition cluster_Delete :: "string \<Rightarrow> (metadb, unit) gofun" where
  "cluster_Delete cid = stmt ''cluster: exec'' (\<lambda>d.
     if cid \<notin> c_ID ` set (clusters d) then (Inl (New KindNotFound ''cluster: not found''), d)
     else (Inr (), (drop_instances (\<lambda>i. i_ClusterID i = cid \<and> cid \<noteq> []) d)
            \<lparr>clusters := filter (\<lambda>c. c_ID c \<noteq> cid) (clusters (drop_instances (\<lambda>i. i_ClusterID i = cid \<and> cid \<noteq> []) d)),
             events := filter (\<lambda>ev. \<not> (ev_ClusterID ev = cid \<and> cid \<noteq> [])) (events (drop_instances (\<lambda>i. i_ClusterID i = cid \<and> cid \<noteq> []) d))\<rparr>))"

section \<open>The backup catalog (backup/catalog.go)\<close>

definition catalog_Upsert :: "string \<Rightarrow> BackupInfo \<Rightarrow> (metadb, unit) gofun" where
  "catalog_Upsert iid b = stmt ''backup: upsert'' (\<lambda>d.
     if iid \<notin> ids_of d then (Inl (Wrap KindInternal ''backup: upsert'' foreignKeyViolation), d)
     else if list_ex (\<lambda>(j, c). j = iid \<and> b_Label c = b_Label b) (backups d) then
       (Inr (), d\<lparr>backups := map (\<lambda>(j, c). if j = iid \<and> b_Label c = b_Label b then (j, b) else (j, c)) (backups d)\<rparr>)
     else (Inr (), d\<lparr>backups := backups d @ [(iid, b)]\<rparr>))"

definition catalog_Prune :: "string \<Rightarrow> string list \<Rightarrow> (metadb, unit) gofun" where
  "catalog_Prune iid keep = stmt ''backup: prune'' (\<lambda>d.
     (Inr (), d\<lparr>backups := filter (\<lambda>(j, c). \<not> (j = iid \<and> b_Label c \<notin> set keep)) (backups d)\<rparr>))"

definition catalog_Delete :: "string \<Rightarrow> string \<Rightarrow> (metadb, unit) gofun" where
  "catalog_Delete iid label = stmt ''backup: delete'' (\<lambda>d.
     (Inr (), d\<lparr>backups := filter (\<lambda>(j, c). \<not> (j = iid \<and> b_Label c = label)) (backups d)\<rparr>))"

section \<open>Events (events/events.go, events/repo.go)\<close>

definition NewEvent_Validate :: "NewEvent \<Rightarrow> goerr option" where
  "NewEvent_Validate e =
     (if TrimSpace (ev_Type e) = [] then Some (New KindInvalid ''events: type is required'')
      else if TrimSpace (ev_Message e) = [] then Some (New KindInvalid ''events: message is required'')
      else None)"

definition event_insert :: "NewEvent \<Rightarrow> (metadb, Event) gofun" where
  "event_insert ne d =
     (let uid = uuids d (next_uuid d); d' = d\<lparr>next_uuid := Suc (next_uuid d)\<rparr>;
          iid = (if TrimSpace (ev_InstanceID ne) \<noteq> [] then ev_InstanceID ne else []);
          cid = (if TrimSpace (ev_ClusterID ne) \<noteq> [] then ev_ClusterID ne else []);
          row = \<lparr>ev_InstanceID = iid, ev_ClusterID = cid, ev_Type = ev_Type ne, ev_Message = ev_Message ne,
                 ev_Metadata = ev_Metadata ne, ev_ID = uid\<rparr> in
      if uid \<in> ev_ID ` set (events d) then (Inl (Wrap KindInternal ''events: record'' uniqueViolation), d')
      else if (iid \<noteq> [] \<and> iid \<notin> ids_of d) \<or> (cid \<noteq> [] \<and> cid \<notin> c_ID ` set (clusters d)) then
        (Inl (Wrap KindInternal ''events: record'' foreignKeyViolation), d')
      else (Inr row, d'\<lparr>events := events d @ [row]\<rparr>))"

definition event_Record :: "NewEvent \<Rightarrow> (metadb, Event) gofun" where
  "event_Record ne = (case NewEvent_Validate ne of
       Some e \<Rightarrow> fail e
     | None \<Rightarrow> stmt ''events: record'' (event_insert ne))"

section \<open>The constraints hold after every statement\<close>

definition db_wf :: "metadb \<Rightarrow> bool" where
  "db_wf d \<longleftrightarrow>
     distinct (map i_ID (instances d)) \<and> distinct (map i_Name (instances d)) \<and> one_primary (instances d) \<and>
     (\<forall>i\<in>set (instances d). i_ClusterID i = [] \<or> i_ClusterID i \<in> c_ID ` set (clusters d)) \<and>
     distinct (map c_ID (clusters d)) \<and> distinct (map c_Name (clusters d)) \<and>
     (\<forall>c\<in>set (clusters d). c_PrimaryInstanceID c = [] \<or> c_PrimaryInstanceID c \<in> ids_of d) \<and>
     distinct (map (\<lambda>(j, b). (j, b_Label b)) (backups d)) \<and> fst ` set (backups d) \<subseteq> ids_of d"

lemma keeps_stmt:
  "(\<And>d fs. I d \<Longrightarrow> I (d\<lparr>faults := fs\<rparr>)) \<Longrightarrow> keeps I m \<Longrightarrow> keeps I (stmt msg m)"
  by (auto simp: keeps_def stmt_def split: list.splits)

lemma db_wf_faults [simp]: "db_wf (d\<lparr>faults := fs\<rparr>) = db_wf d"
  by (simp add: db_wf_def ids_of_def)

lemma wf_stmtI: "(\<And>d. db_wf d \<Longrightarrow> db_wf (snd (m d))) \<Longrightarrow> keeps db_wf (stmt msg m)"
  by (rule keeps_stmt) (simp_all add: keeps_def)

lemma update_rows_simps [simp]:
  "length (update_rows iid up rows) = length rows"
  "(\<And>i. i_ID (up i) = i_ID i) \<Longrightarrow> map i_ID (update_rows iid up rows) = map i_ID rows"
  "(\<And>i. i_Name (up i) = i_Name i) \<Longrightarrow> map i_Name (update_rows iid up rows) = map i_Name rows"
  "(\<And>i. i_ClusterID (up i) = i_ClusterID i) \<Longrightarrow> map i_ClusterID (update_rows iid up rows) = map i_ClusterID rows"
  by (auto simp: update_rows_def)

lemma image_map_eq: "map f xs = map f ys \<Longrightarrow> f ` set xs = f ` set ys"
  by (metis list.set_map)

lemma one_primary_filter: "one_primary is \<Longrightarrow> one_primary (filter P is)"
  by (induction "is") (auto simp: one_primary_def image_iff split: if_splits)

lemma keeps_instance_exec:
  assumes "\<And>i. i_ID (up i) = i_ID i" "\<And>i. i_Name (up i) = i_Name i" "\<And>i. i_ClusterID (up i) = i_ClusterID i"
  shows "keeps db_wf (instance_exec up iid)"
proof (unfold instance_exec_def, rule wf_stmtI, goal_cases)
  case (1 d)
  let ?rows = "update_rows iid up (instances d)"
  have ids: "i_ID ` set ?rows = i_ID ` set (instances d)"
    by (rule image_map_eq) (simp add: assms)
  have "\<forall>i\<in>set ?rows. i_ClusterID i = [] \<or> i_ClusterID i \<in> c_ID ` set (clusters d)"
    using 1 by (auto simp: db_wf_def update_rows_def assms)
  with 1 ids show ?case
    by (simp add: db_wf_def Let_def ids_of_def assms)
qed

lemma keeps_instance_setters [keeps_rules]:
  "keeps db_wf (instance_SetRole iid role)" "keeps db_wf (instance_SetPublic iid pub)"
  "keeps db_wf (instance_SetEncrypted iid enc)" "keeps db_wf (instance_SetStatus iid st le)"
  "keeps db_wf (instance_SetRuntime iid c p)" "keeps db_wf (instance_SetDataVolume iid v)"
  by (simp_all add: instance_SetRole_def instance_SetPublic_def instance_SetEncrypted_def
      instance_SetStatus_def instance_SetRuntime_def instance_SetDataVolume_def keeps_instance_exec)

lemma keeps_queries [keeps_rules]:
  "keeps db_wf (instance_Get iid)" "keeps db_wf (instance_GetByName nm)" "keeps db_wf instance_List"
  "keeps db_wf (instance_ListByCluster cid)" "keeps db_wf (instance_Password lb kek iid)"
  "keeps db_wf (cluster_Get cid)" "keeps db_wf cluster_List"
  unfolding instance_Get_def instance_GetByName_def queryOne_def queryMany_def instance_List_def
    instance_ListByCluster_def instance_Password_def cluster_Get_def cluster_List_def
  by (rule wf_stmtI; simp split: option.splits sum.splits)+

lemma keeps_instance_insert: "keeps db_wf (stmt msg (instance_insert n blob))"
  by (rule wf_stmtI) (auto simp: instance_insert_def Let_def db_wf_def ids_of_def scan_instance_def)

lemma db_wf_drop_instances: "db_wf d \<Longrightarrow> db_wf (drop_instances P d)"
proof -
  assume wf: "db_wf d"
  let ?gone = "i_ID ` {i \<in> set (instances d). P i}" and ?d = "drop_instances P d"
  have ids: "ids_of ?d = ids_of d - ?gone"
    using wf by (auto simp: ids_of_def drop_instances_def Let_def db_wf_def dest: distinct_map_unique)
  have cs: "map c_ID (clusters ?d) = map c_ID (clusters d)" "map c_Name (clusters ?d) = map c_Name (clusters d)"
    by (auto simp: drop_instances_def Let_def)
  have "\<forall>c\<in>set (clusters ?d). c_PrimaryInstanceID c = [] \<or> c_PrimaryInstanceID c \<in> ids_of ?d"
    using wf unfolding ids by (auto simp: drop_instances_def Let_def db_wf_def)
  moreover have "fst ` set (backups ?d) \<subseteq> ids_of ?d"
    using wf unfolding ids by (auto simp: drop_instances_def Let_def db_wf_def)
  moreover have rows: "instances ?d = filter (\<lambda>i. \<not> P i) (instances d)"
    "backups ?d = filter (\<lambda>(iid, b). iid \<notin> ?gone) (backups d)"
    by (simp_all add: drop_instances_def Let_def)
  ultimately show ?thesis
    using wf cs image_map_eq [OF cs(1)] unfolding db_wf_def rows
    by (simp add: one_primary_filter distinct_map_filter)
qed

lemma keeps_instance_Delete [keeps_rules]: "keeps db_wf (instance_Delete iid)"
  unfolding instance_Delete_def by (rule wf_stmtI) (simp add: db_wf_drop_instances)

lemma db_wf_drop_cluster:
  assumes "db_wf d" "\<forall>i\<in>set (instances d). i_ClusterID i = [] \<or> i_ClusterID i \<noteq> cid"
  shows "db_wf (d\<lparr>clusters := filter (\<lambda>c. c_ID c \<noteq> cid) (clusters d), events := es\<rparr>)"
proof -
  have "c_ID ` set (filter (\<lambda>c. c_ID c \<noteq> cid) (clusters d)) = c_ID ` set (clusters d) - {cid}" by auto
  then show ?thesis
    using assms by (simp add: db_wf_def ids_of_def distinct_map_filter del: set_filter) auto
qed

lemma keeps_cluster_Delete [keeps_rules]: "keeps db_wf (cluster_Delete cid)"
  unfolding cluster_Delete_def
  by (rule wf_stmtI, simp, intro impI db_wf_drop_cluster db_wf_drop_instances) (auto simp: drop_instances_def Let_def)

lemma db_wf_clusters:
  assumes "db_wf d" "map c_ID rows = map c_ID (clusters d)" "map c_Name rows = map c_Name (clusters d)"
    and "list_all (\<lambda>c. c_PrimaryInstanceID c = [] \<or> c_PrimaryInstanceID c \<in> ids_of d) rows"
  shows "db_wf (d\<lparr>clusters := rows\<rparr>)"
  using assms image_map_eq [OF assms(2)] by (simp add: db_wf_def ids_of_def list_all_iff)

lemma keeps_cluster_exec:
  assumes "\<And>c. c_ID (up c) = c_ID c" "\<And>c. c_Name (up c) = c_Name c"
  shows "keeps db_wf (cluster_exec up cid)"
  unfolding cluster_exec_def
  by (rule wf_stmtI) (simp add: Let_def db_wf_clusters assms)

lemma keeps_cluster_setters [keeps_rules]:
  "keeps db_wf (cluster_SetPrimary cid iid)" "keeps db_wf (cluster_SetRouter cid c p)"
  "keeps db_wf (cluster_SetStatus cid st le)"
  by (simp_all add: cluster_SetPrimary_def cluster_SetRouter_def cluster_SetStatus_def keeps_cluster_exec)

lemma keeps_cluster_Create [keeps_rules]: "keeps db_wf (cluster_Create n)"
  unfolding cluster_Create_def
  by (auto simp: cluster_insert_def Let_def db_wf_def ids_of_def intro!: keeps_rules wf_stmtI)

lemma db_wf_backup_replace:
  assumes "db_wf d"
  shows "db_wf (d\<lparr>backups := map (\<lambda>(j, c). if j = iid \<and> b_Label c = b_Label b then (j, b) else (j, c)) (backups d)\<rparr>)"
    (is "db_wf (d\<lparr>backups := ?bs\<rparr>)")
proof -
  have "map (\<lambda>(j, b). (j, b_Label b)) ?bs = map (\<lambda>(j, b). (j, b_Label b)) (backups d)" by auto
  moreover have "fst ` set ?bs = fst ` set (backups d)" by (rule image_map_eq) auto
  ultimately show ?thesis using assms by (simp add: db_wf_def ids_of_def del: map_map set_map map_eq_conv)
qed

lemma db_wf_backup_add:
  assumes "db_wf d" "iid \<in> ids_of d" "\<And>j c. (j, c) \<in> set (backups d) \<Longrightarrow> \<not> (j = iid \<and> b_Label c = b_Label b)"
  shows "db_wf (d\<lparr>backups := backups d @ [(iid, b)]\<rparr>)"
  using assms by (fastforce simp: db_wf_def ids_of_def)

lemma keeps_catalog [keeps_rules]:
  "keeps db_wf (catalog_Upsert iid b)" "keeps db_wf (catalog_Prune iid keep)"
  "keeps db_wf (catalog_Delete iid label)"
proof -
  show "keeps db_wf (catalog_Prune iid keep)" "keeps db_wf (catalog_Delete iid label)"
    unfolding catalog_Prune_def catalog_Delete_def
    by (rule wf_stmtI; auto simp: db_wf_def ids_of_def intro: distinct_map_filter)+
  show "keeps db_wf (catalog_Upsert iid b)"
    unfolding catalog_Upsert_def
    by (rule wf_stmtI) (auto intro!: db_wf_backup_replace db_wf_backup_add simp: list_ex_iff)
qed

lemma keeps_event_Record [keeps_rules]: "keeps db_wf (event_Record ne)"
  unfolding event_Record_def
  by (auto simp: event_insert_def Let_def db_wf_def ids_of_def intro!: keeps_rules wf_stmtI)

text \<open>
  A run of the database: any sequence of repository statements, by any of the components,
  in any interleaving, each of which may fail.
\<close>

inductive db_step :: "metadb \<Rightarrow> metadb \<Rightarrow> bool" where
  "db_step d (snd (stmt msg (instance_insert n blob) d))"
| "db_step d (snd (instance_SetRole iid role d))"
| "db_step d (snd (instance_SetPublic iid pub d))"
| "db_step d (snd (instance_SetEncrypted iid enc d))"
| "db_step d (snd (instance_SetStatus iid st le d))"
| "db_step d (snd (instance_SetRuntime iid cont port d))"
| "db_step d (snd (instance_SetDataVolume iid vol d))"
| "db_step d (snd (instance_Delete iid d))"
| "db_step d (snd (cluster_Create nc d))"
| "db_step d (snd (cluster_SetPrimary cid iid d))"
| "db_step d (snd (cluster_SetRouter cid cont port d))"
| "db_step d (snd (cluster_SetStatus cid cst le d))"
| "db_step d (snd (cluster_Delete cid d))"
| "db_step d (snd (catalog_Upsert iid b d))"
| "db_step d (snd (catalog_Prune iid keep d))"
| "db_step d (snd (catalog_Delete iid label d))"
| "db_step d (snd (event_Record ne d))"

inductive db_reachable :: "metadb \<Rightarrow> bool" where
  empty: "db_reachable \<lparr>faults = fs, uuids = us, next_uuid = 0, instances = [], sealed_of = [],
            clusters = [], backups = [], events = []\<rparr>"
| step: "db_reachable d \<Longrightarrow> db_step d d' \<Longrightarrow> db_reachable d'"

lemma db_step_wf: "db_step d d' \<Longrightarrow> db_wf d \<Longrightarrow> db_wf d'"
  by (induction rule: db_step.induct)
    (auto intro: keepsD [rotated, where I = db_wf] keeps_rules keeps_instance_insert)

lemma db_reachable_wf: "db_reachable d \<Longrightarrow> db_wf d"
proof (induction rule: db_reachable.induct)
  case (step d d') then show ?case by (blast intro: db_step_wf)
qed (simp add: db_wf_def one_primary_def ids_of_def)

lemma one_primary_unique:
  assumes "one_primary is" "i \<in> set is" "j \<in> set is" "i_Role i = RolePrimary" "i_Role j = RolePrimary"
    and "i_ClusterID i = i_ClusterID j" "i_ClusterID i \<noteq> []"
  shows "i = j"
  using assms distinct_map_unique [of i_ClusterID "filter (\<lambda>i. i_Role i = RolePrimary \<and> i_ClusterID i \<noteq> []) is" i j]
  by (simp add: one_primary_def)

text \<open>
  C17. The metadata can never record a split brain: in every database state reachable by
  repository statements, in any order and with any statements failing, a cluster has at most
  one primary, instance and cluster names are unique, every member belongs to an existing
  cluster and every cluster's recorded primary is an existing instance.
\<close>

theorem no_split_brain_metadata:
  assumes "db_reachable d" "i \<in> set (instances d)" "j \<in> set (instances d)"
  shows "(i_Role i = RolePrimary \<and> i_Role j = RolePrimary \<and> i_ClusterID i = i_ClusterID j \<and> i_ClusterID i \<noteq> []
            \<longrightarrow> i = j) \<and>
         (i_Name i = i_Name j \<longrightarrow> i = j) \<and>
         (i_ClusterID i \<noteq> [] \<longrightarrow> (\<exists>c\<in>set (clusters d). c_ID c = i_ClusterID i)) \<and>
         (\<forall>c\<in>set (clusters d). c_PrimaryInstanceID c \<noteq> [] \<longrightarrow>
            (\<exists>k\<in>set (instances d). i_ID k = c_PrimaryInstanceID c))"
proof -
  have wf: "db_wf d" using assms(1) by (rule db_reachable_wf)
  then have "i_Name i = i_Name j \<longrightarrow> i = j"
    using assms(2,3) by (auto simp: db_wf_def dest: distinct_map_unique)
  moreover have "i_ClusterID i \<noteq> [] \<longrightarrow> (\<exists>c\<in>set (clusters d). c_ID c = i_ClusterID i)"
    using wf assms(2) unfolding db_wf_def by (metis imageE)
  moreover have "\<forall>c\<in>set (clusters d). c_PrimaryInstanceID c \<noteq> [] \<longrightarrow>
      (\<exists>k\<in>set (instances d). i_ID k = c_PrimaryInstanceID c)"
    using wf unfolding db_wf_def ids_of_def by (metis imageE)
  ultimately show ?thesis
    using wf assms(2,3) one_primary_unique unfolding db_wf_def by blast
qed

theorem no_split_brain_metadata_witness:
  "\<exists>d i. db_reachable d \<and> i \<in> set (instances d) \<and> i_Role i = RolePrimary \<and>
         (\<exists>c\<in>set (clusters d). c_ID c = i_ClusterID i)"
proof -
  define d0 where "d0 = \<lparr>faults = [], uuids = (\<lambda>_. ''0''), next_uuid = 0, instances = [], sealed_of = [],
            clusters = [], backups = [], events = []\<rparr>"
  define d1 where "d1 = snd (cluster_Create \<lparr>nc_Name = ''orders'', nc_PoolMode = []\<rparr> d0)"
  define n where "n = \<lparr>n_Name = ''orders-p'', n_Image = ''img'', n_PGVersion = ''16'', n_ClusterID = ''0'',
      n_Role = RolePrimary, n_RepoType = RepoLocal, n_Superuser = ''postgres'', n_Password = ''a-good-password'',
      n_Parameters = [], n_Extensions = []\<rparr>"
  define d2 where "d2 = snd (stmt [] (instance_insert n (undefined :: Sealed)) d1)"
  have r0: "db_reachable d0" unfolding d0_def by (rule db_reachable.empty)
  have r1: "db_reachable d1" unfolding d1_def by (rule db_reachable.step [OF r0 db_step.intros(9)])
  have reach: "db_reachable d2" unfolding d2_def by (rule db_reachable.step [OF r1 db_step.intros(1)])
  have clusters: "map c_ID (clusters d1) = [''0'']" "instances d1 = []" "faults d1 = []"
    by (simp_all add: d1_def d0_def cluster_Create_def NewCluster_Validate_def nameRe_def is_lower_def
        is_digit_def byte_val_def stmt_def cluster_insert_def Let_def)
  then have "instances d2 = [scan_instance (uuids d1 (next_uuid d1)) n]"
    by (auto simp: d2_def stmt_def instance_insert_def Let_def ids_of_def one_primary_def n_def
        simp flip: set_map)
  then have i: "scan_instance (uuids d1 (next_uuid d1)) n \<in> set (instances d2)" by simp
  have "\<exists>c\<in>set (clusters d2). c_ID c = ''0''"
    using no_split_brain_metadata [OF reach i i] by (simp add: scan_instance_def n_def)
  with reach i show ?thesis
    by (intro exI [of _ d2] exI [of _ "scan_instance (uuids d1 (next_uuid d1)) n"])
      (simp add: scan_instance_def n_def)
qed

section \<open>Lifting to the world, and what a statement changes\<close>

lemma onE_simps [simp]: "db (snd (onE m w)) = db w" "fst (onE m w) = fst (m (env w))"
    "env (snd (onE m w)) = snd (m (env w))"
  by (simp_all add: onE_def split: prod.splits)

lemma onD_simps [simp]: "env (snd (onD m w)) = env w" "fst (onD m w) = fst (m (db w))"
    "db (snd (onD m w)) = snd (m (db w))"
  by (simp_all add: onD_def split: prod.splits)

lemma onE_result: "onE m w = (r, w') \<Longrightarrow> m (env w) = (r, env w') \<and> db w' = db w"
  by (auto simp: onE_def split: prod.splits)

lemma onD_result: "onD m w = (r, w') \<Longrightarrow> m (db w) = (r, db w') \<and> env w' = env w"
  by (auto simp: onD_def split: prod.splits)

lemma keeps_onD [keeps_rules]: "keeps I m \<Longrightarrow> keeps (\<lambda>w. I (db w)) (onD m)"
  by (simp add: keeps_def)

lemma keeps_onE [keeps_rules]: "keeps I m \<Longrightarrow> keeps (\<lambda>w. I (env w)) (onE m)"
  by (simp add: keeps_def)

lemma keeps_onD_env [keeps_rules]: "keeps (\<lambda>w. I (env w)) (onD m)"
  by (simp add: keeps_def)

lemma keeps_onE_db [keeps_rules]: "keeps (\<lambda>w. I (db w)) (onE m)"
  by (simp add: keeps_def)

lemma wrap_error_result:
  "wrap_error f m s = (r, s') \<longleftrightarrow>
     (\<exists>r0. m s = (r0, s') \<and> r = (case r0 of Inl e \<Rightarrow> Inl (f e) | Inr x \<Rightarrow> Inr x))"
  by (auto simp: wrap_error_def prog_defs split: prod.splits sum.splits)

lemma stmt_Inr: "stmt msg m d = (Inr x, d') \<Longrightarrow> \<exists>fs. m (d\<lparr>faults := fs\<rparr>) = (Inr x, d')"
proof (cases "faults d")
  case Nil
  assume "stmt msg m d = (Inr x, d')"
  with Nil have "m (d\<lparr>faults := []\<rparr>) = (Inr x, d')"
    by (simp add: stmt_def) (metis metadb.surjective metadb.update_convs(1))
  then show ?thesis by blast
qed (auto simp: stmt_def split: if_splits)

lemma stmt_cases:
  assumes "stmt msg m d = (r, d')"
  obtains (fault) fs where "faults d = True # fs" "r = Inl (Wrap KindInternal msg (Plain ''statement failed''))" "d' = d\<lparr>faults := fs\<rparr>"
    | (ran) pre fs where "faults d = pre @ fs" "m (d\<lparr>faults := fs\<rparr>) = (r, d')"
proof (cases "faults d")
  case Nil
  then have "d\<lparr>faults := []\<rparr> = d" by (metis metadb.surjective metadb.update_convs(1))
  with Nil assms ran [of "[]" "[]"] show ?thesis by (simp add: stmt_def)
next
  case (Cons b fs)
  with assms fault ran [of "[False]" fs] show ?thesis by (cases b) (auto simp: stmt_def)
qed

lemma instance_exec_result:
  assumes "instance_exec up iid d = (r, d')"
  obtains fs where "d' = d\<lparr>faults := fs, instances := (if r = Inr () then update_rows iid up (instances d) else instances d)\<rparr>"
    and "r = Inr () \<Longrightarrow> iid \<in> ids_of d"
proof -
  have nil: "faults d = [] \<Longrightarrow> d\<lparr>faults := []\<rparr> = d" by (metis metadb.surjective metadb.update_convs(1))
  from assms have "\<exists>fs. d' = d\<lparr>faults := fs, instances := (if r = Inr () then update_rows iid up (instances d) else instances d)\<rparr>
      \<and> (r = Inr () \<longrightarrow> iid \<in> ids_of d)"
    using nil by (auto simp: instance_exec_def stmt_def Let_def ids_of_def split: list.splits if_splits) (metis nil)+
  then show ?thesis using that by blast
qed

text \<open>An update of a row's own columns when no statement is scheduled to fail.\<close>

lemma one_primary_update:
  assumes "\<And>i. i_ClusterID (up i) = i_ClusterID i" "\<And>i. i_Role (up i) = i_Role i"
  shows "one_primary (update_rows iid up rows) = one_primary rows"
proof -
  have "map (\<lambda>i. (i_ClusterID i, i_Role i)) (update_rows iid up rows) = map (\<lambda>i. (i_ClusterID i, i_Role i)) rows"
    by (auto simp: update_rows_def assms)
  then have "filter (\<lambda>(c, r). r = RolePrimary \<and> c \<noteq> []) (map (\<lambda>i. (i_ClusterID i, i_Role i)) (update_rows iid up rows)) =
      filter (\<lambda>(c, r). r = RolePrimary \<and> c \<noteq> []) (map (\<lambda>i. (i_ClusterID i, i_Role i)) rows)" by (rule arg_cong)
  from arg_cong [OF this, of "map fst"] show ?thesis by (simp add: one_primary_def filter_map comp_def)
qed

lemma instance_exec_nofault:
  assumes "\<And>i. i_ClusterID (up i) = i_ClusterID i" "\<And>i. i_Role (up i) = i_Role i"
    and "faults d = []" "one_primary (instances d)" "iid \<in> ids_of d"
  shows "instance_exec up iid d = (Inr (), d\<lparr>instances := update_rows iid up (instances d)\<rparr>)"
  using assms by (simp add: instance_exec_def stmt_def one_primary_update)

lemmas db_run = onD_def onE_def stmt_def instance_Get_def queryOne_def instance_Password_def ids_of_def
  instance_SetDataVolume_def instance_SetRuntime_def instance_SetStatus_def instance_SetEncrypted_def
  instance_SetPublic_def instance_SetRole_def instance_exec_def update_rows_def one_primary_def

end
