(* ===== verification/Redact.thy ===== *)
theory Redact
  imports GoStrings
begin

text \<open>
  \<open>redactSecrets\<close> of \<^verbatim>\<open>internal/provision/provision.go\<close>: scrubbing secret values
  from command output before it is stored or returned to a client. The proofs relate the
  left-to-right scan over the whole text to a line by line truncation.
\<close>

definition secret_keys :: "string list" where
  "secret_keys = [''repo1-s3-key-secret'', ''repo1-s3-key'', ''repo1-cipher-pass'', ''repo2-cipher-pass'']"

text \<open>
  One pass for one marker. The first branch is not in the code: it makes the function total
  for markers on which the Go loop would not advance; the four markers used are not of that form.
\<close>

function redact_pass :: "string \<Rightarrow> string \<Rightarrow> string" where
  "redact_pass marker rest =
     (if marker = [] \<or> nl \<in> set marker then rest
      else case Index rest marker of
        None \<Rightarrow> rest
      | Some i \<Rightarrow>
          let end = (case Index (drop i rest) [nl] of None \<Rightarrow> length rest - i | Some e \<Rightarrow> e)
          in take i rest @ marker @ ''***'' @ redact_pass marker (drop (i + end) rest))"
  by pat_completeness auto

definition redactSecrets :: "string \<Rightarrow> string" where
  "redactSecrets s = fold (\<lambda>key s. redact_pass (key @ ''='') s) secret_keys s"


section \<open>Termination and the line view\<close>

lemma Index_HasPrefix: "Index s sub = Some i \<Longrightarrow> \<exists>t. drop i s = sub @ t"
  using Index_Some HasPrefix_iff by blast

lemma Index_minimal: "Index s sub = Some i \<Longrightarrow> s = a @ sub @ b \<Longrightarrow> i \<le> length a"
proof (induction s sub arbitrary: i a rule: Index.induct)
  case (2 c cs sub)
  show ?case
  proof (cases a)
    case Nil
    with 2(3) have "HasPrefix (c # cs) sub" by simp
    with 2(2) show ?thesis by simp
  next
    case (Cons x xs)
    with 2 show ?thesis by (auto split: if_splits)
  qed
qed auto

lemma Index_newline_pos:
  assumes "marker \<noteq> []" "nl \<notin> set marker" "Index rest marker = Some i" "Index (drop i rest) [nl] = Some e"
  shows "0 < e"
proof -
  obtain t where "drop i rest = marker @ t" using Index_HasPrefix [OF assms(3)] by blast
  then show ?thesis using assms(1,2,4) by (cases marker) (auto simp: HasPrefix_def split: if_splits)
qed

termination redact_pass
proof (relation "measure (\<lambda>(marker, rest). length rest)", simp, goal_cases)
  case (1 marker rest i e)
  then obtain t where t: "drop i rest = marker @ t" using Index_HasPrefix by blast
  with 1 have "i < length rest" by (metis append_is_Nil_conv drop_eq_Nil leI)
  moreover have "0 < e"
    using 1 Index_newline_pos [of marker rest i] \<open>i < length rest\<close> by (auto split: option.splits)
  ultimately show ?case by simp
qed

declare redact_pass.simps [simp del]

definition redact_line :: "string \<Rightarrow> string \<Rightarrow> string" where
  "redact_line m l = (case Index l m of None \<Rightarrow> l | Some i \<Rightarrow> take i l @ m @ ''***'')"

lemma Index_append_Some: "Index s sub = Some i \<Longrightarrow> Index (s @ t) sub = Some i"
proof (induction s sub arbitrary: i rule: Index.induct)
  case (1 sub)
  then show ?case by (cases t) (auto simp: HasPrefix_def split: if_splits)
next
  case (2 c cs sub)
  show ?case
  proof (cases "HasPrefix (c # cs) sub")
    case True
    then have "HasPrefix ((c # cs) @ t) sub" by (metis HasPrefix_iff append_assoc)
    with True 2(2) show ?thesis by auto
  next
    case False
    with 2(2) obtain j where j: "Index cs sub = Some j" "i = Suc j" by auto
    obtain u where "drop j cs = sub @ u" using Index_HasPrefix [OF j(1)] by blast
    then have "length sub \<le> length cs" by (metis drop_eq_Nil length_append length_drop le_add1 diff_le_self le_trans)
    then have "\<not> HasPrefix ((c # cs) @ t) sub" using False by (cases sub) (auto simp: HasPrefix_def)
    with 2(1) [OF False j(1)] j(2) show ?thesis by simp
  qed
qed

lemma Index_append_None:
  assumes "Index l m = None" "nl \<notin> set m" "m \<noteq> []"
  shows "Index (l @ nl # s) m = map_option ((+) (Suc (length l))) (Index s m)"
  using assms(1)
proof (induction l)
  case Nil
  then show ?case using assms(2,3) by (cases m) (auto simp: HasPrefix_def intro: option.map_cong)
next
  case (Cons c l)
  then have np: "\<not> HasPrefix (c # l) m" and "Index l m = None" by (auto split: if_splits)
  have "\<not> HasPrefix ((c # l) @ nl # s) m"
  proof
    assume "HasPrefix ((c # l) @ nl # s) m"
    then obtain u where "(c # l) @ nl # s = m @ u" by (auto simp: HasPrefix_iff)
    then obtain v where "c # l = m @ v \<or> (m = (c # l) @ v \<and> v @ u = nl # s)"
      by (metis append_eq_append_conv2)
    with np assms(2) show False
      by (cases v) (auto simp: HasPrefix_iff)
  qed
  with Cons \<open>Index l m = None\<close> show ?case by (simp add: option.map_comp comp_def)
qed

lemma redact_pass_newline:
  assumes m: "m \<noteq> []" "nl \<notin> set m" and l: "nl \<notin> set l"
  shows "redact_pass m (l @ nl # s) = redact_line m l @ nl # redact_pass m s"
proof -
  have skip: "redact_pass m (k @ nl # s) = k @ nl # redact_pass m s" if "Index k m = None" for k
    using m Index_append_None [OF that m(2,1), of s]
    by (auto simp: redact_pass.simps [of m "k @ nl # s"] redact_pass.simps [of m s] Let_def split: option.splits)
  show ?thesis
  proof (cases "Index l m")
    case None
    then show ?thesis by (simp add: skip redact_line_def)
  next
    case (Some i)
    have i: "i \<le> length l" using Index_Some [OF Some] by blast
    have e: "Index (drop i l @ nl # s) [nl] = Some (length l - i)"
    proof -
      have "nl \<notin> set k \<Longrightarrow> Index (k @ nl # s) [nl] = Some (length k)" for k
        by (induction k) (auto simp: HasPrefix_def)
      then show ?thesis using l by (metis in_set_dropD length_drop)
    qed
    have "redact_pass m (nl # s) = nl # redact_pass m s"
      using skip [of "[]"] m by simp
    then show ?thesis
      using m i e Index_append_Some [OF Some, of "nl # s"] Some
      by (simp add: redact_pass.simps [of m "l @ nl # s"] redact_line_def Let_def)
  qed
qed

lemma redact_pass_last:
  assumes m: "m \<noteq> []" "nl \<notin> set m" and l: "nl \<notin> set l"
  shows "redact_pass m l = redact_line m l"
proof (cases "Index l m")
  case None
  then show ?thesis by (simp add: redact_pass.simps redact_line_def)
next
  case (Some i)
  have "Index (drop i l) [nl] = None"
    using l by (auto simp: Index_None_iff) (metis in_set_conv_decomp in_set_dropD)
  moreover have "redact_pass m [] = []" using m by (simp add: redact_pass.simps)
  moreover have "i \<le> length l" using Index_Some [OF Some] by blast
  ultimately show ?thesis using m Some by (simp add: redact_pass.simps [of m l] redact_line_def)
qed

lemma redact_pass_lines:
  assumes "m \<noteq> []" "nl \<notin> set m"
  shows "ls \<noteq> [] \<Longrightarrow> (\<And>l. l \<in> set ls \<Longrightarrow> nl \<notin> set l) \<Longrightarrow>
     redact_pass m (Join ls [nl]) = Join (map (redact_line m) ls) [nl]"
proof (induction ls)
  case (Cons l ls)
  then show ?case
    using redact_pass_newline [OF assms, of l] redact_pass_last [OF assms, of l]
    by (cases "ls = []") (auto simp: Join_Cons)
qed simp

section \<open>No secret survives\<close>

definition line_clean :: "string \<Rightarrow> string \<Rightarrow> bool" where
  "line_clean m l \<longleftrightarrow> (\<forall>a b. l = a @ m @ b \<longrightarrow> b = ''***'')"

lemma append_marker_cases:
  assumes "a @ m @ [CHR ''=''] @ b = p @ m' @ [CHR ''=''] @ ''***''" "CHR ''='' \<notin> set m'"
  shows "b = ''***'' \<or> (\<exists>c. p = a @ m @ [CHR ''=''] @ c)"
proof -
  let ?x = "a @ m @ [CHR ''='']"
  from assms(1) have "?x @ b = p @ m' @ [CHR ''=''] @ ''***''" by simp
  then consider c where "?x = p @ c" "c @ b = m' @ [CHR ''=''] @ ''***''" | c where "?x @ c = p"
    by (auto simp only: append_eq_append_conv2)
  then show ?thesis
  proof cases
    case 1
    show ?thesis
    proof (cases "c = []")
      case True with 1 show ?thesis by (metis append.right_neutral append.assoc)
    next
      case False
      then have "last c = CHR ''=''" using 1(1) by (metis last_append append.assoc last_snoc append_is_Nil_conv)
      then obtain c' where c: "c = c' @ [CHR ''='']" using False by (metis append_butlast_last_id)
      from 1(2) c have "c' @ CHR ''='' # b = m' @ CHR ''='' # ''***''" by simp
      with assms(2) have "b = ''***''"
        by (auto simp: append_eq_append_conv2 append_eq_Cons_conv Cons_eq_append_conv)
      then show ?thesis ..
    qed
  qed auto
qed

lemma redact_line_clean: "CHR ''='' \<notin> set k \<Longrightarrow> line_clean (k @ ''='') (redact_line (k @ ''='') l)"
proof (unfold line_clean_def, intro allI impI)
  fix a b assume k: "CHR ''='' \<notin> set k" and eq: "redact_line (k @ ''='') l = a @ (k @ ''='') @ b"
  show "b = ''***''"
  proof (cases "Index l (k @ ''='')")
    case None
    with eq show ?thesis by (auto simp: redact_line_def Index_None_iff)
  next
    case (Some i)
    then have "a @ k @ [CHR ''=''] @ b = take i l @ k @ [CHR ''=''] @ ''***''"
      using eq by (simp add: redact_line_def)
    then consider "b = ''***''" | c where "take i l = a @ k @ [CHR ''=''] @ c"
      using append_marker_cases k by blast
    then show ?thesis
    proof cases
      case 2
      then have "l = a @ (k @ ''='') @ c @ drop i l" by (metis append.assoc append_take_drop_id)
      then have "i \<le> length a" using Index_minimal [OF Some] by blast
      moreover have "length a < length (take i l)" by (simp only: 2 length_append) simp
      moreover have "length (take i l) \<le> i" by simp
      ultimately show ?thesis by linarith
    qed
  qed
qed

lemma redact_line_keeps_clean:
  assumes "CHR ''='' \<notin> set k'" "line_clean (k @ ''='') l"
  shows "line_clean (k @ ''='') (redact_line (k' @ ''='') l)"
proof (cases "Index l (k' @ ''='')")
  case None
  then show ?thesis using assms(2) by (simp add: redact_line_def)
next
  case (Some i)
  show ?thesis
  proof (unfold line_clean_def, intro allI impI)
    fix a b assume "redact_line (k' @ ''='') l = a @ (k @ ''='') @ b"
    then have "a @ k @ [CHR ''=''] @ b = take i l @ k' @ [CHR ''=''] @ ''***''"
      using Some by (simp add: redact_line_def)
    then consider "b = ''***''" | c where "take i l = a @ k @ [CHR ''=''] @ c"
      using append_marker_cases assms(1) by blast
    then show "b = ''***''"
    proof cases
      case 2
      obtain t where t: "drop i l = (k' @ ''='') @ t" using Index_HasPrefix [OF Some] by blast
      have "l = a @ (k @ ''='') @ c @ drop i l" using 2 by (metis append.assoc append_take_drop_id)
      then have "c @ drop i l = ''***''" using assms(2) unfolding line_clean_def by blast
      then have "CHR ''='' \<in> set ''***''" using t by (metis Un_iff in_set_conv_decomp set_append append.assoc append_Cons append_Nil)
      then show ?thesis by simp
    qed
  qed
qed

lemma redact_fold_clean:
  assumes "\<And>k. k \<in> set ks \<Longrightarrow> CHR ''='' \<notin> set k"
    and "(\<And>k. k \<in> set done \<Longrightarrow> line_clean (k @ ''='') l)"
  shows "k \<in> set done \<union> set ks \<Longrightarrow> line_clean (k @ ''='') (fold (\<lambda>k. redact_line (k @ ''='')) ks l)"
  using assms
proof (induction ks arbitrary: l "done")
  case (Cons k0 ks)
  show ?case
    using Cons.prems Cons.IH [of "k0 # done" "redact_line (k0 @ ''='') l"]
    by (auto intro: redact_line_clean redact_line_keeps_clean)
qed auto

lemma redact_line_no_newline: "nl \<notin> set m \<Longrightarrow> nl \<notin> set l \<Longrightarrow> nl \<notin> set (redact_line m l)"
  by (auto simp: redact_line_def split: option.splits dest: in_set_takeD)

lemma redact_fold_lines:
  assumes "\<And>k. k \<in> set ks \<Longrightarrow> nl \<notin> set k"
  shows "ls \<noteq> [] \<Longrightarrow> (\<And>l. l \<in> set ls \<Longrightarrow> nl \<notin> set l) \<Longrightarrow>
     fold (\<lambda>k s. redact_pass (k @ ''='') s) ks (Join ls [nl]) =
     Join (map (fold (\<lambda>k. redact_line (k @ ''='')) ks) ls) [nl]"
  using assms
proof (induction ks arbitrary: ls)
  case (Cons k ks)
  have "redact_pass (k @ ''='') (Join ls [nl]) = Join (map (redact_line (k @ ''='')) ls) [nl]"
    using Cons.prems by (intro redact_pass_lines) auto
  moreover have "nl \<notin> set l" if "l \<in> set (map (redact_line (k @ ''='')) ls)" for l
    using that Cons.prems by (auto simp: redact_line_no_newline)
  ultimately show ?case
    using Cons.prems Cons.IH [of "map (redact_line (k @ ''='')) ls"] by (simp add: comp_def)
qed simp

lemma secret_keys_plain: "k \<in> set secret_keys \<Longrightarrow> CHR ''='' \<notin> set k \<and> nl \<notin> set k"
  by (auto simp: secret_keys_def)

lemma redactSecrets_lines:
  "redactSecrets s = Join (map (fold (\<lambda>k. redact_line (k @ ''='')) secret_keys) (Split s nl)) [nl]"
  unfolding redactSecrets_def
  using redact_fold_lines [of secret_keys "Split s nl"] secret_keys_plain Split_parts
  by (auto simp: Join_Split)

lemma Split_Join: "ls \<noteq> [] \<Longrightarrow> (\<And>l. l \<in> set ls \<Longrightarrow> c \<notin> set l) \<Longrightarrow> Split (Join ls [c]) c = ls"
proof (induction ls)
  case (Cons l ls)
  then show ?case by (cases "ls = []") (auto simp: Join_Cons Split_append Split_no_sep)
qed simp

lemma fold_no_newline:
  "(\<And>k. k \<in> set ks \<Longrightarrow> nl \<notin> set k) \<Longrightarrow> nl \<notin> set l \<Longrightarrow> nl \<notin> set (fold (\<lambda>k. redact_line (k @ ''='')) ks l)"
  by (induction ks arbitrary: l) (auto simp: redact_line_no_newline)

lemma Split_redactSecrets:
  "Split (redactSecrets s) nl = map (fold (\<lambda>k. redact_line (k @ ''='')) secret_keys) (Split s nl)"
  unfolding redactSecrets_lines
  by (rule Split_Join) (use secret_keys_plain fold_no_newline Split_parts in auto)

text \<open>
  C37. No secret value survives redaction: in the redacted text, whatever follows
  \<^verbatim>\<open>key=\<close> on a line, for each of the four secret keys, is exactly \<^verbatim>\<open>***\<close>. The
  number of lines is unchanged.
\<close>

theorem redactSecrets_no_secret_left:
  assumes "key \<in> set secret_keys" "line \<in> set (Split (redactSecrets s) nl)" "line = a @ key @ ''='' @ b"
  shows "b = ''***'' \<and> length (Split (redactSecrets s) nl) = length (Split s nl)"
proof -
  from assms(2) obtain l where l: "line = fold (\<lambda>k. redact_line (k @ ''='')) secret_keys l"
    by (auto simp: Split_redactSecrets)
  have "line_clean (key @ ''='') line"
    unfolding l using redact_fold_clean [of secret_keys "[]" l key] secret_keys_plain assms(1) by auto
  then show ?thesis using assms(3) by (simp add: line_clean_def Split_redactSecrets)
qed

theorem redactSecrets_no_secret_left_witness:
  "redactSecrets ''repo1-s3-key-secret=hunter2'' = ''repo1-s3-key-secret='' @ ''***''"
proof -
  obtain b where b: "redactSecrets ''repo1-s3-key-secret=hunter2'' = [] @ ''repo1-s3-key-secret'' @ ''='' @ b"
    by (simp add: redactSecrets_lines secret_keys_def redact_line_def HasPrefix_def)
  have "nl \<notin> set b"
  proof -
    have "nl \<notin> set (redactSecrets ''repo1-s3-key-secret=hunter2'')"
      by (simp add: redactSecrets_lines secret_keys_def redact_line_def HasPrefix_def)
    with b show ?thesis by simp
  qed
  then have "redactSecrets ''repo1-s3-key-secret=hunter2'' \<in> set (Split (redactSecrets ''repo1-s3-key-secret=hunter2'') nl)"
    by (subst (2) b) (simp add: Split_no_sep b)
  from redactSecrets_no_secret_left [OF _ this b] b show ?thesis by (simp add: secret_keys_def)
qed

end
