(* ===== verification/ProvisionBase.thy ===== *)
theory ProvisionBase
  imports MetaDB Redact
begin

text \<open>
  The parts of package \<^verbatim>\<open>internal/provision\<close> that every lifecycle operation uses: the
  options, container specifications, the rendered pgBackRest configuration, the derived
  passphrases, running a command in a container, redacting secrets from its output, and the
  three polling loops. Progress callbacks only report to the user interface and are left out.

  A polling loop runs on fuel: \<open>waitReady\<close> gets one unit per second of its deadline and
  two more. The lemmas of the locale \<open>container_host\<close> at the end show that the fuel is
  never exhausted, because every pass through the \<^verbatim>\<open>select\<close> advances the clock.
\<close>

section \<open>Constants and options (provision.go)\<close>

definition pgDataPath :: string where "pgDataPath = ''/var/lib/postgresql/data''"
definition repoPath :: string where "repoPath = ''/var/lib/pgbackrest''"
definition confPath :: string where "confPath = ''/etc/pgbackrest/pgbackrest.conf''"
definition pgPort :: int where "pgPort = 5432"

definition second :: int where "second = 1000000000"
definition readyTimeout :: int where "readyTimeout = 90 * second"
definition restoreTimeout :: int where "restoreTimeout = 300 * second"
definition streamTimeout :: int where "streamTimeout = 60 * second"

definition stopTimeoutSeconds :: nat where "stopTimeoutSeconds = 30"

record s3_config =
  oc_Endpoint :: string
  oc_Region :: string
  oc_AccessKey :: string
  oc_SecretKey :: string
  oc_Bucket :: string
  oc_UseTLS :: bool
  oc_SkipTLSVerify :: bool

record Options =
  o_Network :: string
  o_InstanceHost :: string
  o_S3 :: s3_config
  o_S3BackrestEndpoint :: string
  o_RestartPolicy :: string
  o_BindAddress :: string
  o_MasterKey :: string
  o_BackupEncryption :: bool
  o_BlockIncr :: bool
  o_Repo2Path :: string

text \<open>
  A \<^verbatim>\<open>Provisioner\<close>: the runtime, the key of the repository's cipher, the options. Its
  per-instance mutexes serialise whole operations, which the model runs one at a time.
\<close>

record 'e Provisioner =
  p_rt :: "'e host"
  p_kek :: string
  p_opts :: Options

section \<open>Names and labels\<close>

definition volumeName :: "string \<Rightarrow> string \<Rightarrow> string" where
  "volumeName kind iid = ''pgfleet-'' @ kind @ ''-'' @ iid"

definition InstanceContainerName :: "string \<Rightarrow> string" where
  "InstanceContainerName name = ''pgfleet-pg-'' @ name"

definition instanceLabels :: "string \<Rightarrow> strmap" where
  "instanceLabels iid = [(LabelManaged, ''true''), (LabelInstance, iid), (LabelRole, ''postgres'')]"

definition bindAddrFor :: "Options \<Rightarrow> Instance \<Rightarrow> string" where
  "bindAddrFor opts inst =
     (if i_Public inst then ''0.0.0.0''
      else if o_BindAddress opts \<noteq> [] then o_BindAddress opts
      else ''127.0.0.1'')"

definition recoveryLabels :: "Instance \<Rightarrow> strmap" where
  "recoveryLabels inst =
     (let r = role_string (i_Role inst);
          role = (if r = [] \<or> r = role_string RoleStandalone then ''postgres'' else r) in
      [(LabelManaged, ''true''), (LabelInstance, i_ID inst), (LabelRole, role),
       (LabelName, i_Name inst), (LabelStanza, i_Stanza inst),
       (LabelRepoType, repo_string (i_RepoType inst)), (LabelPGVersion, i_PGVersion inst)] @
      (if i_ClusterID inst \<noteq> [] then [(LabelCluster, i_ClusterID inst)] else []))"

definition asPostgres :: "string list \<Rightarrow> string list" where
  "asPostgres cmd = [''gosu'', ''postgres''] @ cmd"

definition createExtension :: "string \<Rightarrow> string \<Rightarrow> string list" where
  "createExtension superuser name = asPostgres
     [''psql'', ''-U'', superuser, ''-d'', ''postgres'', ''-c'',
      ''CREATE EXTENSION IF NOT EXISTS '' @ [dquote] @ name @ [dquote]]"

definition sortedKeys :: "strmap \<Rightarrow> string list" where
  "sortedKeys m = sort (map fst m)"

text \<open>\<^verbatim>\<open>hex.EncodeToString\<close> and \<^verbatim>\<open>%x\<close>.\<close>

definition hex_digit :: "nat \<Rightarrow> char" where
  "hex_digit d = char_of (if d < 10 then 48 + d else 87 + d)"

definition hex_encode :: "string \<Rightarrow> string" where
  "hex_encode s = concat (map (\<lambda>c. [hex_digit (byte_val c div 16), hex_digit (byte_val c mod 16)]) s)"

fun show_hex :: "nat \<Rightarrow> string" where
  "show_hex n = (if n < 16 then [hex_digit n] else show_hex (n div 16) @ [hex_digit (n mod 16)])"

declare show_hex.simps [simp del]

text \<open>The suffix the next call of \<open>shortStamp\<close> returns.\<close>

definition next_stamp :: "'e host \<Rightarrow> 'e world \<Rightarrow> string" where
  "next_stamp h w = show_hex (nat (Now h (env w) mod 2 ^ 24)) @ ''-'' @ Itoa (stampCounter w + 1)"

definition shortStamp :: "'e host \<Rightarrow> ('e world, string) gofun" where
  "shortStamp h w = (Inr (next_stamp h w), w\<lparr>stampCounter := stampCounter w + 1\<rparr>)"

section \<open>Derived passphrases (cipher.go)\<close>

definition cipherPassPrefix :: string where "cipherPassPrefix = ''pgbackrest-cipher:''"
definition routerAdminPrefix :: string where "routerAdminPrefix = ''pgcat-admin:''"

definition deriveCipherPass :: "lib \<Rightarrow> string \<Rightarrow> string \<Rightarrow> string" where
  "deriveCipherPass lb masterKey instanceID =
     (if masterKey = [] then []
      else hex_encode (HmacSHA256 lb masterKey (cipherPassPrefix @ instanceID)))"

definition RouterAdminPass :: "lib \<Rightarrow> string \<Rightarrow> string \<Rightarrow> string" where
  "RouterAdminPass lb masterKey clusterID =
     (if masterKey = [] then []
      else hex_encode (HmacSHA256 lb masterKey (routerAdminPrefix @ clusterID)))"

section \<open>Container specification and configuration\<close>

definition platform_flags :: "Instance \<Rightarrow> (string \<times> string) list" where
  "platform_flags inst =
     [(''archive_mode'', ''on''),
      (''archive_command'', ''pgbackrest --stanza='' @ i_Stanza inst @ '' archive-push %p''),
      (''archive_timeout'', ''60''),
      (''wal_level'', ''replica''),
      (''max_wal_senders'', ''10''),
      (''max_replication_slots'', ''10''),
      (''max_slot_wal_keep_size'', ''10GB''),
      (''shared_preload_libraries'', Join (PreloadLibraries (i_Extensions inst)) '','')]"

definition flag_args :: "string \<times> string \<Rightarrow> string list" where
  "flag_args kv = [''-c'', fst kv @ ''='' @ snd kv]"

definition containerSpec :: "Options \<Rightarrow> Instance \<Rightarrow> string \<Rightarrow> mount list \<Rightarrow> container_spec" where
  "containerSpec opts inst password mounts = \<lparr>
     cs_Name = InstanceContainerName (i_Name inst),
     cs_Image = i_Image inst,
     cs_Cmd = [''postgres''] @ concat (map flag_args (platform_flags inst)) @
        concat (map (\<lambda>k. flag_args (k, map_get (i_Parameters inst) k)) (sortedKeys (i_Parameters inst))),
     cs_Env = [(''POSTGRES_USER'', i_Superuser inst), (''POSTGRES_PASSWORD'', password), (''POSTGRES_DB'', ''postgres'')],
     cs_Labels = recoveryLabels inst,
     cs_Ports = [\<lparr>ContainerPort = pgPort, HostPort = 0, Protocol = [], HostIP = bindAddrFor opts inst\<rparr>],
     cs_Mounts = mounts,
     cs_Networks = (if o_Network opts \<noteq> [] then [o_Network opts] else []),
     cs_User = [],
     cs_RestartPolicy = o_RestartPolicy opts\<rparr>"

definition no_S3 :: RepoS3_conf where
  "no_S3 = \<lparr>s3_Endpoint = [], s3_Bucket = [], s3_Region = [], s3_Key = [], s3_Secret = [],
            s3_PathPrefix = [], s3_URIStyle = [], s3_VerifyTLS = False\<rparr>"

definition conf_input :: "lib \<Rightarrow> Options \<Rightarrow> Instance \<Rightarrow> InstanceConf" where
  "conf_input lb opts inst = \<lparr>
     ic_Stanza = i_Stanza inst,
     ic_PGDataPath = pgDataPath,
     ic_PGPort = pgPort,
     ic_RetentionFull = 2,
     ic_RepoType = repo_string (i_RepoType inst),
     ic_S3 = (if i_RepoType inst = RepoS3 then \<lparr>
          s3_Endpoint = (if o_S3BackrestEndpoint opts = [] then oc_Endpoint (o_S3 opts) else o_S3BackrestEndpoint opts),
          s3_Bucket = oc_Bucket (o_S3 opts), s3_Region = oc_Region (o_S3 opts),
          s3_Key = oc_AccessKey (o_S3 opts), s3_Secret = oc_SecretKey (o_S3 opts),
          s3_PathPrefix = ''/stanzas/'' @ i_Stanza inst, s3_URIStyle = ''path'',
          s3_VerifyTLS = (\<not> oc_SkipTLSVerify (o_S3 opts))\<rparr> else no_S3),
     ic_LocalPath = (if i_RepoType inst = RepoLocal then repoPath else []),
     ic_CipherPass = (if i_Encrypted inst then deriveCipherPass lb (o_MasterKey opts) (i_ID inst) else []),
     ic_BlockIncr = o_BlockIncr opts,
     ic_Repo2Path = o_Repo2Path opts\<rparr>"

definition backrestConf :: "lib \<Rightarrow> Options \<Rightarrow> Instance \<Rightarrow> goerr + string" where
  "backrestConf lb opts inst = BackrestConf (conf_input lb opts inst)"

section \<open>Running commands in a container\<close>

definition execOK :: "'e host \<Rightarrow> string \<Rightarrow> string list \<Rightarrow> ('e, unit) gofun" where
  "execOK h containerID cmd =
     bindE (Exec h containerID cmd) (\<lambda>res.
     if ExitCode res \<noteq> 0 then
       let prog = (if 0 < length cmd then cmd ! 0 else ''command'') in
       fail (New KindInternal (''provision: '' @ prog @ '' failed (exit '' @ Itoa (ExitCode res) @ ''): '' @
               redactSecrets (TrimSpace (Stderr res @ Stdout res))))
     else ret ())"

definition config_script :: "string \<Rightarrow> string" where
  "config_script conf = Join
     [''set -e'',
      ''chown -R postgres:postgres '' @ repoPath,
      ''umask 0177'',
      ''cat > '' @ confPath @ '' <<'' @ [squote] @ ''PGBR_EOF'' @ [squote],
      conf,
      ''PGBR_EOF'',
      ''chown postgres:postgres '' @ confPath] [nl]"

definition writeConfig :: "'e Provisioner \<Rightarrow> string \<Rightarrow> Instance \<Rightarrow> ('e, unit) gofun" where
  "writeConfig p containerID inst =
     (case backrestConf (Lib (p_rt p)) (p_opts p) inst of
        Inl e \<Rightarrow> fail e
      | Inr conf \<Rightarrow> execOK (p_rt p) containerID [''sh'', ''-c'', config_script conf])"

definition portFor :: "container_state \<Rightarrow> int \<Rightarrow> goerr + int" where
  "portFor state containerPort =
     (case map_of (st_Ports state) (Itoa containerPort @ ''/tcp'') of
        None \<Rightarrow> Inl (New KindInternal ''provision: no host port assigned'')
      | Some hp \<Rightarrow>
          if hp = [] then Inl (New KindInternal ''provision: no host port assigned'')
          else (case scan_int hp of
              None \<Rightarrow> Inl (Wrap KindInternal ''provision: parse host port'' (Plain ''expected integer''))
            | Some port \<Rightarrow> Inr port))"

definition assignedPort :: "container_state \<Rightarrow> goerr + int" where
  "assignedPort state = portFor state pgPort"

section \<open>Polling loops\<close>

text \<open>
  The shape of \<^verbatim>\<open>waitReady\<close>, \<^verbatim>\<open>waitRestoreExit\<close> and \<^verbatim>\<open>verifyStreaming\<close>: probe
  (\<open>None\<close>: not decided yet), give up after the deadline, otherwise wait for the timer or
  the context and probe again.
\<close>

fun poll :: "'e host \<Rightarrow> ('e \<Rightarrow> (goerr + unit) option \<times> 'e) \<Rightarrow> goerr \<Rightarrow> int \<Rightarrow> nat \<Rightarrow> int \<Rightarrow> ('e, unit) gofun" where
  "poll h probe timedOut interval 0 deadline = fail (Plain ''out of fuel'')"
| "poll h probe timedOut interval (Suc n) deadline = (\<lambda>e.
     case probe e of
       (Some r, e') \<Rightarrow> (r, e')
     | (None, e') \<Rightarrow>
         if deadline < Now h e' then (Inl timedOut, e')
         else bindE (Wait h interval) (\<lambda>_. poll h probe timedOut interval n deadline) e')"

definition ready_probe :: "'e host \<Rightarrow> string \<Rightarrow> string \<Rightarrow> 'e \<Rightarrow> (goerr + unit) option \<times> 'e" where
  "ready_probe h containerID superuser e =
     (case Exec h containerID [''pg_isready'', ''-U'', superuser, ''-h'', ''127.0.0.1''] e of
        (Inr res, e') \<Rightarrow> (if ExitCode res = 0 then Some (Inr ()) else None, e')
      | (Inl _, e') \<Rightarrow> (None, e'))"

definition waitReady :: "'e host \<Rightarrow> string \<Rightarrow> string \<Rightarrow> ('e, unit) gofun" where
  "waitReady h containerID superuser = withS (\<lambda>e.
     poll h (ready_probe h containerID superuser)
       (New KindInternal ''provision: postgres did not become ready in time'') second 92 (Now h e + readyTimeout))"

definition containerLogs :: "'e host \<Rightarrow> string \<Rightarrow> 'e \<Rightarrow> string \<times> 'e" where
  "containerLogs h cid e = (case Logs h cid False e of
       (Inl _, e') \<Rightarrow> ([], e')
     | (Inr out, e') \<Rightarrow> (redactSecrets (TrimSpace (take (64 * 1024) out)), e'))"

definition exit_probe :: "'e host \<Rightarrow> string \<Rightarrow> 'e \<Rightarrow> (goerr + unit) option \<times> 'e" where
  "exit_probe h cid e = (case Inspect h cid e of
       (Inl err, e') \<Rightarrow> (Some (Inl err), e')
     | (Inr state, e') \<Rightarrow>
         if \<not> st_Running state \<and> st_Status state = ''exited'' then
           if st_ExitCode state \<noteq> 0 then
             (case containerLogs h cid e' of (logs, e'') \<Rightarrow>
               (Some (Inl (New KindInternal
                  (''provision: restore failed (exit '' @ Itoa (st_ExitCode state) @ ''): '' @ logs))), e''))
           else (Some (Inr ()), e')
         else (None, e'))"

definition waitRestoreExit :: "'e host \<Rightarrow> string \<Rightarrow> ('e, unit) gofun" where
  "waitRestoreExit h cid = withS (\<lambda>e.
     poll h (exit_probe h cid) (New KindInternal ''provision: restore timed out'') second 302 (Now h e + restoreTimeout))"

definition stream_query :: "string \<Rightarrow> string" where
  "stream_query appName =
     ''SELECT count(*) FROM pg_stat_replication WHERE application_name='' @ [squote] @ appName @ [squote] @
     '' AND state='' @ [squote] @ ''streaming'' @ [squote]"

definition stream_probe :: "'e host \<Rightarrow> string \<Rightarrow> string \<Rightarrow> 'e \<Rightarrow> (goerr + unit) option \<times> 'e" where
  "stream_probe h primaryContainerID appName e =
     (case Exec h primaryContainerID (asPostgres [''psql'', ''-tAc'', stream_query appName]) e of
        (Inr res, e') \<Rightarrow>
          (if ExitCode res = 0 \<and> TrimSpace (Stdout res) \<noteq> ''0'' then Some (Inr ()) else None, e')
      | (Inl _, e') \<Rightarrow> (None, e'))"

definition verifyStreaming :: "'e host \<Rightarrow> string \<Rightarrow> string \<Rightarrow> ('e, unit) gofun" where
  "verifyStreaming h primaryContainerID appName = withS (\<lambda>e.
     poll h (stream_probe h primaryContainerID appName)
       (New KindInternal ''provision: replica did not start streaming in time'') (2 * second) 32 (Now h e + streamTimeout))"

section \<open>What the helpers keep, and that the fuel is enough\<close>

lemma waitReady_now: "ready_probe h c su e = (Some r, e') \<Longrightarrow> waitReady h c su e = (r, e')"
  using poll.simps(2) [of h "ready_probe h c su" _ second 91] by (simp add: waitReady_def withS_def)

lemma waitRestoreExit_now: "exit_probe h c e = (Some r, e') \<Longrightarrow> waitRestoreExit h c e = (r, e')"
  using poll.simps(2) [of h "exit_probe h c" _ second 301] by (simp add: waitRestoreExit_def withS_def)

lemma poll_keeps:
  assumes "\<And>e. I e \<Longrightarrow> I (snd (probe e))" "keeps I (Wait h interval)"
  shows "keeps I (poll h probe te interval n dl)"
proof (induction n)
  case (Suc n)
  have "keeps I (bindE (Wait h interval) (\<lambda>_. poll h probe te interval n dl))"
    by (intro keeps_rules assms Suc.IH)
  then show ?case
    using assms(1) by (fastforce simp: keeps_def split: prod.splits option.splits)
qed (simp add: keeps_rules)

context container_host
begin

lemma poll_enough_fuel:
  assumes probe: "\<And>e. Now h e \<le> Now h (snd (probe e))"
    and "dl < Now h e + interval * int n" "n \<le> m"
  shows "poll h probe te interval (Suc m) dl e = poll h probe te interval (Suc n) dl e"
  using assms(2,3)
proof (induction n arbitrary: m e)
  case 0
  then show ?case using probe [of e] by (auto split: prod.splits option.splits)
next
  case (Suc n)
  obtain m' where m: "m = Suc m'" "n \<le> m'" using Suc.prems(2) by (cases m) auto
  obtain o1 e1 where e1: "probe e = (o1, e1)" by fastforce
  have "poll h probe te interval (Suc m') dl e2 = poll h probe te interval (Suc n) dl e2"
    if "Wait h interval e1 = (Inr (), e2)" for e2
  proof (rule Suc.IH [OF _ m(2)])
    show "dl < Now h e2 + interval * int n"
      using Suc.prems(1) probe [of e] time_Wait [OF that] e1 by (simp add: algebra_simps)
  qed
  then show ?case
    by (auto simp: e1 m(1) bindE_def simp del: poll.simps(2) split: option.splits prod.splits sum.splits)
      (subst (1 2) poll.simps(2), auto simp: e1 bindE_def split: option.splits prod.splits sum.splits)
qed

lemma probes_clock:
  "Now h e \<le> Now h (snd (ready_probe h c su e))" "Now h e \<le> Now h (snd (stream_probe h c a e))"
  by (auto simp: ready_probe_def stream_probe_def split: prod.splits sum.splits dest: time_Exec)

lemma exit_probe_clock: "Now h e \<le> Now h (snd (exit_probe h c e))"
proof -
  have "Now h e' \<le> Now h (snd (containerLogs h c e'))" for e'
    by (auto simp: containerLogs_def split: prod.splits sum.splits dest: time_Logs)
  then show ?thesis
    by (auto simp: exit_probe_def split: prod.splits sum.splits dest: time_Inspect)
      (metis order.trans snd_conv time_Inspect)
qed

text \<open>More fuel than the definitions use never changes a result: the deadline decides first.\<close>

lemma waitReady_fuel:
  "92 \<le> m \<Longrightarrow> poll h (ready_probe h c su) te second m (Now h e + readyTimeout) e =
     poll h (ready_probe h c su) te second 92 (Now h e + readyTimeout) e"
  using poll_enough_fuel [of "ready_probe h c su" "Now h e + readyTimeout" e second 91 "m - 1" te] probes_clock(1)
  by (cases m) (auto simp: second_def readyTimeout_def eval_nat_numeral)

lemma verifyStreaming_fuel:
  "32 \<le> m \<Longrightarrow> poll h (stream_probe h c a) te (2 * second) m (Now h e + streamTimeout) e =
     poll h (stream_probe h c a) te (2 * second) 32 (Now h e + streamTimeout) e"
  using poll_enough_fuel [of "stream_probe h c a" "Now h e + streamTimeout" e "2 * second" 31 "m - 1" te] probes_clock(2)
  by (cases m) (auto simp: second_def streamTimeout_def eval_nat_numeral)

lemma waitRestoreExit_fuel:
  "302 \<le> m \<Longrightarrow> poll h (exit_probe h c) te second m (Now h e + restoreTimeout) e =
     poll h (exit_probe h c) te second 302 (Now h e + restoreTimeout) e"
  using poll_enough_fuel [of "exit_probe h c" "Now h e + restoreTimeout" e second 301 "m - 1" te] exit_probe_clock
  by (cases m) (auto simp: second_def restoreTimeout_def eval_nat_numeral)

text \<open>The containers and volumes that exist, as a state predicate.\<close>

definition objs :: "string set \<Rightarrow> string set \<Rightarrow> 'e \<Rightarrow> bool" where
  "objs C V e \<longleftrightarrow> inv e \<and> conts e = C \<and> vols e = V"

lemma objsI: "(\<And>r e e'. inv e \<Longrightarrow> m e = (r, e') \<Longrightarrow> conts e' = conts e \<and> vols e' = vols e) \<Longrightarrow> keeps inv m \<Longrightarrow>
    keeps (objs C V) m"
  unfolding keeps_def objs_def by (metis prod.collapse)

lemma objs_frames:
  "keeps (objs C V) (EnsureImage h ref)" "keeps (objs C V) (StartContainer h cid)"
  "keeps (objs C V) (StopContainer h cid tmo)" "keeps (objs C V) (Inspect h cid)"
  "keeps (objs C V) (Exec h cid cmd)" "keeps (objs C V) (Logs h cid fl)"
  "keeps (objs C V) (ListByLabel h lbl)" "keeps (objs C V) (Wait h d)" "keeps (objs C V) (RandRead h n)"
  by (rule objsI; (erule frame_EnsureImage frame_StartContainer frame_StopContainer frame_Inspect frame_Exec frame_Logs
        frame_ListByLabel frame_Wait frame_RandRead, assumption)?,
      (rule inv_EnsureImage inv_StartContainer inv_StopContainer inv_Inspect inv_Exec inv_Logs
        inv_ListByLabel inv_Wait inv_RandRead)?)+

lemma execOK_objs: "keeps (objs C V) (execOK h cid cmd)"
  unfolding execOK_def by (intro keeps_rules objs_frames)

lemma waits_objs:
  "keeps (objs C V) (waitReady h cid su)" "keeps (objs C V) (verifyStreaming h cid a)"
  "keeps (objs C V) (waitRestoreExit h cid)"
proof -
  note fr = keepsD [OF objs_frames(5)] keepsD [OF objs_frames(4)] keepsD [OF objs_frames(6)]
  have "objs C V e \<Longrightarrow> objs C V (snd (containerLogs h cid e))" for e
    using fr(3) [of C V e cid False] by (auto simp: containerLogs_def split: prod.splits sum.splits)
  then have ex: "objs C V e \<Longrightarrow> objs C V (snd (exit_probe h cid e))" for e
    using fr(2) [of C V e cid] by (fastforce simp: exit_probe_def split: prod.splits sum.splits)
  have rd: "objs C V e \<Longrightarrow> objs C V (snd (ready_probe h cid su e))" for e
    using fr(1) [of C V e cid] by (auto simp: ready_probe_def split: prod.splits sum.splits) (metis snd_conv)+
  have st: "objs C V e \<Longrightarrow> objs C V (snd (stream_probe h cid a e))" for e
    using fr(1) [of C V e cid] by (auto simp: stream_probe_def split: prod.splits sum.splits) (metis snd_conv)+
  show "keeps (objs C V) (waitReady h cid su)" "keeps (objs C V) (verifyStreaming h cid a)"
    "keeps (objs C V) (waitRestoreExit h cid)"
    unfolding waitReady_def verifyStreaming_def waitRestoreExit_def
    by (intro keeps_rules poll_keeps objs_frames ex rd st; assumption)+
qed

end

end
