(* ===== verification/Provision.thy ===== *)
theory Provision
  imports ProvisionBase
begin

text \<open>
  \<^verbatim>\<open>internal/provision/provision.go\<close> and \<^verbatim>\<open>lifecycle.go\<close>: provisioning an instance,
  starting, stopping, destroying and adopting it. A deferred clean-up that runs when the
  function returns an error is \<open>guardE\<close> around each stretch of the body, with the
  resources created before that stretch.
\<close>

section \<open>Provisioning\<close>

definition cleanup :: "'e host \<Rightarrow> string \<Rightarrow> string list \<Rightarrow> ('e, unit) gofun" where
  "cleanup h createdContainer createdVolumes =
     (if createdContainer \<noteq> [] then
        ignoring (RemoveContainer h createdContainer True) (forI (\<lambda>v. RemoveVolume h v True) createdVolumes)
      else forI (\<lambda>v. RemoveVolume h v True) createdVolumes)"

definition data_mounts :: "Instance \<Rightarrow> string \<Rightarrow> string \<Rightarrow> mount list" where
  "data_mounts inst dataVol repoVol =
     [\<lparr>Volume = dataVol, Path = pgDataPath, ReadOnly = False\<rparr>] @
     (if i_RepoType inst = RepoLocal then [\<lparr>Volume = repoVol, Path = repoPath, ReadOnly = False\<rparr>] else [])"

text \<open>The part of \<^verbatim>\<open>provision\<close> after the container exists.\<close>

definition provision_run :: "'e Provisioner \<Rightarrow> string \<Rightarrow> Instance \<Rightarrow> string \<Rightarrow> ('e world, unit) gofun" where
  "provision_run p iid inst containerID =
     (let h = p_rt p in
      ignoring (onD (instance_SetRuntime iid containerID 0))
      (bindE (onE (StartContainer h containerID)) (\<lambda>_.
       bindE (onE (Inspect h containerID)) (\<lambda>state.
       case assignedPort state of
         Inl e \<Rightarrow> fail e
       | Inr hostPort \<Rightarrow>
           bindE (onD (instance_SetRuntime iid containerID hostPort)) (\<lambda>_.
           bindE (onE (waitReady h containerID (i_Superuser inst))) (\<lambda>_.
           ignoring (onE (execOK h containerID (createExtension (i_Superuser inst) ''pg_stat_statements'')))
           (bindE (forE (\<lambda>ext. onE (execOK h containerID (createExtension (i_Superuser inst) ext))) (i_Extensions inst)) (\<lambda>_.
            bindE (onE (writeConfig p containerID inst)) (\<lambda>_.
            bindE (onE (execOK h containerID (asPostgres (StanzaCreate (i_Stanza inst) confPath)))) (\<lambda>_.
            onE (execOK h containerID (asPostgres (Check (i_Stanza inst) confPath)))))))))))))"

text \<open>The part of \<^verbatim>\<open>provision\<close> after the image is ensured, under the deferred clean-up.\<close>

definition provision_resources :: "'e Provisioner \<Rightarrow> string \<Rightarrow> Instance \<Rightarrow> string \<Rightarrow> ('e world, unit) gofun" where
  "provision_resources p iid inst password =
     (let h = p_rt p; dataVol = volumeName ''data'' iid; repoVol = volumeName ''repo'' iid;
          created = (if i_RepoType inst = RepoLocal then [dataVol, repoVol] else [dataVol]) in
      bindE (onE (CreateVolume h dataVol (instanceLabels iid))) (\<lambda>_.
      bindE (guardE (onE (cleanup h [] [dataVol]))
        (ignoring (onD (instance_SetDataVolume iid dataVol))
         (if i_RepoType inst = RepoLocal then onE (CreateVolume h repoVol (instanceLabels iid)) else ret ()))) (\<lambda>_.
      bindE (guardE (onE (cleanup h [] created))
        (onE (CreateContainer h (containerSpec (p_opts p) inst password (data_mounts inst dataVol repoVol))))) (\<lambda>containerID.
      guardE (onE (cleanup h containerID created)) (provision_run p iid inst containerID)))))"

definition provision :: "'e Provisioner \<Rightarrow> string \<Rightarrow> ('e world, unit) gofun" where
  "provision p iid =
     (let h = p_rt p; enc = o_BackupEncryption (p_opts p) in
      bindE (onD (instance_Get iid)) (\<lambda>inst0.
      bindE (if i_Encrypted inst0 \<noteq> enc then
               bindE (onD (instance_SetEncrypted iid enc)) (\<lambda>_. ret (inst0\<lparr>i_Encrypted := enc\<rparr>))
             else ret inst0) (\<lambda>inst.
      bindE (onD (instance_Password (Lib h) (p_kek p) iid)) (\<lambda>password.
      bindE (onE (EnsureImage h (i_Image inst))) (\<lambda>_.
      provision_resources p iid inst password)))))"

text \<open>\<^verbatim>\<open>if err := body; err != nil { _ = SetStatus(error); return err }; return SetStatus(running)\<close>.\<close>

definition record_outcome :: "string \<Rightarrow> ('e world, unit) gofun \<Rightarrow> ('e world, unit) gofun" where
  "record_outcome iid body = attempt body (\<lambda>r. case r of
       Inl e \<Rightarrow> ignoring (onD (instance_SetStatus iid StatusError (Error e))) (fail e)
     | Inr _ \<Rightarrow> onD (instance_SetStatus iid StatusRunning []))"

definition Provision :: "'e Provisioner \<Rightarrow> string \<Rightarrow> ('e world, unit) gofun" where
  "Provision p iid = record_outcome iid (provision p iid)"

section \<open>Lifecycle (lifecycle.go)\<close>

definition refreshPort :: "'e Provisioner \<Rightarrow> string \<Rightarrow> string \<Rightarrow> ('e world, unit) gofun" where
  "refreshPort p iid containerID = attempt (onE (Inspect (p_rt p) containerID)) (\<lambda>r. case r of
       Inl _ \<Rightarrow> ret ()
     | Inr state \<Rightarrow> (case assignedPort state of
           Inl _ \<Rightarrow> ret ()
         | Inr port \<Rightarrow> ignoring (onD (instance_SetRuntime iid containerID port)) (ret ())))"

definition Start :: "'e Provisioner \<Rightarrow> string \<Rightarrow> ('e world, unit) gofun" where
  "Start p iid =
     bindE (onD (instance_Get iid)) (\<lambda>inst.
     bindE (onE (StartContainer (p_rt p) (i_ContainerID inst))) (\<lambda>_.
     bindE (refreshPort p iid (i_ContainerID inst)) (\<lambda>_.
     onD (instance_SetStatus iid StatusRunning []))))"

definition Stop :: "'e Provisioner \<Rightarrow> string \<Rightarrow> ('e world, unit) gofun" where
  "Stop p iid =
     bindE (onD (instance_Get iid)) (\<lambda>inst.
     bindE (onE (StopContainer (p_rt p) (i_ContainerID inst) (Some stopTimeoutSeconds))) (\<lambda>_.
     onD (instance_SetStatus iid StatusStopped [])))"

definition Restart :: "'e Provisioner \<Rightarrow> string \<Rightarrow> ('e world, unit) gofun" where
  "Restart p iid = bindE (Stop p iid) (\<lambda>_. Start p iid)"

text \<open>\<^verbatim>\<open>if err := m; err != nil && apperr.Kind(err) != apperr.KindNotFound { return fail(err) }\<close>.\<close>

definition tolerate_missing :: "string \<Rightarrow> ('e, unit) gofun \<Rightarrow> ('e world, unit) gofun" where
  "tolerate_missing iid m = attempt (onE m) (\<lambda>r. case r of
       Inl e \<Rightarrow>
         if Kind e \<noteq> KindNotFound then
           ignoring (onD (instance_SetStatus iid StatusError (''destroy failed: '' @ Error e))) (fail e)
         else ret ()
     | Inr _ \<Rightarrow> ret ())"

definition data_volume_of :: "Instance \<Rightarrow> string \<Rightarrow> string" where
  "data_volume_of inst iid = (if i_DataVolume inst = [] then volumeName ''data'' iid else i_DataVolume inst)"

definition Destroy :: "'e Provisioner \<Rightarrow> string \<Rightarrow> bool \<Rightarrow> ('e world, unit) gofun" where
  "Destroy p iid retainBackups =
     (let h = p_rt p in
      bindE (onD (instance_Get iid)) (\<lambda>inst.
      ignoring (onD (instance_SetStatus iid StatusDestroying []))
      (bindE (if i_ContainerID inst \<noteq> [] then tolerate_missing iid (RemoveContainer h (i_ContainerID inst) True) else ret ()) (\<lambda>_.
       bindE (tolerate_missing iid (RemoveVolume h (data_volume_of inst iid) True)) (\<lambda>_.
       bindE (if \<not> retainBackups \<and> i_RepoType inst = RepoLocal then
                tolerate_missing iid (RemoveVolume h (volumeName ''repo'' iid) True) else ret ()) (\<lambda>_.
       onD (instance_Delete iid)))))))"

definition MarkError :: "string \<Rightarrow> string \<Rightarrow> ('e world, unit) gofun" where
  "MarkError iid reason = onD (instance_SetStatus iid StatusError reason)"

definition Adopt :: "'e Provisioner \<Rightarrow> string \<Rightarrow> container_info \<Rightarrow> ('e world, unit) gofun" where
  "Adopt p iid info =
     bindE (onE (Inspect (p_rt p) (ci_ID info))) (\<lambda>state.
     let hostPort = (case assignedPort state of Inl _ \<Rightarrow> 0 | Inr port \<Rightarrow> port) in
     bindE (onD (instance_SetRuntime iid (ci_ID info) hostPort)) (\<lambda>_.
     onD (instance_SetStatus iid (if st_Running state then StatusRunning else StatusStopped) [])))"

section \<open>A failed provisioning leaves nothing behind\<close>

lemma hoare_onE: "hoare P m Q \<Longrightarrow> hoare (\<lambda>w. P (env w)) (onE m) (\<lambda>r w. Q r (env w))"
  by (simp add: hoare_def)

lemma hoare_guard_done:
  assumes "hoare I m (\<lambda>r s. I s \<and> (\<forall>x. r = Inr x \<longrightarrow> G s))" "hoare I c (\<lambda>_. J)"
  shows "hoare I (guardE c m) (\<lambda>r s. case r of Inl _ \<Rightarrow> J s | Inr _ \<Rightarrow> I s \<and> G s)"
  by (rule hoare_guardE [where R = "\<lambda>_. I", OF hoare_weaken [OF assms(1)]])
    (auto intro: hoare_weaken [OF assms(2)] split: sum.split)

text \<open>The container recorded for an instance.\<close>

definition runs_on :: "string \<Rightarrow> string \<Rightarrow> metadb \<Rightarrow> bool" where
  "runs_on iid cid d \<longleftrightarrow> (\<forall>i\<in>set (instances d). i_ID i = iid \<longrightarrow> i_ContainerID i = cid)"

lemma update_rows_ball:
  "(\<forall>i\<in>set (update_rows iid up rows). P i) \<longleftrightarrow> (\<forall>i\<in>set rows. if i_ID i = iid then P (up i) else P i)"
  by (induction rows) (simp_all add: update_rows_def)

lemma SetRuntime_runs_on:
  "hoare P (onD (instance_SetRuntime iid cid port)) (\<lambda>r w. r = Inr () \<longrightarrow> runs_on iid cid (db w))"
proof (rule hoareI, intro impI)
  fix w :: "'a world"
  assume r: "fst (onD (instance_SetRuntime iid cid port) w) = Inr ()"
  then obtain d' where d': "instance_SetRuntime iid cid port (db w) = (Inr (), d')"
    by (cases "instance_SetRuntime iid cid port (db w)") simp
  then obtain fs where "d' = (db w)\<lparr>faults := fs, instances :=
      update_rows iid (\<lambda>i. i\<lparr>i_ContainerID := cid, i_HostPort := port\<rparr>) (instances (db w))\<rparr>"
    unfolding instance_SetRuntime_def by (rule instance_exec_result) simp
  then have "instances d' = update_rows iid (\<lambda>i. i\<lparr>i_ContainerID := cid, i_HostPort := port\<rparr>) (instances (db w))"
    by simp
  then have "runs_on iid cid d'" by (simp add: runs_on_def update_rows_ball)
  with d' show "runs_on iid cid (db (snd (onD (instance_SetRuntime iid cid port) w)))" by simp
qed

lemma provision_run_runs_on:
  "hoare (\<lambda>_. True) (provision_run p iid inst cid) (\<lambda>r w. r = Inr () \<longrightarrow> runs_on iid cid (db w))"
proof -
  let ?Q = "\<lambda>r w. r = Inr () \<longrightarrow> runs_on iid cid (db w)"
  have any: "hoare (\<lambda>_. True) m (\<lambda>_ _. True)" for m :: "'a world \<Rightarrow> 'z \<times> 'a world" by (simp add: hoare_def)
  have tail: "hoare P (bindE (onD (instance_SetRuntime iid cid port)) (\<lambda>_. k)) ?Q"
    if "keeps (\<lambda>w. runs_on iid cid (db w)) k" for P port and k :: "('a world, unit) gofun"
    by (rule hoare_bindE [OF SetRuntime_runs_on]) (use that in \<open>auto simp: keeps_hoare elim: hoare_weaken\<close>)
  show ?thesis
    unfolding provision_run_def Let_def
    by (rule hoare_ignoring [where R = "\<lambda>_. True", OF any],
        rule hoare_bindE [where R = "\<lambda>_ _. True", OF any], rule hoare_bindE [where R = "\<lambda>_ _. True", OF any])
      (auto split: sum.split intro!: hoare_rules tail keeps_rules)
qed

context container_host
begin

lemma create_vol_objs:
  "hoare (objs C V) (CreateVolume h v l) (\<lambda>r. case r of Inl _ \<Rightarrow> objs C V | Inr _ \<Rightarrow> objs C (insert v V))"
proof (rule hoareI)
  fix e assume e: "objs C V e"
  obtain r e' where r: "CreateVolume h v l e = (r, e')" by fastforce
  have "inv e'" using keeps_result [OF inv_CreateVolume _ r] e by (simp add: objs_def)
  with e r show "(case fst (CreateVolume h v l e) of Inl _ \<Rightarrow> objs C V | Inr _ \<Rightarrow> objs C (insert v V))
      (snd (CreateVolume h v l e))"
    using create_vol [of e v l _ e'] create_vol_fail [of e v l _ e'] create_vol_conts [OF _ r]
    by (cases r) (auto simp: objs_def)
qed

lemma create_cont_objs:
  assumes "Volume ` set (cs_Mounts spec) \<subseteq> V"
  shows "hoare (objs C V) (CreateContainer h spec)
     (\<lambda>r e. case r of Inl _ \<Rightarrow> objs C V e | Inr c \<Rightarrow> c \<notin> C \<and> c \<noteq> [] \<and> objs (insert c C) V e)"
proof (rule hoareI)
  fix e assume e: "objs C V e"
  obtain r e' where r: "CreateContainer h spec e = (r, e')" by fastforce
  have "inv e'" using keeps_result [OF inv_CreateContainer _ r] e by (simp add: objs_def)
  moreover have "vols e' = V" using create_vols [OF _ r] e assms unfolding objs_def by blast
  ultimately show "case fst (CreateContainer h spec e) of
        Inl _ \<Rightarrow> objs C V (snd (CreateContainer h spec e))
      | Inr c \<Rightarrow> c \<notin> C \<and> c \<noteq> [] \<and> objs (insert c C) V (snd (CreateContainer h spec e))"
    using e r create_fresh [of e spec _ e'] create_fail [of e spec _ e'] by (cases r) (auto simp: objs_def)
qed

end

text \<open>
  What a deferred clean-up of the volumes \<open>gone\<close> leaves, from the containers \<open>C\<close>, at most one more and the
  volumes \<open>U\<close>: nothing of its own, but what the daemon refused to remove. The container is
  removed first: a volume is tried when the containers are those that remain.
\<close>

definition tidied :: "'e host \<Rightarrow> ('e \<Rightarrow> bool) \<Rightarrow> ('e \<Rightarrow> string set) \<Rightarrow> ('e \<Rightarrow> string set) \<Rightarrow>
    string set \<Rightarrow> string set \<Rightarrow> string set \<Rightarrow> 'e \<Rightarrow> bool" where
  "tidied h rinv conts vols C U gone e \<longleftrightarrow> rinv e \<and>
     (conts e = C \<or> (\<exists>c. c \<notin> C \<and> conts e = insert c C \<and> cont_refused h rinv conts c (insert c C))) \<and>
     vols e \<subseteq> U \<and> U - gone \<subseteq> vols e \<and>
     (\<forall>v\<in>vols e \<inter> gone. vol_refused h rinv conts vols v (conts e))"

context container_host
begin

abbreviation "tidy \<equiv> tidied h inv conts vols"

lemma objs_tidy: "objs C V e \<Longrightarrow> tidy C V {} e"
  by (auto simp: objs_def tidied_def)

lemma remove_vol_try:
  assumes "inv e" "RemoveVolume h v True e = (r, e1)"
  shows "inv e1 \<and> conts e1 = conts e \<and> vols e1 \<subseteq> vols e \<and> vols e - {v} \<subseteq> vols e1 \<and>
    (v \<in> vols e1 \<longrightarrow> vol_refused h inv conts vols v (conts e))"
  using keeps_result [OF inv_RemoveVolume assms] remove_vol_conts [OF assms] assms
    remove_vol [OF assms(1), of v True _ e1] remove_vol_fail [OF assms(1), of v True _ e1]
  by (cases r) (auto simp: vol_refused_def)

lemma remove_vols:
  assumes "inv e"
  shows "hoare (\<lambda>s. s = e) (forI (\<lambda>v. RemoveVolume h v True) vs)
    (\<lambda>_ e'. inv e' \<and> conts e' = conts e \<and> vols e' \<subseteq> vols e \<and> vols e - set vs \<subseteq> vols e' \<and>
       (\<forall>v\<in>vols e' \<inter> set vs. vol_refused h inv conts vols v (conts e)))"
  using assms
proof (induction vs arbitrary: e)
  case (Cons v vs)
  obtain r e1 where r: "RemoveVolume h v True e = (r, e1)" by fastforce
  note one = remove_vol_try [OF Cons.prems r]
  with hoareD [OF Cons.IH [of e1] refl] show ?case
    by (intro hoareI) (auto simp: prog_run r)
qed (simp add: hoare_def ret_def)

lemma remove_cont_try:
  assumes "inv e" "conts e = insert c C" "c \<notin> C" "RemoveContainer h c True e = (r, e1)"
  shows "inv e1 \<and> vols e1 = vols e \<and> (conts e1 = C \<or> conts e1 = insert c C \<and> cont_refused h inv conts c (insert c C))"
  using keeps_result [OF inv_RemoveContainer assms(1,4)] remove_cont_vols [OF assms(1,4)] assms
    remove_cont [OF assms(1), of c True _ e1] remove_cont_fail [OF assms(1), of c True _ e1]
  by (cases r) (auto simp: cont_refused_def)

lemma cleanup_tidy:
  "hoare (objs C U) (cleanup h [] vs) (\<lambda>_. tidy C U (set vs))"
  "c \<notin> C \<Longrightarrow> c \<noteq> [] \<Longrightarrow> hoare (objs (insert c C) U) (cleanup h c vs) (\<lambda>_. tidy C U (set vs))"
proof -
  show "hoare (objs C U) (cleanup h [] vs) (\<lambda>_. tidy C U (set vs))"
  proof (rule hoareI)
    fix e assume "objs C U e"
    with hoareD [OF remove_vols refl, of e vs] show "tidy C U (set vs) (snd (cleanup h [] vs e))"
      by (auto simp: cleanup_def objs_def tidied_def)
  qed
  assume c: "c \<notin> C" "c \<noteq> []"
  show "hoare (objs (insert c C) U) (cleanup h c vs) (\<lambda>_. tidy C U (set vs))"
  proof (rule hoareI)
    fix e assume e: "objs (insert c C) U e"
    obtain r e1 where r: "RemoveContainer h c True e = (r, e1)" by fastforce
    have "inv e" "conts e = insert c C" "vols e = U" using e by (simp_all add: objs_def)
    note first = remove_cont_try [OF this(1,2) c(1) r]
    with hoareD [OF remove_vols refl, of e1 vs] \<open>vols e = U\<close> c
    show "tidy C U (set vs) (snd (cleanup h c vs e))"
      by (auto simp: cleanup_def prog_run r tidied_def)
  qed
qed

end

text \<open>The same laws for the runtime of a provisioner.\<close>

locale provisioner = container_host "p_rt p" inv conts vols
  for p :: "'e Provisioner" and inv conts vols
begin

lemma writeConfig_objs: "keeps (objs C V) (writeConfig p cid inst)"
  unfolding writeConfig_def by (auto intro!: keeps_rules execOK_objs)

lemmas env_frames = objs_frames execOK_objs waits_objs writeConfig_objs

lemma provision_run_objs: "keeps (\<lambda>w. objs C V (env w)) (provision_run p iid inst cid)"
  unfolding provision_run_def Let_def by (intro keeps_rules env_frames)

definition undone :: "string set \<Rightarrow> string set \<Rightarrow> string set \<Rightarrow> 'e \<Rightarrow> bool" where
  "undone C V W e \<longleftrightarrow> (\<exists>U gone. tidied (p_rt p) inv conts vols C U gone e \<and> V \<subseteq> U \<and> U \<subseteq> V \<union> gone \<and> gone \<subseteq> W)"

lemma undoneI: "tidied (p_rt p) inv conts vols C U gone e \<Longrightarrow> V \<subseteq> U \<Longrightarrow> U \<subseteq> V \<union> gone \<Longrightarrow> gone \<subseteq> W \<Longrightarrow> undone C V W e"
  unfolding undone_def by blast

lemma undone_mono: "undone C V W e \<Longrightarrow> W \<subseteq> W' \<Longrightarrow> undone C V W' e"
  unfolding undone_def by (meson order_trans)

lemma objs_undone: "objs C V e \<Longrightarrow> undone C V W e"
  by (rule undoneI [OF objs_tidy]) auto

abbreviation built :: "string set \<Rightarrow> string set \<Rightarrow> string set \<Rightarrow> (string \<Rightarrow> 'e world \<Rightarrow> bool) \<Rightarrow> goerr + unit \<Rightarrow> 'e world \<Rightarrow> bool" where
  "built C U gone G r w \<equiv> (case r of
     Inl _ \<Rightarrow> tidy C U gone (env w)
   | Inr _ \<Rightarrow> \<exists>c. c \<notin> C \<and> objs (insert c C) U (env w) \<and> G c w)"

lemma container_segment:
  assumes "Volume ` set (cs_Mounts spec) \<subseteq> U" "\<And>c D. keeps (\<lambda>w. objs D U (env w)) (run c)"
    and "\<And>c. hoare (\<lambda>_. True) (run c) (\<lambda>r w. r = Inr () \<longrightarrow> G c w)"
  shows "hoare (\<lambda>w. objs C U (env w))
     (bindE (guardE (onE (cleanup (p_rt p) [] vs)) (onE (CreateContainer (p_rt p) spec)))
        (\<lambda>c. guardE (onE (cleanup (p_rt p) c vs)) (run c)))
     (built C U (set vs) G)"
proof (rule hoare_bindE [where R = "\<lambda>r w. case r of Inl _ \<Rightarrow> tidy C U (set vs) (env w)
      | Inr c \<Rightarrow> c \<notin> C \<and> c \<noteq> [] \<and> objs (insert c C) U (env w)"], goal_cases)
  case 1
  show ?case
    by (rule hoare_guardE [where R = "\<lambda>_ w. objs C U (env w)"])
      (auto intro!: hoare_weaken [OF hoare_onE [OF create_cont_objs [OF assms(1), of C]]]
        hoare_weaken [OF hoare_onE [OF cleanup_tidy(1)]] split: sum.splits)
next
  case (2 c)
  show ?case
  proof (cases "c \<notin> C \<and> c \<noteq> []")
    case True
    then have "hoare (\<lambda>w. objs (insert c C) U (env w)) (guardE (onE (cleanup (p_rt p) c vs)) (run c))
      (\<lambda>r w. case r of Inl _ \<Rightarrow> tidy C U (set vs) (env w) | Inr _ \<Rightarrow> objs (insert c C) U (env w) \<and> G c w)"
      using hoare_frame [OF assms(3) [of c] assms(2) [of "insert c C" c]]
      by (intro hoare_guard_done hoare_onE cleanup_tidy(2)) (auto elim: hoare_weaken)
    then show ?thesis
      by (rule hoare_weaken) (use True in \<open>auto split: sum.splits\<close>)
  qed (auto simp: hoare_def)
qed simp

lemma provision_resources_clean:
  fixes iid inst
  defines "d \<equiv> volumeName ''data'' iid"
    and "W \<equiv> (if i_RepoType inst = RepoLocal then {volumeName ''data'' iid, volumeName ''repo'' iid} else {volumeName ''data'' iid})"
  shows "hoare (\<lambda>w. objs C V (env w)) (provision_resources p iid inst password)
     (\<lambda>r w. case r of Inl _ \<Rightarrow> undone C V W (env w)
                     | Inr _ \<Rightarrow> \<exists>c. c \<notin> C \<and> objs (insert c C) (V \<union> W) (env w) \<and> runs_on iid c (db w))"
  unfolding provision_resources_def Let_def
proof (rule hoare_bindE [where R = "\<lambda>r w. (case r of Inl _ \<Rightarrow> objs C V | Inr _ \<Rightarrow> objs C (insert d V)) (env w)"], goal_cases)
  case 1 show ?case unfolding d_def by (rule hoare_onE [OF create_vol_objs])
next
  case (2 u)
  show ?case
  proof (rule hoare_bindE [where R = "\<lambda>r w. case r of Inl _ \<Rightarrow> tidy C (insert d V) {d} (env w) | Inr _ \<Rightarrow> objs C (V \<union> W) (env w)"], goal_cases)
    case 1
    have "hoare (\<lambda>w. objs C (insert d V) (env w))
       (ignoring (onD (instance_SetDataVolume iid d))
         (if i_RepoType inst = RepoLocal then onE (CreateVolume (p_rt p) (volumeName ''repo'' iid) (instanceLabels iid)) else ret ()))
       (\<lambda>r w. case r of Inl _ \<Rightarrow> objs C (insert d V) (env w) | Inr _ \<Rightarrow> objs C (V \<union> W) (env w))"
    proof (rule hoare_ignoring [where R = "\<lambda>w. objs C (insert d V) (env w)"])
      show "hoare (\<lambda>w. objs C (insert d V) (env w)) (onD (instance_SetDataVolume iid d)) (\<lambda>_ w. objs C (insert d V) (env w))"
        by (simp add: hoare_def)
      show "hoare (\<lambda>w. objs C (insert d V) (env w))
         (if i_RepoType inst = RepoLocal then onE (CreateVolume (p_rt p) (volumeName ''repo'' iid) (instanceLabels iid)) else ret ())
         (\<lambda>r w. case r of Inl _ \<Rightarrow> objs C (insert d V) (env w) | Inr _ \<Rightarrow> objs C (V \<union> W) (env w))"
        using hoare_onE [OF create_vol_objs [of C "insert d V" "volumeName ''repo'' iid" "instanceLabels iid"]]
        by (auto simp: d_def W_def insert_commute hoare_def ret_def split: sum.splits)
    qed
    then show ?case
      unfolding d_def [symmetric]
      by (rule hoare_guardE [where R = "\<lambda>_ w. objs C (insert d V) (env w)", OF hoare_weaken])
        (auto intro!: hoare_weaken [OF hoare_onE [OF cleanup_tidy(1)]] split: sum.splits)
  next
    case (2 u)
    have "hoare (\<lambda>w. objs C (V \<union> W) (env w))
       (bindE (guardE (onE (cleanup (p_rt p) [] (if i_RepoType inst = RepoLocal then [d, volumeName ''repo'' iid] else [d])))
          (onE (CreateContainer (p_rt p) (containerSpec (p_opts p) inst password (data_mounts inst d (volumeName ''repo'' iid))))))
        (\<lambda>c. guardE (onE (cleanup (p_rt p) c (if i_RepoType inst = RepoLocal then [d, volumeName ''repo'' iid] else [d])))
           (provision_run p iid inst c)))
       (built C (V \<union> W) (set (if i_RepoType inst = RepoLocal then [d, volumeName ''repo'' iid] else [d])) (\<lambda>c w. runs_on iid c (db w)))"
      by (intro container_segment provision_run_objs provision_run_runs_on)
        (auto simp: containerSpec_def data_mounts_def d_def W_def)
    then show ?case
      unfolding d_def [symmetric]
      by (rule hoare_weaken) (auto simp: d_def W_def split: sum.splits intro: undoneI)
  qed (auto simp: d_def W_def intro: undoneI split: if_splits)
qed (auto simp: objs_undone)

lemma provision_clean:
  "hoare (\<lambda>w. objs C V (env w)) (provision p iid)
     (\<lambda>r w. case r of
        Inl _ \<Rightarrow> undone C V {volumeName ''data'' iid, volumeName ''repo'' iid} (env w)
      | Inr _ \<Rightarrow> \<exists>c. c \<notin> C \<and> (\<exists>V'. objs (insert c C) V' (env w) \<and> volumeName ''data'' iid \<in> V') \<and> runs_on iid c (db w))"
proof -
  have k: "keeps (\<lambda>w. objs C V (env w)) m \<Longrightarrow>
      hoare (\<lambda>w. objs C V (env w)) m (\<lambda>r w. objs C V (env w))" for m :: "('e world, 'z) gofun"
    by (simp add: keeps_hoare)
  show ?thesis
    unfolding provision_def Let_def
    by (rule hoare_bindE [OF k], intro keeps_rules,
        rule hoare_bindE [OF k], intro keeps_rules,
        rule hoare_bindE [OF k], intro keeps_rules,
        rule hoare_bindE [OF k], intro keeps_rules env_frames,
        rule hoare_weaken [OF provision_resources_clean])
      (auto simp: objs_undone intro: undone_mono split: sum.splits if_splits)
qed

end

text \<open>The laws hold for a provisioner over the in-memory runtime.\<close>

definition fake_provisioner ::
    "(string \<Rightarrow> string list \<Rightarrow> goerr + exec_result) option \<Rightarrow> goerr option \<Rightarrow>
     (container_spec \<Rightarrow> int option) \<Rightarrow> lib \<Rightarrow> string \<Rightarrow> Options \<Rightarrow> fake_env Provisioner" where
  "fake_provisioner execFunc imgErr exitOf lb kek opts =
     \<lparr>p_rt = fake_host execFunc imgErr exitOf lb, p_kek = kek, p_opts = opts\<rparr>"

lemma fake_provisioner_rt [simp]:
  "p_rt (fake_provisioner execFunc imgErr exitOf lb kek opts) = fake_host execFunc imgErr exitOf lb"
  by (simp add: fake_provisioner_def)

interpretation fake_pv: provisioner "fake_provisioner execFunc imgErr exitOf lb kek opts"
    fake_inv fake_conts fake_vols
  for execFunc imgErr exitOf lb kek opts
  by (simp add: provisioner_def fake_rt.container_host_axioms)

lemma SetStatus_done:
  assumes "onD (instance_SetStatus iid st le) w = (Inr (), w')"
  shows "env w' = env w \<and> (\<forall>i\<in>set (instances (db w')). i_ID i = iid \<longrightarrow>
      i_Status i = st \<and> i_LastError i = le \<and> (runs_on iid c (db w) \<longrightarrow> i_ContainerID i = c))"
proof -
  from assms have d: "instance_SetStatus iid st le (db w) = (Inr (), db w')" and e: "env w' = env w"
    by (auto dest: onD_result)
  from d obtain fs where "db w' = (db w)\<lparr>faults := fs, instances :=
      update_rows iid (\<lambda>i. i\<lparr>i_Status := st, i_LastError := le\<rparr>) (instances (db w))\<rparr>"
    unfolding instance_SetStatus_def by (rule instance_exec_result) simp
  then have "instances (db w') = update_rows iid (\<lambda>i. i\<lparr>i_Status := st, i_LastError := le\<rparr>) (instances (db w))"
    by simp
  with e show ?thesis by (simp add: update_rows_ball runs_on_def)
qed

text \<open>A concrete world for the witnesses: one standalone instance \<open>i1\<close> on a local repository.\<close>

definition demo_key :: string where "demo_key = replicate 32 (CHR ''k'')"

definition demo_opts :: Options where
  "demo_opts = \<lparr>o_Network = ''pgfleet'', o_InstanceHost = [], o_S3 = \<lparr>oc_Endpoint = [], oc_Region = [],
     oc_AccessKey = [], oc_SecretKey = [], oc_Bucket = [], oc_UseTLS = False, oc_SkipTLSVerify = False\<rparr>,
     o_S3BackrestEndpoint = [], o_RestartPolicy = ''unless-stopped'', o_BindAddress = [], o_MasterKey = demo_key,
     o_BackupEncryption = False, o_BlockIncr = False, o_Repo2Path = []\<rparr>"

definition demo_provisioner :: "fake_env Provisioner" where
  "demo_provisioner = fake_provisioner None None (\<lambda>_. None) tagged_lib demo_key demo_opts"

definition demo_instance :: "string \<Rightarrow> string \<Rightarrow> Role \<Rightarrow> Instance" where
  "demo_instance iid cluster role = \<lparr>i_ID = iid, i_Name = iid, i_Status = StatusProvisioning, i_Image = ''img'',
     i_PGVersion = ''16'', i_ContainerID = [], i_HostPort = 0, i_DataVolume = [], i_RepoType = RepoLocal,
     i_Stanza = iid, i_Superuser = ''postgres'', i_LastError = [], i_ClusterID = cluster, i_Role = role,
     i_Parameters = [], i_Extensions = [''hstore''], i_Public = False, i_Encrypted = False\<rparr>"

definition demo_sealed :: Sealed where
  "demo_sealed = (let n = replicate 12 (CHR ''n'') in
     \<lparr>Ciphertext = demo_key @ n @ ''pw'', Nonce = n, EncryptedDEK = demo_key @ n @ demo_key, DEKNonce = n,
      KeyVersion = 1\<rparr>)"

definition demo_db :: metadb where
  "demo_db = \<lparr>faults = [], uuids = (\<lambda>_. ''u''), next_uuid = 0, instances = [demo_instance ''i1'' [] RoleStandalone],
     sealed_of = [(''i1'', demo_sealed)], clusters = [], backups = [], events = []\<rparr>"

definition demo_world :: "fake_env world" where
  "demo_world = \<lparr>env = (NewFake, plain_process), db = demo_db, stampCounter = 0\<rparr>"

lemma SetStatus_failed:
  assumes "onD (instance_SetStatus iid st le) w = (Inl x, w')" "runs_on iid c (db w)"
  shows "runs_on iid c (db w')"
proof -
  from assms(1) have "instance_SetStatus iid st le (db w) = (Inl x, db w')" by (auto dest: onD_result)
  then obtain fs where "db w' = (db w)\<lparr>faults := fs, instances := instances (db w)\<rparr>"
    unfolding instance_SetStatus_def by (rule instance_exec_result) simp
  with assms(2) show ?thesis by (simp add: runs_on_def)
qed

context provisioner
begin

lemma undone_objects:
  assumes "undone C V W e"
  shows "(conts e = C \<or> (\<exists>c. c \<notin> C \<and> conts e = insert c C \<and> cont_refused (p_rt p) inv conts c (insert c C))) \<and>
    V - W \<subseteq> vols e \<and> (\<forall>v\<in>vols e - V. v \<in> W \<and> vol_refused (p_rt p) inv conts vols v (conts e))"
proof -
  obtain U gone where t: "tidied (p_rt p) inv conts vols C U gone e" and s: "V \<subseteq> U" "U \<subseteq> V \<union> gone" "gone \<subseteq> W"
    using assms unfolding undone_def by blast
  have "v \<in> W \<and> vol_refused (p_rt p) inv conts vols v (conts e)" if "v \<in> vols e - V" for v
  proof -
    have "v \<in> gone" using that t s unfolding tidied_def by blast
    with that t s show ?thesis unfolding tidied_def by blast
  qed
  moreover have "V - W \<subseteq> vols e" using t s unfolding tidied_def by blast
  ultimately show ?thesis using t unfolding tidied_def by blast
qed

end

text \<open>
  C2. Provisioning is all or nothing, for every runtime that keeps the laws of \<open>container_host\<close> and every
  database fault schedule. When the body fails, the call returns that error; the containers
  are those from before and no volume was added, but for a container or a volume whose forced removal the
  daemon itself refused, and a volume is tried only once the container is out of the way; no volume but the instance's own
  is taken away; and the row says error with the message unless that write failed. When the body succeeds,
  exactly one new container exists, on the instance's data volume, and the row names it; the call then returns the
  outcome of one last write, the status running: success means the row says running without an error, and an error
  with the container in place means that exactly this write failed.
\<close>

theorem Provision_all_or_nothing:
  assumes host: "container_host (p_rt p) rinv conts vols" and w: "rinv (env w)" and run: "Provision p iid w = (r, w')"
  shows "(\<exists>x w1. provision p iid w = (Inl x, w1) \<and> r = Inl x \<and>
      (conts (env w') = conts (env w) \<or> (\<exists>c. c \<notin> conts (env w) \<and> conts (env w') = insert c (conts (env w)) \<and>
         cont_refused (p_rt p) rinv conts c (insert c (conts (env w))))) \<and>
      vols (env w) - {volumeName ''data'' iid, volumeName ''repo'' iid} \<subseteq> vols (env w') \<and>
      (\<forall>v\<in>vols (env w') - vols (env w). v \<in> {volumeName ''data'' iid, volumeName ''repo'' iid} \<and>
         vol_refused (p_rt p) rinv conts vols v (conts (env w'))) \<and>
      (fst (onD (instance_SetStatus iid StatusError (Error x)) w1) = Inr () \<longrightarrow>
         (\<forall>i\<in>set (instances (db w')). i_ID i = iid \<longrightarrow> i_Status i = StatusError \<and> i_LastError i = Error x))) \<or>
    (\<exists>c w1. provision p iid w = (Inr (), w1) \<and> onD (instance_SetStatus iid StatusRunning []) w1 = (r, w') \<and>
      c \<notin> conts (env w) \<and> conts (env w') = insert c (conts (env w)) \<and> volumeName ''data'' iid \<in> vols (env w') \<and>
      (\<forall>i\<in>set (instances (db w')). i_ID i = iid \<longrightarrow> i_ContainerID i = c \<and>
         (r = Inr () \<longrightarrow> i_Status i = StatusRunning \<and> i_LastError i = [])))"
proof -
  have pv: "provisioner p rinv conts vols" using host by (simp add: provisioner_def)
  obtain r0 w1 where body: "provision p iid w = (r0, w1)" by fastforce
  have pre: "container_host.objs rinv conts vols (conts (env w)) (vols (env w)) (env w)"
    using w by (simp add: container_host.objs_def [OF host])
  note post = hoare_result [OF provisioner.provision_clean [OF pv] pre body]
  show ?thesis
  proof (cases r0)
    case (Inl x)
    obtain q where r: "r = Inl x" and q: "onD (instance_SetStatus iid StatusError (Error x)) w1 = (q, w')"
      using run body Inl by (auto simp: Provision_def record_outcome_def prog_defs split: prod.splits)
    then have "env w' = env w1" by (auto dest: onD_result)
    have "provisioner.undone p rinv conts vols (conts (env w)) (vols (env w)) {volumeName ''data'' iid, volumeName ''repo'' iid} (env w')"
      using post Inl \<open>env w' = env w1\<close> by simp
    note left = provisioner.undone_objects [OF pv this]
    have "fst (onD (instance_SetStatus iid StatusError (Error x)) w1) = Inr () \<longrightarrow>
        (\<forall>i\<in>set (instances (db w')). i_ID i = iid \<longrightarrow> i_Status i = StatusError \<and> i_LastError i = Error x)"
      using q SetStatus_done [of iid StatusError "Error x" w1 w'] by auto
    with left body [unfolded Inl] r show ?thesis by blast
  next
    case (Inr u)
    then obtain c where c: "c \<notin> conts (env w)" "runs_on iid c (db w1)" "conts (env w1) = insert c (conts (env w))"
        "volumeName ''data'' iid \<in> vols (env w1)"
      using post by (auto simp: container_host.objs_def [OF host])
    have st: "onD (instance_SetStatus iid StatusRunning []) w1 = (r, w')"
      using run body Inr by (simp add: Provision_def record_outcome_def prog_defs)
    then have "env w' = env w1" by (auto dest: onD_result)
    moreover have "\<forall>i\<in>set (instances (db w')). i_ID i = iid \<longrightarrow> i_ContainerID i = c \<and>
         (r = Inr () \<longrightarrow> i_Status i = StatusRunning \<and> i_LastError i = [])"
      using st c(2) SetStatus_done [of iid StatusRunning "[]" w1 w' c] SetStatus_failed [of iid StatusRunning "[]" w1 _ w' c]
      by (cases r) (auto simp: runs_on_def)
    ultimately show ?thesis using c st body Inr by (intro disjI2) auto
  qed
qed

theorem Provision_all_or_nothing_witness:
  "fst (Provision demo_provisioner ''i1'' demo_world) = Inr () \<and>
   (\<exists>c. fake_conts (env (snd (Provision demo_provisioner ''i1'' demo_world))) = insert c {})"
proof -
  have ok: "fst (Provision demo_provisioner ''i1'' demo_world) = Inr ()"
    by (simp add: Provision_def record_outcome_def provision_def demo_world_def demo_db_def
        demo_provisioner_def demo_opts_def fake_provisioner_def prog_run db_run fake_run demo_instance_def
        demo_sealed_def Decrypt_def tagged_lib_def NonceSize_def newGCM_def demo_key_def keyLen_def
        provision_resources_def volumeName_def Let_def provision_run_def,
      simp add: assignedPort_def portFor_def pgPort_def containerSpec_def str_eval,
      simp add: prog_run db_run fake_run waitReady_now ready_probe_def execOK_def writeConfig_def
        backrestConf_def BackrestConf_def repo1_lines_def conf_input_def)
  obtain w' where run: "Provision demo_provisioner ''i1'' demo_world = (Inr (), w')"
    using ok by (metis prod.collapse)
  have rt: "container_host (p_rt demo_provisioner) fake_inv fake_conts fake_vols"
    unfolding demo_provisioner_def fake_provisioner_rt by (rule fake_rt.container_host_axioms)
  have e: "fake_inv (env demo_world)" "fake_conts (env demo_world) = {}"
    by (simp_all add: demo_world_def NewFake_def ids_ok_def cids_def)
  from Provision_all_or_nothing [OF rt e(1) run] ok run e(2) show ?thesis by auto
qed


end
