(* ===== verification/Restore.thy ===== *)
theory Restore
  imports Provision
begin

text \<open>
  \<^verbatim>\<open>internal/provision/restore.go\<close> and \<^verbatim>\<open>drill.go\<close>: restoring an instance in place
  and proving a backup restorable. A restore builds a new container on a fresh staging
  volume, and only after it is healthy replaces the live container and volume. The main
  theorem is that no failure, at any step, costs the live copy.
\<close>

record RestoreOptions =
  r_Type :: string
  r_Target :: string
  r_Set :: string
  r_Delta :: bool
  r_Repo :: int

definition targetAction :: "string \<Rightarrow> string" where
  "targetAction restoreType = (if restoreType = [] then [] else ''promote'')"

definition shell_quote :: "string \<Rightarrow> string" where
  "shell_quote a = [squote] @ ReplaceAll a [squote] [squote, bslash, squote, squote] @ [squote]"

definition shellJoin :: "string list \<Rightarrow> string" where
  "shellJoin args = Join (map shell_quote args) '' ''"

definition restore_opts :: "RestoreOptions \<Rightarrow> RestoreOpts" where
  "restore_opts opts = \<lparr>ro_Type = r_Type opts, ro_Target = r_Target opts,
     ro_TargetAction = targetAction (r_Type opts), ro_Set = r_Set opts, ro_Delta = r_Delta opts,
     ro_Repo = r_Repo opts\<rparr>"

definition latest_opts :: RestoreOpts where
  "latest_opts = \<lparr>ro_Type = [], ro_Target = [], ro_TargetAction = [], ro_Set = [], ro_Delta = False, ro_Repo = 0\<rparr>"

section \<open>The one-shot restore container\<close>

definition restore_script :: "string \<Rightarrow> string list \<Rightarrow> bool \<Rightarrow> string" where
  "restore_script conf restoreArgs repoReadOnly = Join
     [''set -e'',
      ''mkdir -p /etc/pgbackrest'',
      ''chown postgres:postgres '' @ (if repoReadOnly then pgDataPath else repoPath @ '' '' @ pgDataPath),
      ''umask 0177'',
      ''cat > '' @ confPath @ '' <<'' @ [squote] @ ''PGBR_EOF'' @ [squote],
      conf,
      ''PGBR_EOF'',
      ''chown postgres:postgres '' @ confPath,
      shellJoin (asPostgres restoreArgs),
      ''gosu postgres pg_ctl -D '' @ pgDataPath @ '' -o '' @ [squote] @ ''-c archive_mode=off'' @ [squote] @ '' -w -t 600 start'',
      ''i=0; while [ $i -lt 600 ]; do '' @
        ''rec=$(gosu postgres psql -tAXc '' @ [squote] @ ''SELECT pg_is_in_recovery()'' @ [squote] @ '' 2>/dev/null || echo t); '' @
        ''[ '' @ [dquote] @ ''$rec'' @ [dquote] @ '' = f ] && break; i=$((i+1)); sleep 1; done'',
      ''gosu postgres pg_ctl -D '' @ pgDataPath @ '' -m fast -w stop''] [nl]"

text \<open>
  A container specification as the one-shot containers use it: no environment, ports or
  restart policy.
\<close>

definition one_shot_spec :: "Options \<Rightarrow> string \<Rightarrow> Instance \<Rightarrow> string \<Rightarrow> string \<Rightarrow> mount list \<Rightarrow> container_spec" where
  "one_shot_spec opts name inst role script mounts = \<lparr>
     cs_Name = name, cs_Image = i_Image inst, cs_Cmd = [''bash'', ''-c'', script], cs_Env = [],
     cs_Labels = [(LabelManaged, ''true''), (LabelInstance, i_ID inst), (LabelRole, role)],
     cs_Ports = [], cs_Mounts = mounts,
     cs_Networks = (if o_Network opts \<noteq> [] then [o_Network opts] else []), cs_User = [], cs_RestartPolicy = []\<rparr>"

definition restore_mounts :: "Instance \<Rightarrow> string \<Rightarrow> bool \<Rightarrow> mount list" where
  "restore_mounts inst dataVolume repoReadOnly =
     [\<lparr>Volume = dataVolume, Path = pgDataPath, ReadOnly = False\<rparr>] @
     (if i_RepoType inst = RepoLocal
      then [\<lparr>Volume = volumeName ''repo'' (i_ID inst), Path = repoPath, ReadOnly = repoReadOnly\<rparr>] else [])"

text \<open>Create, start, wait for the exit, and remove the container on every path.\<close>

definition run_one_shot :: "'e host \<Rightarrow> container_spec \<Rightarrow> ('e, unit) gofun" where
  "run_one_shot h spec =
     bindE (CreateContainer h spec) (\<lambda>cid.
     finallyE (RemoveContainer h cid True)
       (bindE (StartContainer h cid) (\<lambda>_. waitRestoreExit h cid)))"

definition runRestoreContainer ::
    "'e Provisioner \<Rightarrow> Instance \<Rightarrow> string list \<Rightarrow> string \<Rightarrow> bool \<Rightarrow> ('e world, unit) gofun" where
  "runRestoreContainer p inst restoreArgs dataVolume repoReadOnly =
     (case backrestConf (Lib (p_rt p)) (p_opts p) inst of
        Inl e \<Rightarrow> fail e
      | Inr conf \<Rightarrow>
          bindE (shortStamp (p_rt p)) (\<lambda>stamp.
          onE (run_one_shot (p_rt p) (one_shot_spec (p_opts p) (''pgfleet-restore-'' @ i_Name inst @ ''-'' @ stamp) inst
             ''restore'' (restore_script conf restoreArgs repoReadOnly) (restore_mounts inst dataVolume repoReadOnly)))))"

section \<open>Restoring in place\<close>

definition rollbackRestore :: "'e Provisioner \<Rightarrow> Instance \<Rightarrow> string \<Rightarrow> string \<Rightarrow> ('e world, unit) gofun" where
  "rollbackRestore p inst newContainer newVol =
     (let h = p_rt p in
      bindE (if newContainer \<noteq> [] then ignoring (onE (RemoveContainer h newContainer True)) (ret ()) else ret ()) (\<lambda>_.
      bindE (if newVol \<noteq> [] then ignoring (onE (RemoveVolume h newVol True)) (ret ()) else ret ()) (\<lambda>_.
      if i_ContainerID inst \<noteq> [] then
        ignoring (onE (StartContainer h (i_ContainerID inst))) (refreshPort p (i_ID inst) (i_ContainerID inst))
      else ret ())))"

definition staging_volume :: "string \<Rightarrow> string \<Rightarrow> string" where
  "staging_volume iid stamp = ''pgfleet-data-'' @ iid @ ''-r'' @ stamp"

text \<open>From the restored staging volume to a healthy container on it; every failure rolls back.\<close>

definition restore_swap :: "'e Provisioner \<Rightarrow> string \<Rightarrow> Instance \<Rightarrow> string \<Rightarrow> ('e world, string) gofun" where
  "restore_swap p iid inst newVol =
     (let h = p_rt p in
      bindE (guardE (rollbackRestore p inst [] newVol) (onD (instance_Password (Lib h) (p_kek p) iid))) (\<lambda>password.
      bindE (shortStamp h) (\<lambda>stamp.
      let spec0 = containerSpec (p_opts p) inst password (data_mounts inst newVol (volumeName ''repo'' (i_ID inst)));
          spec = spec0\<lparr>cs_Name := cs_Name spec0 @ ''-r'' @ stamp\<rparr> in
      bindE (guardE (rollbackRestore p inst [] newVol) (onE (CreateContainer h spec))) (\<lambda>newContainer.
      bindE (guardE (rollbackRestore p inst newContainer newVol) (
        bindE (onE (StartContainer h newContainer)) (\<lambda>_.
        bindE (onE (waitReady h newContainer (i_Superuser inst))) (\<lambda>_.
        onE (writeConfig p newContainer inst))))) (\<lambda>_.
      ret newContainer)))))"

text \<open>The part of \<^verbatim>\<open>restore\<close> that can fail, up to the healthy new container.\<close>

definition restore_stage :: "'e Provisioner \<Rightarrow> string \<Rightarrow> Instance \<Rightarrow> RestoreOptions \<Rightarrow> ('e world, string \<times> string) gofun" where
  "restore_stage p iid inst opts =
     (let h = p_rt p in
      ignoring (onD (instance_SetStatus iid StatusRestoring []))
      (case Restore_args (i_Stanza inst) confPath (restore_opts opts) of
         Inl e \<Rightarrow> fail e
       | Inr restoreArgs \<Rightarrow>
           bindE (shortStamp h) (\<lambda>stamp.
           let newVol = staging_volume (i_ID inst) stamp in
           bindE (onE (CreateVolume h newVol (instanceLabels (i_ID inst)))) (\<lambda>_.
           bindE (if i_ContainerID inst \<noteq> [] then
                    ignoring (onE (StopContainer h (i_ContainerID inst) (Some stopTimeoutSeconds))) (ret ()) else ret ()) (\<lambda>_.
           bindE (guardE (ignoring (onE (RemoveVolume h newVol True)) (rollbackRestore p inst [] []))
                    (runRestoreContainer p inst restoreArgs newVol False)) (\<lambda>_.
           bindE (restore_swap p iid inst newVol) (\<lambda>newContainer.
           ret (newContainer, newVol))))))))"

text \<open>The part after the new container is healthy: every error in it is ignored by the code.\<close>

definition restore_commit :: "'e Provisioner \<Rightarrow> string \<Rightarrow> Instance \<Rightarrow> string \<Rightarrow> string \<Rightarrow> ('e world, unit) gofun" where
  "restore_commit p iid inst newContainer newVol =
     (let h = p_rt p in
      attempt (onE (Inspect h newContainer)) (\<lambda>r.
      bindE (case r of
               Inl _ \<Rightarrow> ret ()
             | Inr state \<Rightarrow> ignoring (onD (instance_SetRuntime iid newContainer
                 (case assignedPort state of Inl _ \<Rightarrow> 0 | Inr port \<Rightarrow> port))) (ret ())) (\<lambda>_.
      ignoring (onD (instance_SetDataVolume iid newVol))
      (bindE (if i_ContainerID inst \<noteq> [] then
                ignoring (onE (RemoveContainer h (i_ContainerID inst) True)) (ret ()) else ret ()) (\<lambda>_.
       ignoring (onE (RemoveVolume h (data_volume_of inst (i_ID inst)) True)) (ret ())))))) "

definition restore :: "'e Provisioner \<Rightarrow> string \<Rightarrow> RestoreOptions \<Rightarrow> ('e world, unit) gofun" where
  "restore p iid opts =
     bindE (onD (instance_Get iid)) (\<lambda>inst.
     if i_Role inst = RoleReplica then
       fail (New KindInvalid ''restore: a replica cannot be restored; rebuild it from the primary'')
     else if i_Role inst = RolePrimary \<and> i_ClusterID inst \<noteq> [] then
       fail (New KindInvalid ''restore: restoring a clustered primary would diverge its replicas; not yet supported'')
     else
       bindE (restore_stage p iid inst opts) (\<lambda>(newContainer, newVol).
       restore_commit p iid inst newContainer newVol))"

definition Restore :: "'e Provisioner \<Rightarrow> string \<Rightarrow> RestoreOptions \<Rightarrow> ('e world, unit) gofun" where
  "Restore p iid opts = record_outcome iid (restore p iid opts)"

section \<open>The restore drill (drill.go)\<close>

record DrillResult =
  dr_OK :: bool
  dr_Duration :: int
  dr_Detail :: string

definition drill_script :: "string \<Rightarrow> string list \<Rightarrow> string" where
  "drill_script conf restoreArgs = Join
     [''set -e'',
      ''mkdir -p /etc/pgbackrest'',
      ''chown postgres:postgres '' @ pgDataPath,
      ''umask 0177'',
      ''cat > '' @ confPath @ '' <<'' @ [squote] @ ''PGBR_EOF'' @ [squote],
      conf,
      ''PGBR_EOF'',
      ''chown postgres:postgres '' @ confPath,
      shellJoin (asPostgres restoreArgs),
      shellJoin (asPostgres [''pg_controldata'', pgDataPath])] [nl]"

definition RestoreDrill :: "'e Provisioner \<Rightarrow> string \<Rightarrow> ('e world, DrillResult) gofun" where
  "RestoreDrill p iid =
     (let h = p_rt p in
      bindE (onD (instance_Get iid)) (\<lambda>inst.
      case backrestConf (Lib h) (p_opts p) inst of Inl e \<Rightarrow> fail e | Inr conf \<Rightarrow>
      case Restore_args (i_Stanza inst) confPath latest_opts of Inl e \<Rightarrow> fail e | Inr restoreArgs \<Rightarrow>
      let drillVol = volumeName ''drill-data'' (i_ID inst) in
      bindE (onE (CreateVolume h drillVol (instanceLabels (i_ID inst)))) (\<lambda>_.
      finallyE (onE (RemoveVolume h drillVol True))
      (bindE (shortStamp h) (\<lambda>stamp.
       let spec = one_shot_spec (p_opts p) (''pgfleet-drill-'' @ i_Name inst @ ''-'' @ stamp) inst ''drill''
             (drill_script conf restoreArgs) (restore_mounts inst drillVol True) in
       withS (\<lambda>w. let start = Now h (env w) in
       bindE (onE (CreateContainer h spec)) (\<lambda>cid.
       finallyE (onE (RemoveContainer h cid True))
       (bindE (onE (StartContainer h cid)) (\<lambda>_.
        attempt (onE (waitRestoreExit h cid)) (\<lambda>r.
        withS (\<lambda>w'. let dur = Now h (env w') - start in
        case r of
          Inl e \<Rightarrow> ret \<lparr>dr_OK = False, dr_Duration = dur, dr_Detail = Error e\<rparr>
        | Inr _ \<Rightarrow> ret \<lparr>dr_OK = True, dr_Duration = dur, dr_Detail = ''restore + pg_controldata succeeded''\<rparr>)))))))))))"

section \<open>No failure costs the live copy\<close>

lemma keeps_shortStamp: "keeps (\<lambda>w. I (env w)) (shortStamp h)" "keeps (\<lambda>w. J (db w)) (shortStamp h)"
  by (simp_all add: keeps_def shortStamp_def)

lemmas world_rules = keeps_rules keeps_shortStamp

context container_host
begin

definition live :: "string \<Rightarrow> string \<Rightarrow> 'e \<Rightarrow> bool" where
  "live c v e \<longleftrightarrow> inv e \<and> v \<in> vols e \<and> (c \<noteq> [] \<longrightarrow> c \<in> conts e)"

lemma live_objs: "(\<And>C V. keeps (objs C V) m) \<Longrightarrow> keeps (live c v) m"
  by (simp add: keeps_def live_def objs_def)

lemma live_CreateVolume: "keeps (live c v) (CreateVolume h x l)"
proof (rule keepsI)
  fix e assume e: "live c v e"
  obtain r e' where r: "CreateVolume h x l e = (r, e')" by fastforce
  with e show "live c v (snd (CreateVolume h x l e))"
    using keeps_result [OF inv_CreateVolume _ r] create_vol [of e x l _ e'] create_vol_fail [of e x l _ e']
      create_vol_conts [OF _ r]
    by (cases r) (auto simp: live_def)
qed

lemma live_RemoveVolume: "x \<noteq> v \<Longrightarrow> keeps (live c v) (RemoveVolume h x force)"
proof (rule keepsI)
  fix e assume x: "x \<noteq> v" and e: "live c v e"
  obtain r e' where r: "RemoveVolume h x force e = (r, e')" by fastforce
  with e x show "live c v (snd (RemoveVolume h x force e))"
    using keeps_result [OF inv_RemoveVolume _ r] remove_vol [of e x force _ e'] remove_vol_fail [of e x force _ e']
      remove_vol_conts [OF _ r]
    by (cases r) (auto simp: live_def)
qed

lemma live_RemoveContainer: "x \<noteq> c \<Longrightarrow> keeps (live c v) (RemoveContainer h x force)"
proof (rule keepsI)
  fix e assume x: "x \<noteq> c" and e: "live c v e"
  obtain r e' where r: "RemoveContainer h x force e = (r, e')" by fastforce
  with e x show "live c v (snd (RemoveContainer h x force e))"
    using keeps_result [OF inv_RemoveContainer _ r] remove_cont [of e x force _ e'] remove_cont_fail [of e x force _ e']
      remove_cont_vols [OF _ r]
    by (cases r) (auto simp: live_def)
qed

lemma live_CreateContainer: "keeps_with (live c v) (\<lambda>x. x \<noteq> c) (CreateContainer h spec)"
  unfolding keeps_with_def
proof (rule hoareI)
  fix e assume e: "live c v e"
  obtain r e' where r: "CreateContainer h spec e = (r, e')" by fastforce
  with e show "live c v (snd (CreateContainer h spec e)) \<and>
      (\<forall>x. fst (CreateContainer h spec e) = Inr x \<longrightarrow> x \<noteq> c)"
    using keeps_result [OF inv_CreateContainer _ r] create_fresh [of e spec _ e'] create_fail [of e spec _ e']
      create_vols [OF _ r]
    by (cases r) (auto simp: live_def)
qed

lemma live_run_one_shot: "keeps (live c v) (run_one_shot h spec)"
  unfolding run_one_shot_def
  by (rule keeps_bindE_with [OF live_CreateContainer])
    (intro keeps_rules live_RemoveContainer live_objs objs_frames waits_objs)

end

lemma keeps_with_onE: "keeps_with I \<Phi> m \<Longrightarrow> keeps_with (\<lambda>w. I (env w)) \<Phi> (onE m)"
  by (simp add: keeps_with_def hoare_def)

context provisioner
begin

lemmas live_frames = objs_frames [THEN live_objs] execOK_objs [THEN live_objs] waits_objs [THEN live_objs]
  writeConfig_objs [THEN live_objs]

lemma live_refreshPort: "keeps (\<lambda>w. live c v (env w)) (refreshPort p iid cid)"
  unfolding refreshPort_def by (intro world_rules live_frames)

lemma live_rollback:
  "nc \<noteq> c \<or> nc = [] \<Longrightarrow> nv \<noteq> v \<or> nv = [] \<Longrightarrow> keeps (\<lambda>w. live c v (env w)) (rollbackRestore p inst nc nv)"
  unfolding rollbackRestore_def Let_def
  by (intro world_rules live_refreshPort live_frames)
    (auto intro!: keeps_onE live_RemoveContainer live_RemoveVolume)

lemma live_runRestore: "keeps (\<lambda>w. live c v (env w)) (runRestoreContainer p inst args dv ro)"
  unfolding runRestoreContainer_def by (intro world_rules live_run_one_shot)

lemma live_restore_swap:
  assumes "nv \<noteq> v"
  shows "keeps (\<lambda>w. live c v (env w)) (restore_swap p iid inst nv)"
  unfolding restore_swap_def Let_def
  by (intro keeps_bindE [OF keeps_guardE] keeps_bindE_with [OF keeps_with_guardE [OF keeps_with_onE [OF live_CreateContainer]]]
      world_rules live_rollback live_frames) (use assms in auto)

lemma live_restore_stage:
  "hoare (\<lambda>w. live c v (env w) \<and> staging_volume (i_ID inst) (next_stamp (p_rt p) w) \<noteq> v)
     (restore_stage p iid inst opts) (\<lambda>_ w. live c v (env w))"
proof -
  let ?P = "\<lambda>w. live c v (env w) \<and> staging_volume (i_ID inst) (next_stamp (p_rt p) w) \<noteq> v"
  have st: "hoare ?P (onD m) (\<lambda>_. ?P)" for m :: "(metadb, unit) gofun"
    by (simp add: hoare_def next_stamp_def onD_def split: prod.splits)
  have stamp: "hoare ?P (shortStamp (p_rt p)) (\<lambda>r w. live c v (env w) \<and> (\<forall>x. r = Inr x \<longrightarrow> staging_volume (i_ID inst) x \<noteq> v))"
    by (simp add: hoare_def shortStamp_def)
  show ?thesis
    unfolding restore_stage_def Let_def
    apply (rule hoare_ignoring [OF st])
    apply (split sum.split, intro conjI allI impI)
     apply (rule hoare_fail, simp)
    apply (rule hoare_bindE [OF stamp])
    subgoal for args stamp
      apply (cases "staging_volume (i_ID inst) stamp \<noteq> v")
      subgoal
        by (rule hoare_pre [where P' = "\<lambda>w. live c v (env w)"], unfold keeps_hoare [symmetric])
          (intro world_rules live_CreateVolume live_RemoveVolume live_rollback live_runRestore live_restore_swap live_frames | simp)+
      by (simp add: hoare_def)
    by simp
qed

end

section \<open>The row keeps naming the live copy\<close>

definition placement :: "metadb \<Rightarrow> (string \<times> string \<times> string) list" where
  "placement d = map (\<lambda>i. (i_ID i, i_ContainerID i, i_DataVolume i)) (instances d)"

lemma placement_exec:
  assumes "\<And>i. i \<in> set (instances d) \<Longrightarrow> i_ID i = iid \<Longrightarrow>
      (i_ID (up i), i_ContainerID (up i), i_DataVolume (up i)) = (i_ID i, i_ContainerID i, i_DataVolume i)"
  shows "placement (snd (instance_exec up iid d)) = placement d"
proof -
  obtain r d' where r: "instance_exec up iid d = (r, d')" by fastforce
  then obtain fs where "d' = d\<lparr>faults := fs, instances := (if r = Inr () then update_rows iid up (instances d) else instances d)\<rparr>"
    by (rule instance_exec_result)
  with r assms show ?thesis by (auto simp: placement_def update_rows_def)
qed

lemma placement_SetStatus: "keeps (\<lambda>d. placement d = S) (instance_SetStatus iid st le)"
  by (auto simp: keeps_def instance_SetStatus_def placement_exec)

lemma placement_SetRuntime:
  assumes "\<And>c v. (iid, c, v) \<in> set S \<Longrightarrow> c = cid"
  shows "keeps (\<lambda>d. placement d = S) (instance_SetRuntime iid cid port)"
proof (rule keepsI)
  fix d assume S: "placement d = S"
  have "i_ContainerID i = cid" if "i \<in> set (instances d)" "i_ID i = iid" for i
    using assms [of "i_ContainerID i" "i_DataVolume i"] that S by (auto simp: placement_def)
  then show "placement (snd (instance_SetRuntime iid cid port d)) = S"
    unfolding instance_SetRuntime_def by (subst placement_exec) (auto simp: S)
qed

lemma placement_Password: "keeps (\<lambda>d. placement d = S) (instance_Password lb kek iid)"
  unfolding instance_Password_def
  by (rule keeps_stmt) (auto simp: keeps_def placement_def split: option.splits sum.splits)

lemma placement_restore_stage:
  assumes "\<And>c v. (i_ID inst, c, v) \<in> set S \<Longrightarrow> c = i_ContainerID inst"
  shows "keeps (\<lambda>w. placement (db w) = S) (restore_stage p iid inst opts)"
proof -
  have rp: "keeps (\<lambda>w. placement (db w) = S) (refreshPort p (i_ID inst) (i_ContainerID inst))"
    unfolding refreshPort_def
    by (intro world_rules keeps_onE_db [where I = "\<lambda>d. placement d = S"]
        keeps_onD [where I = "\<lambda>d. placement d = S"] placement_SetRuntime assms)
  note rules = rp keeps_onE_db [where I = "\<lambda>d. placement d = S"] keeps_onD [where I = "\<lambda>d. placement d = S"]
    keeps_shortStamp(2) [where J = "\<lambda>d. placement d = S"] placement_SetStatus placement_Password keeps_rules
  show ?thesis
    unfolding restore_stage_def restore_swap_def runRestoreContainer_def rollbackRestore_def Let_def
    by (intro rules)
qed

lemma restore_commit_total: "\<exists>w'. restore_commit p iid inst c v w = (Inr (), w')"
  by (auto simp: restore_commit_def Let_def prog_defs split: prod.splits sum.splits)

lemma find_instance_row: "find_instance d iid = Some inst \<Longrightarrow> inst \<in> set (instances d) \<and> i_ID inst = iid"
  by (auto simp: find_instance_def find_Some_iff)

lemma faults_same: "faults d = [] \<Longrightarrow> d\<lparr>faults := []\<rparr> = d"
  by (cases d) simp

lemma instance_Get_result:
  assumes "instance_Get iid d = (r, d')"
  shows "(\<exists>fs. d' = d\<lparr>faults := fs\<rparr>) \<and> (\<forall>i. r = Inr i \<longrightarrow> find_instance d iid = Some i)"
proof (cases "faults d")
  case Nil
  with assms have "d' = d\<lparr>faults := []\<rparr> \<and> (\<forall>i. r = Inr i \<longrightarrow> find_instance d iid = Some i)"
    by (auto simp: instance_Get_def queryOne_def stmt_def find_instance_def faults_same split: option.splits)
  then show ?thesis by blast
next
  case (Cons b fs)
  with assms show ?thesis
    by (auto simp: instance_Get_def queryOne_def stmt_def find_instance_def split: option.splits if_splits)
qed

context provisioner
begin

lemma restore_failure:
  assumes inv: "inv (env w)" and wf: "db_wf (db w)" and inst: "find_instance (db w) iid = Some inst"
    and v: "data_volume_of inst iid \<in> vols (env w)"
    and c: "i_ContainerID inst = [] \<or> i_ContainerID inst \<in> conts (env w)"
    and fresh: "staging_volume iid (next_stamp (p_rt p) w) \<noteq> data_volume_of inst iid"
    and run: "restore p iid opts w = (Inl e, w')"
  shows "live (i_ContainerID inst) (data_volume_of inst iid) (env w') \<and> placement (db w') = placement (db w)"
proof -
  let ?c = "i_ContainerID inst" and ?v = "data_volume_of inst iid"
  obtain r1 w1 where get: "onD (instance_Get iid) w = (r1, w1)" by fastforce
  then have g: "instance_Get iid (db w) = (r1, db w1)" "env w1 = env w" by (auto dest: onD_result)
  have stamp: "stampCounter w1 = stampCounter w" using get by (auto simp: onD_def split: prod.splits)
  from instance_Get_result [OF g(1)] have pl: "placement (db w1) = placement (db w)"
    by (auto simp: placement_def)
  have live1: "live ?c ?v (env w1)" using inv v c g(2) by (auto simp: live_def)
  consider "w' = w1" | "r1 = Inr inst" "restore_stage p iid inst opts w1 = (Inl e, w')"
  proof (cases r1)
    case (Inl x) then show ?thesis using run get that(1) by (auto simp: restore_def bindE_def)
  next
    case (Inr i)
    then have i: "i = inst" using instance_Get_result [OF g(1)] inst by auto
    obtain r2 w2 where st: "restore_stage p iid inst opts w1 = (r2, w2)" by fastforce
    show ?thesis
    proof (cases r2)
      case (Inl x) then show ?thesis using run get Inr i st that by (auto simp: restore_def bindE_def fail_def split: if_splits)
    next
      case (Inr y) then show ?thesis using run get \<open>r1 = Inr i\<close> i st that restore_commit_total [of p iid inst "fst y" "snd y" w2]
        by (auto simp: restore_def bindE_def fail_def split: if_splits prod.splits)
    qed
  qed
  then show ?thesis
  proof cases
    case 1 with live1 pl show ?thesis by simp
  next
    case 2
    have row: "inst \<in> set (instances (db w))" "i_ID inst = iid" using find_instance_row [OF inst] by auto
    have "live ?c ?v (env w')"
      by (rule hoare_result [OF live_restore_stage _ 2(2)])
        (use live1 fresh g(2) stamp row(2) in \<open>simp add: next_stamp_def\<close>)
    moreover have "placement (db w') = placement (db w)"
    proof (rule keeps_result [OF placement_restore_stage pl 2(2)])
      fix cc vv assume "(i_ID inst, cc, vv) \<in> set (placement (db w))"
      then obtain j where "j \<in> set (instances (db w))" "i_ID j = i_ID inst" "cc = i_ContainerID j"
        by (auto simp: placement_def)
      then show "cc = ?c" using wf row(1) distinct_map_unique [of i_ID "instances (db w)" j inst] by (auto simp: db_wf_def)
    qed
    ultimately show ?thesis by simp
  qed
qed

end

text \<open>
  C3. A failed restore never costs the live copy: if \<open>restore\<close> returns an error, from any
  step and with any statements failing, the instance's data volume and its container still
  exist and every row still names the container and volume it named before. The only
  condition is that the staging volume's generated name differs from the live volume's.
\<close>

theorem restore_failure_keeps_live_copy:
  assumes "container_host (p_rt p) rinv conts vols" "rinv (env w)" "db_wf (db w)"
    and "find_instance (db w) iid = Some inst"
    and "data_volume_of inst iid \<in> vols (env w)"
    and "i_ContainerID inst = [] \<or> i_ContainerID inst \<in> conts (env w)"
    and "staging_volume iid (next_stamp (p_rt p) w) \<noteq> data_volume_of inst iid"
    and "restore p iid opts w = (Inl e, w')"
  shows "data_volume_of inst iid \<in> vols (env w') \<and>
         (i_ContainerID inst = [] \<or> i_ContainerID inst \<in> conts (env w')) \<and>
         map (\<lambda>i. (i_ID i, i_ContainerID i, i_DataVolume i)) (instances (db w')) =
         map (\<lambda>i. (i_ID i, i_ContainerID i, i_DataVolume i)) (instances (db w))"
proof -
  have "provisioner p rinv conts vols" using assms(1) by (simp add: provisioner_def)
  from provisioner.restore_failure [OF this assms(2-8)] show ?thesis
    using container_host.live_def [OF assms(1)] by (auto simp: placement_def)
qed

text \<open>A running instance \<open>i1\<close> for the witnesses; a restore container exits with code 1.\<close>

definition demo_running :: Instance where
  "demo_running = (demo_instance ''i1'' [] RoleStandalone)
     \<lparr>i_Status := StatusRunning, i_ContainerID := ''fake-1'', i_DataVolume := ''pgfleet-data-i1''\<rparr>"

definition demo_running_env :: fake_env where
  "demo_running_env =
     (\<lparr>fk_seq = 1, fk_containers = [(''fake-1'', \<lparr>fc_spec = containerSpec demo_opts demo_running [] [],
         fc_status = ''running'', fc_running = True, fc_exitCode = 0, fc_ports = [(''5432/tcp'', ''30001'')]\<rparr>)],
       fk_volumes = [(''pgfleet-data-i1'', []), (''pgfleet-repo-i1'', [])]\<rparr>, plain_process)"

definition demo_running_world :: "bool list \<Rightarrow> fake_env world" where
  "demo_running_world fs = \<lparr>env = demo_running_env,
     db = demo_db\<lparr>faults := fs, instances := [demo_running]\<rparr>, stampCounter = 0\<rparr>"

definition demo_bad_target :: RestoreOptions where
  "demo_bad_target = \<lparr>r_Type = ''time'', r_Target = [], r_Set = [], r_Delta = False, r_Repo = 0\<rparr>"

theorem restore_failure_keeps_live_copy_witness:
  "\<exists>e w'. restore demo_provisioner ''i1'' demo_bad_target (demo_running_world []) = (Inl e, w') \<and>
          ''pgfleet-data-i1'' \<in> fake_vols (env w') \<and> ''fake-1'' \<in> fake_conts (env w')"
proof -
  let ?w = "demo_running_world []"
  obtain e w' where run: "restore demo_provisioner ''i1'' demo_bad_target ?w = (Inl e, w')"
    by (simp add: restore_def demo_running_world_def demo_db_def prog_run db_run demo_running_def
        demo_instance_def demo_bad_target_def restore_stage_def Restore_args_def restore_opts_def Let_def)
  have f: "find_instance (db ?w) ''i1'' = Some demo_running"
    by (simp add: find_instance_def demo_running_world_def demo_running_def demo_instance_def)
  have wf: "db_wf (db ?w)"
    by (simp add: db_wf_def demo_running_world_def demo_db_def one_primary_def ids_of_def demo_running_def demo_instance_def)
  have e0: "fake_inv (env ?w)" "''pgfleet-data-i1'' \<in> fake_vols (env ?w)" "''fake-1'' \<in> fake_conts (env ?w)"
    by (auto simp: demo_running_world_def demo_running_env_def ids_ok_def cids_def vids_def show_nat.simps digit_char_simps
        intro!: exI [of _ 1])
  have vol: "data_volume_of demo_running ''i1'' = ''pgfleet-data-i1''" "i_ContainerID demo_running = ''fake-1''"
    by (simp_all add: data_volume_of_def demo_running_def demo_instance_def)
  have "length (staging_volume ''i1'' s) > length ''pgfleet-data-i1''" for s
    by (simp add: staging_volume_def)
  then have st: "staging_volume ''i1'' s \<noteq> data_volume_of demo_running ''i1''" for s
    using vol(1) by (metis less_irrefl)
  have host: "container_host (p_rt demo_provisioner) fake_inv fake_conts fake_vols"
    unfolding demo_provisioner_def fake_provisioner_rt by (rule fake_rt.container_host_axioms)
  from restore_failure_keeps_live_copy [OF host e0(1) wf f _ _ st run] e0 vol run show ?thesis by auto
qed

end
