(* ===== verification/Visibility.thy ===== *)
theory Visibility
  imports Restore
begin

text \<open>
  \<^verbatim>\<open>internal/provision/visibility.go\<close>: switching an instance between public and private,
  which replaces its container on the same data volume.
\<close>

text \<open>\<^verbatim>\<open>if state, err := Inspect(c); err == nil { if port, perr := assignedPort(state); perr == nil { _ = SetRuntime } }\<close>.\<close>

definition record_port :: "'e Provisioner \<Rightarrow> string \<Rightarrow> string \<Rightarrow> ('e world, unit) gofun" where
  "record_port p iid containerID = refreshPort p iid containerID"

definition recoverFailedFlip ::
    "'e Provisioner \<Rightarrow> string \<Rightarrow> Instance \<Rightarrow> string \<Rightarrow> bool \<Rightarrow> mount list \<Rightarrow> goerr \<Rightarrow> ('e world, unit) gofun" where
  "recoverFailedFlip p iid inst0 password originalPublic mounts cause =
     (let h = p_rt p; inst = inst0\<lparr>i_Public := originalPublic\<rparr> in
      ignoring (onD (instance_SetPublic iid originalPublic))
      (attempt (onE (CreateContainer h (containerSpec (p_opts p) inst password mounts))) (\<lambda>r. case r of
         Inl _ \<Rightarrow>
           ignoring (onD (instance_SetStatus iid StatusStopped
             (''visibility change failed and container could not be recreated: '' @ Error cause))) (fail cause)
       | Inr recovered \<Rightarrow>
           ignoring (onD (instance_SetRuntime iid recovered 0))
           (attempt (onE (StartContainer h recovered)) (\<lambda>r. case r of
              Inl _ \<Rightarrow>
                ignoring (onD (instance_SetStatus iid StatusStopped
                  (''visibility change failed; container recreated but not started: '' @ Error cause))) (fail cause)
            | Inr _ \<Rightarrow>
                ignoring (onE (writeConfig p recovered inst))
                (bindE (record_port p iid recovered) (\<lambda>_.
                 ignoring (onD (instance_SetStatus iid StatusRunning
                   (''visibility change failed; reverted to previous binding: '' @ Error cause))) (fail cause))))))))"

text \<open>The replacement of a running instance's container, once the flag is stored.\<close>

definition flip_container ::
    "'e Provisioner \<Rightarrow> string \<Rightarrow> Instance \<Rightarrow> bool \<Rightarrow> string \<Rightarrow> ('e world, unit) gofun" where
  "flip_container p iid inst public password =
     (let h = p_rt p; mounts = data_mounts inst (data_volume_of inst iid) (volumeName ''repo'' iid);
          old = i_ContainerID inst in
      ignoring (onE (StopContainer h old (Some stopTimeoutSeconds)))
      (ignoring (onE (RemoveContainer h old True))
      (attempt (onE (CreateContainer h (containerSpec (p_opts p) inst password mounts))) (\<lambda>r. case r of
         Inl err \<Rightarrow> recoverFailedFlip p iid inst password (\<not> public) mounts err
       | Inr newContainer \<Rightarrow>
           ignoring (onD (instance_SetRuntime iid newContainer 0))
           (attempt (onE (StartContainer h newContainer)) (\<lambda>r. case r of
              Inl err \<Rightarrow> recoverFailedFlip p iid inst password (\<not> public) mounts err
            | Inr _ \<Rightarrow>
                attempt (onE (waitReady h newContainer (i_Superuser inst))) (\<lambda>r. case r of
                  Inl err \<Rightarrow> ignoring (onD (instance_SetStatus iid StatusError (Error err))) (fail err)
                | Inr _ \<Rightarrow>
                    attempt (onE (writeConfig p newContainer inst)) (\<lambda>r. case r of
                      Inl err \<Rightarrow> ignoring (onD (instance_SetStatus iid StatusError
                          (''visibility: archiving config could not be written: '' @ Error err))) (fail err)
                    | Inr _ \<Rightarrow>
                        bindE (record_port p iid newContainer) (\<lambda>_.
                        ignoring (onD (instance_SetStatus iid StatusRunning [])) (ret ()))))))))))"

definition stable :: "Status \<Rightarrow> bool" where
  "stable s \<longleftrightarrow> s = StatusRunning \<or> s = StatusStopped"

definition SetVisibility :: "'e Provisioner \<Rightarrow> string \<Rightarrow> bool \<Rightarrow> ('e world, unit) gofun" where
  "SetVisibility p iid public =
     bindE (onD (instance_Get iid)) (\<lambda>inst.
     if i_Role inst = RoleReplica \<or> i_ClusterID inst \<noteq> [] then
       fail (New KindInvalid ''visibility: only a standalone instance can change visibility'')
     else if \<not> stable (i_Status inst) then
       fail (New KindInvalid (''visibility: instance is not in a stable state (status '' @ status_string (i_Status inst) @ '')''))
     else if i_Public inst = public then ret ()
     else bindE (onD (instance_SetPublic iid public)) (\<lambda>_.
       let inst' = inst\<lparr>i_Public := public\<rparr> in
       if i_Status inst' \<noteq> StatusRunning \<or> i_ContainerID inst' = [] then ret ()
       else bindE (onD (instance_Password (Lib (p_rt p)) (p_kek p) iid)) (\<lambda>password.
         flip_container p iid inst' public password)))"

section \<open>Guards\<close>

lemma Get_blocks:
  assumes "find_instance (db w) iid = Some inst" "\<And>w1. k inst w1 = (Inl e, w1)"
    and "bindE (onD (instance_Get iid)) k w = (r, w')"
  shows "(\<exists>x. r = Inl x) \<and> env w' = env w \<and> instances (db w') = instances (db w) \<and>
         clusters (db w') = clusters (db w) \<and> (faults (db w) = [] \<longrightarrow> r = Inl e)"
proof -
  obtain r1 w1 where g: "onD (instance_Get iid) w = (r1, w1)" by fastforce
  then have d: "instance_Get iid (db w) = (r1, db w1)" "env w1 = env w" by (auto dest: onD_result)
  have nf: "faults (db w) = [] \<Longrightarrow> r1 = Inr inst"
    using d(1) assms(1) by (auto simp: instance_Get_def queryOne_def stmt_def find_instance_def)
  from instance_Get_result [OF d(1)] obtain fs where
    "db w1 = (db w)\<lparr>faults := fs\<rparr>" "\<forall>i. r1 = Inr i \<longrightarrow> find_instance (db w) iid = Some i" by blast
  with assms g d(2) nf show ?thesis by (cases r1) (auto simp: bindE_def)
qed

lemma restore_blocked:
  assumes "find_instance (db w) iid = Some inst" "restore p iid opts w = (r, w')"
    and "i_Role inst = RoleReplica \<or> (i_Role inst = RolePrimary \<and> i_ClusterID inst \<noteq> [])"
  shows "(\<exists>x. r = Inl x) \<and> env w' = env w \<and> instances (db w') = instances (db w) \<and>
         (faults (db w) = [] \<longrightarrow> (\<exists>x. r = Inl x \<and> Kind x = KindInvalid))"
proof (cases "i_Role inst = RoleReplica")
  case True
  then show ?thesis
    using Get_blocks [OF assms(1) _ assms(2) [unfolded restore_def],
        where e = "New KindInvalid ''restore: a replica cannot be restored; rebuild it from the primary''"]
    by (auto simp: fail_def)
next
  case False
  with assms(3) show ?thesis
    using Get_blocks [OF assms(1) _ assms(2) [unfolded restore_def],
        where e = "New KindInvalid ''restore: restoring a clustered primary would diverge its replicas; not yet supported''"]
    by (auto simp: fail_def)
qed

lemma visibility_blocked:
  assumes "find_instance (db w) iid = Some inst" "SetVisibility p iid public w = (r, w')"
    and "i_Role inst = RoleReplica \<or> i_ClusterID inst \<noteq> [] \<or> i_Status inst \<notin> {StatusRunning, StatusStopped}"
  shows "(\<exists>x. r = Inl x) \<and> env w' = env w \<and> instances (db w') = instances (db w) \<and>
         (faults (db w) = [] \<longrightarrow> (\<exists>x. r = Inl x \<and> Kind x = KindInvalid))"
proof (cases "i_Role inst = RoleReplica \<or> i_ClusterID inst \<noteq> []")
  case True
  then show ?thesis
    using Get_blocks [OF assms(1) _ assms(2) [unfolded SetVisibility_def],
        where e = "New KindInvalid ''visibility: only a standalone instance can change visibility''"]
    by (auto simp: fail_def)
next
  case False
  with assms(3) show ?thesis
    using Get_blocks [OF assms(1) _ assms(2) [unfolded SetVisibility_def],
        where e = "New KindInvalid (''visibility: instance is not in a stable state (status '' @ status_string (i_Status inst) @ '')'')"]
    by (auto simp: fail_def stable_def)
qed



section \<open>The data survives a visibility change\<close>

context provisioner
begin

text \<open>No volume disappears, and no container but the one being replaced.\<close>

definition safe_flip :: "string \<Rightarrow> string set \<Rightarrow> string set \<Rightarrow> 'e \<Rightarrow> bool" where
  "safe_flip old C V e \<longleftrightarrow> inv e \<and> V \<subseteq> vols e \<and> C - {old} \<subseteq> conts e"

lemma safe_flip_objs: "(\<And>C V. keeps (objs C V) m) \<Longrightarrow> keeps (safe_flip old C V) m"
  by (simp add: keeps_def safe_flip_def objs_def)

lemmas safe_flip_frames = objs_frames [THEN safe_flip_objs] execOK_objs [THEN safe_flip_objs]
  waits_objs [THEN safe_flip_objs] writeConfig_objs [THEN safe_flip_objs]

lemma safe_flip_remove: "keeps (safe_flip old C V) (RemoveContainer (p_rt p) old force)"
proof (rule keepsI)
  fix e assume e: "safe_flip old C V e"
  obtain r e' where r: "RemoveContainer (p_rt p) old force e = (r, e')" by fastforce
  with e show "safe_flip old C V (snd (RemoveContainer (p_rt p) old force e))"
    using keeps_result [OF inv_RemoveContainer _ r] remove_cont [of e old force _ e']
      remove_cont_fail [of e old force _ e'] remove_cont_vols [OF _ r]
    by (cases r) (auto simp: safe_flip_def)
qed

lemma safe_flip_create: "keeps (safe_flip old C V) (CreateContainer (p_rt p) spec)"
proof (rule keepsI)
  fix e assume e: "safe_flip old C V e"
  obtain r e' where r: "CreateContainer (p_rt p) spec e = (r, e')" by fastforce
  with e show "safe_flip old C V (snd (CreateContainer (p_rt p) spec e))"
    using keeps_result [OF inv_CreateContainer _ r] create_fresh [of e spec _ e'] create_fail [of e spec _ e']
      create_vols [OF _ r]
    by (cases r) (auto simp: safe_flip_def)
qed

lemma safe_flip_container:
  "keeps (\<lambda>w. safe_flip (i_ContainerID inst) C V (env w)) (flip_container p iid inst public password)"
  unfolding flip_container_def recoverFailedFlip_def record_port_def refreshPort_def Let_def
  by (intro keeps_rules safe_flip_frames safe_flip_remove safe_flip_create)

lemma SetVisibility_safe:
  assumes "inv (env w)" "find_instance (db w) iid = Some inst"
  shows "safe_flip (i_ContainerID inst) (conts (env w)) (vols (env w)) (env (snd (SetVisibility p iid public w)))"
proof -
  let ?I = "\<lambda>w'. safe_flip (i_ContainerID inst) (conts (env w)) (vols (env w)) (env w')"
  obtain r1 w1 where g: "onD (instance_Get iid) w = (r1, w1)" by fastforce
  have I1: "?I w1" using g assms(1) by (auto simp: safe_flip_def dest: onD_result)
  have "r1 = Inr i \<Longrightarrow> i = inst" for i
    using g instance_Get_result [of iid "db w" r1 "db w1"] assms(2) by (auto dest: onD_result)
  moreover have "keeps ?I (if i_Role inst = RoleReplica \<or> i_ClusterID inst \<noteq> [] then
       fail (New KindInvalid ''visibility: only a standalone instance can change visibility'')
     else if \<not> stable (i_Status inst) then
       fail (New KindInvalid (''visibility: instance is not in a stable state (status '' @ status_string (i_Status inst) @ '')''))
     else if i_Public inst = public then ret ()
     else bindE (onD (instance_SetPublic iid public)) (\<lambda>_.
       let inst' = inst\<lparr>i_Public := public\<rparr> in
       if i_Status inst' \<noteq> StatusRunning \<or> i_ContainerID inst' = [] then ret ()
       else bindE (onD (instance_Password (Lib (p_rt p)) (p_kek p) iid)) (\<lambda>password.
         flip_container p iid inst' public password)))"
    using safe_flip_container [of "inst\<lparr>i_Public := public\<rparr>"]
    by (auto simp: Let_def intro!: keeps_rules)
  ultimately show ?thesis
    using g I1 unfolding SetVisibility_def by (cases r1) (auto simp: bindE_def keeps_def)
qed

end

text \<open>
  A visibility change never loses data or touches another instance: whatever happens, no
  volume disappears and no container other than the instance's own is removed.
\<close>

theorem SetVisibility_data_safe:
  assumes "container_host (p_rt p) rinv conts vols" "rinv (env w)" "find_instance (db w) iid = Some inst"
    and "SetVisibility p iid public w = (r, w')"
  shows "vols (env w) \<subseteq> vols (env w') \<and> conts (env w) - {i_ContainerID inst} \<subseteq> conts (env w')"
proof -
  have pv: "provisioner p rinv conts vols" using assms(1) by (simp add: provisioner_def)
  show ?thesis
    using provisioner.SetVisibility_safe [OF pv assms(2,3), of public] assms(4)
      provisioner.safe_flip_def [OF pv] by auto
qed

theorem SetVisibility_data_safe_witness:
  "\<exists>r w'. SetVisibility demo_provisioner ''i1'' True (demo_running_world []) = (r, w') \<and>
          ''pgfleet-data-i1'' \<in> fake_vols (env w')"
proof -
  let ?w = "demo_running_world []"
  obtain r w' where v: "SetVisibility demo_provisioner ''i1'' True ?w = (r, w')" by fastforce
  have f: "find_instance (db ?w) ''i1'' = Some demo_running"
    by (simp add: find_instance_def demo_running_world_def demo_running_def demo_instance_def)
  have e0: "fake_inv (env ?w)" "''pgfleet-data-i1'' \<in> fake_vols (env ?w)"
    by (auto simp: demo_running_world_def demo_running_env_def ids_ok_def cids_def vids_def show_nat.simps digit_char_simps
        intro!: exI [of _ 1])
  have host: "container_host (p_rt demo_provisioner) fake_inv fake_conts fake_vols"
    unfolding demo_provisioner_def fake_provisioner_rt by (rule fake_rt.container_host_axioms)
  from SetVisibility_data_safe [OF host e0(1) f v] e0(2) v show ?thesis by blast
qed

end
