(* ===== verification/PgCat.thy ===== *)
theory PgCat
  imports PgConfig
begin

text \<open>
  Package \<^verbatim>\<open>internal/pgcat\<close>, \<^verbatim>\<open>config.go\<close>: the configuration file of the query
  router. \<open>Generate\<close> is written line by line, as the Go code writes it to its builder.
  The theorems show that no field value can break out of the string, or the line, it is
  written in: escaping a value is inverted by reading a TOML basic string, and the lines of
  the file are exactly the lines the generator means to write.
\<close>

record Server =
  sv_Host :: string
  sv_Port :: int
  sv_Role :: string

record MirrorTarget =
  mt_Host :: string
  mt_Port :: int

definition PoolModeTransaction :: string where "PoolModeTransaction = ''transaction''"
definition PoolModeSession :: string where "PoolModeSession = ''session''"
definition defaultHealthcheckTimeout :: int where "defaultHealthcheckTimeout = 1000"
definition defaultHealthcheckDelay :: int where "defaultHealthcheckDelay = 30000"
definition defaultBanTime :: int where "defaultBanTime = 60"
definition defaultShutdownTimeout :: int where "defaultShutdownTimeout = 60000"

record pgcat_config =
  g_ListenPort :: int
  g_AdminUser :: string
  g_AdminPassword :: string
  g_Database :: string
  g_User :: string
  g_Password :: string
  g_PoolSize :: int
  g_PoolMode :: string
  g_Servers :: "Server list"
  g_Mirrors :: "MirrorTarget list"

definition ValidatePoolMode :: "string \<Rightarrow> goerr option" where
  "ValidatePoolMode m =
     (if m = [] \<or> m = PoolModeTransaction \<or> m = PoolModeSession then None
      else Some (Plain (''pgcat: invalid pool_mode '' @ [dquote] @ m @ [dquote] @ '' (want '' @
        [dquote] @ PoolModeTransaction @ [dquote] @ '' or '' @ [dquote] @ PoolModeSession @ [dquote] @ '')'')))"

text \<open>\<^verbatim>\<open>strings.NewReplacer\<close> on single bytes replaces each byte by itself.\<close>

definition toml_char :: "char \<Rightarrow> string" where
  "toml_char c =
     (if c = bslash then [bslash, bslash]
      else if c = dquote then [bslash, dquote]
      else if c = nl then [bslash, CHR ''n'']
      else if c = cr then [bslash, CHR ''r'']
      else if c = tab then [bslash, CHR ''t'']
      else [c])"

definition tomlEscape :: "string \<Rightarrow> string" where
  "tomlEscape s = concat (map toml_char s)"

text \<open>
  The number of bytes the first rune of a string takes when Go ranges over it: the width of
  a well-formed UTF-8 sequence, and one for a byte that does not start one.
\<close>

definition between :: "nat \<Rightarrow> nat \<Rightarrow> char \<Rightarrow> bool" where
  "between lo hi c \<longleftrightarrow> lo \<le> byte_val c \<and> byte_val c \<le> hi"

definition cont_bytes :: "string \<Rightarrow> nat \<Rightarrow> nat \<Rightarrow> nat \<Rightarrow> bool" where
  "cont_bytes s lo hi n \<longleftrightarrow> n \<le> length s \<and> (case s of [] \<Rightarrow> False | c # cs \<Rightarrow>
     between lo hi c \<and> list_all (between 0x80 0xBF) (take (n - 1) cs))"

fun rune_width :: "string \<Rightarrow> nat" where
  "rune_width [] = 1"
| "rune_width (c # cs) =
     (if between 0xC2 0xDF c \<and> cont_bytes cs 0x80 0xBF 1 then 2
      else if between 0xE0 0xE0 c \<and> cont_bytes cs 0xA0 0xBF 2 then 3
      else if (between 0xE1 0xEC c \<or> between 0xEE 0xEF c) \<and> cont_bytes cs 0x80 0xBF 2 then 3
      else if between 0xED 0xED c \<and> cont_bytes cs 0x80 0x9F 2 then 3
      else if between 0xF0 0xF0 c \<and> cont_bytes cs 0x90 0xBF 3 then 4
      else if between 0xF1 0xF3 c \<and> cont_bytes cs 0x80 0xBF 3 then 4
      else if between 0xF4 0xF4 c \<and> cont_bytes cs 0x80 0x8F 3 then 4
      else 1)"

lemma rune_width_pos: "0 < rune_width s"
  by (cases s) auto

definition bare_char :: "char \<Rightarrow> bool" where
  "bare_char c \<longleftrightarrow> is_lower c \<or> is_upper c \<or> is_digit c \<or> c = CHR ''_'' \<or> c = CHR ''-''"

function bare_loop :: "string \<Rightarrow> string" where
  "bare_loop [] = []"
| "bare_loop (c # cs) =
     (if bare_char c then c # bare_loop cs
      else CHR ''_'' # bare_loop (drop (rune_width (c # cs)) (c # cs)))"
  by pat_completeness auto
termination
  by (relation "measure length") (use rune_width_pos in \<open>auto simp: diff_less\<close>)

definition tomlBareKey :: "string \<Rightarrow> string" where
  "tomlBareKey s = (let b = bare_loop s in if b = [] then ''_'' else b)"

definition toml_kv :: "string \<Rightarrow> string \<Rightarrow> string" where
  "toml_kv k v = k @ '' = '' @ [dquote] @ tomlEscape v @ [dquote]"

definition toml_num :: "string \<Rightarrow> int \<Rightarrow> string" where
  "toml_num k n = k @ '' = '' @ Itoa n"

definition default_port :: "int \<Rightarrow> int" where
  "default_port p = (if p = 0 then 5432 else p)"

definition server_line :: "Server \<Rightarrow> string" where
  "server_line s = ''    ['' @ [dquote] @ tomlEscape (sv_Host s) @ [dquote] @ '', '' @
     Itoa (default_port (sv_Port s)) @ '', '' @ [dquote] @ tomlEscape (sv_Role s) @ [dquote] @ ''],''"

definition mirror_lines :: "string \<Rightarrow> nat \<Rightarrow> MirrorTarget \<Rightarrow> string list" where
  "mirror_lines poolKey i m =
     [[], ''[pools.'' @ poolKey @ ''.shards.0.mirrors.'' @ Itoa (int i) @ '']'',
      toml_kv ''host'' (mt_Host m), toml_num ''port'' (default_port (mt_Port m))]"

definition primary_reads :: "pgcat_config \<Rightarrow> bool" where
  "primary_reads c \<longleftrightarrow> length (filter (\<lambda>s. sv_Role s = ''replica'') (g_Servers c)) = 0"

definition config_lines :: "pgcat_config \<Rightarrow> string list" where
  "config_lines c =
     (let poolSize = (if g_PoolSize c \<le> 0 then 20 else g_PoolSize c);
          poolMode = (if g_PoolMode c = [] then PoolModeTransaction else g_PoolMode c);
          poolKey = tomlBareKey (g_Database c) in
      [''[general]'', ''host = '' @ [dquote] @ ''0.0.0.0'' @ [dquote], toml_num ''port'' (g_ListenPort c),
       toml_kv ''admin_username'' (g_AdminUser c), toml_kv ''admin_password'' (g_AdminPassword c),
       toml_num ''healthcheck_timeout'' defaultHealthcheckTimeout,
       toml_num ''healthcheck_delay'' defaultHealthcheckDelay,
       toml_num ''ban_time'' defaultBanTime,
       toml_num ''shutdown_timeout'' defaultShutdownTimeout,
       [],
       ''[pools.'' @ poolKey @ '']'',
       toml_kv ''pool_mode'' poolMode,
       ''query_parser_enabled = true'',
       ''query_parser_read_write_splitting = true'',
       ''primary_reads_enabled = '' @ (if primary_reads c then ''true'' else ''false''),
       ''load_balancing_mode = '' @ [dquote] @ ''random'' @ [dquote],
       ''default_role = '' @ [dquote] @ ''any'' @ [dquote],
       [],
       ''[pools.'' @ poolKey @ ''.users.0]'',
       toml_kv ''username'' (g_User c), toml_kv ''password'' (g_Password c),
       toml_num ''pool_size'' poolSize,
       [],
       ''[pools.'' @ poolKey @ ''.shards.0]'',
       ''servers = [''] @ map server_line (g_Servers c) @ ['']'', toml_kv ''database'' (g_Database c)] @
      concat (map (\<lambda>(i, m). mirror_lines poolKey i m) (enumerate 0 (g_Mirrors c))))"

definition Generate :: "pgcat_config \<Rightarrow> string" where
  "Generate c = concat (map (\<lambda>l. l @ [nl]) (config_lines c))"

section \<open>Escaping\<close>

text \<open>
  Reading a TOML basic string after its opening quote, as the TOML specification has it: the
  value and what follows the closing quote. A raw control character is not allowed.
\<close>

fun toml_read :: "string \<Rightarrow> (string \<times> string) option" where
  "toml_read [] = None"
| "toml_read (c # cs) =
     (if c = dquote then Some ([], cs)
      else if c = bslash then
        (case cs of
           [] \<Rightarrow> None
         | e # es \<Rightarrow>
             if e = bslash then map_option (apfst ((#) bslash)) (toml_read es)
             else if e = dquote then map_option (apfst ((#) dquote)) (toml_read es)
             else if e = CHR ''n'' then map_option (apfst ((#) nl)) (toml_read es)
             else if e = CHR ''r'' then map_option (apfst ((#) cr)) (toml_read es)
             else if e = CHR ''t'' then map_option (apfst ((#) tab)) (toml_read es)
             else None)
      else if byte_val c < 32 \<or> byte_val c = 127 then None
      else map_option (apfst ((#) c)) (toml_read cs))"

definition toml_printable :: "char \<Rightarrow> bool" where
  "toml_printable c \<longleftrightarrow> c \<in> {nl, cr, tab} \<or> (32 \<le> byte_val c \<and> byte_val c \<noteq> 127)"

lemma tomlEscape_simps [simp]: "tomlEscape [] = []" "tomlEscape (c # cs) = toml_char c @ tomlEscape cs"
  by (simp_all add: tomlEscape_def)

text \<open>
  Escaping is exact: for every value without exotic control characters, reading back the
  escaped value followed by a closing quote and any rest gives the value and that rest, so a
  value can neither be altered nor end its string early.
\<close>

theorem tomlEscape_roundtrip:
  assumes "list_all toml_printable s"
  shows "toml_read (tomlEscape s @ dquote # rest) = Some (s, rest)"
  using assms
proof (induction s)
  case (Cons c cs)
  then show ?case by (auto simp: toml_char_def toml_printable_def)
qed simp

theorem tomlEscape_roundtrip_witness:
  "toml_read (tomlEscape [CHR ''a'', dquote, bslash, nl] @ dquote # ''x'') = Some ([CHR ''a'', dquote, bslash, nl], ''x'')"
  by (rule tomlEscape_roundtrip) (simp add: toml_printable_def byte_val_def)

lemma tomlEscape_no_nl: "nl \<notin> set (tomlEscape s)"
  by (induction s) (auto simp: toml_char_def)

lemma bare_loop_chars: "c \<in> set (bare_loop s) \<Longrightarrow> bare_char c"
  by (induction s rule: bare_loop.induct) (auto simp: bare_char_def split: if_splits)

lemma tomlBareKey_chars: "c \<in> set (tomlBareKey s) \<Longrightarrow> bare_char c"
  by (auto simp: tomlBareKey_def Let_def bare_char_def dest: bare_loop_chars split: if_splits)

lemma show_nat_no_nl: "nl \<notin> set (show_nat n)"
  using show_nat_digits [of n] by (auto simp: list_all_iff is_digit_def byte_val_def)

lemma Itoa_no_nl: "nl \<notin> set (Itoa n)"
  using show_nat_no_nl by (auto simp: Itoa_def)

lemma bare_no_nl: "nl \<notin> set (tomlBareKey s)"
  using tomlBareKey_chars [of nl s] by (auto simp: bare_char_def is_lower_def is_upper_def is_digit_def byte_val_def)

lemma config_lines_no_nl: "l \<in> set (config_lines c) \<Longrightarrow> nl \<notin> set l"
  by (auto simp: config_lines_def Let_def toml_kv_def toml_num_def server_line_def mirror_lines_def
      tomlEscape_no_nl Itoa_no_nl bare_no_nl split: if_splits)

lemma Split_terminated:
  "(\<And>l. l \<in> set ls \<Longrightarrow> c \<notin> set l) \<Longrightarrow> Split (concat (map (\<lambda>l. l @ [c]) ls)) c = ls @ [[]]"
  by (induction ls) (auto simp: Split_append)

text \<open>
  No field value can add, remove or split a line of the router configuration: the lines
  of the file are exactly the generator's lines, one per setting, in order; the pool name in
  the table headers consists of bare-key characters only; and the primary serves reads
  exactly when the pool has no replica.
\<close>

theorem Generate_lines:
  "Split (Generate c) nl = config_lines c @ [[]] \<and>
   list_all bare_char (tomlBareKey (g_Database c)) \<and> tomlBareKey (g_Database c) \<noteq> [] \<and>
   (primary_reads c \<longleftrightarrow> list_all (\<lambda>s. sv_Role s \<noteq> ''replica'') (g_Servers c))"
proof (intro conjI)
  show "Split (Generate c) nl = config_lines c @ [[]]"
    unfolding Generate_def by (rule Split_terminated) (rule config_lines_no_nl)
  show "tomlBareKey (g_Database c) \<noteq> []" by (simp add: tomlBareKey_def Let_def)
  show "primary_reads c \<longleftrightarrow> list_all (\<lambda>s. sv_Role s \<noteq> ''replica'') (g_Servers c)"
    by (auto simp: primary_reads_def filter_empty_conv list_all_iff)
qed (auto simp: list_all_iff dest: tomlBareKey_chars)

end
