(* ===== verification/Replica.thy ===== *)
theory Replica
  imports Visibility PgCat
begin

text \<open>
  The rest of package \<^verbatim>\<open>internal/provision\<close>: streaming replicas (\<^verbatim>\<open>replica.go\<close>),
  clones (\<^verbatim>\<open>clone.go\<close>), the operations the failover controller calls
  (\<^verbatim>\<open>failover_support.go\<close>) and the query router (\<^verbatim>\<open>router.go\<close>).
\<close>

section \<open>Replicas (replica.go)\<close>

definition slotName :: "string \<Rightarrow> string" where
  "slotName replicaName = ''pgfleet_'' @ ReplaceAll replicaName ''-'' ''_''"

definition sql_quote :: "string \<Rightarrow> string" where
  "sql_quote s = [squote] @ s @ [squote]"

definition psql_cmd :: "Instance \<Rightarrow> string \<Rightarrow> string list" where
  "psql_cmd inst q = asPostgres [''psql'', ''-U'', i_Superuser inst, ''-d'', ''postgres'', ''-c'', q]"

definition hba_script :: "Instance \<Rightarrow> string" where
  "hba_script primary = Join
     [''set -e'',
      ''grep -q '' @ sql_quote ''pgfleet-replication'' @ '' '' @ [dquote] @ ''$PGDATA/pg_hba.conf'' @ [dquote] @ '' || '' @
        ''echo '' @ sql_quote ''host replication all 0.0.0.0/0 scram-sha-256 # pgfleet-replication'' @
        '' >> '' @ [dquote] @ ''$PGDATA/pg_hba.conf'' @ [dquote],
      ''gosu postgres psql -U '' @ i_Superuser primary @ '' -d postgres -c '' @ sql_quote ''SELECT pg_reload_conf()''] [nl]"

definition create_slot_sql :: "string \<Rightarrow> string" where
  "create_slot_sql slot =
     ''DO $$ BEGIN IF NOT EXISTS (SELECT 1 FROM pg_replication_slots WHERE slot_name='' @ sql_quote slot @ '') '' @
     ''THEN PERFORM pg_create_physical_replication_slot('' @ sql_quote slot @ ''); END IF; END $$;''"

definition drop_slot_sql :: "string \<Rightarrow> string" where
  "drop_slot_sql slot =
     ''DO $$ BEGIN IF EXISTS (SELECT 1 FROM pg_replication_slots WHERE slot_name='' @ sql_quote slot @ '') '' @
     ''THEN PERFORM pg_drop_replication_slot('' @ sql_quote slot @ ''); END IF; END $$;''"

definition preparePrimary :: "'e host \<Rightarrow> Instance \<Rightarrow> string \<Rightarrow> ('e, unit) gofun" where
  "preparePrimary h primary slot =
     bindE (execOK h (i_ContainerID primary) [''bash'', ''-c'', hba_script primary]) (\<lambda>_.
     execOK h (i_ContainerID primary) (psql_cmd primary (create_slot_sql slot)))"

definition DropReplicationSlot :: "'e host \<Rightarrow> Instance \<Rightarrow> string \<Rightarrow> ('e, unit) gofun" where
  "DropReplicationSlot h primary slot =
     (if i_ContainerID primary = [] then ret ()
      else attempt (Exec h (i_ContainerID primary) (psql_cmd primary (drop_slot_sql slot))) (\<lambda>r. case r of
          Inl _ \<Rightarrow> fail (New KindInternal ''provision: drop replication slot'')
        | Inr res \<Rightarrow>
            if ExitCode res \<noteq> 0 then fail (New KindInternal ''provision: drop replication slot'') else ret ()))"

definition basebackup_script :: string where
  "basebackup_script =
    (let q = [dquote]; s = [squote]; b = [bslash] in Join
     [''set -e'',
      ''chown postgres:postgres '' @ q @ ''$PGDATA_DIR'' @ q,
      ''gosu postgres pg_basebackup -h '' @ q @ ''$PRIMARY_HOST'' @ q @ '' -p 5432 -U '' @ q @ ''$PRIMARY_USER'' @ q @
        '' -D '' @ q @ ''$PGDATA_DIR'' @ q @ '' -X stream -S '' @ q @ ''$SLOT'' @ q @ '' -w -c fast'',
      ''touch '' @ q @ ''$PGDATA_DIR/standby.signal'' @ q,
      ''printf '' @ q @ ''primary_conninfo = '' @ s @ ''host=%s port=5432 user=%s application_name=%s passfile=%s'' @ s @
        b @ ''nprimary_slot_name = '' @ s @ ''%s'' @ s @ b @ ''nrecovery_target_timeline = '' @ s @ ''latest'' @ s @ b @ ''n'' @ q @ '' '' @
        q @ ''$PRIMARY_HOST'' @ q @ '' '' @ q @ ''$PRIMARY_USER'' @ q @ '' '' @ q @ ''$APP_NAME'' @ q @ '' '' @
        q @ ''$PGDATA_DIR/.pgpass'' @ q @ '' '' @ q @ ''$SLOT'' @ q @ '' >> '' @ q @ ''$PGDATA_DIR/postgresql.auto.conf'' @ q,
      ''ESC_PW=$(printf '' @ s @ ''%s'' @ s @ '' '' @ q @ ''$PGPASSWORD'' @ q @ '' | sed '' @
        s @ ''s/'' @ b @ b @ ''/'' @ b @ b @ b @ b @ ''/g; s/:/'' @ b @ b @ '':/g'' @ s @ '')'',
      ''printf '' @ s @ ''%s:5432:*:%s:%s'' @ b @ ''n'' @ s @ '' '' @ q @ ''$PRIMARY_HOST'' @ q @ '' '' @ q @ ''$PRIMARY_USER'' @ q @ '' '' @
        q @ ''$ESC_PW'' @ q @ '' > '' @ q @ ''$PGDATA_DIR/.pgpass'' @ q,
      ''chmod 600 '' @ q @ ''$PGDATA_DIR/.pgpass'' @ q,
      ''chown -R postgres:postgres '' @ q @ ''$PGDATA_DIR'' @ q] [nl])"

definition runBaseBackup ::
    "'e Provisioner \<Rightarrow> Instance \<Rightarrow> Instance \<Rightarrow> string \<Rightarrow> string \<Rightarrow> string \<Rightarrow> string \<Rightarrow> ('e world, unit) gofun" where
  "runBaseBackup p replica primary password primaryHost slot dataVol =
     bindE (shortStamp (p_rt p)) (\<lambda>stamp.
     onE (run_one_shot (p_rt p)
       ((one_shot_spec (p_opts p) (''pgfleet-basebackup-'' @ i_Name replica @ ''-'' @ stamp) replica ''basebackup''
           basebackup_script [\<lparr>Volume = dataVol, Path = pgDataPath, ReadOnly = False\<rparr>])
        \<lparr>cs_Env := [(''PGPASSWORD'', password), (''PRIMARY_HOST'', primaryHost), (''PRIMARY_USER'', i_Superuser primary),
                    (''APP_NAME'', i_Name replica), (''SLOT'', slot), (''PGDATA_DIR'', pgDataPath)]\<rparr>)))"

definition replicaSpec :: "Options \<Rightarrow> Instance \<Rightarrow> string \<Rightarrow> container_spec" where
  "replicaSpec opts replica dataVol = \<lparr>
     cs_Name = InstanceContainerName (i_Name replica),
     cs_Image = i_Image replica,
     cs_Cmd = [''postgres'', ''-c'', ''hot_standby=on''],
     cs_Env = [],
     cs_Labels = recoveryLabels replica,
     cs_Ports = [\<lparr>ContainerPort = pgPort, HostPort = 0, Protocol = [], HostIP = bindAddrFor opts replica\<rparr>],
     cs_Mounts = [\<lparr>Volume = dataVol, Path = pgDataPath, ReadOnly = False\<rparr>],
     cs_Networks = (if o_Network opts \<noteq> [] then [o_Network opts] else []),
     cs_User = [],
     cs_RestartPolicy = o_RestartPolicy opts\<rparr>"

text \<open>The deferred clean-up of \<^verbatim>\<open>provisionReplica\<close>, which also drops the slot.\<close>

definition replica_cleanup :: "'e host \<Rightarrow> string \<Rightarrow> string list \<Rightarrow> Instance \<Rightarrow> string \<Rightarrow> ('e, unit) gofun" where
  "replica_cleanup h createdContainer createdVolumes primary slot =
     ignoring (cleanup h createdContainer createdVolumes) (ignoring (DropReplicationSlot h primary slot) (ret ()))"

definition replica_run :: "'e Provisioner \<Rightarrow> string \<Rightarrow> Instance \<Rightarrow> Instance \<Rightarrow> string \<Rightarrow> ('e world, unit) gofun" where
  "replica_run p replicaID replica primary containerID =
     (let h = p_rt p in
      ignoring (onD (instance_SetRuntime replicaID containerID 0))
      (bindE (onE (StartContainer h containerID)) (\<lambda>_.
       bindE (onE (Inspect h containerID)) (\<lambda>state.
       case assignedPort state of
         Inl e \<Rightarrow> fail e
       | Inr hostPort \<Rightarrow>
           bindE (onD (instance_SetRuntime replicaID containerID hostPort)) (\<lambda>_.
           bindE (onE (waitReady h containerID (i_Superuser replica))) (\<lambda>_.
           onE (verifyStreaming h (i_ContainerID primary) (i_Name replica))))))))"

definition replica_resources ::
    "'e Provisioner \<Rightarrow> string \<Rightarrow> Instance \<Rightarrow> Instance \<Rightarrow> string \<Rightarrow> ('e world, unit) gofun" where
  "replica_resources p replicaID replica primary primaryPassword =
     (let h = p_rt p; slot = slotName (i_Name replica); primaryHost = InstanceContainerName (i_Name primary);
          dataVol = volumeName ''data'' replicaID in
      bindE (guardE (onE (replica_cleanup h [] [] primary slot)) (onE (CreateVolume h dataVol (instanceLabels replicaID)))) (\<lambda>_.
      bindE (guardE (onE (replica_cleanup h [] [dataVol] primary slot))
        (ignoring (onD (instance_SetDataVolume replicaID dataVol))
         (bindE (runBaseBackup p replica primary primaryPassword primaryHost slot dataVol) (\<lambda>_.
          onE (CreateContainer h (replicaSpec (p_opts p) replica dataVol)))))) (\<lambda>containerID.
      guardE (onE (replica_cleanup h containerID [dataVol] primary slot))
        (replica_run p replicaID replica primary containerID))))"

definition provisionReplica :: "'e Provisioner \<Rightarrow> string \<Rightarrow> Instance \<Rightarrow> ('e world, unit) gofun" where
  "provisionReplica p replicaID primary =
     (let h = p_rt p in
      bindE (onD (instance_Get replicaID)) (\<lambda>replica.
      bindE (onD (instance_Password (Lib h) (p_kek p) (i_ID primary))) (\<lambda>primaryPassword.
      bindE (onE (EnsureImage h (i_Image replica))) (\<lambda>_.
      bindE (onE (preparePrimary h primary (slotName (i_Name replica)))) (\<lambda>_.
      replica_resources p replicaID replica primary primaryPassword)))))"

definition ProvisionReplica :: "'e Provisioner \<Rightarrow> string \<Rightarrow> Instance \<Rightarrow> ('e world, unit) gofun" where
  "ProvisionReplica p replicaID primary =
     ignoring (onD (instance_SetStatus replicaID StatusProvisioning []))
       (record_outcome replicaID (provisionReplica p replicaID primary))"

section \<open>Clones (clone.go)\<close>

definition quoteIdent :: "string \<Rightarrow> string" where
  "quoteIdent s = [dquote] @ ReplaceAll s [dquote] [dquote, dquote] @ [dquote]"

definition quoteLiteral :: "string \<Rightarrow> string" where
  "quoteLiteral s = [squote] @ ReplaceAll s [squote] [squote, squote] @ [squote]"

definition ensureSourceHasBackup :: "'e host \<Rightarrow> Instance \<Rightarrow> ('e, unit) gofun" where
  "ensureSourceHasBackup h source =
     (if i_ContainerID source = [] then
        fail (New KindInvalid ''clone: source instance is not running; start it and take a backup before cloning'')
      else attempt (Exec h (i_ContainerID source) (asPostgres (Info (i_Stanza source) confPath))) (\<lambda>r. case r of
          Inl e \<Rightarrow> fail (Wrap KindInvalid ''clone: cannot read source backup catalog'' e)
        | Inr res \<Rightarrow>
            if ExitCode res \<noteq> 0 then
              fail (New KindInvalid (''clone: cannot read source backup catalog: '' @ redactSecrets (TrimSpace (Stderr res @ Stdout res))))
            else (case ParseInfo (UnmarshalInfo (Lib h)) (Stdout res) of
                Inl e \<Rightarrow> fail (Wrap KindInvalid ''clone: cannot parse source backup catalog'' e)
              | Inr stanzas \<Rightarrow>
                  if list_ex (\<lambda>s. sz_Name s = i_Stanza source \<and> 0 < length (sz_Backups s)) stanzas then ret ()
                  else fail (New KindInvalid
                    ''clone: source has no backup to clone from; a fresh backup of the source could not be produced''))))"

definition clone_run :: "'e Provisioner \<Rightarrow> string \<Rightarrow> Instance \<Rightarrow> string \<Rightarrow> string \<Rightarrow> ('e world, unit) gofun" where
  "clone_run p cloneID clone password containerID =
     (let h = p_rt p in
      ignoring (onD (instance_SetRuntime cloneID containerID 0))
      (bindE (onE (StartContainer h containerID)) (\<lambda>_.
       bindE (onE (waitReady h containerID (i_Superuser clone))) (\<lambda>_.
       bindE (refreshPort p cloneID containerID) (\<lambda>_.
       bindE (onE (execOK h containerID (asPostgres [''psql'', ''-U'', i_Superuser clone, ''-d'', ''postgres'', ''-tAc'',
         ''ALTER USER '' @ quoteIdent (i_Superuser clone) @ '' WITH PASSWORD '' @ quoteLiteral password]))) (\<lambda>_.
       bindE (onE (writeConfig p containerID clone)) (\<lambda>_.
       bindE (onE (execOK h containerID (asPostgres (StanzaCreate (i_Stanza clone) confPath)))) (\<lambda>_.
       ignoring (onE (execOK h containerID (createExtension (i_Superuser clone) ''pg_stat_statements'')))
       (forI (\<lambda>ext. onE (execOK h containerID (createExtension (i_Superuser clone) ext))) (i_Extensions clone))))))))))"

definition clone_resources ::
    "'e Provisioner \<Rightarrow> string \<Rightarrow> Instance \<Rightarrow> Instance \<Rightarrow> string \<Rightarrow> ('e world, unit) gofun" where
  "clone_resources p cloneID clone source password =
     (let h = p_rt p; dataVol = volumeName ''data'' cloneID; repoVol = volumeName ''repo'' cloneID;
          created = (if i_RepoType clone = RepoLocal then [dataVol, repoVol] else [dataVol]) in
      bindE (onE (CreateVolume h dataVol (instanceLabels cloneID))) (\<lambda>_.
      bindE (guardE (onE (cleanup h [] [dataVol]))
        (ignoring (onD (instance_SetDataVolume cloneID dataVol))
         (case Restore_args (i_Stanza source) confPath latest_opts of
            Inl e \<Rightarrow> fail e
          | Inr restoreArgs \<Rightarrow>
              bindE (runRestoreContainer p source restoreArgs dataVol True) (\<lambda>_.
              if i_RepoType clone = RepoLocal then onE (CreateVolume h repoVol (instanceLabels cloneID)) else ret ())))) (\<lambda>_.
      bindE (guardE (onE (cleanup h [] created))
        (onE (CreateContainer h (containerSpec (p_opts p) clone password (data_mounts clone dataVol repoVol))))) (\<lambda>containerID.
      guardE (onE (cleanup h containerID created)) (clone_run p cloneID clone password containerID)))))"

definition clone_body :: "'e Provisioner \<Rightarrow> string \<Rightarrow> Instance \<Rightarrow> ('e world, unit) gofun" where
  "clone_body p cloneID source =
     (let h = p_rt p in
      bindE (onD (instance_Get cloneID)) (\<lambda>clone0.
      bindE (onD (instance_Password (Lib h) (p_kek p) cloneID)) (\<lambda>password.
      bindE (if i_Encrypted clone0 \<noteq> i_Encrypted source then
               bindE (onD (instance_SetEncrypted cloneID (i_Encrypted source))) (\<lambda>_.
               ret (clone0\<lparr>i_Encrypted := i_Encrypted source\<rparr>))
             else ret clone0) (\<lambda>clone.
      bindE (onE (ensureSourceHasBackup h source)) (\<lambda>_.
      bindE (onE (EnsureImage h (i_Image clone))) (\<lambda>_.
      clone_resources p cloneID clone source password))))))"

definition Clone :: "'e Provisioner \<Rightarrow> string \<Rightarrow> Instance \<Rightarrow> ('e world, unit) gofun" where
  "Clone p cloneID source = record_outcome cloneID (clone_body p cloneID source)"

section \<open>Failover support (failover_support.go)\<close>

definition PrimaryReachable :: "'e host \<Rightarrow> Instance \<Rightarrow> 'e \<Rightarrow> bool \<times> 'e" where
  "PrimaryReachable h inst e =
     (if i_ContainerID inst = [] then (False, e)
      else case Exec h (i_ContainerID inst) (asPostgres [''pg_isready'', ''-U'', i_Superuser inst]) e of
          (Inl _, e') \<Rightarrow> (False, e')
        | (Inr res, e') \<Rightarrow> (ExitCode res = 0, e'))"

definition lsn_query :: string where
  "lsn_query = ''SELECT COALESCE(pg_wal_lsn_diff(pg_last_wal_replay_lsn(), '' @ sql_quote ''0/0'' @ ''), 0)::bigint''"

definition ReplayLSN :: "'e host \<Rightarrow> Instance \<Rightarrow> ('e, int) gofun" where
  "ReplayLSN h inst =
     (if i_ContainerID inst = [] then fail (New KindInternal ''failover: replica has no container'')
      else attempt (Exec h (i_ContainerID inst)
          (asPostgres [''psql'', ''-U'', i_Superuser inst, ''-d'', ''postgres'', ''-tAc'', lsn_query])) (\<lambda>r. case r of
          Inl _ \<Rightarrow> fail (New KindInternal (''failover: query replay lsn: '' @ TrimSpace []))
        | Inr res \<Rightarrow>
            if ExitCode res \<noteq> 0 then
              fail (New KindInternal (''failover: query replay lsn: '' @ TrimSpace (Stderr res)))
            else (case ParseInt (TrimSpace (Stdout res)) of
                Inl _ \<Rightarrow> fail (Wrap KindInternal ''failover: parse replay lsn'' (Plain ''invalid syntax''))
              | Inr n \<Rightarrow> ret n)))"

definition Promote :: "'e host \<Rightarrow> Instance \<Rightarrow> ('e, unit) gofun" where
  "Promote h inst =
     (if i_ContainerID inst = [] then fail (New KindInternal ''failover: instance has no container'')
      else execOK h (i_ContainerID inst) (asPostgres
        [''psql'', ''-U'', i_Superuser inst, ''-d'', ''postgres'', ''-tAc'', ''SELECT pg_promote(wait := true)'']))"

definition Fence :: "'e Provisioner \<Rightarrow> Instance \<Rightarrow> ('e world, unit) gofun" where
  "Fence p inst =
     (let h = p_rt p in
      if i_ContainerID inst = [] then ret ()
      else ignoring (onE (StopContainer h (i_ContainerID inst) (Some stopTimeoutSeconds)))
        (bindE (onE (wrap_error (Wrap KindInternal ''failover: fence old primary'') (RemoveContainer h (i_ContainerID inst) True))) (\<lambda>_.
         ignoring (onD (instance_SetRuntime (i_ID inst) [] 0)) (ret ()))))"

definition PrepareReclone :: "'e Provisioner \<Rightarrow> Instance \<Rightarrow> ('e world, unit) gofun" where
  "PrepareReclone p inst =
     (let h = p_rt p in
      bindE (if i_ContainerID inst \<noteq> [] then
               ignoring (onE (StopContainer h (i_ContainerID inst) (Some stopTimeoutSeconds)))
                 (ignoring (onE (RemoveContainer h (i_ContainerID inst) True)) (ret ()))
             else ret ()) (\<lambda>_.
      bindE (onE (wrap_error (Wrap KindInternal ''failover: reset replica data volume'')
                (RemoveVolume h (data_volume_of inst (i_ID inst)) True))) (\<lambda>_.
      ignoring (onD (instance_SetRuntime (i_ID inst) [] 0)) (ret ()))))"

section \<open>The router (router.go)\<close>

definition PgCatImage :: string where "PgCatImage = ''ghcr.io/postgresml/pgcat:latest''"
definition pgcatPort :: int where "pgcatPort = 6432"

record RouterMember =
  rm_Host :: string
  rm_Role :: string

record RouterMirror =
  rr_Host :: string
  rr_Port :: int

record RouterSpec =
  rs_ClusterID :: string
  rs_ClusterName :: string
  rs_Database :: string
  rs_User :: string
  rs_Password :: string
  rs_AdminPassword :: string
  rs_Members :: "RouterMember list"
  rs_PoolMode :: string
  rs_Mirrors :: "RouterMirror list"

definition routerConfig :: "RouterSpec \<Rightarrow> pgcat_config" where
  "routerConfig spec = \<lparr>
     g_ListenPort = pgcatPort, g_AdminUser = ''pgfleet_admin'', g_AdminPassword = rs_AdminPassword spec,
     g_Database = rs_Database spec, g_User = rs_User spec, g_Password = rs_Password spec, g_PoolSize = 0,
     g_PoolMode = rs_PoolMode spec,
     g_Servers = map (\<lambda>m. \<lparr>sv_Host = rm_Host m, sv_Port = pgPort, sv_Role = rm_Role m\<rparr>) (rs_Members spec),
     g_Mirrors = map (\<lambda>m. \<lparr>mt_Host = rr_Host m, mt_Port = (if rr_Port m = 0 then pgPort else rr_Port m)\<rparr>) (rs_Mirrors spec)\<rparr>"

definition router_cmd :: string where
  "router_cmd = ''printf '' @ sql_quote ''%s'' @ '' '' @ [dquote] @ ''$PGCAT_CONFIG'' @ [dquote] @
     '' > /tmp/pgcat.toml && exec pgcat /tmp/pgcat.toml''"

definition router_container :: "Options \<Rightarrow> RouterSpec \<Rightarrow> container_spec" where
  "router_container opts spec = \<lparr>
     cs_Name = ''pgfleet-router-'' @ rs_ClusterName spec,
     cs_Image = PgCatImage,
     cs_Cmd = [''sh'', ''-c'', router_cmd],
     cs_Env = [(''PGCAT_CONFIG'', Generate (routerConfig spec))],
     cs_Labels = [(LabelManaged, ''true''), (LabelInstance, rs_ClusterID spec), (LabelRole, ''router'')],
     cs_Ports = [\<lparr>ContainerPort = pgcatPort, HostPort = 0, Protocol = [], HostIP = o_BindAddress opts\<rparr>],
     cs_Mounts = [],
     cs_Networks = (if o_Network opts \<noteq> [] then [o_Network opts] else []),
     cs_User = [],
     cs_RestartPolicy = o_RestartPolicy opts\<rparr>"

definition StartRouter :: "'e Provisioner \<Rightarrow> RouterSpec \<Rightarrow> ('e, string \<times> int) gofun" where
  "StartRouter p spec =
     (let h = p_rt p in
      bindE (EnsureImage h PgCatImage) (\<lambda>_.
      bindE (CreateContainer h (router_container (p_opts p) spec)) (\<lambda>cid.
      guardE (RemoveContainer h cid True)
        (bindE (StartContainer h cid) (\<lambda>_.
         bindE (Inspect h cid) (\<lambda>state.
         case portFor state pgcatPort of Inl e \<Rightarrow> fail e | Inr port \<Rightarrow> ret (cid, port)))))))"

definition RouterMembersFromInstances :: "string \<Rightarrow> string list \<Rightarrow> RouterMember list" where
  "RouterMembersFromInstances primaryName replicaNames =
     \<lparr>rm_Host = InstanceContainerName primaryName, rm_Role = ''primary''\<rparr> #
     map (\<lambda>n. \<lparr>rm_Host = InstanceContainerName n, rm_Role = ''replica''\<rparr>) replicaNames"

end
