(* ===== verification/Failover.thy ===== *)
theory Failover
  imports Replica
begin

text \<open>
  Package \<^verbatim>\<open>internal/failover\<close>: detecting a dead primary, electing the most advanced
  replica, fencing the old primary, promoting, re-cloning the other replicas and repointing
  the router.

  The interface \<^verbatim>\<open>Promoter\<close> (with \<^verbatim>\<open>RouterRemover\<close>) is a record of operations, as in
  the Go code; \<open>provisioner_promoter\<close> is the provisioner behind that interface. Log
  output is left out.
\<close>

record 'w Promoter =
  pm_PrimaryReachable :: "Instance \<Rightarrow> 'w \<Rightarrow> bool \<times> 'w"
  pm_ReplayLSN :: "Instance \<Rightarrow> ('w, int) gofun"
  pm_Promote :: "Instance \<Rightarrow> ('w, unit) gofun"
  pm_Fence :: "Instance \<Rightarrow> ('w, unit) gofun"
  pm_PrepareReclone :: "Instance \<Rightarrow> ('w, unit) gofun"
  pm_ProvisionReplica :: "string \<Rightarrow> Instance \<Rightarrow> ('w, unit) gofun"
  pm_StartRouter :: "RouterSpec \<Rightarrow> ('w, string \<times> int) gofun"
  pm_RemoveContainer :: "string \<Rightarrow> bool \<Rightarrow> ('w, unit) gofun"

record 'e Controller =
  ct_prov :: "'e world Promoter"
  ct_lib :: lib
  ct_kek :: string
  ct_events :: bool
  ct_threshold :: int
  ct_masterKey :: string

definition New_Controller :: "'e world Promoter \<Rightarrow> lib \<Rightarrow> string \<Rightarrow> bool \<Rightarrow> int \<Rightarrow> string \<Rightarrow> 'e Controller" where
  "New_Controller prov lb kek ev threshold masterKey =
     \<lparr>ct_prov = prov, ct_lib = lb, ct_kek = kek, ct_events = ev,
      ct_threshold = (if threshold < 1 then 3 else threshold), ct_masterKey = masterKey\<rparr>"

section \<open>Members and election\<close>

definition splitMembers :: "Instance list \<Rightarrow> Instance option \<times> Instance list" where
  "splitMembers members =
     (let ps = filter (\<lambda>m. i_Role m = RolePrimary) members in
      (if ps = [] then None else Some (last ps), filter (\<lambda>m. i_Role m = RoleReplica) members))"

fun elect_loop :: "'w Promoter \<Rightarrow> Instance option \<Rightarrow> int \<Rightarrow> Instance list \<Rightarrow> 'w \<Rightarrow> Instance option \<times> 'w" where
  "elect_loop P best bestLSN [] w = (best, w)"
| "elect_loop P best bestLSN (r # rs) w =
     (case pm_PrimaryReachable P r w of
        (False, w1) \<Rightarrow> elect_loop P best bestLSN rs w1
      | (True, w1) \<Rightarrow> (case pm_ReplayLSN P r w1 of
            (Inl _, w2) \<Rightarrow> elect_loop P best bestLSN rs w2
          | (Inr lsn, w2) \<Rightarrow>
              if lsn \<le> 0 then elect_loop P best bestLSN rs w2
              else if bestLSN < lsn then elect_loop P (Some r) lsn rs w2
              else elect_loop P best bestLSN rs w2))"

definition elect :: "'w Promoter \<Rightarrow> Instance list \<Rightarrow> 'w \<Rightarrow> Instance option \<times> 'w" where
  "elect P replicas = elect_loop P None 0 replicas"

fun count_reachable :: "'w Promoter \<Rightarrow> Instance list \<Rightarrow> 'w \<Rightarrow> nat \<times> 'w" where
  "count_reachable P [] w = (0, w)"
| "count_reachable P (r # rs) w =
     (case pm_PrimaryReachable P r w of (b, w1) \<Rightarrow>
      case count_reachable P rs w1 of (n, w2) \<Rightarrow> (if b then Suc n else n, w2))"

text \<open>The two loops as compositions of the combinators.\<close>

lemma count_reachable_Cons:
  "count_reachable P (r # rs) = attempt (pm_PrimaryReachable P r) (\<lambda>b.
     attempt (count_reachable P rs) (\<lambda>n w. (if b then Suc n else n, w)))"
  by (rule ext) (simp add: attempt_def split: prod.splits)

lemma elect_loop_Cons:
  "elect_loop P best bestLSN (r # rs) = attempt (pm_PrimaryReachable P r) (\<lambda>b.
     if b then attempt (pm_ReplayLSN P r) (\<lambda>a. case a of
           Inl _ \<Rightarrow> elect_loop P best bestLSN rs
         | Inr lsn \<Rightarrow> if 0 < lsn \<and> bestLSN < lsn then elect_loop P (Some r) lsn rs else elect_loop P best bestLSN rs)
     else elect_loop P best bestLSN rs)"
  by (rule ext) (auto simp: attempt_def split: prod.splits bool.splits sum.splits)

definition quorum_needed :: "Instance list \<Rightarrow> nat" where
  "quorum_needed replicas =
     (let total = length replicas + 1; majority = total div 2 + 1
      in if length replicas = 1 then 1 else majority)"

section \<open>Failing over one cluster\<close>

definition record_failover :: "'e Controller \<Rightarrow> Cluster \<Rightarrow> string \<Rightarrow> string \<Rightarrow> ('e world, unit) gofun" where
  "record_failover ctl clu message instanceID =
     (if \<not> ct_events ctl then ret ()
      else ignoring (onD (event_Record \<lparr>ev_InstanceID = instanceID, ev_ClusterID = c_ID clu,
             ev_Type = ''failover'', ev_Message = message, ev_Metadata = [(''cluster'', c_Name clu)]\<rparr>)) (ret ()))"

definition quorum_msg :: string where
  "quorum_msg = ''quorum not met '' @ [CHR 0xE2, CHR 0x80, CHR 0x94] @ '' refusing to promote (possible partition)''"

definition repointRouter :: "'e Controller \<Rightarrow> Cluster \<Rightarrow> Instance \<Rightarrow> string list \<Rightarrow> ('e world, unit) gofun" where
  "repointRouter ctl clu newPrimary replicaNames =
     bindE (onD (instance_Password (ct_lib ctl) (ct_kek ctl) (i_ID newPrimary))) (\<lambda>password.
     bindE (if c_RouterContainerID clu \<noteq> [] then
              ignoring (pm_RemoveContainer (ct_prov ctl) (c_RouterContainerID clu) True) (ret ()) else ret ()) (\<lambda>_.
     bindE (pm_StartRouter (ct_prov ctl) \<lparr>rs_ClusterID = c_ID clu, rs_ClusterName = c_Name clu,
              rs_Database = ''postgres'', rs_User = i_Superuser newPrimary, rs_Password = password,
              rs_AdminPassword = RouterAdminPass (ct_lib ctl) (ct_masterKey ctl) (c_ID clu),
              rs_Members = RouterMembersFromInstances (i_Name newPrimary) replicaNames,
              rs_PoolMode = c_PoolMode clu, rs_Mirrors = []\<rparr>) (\<lambda>(routerID, port).
     onD (cluster_SetRouter (c_ID clu) routerID port))))"

text \<open>The loop over the other replicas: whether any is degraded, and the reattached names.\<close>

fun reattach :: "'e Controller \<Rightarrow> string \<Rightarrow> Instance \<Rightarrow> Instance list \<Rightarrow> bool \<Rightarrow> string list \<Rightarrow> 'e world \<Rightarrow> (bool \<times> string list) \<times> 'e world" where
  "reattach ctl newPID newPrimary [] degraded names = (\<lambda>w. ((degraded, names), w))"
| "reattach ctl newPID newPrimary (r # rs) degraded names =
     (if i_ID r = newPID then reattach ctl newPID newPrimary rs degraded names
      else
        ignoring (onD (instance_SetStatus (i_ID r) StatusProvisioning []))
        (attempt (pm_PrepareReclone (ct_prov ctl) r) (\<lambda>res. case res of
           Inl err \<Rightarrow>
             ignoring (onD (instance_SetStatus (i_ID r) StatusError (''reattach prep failed: '' @ Error err)))
               (reattach ctl newPID newPrimary rs True names)
         | Inr _ \<Rightarrow> attempt (pm_ProvisionReplica (ct_prov ctl) (i_ID r) newPrimary) (\<lambda>res. case res of
             Inl err \<Rightarrow>
               ignoring (onD (instance_SetStatus (i_ID r) StatusError (''reattach failed: '' @ Error err)))
                 (reattach ctl newPID newPrimary rs True names)
           | Inr _ \<Rightarrow> attempt (onD (instance_Get (i_ID r))) (\<lambda>res. case res of
               Inl _ \<Rightarrow> reattach ctl newPID newPrimary rs degraded names
             | Inr ri \<Rightarrow> reattach ctl newPID newPrimary rs degraded (names @ [i_Name ri]))))))"

definition demote_old :: "Instance option \<Rightarrow> ('e world, unit) gofun" where
  "demote_old oldPrimary = (case oldPrimary of
       None \<Rightarrow> ret ()
     | Some p \<Rightarrow>
         ignoring (onD (instance_SetStatus (i_ID p) StatusError ''failed over; rebuild as a replica''))
         (ignoring (onD (instance_SetRole (i_ID p) RoleReplica)) (ret ())))"

text \<open>Recording which node is the primary, after the promotion.\<close>

definition record_primary :: "Cluster \<Rightarrow> Instance option \<Rightarrow> Instance \<Rightarrow> ('e world, unit) gofun" where
  "record_primary clu oldPrimary newP =
     bindE (demote_old oldPrimary) (\<lambda>_.
     attempt (onD (instance_SetRole (i_ID newP) RolePrimary)) (\<lambda>roleErr.
     ignoring (onD (instance_SetStatus (i_ID newP) StatusRunning []))
     (attempt (onD (cluster_SetPrimary (c_ID clu) (i_ID newP))) (\<lambda>primErr.
      if isl roleErr \<or> isl primErr then
        ignoring (onD (cluster_SetStatus (c_ID clu) CStatusDegraded
          (''promoted '' @ i_Name newP @ '' but failed to update primary metadata; manual check needed''))) (ret ())
      else ret ()))))"

text \<open>Everything after the promotion: it always returns success.\<close>

definition failover_finish ::
    "'e Controller \<Rightarrow> Cluster \<Rightarrow> Instance option \<Rightarrow> Instance \<Rightarrow> Instance list \<Rightarrow> ('e world, unit) gofun" where
  "failover_finish ctl clu oldPrimary newP replicas =
     bindE (record_primary clu oldPrimary newP) (\<lambda>_.
     attempt (onD (instance_Get (i_ID newP))) (\<lambda>g.
     let newPrimary = (case g of Inl _ \<Rightarrow> newP | Inr x \<Rightarrow> x) in
     attempt (reattach ctl (i_ID newP) newPrimary replicas False []) (\<lambda>(degraded, reattached).
     attempt (repointRouter ctl clu newPrimary reattached) (\<lambda>rr.
     let degraded' = (degraded \<or> isl rr) in
     ignoring (onD (if degraded' then cluster_SetStatus (c_ID clu) CStatusDegraded ''failed over with degraded members''
                    else cluster_SetStatus (c_ID clu) CStatusRunning []))
       (record_failover ctl clu (''failover complete; new primary '' @ i_Name newP) (i_ID newP))))))"

definition fence_old :: "'e Controller \<Rightarrow> Cluster \<Rightarrow> Instance option \<Rightarrow> ('e world, unit) gofun" where
  "fence_old ctl clu oldPrimary = (case oldPrimary of
       None \<Rightarrow> ret ()
     | Some p \<Rightarrow> attempt (pm_Fence (ct_prov ctl) p) (\<lambda>r. case r of
         Inl err \<Rightarrow>
           ignoring (onD (cluster_SetStatus (c_ID clu) CStatusError
             (''failover aborted: could not fence old primary: '' @ Error err)))
           (bindE (record_failover ctl clu ''failover aborted: fencing the old primary failed'' []) (\<lambda>_. fail err))
       | Inr _ \<Rightarrow> ret ()))"

definition promote_new :: "'e Controller \<Rightarrow> Cluster \<Rightarrow> Instance \<Rightarrow> ('e world, unit) gofun" where
  "promote_new ctl clu newP = attempt (pm_Promote (ct_prov ctl) newP) (\<lambda>r. case r of
       Inl err \<Rightarrow>
         ignoring (onD (cluster_SetStatus (c_ID clu) CStatusError (''promotion failed: '' @ Error err))) (fail err)
     | Inr _ \<Rightarrow> ret ())"

definition failover ::
    "'e Controller \<Rightarrow> Cluster \<Rightarrow> Instance option \<Rightarrow> Instance list \<Rightarrow> ('e world, unit) gofun" where
  "failover ctl clu oldPrimary replicas =
     attempt (count_reachable (ct_prov ctl) replicas) (\<lambda>reachable.
     if reachable < quorum_needed replicas then
       ignoring (onD (cluster_SetStatus (c_ID clu) CStatusError quorum_msg))
       (bindE (record_failover ctl clu (''failover aborted: '' @ quorum_msg) []) (\<lambda>_.
        fail (New KindInternal (''failover: '' @ quorum_msg))))
     else
       attempt (elect (ct_prov ctl) replicas) (\<lambda>el. case el of
         None \<Rightarrow>
           ignoring (onD (cluster_SetStatus (c_ID clu) CStatusError ''primary unreachable and no promotable replica''))
           (bindE (record_failover ctl clu ''failover aborted: no promotable replica'' []) (\<lambda>_.
            fail (New KindInternal ''failover: no promotable replica'')))
       | Some newP \<Rightarrow>
           bindE (fence_old ctl clu oldPrimary) (\<lambda>_.
           bindE (promote_new ctl clu newP) (\<lambda>_.
           failover_finish ctl clu oldPrimary newP replicas))))"

section \<open>One pass over all clusters\<close>

type_synonym strikes = "(string \<times> int) list"

definition strikes_of :: "strikes \<Rightarrow> string \<Rightarrow> int" where
  "strikes_of fs cid = (case map_of fs cid of None \<Rightarrow> 0 | Some n \<Rightarrow> n)"

definition check_cluster :: "'e Controller \<Rightarrow> Cluster \<Rightarrow> strikes \<times> 'e world \<Rightarrow> strikes \<times> 'e world" where
  "check_cluster ctl clu = (\<lambda>(fs, w).
     if c_Status clu \<noteq> CStatusRunning \<and> c_Status clu \<noteq> CStatusDegraded then (fs, w)
     else (case onD (instance_ListByCluster (c_ID clu)) w of
         (Inl _, w1) \<Rightarrow> (fs, w1)
       | (Inr members, w1) \<Rightarrow>
           (case splitMembers members of (primary, replicas) \<Rightarrow>
            case (case primary of None \<Rightarrow> (False, w1) | Some p \<Rightarrow> pm_PrimaryReachable (ct_prov ctl) p w1) of (up, w2) \<Rightarrow>
              if up then (AList.update (c_ID clu) 0 fs, w2)
              else let n = strikes_of fs (c_ID clu) + 1 in
                if n < ct_threshold ctl then (AList.update (c_ID clu) n fs, w2)
                else (AList.update (c_ID clu) 0 fs, snd (failover ctl clu primary replicas w2)))))"

definition Run :: "'e Controller \<Rightarrow> (strikes \<times> 'e world, unit) gofun" where
  "Run ctl = (\<lambda>(fs, w). case onD cluster_List w of
       (Inl e, w1) \<Rightarrow> (Inl e, (fs, w1))
     | (Inr clus, w1) \<Rightarrow>
         (case fold (check_cluster ctl) clus (fs, w1) of (fs', w2) \<Rightarrow>
            (Inr (), (filter (\<lambda>(cid, n). cid \<in> c_ID ` set clus) fs', w2))))"

section \<open>The provisioner as a promoter\<close>

definition onE' :: "('e \<Rightarrow> 'a \<times> 'e) \<Rightarrow> 'e world \<Rightarrow> 'a \<times> 'e world" where
  "onE' m w = (case m (env w) of (r, e') \<Rightarrow> (r, w\<lparr>env := e'\<rparr>))"

definition provisioner_promoter :: "'e Provisioner \<Rightarrow> 'e world Promoter" where
  "provisioner_promoter p = \<lparr>
     pm_PrimaryReachable = (\<lambda>i. onE' (PrimaryReachable (p_rt p) i)),
     pm_ReplayLSN = (\<lambda>i. onE (ReplayLSN (p_rt p) i)),
     pm_Promote = (\<lambda>i. onE (Promote (p_rt p) i)),
     pm_Fence = Fence p,
     pm_PrepareReclone = PrepareReclone p,
     pm_ProvisionReplica = ProvisionReplica p,
     pm_StartRouter = (\<lambda>s. onE (StartRouter p s)),
     pm_RemoveContainer = (\<lambda>c f. onE (RemoveContainer (p_rt p) c f))\<rparr>"

end
