(* ===== verification/FailoverTrace.thy ===== *)
theory FailoverTrace
  imports Failover
begin

text \<open>
  What the failover controller asks of the machines, and in which order. Every call the
  controller makes through the \<^verbatim>\<open>Promoter\<close> interface is recorded in a log; the lemmas
  give the exact shape of the log of one failover, for any answers of the promoter and any
  failing database statements, and the properties read it: no promotion without a quorum,
  none before the old primary is fenced, at most one, of the most advanced replica, and no
  replica's data is destroyed before the promotion has succeeded.
\<close>

section \<open>Call logs\<close>

datatype call =
    CReachable Instance bool
  | CReplayLSN Instance "goerr + int"
  | CPromote Instance bool
  | CFence Instance bool
  | CReclone Instance bool
  | CReplica string Instance bool
  | CRouter RouterSpec bool
  | CRemove string bool

text \<open>A promoter that behaves as \<open>P\<close> and keeps the log beside \<open>P\<close>'s environment.\<close>

definition untraced :: "('e \<times> call list) world \<Rightarrow> 'e world" where
  "untraced w = \<lparr>env = fst (env w), db = db w, stampCounter = stampCounter w\<rparr>"

definition logged ::
    "('r \<Rightarrow> call) \<Rightarrow> ('e world \<Rightarrow> 'r \<times> 'e world) \<Rightarrow> ('e \<times> call list) world \<Rightarrow> 'r \<times> ('e \<times> call list) world" where
  "logged c f w = (case f (untraced w) of (r, w') \<Rightarrow>
     (r, \<lparr>env = (env w', snd (env w) @ [c r]), db = db w', stampCounter = stampCounter w'\<rparr>))"

definition is_ok :: "goerr + 'a \<Rightarrow> bool" where
  "is_ok r = (\<not> isl r)"

definition traced :: "'e world Promoter \<Rightarrow> ('e \<times> call list) world Promoter" where
  "traced P = \<lparr>
     pm_PrimaryReachable = (\<lambda>i. logged (CReachable i) (pm_PrimaryReachable P i)),
     pm_ReplayLSN = (\<lambda>i. logged (CReplayLSN i) (pm_ReplayLSN P i)),
     pm_Promote = (\<lambda>i. logged (CPromote i \<circ> is_ok) (pm_Promote P i)),
     pm_Fence = (\<lambda>i. logged (CFence i \<circ> is_ok) (pm_Fence P i)),
     pm_PrepareReclone = (\<lambda>i. logged (CReclone i \<circ> is_ok) (pm_PrepareReclone P i)),
     pm_ProvisionReplica = (\<lambda>rid i. logged (CReplica rid i \<circ> is_ok) (pm_ProvisionReplica P rid i)),
     pm_StartRouter = (\<lambda>s. logged (CRouter s \<circ> is_ok) (pm_StartRouter P s)),
     pm_RemoveContainer = (\<lambda>c f. logged (CRemove c \<circ> is_ok) (pm_RemoveContainer P c f))\<rparr>"

text \<open>\<open>f\<close> extends the log by calls that are related to its result by \<open>R\<close>.\<close>

definition emits :: "('e \<Rightarrow> call list) \<Rightarrow> ('e world \<Rightarrow> 'r \<times> 'e world) \<Rightarrow> ('r \<Rightarrow> call list \<Rightarrow> bool) \<Rightarrow> bool" where
  "emits lg f R \<longleftrightarrow> (\<forall>w r w'. f w = (r, w') \<longrightarrow> (\<exists>cs. lg (env w') = lg (env w) @ cs \<and> R r cs))"

named_theorems emits_rules \<open>the calls a program makes, one rule per combinator\<close>

lemma emitsD: "emits lg f R \<Longrightarrow> f w = (r, w') \<Longrightarrow> \<exists>cs. lg (env w') = lg (env w) @ cs \<and> R r cs"
  by (simp add: emits_def)

lemma emits_weaken: "emits lg f R \<Longrightarrow> (\<And>r cs. R r cs \<Longrightarrow> S r cs) \<Longrightarrow> emits lg f S"
  unfolding emits_def by blast

lemma emits_ret: "R (Inr x) [] \<Longrightarrow> emits lg (ret x) R"
  by (simp add: emits_def ret_def)

lemma emits_fail: "R (Inl e) [] \<Longrightarrow> emits lg (fail e) R"
  by (simp add: emits_def fail_def)

lemma emits_onD: "(\<And>r. R r []) \<Longrightarrow> emits lg (onD m) R"
  by (auto simp: emits_def dest: onD_result)

lemma emits_bindE:
  assumes "emits lg m R" "\<And>x. emits lg (k x) (S x)"
    and "\<And>e cs. R (Inl e) cs \<Longrightarrow> T (Inl e) cs"
    and "\<And>x r cs cs'. R (Inr x) cs \<Longrightarrow> S x r cs' \<Longrightarrow> T r (cs @ cs')"
  shows "emits lg (bindE m k) T"
  unfolding emits_def
proof (intro allI impI)
  fix w r w' assume run: "bindE m k w = (r, w')"
  obtain r1 w1 where m: "m w = (r1, w1)" by fastforce
  obtain cs where cs: "lg (env w1) = lg (env w) @ cs" "R r1 cs" using emitsD [OF assms(1) m] by blast
  show "\<exists>cs. lg (env w') = lg (env w) @ cs \<and> T r cs"
  proof (cases r1)
    case (Inl e) with run m cs assms(3) show ?thesis by (auto simp: bindE_def)
  next
    case (Inr x)
    with run m have "k x w1 = (r, w')" by (simp add: bindE_def)
    from emitsD [OF assms(2) this] cs assms(4) Inr show ?thesis by fastforce
  qed
qed

lemma emits_attempt:
  assumes "emits lg m R" "\<And>x. emits lg (k x) (S x)"
    and "\<And>x r cs cs'. R x cs \<Longrightarrow> S x r cs' \<Longrightarrow> T r (cs @ cs')"
  shows "emits lg (attempt m k) T"
  unfolding emits_def
proof (intro allI impI)
  fix w r w' assume run: "attempt m k w = (r, w')"
  obtain x w1 where m: "m w = (x, w1)" by fastforce
  obtain cs where cs: "lg (env w1) = lg (env w) @ cs" "R x cs" using emitsD [OF assms(1) m] by blast
  from run m have "k x w1 = (r, w')" by (simp add: attempt_def)
  from emitsD [OF assms(2) this] cs assms(3) show "\<exists>cs. lg (env w') = lg (env w) @ cs \<and> T r cs" by fastforce
qed

lemma emits_after_onD:
  "emits lg k T \<Longrightarrow> emits lg (ignoring (onD m) k) T"
  "(\<And>x. emits lg (k' x) T) \<Longrightarrow> (\<And>e. T (Inl e) []) \<Longrightarrow> emits lg (bindE (onD m) k') T"
  "(\<And>x. emits lg (k'' x) T') \<Longrightarrow> emits lg (attempt (onD m) k'') T'"
    apply (unfold ignoring_def)
    apply (rule emits_attempt [where R = "\<lambda>_ cs. cs = []" and S = "\<lambda>_. T"]; auto intro: emits_onD)
   apply (rule emits_bindE [where R = "\<lambda>_ cs. cs = []" and S = "\<lambda>_. T"]; auto intro: emits_onD)
  apply (rule emits_attempt [where R = "\<lambda>_ cs. cs = []" and S = "\<lambda>_. T'"]; auto intro: emits_onD)
  done

lemma emits_prod: "emits lg (f (fst p) (snd p)) R \<Longrightarrow> emits lg (case p of (a, b) \<Rightarrow> f a b) R"
  by (simp add: case_prod_beta)

text \<open>The special case of a predicate on every call made.\<close>

definition only :: "(call \<Rightarrow> bool) \<Rightarrow> 'r \<Rightarrow> call list \<Rightarrow> bool" where
  "only A r cs = list_all A cs"

lemma emits_only [emits_rules]:
  "emits lg (ret x) (only A)" "emits lg (fail e) (only A)" "emits lg (onD m) (only A)"
  "emits lg m1 (only A) \<Longrightarrow> (\<And>x. emits lg (k1 x) (only A)) \<Longrightarrow> emits lg (bindE m1 k1) (only A)"
  "emits lg m2 (only A) \<Longrightarrow> (\<And>x. emits lg (k2 x) (only A)) \<Longrightarrow> emits lg (attempt m2 k2) (only A)"
  "emits lg m3 (only A) \<Longrightarrow> emits lg k3 (only A) \<Longrightarrow> emits lg (ignoring m3 k3) (only A)"
  by (auto simp: only_def ignoring_def intro: emits_ret emits_fail emits_onD
      emits_bindE [where R = "only A" and S = "\<lambda>_. only A"] emits_attempt [where R = "only A" and S = "\<lambda>_. only A"])

section \<open>The log of one failover\<close>

definition probe :: "Instance list \<Rightarrow> call \<Rightarrow> bool" where
  "probe rs c \<longleftrightarrow> (\<exists>r\<in>set rs. (\<exists>b. c = CReachable r b) \<or> (\<exists>a. c = CReplayLSN r a))"

fun pick :: "call \<Rightarrow> Instance option \<times> int \<Rightarrow> Instance option \<times> int" where
  "pick (CReplayLSN r (Inr lsn)) (best, bestLSN) = (if 0 < lsn \<and> bestLSN < lsn then (Some r, lsn) else (best, bestLSN))"
| "pick c s = s"

text \<open>What may be done after the promotion of \<open>i\<close>.\<close>

definition aftermath :: "Instance list \<Rightarrow> Instance \<Rightarrow> call \<Rightarrow> bool" where
  "aftermath rs i c \<longleftrightarrow> (case c of
       CReclone j _ \<Rightarrow> j \<in> set rs \<and> i_ID j \<noteq> i_ID i
     | CReplica rid _ _ \<Rightarrow> rid \<in> i_ID ` set rs \<and> rid \<noteq> i_ID i
     | CRouter _ _ \<Rightarrow> True
     | CRemove _ _ \<Rightarrow> True
     | _ \<Rightarrow> False)"

definition fence_calls :: "Instance option \<Rightarrow> call list" where
  "fence_calls old = (case old of None \<Rightarrow> [] | Some p \<Rightarrow> [CFence p True])"

text \<open>The calls once \<open>i\<close> is elected, and those of a whole failover.\<close>

definition commit_shape :: "Instance option \<Rightarrow> Instance list \<Rightarrow> Instance \<Rightarrow> goerr + unit \<Rightarrow> call list \<Rightarrow> bool" where
  "commit_shape old rs i r cs \<longleftrightarrow>
     (isl r \<and> (\<exists>p. old = Some p \<and> cs = [CFence p False])) \<or>
     (isl r \<and> cs = fence_calls old @ [CPromote i False]) \<or>
     (r = Inr () \<and> (\<exists>T. list_all (aftermath rs i) T \<and> cs = fence_calls old @ [CPromote i True] @ T))"

definition elect_shape :: "Instance option \<Rightarrow> Instance list \<Rightarrow> goerr + unit \<Rightarrow> call list \<Rightarrow> bool" where
  "elect_shape old rs r cs \<longleftrightarrow> (\<exists>E D. cs = E @ D \<and> list_all (probe rs) E \<and>
     (case fst (fold pick E (None, 0)) of
        None \<Rightarrow> isl r \<and> D = []
      | Some i \<Rightarrow> commit_shape old rs i r D))"

definition failover_shape :: "Instance option \<Rightarrow> Instance list \<Rightarrow> goerr + unit \<Rightarrow> call list \<Rightarrow> bool" where
  "failover_shape old rs r cs \<longleftrightarrow> (\<exists>bs D. length bs = length rs \<and> cs = map2 CReachable rs bs @ D \<and>
     (if length (filter (\<lambda>b. b) bs) < quorum_needed rs then isl r \<and> D = []
      else elect_shape old rs r D))"

text \<open>A promoter whose calls can all be read off a log.\<close>

locale call_log =
  fixes P :: "'e world Promoter" and lg :: "'e \<Rightarrow> call list"
  assumes log_Reachable: "emits lg (pm_PrimaryReachable P i) (\<lambda>b cs. cs = [CReachable i b])"
    and log_ReplayLSN: "emits lg (pm_ReplayLSN P i) (\<lambda>r cs. cs = [CReplayLSN i r])"
    and log_Promote: "emits lg (pm_Promote P i) (\<lambda>r cs. cs = [CPromote i (is_ok r)])"
    and log_Fence: "emits lg (pm_Fence P i) (\<lambda>r cs. cs = [CFence i (is_ok r)])"
    and log_Reclone: "emits lg (pm_PrepareReclone P i) (\<lambda>r cs. cs = [CReclone i (is_ok r)])"
    and log_Replica: "emits lg (pm_ProvisionReplica P rid i) (\<lambda>r cs. cs = [CReplica rid i (is_ok r)])"
    and log_Router: "emits lg (pm_StartRouter P s) (\<lambda>r cs. cs = [CRouter s (is_ok r)])"
    and log_Remove: "emits lg (pm_RemoveContainer P c f) (\<lambda>r cs. cs = [CRemove c (is_ok r)])"
begin

lemma count_reachable_log:
  "emits lg (count_reachable P rs)
     (\<lambda>n cs. \<exists>bs. length bs = length rs \<and> cs = map2 CReachable rs bs \<and> n = length (filter (\<lambda>b. b) bs))"
proof (induction rs)
  case Nil show ?case by (simp add: emits_def)
next
  case (Cons r rs)
  have "emits lg (attempt (count_reachable P rs) (\<lambda>n w. (if b then Suc n else n, w)))
      (\<lambda>n cs. \<exists>bs. length bs = length rs \<and> cs = map2 CReachable rs bs \<and> n = length (filter (\<lambda>b. b) (b # bs)))" for b
    by (rule emits_attempt [OF Cons.IH, where S = "\<lambda>n n' cs. cs = [] \<and> n' = (if b then Suc n else n)"])
      (auto simp: emits_def)
  then show ?case
    unfolding count_reachable_Cons by (rule emits_attempt [OF log_Reachable])
      ( fastforce simp: length_Suc_conv)
qed

lemma elect_loop_log:
  "emits lg (elect_loop P best bestLSN rs)
     (\<lambda>res cs. list_all (probe rs) cs \<and> res = fst (fold pick cs (best, bestLSN)))"
proof (induction rs arbitrary: best bestLSN)
  case Nil show ?case by (simp add: emits_def)
next
  case (Cons r rs)
  have widen: "list_all (probe rs) cs \<Longrightarrow> list_all (probe (r # rs)) cs" for cs
    by (induction cs) (auto simp: probe_def)
  have here: "probe (r # rs) (CReachable r b)" "probe (r # rs) (CReplayLSN r a)" for a b by (auto simp: probe_def)
  have inner: "emits lg (attempt (pm_ReplayLSN P r) (\<lambda>a. case a of
            Inl _ \<Rightarrow> elect_loop P best bestLSN rs
          | Inr lsn \<Rightarrow> if 0 < lsn \<and> bestLSN < lsn then elect_loop P (Some r) lsn rs else elect_loop P best bestLSN rs))
      (\<lambda>res cs. list_all (probe (r # rs)) cs \<and> res = fst (fold pick cs (best, bestLSN)))"
    by (rule emits_attempt [OF log_ReplayLSN, where S = "\<lambda>a res cs. list_all (probe rs) cs \<and>
          res = fst (fold pick cs (pick (CReplayLSN r a) (best, bestLSN)))"])
      (auto split: sum.splits intro: emits_weaken [OF Cons.IH] widen simp: here)
  show ?case
    unfolding elect_loop_Cons
    by (rule emits_attempt [OF log_Reachable, where S = "\<lambda>_ res cs. list_all (probe (r # rs)) cs \<and>
          res = fst (fold pick cs (best, bestLSN))"])
      (auto intro: inner emits_weaken [OF Cons.IH] widen simp: here)
qed

lemma emits_onlyI:
  "emits lg m (\<lambda>r cs. cs = [c r]) \<Longrightarrow> (\<And>r. A (c r)) \<Longrightarrow> emits lg m (only A)"
  by (auto simp: only_def elim: emits_weaken)

lemma reattach_log:
  assumes "ct_prov ctl = P" "set rs \<subseteq> set rs0"
  shows "emits lg (reattach ctl (i_ID i) np rs d names) (only (aftermath rs0 i))"
  using assms(2)
proof (induction rs arbitrary: d names)
  case Nil show ?case by (simp add: emits_def only_def)
next
  case (Cons r rs)
  note IH = Cons.IH [OF order_trans [OF _ Cons.prems]]
  show ?case
  proof (cases "i_ID r = i_ID i")
    case True then show ?thesis using IH by auto
  next
    case False
    have calls: "emits lg (pm_PrepareReclone P r) (only (aftermath rs0 i))"
      "emits lg (pm_ProvisionReplica P (i_ID r) np) (only (aftermath rs0 i))"
      using False Cons.prems
      by (auto intro!: emits_onlyI [OF log_Reclone] emits_onlyI [OF log_Replica] simp: aftermath_def)
    show ?thesis
      using False calls
      by (auto simp: assms(1) split: sum.split intro!: emits_rules IH)
  qed
qed

lemma repointRouter_log:
  assumes "ct_prov ctl = P"
  shows "emits lg (repointRouter ctl clu np names) (only (aftermath rs0 i))"
proof -
  have "emits lg (pm_RemoveContainer P c True) (only (aftermath rs0 i))"
    "emits lg (pm_StartRouter P s) (only (aftermath rs0 i))" for c s
    by (auto intro!: emits_onlyI [OF log_Remove] emits_onlyI [OF log_Router] simp: aftermath_def)
  then show ?thesis
    unfolding repointRouter_def assms by (auto intro!: emits_rules)
qed

lemma record_failover_log: "emits lg (record_failover ctl clu m iid) (\<lambda>r cs. r = Inr () \<and> cs = [])"
  unfolding record_failover_def by (auto intro!: emits_ret emits_after_onD)

lemma record_primary_log: "emits lg (record_primary clu old i) (\<lambda>r cs. r = Inr () \<and> cs = [])"
  unfolding record_primary_def demote_old_def
  by (rule emits_bindE [where R = "\<lambda>r cs. r = Inr () \<and> cs = []" and S = "\<lambda>_ r cs. r = Inr () \<and> cs = []"])
    (auto split: option.split intro!: emits_ret emits_after_onD)

lemma failover_finish_log:
  assumes "ct_prov ctl = P"
  shows "emits lg (failover_finish ctl clu old i rs) (\<lambda>r cs. r = Inr () \<and> list_all (aftermath rs i) cs)"
proof -
  let ?S = "\<lambda>r cs. r = Inr () \<and> list_all (aftermath rs i) cs"
  have last: "emits lg (ignoring (onD m) (record_failover ctl clu msg (i_ID i))) ?S" for m msg
    by (rule emits_after_onD(1), rule emits_weaken [OF record_failover_log]) simp
  have router: "emits lg (attempt (repointRouter ctl clu np names) (\<lambda>rr.
      ignoring (onD (m rr)) (record_failover ctl clu msg (i_ID i)))) ?S" for np names m msg
    by (rule emits_attempt [OF repointRouter_log [OF assms] last]) (simp add: only_def)
  show ?thesis
    unfolding failover_finish_def Let_def
    by (rule emits_bindE [OF record_primary_log], rule emits_after_onD(3),
        rule emits_attempt [OF reattach_log [OF assms order_refl] router [THEN emits_prod]])
      (auto simp: only_def)
qed

lemma fence_old_log:
  assumes "ct_prov ctl = P"
  shows "emits lg (fence_old ctl clu old)
     (\<lambda>r cs. (isl r \<and> (\<exists>p. old = Some p \<and> cs = [CFence p False])) \<or> (r = Inr () \<and> cs = fence_calls old))"
proof (cases old)
  case None then show ?thesis by (simp add: fence_old_def fence_calls_def emits_ret)
next
  case (Some p)
  have abort: "emits lg (bindE (record_failover ctl clu m iid) (\<lambda>_. fail err)) (\<lambda>r cs. isl r \<and> cs = [])" for m iid err
    by (rule emits_bindE [OF record_failover_log, where S = "\<lambda>_ r cs. isl r \<and> cs = []"]) (auto intro: emits_fail)
  show ?thesis
    unfolding fence_old_def Some option.case assms
    by (rule emits_attempt [OF log_Fence, where S = "\<lambda>x r cs. cs = [] \<and> (case x of Inl _ \<Rightarrow> isl r | Inr _ \<Rightarrow> r = Inr ())"])
      (auto split: sum.splits simp: is_ok_def fence_calls_def intro!: emits_ret emits_after_onD emits_weaken [OF abort])
qed

lemma promote_new_log:
  assumes "ct_prov ctl = P"
  shows "emits lg (promote_new ctl clu i)
     (\<lambda>r cs. (isl r \<and> cs = [CPromote i False]) \<or> (r = Inr () \<and> cs = [CPromote i True]))"
  unfolding promote_new_def assms
  by (rule emits_attempt [OF log_Promote, where S = "\<lambda>x r cs. cs = [] \<and> (case x of Inl _ \<Rightarrow> isl r | Inr _ \<Rightarrow> r = Inr ())"])
    (auto split: sum.splits simp: is_ok_def intro!: emits_ret emits_fail emits_after_onD)

lemma failover_commit_log:
  assumes "ct_prov ctl = P"
  shows "emits lg (bindE (fence_old ctl clu old) (\<lambda>_. bindE (promote_new ctl clu i) (\<lambda>_. failover_finish ctl clu old i rs)))
     (commit_shape old rs i)"
proof -
  have "emits lg (bindE (promote_new ctl clu i) (\<lambda>_. failover_finish ctl clu old i rs))
     (\<lambda>r cs. (isl r \<and> cs = [CPromote i False]) \<or>
        (\<exists>T. r = Inr () \<and> list_all (aftermath rs i) T \<and> cs = [CPromote i True] @ T))"
    by (rule emits_bindE [OF promote_new_log [OF assms] failover_finish_log [OF assms]]) auto
  then show ?thesis
    by (rule emits_bindE [OF fence_old_log [OF assms]]) (auto simp: fence_calls_def commit_shape_def)
qed

lemma failover_log:
  assumes "ct_prov ctl = P"
  shows "emits lg (failover ctl clu old rs) (failover_shape old rs)"
proof -
  have abort: "emits lg (ignoring (onD m) (bindE (record_failover ctl clu t iid) (\<lambda>_. fail err))) (\<lambda>r cs. isl r \<and> cs = [])"
    for m t iid err
    by (rule emits_after_onD, rule emits_bindE [OF record_failover_log, where S = "\<lambda>_ r cs. isl r \<and> cs = []"])
      (auto intro: emits_fail)
  have cases: "emits lg (case el of
        None \<Rightarrow> ignoring (onD m) (bindE (record_failover ctl clu t iid) (\<lambda>_. fail err))
      | Some i \<Rightarrow> bindE (fence_old ctl clu old) (\<lambda>_. bindE (promote_new ctl clu i) (\<lambda>_. failover_finish ctl clu old i rs)))
      (\<lambda>r cs. case el of None \<Rightarrow> isl r \<and> cs = [] | Some i \<Rightarrow> commit_shape old rs i r cs)" for el m t iid err
    by (cases el) (simp_all add: abort failover_commit_log [OF assms])
  have elected: "emits lg (attempt (elect P rs) (\<lambda>el. case el of
        None \<Rightarrow> ignoring (onD m) (bindE (record_failover ctl clu t iid) (\<lambda>_. fail err))
      | Some i \<Rightarrow> bindE (fence_old ctl clu old) (\<lambda>_. bindE (promote_new ctl clu i) (\<lambda>_. failover_finish ctl clu old i rs))))
      (elect_shape old rs)" for m t iid err
    unfolding elect_def
    by (rule emits_attempt [OF elect_loop_log cases]) (auto simp: elect_shape_def)
  show ?thesis
    unfolding failover_def assms
    by (rule emits_attempt [OF count_reachable_log, where S = "\<lambda>n r cs.
           if n < quorum_needed rs then isl r \<and> cs = [] else elect_shape old rs r cs"])
      (auto intro: abort elected simp: failover_shape_def, metis)
qed

end

interpretation traced_log: call_log "traced P" snd for P :: "'e world Promoter"
  by unfold_locales (auto simp: traced_def emits_def logged_def split: prod.splits)

section \<open>Reading the log\<close>

lemma pick_cases:
  "pick c (best, lsn) = (best, lsn) \<or> (\<exists>r n. c = CReplayLSN r (Inr n) \<and> 0 < n \<and> lsn < n \<and> pick c (best, lsn) = (Some r, n))"
  by (cases "(c, (best, lsn))" rule: pick.cases) auto

lemma pick_mono: "snd (pick c s) \<ge> snd s"
  using pick_cases [of c "fst s" "snd s"] by auto

lemma pick_fold_mono: "snd (fold pick cs s) \<ge> snd s"
proof (induction cs arbitrary: s)
  case (Cons c cs) show ?case using pick_mono [of s c] Cons [of "pick c s"] by simp
qed simp

lemma pick_fold_best:
  "fold pick cs (best, lsn) = (b, n) \<Longrightarrow>
     (b = best \<and> n = lsn) \<or> (\<exists>i. b = Some i \<and> CReplayLSN i (Inr n) \<in> set cs \<and> 0 < n)"
proof (induction cs arbitrary: best lsn)
  case (Cons c cs)
  then show ?case using pick_cases [of c best lsn] by fastforce
qed simp

lemma pick_fold_max: "CReplayLSN j (Inr m) \<in> set cs \<Longrightarrow> m \<le> 0 \<or> m \<le> snd (fold pick cs s)"
proof (induction cs arbitrary: s)
  case (Cons c cs)
  show ?case
  proof (cases "c = CReplayLSN j (Inr m)")
    case True
    then have "m \<le> 0 \<or> m \<le> snd (pick c s)" by (cases s) auto
    then show ?thesis using pick_fold_mono [of "pick c s" cs] by auto
  qed (use Cons in auto)
qed simp

text \<open>The most advanced position reported in an election is the elected replica's.\<close>

lemma elected_best:
  assumes "fst (fold pick E (None, 0)) = Some i"
  obtains n where "CReplayLSN i (Inr n) \<in> set E" "0 < n" "\<And>j m. CReplayLSN j (Inr m) \<in> set E \<Longrightarrow> m \<le> n"
proof -
  obtain n where f: "fold pick E (None, 0) = (Some i, n)" using assms by (metis prod.collapse)
  then have n: "CReplayLSN i (Inr n) \<in> set E" "0 < n" using pick_fold_best [OF f] by auto
  have "m \<le> n" if "CReplayLSN j (Inr m) \<in> set E" for j m
    using pick_fold_max [OF that, of "(None, 0)"] f n(2) by auto
  with n show ?thesis by (rule that)
qed

lemma unique_split:
  assumes "xs @ [x] @ ys = pre @ [y] @ post" "Q x" "Q y" "\<forall>z\<in>set xs \<union> set ys. \<not> Q z"
  shows "xs = pre \<and> x = y \<and> ys = post"
proof -
  from assms(1) consider us where "xs = pre @ y # us" | "xs = pre" "x = y" "ys = post" | us where "pre = xs @ x # us" "ys = us @ y # post"
    by (auto simp: append_eq_append_conv2 append_eq_Cons_conv Cons_eq_append_conv)
  then show ?thesis using assms by cases auto
qed

fun is_promote :: "call \<Rightarrow> bool" where
  "is_promote (CPromote _ _) = True"
| "is_promote _ = False"

lemma no_promote:
  "\<forall>c\<in>set (map2 CReachable rs bs). \<not> is_promote c" "list_all (probe rs) E \<Longrightarrow> \<forall>c\<in>set E. \<not> is_promote c"
  "\<forall>c\<in>set (fence_calls old). \<not> is_promote c" "list_all (aftermath rs i) T \<Longrightarrow> \<forall>c\<in>set T. \<not> is_promote c"
  by (auto simp: list_all_iff probe_def fence_calls_def split: option.splits)
    (auto simp: aftermath_def elim!: is_promote.elims)

lemma failover_shapeE:
  assumes "failover_shape old rs r cs"
  obtains bs E D where "cs = map2 CReachable rs bs @ E @ D" "length bs = length rs" "list_all (probe rs) E"
    "if length (filter (\<lambda>b. b) bs) < quorum_needed rs then E = [] \<and> D = []
     else (case fst (fold pick E (None, 0)) of None \<Rightarrow> D = [] | Some j \<Rightarrow> commit_shape old rs j r D)"
proof -
  from assms obtain bs D where D: "length bs = length rs" "cs = map2 CReachable rs bs @ D"
    "if length (filter (\<lambda>b. b) bs) < quorum_needed rs then isl r \<and> D = [] else elect_shape old rs r D"
    unfolding failover_shape_def by blast
  show ?thesis
  proof (cases "length (filter (\<lambda>b. b) bs) < quorum_needed rs")
    case True with D that [of bs "[]" "[]"] show ?thesis by simp
  next
    case False
    with D(3) obtain E D' where "D = E @ D'" "list_all (probe rs) E"
      "case fst (fold pick E (None, 0)) of None \<Rightarrow> isl r \<and> D' = [] | Some i \<Rightarrow> commit_shape old rs i r D'"
      unfolding elect_shape_def by auto
    with D False that [of bs E D'] show ?thesis by (simp split: option.splits)
  qed
qed

text \<open>Everything before and after a promotion in the log of a failover.\<close>

lemma promote_split:
  assumes "failover_shape old rs r cs" "cs = pre @ [CPromote i ok] @ post"
  obtains bs E where "pre = map2 CReachable rs bs @ E @ fence_calls old" "length bs = length rs"
    "quorum_needed rs \<le> length (filter (\<lambda>b. b) bs)" "list_all (probe rs) E"
    "fst (fold pick E (None, 0)) = Some i" "list_all (aftermath rs i) post" "ok = (r = Inr ())"
proof -
  from assms(1) obtain bs E D where cs: "cs = map2 CReachable rs bs @ E @ D" "length bs = length rs" "list_all (probe rs) E"
    and sh: "if length (filter (\<lambda>b. b) bs) < quorum_needed rs then E = [] \<and> D = []
             else (case fst (fold pick E (None, 0)) of None \<Rightarrow> D = [] | Some j \<Rightarrow> commit_shape old rs j r D)"
    by (rule failover_shapeE)
  let ?QE = "map2 CReachable rs bs @ E"
  have np: "\<forall>c\<in>set ?QE. \<not> is_promote c" 
    using no_promote(1) [of rs bs] no_promote(2) [OF cs(3)] unfolding set_append by blast
  have "CPromote i ok \<in> set ?QE \<union> set D" using assms(2) cs(1) by (metis append_assoc in_set_conv_decomp append_Cons append_Nil set_append)
  with np have "CPromote i ok \<in> set D" by (metis Un_iff is_promote.simps(1))
  with sh obtain j T b where D: "D = fence_calls old @ [CPromote j b] @ T" "list_all (aftermath rs j) T" "b = (r = Inr ())"
    "fst (fold pick E (None, 0)) = Some j" "quorum_needed rs \<le> length (filter (\<lambda>b. b) bs)"
    by (auto simp: commit_shape_def not_less isl_def split: if_splits option.splits) blast
  have "(?QE @ fence_calls old) @ [CPromote j b] @ T = pre @ [CPromote i ok] @ post" using assms(2) cs(1) D(1) by simp
  moreover have "\<forall>c\<in>set (?QE @ fence_calls old) \<union> set T. \<not> is_promote c"
    using np no_promote(3) [of old] no_promote(4) [OF D(2)] unfolding set_append by blast
  ultimately have "?QE @ fence_calls old = pre \<and> CPromote j b = CPromote i ok \<and> T = post"
    by (intro unique_split [where Q = is_promote]) auto
  with D cs show ?thesis by (auto intro: that)
qed

lemma reclone_promoted:
  assumes "failover_shape old rs r cs" "CReclone j ok \<in> set cs"
  shows "r = Inr () \<and> (\<exists>pre i post. cs = pre @ [CPromote i True] @ post)"
proof -
  have "CReclone j ok \<notin> set (map2 CReachable rs bs)" "list_all (probe rs) E \<Longrightarrow> CReclone j ok \<notin> set E"
    "CReclone j ok \<notin> set (fence_calls old)" for bs E
    by (auto simp: list_all_iff probe_def fence_calls_def split: option.splits)
  with assms show ?thesis
    unfolding failover_shape_def elect_shape_def commit_shape_def
    by (auto split: if_splits option.splits simp del: set_map) (metis append_assoc)+
qed

lemma failover_success:
  assumes "failover_shape old rs r cs" "r = Inr ()"
  shows "\<exists>pre i post. cs = pre @ [CPromote i True] @ post"
  using assms unfolding failover_shape_def elect_shape_def commit_shape_def
  by (auto split: if_splits option.splits simp del: set_map) (metis append_assoc)+

lemma failover_calls:
  "ct_prov ctl = traced P \<Longrightarrow> failover ctl clu old rs w = (r, w') \<Longrightarrow>
   \<exists>cs. snd (env w') = snd (env w) @ cs \<and> failover_shape old rs r cs"
  using emitsD [OF traced_log.failover_log] by blast

text \<open>
  C1. A failover promotes at most one node, which is one of the cluster's replicas, and only
  after a quorum of the members answered its probes and the old primary, when there is one,
  was fenced successfully; when the failover reports success, a promotion has succeeded. This
  holds for every behaviour of the machines and every failing database statement.
\<close>

theorem promotion_is_safe:
  assumes "ct_prov ctl = traced P" "failover ctl clu oldPrimary replicas w = (r, w')"
  shows "\<exists>cs. snd (env w') = snd (env w) @ cs \<and> (r = Inr () \<longrightarrow> (\<exists>i. CPromote i True \<in> set cs)) \<and>
    (\<forall>pre i ok post. cs = pre @ [CPromote i ok] @ post \<longrightarrow>
       i \<in> set replicas \<and>
       (\<forall>p. oldPrimary = Some p \<longrightarrow> CFence p True \<in> set pre) \<and>
       (\<exists>bs. length bs = length replicas \<and> quorum_needed replicas \<le> length (filter (\<lambda>b. b) bs) \<and>
             take (length replicas) pre = map2 CReachable replicas bs) \<and>
       (\<forall>j b. CPromote j b \<notin> set pre \<union> set post))"
proof -
  obtain cs where cs: "snd (env w') = snd (env w) @ cs" "failover_shape oldPrimary replicas r cs"
    using failover_calls [OF assms] by blast
  have "i \<in> set replicas \<and> (\<forall>p. oldPrimary = Some p \<longrightarrow> CFence p True \<in> set pre) \<and>
       (\<exists>bs. length bs = length replicas \<and> quorum_needed replicas \<le> length (filter (\<lambda>b. b) bs) \<and>
             take (length replicas) pre = map2 CReachable replicas bs) \<and>
       (\<forall>j b. CPromote j b \<notin> set pre \<union> set post)"
    if "cs = pre @ [CPromote i ok] @ post" for pre i ok post
  proof -
    from promote_split [OF cs(2) that] obtain bs E where
      pre: "pre = map2 CReachable replicas bs @ E @ fence_calls oldPrimary" "length bs = length replicas"
        "quorum_needed replicas \<le> length (filter (\<lambda>b. b) bs)" "list_all (probe replicas) E"
        "fst (fold pick E (None, 0)) = Some i" "list_all (aftermath replicas i) post" by blast
    have "i \<in> set replicas" using elected_best [OF pre(5)] pre(4) by (fastforce simp: list_all_iff probe_def)
    moreover have "\<forall>c\<in>set pre \<union> set post. \<not> is_promote c"
      using no_promote(1) [of replicas bs] no_promote(2) [OF pre(4)] no_promote(3) [of oldPrimary] no_promote(4) [OF pre(6)]
      unfolding pre(1) set_append by blast
    then have "\<forall>j b. CPromote j b \<notin> set pre \<union> set post" by (metis is_promote.simps(1))
    moreover have "take (length replicas) pre = map2 CReachable replicas bs" using pre(1,2) by simp
    moreover have "oldPrimary = Some p \<Longrightarrow> CFence p True \<in> set pre" for p using pre(1) by (simp add: fence_calls_def)
    ultimately show ?thesis using pre(2,3) by blast
  qed
  moreover have "r = Inr () \<longrightarrow> (\<exists>i. CPromote i True \<in> set cs)"
    using failover_success [OF cs(2)] by fastforce
  ultimately show ?thesis using cs(1) by blast
qed


text \<open>
  A failover wipes the data of a replica only after a promotion succeeded, and never of
  the promoted node: no path through it destroys the last good copy of the data.
\<close>

theorem reclone_only_after_promotion:
  assumes "ct_prov ctl = traced P" "failover ctl clu oldPrimary replicas w = (r, w')"
  shows "\<exists>cs. snd (env w') = snd (env w) @ cs \<and>
    (\<forall>pre j ok post. cs = pre @ [CReclone j ok] @ post \<longrightarrow>
       j \<in> set replicas \<and> (\<exists>i\<in>set replicas. CPromote i True \<in> set pre \<and> i_ID i \<noteq> i_ID j))"
proof -
  obtain cs where cs: "snd (env w') = snd (env w) @ cs" "failover_shape oldPrimary replicas r cs"
    using failover_calls [OF assms] by blast
  have "j \<in> set replicas \<and> (\<exists>i\<in>set replicas. CPromote i True \<in> set pre \<and> i_ID i \<noteq> i_ID j)"
    if split: "cs = pre @ [CReclone j ok] @ post" for pre j ok post
  proof -
    have "CReclone j ok \<in> set cs" using split by simp
    then obtain pre' i post' where cs': "cs = pre' @ [CPromote i True] @ post'" "r = Inr ()"
      using cs(2) reclone_promoted by blast
    from promote_split [OF cs(2) cs'(1)] obtain bs E where
      p: "pre' = map2 CReachable replicas bs @ E @ fence_calls oldPrimary" "list_all (probe replicas) E"
        "fst (fold pick E (None, 0)) = Some i" "list_all (aftermath replicas i) post'" by blast
    have "CReclone j ok \<notin> set (pre' @ [CPromote i True])"
      using p(1,2) by (auto simp: list_all_iff probe_def fence_calls_def split: option.splits)
    then obtain us where us: "pre = pre' @ [CPromote i True] @ us" "CReclone j ok \<in> set post'"
      using split cs'(1) by (auto simp: append_eq_append_conv2 append_eq_Cons_conv Cons_eq_append_conv)
    then have "aftermath replicas i (CReclone j ok)" using p(4) by (auto simp: list_all_iff)
    moreover have "i \<in> set replicas" using elected_best [OF p(3)] p(2) by (fastforce simp: list_all_iff probe_def)
    ultimately show ?thesis using us(1) by (auto simp: aftermath_def)
  qed
  with cs(1) show ?thesis by blast
qed

section \<open>Strikes\<close>

lemma strikes_of_update: "strikes_of (AList.update k n fs) cid = (if cid = k then n else strikes_of fs cid)"
  by (simp add: strikes_of_def update_conv')

text \<open>The outcome of one check: nothing, a reset, one more strike, or a failover.\<close>

definition check_shape ::
    "int \<Rightarrow> int \<Rightarrow> int \<Rightarrow> call list \<Rightarrow> bool" where
  "check_shape threshold n n' cs \<longleftrightarrow>
     (n' = n \<and> cs = []) \<or>
     (n' = 0 \<and> (\<exists>p. cs = [CReachable p True])) \<or>
     (\<exists>down. (down = [] \<or> (\<exists>p. down = [CReachable p False])) \<and>
        ((n' = n + 1 \<and> n + 1 < threshold \<and> cs = down) \<or>
         (n' = 0 \<and> threshold \<le> n + 1 \<and> (\<exists>old rs r D. failover_shape old rs r D \<and> cs = down @ D))))"

lemma check_cluster_calls:
  assumes "ct_prov ctl = traced P" "check_cluster ctl clu (fs, w) = (fs', w')"
  shows "\<exists>cs. snd (env w') = snd (env w) @ cs \<and>
      check_shape (ct_threshold ctl) (strikes_of fs (c_ID clu)) (strikes_of fs' (c_ID clu)) cs \<and>
      (\<forall>cid. cid \<noteq> c_ID clu \<longrightarrow> strikes_of fs' cid = strikes_of fs cid) \<and>
      (cs \<noteq> [] \<longrightarrow> c_Status clu = CStatusRunning \<or> c_Status clu = CStatusDegraded)"
proof (cases "c_Status clu \<noteq> CStatusRunning \<and> c_Status clu \<noteq> CStatusDegraded")
  case True with assms(2) show ?thesis by (simp add: check_cluster_def check_shape_def)
next
  case st: False
  obtain a w1 where ls: "onD (instance_ListByCluster (c_ID clu)) w = (a, w1)" by fastforce
  then have w1: "snd (env w1) = snd (env w)" by (auto dest: onD_result)
  show ?thesis
  proof (cases a)
    case (Inl e) with assms(2) st ls w1 show ?thesis by (simp add: check_cluster_def check_shape_def)
  next
    case (Inr ms)
    obtain old rs where sp: "splitMembers ms = (old, rs)" by fastforce
    obtain up w2 where up: "(case old of None \<Rightarrow> (False, w1) | Some p \<Rightarrow> pm_PrimaryReachable (ct_prov ctl) p w1) = (up, w2)"
      by fastforce
    have "\<exists>down. snd (env w2) = snd (env w1) @ down \<and>
        (if up then \<exists>p. down = [CReachable p True] else down = [] \<or> (\<exists>p. down = [CReachable p False]))"
      using up assms(1) emitsD [OF traced_log.log_Reachable, of P _ w1 up w2] by (auto split: option.splits)
    then obtain down where down: "snd (env w2) = snd (env w) @ down"
      "if up then \<exists>p. down = [CReachable p True] else down = [] \<or> (\<exists>p. down = [CReachable p False])"
      using w1 by auto
    obtain r w3 where fo: "failover ctl clu old rs w2 = (r, w3)" by fastforce
    then obtain D where D: "snd (env w3) = snd (env w2) @ D" "failover_shape old rs r D"
      using failover_calls [OF assms(1) fo] by blast
    have run: "(fs', w') = (if up then (AList.update (c_ID clu) 0 fs, w2)
        else if strikes_of fs (c_ID clu) + 1 < ct_threshold ctl
          then (AList.update (c_ID clu) (strikes_of fs (c_ID clu) + 1) fs, w2)
          else (AList.update (c_ID clu) 0 fs, w3))"
      using assms(2) st ls Inr sp up fo by (auto simp: check_cluster_def Let_def)
    show ?thesis
    proof (cases up)
      case True with run down st show ?thesis
        by (intro exI [of _ down]) (auto simp: check_shape_def strikes_of_update)
    next
      case False
      show ?thesis
      proof (cases "strikes_of fs (c_ID clu) + 1 < ct_threshold ctl")
        case True with run down st False show ?thesis
          by (intro exI [of _ down]) (auto simp: check_shape_def strikes_of_update)
      next
        case over: False
        then have "check_shape (ct_threshold ctl) (strikes_of fs (c_ID clu)) 0 (down @ D)"
          using down(2) False D(2) unfolding check_shape_def by (metis not_less)
        with run down D st False over show ?thesis
          by (intro exI [of _ "down @ D"]) (auto simp: strikes_of_update)
      qed
    qed
  qed
qed

text \<open>
  What a check of one cluster may do, against its count of failed checks: it leaves the
  cluster alone; or the primary answers, which clears the count; or the primary is missing or
  does not answer, which adds one to the count and, below the threshold, does nothing else;
  or that failure makes the threshold, and only then may anything be fenced, promoted or
  wiped, after which the count starts again from zero. Other clusters' counts are untouched.
\<close>

theorem strikes_gate_failover:
  assumes "ct_prov ctl = traced P" "check_cluster ctl clu (fs, w) = (fs', w')"
  shows "\<exists>cs. snd (env w') = snd (env w) @ cs \<and>
      (\<forall>cid. cid \<noteq> c_ID clu \<longrightarrow> strikes_of fs' cid = strikes_of fs cid) \<and>
      ((cs = [] \<and> strikes_of fs' (c_ID clu) = strikes_of fs (c_ID clu)) \<or>
       (\<exists>p. cs = [CReachable p True] \<and> strikes_of fs' (c_ID clu) = 0) \<or>
       (\<exists>down D. (down = [] \<or> (\<exists>p. down = [CReachable p False])) \<and> cs = down @ D \<and>
          (if strikes_of fs (c_ID clu) + 1 < ct_threshold ctl
           then D = [] \<and> strikes_of fs' (c_ID clu) = strikes_of fs (c_ID clu) + 1
           else strikes_of fs' (c_ID clu) = 0)))"
proof -
  obtain cs where cs: "snd (env w') = snd (env w) @ cs"
      "check_shape (ct_threshold ctl) (strikes_of fs (c_ID clu)) (strikes_of fs' (c_ID clu)) cs"
      "\<forall>cid. cid \<noteq> c_ID clu \<longrightarrow> strikes_of fs' cid = strikes_of fs cid"
    using check_cluster_calls [OF assms] by blast
  from cs(2) consider "cs = []" "strikes_of fs' (c_ID clu) = strikes_of fs (c_ID clu)"
    | p where "cs = [CReachable p True]" "strikes_of fs' (c_ID clu) = 0"
    | down where "down = [] \<or> (\<exists>p. down = [CReachable p False])" "cs = down"
        "strikes_of fs (c_ID clu) + 1 < ct_threshold ctl" "strikes_of fs' (c_ID clu) = strikes_of fs (c_ID clu) + 1"
    | down D where "down = [] \<or> (\<exists>p. down = [CReachable p False])" "cs = down @ D"
        "\<not> strikes_of fs (c_ID clu) + 1 < ct_threshold ctl" "strikes_of fs' (c_ID clu) = 0"
    unfolding check_shape_def by (metis not_less)
  then show ?thesis
  proof cases
    case (3 down)
    then have "cs = down @ []" by simp
    with 3 cs(1,3) show ?thesis by metis
  qed (use cs(1,3) in auto)
qed

text \<open>All counts stay below the threshold, over any number of passes.\<close>

definition strikes_ok :: "int \<Rightarrow> strikes \<Rightarrow> bool" where
  "strikes_ok threshold fs \<longleftrightarrow> (\<forall>cid. 0 \<le> strikes_of fs cid \<and> strikes_of fs cid < threshold) \<and> distinct (map fst fs)"

lemma strikes_ok_update: "strikes_ok t fs \<Longrightarrow> 0 \<le> n \<Longrightarrow> n < t \<Longrightarrow> strikes_ok t (AList.update k n fs)"
  by (simp add: strikes_ok_def strikes_of_update distinct_update)

lemma check_cluster_strikes:
  "fst (check_cluster ctl clu (fs, w)) = fs \<or> fst (check_cluster ctl clu (fs, w)) = AList.update (c_ID clu) 0 fs \<or>
   (strikes_of fs (c_ID clu) + 1 < ct_threshold ctl \<and>
    fst (check_cluster ctl clu (fs, w)) = AList.update (c_ID clu) (strikes_of fs (c_ID clu) + 1) fs)"
  by (auto simp: check_cluster_def Let_def split: prod.splits sum.splits)

lemma check_cluster_ok: "strikes_ok (ct_threshold ctl) fs \<Longrightarrow> strikes_ok (ct_threshold ctl) (fst (check_cluster ctl clu (fs, w)))"
proof -
  assume ok: "strikes_ok (ct_threshold ctl) fs"
  then have n: "0 \<le> strikes_of fs (c_ID clu)" "strikes_of fs (c_ID clu) < ct_threshold ctl" by (simp_all add: strikes_ok_def)
  then have "0 < ct_threshold ctl" by linarith
  then have "strikes_ok (ct_threshold ctl) (AList.update (c_ID clu) 0 fs)" using ok by (intro strikes_ok_update) auto
  moreover have "strikes_of fs (c_ID clu) + 1 < ct_threshold ctl \<Longrightarrow>
      strikes_ok (ct_threshold ctl) (AList.update (c_ID clu) (strikes_of fs (c_ID clu) + 1) fs)"
    using ok n by (intro strikes_ok_update) auto
  ultimately show ?thesis using check_cluster_strikes [of ctl clu fs w] ok by metis
qed

lemma checks_ok: "strikes_ok (ct_threshold ctl) (fst s) \<Longrightarrow> strikes_ok (ct_threshold ctl) (fst (fold (check_cluster ctl) clus s))"
proof (induction clus arbitrary: s)
  case (Cons clu clus)
  have "strikes_ok (ct_threshold ctl) (fst (check_cluster ctl clu s))"
    using check_cluster_ok [of ctl "fst s" clu "snd s"] Cons.prems by simp
  then show ?case using Cons.IH by simp
qed simp

lemma strikes_ok_filter: "strikes_ok t fs \<Longrightarrow> strikes_ok t (filter (\<lambda>(cid, n). cid \<in> K) fs)"
proof -
  assume ok: "strikes_ok t fs"
  have d: "distinct (map fst (filter (\<lambda>(cid, n). cid \<in> K) fs))"
    using ok by (simp add: strikes_ok_def distinct_map_filter)
  have "strikes_of (filter (\<lambda>(cid, n). cid \<in> K) fs) cid \<in> {0, strikes_of fs cid}" for cid
  proof (cases "cid \<in> K")
    case True then have "map_of (filter (\<lambda>(cid, n). cid \<in> K) fs) cid = map_of fs cid" by (induction fs) auto
    then show ?thesis by (simp add: strikes_of_def)
  next
    case False then have "map_of (filter (\<lambda>(cid, n). cid \<in> K) fs) cid = None" by (induction fs) auto
    then show ?thesis by (simp add: strikes_of_def)
  qed
  moreover have "0 \<le> strikes_of fs cid \<and> strikes_of fs cid < t" for cid using ok by (simp add: strikes_ok_def)
  ultimately show ?thesis using d unfolding strikes_ok_def by (metis empty_iff insert_iff le_less_trans order_refl)
qed

text \<open>
  Strike counts stay between zero and the threshold over any number of passes, and a
  completed pass keeps counts only for the clusters it listed: the table never grows beyond
  the live clusters, and no cluster can be counted past the threshold without a failover.
\<close>

theorem Run_strikes_bounded:
  assumes "strikes_ok (ct_threshold ctl) fs" "Run ctl (fs, w) = (r, (fs', w'))"
  shows "strikes_ok (ct_threshold ctl) fs' \<and>
         (r = Inr () \<longrightarrow> (\<exists>clus. fst (onD cluster_List w) = Inr clus \<and> fst ` set fs' \<subseteq> c_ID ` set clus))"
proof -
  obtain a w1 where ls: "onD cluster_List w = (a, w1)" by fastforce
  show ?thesis
  proof (cases a)
    case (Inl e) with assms ls show ?thesis by (auto simp: Run_def)
  next
    case (Inr clus)
    have "strikes_ok (ct_threshold ctl) (fst (fold (check_cluster ctl) clus (fs, w1)))"
      by (rule checks_ok) (simp add: assms(1))
    moreover have "fs' = filter (\<lambda>(cid, n). cid \<in> c_ID ` set clus) (fst (fold (check_cluster ctl) clus (fs, w1)))"
      using assms(2) ls Inr by (auto simp: Run_def split: prod.splits)
    ultimately show ?thesis using ls Inr strikes_ok_filter by auto
  qed
qed

section \<open>A run\<close>

text \<open>Three members \<open>a\<close> (the primary), \<open>b\<close> and \<open>c\<close>; \<open>c\<close> has replayed the most.\<close>

definition demo_promoter :: "unit world Promoter" where
  "demo_promoter = \<lparr>
     pm_PrimaryReachable = (\<lambda>i w. (i_Name i \<noteq> ''a'', w)),
     pm_ReplayLSN = (\<lambda>i. ret (if i_Name i = ''c'' then 7 else 5)),
     pm_Promote = (\<lambda>i. ret ()), pm_Fence = (\<lambda>i. ret ()), pm_PrepareReclone = (\<lambda>i. ret ()),
     pm_ProvisionReplica = (\<lambda>rid i. ret ()), pm_StartRouter = (\<lambda>s. ret (''router'', 6432)),
     pm_RemoveContainer = (\<lambda>c f. ret ())\<rparr>"

definition demo_member :: "string \<Rightarrow> Role \<Rightarrow> Instance" where
  "demo_member name role = demo_instance name ''k'' role"

definition demo_cluster :: Cluster where
  "demo_cluster = \<lparr>c_ID = ''k'', c_Name = ''k'', c_Status = CStatusRunning, c_PrimaryInstanceID = ''a'',
     c_RouterContainerID = [], c_RouterPort = 0, c_LastError = [], c_PoolMode = ''transaction''\<rparr>"

definition demo_controller :: "(unit \<times> call list) Controller" where
  "demo_controller = New_Controller (traced demo_promoter) tagged_lib demo_key False 1 demo_key"

definition demo_cluster_world :: "(unit \<times> call list) world" where
  "demo_cluster_world = \<lparr>env = ((), []), db = demo_db
      \<lparr>instances := [demo_member ''a'' RolePrimary, demo_member ''b'' RoleReplica, demo_member ''c'' RoleReplica],
       clusters := [demo_cluster]\<rparr>, stampCounter = 0\<rparr>"

lemma demo_controller_simps [simp]:
  "ct_prov demo_controller = traced demo_promoter" "ct_events demo_controller = False" "ct_threshold demo_controller = 1"
  "ct_lib demo_controller = tagged_lib" "ct_kek demo_controller = demo_key"
  by (simp_all add: demo_controller_def New_Controller_def)

lemma demo_promoter_run:
  "pm_PrimaryReachable (traced demo_promoter) i = logged (CReachable i) (\<lambda>w. (i_Name i \<noteq> ''a'', w))"
  "pm_ReplayLSN (traced demo_promoter) i = logged (CReplayLSN i) (ret (if i_Name i = ''c'' then 7 else 5))"
  "pm_Promote (traced demo_promoter) i = logged (CPromote i \<circ> is_ok) (ret ())"
  "pm_Fence (traced demo_promoter) i = logged (CFence i \<circ> is_ok) (ret ())"
  "pm_StartRouter (traced demo_promoter) sp = logged (CRouter sp \<circ> is_ok) (ret (''router'', 6432))"
  by (simp_all add: traced_def demo_promoter_def)

text \<open>A failover of the three members promotes \<open>c\<close>.\<close>

lemma demo_member_simps [simp]: "i_Name (demo_member n r) = n" "i_ID (demo_member n r) = n" "i_Role (demo_member n r) = r"
  by (simp_all add: demo_member_def demo_instance_def)

abbreviation "demo_a \<equiv> demo_member ''a'' RolePrimary"
abbreviation "demo_b \<equiv> demo_member ''b'' RoleReplica"
abbreviation "demo_c \<equiv> demo_member ''c'' RoleReplica"

lemma demo_failover:
  "\<exists>w' T. failover demo_controller demo_cluster (Some demo_a) [demo_b, demo_c] demo_cluster_world = (Inr (), w') \<and>
    snd (env w') = [CReachable demo_b True, CReachable demo_c True, CReachable demo_b True, CReplayLSN demo_b (Inr 5),
      CReachable demo_c True, CReplayLSN demo_c (Inr 7), CFence demo_a True, CPromote demo_c True] @ T"
proof -
  let ?w = "demo_cluster_world\<lparr>env := ((), [CReachable demo_b True, CReachable demo_c True, CReachable demo_b True,
      CReplayLSN demo_b (Inr 5), CReachable demo_c True, CReplayLSN demo_c (Inr 7), CFence demo_a True, CPromote demo_c True])\<rparr>"
  have "failover demo_controller demo_cluster (Some demo_a) [demo_b, demo_c] demo_cluster_world =
      failover_finish demo_controller demo_cluster (Some demo_a) demo_c [demo_b, demo_c] ?w"
    by (simp add: failover_def prog_run demo_promoter_run logged_def untraced_def
        quorum_needed_def elect_def fence_old_def promote_new_def is_ok_def demo_cluster_world_def)
  moreover obtain r w' where r: "failover_finish demo_controller demo_cluster (Some demo_a) demo_c [demo_b, demo_c] ?w = (r, w')"
    by fastforce
  ultimately show ?thesis
    using emitsD [OF traced_log.failover_finish_log [OF demo_controller_simps(1)] r] by auto
qed

theorem promotion_is_safe_witness:
  "\<exists>r w' cs pre post. failover demo_controller demo_cluster (Some demo_a) [demo_b, demo_c] demo_cluster_world = (r, w') \<and>
     snd (env w') = cs \<and> cs = pre @ [CPromote demo_c True] @ post \<and> CFence demo_a True \<in> set pre \<and>
     (\<forall>j b. CPromote j b \<notin> set pre \<union> set post)"
proof -
  obtain w' T where run: "failover demo_controller demo_cluster (Some demo_a) [demo_b, demo_c] demo_cluster_world = (Inr (), w')"
    and lg: "snd (env w') = [CReachable demo_b True, CReachable demo_c True, CReachable demo_b True, CReplayLSN demo_b (Inr 5),
      CReachable demo_c True, CReplayLSN demo_c (Inr 7), CFence demo_a True] @ [CPromote demo_c True] @ T"
    using demo_failover by auto
  have "snd (env demo_cluster_world) = []" by (simp add: demo_cluster_world_def)
  with promotion_is_safe [OF demo_controller_simps(1) run] lg show ?thesis
    using run by (intro exI conjI) (rule run, rule lg, rule refl, auto)
qed


theorem reclone_only_after_promotion_witness:
  "\<exists>r w' cs. failover demo_controller demo_cluster (Some demo_a) [demo_b, demo_c] demo_cluster_world = (r, w') \<and>
     snd (env w') = cs \<and> (\<forall>pre j ok post. cs = pre @ [CReclone j ok] @ post \<longrightarrow> CPromote demo_c True \<in> set pre \<or> CPromote demo_b True \<in> set pre)"
proof -
  obtain w' T where run: "failover demo_controller demo_cluster (Some demo_a) [demo_b, demo_c] demo_cluster_world = (Inr (), w')"
    using demo_failover by auto
  have w0: "snd (env demo_cluster_world) = []" by (simp add: demo_cluster_world_def)
  from reclone_only_after_promotion [OF demo_controller_simps(1) run, unfolded w0 append_Nil] run show ?thesis
    by (intro exI [of _ "Inr ()"] exI [of _ w'] exI [of _ "snd (env w')"]) fastforce
qed

theorem strikes_gate_failover_witness:
  "\<exists>fs' w'. check_cluster demo_controller demo_cluster ([], demo_cluster_world) = (fs', w') \<and>
     (\<forall>cid. cid \<noteq> ''k'' \<longrightarrow> strikes_of fs' cid = 0)"
proof -
  obtain fs' w' where run: "check_cluster demo_controller demo_cluster ([], demo_cluster_world) = (fs', w')" by fastforce
  from strikes_gate_failover [OF demo_controller_simps(1) run] run show ?thesis
    by (auto simp: demo_cluster_def strikes_of_def)
qed

theorem Run_strikes_bounded_witness:
  "\<exists>r fs' w'. Run demo_controller ([(''k'', 0)], demo_cluster_world) = (r, (fs', w')) \<and> strikes_ok 1 fs'"
proof -
  obtain r fs' w' where run: "Run demo_controller ([(''k'', 0)], demo_cluster_world) = (r, (fs', w'))" by (metis prod.exhaust)
  have "strikes_ok (ct_threshold demo_controller) [(''k'', 0)]" by (simp add: strikes_ok_def strikes_of_def)
  from Run_strikes_bounded [OF this run] run show ?thesis by auto
qed

end
