(* ===== verification/FailoverMeta.thy ===== *)
theory FailoverMeta
  imports FailoverTrace
begin

text \<open>
  What a failover leaves in the metadata: on success exactly one member of the cluster, the
  promoted replica, is recorded as its primary, both in its role and in the cluster's row,
  and nothing else changed its role; on failure no role and no cluster's primary changed.
  The promoter is any one that leaves roles and cluster rows to the controller, which is a
  locale, and the provisioner is proved to be one.
\<close>

section \<open>The recorded topology\<close>

definition roles :: "metadb \<Rightarrow> (string \<times> string \<times> Role) list" where
  "roles d = map (\<lambda>i. (i_ID i, i_ClusterID i, i_Role i)) (instances d)"

definition prims :: "metadb \<Rightarrow> (string \<times> string) list" where
  "prims d = map (\<lambda>c. (c_ID c, c_PrimaryInstanceID c)) (clusters d)"

text \<open>No statement is scheduled to fail, and the topology is \<open>(R, C)\<close>.\<close>

definition topo :: "(string \<times> string \<times> Role) list \<Rightarrow> (string \<times> string) list \<Rightarrow> metadb \<Rightarrow> bool" where
  "topo R C d \<longleftrightarrow> faults d = [] \<and> roles d = R \<and> prims d = C"

named_theorems topo_rules \<open>operations that keep the recorded topology\<close>

lemma keeps_topo_stmt: "(\<And>d. topo R C d \<Longrightarrow> topo R C (snd (m d))) \<Longrightarrow> keeps (topo R C) (stmt msg m)"
  by (auto simp: keeps_def stmt_def topo_def)

lemma topo_instance_exec:
  assumes "\<And>i. i_ID (up i) = i_ID i" "\<And>i. i_ClusterID (up i) = i_ClusterID i" "\<And>i. i_Role (up i) = i_Role i"
  shows "keeps (topo R C) (instance_exec up iid)"
  unfolding instance_exec_def
  by (rule keeps_topo_stmt) (auto simp: topo_def roles_def prims_def update_rows_def Let_def assms)

lemma topo_cluster_exec:
  assumes "\<And>c. c_ID (up c) = c_ID c" "\<And>c. c_PrimaryInstanceID (up c) = c_PrimaryInstanceID c"
  shows "keeps (topo R C) (cluster_exec up cid)"
  unfolding cluster_exec_def
  by (rule keeps_topo_stmt) (auto simp: topo_def roles_def prims_def Let_def assms)

lemma topo_setters [topo_rules]:
  "keeps (topo R C) (instance_SetPublic iid pub)" "keeps (topo R C) (instance_SetEncrypted iid enc)"
  "keeps (topo R C) (instance_SetStatus iid st le)" "keeps (topo R C) (instance_SetRuntime iid c p)"
  "keeps (topo R C) (instance_SetDataVolume iid v)" "keeps (topo R C) (cluster_SetRouter cid c p)"
  "keeps (topo R C) (cluster_SetStatus cid cst le)"
  by (simp_all add: instance_SetPublic_def instance_SetEncrypted_def instance_SetStatus_def instance_SetRuntime_def
      instance_SetDataVolume_def cluster_SetRouter_def cluster_SetStatus_def topo_instance_exec topo_cluster_exec)

lemma topo_queries [topo_rules]:
  "keeps (topo R C) (instance_Get iid)" "keeps (topo R C) (instance_Password lb kek iid)"
  unfolding instance_Get_def queryOne_def instance_Password_def
  by (rule keeps_topo_stmt; simp split: option.splits sum.splits)+

lemma topo_event [topo_rules]: "keeps (topo R C) (event_Record ne)"
  unfolding event_Record_def
  by (auto intro!: keeps_rules keeps_topo_stmt simp: event_insert_def Let_def topo_def roles_def prims_def)

lemma topo_shortStamp [topo_rules]: "keeps (\<lambda>w. I (db w)) (shortStamp h)"
  by (simp add: keeps_def shortStamp_def)

text \<open>The two updates that change it.\<close>

definition set_role :: "string \<Rightarrow> Role \<Rightarrow> (string \<times> string \<times> Role) list \<Rightarrow> (string \<times> string \<times> Role) list" where
  "set_role iid r R = map (\<lambda>(j, c, q). (j, c, if j = iid then r else q)) R"

definition set_prim :: "string \<Rightarrow> string \<Rightarrow> (string \<times> string) list \<Rightarrow> (string \<times> string) list" where
  "set_prim cid iid C = map (\<lambda>(c, q). (c, if c = cid then iid else q)) C"

definition single :: "(string \<times> string \<times> Role) list \<Rightarrow> bool" where
  "single R = distinct (map (\<lambda>(j, c, q). c) (filter (\<lambda>(j, c, q). q = RolePrimary \<and> c \<noteq> []) R))"

lemma one_primary_roles: "one_primary (instances d) = single (roles d)"
  by (simp add: one_primary_def single_def roles_def filter_map comp_def)

lemma ids_of_roles: "ids_of d = fst ` set (roles d)"
  by (force simp: ids_of_def roles_def image_iff)

lemma roles_update: "roles (d\<lparr>instances := update_rows iid (\<lambda>i. i\<lparr>i_Role := r\<rparr>) (instances d)\<rparr>) = set_role iid r (roles d)"
  by (simp add: roles_def set_role_def update_rows_def)

lemma fst_set_role [simp]: "fst ` set (set_role iid r R) = fst ` set R"
  by (force simp: set_role_def image_iff)

lemma SetRole_topo:
  assumes "iid \<in> fst ` set R" "single (set_role iid r R)" "topo R C d"
  shows "instance_SetRole iid r d = (Inr (), d\<lparr>instances := update_rows iid (\<lambda>i. i\<lparr>i_Role := r\<rparr>) (instances d)\<rparr>)"
    "topo (set_role iid r R) C (d\<lparr>instances := update_rows iid (\<lambda>i. i\<lparr>i_Role := r\<rparr>) (instances d)\<rparr>)"
proof -
  let ?d = "d\<lparr>instances := update_rows iid (\<lambda>i. i\<lparr>i_Role := r\<rparr>) (instances d)\<rparr>"
  have "one_primary (update_rows iid (\<lambda>i. i\<lparr>i_Role := r\<rparr>) (instances d))"
    using assms one_primary_roles [of ?d] roles_update [where d = d and iid = iid and r = r] by (simp add: topo_def)
  then show "instance_SetRole iid r d = (Inr (), ?d)"
    using assms by (simp add: instance_SetRole_def instance_exec_def stmt_def topo_def ids_of_roles)
  show "topo (set_role iid r R) C ?d"
    using assms roles_update [where d = d and iid = iid and r = r] by (simp add: topo_def prims_def)
qed

lemma SetPrimary_topo:
  assumes "cid \<in> fst ` set C" "iid \<in> fst ` set R" "\<forall>q\<in>snd ` set C. q = [] \<or> q \<in> fst ` set R" "topo R C d"
  shows "fst (cluster_SetPrimary cid iid d) = Inr () \<and> topo R (set_prim cid iid C) (snd (cluster_SetPrimary cid iid d))"
proof -
  have c: "cid \<in> c_ID ` set (clusters d)" using assms(1,4) by (force simp: topo_def prims_def)
  have k: "iid \<in> ids_of d" "\<forall>c\<in>set (clusters d). c_PrimaryInstanceID c = [] \<or> c_PrimaryInstanceID c \<in> ids_of d"
    using assms(2-4) unfolding ids_of_roles by (auto simp: topo_def prims_def)
  then have "list_all (\<lambda>c. c_PrimaryInstanceID c = [] \<or> c_PrimaryInstanceID c \<in> ids_of d)
      (map (\<lambda>c. if c_ID c = cid then c\<lparr>c_PrimaryInstanceID := iid\<rparr> else c) (clusters d))"
    by (auto simp: list_all_iff)
  then show ?thesis
    using c assms(4) by (auto simp: cluster_SetPrimary_def cluster_exec_def stmt_def topo_def Let_def prims_def set_prim_def roles_def)
qed

text \<open>A promoter that leaves the topology alone.\<close>

locale topology_promoter =
  fixes P :: "'e world Promoter"
  assumes topo_Reachable: "keeps (\<lambda>w. topo R C (db w)) (pm_PrimaryReachable P i)"
    and topo_ReplayLSN: "keeps (\<lambda>w. topo R C (db w)) (pm_ReplayLSN P i)"
    and topo_Promote: "keeps (\<lambda>w. topo R C (db w)) (pm_Promote P i)"
    and topo_Fence: "keeps (\<lambda>w. topo R C (db w)) (pm_Fence P i)"
    and topo_Reclone: "keeps (\<lambda>w. topo R C (db w)) (pm_PrepareReclone P i)"
    and topo_Replica: "keeps (\<lambda>w. topo R C (db w)) (pm_ProvisionReplica P rid i)"
    and topo_Router: "keeps (\<lambda>w. topo R C (db w)) (pm_StartRouter P s)"
    and topo_Remove: "keeps (\<lambda>w. topo R C (db w)) (pm_RemoveContainer P c f)"
begin

lemmas topo_calls = topo_Reachable topo_ReplayLSN topo_Promote topo_Fence topo_Reclone topo_Replica topo_Router topo_Remove

lemma topo_count: "keeps (\<lambda>w. topo R C (db w)) (count_reachable P rs)"
proof (induction rs)
  case (Cons r rs)
  then show ?case
    unfolding count_reachable_Cons by (intro keeps_rules topo_calls) (auto simp: keeps_def)
qed (simp add: keeps_def)

lemma topo_elect: "keeps (\<lambda>w. topo R C (db w)) (elect_loop P best bestLSN rs)"
proof (induction rs arbitrary: best bestLSN)
  case (Cons r rs)
  then show ?case unfolding elect_loop_Cons by (intro keeps_rules topo_calls)
qed (simp add: keeps_def)

lemma topo_record: "keeps (\<lambda>w. topo R C (db w)) (record_failover ctl clu m iid)"
  unfolding record_failover_def by (auto intro!: keeps_rules topo_rules)

lemma topo_controller:
  assumes "ct_prov ctl = P"
  shows "keeps (\<lambda>w. topo R C (db w)) (fence_old ctl clu old)"
    "keeps (\<lambda>w. topo R C (db w)) (promote_new ctl clu i)"
    "keeps (\<lambda>w. topo R C (db w)) (repointRouter ctl clu np names)"
    "keeps (\<lambda>w. topo R C (db w)) (reattach ctl pid np rs d names)"
proof -
  show "keeps (\<lambda>w. topo R C (db w)) (reattach ctl pid np rs d names)"
  proof (induction rs arbitrary: d names)
    case (Cons r rs) then show ?case
      by (auto simp: assms intro!: keeps_rules topo_rules topo_calls)
  qed (simp add: keeps_def)
qed (unfold fence_old_def promote_new_def repointRouter_def assms,
    (intro keeps_rules topo_rules topo_calls topo_record)+)

end

lemma keeps_onE'_db: "keeps (\<lambda>w. I (db w)) (onE' m)"
  by (simp add: keeps_def onE'_def split: prod.splits)

interpretation provisioner_topo: topology_promoter "provisioner_promoter p" for p :: "'e Provisioner"
proof -
  have rep: "keeps (\<lambda>w. topo R C (db w)) (ProvisionReplica p rid i)" for R C rid i
    unfolding ProvisionReplica_def record_outcome_def provisionReplica_def replica_resources_def replica_run_def
      runBaseBackup_def Let_def
    by (auto intro!: keeps_rules topo_rules)
  show "topology_promoter (provisioner_promoter p)"
    by unfold_locales
      (auto simp: provisioner_promoter_def Fence_def PrepareReclone_def Let_def
        intro!: keeps_rules topo_rules keeps_onE'_db rep)
qed

text \<open>Keeping the call log of theory \<open>FailoverTrace\<close> beside it changes nothing of this.\<close>

lemma topo_logged:
  fixes f :: "'a world \<Rightarrow> 'r \<times> 'a world"
  shows "keeps (\<lambda>w. topo R C (db w)) f \<Longrightarrow> keeps (\<lambda>w. topo R C (db w)) (logged c f)"
proof (rule keepsI)
  fix w :: "('a \<times> call list) world"
  assume f: "keeps (\<lambda>w. topo R C (db w)) f" and "topo R C (db w)"
  then have "topo R C (db (untraced w))" by (simp add: untraced_def)
  from keepsD [OF f this] have "topo R C (db (snd (f (untraced w))))" .
  then show "topo R C (db (snd (logged c f w)))" by (cases "f (untraced w)") (simp add: logged_def)
qed

interpretation traced_topo: topology_promoter "traced (provisioner_promoter p)" for p :: "'e Provisioner"
  by unfold_locales (simp_all add: traced_def topo_logged provisioner_topo.topo_calls)

section \<open>Recording the new primary\<close>

definition demoted :: "Instance option \<Rightarrow> (string \<times> string \<times> Role) list \<Rightarrow> (string \<times> string \<times> Role) list" where
  "demoted old R = (case old of None \<Rightarrow> R | Some p \<Rightarrow> set_role (i_ID p) RoleReplica R)"

lemma fst_demoted [simp]: "fst ` set (demoted old R) = fst ` set R"
  by (simp add: demoted_def split: option.splits)

lemma hoare_onD_topo:
  "(\<And>d. topo R C d \<Longrightarrow> Q (fst (m d)) (snd (m d))) \<Longrightarrow> hoare (\<lambda>w. topo R C (db w)) (onD m) (\<lambda>r w. Q r (db w))"
  by (simp add: hoare_def)

lemma hoare_assume: "(b \<Longrightarrow> hoare P m Q) \<Longrightarrow> hoare (\<lambda>s. b \<and> P s) m Q"
  by (auto simp: hoare_def)

lemma hoare_topoI: "keeps (\<lambda>w. topo R C (db w)) m \<Longrightarrow> hoare (\<lambda>w. topo R C (db w)) m (\<lambda>_ w. topo R C (db w))"
  by (simp add: keeps_hoare)

lemma hoare_SetStatus: "hoare (\<lambda>w. topo R C (db w)) (onD (instance_SetStatus iid st le)) (\<lambda>_ w. topo R C (db w))"
  by (intro hoare_topoI keeps_rules topo_rules)

lemma demote_old_topo:
  assumes "case old of None \<Rightarrow> True | Some p \<Rightarrow> i_ID p \<in> fst ` set R \<and> single (set_role (i_ID p) RoleReplica R)"
  shows "hoare (\<lambda>w. topo R C (db w)) (demote_old old) (\<lambda>r w. r = Inr () \<and> topo (demoted old R) C (db w))"
proof (cases old)
  case None then show ?thesis by (simp add: demote_old_def demoted_def hoare_def ret_def)
next
  case (Some p)
  have "hoare (\<lambda>w. topo R C (db w)) (ignoring (onD (instance_SetRole (i_ID p) RoleReplica)) (ret ()))
      (\<lambda>r w. r = Inr () \<and> topo (demoted old R) C (db w))"
  proof (rule hoare_ignoring [where R = "\<lambda>w. topo (demoted old R) C (db w)"], rule hoare_onD_topo)
    fix d assume d: "topo R C d"
    have a: "i_ID p \<in> fst ` set R" "single (set_role (i_ID p) RoleReplica R)" using assms Some by simp_all
    show "topo (demoted old R) C (snd (instance_SetRole (i_ID p) RoleReplica d))"
      using SetRole_topo [OF a d] Some by (simp add: demoted_def)
  qed (simp add: hoare_def ret_def)
  then show ?thesis
    unfolding demote_old_def Some option.case
    by (rule hoare_ignoring [OF hoare_SetStatus])
qed

lemma record_primary_topo:
  assumes "case old of None \<Rightarrow> True | Some p \<Rightarrow> i_ID p \<in> fst ` set R \<and> single (set_role (i_ID p) RoleReplica R)"
    and "i_ID i \<in> fst ` set R" "single (set_role (i_ID i) RolePrimary (demoted old R))"
    and "c_ID clu \<in> fst ` set C" "\<forall>q\<in>snd ` set C. q = [] \<or> q \<in> fst ` set R"
  shows "hoare (\<lambda>w. topo R C (db w)) (record_primary clu old i)
     (\<lambda>r w. r = Inr () \<and> topo (set_role (i_ID i) RolePrimary (demoted old R)) (set_prim (c_ID clu) (i_ID i) C) (db w))"
  (is "hoare ?P _ ?Q")
proof -
  let ?R = "set_role (i_ID i) RolePrimary (demoted old R)" and ?C = "set_prim (c_ID clu) (i_ID i) C"
  have prim: "hoare (\<lambda>w. topo ?R C (db w)) (onD (cluster_SetPrimary (c_ID clu) (i_ID i)))
      (\<lambda>r w. r = Inr () \<and> topo ?R ?C (db w))"
    by (rule hoare_onD_topo) (rule SetPrimary_topo, use assms in \<open>simp_all\<close>)
  have last: "hoare (\<lambda>w. topo ?R C (db w)) (attempt (onD (cluster_SetPrimary (c_ID clu) (i_ID i))) (\<lambda>primErr.
      if isl primErr then K primErr else ret ())) ?Q" for K
    by (rule hoare_attempt [OF prim]) (auto simp: hoare_def ret_def)
  have run: "hoare (\<lambda>w. topo ?R C (db w)) (ignoring (onD (instance_SetStatus (i_ID i) StatusRunning []))
      (attempt (onD (cluster_SetPrimary (c_ID clu) (i_ID i))) (\<lambda>primErr.
      if isl primErr then K primErr else ret ()))) ?Q" for K
    by (rule hoare_ignoring [OF hoare_SetStatus last])
  have role: "hoare (\<lambda>w. topo (demoted old R) C (db w)) (onD (instance_SetRole (i_ID i) RolePrimary))
      (\<lambda>r w. r = Inr () \<and> topo ?R C (db w))"
    by (rule hoare_onD_topo, subst (1 2) SetRole_topo(1)) (use assms SetRole_topo(2) in \<open>simp_all\<close>)
  show ?thesis
    unfolding record_primary_def
    by (rule hoare_bindE [OF demote_old_topo [OF assms(1)]], rule hoare_assume, rule hoare_attempt [OF role],
        rule hoare_assume) (simp_all add: run)
qed

section \<open>The whole failover\<close>

lemma elect_loop_mem: "fst (elect_loop P best bestLSN rs w) \<in> insert best (Some ` set rs)"
proof (induction rs arbitrary: best bestLSN w)
  case (Cons r rs)
  have "fst (elect_loop P best bestLSN rs w1) \<in> insert best (Some ` set (r # rs))"
    "fst (elect_loop P (Some r) bestLSN rs w1) \<in> insert best (Some ` set (r # rs))" for w1 bestLSN
    using Cons.IH [of best bestLSN w1] Cons.IH [of "Some r" bestLSN w1] by auto
  then show ?case by (auto split: prod.splits bool.splits sum.splits simp del: insert_iff)
qed simp

lemma failover_finish_Inr: "\<exists>w'. failover_finish ctl clu old i rs w = (Inr (), w')"
  by (simp add: failover_finish_def record_primary_def demote_old_def record_failover_def prog_run Let_def
      split: prod.split option.split sum.split)

context topology_promoter
begin

lemma failover_finish_topo:
  assumes "ct_prov ctl = P"
    and rp: "hoare (\<lambda>w. topo R C (db w)) (record_primary clu old i :: ('e world, unit) gofun) (\<lambda>r w. r = Inr () \<and> topo R' C' (db w))"
  shows "hoare (\<lambda>w. topo R C (db w)) (failover_finish ctl clu old i rs) (\<lambda>_ w. topo R' C' (db w))"
proof -
  have tail: "keeps (\<lambda>w. topo R' C' (db w)) (attempt (onD (instance_Get (i_ID i))) (\<lambda>g.
     let newPrimary = (case g of Inl _ \<Rightarrow> i | Inr x \<Rightarrow> x) in
     attempt (reattach ctl (i_ID i) newPrimary rs False []) (\<lambda>(degraded, reattached).
     attempt (repointRouter ctl clu newPrimary reattached) (\<lambda>rr.
     let degraded' = (degraded \<or> isl rr) in
     ignoring (onD (if degraded' then cluster_SetStatus (c_ID clu) CStatusDegraded ''failed over with degraded members''
                    else cluster_SetStatus (c_ID clu) CStatusRunning []))
       (record_failover ctl clu (''failover complete; new primary '' @ i_Name i) (i_ID i))))))"
    by (intro keeps_rules topo_rules topo_controller assms topo_record)
  show ?thesis
    unfolding failover_finish_def
    by (rule hoare_bindE [OF rp], rule hoare_assume, rule tail [unfolded keeps_hoare]) simp
qed

lemma failover_topo:
  assumes ctl: "ct_prov ctl = P"
    and rp: "\<And>i. i \<in> set rs \<Longrightarrow> hoare (\<lambda>w. topo R C (db w)) (record_primary clu old i :: ('e world, unit) gofun) (\<lambda>r w. r = Inr () \<and> topo (R' i) (C' i) (db w))"
  shows "hoare (\<lambda>w. topo R C (db w)) (failover ctl clu old rs)
     (\<lambda>r w. case r of Inl _ \<Rightarrow> topo R C (db w) | Inr _ \<Rightarrow> \<exists>i\<in>set rs. topo (R' i) (C' i) (db w))"
  (is "hoare ?P _ ?Q")
proof -
  have fin: "hoare ?P (failover_finish ctl clu old i rs) ?Q" if "i \<in> set rs" for i
  proof (rule hoareI)
    fix w assume "?P w"
    moreover obtain w' where "failover_finish ctl clu old i rs w = (Inr (), w')"
      using failover_finish_Inr by blast
    ultimately show "?Q (fst (failover_finish ctl clu old i rs w)) (snd (failover_finish ctl clu old i rs w))"
      using that hoareD [OF failover_finish_topo [OF ctl rp [OF that]], of w rs] by auto
  qed
  have commit: "hoare ?P (bindE (fence_old ctl clu old) (\<lambda>_. bindE (promote_new ctl clu i) (\<lambda>_. failover_finish ctl clu old i rs))) ?Q"
    if "i \<in> set rs" for i
    by (rule hoare_bindE [OF hoare_topoI [OF topo_controller(1) [OF ctl]]],
        rule hoare_bindE [OF hoare_topoI [OF topo_controller(2) [OF ctl]]]) (simp_all add: fin that)
  have abort: "hoare ?P (ignoring (onD (cluster_SetStatus c st le)) (bindE (record_failover ctl clu t iid) (\<lambda>_. fail err))) ?Q"
    for c st le t iid err
    by (rule hoare_ignoring [OF hoare_topoI], intro keeps_rules topo_rules, rule hoare_bindE [OF hoare_topoI [OF topo_record]])
      (simp_all add: hoare_def fail_def)
  have elected: "hoare ?P (elect P rs) (\<lambda>el w. el \<in> insert None (Some ` set rs) \<and> topo R C (db w))"
    using hoareD [OF hoare_topoI [OF topo_elect]] elect_loop_mem [of P None 0 rs] by (auto simp: hoare_def elect_def)
  show ?thesis
    unfolding failover_def ctl
    by (rule hoare_attempt [OF hoare_topoI [OF topo_count]], intro hoare_rules abort, rule hoare_attempt [OF elected], rule hoare_assume)
      (auto split: option.split intro: abort commit)
qed

end

text \<open>A failover that succeeds promoted the replica it records.\<close>

context topology_promoter
begin

lemma failover_path:
  assumes ctl: "ct_prov ctl = P" and t: "topo R C (db w)" and run: "failover ctl clu old rs w = (Inr u, w')"
  obtains i w1 w2 where "i \<in> set rs" "promote_new ctl clu i w1 = (Inr (), w2)" "topo R C (db w2)"
    "failover_finish ctl clu old i rs w2 = (Inr (), w')"
proof -
  obtain n wa where a: "count_reachable P rs w = (n, wa)" by fastforce
  have ta: "topo R C (db wa)" using keeps_result [OF topo_count t a] .
  obtain el wb where b: "elect P rs wa = (el, wb)" by fastforce
  have tb: "topo R C (db wb)" using keeps_result [OF topo_elect ta b [unfolded elect_def]] .
  have e: "\<not> n < quorum_needed rs \<and> (\<exists>i. el = Some i)"
    using run a b by (auto simp: failover_def ctl prog_run fail_def split: if_splits option.splits prod.splits sum.splits)
  then obtain i where i: "el = Some i" by blast
  have mem: "i \<in> set rs" using elect_loop_mem [of P None 0 rs wa] b i by (auto simp: elect_def)
  have k: "bindE (fence_old ctl clu old) (\<lambda>_. bindE (promote_new ctl clu i) (\<lambda>_. failover_finish ctl clu old i rs)) wb = (Inr u, w')"
    using run a b e i by (simp add: failover_def ctl prog_run)
  then obtain wc wd where c: "fence_old ctl clu old wb = (Inr (), wc)" "promote_new ctl clu i wc = (Inr (), wd)"
      "failover_finish ctl clu old i rs wd = (Inr u, w')"
    by (auto elim!: bindE_Inr)
  have "topo R C (db wd)"
    using keeps_result [OF topo_controller(2) [OF ctl] keeps_result [OF topo_controller(1) [OF ctl] tb c(1)] c(2)] .
  with c mem show ?thesis by (intro that [of i wc wd]) simp_all
qed

end

lemma recorded_is_promoted:
  assumes ctl: "ct_prov ctl = traced P"
    and "promote_new ctl clu i w1 = (Inr (), w2)" "failover_finish ctl clu old i rs w2 = (Inr (), w')"
  shows "CPromote i True \<in> set (snd (env w'))"
proof -
  have "CPromote i True \<in> set (snd (env w2))"
    using emitsD [OF traced_log.promote_new_log [OF ctl] assms(2)] by auto
  then show ?thesis using emitsD [OF traced_log.failover_finish_log [OF ctl] assms(3)] by auto
qed

lemma failover_one_promote:
  assumes "ct_prov ctl = traced P" "snd (env w) = []" "failover ctl clu old rs w = (r, w')" "CPromote i ok \<in> set (snd (env w'))"
  shows "filter is_promote (snd (env w')) = [CPromote i ok]"
proof -
  have sh: "failover_shape old rs r (snd (env w'))" using failover_calls [OF assms(1,3)] assms(2) by simp
  obtain pre post where sp: "snd (env w') = pre @ [CPromote i ok] @ post"
    using assms(4) by (metis append_Cons append_Nil in_set_conv_decomp)
  obtain bs E where p: "pre = map2 CReachable rs bs @ E @ fence_calls old" "list_all (probe rs) E" "list_all (aftermath rs i) post"
    by (rule promote_split [OF sh sp])
  have "filter is_promote pre = []" "filter is_promote post = []"
    using no_promote(1) [of rs bs] no_promote(2) [OF p(2)] no_promote(3) [of old] no_promote(4) [OF p(3)]
    unfolding p(1) filter_append filter_empty_conv by (simp_all add: filter_empty_conv)
  then show ?thesis unfolding sp by simp
qed

section \<open>From a well-formed database\<close>

lemma single_simps [simp]:
  "single []" "single ((j, c, q) # R) \<longleftrightarrow> single R \<and> (q = RolePrimary \<and> c \<noteq> [] \<longrightarrow> (\<forall>j'. (j', c, RolePrimary) \<notin> set R))"
  by (auto simp: single_def image_iff)

lemma set_role_simps [simp]:
  "set_role iid r [] = []" "set_role iid r ((j, c, q) # R) = (j, c, if j = iid then r else q) # set_role iid r R"
  by (simp_all add: set_role_def)

lemma set_role_mem: "(j, c, q) \<in> set (set_role iid r R) \<longleftrightarrow> (\<exists>q'. (j, c, q') \<in> set R \<and> q = (if j = iid then r else q'))"
  by (induction R) (auto split: if_splits)

lemma single_demote: "single R \<Longrightarrow> single (set_role iid RoleReplica R)"
  by (induction R) (auto simp: set_role_mem)

lemma set_role_other: "iid \<notin> fst ` set R \<Longrightarrow> set_role iid r R = R"
  by (induction R) auto

lemma single_promote:
  assumes "single R" "distinct (map fst R)" "\<And>j. (j, c, RolePrimary) \<notin> set R"
    and "\<And>c' q. (iid, c', q) \<in> set R \<Longrightarrow> c' = c"
  shows "single (set_role iid RolePrimary R)"
  using assms
proof (induction R)
  case (Cons x R)
  obtain j c' q where x: "x = (j, c', q)" by (metis prod.exhaust)
  have IH: "single (set_role iid RolePrimary R)"
    using Cons.prems x by (intro Cons.IH) auto
  show ?case
  proof (cases "j = iid")
    case True
    then have "iid \<notin> fst ` set R" using Cons.prems(2) x by simp
    then have "set_role iid RolePrimary R = R" by (rule set_role_other)
    moreover have "c' = c" by (rule Cons.prems(4) [of c' q]) (simp add: x True)
    ultimately show ?thesis using Cons.prems(1,3) x True by simp
  next
    case False
    have "(j', c', RolePrimary) \<notin> set (set_role iid RolePrimary R)" if "q = RolePrimary" "c' \<noteq> []" for j'
      using that Cons.prems x by (auto simp: set_role_mem split: if_splits)
    then show ?thesis using False x IH by auto
  qed
qed simp

lemma members_roles:
  assumes "db_wf d" "splitMembers (cluster_members cid (instances d)) = (old, rs)"
  shows "\<And>i. i \<in> set rs \<Longrightarrow> (i_ID i, cid, RoleReplica) \<in> set (roles d) \<and> cid \<noteq> []"
    and "\<And>p. old = Some p \<Longrightarrow> (i_ID p, cid, RolePrimary) \<in> set (roles d)"
    and "\<And>j p. (j, cid, RolePrimary) \<in> set (roles d) \<Longrightarrow> cid \<noteq> [] \<Longrightarrow> \<exists>p. old = Some p \<and> i_ID p = j"
proof -
  let ?ms = "cluster_members cid (instances d)"
  let ?ps = "filter (\<lambda>m. i_Role m = RolePrimary) ?ms"
  have rs: "rs = filter (\<lambda>m. i_Role m = RoleReplica) ?ms" and old: "old = (if ?ps = [] then None else Some (last ?ps))"
    using assms(2) by (simp_all add: splitMembers_def Let_def)
  have ms: "set ?ms = {i \<in> set (instances d). i_ClusterID i = cid \<and> cid \<noteq> []}"
    by (auto simp: cluster_members_def Let_def)
  show "(i_ID i, cid, RoleReplica) \<in> set (roles d) \<and> cid \<noteq> []" if "i \<in> set rs" for i
    using that ms unfolding rs roles_def by force
  have last: "last ?ps \<in> set (instances d) \<and> i_ClusterID (last ?ps) = cid \<and> i_Role (last ?ps) = RolePrimary" if "?ps \<noteq> []"
    using last_in_set [OF that] ms by auto
  show "(i_ID p, cid, RolePrimary) \<in> set (roles d)" if "old = Some p" for p
    using that last unfolding old roles_def by (force split: if_splits)
  show "\<exists>p. old = Some p \<and> i_ID p = j" if j: "(j, cid, RolePrimary) \<in> set (roles d)" "cid \<noteq> []" for j
  proof -
    from j(1) obtain i where i: "i \<in> set (instances d)" "i_ID i = j" "i_ClusterID i = cid" "i_Role i = RolePrimary"
      by (auto simp: roles_def)
    then have ne: "?ps \<noteq> []" using ms j(2) by (auto simp: filter_empty_conv)
    have "last ?ps = i"
      using assms(1) last [OF ne] i j(2) by (intro one_primary_unique) (auto simp: db_wf_def)
    with ne i old show ?thesis by auto
  qed
qed

lemma record_primary_ok:
  assumes "db_wf d" "c_ID clu \<in> c_ID ` set (clusters d)" "i \<in> set rs"
    and sp: "splitMembers (cluster_members (c_ID clu) (instances d)) = (old, rs)"
  shows "hoare (\<lambda>w. topo (roles d) (prims d) (db w)) (record_primary clu old i)
     (\<lambda>r w. r = Inr () \<and> topo (set_role (i_ID i) RolePrimary (demoted old (roles d)))
        (set_prim (c_ID clu) (i_ID i) (prims d)) (db w))"
proof (rule record_primary_topo)
  note mem = members_roles [OF assms(1) sp]
  have ids: "distinct (map fst (roles d))" "single (roles d)"
    using assms(1) one_primary_roles [of d] by (simp_all add: db_wf_def roles_def comp_def)
  have uniq: "(j, c, q) \<in> set (roles d) \<Longrightarrow> (j, c', q') \<in> set (roles d) \<Longrightarrow> c = c' \<and> q = q'" for j c c' q q'
    using ids(1) by (metis eq_key_imp_eq_value prod.inject)
  show "case old of None \<Rightarrow> True | Some p \<Rightarrow> i_ID p \<in> fst ` set (roles d) \<and> single (set_role (i_ID p) RoleReplica (roles d))"
    using mem(2) ids(2) by (auto split: option.splits intro: single_demote rev_image_eqI)
  show "i_ID i \<in> fst ` set (roles d)" using mem(1) [OF assms(3)] by (auto intro: rev_image_eqI)
  have sub: "(j, c, q) \<in> set (demoted old (roles d)) \<Longrightarrow> \<exists>q'. (j, c, q') \<in> set (roles d)" for j c q
    by (auto simp: demoted_def set_role_mem split: option.splits)
  have dist: "map fst (demoted old (roles d)) = map fst (roles d)"
    by (auto simp: demoted_def set_role_def split: option.splits)
  show "single (set_role (i_ID i) RolePrimary (demoted old (roles d)))"
  proof (rule single_promote [where c = "c_ID clu"])
    show "single (demoted old (roles d))" using ids(2) by (simp add: demoted_def single_demote split: option.splits)
    show "(j, c_ID clu, RolePrimary) \<notin> set (demoted old (roles d))" for j
      using mem(3) mem(1) [OF assms(3)] by (auto simp: demoted_def set_role_mem split: option.splits if_splits)
    show "c' = c_ID clu" if "(i_ID i, c', q) \<in> set (demoted old (roles d))" for c' q
      using sub [OF that] mem(1) [OF assms(3)] uniq by blast
  qed (simp add: dist ids(1))
  show "c_ID clu \<in> fst ` set (prims d)" using assms(2) by (auto simp: prims_def image_image)
  show "\<forall>q\<in>snd ` set (prims d). q = [] \<or> q \<in> fst ` set (roles d)"
    using assms(1) unfolding ids_of_roles [symmetric] by (auto simp: prims_def db_wf_def)
qed

lemma promoted_roles:
  assumes wf: "db_wf d" and sp: "splitMembers (cluster_members cid (instances d)) = (old, rs)" and i: "i \<in> set rs"
  shows "(i_ID i, cid, RolePrimary) \<in> set (set_role (i_ID i) RolePrimary (demoted old (roles d)))"
    and "map fst (set_role (i_ID i) RolePrimary (demoted old (roles d))) = map fst (roles d)"
    and "\<forall>(j, c, q)\<in>set (set_role (i_ID i) RolePrimary (demoted old (roles d))).
         if c = cid then q = RolePrimary \<longleftrightarrow> j = i_ID i else (j, c, q) \<in> set (roles d)"
proof -
  note mem = members_roles [OF wf sp]
  have "distinct (map fst (roles d))" using wf by (simp add: db_wf_def roles_def comp_def)
  then have uniq: "(j, c, q) \<in> set (roles d) \<Longrightarrow> (j, c', q') \<in> set (roles d) \<Longrightarrow> c = c' \<and> q = q'" for j c c' q q'
    by (metis eq_key_imp_eq_value prod.inject)
  have R: "(j, c, q) \<in> set (demoted old (roles d)) \<longleftrightarrow>
      (\<exists>q'. (j, c, q') \<in> set (roles d) \<and> q = (if \<exists>p. old = Some p \<and> j = i_ID p then RoleReplica else q'))" for j c q
    by (auto simp: demoted_def set_role_mem split: option.splits)
  show "(i_ID i, cid, RolePrimary) \<in> set (set_role (i_ID i) RolePrimary (demoted old (roles d)))"
    using mem(1) [OF i] unfolding set_role_mem R by auto
  show "map fst (set_role (i_ID i) RolePrimary (demoted old (roles d))) = map fst (roles d)"
    by (auto simp: demoted_def set_role_def split: option.splits)
  have "if c = cid then q = RolePrimary \<longleftrightarrow> j = i_ID i else (j, c, q) \<in> set (roles d)"
    if "(j, c, q) \<in> set (set_role (i_ID i) RolePrimary (demoted old (roles d)))" for j c q
  proof -
    from that obtain q' where q': "(j, c, q') \<in> set (roles d)"
      "q = (if j = i_ID i then RolePrimary else if \<exists>p. old = Some p \<and> j = i_ID p then RoleReplica else q')"
      unfolding set_role_mem R by auto
    show ?thesis
    proof (cases "c = cid")
      case True
      then have "q' = RolePrimary \<Longrightarrow> \<exists>p. old = Some p \<and> j = i_ID p" using mem(3) [of j] q'(1) mem(1) [OF i] by blast
      with True q'(2) show ?thesis by auto
    next
      case False
      then have "j \<noteq> i_ID i" "\<nexists>p. old = Some p \<and> j = i_ID p" using mem(1) [OF i] mem(2) uniq q'(1) by blast+
      with False q' show ?thesis by simp
    qed
  qed
  then show "\<forall>(j, c, q)\<in>set (set_role (i_ID i) RolePrimary (demoted old (roles d))).
         if c = cid then q = RolePrimary \<longleftrightarrow> j = i_ID i else (j, c, q) \<in> set (roles d)" by blast
qed

text \<open>
  C5. When no statement fails, a completed failover records the node it promoted, and only that one, as the primary of the
  cluster. The log of the calls made of the machines, empty at the start, has one promotion, which succeeded; the promoted
  replica is the only member with the primary role and the primary the cluster's row names, the old primary has become
  a replica, and no instance outside the
  cluster and no other cluster's row changed. A failed failover changes no role and no
  cluster's primary. The promoter is the provisioner, over any container runtime.
\<close>

theorem failover_records_one_primary:
  assumes "db_wf (db w)" "faults (db w) = []" "c_ID clu \<in> c_ID ` set (clusters (db w))"
    and "splitMembers (cluster_members (c_ID clu) (instances (db w))) = (oldPrimary, replicas)"
    and "ct_prov ctl = traced (provisioner_promoter p)" "snd (env w) = []" "failover ctl clu oldPrimary replicas w = (r, w')"
  shows "case r of
      Inl _ \<Rightarrow> roles (db w') = roles (db w) \<and> prims (db w') = prims (db w)
    | Inr _ \<Rightarrow> \<exists>newP\<in>set replicas.
        filter is_promote (snd (env w')) = [CPromote newP True] \<and>
        prims (db w') = set_prim (c_ID clu) (i_ID newP) (prims (db w)) \<and>
        map fst (roles (db w')) = map fst (roles (db w)) \<and>
        (i_ID newP, c_ID clu, RolePrimary) \<in> set (roles (db w')) \<and>
        (\<forall>(j, c, q)\<in>set (roles (db w')).
           if c = c_ID clu then q = RolePrimary \<longleftrightarrow> j = i_ID newP else (j, c, q) \<in> set (roles (db w)))"
proof -
  have t: "topo (roles (db w)) (prims (db w)) (db w)" using assms(2) by (simp add: topo_def)
  note rp = record_primary_ok [OF assms(1,3) _ assms(4)]
  show ?thesis
  proof (cases r)
    case (Inl e)
    have "case r of Inl _ \<Rightarrow> topo (roles (db w)) (prims (db w)) (db w') | Inr _ \<Rightarrow> \<exists>i\<in>set replicas.
        topo (set_role (i_ID i) RolePrimary (demoted oldPrimary (roles (db w)))) (set_prim (c_ID clu) (i_ID i) (prims (db w))) (db w')"
      using traced_topo.failover_topo [OF assms(5) rp, THEN hoare_result, OF _ t assms(7)] by blast
    with Inl show ?thesis by (simp add: topo_def)
  next
    case (Inr u)
    obtain i w1 w2 where p: "i \<in> set replicas" "promote_new ctl clu i w1 = (Inr (), w2)"
        "topo (roles (db w)) (prims (db w)) (db w2)" "failover_finish ctl clu oldPrimary i replicas w2 = (Inr (), w')"
      by (rule traced_topo.failover_path [OF assms(5) t assms(7) [unfolded Inr]])
    have t': "roles (db w') = set_role (i_ID i) RolePrimary (demoted oldPrimary (roles (db w)))"
        "prims (db w') = set_prim (c_ID clu) (i_ID i) (prims (db w))"
      using hoare_result [OF traced_topo.failover_finish_topo [OF assms(5) rp [OF p(1)]] p(3,4)] by (simp_all add: topo_def)
    have one: "filter is_promote (snd (env w')) = [CPromote i True]"
      by (rule failover_one_promote [OF assms(5-7) recorded_is_promoted [OF assms(5) p(2,4)]])
    have "filter is_promote (snd (env w')) = [CPromote i True] \<and>
        prims (db w') = set_prim (c_ID clu) (i_ID i) (prims (db w)) \<and> map fst (roles (db w')) = map fst (roles (db w)) \<and>
        (i_ID i, c_ID clu, RolePrimary) \<in> set (roles (db w')) \<and>
        (\<forall>(j, c, q)\<in>set (roles (db w')). if c = c_ID clu then q = RolePrimary \<longleftrightarrow> j = i_ID i else (j, c, q) \<in> set (roles (db w)))"
      using promoted_roles [OF assms(1,4) p(1), folded t'(1)] t'(2) one by blast
    with p(1) Inr show ?thesis by (simp only: sum.case) blast
  qed
qed

text \<open>A two-node cluster over the in-memory runtime, whose replica answers every probe.\<close>

definition demo_pair :: "Instance list" where
  "demo_pair = [demo_a, demo_b\<lparr>i_ContainerID := ''fake-1''\<rparr>]"

definition demo_pair_provisioner :: "fake_env Provisioner" where
  "demo_pair_provisioner = fake_provisioner (Some (\<lambda>cid cmd. Inr \<lparr>ExitCode = 0, Stdout = ''7'', Stderr = []\<rparr>)) None
     (\<lambda>_. None) tagged_lib demo_key demo_opts"

definition demo_pair_world :: "call list \<Rightarrow> (fake_env \<times> call list) world" where
  "demo_pair_world calls =
     \<lparr>env = (demo_running_env, calls), db = demo_db\<lparr>instances := demo_pair, clusters := [demo_cluster]\<rparr>, stampCounter = 0\<rparr>"

theorem failover_records_one_primary_witness:
  "\<exists>w'. failover (New_Controller (traced (provisioner_promoter demo_pair_provisioner)) tagged_lib demo_key False 3 demo_key)
          demo_cluster (Some demo_a) [demo_b\<lparr>i_ContainerID := ''fake-1''\<rparr>] (demo_pair_world []) = (Inr (), w') \<and>
        filter is_promote (snd (env w')) = [CPromote (demo_b\<lparr>i_ContainerID := ''fake-1''\<rparr>) True] \<and>
        (''b'', ''k'', RolePrimary) \<in> set (roles (db w')) \<and> (''a'', ''k'', RolePrimary) \<notin> set (roles (db w'))"
proof -
  let ?w = "demo_pair_world []" and ?b = "demo_b\<lparr>i_ContainerID := ''fake-1''\<rparr>" and ?p = demo_pair_provisioner
  let ?ctl = "New_Controller (traced (provisioner_promoter demo_pair_provisioner)) tagged_lib demo_key False 3 demo_key"
  have wf: "db_wf (db ?w)" "faults (db ?w) = []" "c_ID demo_cluster \<in> c_ID ` set (clusters (db ?w))"
    by (simp_all add: db_wf_def demo_pair_world_def demo_db_def demo_pair_def one_primary_def ids_of_def demo_member_def
        demo_instance_def demo_cluster_def)
  have sp: "splitMembers (cluster_members (c_ID demo_cluster) (instances (db ?w))) = (Some demo_a, [?b])"
    by (simp add: splitMembers_def cluster_members_def demo_pair_world_def demo_pair_def demo_member_def demo_instance_def demo_cluster_def Let_def)
  have ctl: "ct_prov ?ctl = traced (provisioner_promoter ?p)" by (simp add: New_Controller_def)
  have ans: "Exec (p_rt ?p) ''fake-1'' cmd demo_running_env = (Inr \<lparr>ExitCode = 0, Stdout = ''7'', Stderr = []\<rparr>, demo_running_env)" for cmd
    by (simp add: demo_pair_provisioner_def fake_run demo_running_env_def)
  have seven: "ParseInt (TrimSpace ''7'') = Inr 7"
    by (simp add: TrimSpace_def TrimLeftSpace.simps TrimRightSpace.simps leading_space_def trailing_space_def space_runes_def
        HasPrefix_def upt_rec str_eval)
  have calls: "pm_PrimaryReachable (traced (provisioner_promoter ?p)) ?b (demo_pair_world L) = (True, demo_pair_world (L @ [CReachable ?b True]))"
    "pm_ReplayLSN (traced (provisioner_promoter ?p)) ?b (demo_pair_world L) = (Inr 7, demo_pair_world (L @ [CReplayLSN ?b (Inr 7)]))"
    "pm_Promote (traced (provisioner_promoter ?p)) ?b (demo_pair_world L) = (Inr (), demo_pair_world (L @ [CPromote ?b True]))"
    "pm_Fence (traced (provisioner_promoter ?p)) demo_a (demo_pair_world L) = (Inr (), demo_pair_world (L @ [CFence demo_a True]))" for L
    by (simp_all add: traced_def provisioner_promoter_def logged_def untraced_def demo_pair_world_def onE'_def onE_def is_ok_def
        PrimaryReachable_def ReplayLSN_def Promote_def Fence_def execOK_def prog_run ans seven demo_member_def demo_instance_def)
  have "failover ?ctl demo_cluster (Some demo_a) [?b] ?w = failover_finish ?ctl demo_cluster (Some demo_a) ?b [?b] (demo_pair_world
      [CReachable ?b True, CReachable ?b True, CReplayLSN ?b (Inr 7), CFence demo_a True, CPromote ?b True])"
    by (simp add: failover_def prog_run ctl quorum_needed_def elect_def fence_old_def promote_new_def calls)
  then obtain w' where run: "failover ?ctl demo_cluster (Some demo_a) [?b] ?w = (Inr (), w')"
    using failover_finish_Inr by metis
  have "snd (env ?w) = []" by (simp add: demo_pair_world_def)
  from failover_records_one_primary [OF wf sp ctl this run] run show ?thesis
    by (auto simp: demo_member_def demo_instance_def demo_cluster_def split: if_splits)
qed

section \<open>A failed metadata write is not reported\<close>

text \<open>
  When recording the promoted node's role fails, \<^verbatim>\<open>failover\<close> marks the cluster as degraded
  with a message that asks for a manual check, but the last step of the same call stores the
  status "running" with an empty error over it. The run below fails exactly that one
  statement: the promoted node is left with the role of a replica, no member of the cluster is
  recorded as its primary by role, and the cluster is shown as running.
\<close>

definition demo_hidden_world :: "(unit \<times> call list) world" where
  "demo_hidden_world = demo_cluster_world\<lparr>db := demo_db
      \<lparr>faults := [False, False, True], instances := [demo_a, demo_c], sealed_of := [(''c'', demo_sealed)],
       clusters := [demo_cluster]\<rparr>\<rparr>"

lemma metadata_failure_is_hidden:
  "\<exists>w'. failover demo_controller demo_cluster (Some demo_a) [demo_c] demo_hidden_world = (Inr (), w') \<and>
     map i_Role (instances (db w')) = [RoleReplica, RoleReplica] \<and>
     map c_Status (clusters (db w')) = [CStatusRunning] \<and> map c_LastError (clusters (db w')) = [[]]"
  by (simp add: failover_def prog_run demo_promoter_run logged_def untraced_def New_Controller_def
        quorum_needed_def elect_def fence_old_def promote_new_def is_ok_def demo_hidden_world_def demo_cluster_world_def
        failover_finish_def record_primary_def demote_old_def repointRouter_def record_failover_def Let_def
        demo_db_def db_run cluster_SetPrimary_def cluster_SetStatus_def cluster_SetRouter_def cluster_exec_def
        demo_cluster_def demo_member_def demo_instance_def demo_sealed_def Decrypt_def NonceSize_def newGCM_def demo_key_def keyLen_def tagged_lib_def)

end
