(* ===== verification/Reconcile.thy ===== *)
theory Reconcile
  imports Visibility
begin

text \<open>
  Package \<^verbatim>\<open>internal/reconcile\<close>: the pass that brings the instance rows into agreement with
  the containers Docker reports. Log output is left out.
\<close>

section \<open>The pass\<close>

definition transientRole :: "string \<Rightarrow> bool" where
  "transientRole role \<longleftrightarrow> role \<in> set [''restore'', ''basebackup'', ''drill'', ''router'']"

text \<open>The loop that indexes the main containers by instance; a later one replaces an earlier.\<close>

fun index_containers :: "container_info list \<Rightarrow> (string \<rightharpoonup> container_info) \<Rightarrow> (string \<rightharpoonup> container_info)" where
  "index_containers [] m = m"
| "index_containers (c # cs) m =
     (if transientRole (map_get (ci_Labels c) LabelRole) then index_containers cs m
      else if map_get (ci_Labels c) LabelInstance \<noteq> [] then index_containers cs (m(map_get (ci_Labels c) LabelInstance \<mapsto> c))
      else index_containers cs m)"

definition hostPort :: "container_state \<Rightarrow> int" where
  "hostPort state = (case map_of (st_Ports state) ''5432/tcp'' of
       None \<Rightarrow> 0
     | Some hp \<Rightarrow> (case scan_int hp of None \<Rightarrow> 0 | Some port \<Rightarrow> port))"

definition in_flight :: "Status \<Rightarrow> bool" where
  "in_flight s \<longleftrightarrow> s = StatusError \<or> s = StatusDestroying \<or> s = StatusRestoring \<or> s = StatusProvisioning"

definition reconcileOne :: "'e host \<Rightarrow> Instance \<Rightarrow> (string \<rightharpoonup> container_info) \<Rightarrow> ('e world, unit) gofun" where
  "reconcileOne h inst containers =
     (if in_flight (i_Status inst) then ret ()
      else (case containers (i_ID inst) of
          None \<Rightarrow>
            if i_Status inst = StatusRunning then
              ignoring (onD (instance_SetStatus (i_ID inst) StatusError ''container not found during reconciliation'')) (ret ())
            else ret ()
        | Some info \<Rightarrow>
            attempt (onE (Inspect h (ci_ID info))) (\<lambda>r. case r of
              Inl _ \<Rightarrow> ret ()
            | Inr state \<Rightarrow>
                let desired = (if st_Running state then StatusRunning else StatusStopped) in
                bindE (if i_ContainerID inst \<noteq> ci_ID info then
                         ignoring (onD (instance_SetRuntime (i_ID inst) (ci_ID info) (hostPort state))) (ret ())
                       else ret ()) (\<lambda>_.
                if i_Status inst \<noteq> desired then
                  ignoring (onD (instance_SetStatus (i_ID inst) desired [])) (ret ())
                else ret ()))))"

definition Reconcile :: "'e host \<Rightarrow> ('e world, unit) gofun" where
  "Reconcile h =
     bindE (onD instance_List) (\<lambda>insts.
     bindE (onE (ListByLabel h [(LabelManaged, ''true'')])) (\<lambda>containers.
     forI (\<lambda>inst. reconcileOne h inst (index_containers containers Map.empty)) insts))"

section \<open>The containers indexed\<close>

lemma index_containers_main:
  "index_containers cs m iid = Some c \<Longrightarrow> m iid = Some c \<or>
     (c \<in> set cs \<and> \<not> transientRole (map_get (ci_Labels c) LabelRole) \<and> map_get (ci_Labels c) LabelInstance = iid)"
  by (induction cs m rule: index_containers.induct) (auto split: if_splits)

text \<open>The row a pass leaves, as a function of what Docker reports.\<close>

definition observe :: "(string \<rightharpoonup> container_info) \<Rightarrow> (string \<Rightarrow> goerr + container_state) \<Rightarrow> Instance \<Rightarrow> Instance" where
  "observe containers inspected i =
     (if in_flight (i_Status i) then i
      else (case containers (i_ID i) of
          None \<Rightarrow>
            if i_Status i = StatusRunning
            then i\<lparr>i_Status := StatusError, i_LastError := ''container not found during reconciliation''\<rparr> else i
        | Some info \<Rightarrow> (case inspected (ci_ID info) of
              Inl _ \<Rightarrow> i
            | Inr state \<Rightarrow>
                let desired = (if st_Running state then StatusRunning else StatusStopped);
                    i' = (if i_ContainerID i \<noteq> ci_ID info
                          then i\<lparr>i_ContainerID := ci_ID info, i_HostPort := hostPort state\<rparr> else i)
                in if i_Status i \<noteq> desired then i'\<lparr>i_Status := desired, i_LastError := []\<rparr> else i')))"

lemma observe_keys [simp]:
  "i_ID (observe cs st i) = i_ID i" "i_ClusterID (observe cs st i) = i_ClusterID i" "i_Role (observe cs st i) = i_Role i"
  "i_Name (observe cs st i) = i_Name i"
  by (simp_all add: observe_def Let_def split: option.split sum.split)

lemma observe_idem: "observe cs st (observe cs st i) = observe cs st i"
  by (auto simp: observe_def Let_def in_flight_def split: option.splits sum.splits)

lemma update_rows_twice:
  "(\<And>i. i_ID (up i) = i_ID i) \<Longrightarrow> update_rows iid up' (update_rows iid up rows) = update_rows iid (\<lambda>i. up' (up i)) rows"
  by (auto simp: update_rows_def)

lemma update_rows_unique:
  "distinct (map i_ID rows) \<Longrightarrow> i \<in> set rows \<Longrightarrow> i_ID i = iid \<Longrightarrow> up i = up' i \<Longrightarrow> update_rows iid up rows = update_rows iid up' rows"
  by (auto simp: update_rows_def dest: distinct_map_unique)

section \<open>One row\<close>

text \<open>The database and the runtime as the refinement needs them: nothing is scheduled to fail, and
  inspecting a container changes nothing.\<close>

definition rows_ok :: "metadb \<Rightarrow> bool" where
  "rows_ok d \<longleftrightarrow> faults d = [] \<and> one_primary (instances d) \<and> distinct (map i_ID (instances d))"

lemma SetStatus_rows:
  "rows_ok d \<Longrightarrow> iid \<in> ids_of d \<Longrightarrow> instance_SetStatus iid st le d =
     (Inr (), d\<lparr>instances := update_rows iid (\<lambda>i. i\<lparr>i_Status := st, i_LastError := le\<rparr>) (instances d)\<rparr>)"
  by (simp add: instance_SetStatus_def rows_ok_def instance_exec_nofault)

lemma SetRuntime_rows:
  "rows_ok d \<Longrightarrow> iid \<in> ids_of d \<Longrightarrow> instance_SetRuntime iid c p d =
     (Inr (), d\<lparr>instances := update_rows iid (\<lambda>i. i\<lparr>i_ContainerID := c, i_HostPort := p\<rparr>) (instances d)\<rparr>)"
  by (simp add: instance_SetRuntime_def rows_ok_def instance_exec_nofault)

lemma rows_ok_update:
  assumes "\<And>i. i_ID (up i) = i_ID i" "\<And>i. i_ClusterID (up i) = i_ClusterID i" "\<And>i. i_Role (up i) = i_Role i"
  shows "rows_ok (d\<lparr>instances := update_rows iid up (instances d)\<rparr>) = rows_ok d"
    "ids_of (d\<lparr>instances := update_rows iid up (instances d)\<rparr>) = ids_of d"
proof -
  have "map i_ID (update_rows iid up (instances d)) = map i_ID (instances d)" by (simp add: assms)
  then show "rows_ok (d\<lparr>instances := update_rows iid up (instances d)\<rparr>) = rows_ok d"
    "ids_of (d\<lparr>instances := update_rows iid up (instances d)\<rparr>) = ids_of d"
    using image_map_eq [of i_ID "update_rows iid up (instances d)" "instances d"]
    by (simp_all add: rows_ok_def one_primary_update assms ids_of_def)
qed

lemma update_rows_same:
  "distinct (map i_ID rows) \<Longrightarrow> i \<in> set rows \<Longrightarrow> up i = i \<Longrightarrow> update_rows (i_ID i) up rows = rows"
  unfolding update_rows_def by (rule map_idI) (auto dest: distinct_map_unique)

lemma update_rows_row:
  assumes "distinct (map i_ID rows)" "i \<in> set rows" "up i = up' i"
  shows "update_rows (i_ID i) up rows = update_rows (i_ID i) up' rows"
  unfolding update_rows_def using assms by (auto dest: distinct_map_unique)

definition with_rows :: "'e world \<Rightarrow> Instance list \<Rightarrow> 'e world" where
  "with_rows w rows = w\<lparr>db := (db w)\<lparr>instances := rows\<rparr>\<rparr>"

lemma with_rows_simps [simp]:
  "env (with_rows w rows) = env w" "instances (db (with_rows w rows)) = rows" "faults (db (with_rows w rows)) = faults (db w)"
  "with_rows (with_rows w rows) rows' = with_rows w rows'" "clusters (db (with_rows w rows)) = clusters (db w)"
  "with_rows w (instances (db w)) = w"
  by (simp_all add: with_rows_def)

text \<open>The case of a container that was found and inspected.\<close>

lemma reconcileOne_seen:
  assumes "rows_ok (db w)" "inst \<in> set (instances (db w))" "\<And>c. Inspect h c (env w) = (insp c, env w)"
    and "cs (i_ID inst) = Some info" "insp (ci_ID info) = Inr st" "\<not> in_flight (i_Status inst)"
  shows "reconcileOne h inst cs w =
     (Inr (), with_rows w (update_rows (i_ID inst) (observe cs insp) (instances (db w))))"
proof -
  let ?rows = "instances (db w)" and ?iid = "i_ID inst"
  let ?des = "if st_Running st then StatusRunning else StatusStopped"
  let ?up1 = "\<lambda>i. if i_ContainerID inst \<noteq> ci_ID info then i\<lparr>i_ContainerID := ci_ID info, i_HostPort := hostPort st\<rparr> else i"
  let ?up2 = "\<lambda>i. if i_Status inst \<noteq> ?des then i\<lparr>i_Status := ?des, i_LastError := []\<rparr> else i"
  have iid: "?iid \<in> ids_of (db w)" using assms(2) by (simp add: ids_of_def)
  have d: "distinct (map i_ID ?rows)" using assms(1) by (simp add: rows_ok_def)
  have idr: "update_rows ?iid (\<lambda>i. i) rs = rs" for rs by (simp add: update_rows_def)
  let ?w1 = "with_rows w (update_rows ?iid ?up1 ?rows)"
  have a: "(if i_ContainerID inst \<noteq> ci_ID info then
           ignoring (onD (instance_SetRuntime ?iid (ci_ID info) (hostPort st))) (ret ()) else ret ()) w = (Inr (), ?w1)"
    by (simp add: prog_run onD_def SetRuntime_rows [OF assms(1) iid] idr) (simp add: with_rows_def)
  have "rows_ok (db ?w1)" "?iid \<in> ids_of (db ?w1)"
    using assms(1) iid rows_ok_update [of ?up1] by (simp_all add: with_rows_def)
  then have b: "(if i_Status inst \<noteq> ?des then ignoring (onD (instance_SetStatus ?iid ?des [])) (ret ()) else ret ()) ?w1 =
      (Inr (), with_rows w (update_rows ?iid ?up2 (update_rows ?iid ?up1 ?rows)))"
    by (simp add: prog_run onD_def SetStatus_rows idr) (simp add: with_rows_def)
  have c: "update_rows ?iid ?up2 (update_rows ?iid ?up1 ?rows) = update_rows ?iid (observe cs insp) ?rows"
    by (subst update_rows_twice) (auto intro!: update_rows_row d assms(2) simp: observe_def assms(4-6) Let_def)
  have e: "reconcileOne h inst cs w = bindE (if i_ContainerID inst \<noteq> ci_ID info then
           ignoring (onD (instance_SetRuntime ?iid (ci_ID info) (hostPort st))) (ret ()) else ret ())
      (\<lambda>_. if i_Status inst \<noteq> ?des then ignoring (onD (instance_SetStatus ?iid ?des [])) (ret ()) else ret ()) w"
    using assms(4-6) by (simp add: reconcileOne_def Let_def prog_run(4) onE_def assms(3))
  show ?thesis unfolding e prog_run(3) a prod.case sum.case b c ..
qed

lemma reconcileOne_row:
  assumes "rows_ok (db w)" "inst \<in> set (instances (db w))" "\<And>c. Inspect h c (env w) = (insp c, env w)"
  shows "reconcileOne h inst cs w =
     (Inr (), with_rows w (update_rows (i_ID inst) (observe cs insp) (instances (db w))))"
proof -
  let ?rows = "instances (db w)" and ?iid = "i_ID inst"
  have iid: "?iid \<in> ids_of (db w)" using assms(2) by (simp add: ids_of_def)
  have d: "distinct (map i_ID ?rows)" using assms(1) by (simp add: rows_ok_def)
  note row = update_rows_row [OF d assms(2)]
  have status: "ignoring (onD (instance_SetStatus ?iid st le)) (ret ()) w =
      (Inr (), with_rows w (update_rows ?iid (\<lambda>i. i\<lparr>i_Status := st, i_LastError := le\<rparr>) ?rows))" for st le
    by (simp add: prog_run onD_def SetStatus_rows [OF assms(1) iid] with_rows_def)
  show ?thesis
  proof (cases "in_flight (i_Status inst)")
    case True
    then have "update_rows ?iid (observe cs insp) ?rows = ?rows"
      by (intro update_rows_same d assms(2)) (simp add: observe_def)
    with True show ?thesis by (simp add: reconcileOne_def ret_def)
  next
    case live: False
    show ?thesis
    proof (cases "cs ?iid")
      case None
      show ?thesis
      proof (cases "i_Status inst = StatusRunning")
        case True
        with live None show ?thesis
          by (simp add: reconcileOne_def status) (intro arg_cong [where f = "with_rows w"] row, simp add: observe_def)
      next
        case False
        with live None have "update_rows ?iid (observe cs insp) ?rows = ?rows"
          by (intro update_rows_same d assms(2)) (simp add: observe_def)
        with live None False show ?thesis by (simp add: reconcileOne_def ret_def)
      qed
    next
      case (Some info)
      show ?thesis
      proof (cases "insp (ci_ID info)")
        case (Inl e)
        with live Some have "update_rows ?iid (observe cs insp) ?rows = ?rows"
          by (intro update_rows_same d assms(2)) (simp add: observe_def)
        with live Some Inl show ?thesis by (simp add: reconcileOne_def prog_run onE_def assms(3))
      next
        case (Inr st)
        show ?thesis by (rule reconcileOne_seen [where insp = insp and info = info and st = st]) (use assms Some Inr live in simp_all)
      qed
    qed
  qed
qed

section \<open>The whole pass\<close>

lemma reconcile_loop:
  assumes "distinct (map i_ID xs)" "set xs \<subseteq> set (instances (db w))" "rows_ok (db w)"
    and "\<And>c. Inspect h c (env w) = (insp c, env w)"
  shows "forI (\<lambda>inst. reconcileOne h inst cs) xs w =
     (Inr () :: goerr + unit, with_rows w (map (\<lambda>r. if i_ID r \<in> i_ID ` set xs then observe cs insp r else r) (instances (db w))))"
  using assms
proof (induction xs arbitrary: w)
  case (Cons x xs)
  let ?w = "with_rows w (update_rows (i_ID x) (observe cs insp) (instances (db w)))"
  have x: "reconcileOne h x cs w = (Inr (), ?w)"
    by (rule reconcileOne_row) (use Cons.prems in auto)
  have sub: "set xs \<subseteq> set (instances (db ?w))"
  proof
    fix y assume y: "y \<in> set xs"
    then have "i_ID y \<noteq> i_ID x" "y \<in> set (instances (db w))"
      using Cons.prems(1,2) by (auto simp: image_iff)
    then show "y \<in> set (instances (db ?w))" by (auto simp: update_rows_def image_iff intro!: bexI [of _ y])
  qed
  have ok: "rows_ok (db ?w)" using Cons.prems(3) rows_ok_update(1) [of "observe cs insp"] by (simp add: with_rows_def)
  have "forI (\<lambda>inst. reconcileOne h inst cs) xs ?w =
     (Inr () :: goerr + unit, with_rows ?w (map (\<lambda>r. if i_ID r \<in> i_ID ` set xs then observe cs insp r else r) (instances (db ?w))))"
    by (rule Cons.IH) (use Cons.prems(1,4) sub ok in simp_all)
  moreover have "map (\<lambda>r. if i_ID r \<in> i_ID ` set xs then observe cs insp r else r) (instances (db ?w)) =
      map (\<lambda>r. if i_ID r \<in> i_ID ` set (x # xs) then observe cs insp r else r) (instances (db w))"
    using Cons.prems(1) by (auto simp: update_rows_def)
  ultimately show ?case by (simp add: prog_run x)
qed (simp add: ret_def)

lemma Reconcile_pass:
  assumes ok: "rows_ok (db w)"
    and "\<And>l. ListByLabel h l (env w) = (Inr (listed l), env w)" "\<And>c. Inspect h c (env w) = (insp c, env w)"
  shows "Reconcile h w = (Inr (), w\<lparr>db := (db w)\<lparr>instances :=
      map (observe (index_containers (listed [(LabelManaged, ''true'')]) Map.empty) insp) (instances (db w))\<rparr>\<rparr>)"
proof -
  let ?cs = "index_containers (listed [(LabelManaged, ''true'')]) Map.empty"
  have list: "onD instance_List w = (Inr (rev (instances (db w))), w)"
    using ok by (simp add: rows_ok_def onD_def instance_List_def queryMany_def stmt_def)
  have "forI (\<lambda>inst. reconcileOne h inst ?cs) (rev (instances (db w))) w =
     (Inr () :: goerr + unit, with_rows w (map (\<lambda>r. if i_ID r \<in> i_ID ` set (rev (instances (db w))) then observe ?cs insp r else r) (instances (db w))))"
    by (rule reconcile_loop) (use ok assms(3) in \<open>auto simp: rows_ok_def rev_map [symmetric]\<close>)
  moreover have "map (\<lambda>r. if i_ID r \<in> i_ID ` set (rev (instances (db w))) then observe ?cs insp r else r) (instances (db w)) =
      map (observe ?cs insp) (instances (db w))" by simp
  ultimately have "forI (\<lambda>inst. reconcileOne h inst ?cs) (rev (instances (db w))) w =
      (Inr () :: goerr + unit, with_rows w (map (observe ?cs insp) (instances (db w))))" by (simp only:)
  then show ?thesis by (simp add: Reconcile_def prog_run list onE_def assms(2) with_rows_def)
qed


text \<open>
  Reconciliation settles in one pass: a second pass over an unchanged Docker changes no row.
\<close>

theorem Reconcile_idempotent:
  assumes "db_wf (db w)" "faults (db w) = []"
    and "\<And>l. ListByLabel h l (env w) = (Inr (listed l), env w)" "\<And>c. Inspect h c (env w) = (insp c, env w)"
    and "Reconcile h w = (Inr (), w')"
  shows "Reconcile h w' = (Inr (), w')"
proof -
  let ?cs = "index_containers (listed [(LabelManaged, ''true'')]) Map.empty"
  have w': "w' = with_rows w (map (observe ?cs insp) (instances (db w)))"
    using Reconcile_pass [of w h listed insp] assms by (simp add: with_rows_def rows_ok_def db_wf_def)
  have ids: "map i_ID (instances (db w')) = map i_ID (instances (db w))" by (simp add: w')
  have "one_primary (instances (db w')) = one_primary (instances (db w))"
    by (simp add: w' one_primary_def filter_map comp_def)
  then have "rows_ok (db w')"
    using assms(1,2) ids by (simp add: rows_ok_def db_wf_def w' comp_def)
  moreover have "map (observe ?cs insp) (instances (db w')) = instances (db w')" by (simp add: w' observe_idem)
  ultimately show ?thesis
    using Reconcile_pass [of w' h listed insp] assms(3,4) by (simp add: w' with_rows_def)
qed

section \<open>Whatever fails\<close>

text \<open>What a pass may do to one row, under any failures of the database or the runtime.\<close>

definition adopted :: "container_info list \<Rightarrow> Instance \<Rightarrow> Instance \<Rightarrow> bool" where
  "adopted cs i j \<longleftrightarrow> i_ID j = i_ID i \<and> (in_flight (i_Status i) \<longrightarrow> j = i) \<and>
     (i_ContainerID j = i_ContainerID i \<or>
      (\<exists>c\<in>set cs. ci_ID c = i_ContainerID j \<and> \<not> transientRole (map_get (ci_Labels c) LabelRole) \<and>
         map_get (ci_Labels c) LabelInstance = i_ID i))"

definition rows_from :: "container_info list \<Rightarrow> Instance list \<Rightarrow> Instance list \<Rightarrow> bool" where
  "rows_from cs rows0 rows \<longleftrightarrow> list_all2 (adopted cs) rows0 rows"

lemma keeps_exec_rows:
  assumes "distinct (map i_ID rows0)" "i \<in> set rows0" "\<And>j. adopted cs i j \<Longrightarrow> adopted cs i (up j)"
  shows "keeps (\<lambda>w. rows_from cs rows0 (instances (db w))) (onD (instance_exec up (i_ID i)))"
proof (rule keepsI)
  fix w :: "'a world" assume I: "rows_from cs rows0 (instances (db w))"
  obtain r d' where r: "instance_exec up (i_ID i) (db w) = (r, d')" by fastforce
  then obtain fs where d': "d' = (db w)\<lparr>faults := fs,
      instances := (if r = Inr () then update_rows (i_ID i) up (instances (db w)) else instances (db w))\<rparr>"
    by (rule instance_exec_result)
  have "list_all2 (adopted cs) rows0 (update_rows (i_ID i) up (instances (db w)))"
    unfolding update_rows_def list.rel_map
  proof (rule list.rel_mono_strong [OF I [unfolded rows_from_def]])
    fix k j assume k: "k \<in> set rows0" "adopted cs k j"
    show "adopted cs k (if i_ID j = i_ID i then up j else j)"
      using assms k by (auto simp: adopted_def dest!: distinct_map_unique [OF assms(1) k(1) assms(2)])
  qed
  with I r d' show "rows_from cs rows0 (instances (db (snd (onD (instance_exec up (i_ID i)) w))))"
    by (simp add: rows_from_def)
qed

lemma keeps_reconcileOne:
  assumes d: "distinct (map i_ID rows0)" and i: "i \<in> set rows0"
  shows "keeps (\<lambda>w. rows_from cs rows0 (instances (db w))) (reconcileOne h i (index_containers cs Map.empty))"
proof (cases "in_flight (i_Status i)")
  case False
  have st: "keeps (\<lambda>w. rows_from cs rows0 (instances (db w))) (onD (instance_SetStatus (i_ID i) st le))" for st le
    unfolding instance_SetStatus_def by (rule keeps_exec_rows [OF d i]) (use False in \<open>auto simp: adopted_def\<close>)
  have rt: "keeps (\<lambda>w. rows_from cs rows0 (instances (db w))) (onD (instance_SetRuntime (i_ID i) (ci_ID c) p))"
    if "index_containers cs Map.empty (i_ID i) = Some c" for c p
    unfolding instance_SetRuntime_def
    by (rule keeps_exec_rows [OF d i]) (use False index_containers_main [OF that] in \<open>auto simp: adopted_def\<close>)
  show ?thesis
    unfolding reconcileOne_def Let_def by (intro keeps_rules st rt)
qed (simp add: reconcileOne_def keeps_rules)

lemma keeps_List: "keeps (\<lambda>w. I (instances (db w))) (onD instance_List)"
  by (auto simp: keeps_def instance_List_def queryMany_def stmt_def split: list.split)

lemma List_rows: "onD instance_List w = (Inr xs, w') \<Longrightarrow> xs = rev (instances (db w)) \<and> instances (db w') = instances (db w)"
  by (auto simp: onD_def instance_List_def queryMany_def stmt_def split: list.splits if_splits)

text \<open>
  Whatever fails, and whatever Docker reports, a reconciliation pass never touches a row
  that belongs to an operation in flight (provisioning, restoring, destroying) or is in
  error, adds or removes no row, and records for a row no container other than the one it
  had or a listed main container of that very instance: a short-lived helper (restore,
  base backup, drill, router) is never adopted.
\<close>

theorem Reconcile_respects_in_flight:
  assumes "db_wf (db w)" "Reconcile h w = (r, w')"
  shows "\<exists>cs. (fst (ListByLabel h [(LabelManaged, ''true'')] (env w)) = Inr cs \<or> cs = []) \<and>
     list_all2 (\<lambda>i j. i_ID j = i_ID i \<and> (in_flight (i_Status i) \<longrightarrow> j = i) \<and>
       (i_ContainerID j = i_ContainerID i \<or>
        (\<exists>c\<in>set cs. ci_ID c = i_ContainerID j \<and> \<not> transientRole (map_get (ci_Labels c) LabelRole) \<and>
           map_get (ci_Labels c) LabelInstance = i_ID i))) (instances (db w)) (instances (db w'))"
proof -
  let ?rows = "instances (db w)"
  have same: "rows_from cs ?rows ?rows" for cs by (simp add: rows_from_def list.rel_refl adopted_def)
  obtain a w1 where ls: "onD instance_List w = (a, w1)" by fastforce
  then have w1: "instances (db w1) = ?rows" "env w1 = env w"
    using keeps_result [OF keeps_List [of "\<lambda>x. x = ?rows"] refl ls] onD_result [OF ls] by auto
  obtain b w2 where lb: "onE (ListByLabel h [(LabelManaged, ''true'')]) w1 = (b, w2)" by fastforce
  then have w2: "instances (db w2) = ?rows" "fst (ListByLabel h [(LabelManaged, ''true'')] (env w)) = b"
    using w1 onE_result [OF lb] by auto
  show ?thesis
  proof (cases "isl a \<or> isl b")
    case True
    then have "instances (db w') = ?rows"
      using assms(2) ls lb w1 w2 by (auto simp: Reconcile_def prog_run isl_def split: sum.splits)
    then show ?thesis by (intro exI [of _ "[]"]) (simp add: list.rel_refl)
  next
    case False
    then obtain xs cs where ab: "a = Inr xs" "b = Inr cs" by (auto simp: isl_def) (metis sum.exhaust_sel)
    have xs: "set xs = set ?rows" using List_rows [of w xs w1] ls ab(1) by simp
    have "keeps (\<lambda>v. rows_from cs ?rows (instances (db v))) (forI (\<lambda>inst. reconcileOne h inst (index_containers cs Map.empty)) xs)"
      by (intro keeps_rules keeps_reconcileOne) (use assms(1) xs in \<open>auto simp: db_wf_def\<close>)
    moreover have "forI (\<lambda>inst. reconcileOne h inst (index_containers cs Map.empty)) xs w2 = (r, w')"
      using assms(2) ls lb ab by (simp add: Reconcile_def prog_run)
    moreover have "rows_from cs ?rows (instances (db w2))" by (simp add: w2(1) same)
    ultimately have "rows_from cs ?rows (instances (db w'))" by (metis keeps_result)
    then show ?thesis using w2(2) ab(2) by (intro exI [of _ cs]) (simp add: rows_from_def adopted_def [abs_def])
  qed
qed

section \<open>A run\<close>

text \<open>The running instance of the in-memory runtime, whose row has lost its container.\<close>

definition demo_lost_world :: "fake_env world" where
  "demo_lost_world = with_rows (demo_running_world []) [demo_running\<lparr>i_ContainerID := [], i_Status := StatusStopped\<rparr>]"

lemma fake_queries:
  "ListByLabel (fake_host x g ex lb) l e = (Inr (map (\<lambda>(cid, c). \<lparr>ci_ID = cid, ci_Name = cs_Name (fc_spec c), ci_State = fc_status c,
       ci_Labels = cs_Labels (fc_spec c)\<rparr>) (filter (\<lambda>(cid, c). labelsMatch (cs_Labels (fc_spec c)) l) (fk_containers (fst e)))), e)"
  "Inspect (fake_host x g ex lb) cid e = (fst (fake_Inspect cid (fst e)), e)"
  by (auto simp: fake_host_def on_fake_def fake_ListByLabel_def fake_Inspect_def split: prod.splits sum.splits)

lemma demo_lost_ok: "db_wf (db demo_lost_world)" "faults (db demo_lost_world) = []"
  by (simp_all add: db_wf_def demo_lost_world_def with_rows_def demo_running_world_def demo_db_def one_primary_def
      ids_of_def demo_running_def demo_instance_def)

lemmas demo_lost_run = demo_lost_world_def with_rows_def demo_running_world_def demo_running_env_def demo_running_def
  demo_instance_def observe_def in_flight_def labelsMatch_def containerSpec_def recoveryLabels_def instanceLabels_def
  LabelManaged_def LabelInstance_def LabelRole_def LabelName_def LabelStanza_def LabelRepoType_def LabelPGVersion_def LabelCluster_def
  map_get_def transientRole_def fake_Inspect_def fake_get_def demo_provisioner_def fake_provisioner_def


theorem Reconcile_idempotent_witness:
  "\<exists>w'. Reconcile (p_rt demo_provisioner) demo_lost_world = (Inr (), w') \<and> Reconcile (p_rt demo_provisioner) w' = (Inr (), w')"
proof -
  have h: "p_rt demo_provisioner = fake_host None None (\<lambda>_. None) tagged_lib" by (simp add: demo_provisioner_def)
  obtain w' where r: "Reconcile (fake_host None None (\<lambda>_. None) tagged_lib) demo_lost_world = (Inr (), w')"
    using Reconcile_pass [OF _ fake_queries] demo_lost_ok by (fastforce simp: rows_ok_def db_wf_def)
  with Reconcile_idempotent [OF demo_lost_ok fake_queries r] show ?thesis unfolding h by blast
qed

theorem Reconcile_respects_in_flight_witness:
  "\<exists>r w'. Reconcile (p_rt demo_provisioner) demo_world = (r, w') \<and> instances (db w') = [demo_instance ''i1'' [] RoleStandalone]"
proof -
  obtain r w' where run: "Reconcile (p_rt demo_provisioner) demo_world = (r, w')" by fastforce
  have wf: "db_wf (db demo_world)"
    by (simp add: db_wf_def demo_world_def demo_db_def one_primary_def ids_of_def demo_instance_def)
  from Reconcile_respects_in_flight [OF wf run] have "instances (db w') = [demo_instance ''i1'' [] RoleStandalone]"
    by (auto simp: demo_world_def demo_db_def in_flight_def demo_instance_def list_all2_Cons1)
  with run show ?thesis by blast
qed

end
