(* ===== verification/GoURL.thy ===== *)
theory GoURL
  imports GoStrings
begin

text \<open>
  The part of the standard library's \<^verbatim>\<open>net/url\<close> that builds connection strings:
  \<^verbatim>\<open>URL.String\<close> of a URL with user information, and the percent escaping behind it,
  with the decoder \<^verbatim>\<open>unescape\<close> and the way \<^verbatim>\<open>url.Parse\<close> finds the user information
  of an authority. A byte is a \<open>char\<close>; a mode is the \<^verbatim>\<open>encoding\<close> argument of
  \<^verbatim>\<open>shouldEscape\<close>.
\<close>

datatype url_mode = encodeUserPassword | encodeHost

definition url_plain :: "char \<Rightarrow> bool" where
  "url_plain c \<longleftrightarrow> is_lower c \<or> is_upper c \<or> is_digit c \<or> c \<in> set ''-_.~''"

definition shouldEscape :: "url_mode \<Rightarrow> char \<Rightarrow> bool" where
  "shouldEscape mode c =
     (if url_plain c then False
      else if mode = encodeHost then \<not> (c \<in> set ''!$&()*+,;=:[]<>'' \<or> c = squote \<or> c = dquote)
      else c \<notin> set ''$&+,;='')"

definition upperhex :: "nat \<Rightarrow> char" where
  "upperhex d = char_of (if d < 10 then 48 + d else 55 + d)"

definition url_escape :: "url_mode \<Rightarrow> string \<Rightarrow> string" where
  "url_escape mode s = concat (map (\<lambda>c.
     if shouldEscape mode c then [CHR ''%'', upperhex (byte_val c div 16), upperhex (byte_val c mod 16)] else [c]) s)"

definition ishex :: "char \<Rightarrow> bool" where
  "ishex c \<longleftrightarrow> is_digit c \<or> (97 \<le> byte_val c \<and> byte_val c \<le> 102) \<or> (65 \<le> byte_val c \<and> byte_val c \<le> 70)"

definition unhex :: "char \<Rightarrow> nat" where
  "unhex c = (if is_digit c then byte_val c - 48 else if byte_val c < 97 then byte_val c - 55 else byte_val c - 87)"

fun url_unescape :: "string \<Rightarrow> string option" where
  "url_unescape [] = Some []"
| "url_unescape (c # s) =
     (if c = CHR ''%'' then
        (case s of a # b # t \<Rightarrow>
           if ishex a \<and> ishex b then map_option ((#) (char_of (16 * unhex a + unhex b))) (url_unescape t) else None
         | _ \<Rightarrow> None)
      else map_option ((#) c) (url_unescape s))"

text \<open>\<^verbatim>\<open>url.URL{Scheme, User: url.UserPassword(u, p), Host, Path, RawQuery}.String()\<close>, for a
  path that begins with a slash and needs no escaping.\<close>

definition url_string :: "string \<Rightarrow> string \<Rightarrow> string \<Rightarrow> string \<Rightarrow> string \<Rightarrow> string \<Rightarrow> string" where
  "url_string scheme user password host path query =
     scheme @ ''://'' @ url_escape encodeUserPassword user @ '':'' @ url_escape encodeUserPassword password @ ''@'' @
     url_escape encodeHost host @ path @ (if query \<noteq> [] then ''?'' @ query else [])"

text \<open>How \<^verbatim>\<open>url.Parse\<close> reads the user information: the authority runs from the double slash to
  the next slash, its user information to the last \<^verbatim>\<open>@\<close>, the user name to the first
  colon of that.\<close>

definition url_authority :: "string \<Rightarrow> string" where
  "url_authority s = (case Index s ''://'' of None \<Rightarrow> [] | Some i \<Rightarrow> takeWhile (\<lambda>c. c \<noteq> CHR ''/'') (drop (i + 3) s))"

definition url_userinfo :: "string \<Rightarrow> (string \<times> string) option" where
  "url_userinfo s =
     (let auth = url_authority s in
      if CHR ''@'' \<notin> set auth then None
      else (let info = rev (tl (dropWhile (\<lambda>c. c \<noteq> CHR ''@'') (rev auth))) in
        case Cut info (CHR '':'') of (u, p, found) \<Rightarrow>
          if \<not> found then None
          else (case (url_unescape u, url_unescape p) of (Some u', Some p') \<Rightarrow> Some (u', p') | _ \<Rightarrow> None)))"

section \<open>Escaping loses nothing and hides every delimiter\<close>

lemma byte_val_less [simp]: "byte_val c < 256"
  by (simp add: byte_val_def)

lemma byte_val_char_of: "byte_val (char_of n) = n mod 256"
  by (simp add: byte_val_def)

lemma char_of_byte_val [simp]: "char_of (byte_val c) = c"
  by (simp add: byte_val_def)

lemma upperhex_byte: "d < 16 \<Longrightarrow> byte_val (upperhex d) = (if d < 10 then 48 + d else 55 + d)"
  by (simp add: upperhex_def byte_val_char_of)

lemma upperhex_hex: "d < 16 \<Longrightarrow> ishex (upperhex d) \<and> unhex (upperhex d) = d"
  by (simp add: ishex_def unhex_def is_digit_def upperhex_byte)

lemma url_escape_simps [simp]:
  "url_escape mode [] = []"
  "url_escape mode (c # s) = (if shouldEscape mode c then
     [CHR ''%'', upperhex (byte_val c div 16), upperhex (byte_val c mod 16)] else [c]) @ url_escape mode s"
  by (simp_all add: url_escape_def)

lemma percent_escaped: "shouldEscape encodeUserPassword (CHR ''%'')"
  by (simp add: shouldEscape_def url_plain_def is_lower_def is_upper_def is_digit_def byte_val_def)

theorem url_unescape_escape: "url_unescape (url_escape encodeUserPassword s) = Some s"
proof (induction s)
  case (Cons c s)
  have "16 * (byte_val c div 16) + byte_val c mod 16 = byte_val c" by simp
  moreover have "byte_val c div 16 < 16" using byte_val_less [of c] by (simp add: less_mult_imp_div_less)
  ultimately show ?case
    using Cons percent_escaped upperhex_hex [of "byte_val c div 16"] upperhex_hex [of "byte_val c mod 16"] by auto
qed simp

lemma upperhex_plain: "d < 16 \<Longrightarrow> url_plain (upperhex d)"
  by (simp add: url_plain_def is_digit_def is_upper_def upperhex_byte)

lemma url_escape_set: "c \<in> set (url_escape mode s) \<Longrightarrow> c = CHR ''%'' \<or> \<not> shouldEscape mode c"
proof (induction s)
  case (Cons x s)
  have "byte_val x div 16 < 16" using byte_val_less [of x] by (simp add: less_mult_imp_div_less)
  then show ?case
    using Cons upperhex_plain [of "byte_val x div 16"] upperhex_plain [of "byte_val x mod 16"]
    by (auto simp: shouldEscape_def split: if_splits)
qed simp

lemma delimiters_escaped: "c \<in> set '':/?@'' \<Longrightarrow> c \<notin> set (url_escape encodeUserPassword s)"
  by (auto dest!: url_escape_set simp: shouldEscape_def url_plain_def is_lower_def is_upper_def is_digit_def byte_val_def)

lemma host_delimiters: "c \<in> set ''/?@'' \<Longrightarrow> c \<notin> set (url_escape encodeHost s)"
  by (auto dest!: url_escape_set simp: shouldEscape_def url_plain_def is_lower_def is_upper_def is_digit_def byte_val_def)

lemma Cut_first: "c \<notin> set a \<Longrightarrow> Cut (a @ c # b) c = (a, b, True)"
  by (induction a) auto

lemma dropWhile_stop: "\<forall>x\<in>set a. P x \<Longrightarrow> \<not> P c \<Longrightarrow> dropWhile P (a @ c # b) = c # b"
  by (induction a) auto

lemma takeWhile_stop: "\<forall>x\<in>set a. P x \<Longrightarrow> \<not> P c \<Longrightarrow> takeWhile P (a @ c # b) = a"
  by (induction a) auto

lemma Index_scheme: "CHR '':'' \<notin> set a \<Longrightarrow> Index (a @ ''://'' @ b) ''://'' = Some (length a)"
proof (induction a)
  case Nil
  then show ?case by (simp add: HasPrefix_def)
next
  case (Cons c a)
  then show ?case by (auto simp: HasPrefix_def)
qed

text \<open>A URL built from any user name and any password reads back as exactly these two.\<close>

theorem url_userinfo_string:
  assumes "CHR '':'' \<notin> set scheme" "HasPrefix path ''/''"
  shows "url_userinfo (url_string scheme user password host path query) = Some (user, password)"
proof -
  let ?u = "url_escape encodeUserPassword user" and ?p = "url_escape encodeUserPassword password"
    and ?h = "url_escape encodeHost host"
  from assms(2) obtain t where path: "path = CHR ''/'' # t" by (auto simp: HasPrefix_iff)
  have no: "CHR ''/'' \<notin> set ?u" "CHR ''/'' \<notin> set ?p" "CHR ''/'' \<notin> set ?h" "CHR ''@'' \<notin> set ?h" "CHR '':'' \<notin> set ?u"
    by (simp_all add: delimiters_escaped host_delimiters)
  let ?auth = "?u @ '':'' @ ?p @ ''@'' @ ?h"
  have "url_authority (url_string scheme user password host path query) = ?auth"
  proof -
    have "url_string scheme user password host path query =
        scheme @ ''://'' @ (?auth @ CHR ''/'' # (t @ (if query \<noteq> [] then ''?'' @ query else [])))"
      by (simp add: url_string_def path)
    then have "url_authority (url_string scheme user password host path query) =
        takeWhile (\<lambda>c. c \<noteq> CHR ''/'') (?auth @ CHR ''/'' # (t @ (if query \<noteq> [] then ''?'' @ query else [])))"
      unfolding url_authority_def by (simp only: Index_scheme [OF assms(1)]) simp
    also have "\<dots> = ?auth" by (rule takeWhile_stop) (use no in auto)
    finally show ?thesis .
  qed
  moreover have "rev (tl (dropWhile (\<lambda>c. c \<noteq> CHR ''@'') (rev ?auth))) = ?u @ CHR '':'' # ?p"
    by (simp, subst dropWhile_stop) (use no in auto)
  ultimately show ?thesis
    unfolding url_userinfo_def Let_def using no by (simp add: Cut_first url_unescape_escape)
qed

end
