(* ===== verification/ClusterCtl.thy ===== *)
theory ClusterCtl
  imports Replica GoURL
begin

text \<open>
  Package \<^verbatim>\<open>internal/clusterctl\<close>: creating a cluster with its member rows, provisioning
  the members and the router, connection strings, and tearing a cluster down; with
  \<^verbatim>\<open>Provisioner.DSN\<close> of \<^verbatim>\<open>internal/provision/lifecycle.go\<close>. The stores are the
  repositories of \<open>MetaDB\<close>, the provisioner and the router remover are those of the
  other theories, as the API server wires them. The progress callback is left out.
\<close>

section \<open>The service\<close>

record 'e Service =
  s_prov :: "'e Provisioner"
  s_repoType :: RepoType
  s_masterKey :: string

record Input =
  in_Name :: string
  in_Replicas :: int
  in_Password :: string
  in_RepoType :: RepoType
  in_Version :: string
  in_Parameters :: strmap
  in_Extensions :: "string list"
  in_PoolMode :: string

definition member_spec :: "Input \<Rightarrow> RepoType \<Rightarrow> string \<Rightarrow> Role \<Rightarrow> NewInstance" where
  "member_spec inp repoType name role = \<lparr>n_Name = name, n_Image = [], n_PGVersion = in_Version inp, n_ClusterID = [],
     n_Role = role, n_RepoType = repoType, n_Superuser = [], n_Password = in_Password inp,
     n_Parameters = in_Parameters inp, n_Extensions = in_Extensions inp\<rparr>"

definition member_specs :: "Input \<Rightarrow> RepoType \<Rightarrow> NewInstance list" where
  "member_specs inp repoType =
     member_spec inp repoType (in_Name inp @ ''-p'') RolePrimary #
     map (\<lambda>i. member_spec inp repoType (in_Name inp @ ''-r'' @ Itoa i) RoleReplica) [1..in_Replicas inp]"

primrec validate_specs :: "string \<Rightarrow> NewInstance list \<Rightarrow> goerr option" where
  "validate_specs name [] = None"
| "validate_specs name (spec # specs) = (case NewInstance_Validate spec of
       Some e \<Rightarrow> Some (New KindInvalid (''cluster: derived member name invalid for cluster name '' @ name @ '': '' @ Error e))
     | None \<Rightarrow> validate_specs name specs)"

definition create_member :: "'e Service \<Rightarrow> string \<Rightarrow> NewInstance \<Rightarrow> ('e world, unit) gofun" where
  "create_member s cid spec =
     guardE (onD (cluster_Delete cid))
       (bindE (instance_Create (p_rt (s_prov s)) (p_kek (s_prov s)) (spec\<lparr>n_ClusterID := cid\<rparr>)) (\<lambda>_. ret ()))"

definition Create :: "'e Service \<Rightarrow> Input \<Rightarrow> ('e world, Cluster) gofun" where
  "Create s inp =
     (case NewCluster_Validate \<lparr>nc_Name = in_Name inp, nc_PoolMode = []\<rparr> of
        Some e \<Rightarrow> fail e
      | None \<Rightarrow>
          if in_Replicas inp < 0 \<or> 9 < in_Replicas inp then fail (New KindInvalid ''cluster: replicas must be 0-9'')
          else
            let repoType = (if repo_string (in_RepoType inp) = [] then s_repoType s else in_RepoType inp);
                specs = member_specs inp repoType in
            (case validate_specs (in_Name inp) specs of
               Some e \<Rightarrow> fail e
             | None \<Rightarrow>
                 bindE (onD (cluster_Create \<lparr>nc_Name = in_Name inp, nc_PoolMode = in_PoolMode inp\<rparr>)) (\<lambda>c.
                 bindE (forE (create_member s (c_ID c)) specs) (\<lambda>_. ret c))))"

section \<open>Provisioning a cluster\<close>

text \<open>The zero value of \<^verbatim>\<open>instance.Instance\<close>, which a failed \<^verbatim>\<open>Get\<close> returns. Its status and
  repository type, which no reader looks at, stand for the empty string.\<close>

definition zero_Instance :: Instance where
  "zero_Instance = \<lparr>i_ID = [], i_Name = [], i_Status = StatusProvisioning, i_Image = [], i_PGVersion = [],
     i_ContainerID = [], i_HostPort = 0, i_DataVolume = [], i_RepoType = RepoOther [], i_Stanza = [], i_Superuser = [],
     i_LastError = [], i_ClusterID = [], i_Role = RoleUnset, i_Parameters = [], i_Extensions = [], i_Public = False,
     i_Encrypted = False\<rparr>"

definition cluster_router_spec :: "'e Service \<Rightarrow> Cluster \<Rightarrow> Instance \<Rightarrow> string \<Rightarrow> string list \<Rightarrow> RouterSpec" where
  "cluster_router_spec s c primary password replicaNames = \<lparr>rs_ClusterID = c_ID c, rs_ClusterName = c_Name c,
     rs_Database = ''postgres'', rs_User = i_Superuser primary, rs_Password = password,
     rs_AdminPassword = RouterAdminPass (Lib (p_rt (s_prov s))) (s_masterKey s) (c_ID c),
     rs_Members = RouterMembersFromInstances (i_Name primary) replicaNames, rs_PoolMode = c_PoolMode c, rs_Mirrors = []\<rparr>"

definition provision_cluster :: "'e Service \<Rightarrow> string \<Rightarrow> ('e world, unit) gofun" where
  "provision_cluster s clusterID =
     (let p = s_prov s in
      bindE (onD (cluster_Get clusterID)) (\<lambda>c.
      bindE (onD (instance_ListByCluster clusterID)) (\<lambda>members.
      case members of
        [] \<Rightarrow> fail (New KindInternal ''cluster: no primary member'')
      | m # replicas \<Rightarrow>
          if i_Role m \<noteq> RolePrimary then fail (New KindInternal ''cluster: no primary member'')
          else
            bindE (Provision p (i_ID m)) (\<lambda>_.
            attempt (onD (instance_Get (i_ID m))) (\<lambda>r.
            let primary = (case r of Inl _ \<Rightarrow> zero_Instance | Inr i \<Rightarrow> i) in
            bindE (onD (cluster_SetPrimary clusterID (i_ID primary))) (\<lambda>_.
            bindE (forE (\<lambda>rep. ProvisionReplica p (i_ID rep) primary) replicas) (\<lambda>_.
            bindE (onD (instance_Password (Lib (p_rt p)) (p_kek p) (i_ID primary))) (\<lambda>password.
            bindE (onE (StartRouter p (cluster_router_spec s c primary password (map i_Name replicas)))) (\<lambda>(routerID, port).
            onD (cluster_SetRouter clusterID routerID port)))))))))) "

definition Provision_cluster :: "'e Service \<Rightarrow> string \<Rightarrow> ('e world, unit) gofun" where
  "Provision_cluster s clusterID = attempt (provision_cluster s clusterID) (\<lambda>r. case r of
       Inl e \<Rightarrow> ignoring (onD (cluster_SetStatus clusterID CStatusError (Error e))) (fail e)
     | Inr _ \<Rightarrow> onD (cluster_SetStatus clusterID CStatusRunning []))"

section \<open>Connection strings\<close>

definition host_port :: "string \<Rightarrow> int \<Rightarrow> string" where
  "host_port host port = host @ '':'' @ Itoa port"

definition DSN :: "'e Provisioner \<Rightarrow> string \<Rightarrow> ('e world, string) gofun" where
  "DSN p iid =
     bindE (onD (instance_Get iid)) (\<lambda>inst.
     bindE (onD (instance_Password (Lib (p_rt p)) (p_kek p) iid)) (\<lambda>password.
     let host = (if o_InstanceHost (p_opts p) = [] then ''localhost'' else o_InstanceHost (p_opts p)) in
     ret (url_string ''postgres'' (i_Superuser inst) password (host_port host (i_HostPort inst)) ''/postgres'' ''sslmode=disable'')))"

definition ConnectionDSN :: "'e Service \<Rightarrow> string \<Rightarrow> string \<Rightarrow> ('e world, string) gofun" where
  "ConnectionDSN s clusterID host =
     bindE (onD (cluster_Get clusterID)) (\<lambda>c.
     if c_RouterPort c = 0 then fail (New KindNotFound ''cluster: router not ready'')
     else
       bindE (onD (instance_ListByCluster clusterID)) (\<lambda>members.
       case members of
         [] \<Rightarrow> fail (New KindInternal ''cluster: no members'')
       | primary # _ \<Rightarrow>
           if i_Role primary \<noteq> RolePrimary then fail (New KindInternal ''cluster: no primary member'')
           else
             bindE (onD (instance_Password (Lib (p_rt (s_prov s))) (p_kek (s_prov s)) (i_ID primary))) (\<lambda>password.
             ret (url_string ''postgres'' (i_Superuser primary) password (host_port host (c_RouterPort c)) ''/postgres'' ''sslmode=disable''))))"

definition RouterAdminDSN :: "'e Service \<Rightarrow> string \<Rightarrow> string \<Rightarrow> ('e world, string) gofun" where
  "RouterAdminDSN s clusterID host =
     bindE (onD (cluster_Get clusterID)) (\<lambda>c.
     if c_RouterPort c = 0 then fail (New KindNotFound ''cluster: router not ready'')
     else
       let pass = RouterAdminPass (Lib (p_rt (s_prov s))) (s_masterKey s) (c_ID c) in
       if pass = [] then fail (New KindInternal ''cluster: router admin password unavailable'')
       else ret (url_string ''postgres'' ''pgfleet_admin'' pass (host_port host (c_RouterPort c)) ''/pgcat'' ''sslmode=disable''))"

record RouterBackend =
  rb_Name :: string
  rb_Role :: string
  rb_Address :: string

definition RouterBackends :: "string \<Rightarrow> ('e world, RouterBackend list) gofun" where
  "RouterBackends clusterID =
     bindE (onD (instance_ListByCluster clusterID)) (\<lambda>members.
     ret (map (\<lambda>m. \<lparr>rb_Name = i_Name m, rb_Role = role_string (i_Role m), rb_Address = InstanceContainerName (i_Name m)\<rparr>) members))"

section \<open>Tearing a cluster down\<close>

definition destroy_member :: "'e Service \<Rightarrow> string \<Rightarrow> Instance \<Rightarrow> bool \<Rightarrow> Instance \<Rightarrow> ('e world, unit) gofun" where
  "destroy_member s clusterID primary retainBackups m =
     bindE (if i_Role m = RoleReplica \<and> i_ContainerID primary \<noteq> [] then
              ignoring (onE (DropReplicationSlot (p_rt (s_prov s)) primary (slotName (i_Name m)))) (ret ())
            else ret ()) (\<lambda>_.
     attempt (Destroy (s_prov s) (i_ID m) retainBackups) (\<lambda>r. case r of
       Inl e \<Rightarrow> ignoring (onD (cluster_SetStatus clusterID CStatusError (''destroy failed: '' @ Error e))) (fail e)
     | Inr _ \<Rightarrow> ret ()))"

definition cluster_primary :: "Instance list \<Rightarrow> Instance" where
  "cluster_primary members = (case members of
       m # _ \<Rightarrow> if i_Role m = RolePrimary then m else zero_Instance
     | [] \<Rightarrow> zero_Instance)"

definition Destroy_cluster :: "'e Service \<Rightarrow> string \<Rightarrow> bool \<Rightarrow> ('e world, unit) gofun" where
  "Destroy_cluster s clusterID retainBackups =
     bindE (onD (cluster_Get clusterID)) (\<lambda>c.
     ignoring (onD (cluster_SetStatus clusterID CStatusDestroying []))
     (bindE (if c_RouterContainerID c \<noteq> [] then
               ignoring (onE (RemoveContainer (p_rt (s_prov s)) (c_RouterContainerID c) True)) (ret ())
             else ret ()) (\<lambda>_.
      bindE (onD (instance_ListByCluster clusterID)) (\<lambda>members.
      bindE (forE (destroy_member s clusterID (cluster_primary members) retainBackups) (rev members)) (\<lambda>_.
      onD (cluster_Delete clusterID))))))"

section \<open>What the operations leave of the rows\<close>

text \<open>The columns of an instance row that no lifecycle operation changes, and a view \<open>f\<close> of the
  cluster rows.\<close>

definition ikey :: "Instance \<Rightarrow> string \<times> string \<times> string \<times> Role" where
  "ikey i = (i_ID i, i_Name i, i_ClusterID i, i_Role i)"

definition shape :: "(Cluster \<Rightarrow> 'k) \<Rightarrow> (string \<times> string \<times> string \<times> Role) list \<Rightarrow> 'k list \<Rightarrow> metadb \<Rightarrow> bool" where
  "shape f K C d \<longleftrightarrow> map ikey (instances d) = K \<and> map f (clusters d) = C"

named_theorems shape_rules \<open>operations that keep the shape of the instance and cluster rows\<close>

lemma shape_faults [simp]: "shape f K C (d\<lparr>faults := fs\<rparr>) = shape f K C d"
  by (simp add: shape_def)

lemma keeps_shape_stmt: "(\<And>d. shape f K C d \<Longrightarrow> shape f K C (snd (m d))) \<Longrightarrow> keeps (shape f K C) (stmt msg m)"
  by (rule keeps_stmt) (simp_all add: keeps_def)

lemma shape_instance_exec:
  assumes "\<And>i. ikey (up i) = ikey i"
  shows "keeps (shape f K C) (instance_exec up iid)"
  unfolding instance_exec_def
  by (rule keeps_shape_stmt) (auto simp: shape_def update_rows_def Let_def assms)

lemma shape_cluster_exec:
  assumes "\<And>c. f (up c) = f c"
  shows "keeps (shape f K C) (cluster_exec up cid)"
  unfolding cluster_exec_def
  by (rule keeps_shape_stmt) (auto simp: shape_def Let_def assms)

lemma shape_setters [shape_rules]:
  "keeps (shape f K C) (instance_SetPublic iid pub)" "keeps (shape f K C) (instance_SetEncrypted iid enc)"
  "keeps (shape f K C) (instance_SetStatus iid st le)" "keeps (shape f K C) (instance_SetRuntime iid c p)"
  "keeps (shape f K C) (instance_SetDataVolume iid v)"
  "keeps (shape c_ID K Cs) (cluster_SetStatus cid cst le)"
  by (simp_all add: instance_SetPublic_def instance_SetEncrypted_def instance_SetStatus_def instance_SetRuntime_def
      instance_SetDataVolume_def cluster_SetStatus_def shape_instance_exec shape_cluster_exec ikey_def)

lemma shape_queries [shape_rules]:
  "keeps (shape f K C) (instance_Get iid)" "keeps (shape f K C) (instance_Password lb kek iid)"
  "keeps (shape f K C) (cluster_Get cid)" "keeps (shape f K C) (instance_ListByCluster cid)"
  unfolding instance_Get_def queryOne_def instance_Password_def cluster_Get_def instance_ListByCluster_def queryMany_def
  by (rule keeps_shape_stmt; simp split: option.splits sum.splits)+

lemma shape_shortStamp [shape_rules]: "keeps (\<lambda>w. I (db w)) (shortStamp h)"
  by (simp add: keeps_def shortStamp_def)

lemma shape_Provision [shape_rules]:
  "keeps (\<lambda>w. shape f K C (db w)) (Provision p iid)" "keeps (\<lambda>w. shape f K C (db w)) (ProvisionReplica p iid prim)"
  unfolding Provision_def record_outcome_def provision_def provision_resources_def provision_run_def Let_def
    ProvisionReplica_def provisionReplica_def replica_resources_def replica_run_def runBaseBackup_def
  by (auto intro!: keeps_rules shape_rules)

lemma ikey_ids: "map ikey rows = map ikey rows' \<Longrightarrow> map i_ID rows = map i_ID rows'"
  by (drule arg_cong [of _ _ "map fst"]) (simp add: comp_def ikey_def)

lemma ikey_members:
  assumes "map ikey rows = map ikey rows'"
  shows "map ikey (cluster_members cid rows) = map ikey (cluster_members cid rows')"
proof -
  have g: "map ikey (filter (\<lambda>i. P (ikey i)) rs) = filter P (map ikey rs)" for P rs
    by (simp add: filter_map comp_def)
  have "cluster_members cid rs = filter (\<lambda>i. (\<lambda>(j, n, c, r). c = cid \<and> cid \<noteq> [] \<and> r = RolePrimary) (ikey i)) rs @
      filter (\<lambda>i. (\<lambda>(j, n, c, r). c = cid \<and> cid \<noteq> [] \<and> r \<noteq> RolePrimary) (ikey i)) rs" for rs
    by (auto simp: cluster_members_def Let_def ikey_def intro!: filter_cong)
  then show ?thesis using assms by (simp only: map_append g)
qed

section \<open>Creating a cluster\<close>

text \<open>The rows a cluster's creation has added so far.\<close>

definition added :: "metadb \<Rightarrow> Cluster \<Rightarrow> Instance list \<Rightarrow> metadb \<Rightarrow> bool" where
  "added d0 c ms d \<longleftrightarrow> clusters d = clusters d0 @ [c] \<and> instances d = instances d0 @ ms \<and> backups d = backups d0 \<and>
     (\<forall>m\<in>set ms. i_ClusterID m = c_ID c) \<and> (\<exists>pre. faults d0 = pre @ faults d) \<and> db_wf d"

definition unchanged :: "metadb \<Rightarrow> metadb \<Rightarrow> bool" where
  "unchanged d0 d \<longleftrightarrow> clusters d = clusters d0 \<and> instances d = instances d0 \<and> backups d = backups d0"

definition rollback_failed :: "metadb \<Rightarrow> Cluster \<Rightarrow> metadb \<Rightarrow> bool" where
  "rollback_failed d0 c d \<longleftrightarrow> (\<exists>pre ms. faults d0 = pre @ True # faults d \<and> clusters d = clusters d0 @ [c] \<and>
     instances d = instances d0 @ ms \<and> (\<forall>m\<in>set ms. i_ClusterID m = c_ID c))"

lemma map_drop_primary:
  assumes "\<And>k. k \<in> set cs \<Longrightarrow> c_PrimaryInstanceID k = [] \<or> c_PrimaryInstanceID k \<notin> gone"
  shows "map (\<lambda>c. if c_PrimaryInstanceID c \<in> gone then c\<lparr>c_PrimaryInstanceID := []\<rparr> else c) cs = cs"
proof (rule map_idI)
  fix k assume "k \<in> set cs"
  with assms [of k] show "(if c_PrimaryInstanceID k \<in> gone then k\<lparr>c_PrimaryInstanceID := []\<rparr> else k) = k"
    by (metis (full_types) Cluster.surjective Cluster.update_convs(4))
qed

lemma rollback:
  assumes wf: "db_wf d0" and c: "c_ID c \<notin> c_ID ` set (clusters d0)" "c_ID c \<noteq> []" and "added d0 c ms d"
    and run: "cluster_Delete (c_ID c) d = (r, d')"
  shows "unchanged d0 d' \<or> rollback_failed d0 c d'"
proof -
  note ad = assms(4) [unfolded added_def]
  from run show ?thesis
    unfolding cluster_Delete_def
  proof (cases rule: stmt_cases)
    case (fault fs)
    then show ?thesis using ad by (auto simp: rollback_failed_def)
  next
    case (ran pre fs)
    let ?P = "\<lambda>i. i_ClusterID i = c_ID c"
    let ?gone = "i_ID ` {i \<in> set (instances d). ?P i}"
    have old: "i \<in> set (instances d0) \<Longrightarrow> \<not> ?P i" for i using wf c unfolding db_wf_def by metis
    have ids: "i_ID ` set (instances d0) \<inter> i_ID ` set ms = {}"
    proof -
      have "distinct (map i_ID (instances d0 @ ms))" using ad by (metis db_wf_def)
      then show ?thesis by simp
    qed
    have rows: "filter (\<lambda>i. \<not> ?P i) (instances d) = instances d0"
      using ad old by (auto simp: filter_id_conv filter_empty_conv)
    have prim: "\<forall>k\<in>set (clusters d0). c_PrimaryInstanceID k = [] \<or> c_PrimaryInstanceID k \<in> i_ID ` set (instances d0)"
      using wf unfolding db_wf_def ids_of_def by simp
    have gone: "?gone = i_ID ` set ms" using ad old by auto
    have cl: "filter (\<lambda>k. c_ID k \<noteq> c_ID c) (map (\<lambda>k. if c_PrimaryInstanceID k \<in> ?gone then k\<lparr>c_PrimaryInstanceID := []\<rparr> else k)
        (clusters d)) = clusters d0"
    proof -
      have "map (\<lambda>k. if c_PrimaryInstanceID k \<in> ?gone then k\<lparr>c_PrimaryInstanceID := []\<rparr> else k) (clusters d0) = clusters d0"
        unfolding gone by (rule map_drop_primary) (use prim ids in blast)
      moreover have "filter (\<lambda>k. c_ID k \<noteq> c_ID c) (clusters d0) = clusters d0" using c by (metis (mono_tags, lifting) filter_True image_eqI)
      ultimately show ?thesis using ad by simp
    qed
    have bk: "filter (\<lambda>(iid, b). iid \<notin> ?gone) (backups d) = backups d0"
    proof -
      have "fst ` set (backups d0) \<subseteq> i_ID ` set (instances d0)" using wf unfolding db_wf_def ids_of_def by simp
      then have "filter (\<lambda>(iid, b). iid \<notin> ?gone) (backups d0) = backups d0"
        unfolding gone by (intro filter_eq_selfI) (use ids in force)
      then show ?thesis using ad by simp
    qed
    have "d' = (drop_instances ?P (d\<lparr>faults := fs\<rparr>))
       \<lparr>clusters := filter (\<lambda>k. c_ID k \<noteq> c_ID c) (clusters (drop_instances ?P (d\<lparr>faults := fs\<rparr>))),
        events := filter (\<lambda>ev. ev_ClusterID ev \<noteq> c_ID c) (events (drop_instances ?P (d\<lparr>faults := fs\<rparr>)))\<rparr>"
      using ran(2) ad c(2) by (auto split: if_splits)
    then have "unchanged d0 d'"
      by (simp add: unchanged_def drop_instances_def Let_def rows cl bk)
    then show ?thesis ..
  qed
qed

lemma instance_insert_result:
  assumes "stmt msg (instance_insert n blob) d = (r, d')"
  shows "(\<exists>pre. faults d = pre @ faults d') \<and> clusters d' = clusters d \<and> backups d' = backups d \<and>
     (case r of Inl _ \<Rightarrow> instances d' = instances d
      | Inr i \<Rightarrow> instances d' = instances d @ [i] \<and> (\<exists>uid. i = scan_instance uid n))"
  using assms
proof (cases rule: stmt_cases)
  case (ran pre fs)
  then show ?thesis by (auto simp: instance_insert_def Let_def ids_of_def split: if_splits)
qed auto

lemma instance_Create_result:
  assumes "instance_Create h kek n w = (r, w')" "db_wf (db w)"
  shows "(\<exists>pre. faults (db w) = pre @ faults (db w')) \<and> clusters (db w') = clusters (db w) \<and> backups (db w') = backups (db w) \<and>
     db_wf (db w') \<and>
     (case r of Inl _ \<Rightarrow> instances (db w') = instances (db w)
      | Inr i \<Rightarrow> instances (db w') = instances (db w) @ [i] \<and> (\<exists>uid. i = scan_instance uid (applyDefaults n)))"
proof (cases "NewInstance_Validate n")
  case None
  let ?enc = "wrap_error (Wrap KindInternal ''instance: encrypt password'') (onE (Encrypt h kek (n_Password (applyDefaults n))))"
  obtain b w1 where enc: "?enc w = (b, w1)" by fastforce
  then have db1: "db w1 = db w" by (auto simp: wrap_error_result dest: onE_result)
  show ?thesis
  proof (cases b)
    case (Inl e)
    then show ?thesis using assms None enc db1 by (auto simp: instance_Create_def prog_run Let_def)
  next
    case (Inr blob)
    have run: "stmt ''instance: create'' (instance_insert (applyDefaults n) blob) (db w) = (r, db w')"
      using assms(1) None enc Inr db1 by (auto simp: instance_Create_def prog_run Let_def dest: onD_result)
    have "db_wf (db w')" using keeps_result [OF keeps_instance_insert assms(2) run] .
    with instance_insert_result [OF run] show ?thesis by simp
  qed
next
  case (Some e)
  then show ?thesis using assms by (auto simp: instance_Create_def fail_def)
qed

text \<open>The row a member specification becomes.\<close>

definition row_of :: "string \<Rightarrow> NewInstance \<Rightarrow> Instance \<Rightarrow> bool" where
  "row_of cid spec m \<longleftrightarrow> (\<exists>uid. m = scan_instance uid (applyDefaults (spec\<lparr>n_ClusterID := cid\<rparr>)))"

lemma create_member_result:
  assumes wf: "db_wf d0" "c_ID c \<notin> c_ID ` set (clusters d0)" "c_ID c \<noteq> []" and ad: "added d0 c ms (db w)"
    and run: "create_member s (c_ID c) spec w = (r, w')"
  shows "case r of Inl _ \<Rightarrow> unchanged d0 (db w') \<or> rollback_failed d0 c (db w')
     | Inr _ \<Rightarrow> \<exists>m. row_of (c_ID c) spec m \<and> added d0 c (ms @ [m]) (db w')"
proof -
  let ?n = "spec\<lparr>n_ClusterID := c_ID c\<rparr>"
  obtain a w1 where a: "instance_Create (p_rt (s_prov s)) (p_kek (s_prov s)) ?n w = (a, w1)" by fastforce
  have "db_wf (db w)" using ad by (simp add: added_def)
  note res = instance_Create_result [OF a this]
  show ?thesis
  proof (cases a)
    case (Inl e)
    then have ad1: "added d0 c ms (db w1)" using res ad by (auto simp: added_def)
    obtain q d' where del: "cluster_Delete (c_ID c) (db w1) = (q, d')" by fastforce
    have "r = Inl e" "db w' = d'"
      using run a Inl del by (auto simp: create_member_def prog_run onD_def split: prod.splits)
    with rollback [OF wf ad1 del] show ?thesis by simp
  next
    case (Inr i)
    then obtain uid where i: "i = scan_instance uid (applyDefaults ?n)" using res by auto
    then have "i_ClusterID i = c_ID c" by (simp add: scan_instance_def)
    with Inr res ad have "added d0 c (ms @ [i]) (db w1)" by (auto simp: added_def)
    moreover have "r = Inr ()" "w' = w1" using run a Inr by (auto simp: create_member_def prog_run)
    ultimately show ?thesis using i by (auto simp: row_of_def)
  qed
qed

lemma create_members_result:
  assumes wf: "db_wf d0" "c_ID c \<notin> c_ID ` set (clusters d0)" "c_ID c \<noteq> []"
  shows "added d0 c ms (db w) \<Longrightarrow> forE (create_member s (c_ID c)) specs w = (r, w') \<Longrightarrow>
     (case r of Inl _ \<Rightarrow> unchanged d0 (db w') \<or> rollback_failed d0 c (db w')
      | Inr _ \<Rightarrow> \<exists>new. list_all2 (row_of (c_ID c)) specs new \<and> added d0 c (ms @ new) (db w'))"
proof (induction specs arbitrary: ms w)
  case Nil
  then show ?case by (auto simp: ret_def)
next
  case (Cons spec specs)
  obtain a w1 where a: "create_member s (c_ID c) spec w = (a, w1)" by fastforce
  note one = create_member_result [OF wf Cons.prems(1) a]
  show ?case
  proof (cases a)
    case (Inl e)
    then show ?thesis using Cons.prems(2) a one by (auto simp: prog_run)
  next
    case (Inr u)
    then obtain m where m: "row_of (c_ID c) spec m" "added d0 c (ms @ [m]) (db w1)" using one by auto
    have "forE (create_member s (c_ID c)) specs w1 = (r, w')" using Cons.prems(2) a Inr by (simp add: prog_run)
    from Cons.IH [OF m(2) this] show ?thesis
      using m(1) by (auto split: sum.splits)
  qed
qed

lemma cluster_Create_result:
  assumes "cluster_Create n d = (r, d')" "db_wf d" "\<forall>k. uuids d k \<noteq> []"
  shows "case r of Inl _ \<Rightarrow> unchanged d d'
     | Inr c \<Rightarrow> added d c [] d' \<and> c_ID c \<notin> c_ID ` set (clusters d) \<and> c_ID c \<noteq> [] \<and>
         c_Name c = nc_Name n \<and> c_Status c = CStatusProvisioning \<and> c_PrimaryInstanceID c = [] \<and>
         c_PoolMode c = (if nc_PoolMode n = [] then ''transaction'' else nc_PoolMode n)"
proof (cases "NewCluster_Validate n")
  case (Some e)
  then show ?thesis using assms by (auto simp: cluster_Create_def fail_def unchanged_def)
next
  case None
  let ?pm = "if nc_PoolMode n = [] then ''transaction'' else nc_PoolMode n"
  have run: "stmt ''cluster: create'' (cluster_insert (nc_Name n) ?pm) d = (r, d')"
    using assms(1) None by (simp add: cluster_Create_def)
  have wf': "db_wf d'" using keeps_result [OF keeps_cluster_Create assms(2,1)] .
  from run show ?thesis
  proof (cases rule: stmt_cases)
    case (fault fs) then show ?thesis by (simp add: unchanged_def)
  next
    case (ran pre fs)
    then show ?thesis using wf' assms(3) by (auto simp: cluster_insert_def Let_def unchanged_def added_def split: if_splits)
  qed
qed

text \<open>The rows of a new cluster, as the caller's input determines them.\<close>

definition planned :: "Input \<Rightarrow> string \<Rightarrow> (string \<times> string \<times> Role \<times> Status) list" where
  "planned inp cid = (in_Name inp @ ''-p'', cid, RolePrimary, StatusProvisioning) #
     map (\<lambda>i. (in_Name inp @ ''-r'' @ Itoa i, cid, RoleReplica, StatusProvisioning)) [1..in_Replicas inp]"

lemma row_of_member:
  "row_of cid (member_spec inp rt name role) m \<Longrightarrow> role \<noteq> RoleUnset \<Longrightarrow>
     (i_Name m, i_ClusterID m, i_Role m, i_Status m) = (name, cid, role, StatusProvisioning)"
  by (auto simp: row_of_def scan_instance_def member_spec_def applyDefaults_def Let_def)

lemma planned_rows:
  assumes "list_all2 (row_of cid) (member_specs inp rt) ms"
  shows "map (\<lambda>m. (i_Name m, i_ClusterID m, i_Role m, i_Status m)) ms = planned inp cid"
proof -
  have "list_all2 (\<lambda>spec m. (i_Name m, i_ClusterID m, i_Role m, i_Status m) = (n_Name spec, cid, n_Role spec, StatusProvisioning))
      (member_specs inp rt) ms"
    by (rule list.rel_mono_strong [OF assms]) (auto simp: member_specs_def member_spec_def dest: row_of_member [unfolded member_spec_def])
  then have "map (\<lambda>m. (i_Name m, i_ClusterID m, i_Role m, i_Status m)) ms =
      map (\<lambda>spec. (n_Name spec, cid, n_Role spec, StatusProvisioning)) (member_specs inp rt)"
    by (induction rule: list_all2_induct) auto
  then show ?thesis by (simp add: planned_def member_specs_def member_spec_def comp_def)
qed

text \<open>
  C7. Creating a cluster is all or nothing in the metadata, whatever fails. On success
  exactly one cluster row is added, in state provisioning and without a primary, and with it exactly the planned
  member rows: the primary \<open>name-p\<close> first and the replicas \<open>name-r1\<close> to
  \<open>name-rN\<close>, with \<open>N\<close> between 0 and 9, all of that cluster and all provisioning. On
  an error the instances, clusters and backups are exactly those from before the call,
  unless the roll-back statement itself was lost to a database failure, the last statement
  the call ran; then only the new cluster and members of it are left over. (Identifiers
  the database generates are not empty.)
\<close>

theorem Create_all_or_nothing:
  assumes wf: "db_wf (db w)" and uuid: "\<forall>k. uuids (db w) k \<noteq> []" and run: "Create s inp w = (r, w')"
  shows "case r of
      Inr c \<Rightarrow> clusters (db w') = clusters (db w) @ [c] \<and> c_Name c = in_Name inp \<and> c_Status c = CStatusProvisioning \<and>
        c_PrimaryInstanceID c = [] \<and> 0 \<le> in_Replicas inp \<and> in_Replicas inp \<le> 9 \<and> backups (db w') = backups (db w) \<and>
        (\<exists>ms. instances (db w') = instances (db w) @ ms \<and>
           map (\<lambda>m. (i_Name m, i_ClusterID m, i_Role m, i_Status m)) ms = planned inp (c_ID c))
    | Inl e \<Rightarrow> (clusters (db w') = clusters (db w) \<and> instances (db w') = instances (db w) \<and> backups (db w') = backups (db w)) \<or>
        (\<exists>c ms pre. faults (db w) = pre @ True # faults (db w') \<and> clusters (db w') = clusters (db w) @ [c] \<and>
           instances (db w') = instances (db w) @ ms \<and> (\<forall>m\<in>set ms. i_ClusterID m = c_ID c))"
proof -
  let ?rt = "if repo_string (in_RepoType inp) = [] then s_repoType s else in_RepoType inp"
  let ?n = "\<lparr>nc_Name = in_Name inp, nc_PoolMode = in_PoolMode inp\<rparr>"
  consider (refused) e where "r = Inl e" "w' = w"
    | (writes) "0 \<le> in_Replicas inp" "in_Replicas inp \<le> 9"
        "bindE (onD (cluster_Create ?n)) (\<lambda>c. bindE (forE (create_member s (c_ID c)) (member_specs inp ?rt)) (\<lambda>_. ret c)) w = (r, w')"
    using run by (auto simp: Create_def fail_def Let_def split: option.splits if_splits)
  then show ?thesis
  proof cases
    case writes
    obtain a w1 where a: "onD (cluster_Create ?n) w = (a, w1)" by fastforce
    then have "cluster_Create ?n (db w) = (a, db w1)" by (auto dest: onD_result)
    note cr = cluster_Create_result [OF this wf uuid]
    show ?thesis
    proof (cases a)
      case (Inl e)
      then show ?thesis using writes(3) a cr by (auto simp: prog_run unchanged_def)
    next
      case (Inr c)
      then have c: "added (db w) c [] (db w1)" "c_ID c \<notin> c_ID ` set (clusters (db w))" "c_ID c \<noteq> []"
        "c_Name c = in_Name inp" "c_Status c = CStatusProvisioning" "c_PrimaryInstanceID c = []"
        using cr by auto
      obtain b w2 where b: "forE (create_member s (c_ID c)) (member_specs inp ?rt) w1 = (b, w2)" by fastforce
      have r: "r = (case b of Inl e \<Rightarrow> Inl e | Inr _ \<Rightarrow> Inr c)" "w' = w2"
        using writes(3) a b Inr by (auto simp: prog_run split: sum.splits)
      note res = create_members_result [OF wf c(2,3,1) b]
      show ?thesis
      proof (cases b)
        case (Inl e)
        then show ?thesis using r res by (auto simp: unchanged_def rollback_failed_def)
      next
        case (Inr u)
        then obtain new where new: "list_all2 (row_of (c_ID c)) (member_specs inp ?rt) new" "added (db w) c ([] @ new) (db w2)"
          using res by auto
        with r Inr c(4-6) writes(1,2) planned_rows [OF new(1)] show ?thesis by (auto simp: added_def)
      qed
    qed
  qed simp
qed

text \<open>A cluster with one replica on an empty database.\<close>

definition demo_service :: "fake_env Service" where
  "demo_service = \<lparr>s_prov = demo_provisioner, s_repoType = RepoLocal, s_masterKey = demo_key\<rparr>"

definition demo_input :: Input where
  "demo_input = \<lparr>in_Name = ''orders'', in_Replicas = 1, in_Password = ''long-enough'', in_RepoType = RepoOther [],
     in_Version = [], in_Parameters = [], in_Extensions = [], in_PoolMode = []\<rparr>"

definition demo_empty_world :: "bool list \<Rightarrow> fake_env world" where
  "demo_empty_world fs = \<lparr>env = (NewFake, plain_process), db = \<lparr>faults = fs, uuids = (\<lambda>n. ''u'' @ show_nat n), next_uuid = 0,
     instances = [], sealed_of = [], clusters = [], backups = [], events = []\<rparr>, stampCounter = 0\<rparr>"

lemmas demo_encrypt_run = demo_provisioner_def fake_provisioner_def Encrypt_def seal_def wrap_error_def prog_run newGCM_def
  keyLen_def onE_def fake_host_def fake_rand_def demo_key_def plain_process_def

lemmas demo_insert_run = prog_run onD_def stmt_def instance_insert_def applyDefaults_def ids_of_def one_primary_def
  scan_instance_def str_eval

lemma demo_create: "\<exists>c. fst (Create demo_service demo_input (demo_empty_world [])) = Inr c"
  by (simp add: Create_def demo_input_def NewCluster_Validate_def nameRe_def is_lower_def byte_val_def
      demo_service_def member_specs_def member_spec_def NewInstance_Validate_def RepoType_Valid_def minInstancePasswordLen_def str_eval,
    simp add: prog_run db_run demo_empty_world_def cluster_Create_def NewCluster_Validate_def nameRe_def is_lower_def str_eval cluster_insert_def
      create_member_def instance_Create_def NewInstance_Validate_def RepoType_Valid_def minInstancePasswordLen_def,
    simp add: demo_encrypt_run, simp add: demo_insert_run, simp add: demo_encrypt_run, simp add: demo_insert_run,
    simp add: digit_char_simps flip: numeral_2_eq_2)

theorem Create_all_or_nothing_witness:
  "\<exists>c w'. Create demo_service demo_input (demo_empty_world []) = (Inr c, w') \<and> map i_Name (instances (db w')) = [''orders-p'', ''orders-r1'']"
proof -
  obtain c w' where run: "Create demo_service demo_input (demo_empty_world []) = (Inr c, w')"
    using demo_create by (metis prod.collapse)
  have "db_wf (db (demo_empty_world []))" "\<forall>k. uuids (db (demo_empty_world [])) k \<noteq> []"
    by (simp_all add: demo_empty_world_def db_wf_def one_primary_def ids_of_def)
  from Create_all_or_nothing [OF this run] obtain ms where "instances (db w') = ms"
    "map (\<lambda>m. (i_Name m, i_ClusterID m, i_Role m, i_Status m)) ms = planned demo_input (c_ID c)"
    by (auto simp: demo_empty_world_def)
  then have "map i_Name (instances (db w')) = map fst (planned demo_input (c_ID c))"
    by (metis (no_types, lifting) comp_apply fst_conv map_eq_conv map_map)
  then have "map i_Name (instances (db w')) = [''orders-p'', ''orders-r1'']"
    by (simp add: planned_def demo_input_def Itoa_def str_eval)
  with run show ?thesis by (intro exI conjI)
qed

end
