(* ===== verification/ClusterOps.thy ===== *)
theory ClusterOps
  imports ClusterCtl
begin

text \<open>
  The cluster operations after creation: tearing a cluster down, the credentials in its
  connection string, and what a provisioned cluster has recorded. The provisioner's
  \<^verbatim>\<open>Destroy\<close> enters the teardown through the locale \<open>member_destroyer\<close>.
\<close>

section \<open>Tearing a cluster down\<close>

text \<open>
  What the orchestrator needs of the provisioner's \<^verbatim>\<open>Destroy\<close>: on success exactly that
  instance's row is gone, on failure every row is still there; cluster rows stay.
\<close>

locale member_destroyer =
  fixes destroy :: "string \<Rightarrow> bool \<Rightarrow> ('e world, unit) gofun"
  assumes destroy_rows: "destroy iid retain w = (r, w') \<Longrightarrow> map c_ID (clusters (db w')) = map c_ID (clusters (db w)) \<and>
    map ikey (instances (db w')) = (case r of Inl _ \<Rightarrow> map ikey (instances (db w))
      | Inr _ \<Rightarrow> map ikey (filter (\<lambda>i. i_ID i \<noteq> iid) (instances (db w))))"
begin

text \<open>One pass over the members, last first.\<close>

lemma destroy_rows_all:
  assumes step: "\<And>m w r w'. one m w = (r, w') \<Longrightarrow> \<exists>w1 w2 q. clusters (db w1) = clusters (db w) \<and> instances (db w1) = instances (db w) \<and>
      destroy (i_ID m) retain w1 = (q, w2) \<and> isl r = isl q \<and> map c_ID (clusters (db w')) = map c_ID (clusters (db w2)) \<and>
      map ikey (instances (db w')) = map ikey (instances (db w2))"
  shows "forE one ms w = (r, w') \<Longrightarrow> map c_ID (clusters (db w')) = map c_ID (clusters (db w)) \<and>
     (\<exists>k\<le>length ms. (isl r \<or> k = length ms) \<and>
        map ikey (instances (db w')) = map ikey (filter (\<lambda>i. i_ID i \<notin> i_ID ` set (take k ms)) (instances (db w))))"
proof (induction ms arbitrary: w)
  case Nil
  then show ?case by (auto simp: ret_def)
next
  case (Cons m ms)
  obtain a w0 where a: "one m w = (a, w0)" by fastforce
  from step [OF a] obtain w1 w2 q where s: "clusters (db w1) = clusters (db w)" "instances (db w1) = instances (db w)"
    "destroy (i_ID m) retain w1 = (q, w2)" "isl a = isl q" "map c_ID (clusters (db w0)) = map c_ID (clusters (db w2))"
    "map ikey (instances (db w0)) = map ikey (instances (db w2))" by blast
  note d = destroy_rows [OF s(3), unfolded s(1,2), folded s(5,6)]
  show ?case
  proof (cases a)
    case (Inl e)
    then obtain e' where "q = Inl e'" using s(4) by (cases q) auto
    with d Inl Cons.prems a show ?thesis by (intro conjI exI [of _ 0]) (auto simp: prog_run)
  next
    case (Inr u)
    then obtain u' where q: "q = Inr u'" using s(4) by (cases q) auto
    have rest: "forE one ms w0 = (r, w')" using Cons.prems a Inr by (simp add: prog_run)
    from Cons.IH [OF rest] obtain k where k: "k \<le> length ms" "isl r \<or> k = length ms"
      "map ikey (instances (db w')) = map ikey (filter (\<lambda>i. i_ID i \<notin> i_ID ` set (take k ms)) (instances (db w0)))"
      "map c_ID (clusters (db w')) = map c_ID (clusters (db w0))" by blast
    have f: "map ikey (filter (\<lambda>i. P (fst (ikey i))) rs) = filter (\<lambda>x. P (fst x)) (map ikey rs)" for P rs
      by (simp add: filter_map comp_def)
    have "map ikey (instances (db w')) = filter (\<lambda>x. fst x \<notin> i_ID ` set (take k ms)) (map ikey (instances (db w0)))"
      using k(3) f [of "\<lambda>x. x \<notin> i_ID ` set (take k ms)"] by (simp add: ikey_def)
    also have "map ikey (instances (db w0)) = filter (\<lambda>x. fst x \<noteq> i_ID m) (map ikey (instances (db w)))"
      using d q f [of "\<lambda>x. x \<noteq> i_ID m"] by (simp add: ikey_def)
    also have "filter (\<lambda>x. fst x \<notin> i_ID ` set (take k ms)) \<dots> =
        map ikey (filter (\<lambda>i. i_ID i \<notin> i_ID ` set (take (Suc k) (m # ms))) (instances (db w)))"
      using f [of "\<lambda>x. x \<notin> i_ID ` set (take (Suc k) (m # ms))"] by (simp add: ikey_def conj_commute)
    finally show ?thesis using k d by (intro conjI exI [of _ "Suc k"]) auto
  qed
qed

end

lemma shape_tolerate_missing [shape_rules]: "keeps (\<lambda>w. shape f K C (db w)) (tolerate_missing iid m)"
  unfolding tolerate_missing_def by (intro keeps_rules shape_rules)

lemma instance_Delete_shape:
  "shape c_ID K C d \<Longrightarrow> instance_Delete iid d = (r, d') \<Longrightarrow>
     (case r of Inl _ \<Rightarrow> shape c_ID K C d' | Inr _ \<Rightarrow> shape c_ID (filter (\<lambda>x. fst x \<noteq> iid) K) C d')"
  unfolding instance_Delete_def
  by (erule stmt_cases)
    (auto simp: shape_def drop_instances_def Let_def filter_map comp_def ikey_def split: if_splits)

lemma Destroy_shape:
  "hoare (\<lambda>w. shape c_ID K C (db w)) (Destroy p iid retain)
     (\<lambda>r w. case r of Inl _ \<Rightarrow> shape c_ID K C (db w) | Inr _ \<Rightarrow> shape c_ID (filter (\<lambda>x. fst x \<noteq> iid) K) C (db w))"
  (is "hoare ?P _ ?Q")
proof -
  have del: "hoare ?P (onD (instance_Delete iid)) ?Q"
  proof (rule hoareI)
    fix w :: "'a world" assume "?P w"
    then show "?Q (fst (onD (instance_Delete iid) w)) (snd (onD (instance_Delete iid) w))"
      using instance_Delete_shape [of K C "db w" iid "fst (instance_Delete iid (db w))" "snd (instance_Delete iid (db w))"]
      by (auto split: sum.splits)
  qed
  show ?thesis
    unfolding Destroy_def Let_def
    by (rule hoare_bindE_keeps, (intro keeps_rules shape_rules)[1],
        rule hoare_ignoring [OF keeps_hoare [THEN iffD1]], (intro keeps_rules shape_rules)[1],
        (rule hoare_bindE_keeps, (intro keeps_rules shape_rules)[1])+, rule del) simp_all
qed

interpretation provisioner_destroyer: member_destroyer "Destroy p" for p :: "'e Provisioner"
proof
  fix iid retain r and w w' :: "'e world"
  assume "Destroy p iid retain w = (r, w')"
  from hoare_result [OF Destroy_shape _ this, of "map ikey (instances (db w))" "map c_ID (clusters (db w))"]
  show "map c_ID (clusters (db w')) = map c_ID (clusters (db w)) \<and>
    map ikey (instances (db w')) = (case r of Inl _ \<Rightarrow> map ikey (instances (db w))
      | Inr _ \<Rightarrow> map ikey (filter (\<lambda>i. i_ID i \<noteq> iid) (instances (db w))))"
    by (auto simp: shape_def filter_map comp_def ikey_def split: sum.splits)
qed

lemma SetStatus_ids: "keeps (\<lambda>d. map c_ID (clusters d) = C \<and> map ikey (instances d) = K) (cluster_SetStatus cid st le)"
  using shape_setters(6) [of K C] unfolding shape_def by (simp add: conj_commute)

lemma destroy_member_step:
  fixes w w' :: "'e world"
  assumes "destroy_member s cid prim retain m w = (r, w')"
  shows "\<exists>w1 w2 q. clusters (db w1) = clusters (db w) \<and> instances (db w1) = instances (db w) \<and>
      Destroy (s_prov s) (i_ID m) retain w1 = (q, w2) \<and> isl r = isl q \<and> map c_ID (clusters (db w')) = map c_ID (clusters (db w2)) \<and>
      map ikey (instances (db w')) = map ikey (instances (db w2))"
proof -
  let ?drop = "if i_Role m = RoleReplica \<and> i_ContainerID prim \<noteq> [] then
              ignoring (onE (DropReplicationSlot (p_rt (s_prov s)) prim (slotName (i_Name m)))) (ret ()) else ret () :: ('e world, unit) gofun"
  obtain w1 where w1: "?drop w = (Inr (), w1)" "db w1 = db w" by (cases "?drop w") (auto simp: prog_run split: if_splits)
  obtain q w2 where q: "Destroy (s_prov s) (i_ID m) retain w1 = (q, w2)" by fastforce
  show ?thesis
  proof (cases q)
    case (Inl e)
    have k: "keeps (\<lambda>v. map c_ID (clusters (db v)) = map c_ID (clusters (db w2)) \<and> map ikey (instances (db v)) = map ikey (instances (db w2)))
       (onD (cluster_SetStatus cid CStatusError (''destroy failed: '' @ Error e)))"
      using keeps_onD [OF SetStatus_ids] .
    have "r = Inl e" "w' = snd (onD (cluster_SetStatus cid CStatusError (''destroy failed: '' @ Error e)) w2)"
      using assms w1 q Inl by (simp_all add: destroy_member_def prog_run)
    with keepsD [OF k, of w2] w1(2) q Inl show ?thesis by (intro exI [of _ w1] exI [of _ w2] exI [of _ q]) simp
  next
    case (Inr u)
    then have "r = Inr ()" "w' = w2" using assms w1 q by (simp_all add: destroy_member_def prog_run)
    with w1(2) q Inr show ?thesis by (intro exI [of _ w1] exI [of _ w2] exI [of _ q]) simp
  qed
qed

lemma ListByCluster_result:
  "onD (instance_ListByCluster cid) w = (Inr ms, w') \<Longrightarrow> ms = cluster_members cid (instances (db w)) \<and> instances (db w') = instances (db w) \<and>
     clusters (db w') = clusters (db w)"
  by (auto simp: onD_def instance_ListByCluster_def queryMany_def elim!: stmt_cases split: prod.splits)

lemma cluster_members_filter:
  "cluster_members cid (filter P rows) = filter P (cluster_members cid rows)"
  by (simp add: cluster_members_def Let_def conj_ac)

lemma cluster_members_distinct: "distinct (map i_ID rows) \<Longrightarrow> distinct (map i_ID (cluster_members cid rows))"
  by (auto simp: distinct_map cluster_members_def Let_def intro: inj_on_subset dest: inj_onD)

lemma filter_rev_prefix:
  assumes "distinct (map f ms)" "k \<le> length ms"
  shows "filter (\<lambda>x. f x \<notin> f ` set (take k (rev ms))) ms = take (length ms - k) ms"
proof -
  let ?a = "take (length ms - k) ms" and ?b = "drop (length ms - k) ms"
  have t: "take k (rev ms) = rev ?b" by (simp add: rev_drop assms(2))
  have "distinct (map f ?a @ map f ?b)" using assms(1) by (metis append_take_drop_id map_append)
  then have "f ` set ?a \<inter> f ` set ?b = {}" by simp
  then have "filter (\<lambda>x. f x \<notin> f ` set ?b) ?a = ?a" "filter (\<lambda>x. f x \<notin> f ` set ?b) ?b = []"
    by (force simp: filter_id_conv filter_empty_conv)+
  then have "filter (\<lambda>x. f x \<notin> f ` set ?b) (?a @ ?b) = ?a" by (simp only: filter_append append_Nil2)
  then show ?thesis by (simp add: t)
qed

text \<open>The loop over a cluster's members, seen from the rows.\<close>

lemma destroy_members_rows:
  assumes ids: "distinct (map i_ID (instances (db w)))"
    and run: "forE (destroy_member s cid prim retain) (rev (cluster_members cid (instances (db w)))) w = (r, w')"
  shows "map c_ID (clusters (db w')) = map c_ID (clusters (db w))"
    "map ikey (filter (\<lambda>i. i_ClusterID i \<noteq> cid \<or> cid = []) (instances (db w'))) = map ikey (filter (\<lambda>i. i_ClusterID i \<noteq> cid \<or> cid = []) (instances (db w)))"
    "\<exists>k. map ikey (cluster_members cid (instances (db w'))) = map ikey (take k (cluster_members cid (instances (db w)))) \<and> (isl r \<or> k = 0)"
proof -
  let ?rows = "instances (db w)" and ?ms = "cluster_members cid (instances (db w))"
  from provisioner_destroyer.destroy_rows_all [OF destroy_member_step [where s = s and cid = cid and prim = prim and retain = retain] run]
  obtain k where c: "map c_ID (clusters (db w')) = map c_ID (clusters (db w))" and k: "k \<le> length ?ms" "isl r \<or> k = length ?ms"
    and rows: "map ikey (instances (db w')) = map ikey (filter (\<lambda>i. i_ID i \<notin> i_ID ` set (take k (rev ?ms))) ?rows)" by auto
  show "map c_ID (clusters (db w')) = map c_ID (clusters (db w))" by (rule c)
  have "map ikey (cluster_members cid (instances (db w'))) =
      map ikey (filter (\<lambda>i. i_ID i \<notin> i_ID ` set (take k (rev ?ms))) ?ms)"
    using ikey_members [OF rows] by (simp add: cluster_members_filter)
  also have "\<dots> = map ikey (take (length ?ms - k) ?ms)"
    by (subst filter_rev_prefix [OF cluster_members_distinct [OF ids] k(1)]) simp
  finally show "\<exists>k. map ikey (cluster_members cid (instances (db w'))) = map ikey (take k ?ms) \<and> (isl r \<or> k = 0)"
    using k(2) by (intro exI [of _ "length ?ms - k"]) auto
  have f: "map ikey (filter (\<lambda>i. i_ClusterID i \<noteq> cid \<or> cid = []) rs) = filter (\<lambda>(j, n, c, q). c \<noteq> cid \<or> cid = []) (map ikey rs)" for rs
    by (simp add: filter_map comp_def ikey_def)
  have "i_ID i \<notin> i_ID ` set (take k (rev ?ms))" if "i \<in> set ?rows" "i_ClusterID i \<noteq> cid \<or> cid = []" for i
  proof
    assume "i_ID i \<in> i_ID ` set (take k (rev ?ms))"
    then obtain m where m: "m \<in> set ?ms" "i_ID m = i_ID i" by (auto dest: in_set_takeD)
    then have "m \<in> set ?rows" "i_ClusterID m = cid \<and> cid \<noteq> []" by (auto simp: cluster_members_def Let_def)
    with distinct_map_unique [OF ids] m(2) that show False by blast
  qed
  then have same: "filter (\<lambda>i. i_ClusterID i \<noteq> cid \<or> cid = []) (filter (\<lambda>i. i_ID i \<notin> i_ID ` set (take k (rev ?ms))) ?rows) =
      filter (\<lambda>i. i_ClusterID i \<noteq> cid \<or> cid = []) ?rows"
    by (auto intro!: filter_cong)
  show "map ikey (filter (\<lambda>i. i_ClusterID i \<noteq> cid \<or> cid = []) (instances (db w'))) = map ikey (filter (\<lambda>i. i_ClusterID i \<noteq> cid \<or> cid = []) ?rows)"
    by (simp only: f rows) (simp only: f [symmetric] same)
qed

lemma cluster_Delete_rows:
  assumes "cluster_Delete cid d = (r, d')"
  shows "filter (\<lambda>i. i_ClusterID i \<noteq> cid \<or> cid = []) (instances d') = filter (\<lambda>i. i_ClusterID i \<noteq> cid \<or> cid = []) (instances d)"
    "isl r \<Longrightarrow> instances d' = instances d \<and> clusters d' = clusters d"
    "\<not> isl r \<Longrightarrow> cluster_members cid (instances d') = [] \<and> map c_ID (clusters d') = filter (\<lambda>x. x \<noteq> cid) (map c_ID (clusters d))"
proof -
  have "filter (\<lambda>i. i_ClusterID i \<noteq> cid \<or> cid = []) (instances d') = filter (\<lambda>i. i_ClusterID i \<noteq> cid \<or> cid = []) (instances d) \<and>
      (if isl r then instances d' = instances d \<and> clusters d' = clusters d
       else cluster_members cid (instances d') = [] \<and> map c_ID (clusters d') = filter (\<lambda>x. x \<noteq> cid) (map c_ID (clusters d)))"
    using assms unfolding cluster_Delete_def
  proof (cases rule: stmt_cases)
    case (ran pre fs)
    have m: "map c_ID (filter (\<lambda>c. c_ID c \<noteq> cid) (map (\<lambda>c. if c_PrimaryInstanceID c \<in> G then c\<lparr>c_PrimaryInstanceID := []\<rparr> else c) cs)) =
        filter (\<lambda>x. x \<noteq> cid) (map c_ID cs)" for G cs and cid :: string
      by (induction cs) auto
    show ?thesis
      using ran by (cases "cid \<in> c_ID ` set (clusters d)")
        (auto simp: drop_instances_def Let_def cluster_members_def m filter_empty_conv simp del: map_filter_map_filter map_map filter_map)
  qed simp
  then show "filter (\<lambda>i. i_ClusterID i \<noteq> cid \<or> cid = []) (instances d') = filter (\<lambda>i. i_ClusterID i \<noteq> cid \<or> cid = []) (instances d)"
    "isl r \<Longrightarrow> instances d' = instances d \<and> clusters d' = clusters d"
    "\<not> isl r \<Longrightarrow> cluster_members cid (instances d') = [] \<and> map c_ID (clusters d') = filter (\<lambda>x. x \<noteq> cid) (map c_ID (clusters d))"
    by simp_all
qed

text \<open>Up to the loop over the members the rows keep their shape.\<close>

lemma Destroy_cluster_start:
  assumes "Destroy_cluster s cid retain w = (r, w')"
  obtains (early) "isl r" "shape c_ID (map ikey (instances (db w))) (map c_ID (clusters (db w))) (db w')"
    | (loop) w4 where "shape c_ID (map ikey (instances (db w))) (map c_ID (clusters (db w))) (db w4)"
        "bindE (forE (destroy_member s cid (cluster_primary (cluster_members cid (instances (db w4)))) retain)
           (rev (cluster_members cid (instances (db w4))))) (\<lambda>_. onD (cluster_Delete cid)) w4 = (r, w')"
proof -
  let ?I = "\<lambda>v. shape c_ID (map ikey (instances (db w))) (map c_ID (clusters (db w))) (db v)"
  have I: "?I w" by (simp add: shape_def)
  obtain a w1 where a: "onD (cluster_Get cid) w = (a, w1)" by fastforce
  have k: "keeps ?I (onD (cluster_Get cid))" "keeps ?I (onD (cluster_SetStatus cid CStatusDestroying []))"
    "keeps ?I (onD (instance_ListByCluster cid))" by (intro keeps_rules shape_rules)+
  have I1: "?I w1" by (rule keeps_result [OF k(1) I a])
  show ?thesis
  proof (cases a)
    case (Inl e)
    then show ?thesis using early assms a I1 by (auto simp: Destroy_cluster_def prog_run)
  next
    case (Inr c)
    let ?rm = "if c_RouterContainerID c \<noteq> [] then
               ignoring (onE (RemoveContainer (p_rt (s_prov s)) (c_RouterContainerID c) True)) (ret ()) else ret () :: ('a world, unit) gofun"
    obtain q w2 where q: "onD (cluster_SetStatus cid CStatusDestroying []) w1 = (q, w2)" by fastforce
    have I2: "?I w2" by (rule keeps_result [OF k(2) I1 q])
    obtain w3 where w3: "?rm w2 = (Inr (), w3)" "db w3 = db w2" by (cases "?rm w2") (auto simp: prog_run split: if_splits)
    obtain b w4 where b: "onD (instance_ListByCluster cid) w3 = (b, w4)" by fastforce
    have I4: "?I w4" by (rule keeps_result [OF k(3) _ b]) (simp add: w3(2) I2)
    have rest: "bindE ?rm (\<lambda>_. bindE (onD (instance_ListByCluster cid)) (\<lambda>ms.
        bindE (forE (destroy_member s cid (cluster_primary ms) retain) (rev ms)) (\<lambda>_. onD (cluster_Delete cid)))) w2 = (r, w')"
      using assms a Inr q by (simp add: Destroy_cluster_def prog_run)
    then have rest: "bindE (onD (instance_ListByCluster cid)) (\<lambda>ms.
        bindE (forE (destroy_member s cid (cluster_primary ms) retain) (rev ms)) (\<lambda>_. onD (cluster_Delete cid))) w3 = (r, w')"
      using w3(1) by (simp only: prog_run(3) prod.case sum.case)
    show ?thesis
    proof (cases b)
      case (Inl e)
      then show ?thesis using early rest b I4 by (auto simp: prog_run)
    next
      case (Inr ms)
      with ListByCluster_result b have "ms = cluster_members cid (instances (db w4))" by metis
      with Inr loop [of w4] rest b I4 show ?thesis by (simp add: prog_run)
    qed
  qed
qed

text \<open>
  C18. Tearing a cluster down keeps its primary to the last and touches no one else's rows.
  Whatever fails: the instances that belong to other clusters or to none keep their rows;
  when the call succeeds the cluster's row is gone and no member is left; when it fails,
  the cluster's row is still there and the members left are the first ones of the member
  list, which begins with the primary: as long as one replica is left, so is the
  primary it streams from.
\<close>

theorem Destroy_cluster_primary_last:
  assumes wf: "db_wf (db w)" and run: "Destroy_cluster s cid retain w = (r, w')"
  shows "map ikey (filter (\<lambda>i. i_ClusterID i \<noteq> cid \<or> cid = []) (instances (db w'))) =
       map ikey (filter (\<lambda>i. i_ClusterID i \<noteq> cid \<or> cid = []) (instances (db w))) \<and>
     (case r of
        Inr _ \<Rightarrow> cluster_members cid (instances (db w')) = [] \<and> map c_ID (clusters (db w')) = filter (\<lambda>x. x \<noteq> cid) (map c_ID (clusters (db w)))
      | Inl _ \<Rightarrow> map c_ID (clusters (db w')) = map c_ID (clusters (db w)) \<and>
          (\<exists>k. map ikey (cluster_members cid (instances (db w'))) = map ikey (take k (cluster_members cid (instances (db w))))))"
proof -
  have f: "map ikey (filter (\<lambda>i. i_ClusterID i \<noteq> cid \<or> cid = []) rs) = filter (\<lambda>(j, n, c, q). c \<noteq> cid \<or> cid = []) (map ikey rs)" for rs
    by (simp add: filter_map comp_def ikey_def)
  from run show ?thesis
  proof (cases rule: Destroy_cluster_start)
    case early
    then have k: "map ikey (instances (db w')) = map ikey (instances (db w))" "map c_ID (clusters (db w')) = map c_ID (clusters (db w))"
      by (auto simp: shape_def)
    show ?thesis unfolding f k using ikey_members [OF k(1), of cid] early(1)
      by (cases r) (auto intro: exI [of _ "length (cluster_members cid (instances (db w)))"])
  next
    case (loop w4)
    let ?ms = "cluster_members cid (instances (db w4))"
    have k: "map ikey (instances (db w4)) = map ikey (instances (db w))" "map c_ID (clusters (db w4)) = map c_ID (clusters (db w))"
      using loop(1) by (auto simp: shape_def)
    have ids: "distinct (map i_ID (instances (db w4)))" using wf ikey_ids [OF k(1)] by (simp add: db_wf_def)
    obtain b w5 where b: "forE (destroy_member s cid (cluster_primary ?ms) retain) (rev ?ms) w4 = (b, w5)" by fastforce
    note rows = destroy_members_rows [OF ids b, unfolded f k]
    from rows(3) obtain n where n: "map ikey (cluster_members cid (instances (db w5))) = map ikey (take n (cluster_members cid (instances (db w))))"
      "isl b \<or> n = 0" using ikey_members [OF k(1), of cid] by (metis take_map)
    show ?thesis
    proof (cases b)
      case (Inl e)
      then have "r = Inl e" "w' = w5" using loop(2) b by (simp_all add: prog_run)
      then show ?thesis unfolding f using rows(1,2) n(1) by auto
    next
      case (Inr u)
      then have run': "onD (cluster_Delete cid) w5 = (r, w')" using loop(2) b by (simp add: prog_run)
      then have "cluster_Delete cid (db w5) = (r, db w')" by (auto dest: onD_result)
      note del = cluster_Delete_rows [OF this]
      have other: "filter (\<lambda>(j, n, c, q). c \<noteq> cid \<or> cid = []) (map ikey (instances (db w'))) =
          filter (\<lambda>(j, n, c, q). c \<noteq> cid \<or> cid = []) (map ikey (instances (db w)))"
        using rows(2) arg_cong [OF del(1), of "map ikey"] unfolding f by simp
      show ?thesis unfolding f other
        using del(2,3) rows(1) n(1) by (cases r) (auto intro: exI [of _ n])
    qed
  qed
qed

text \<open>A cluster of a primary and a replica whose containers are already gone.\<close>

definition demo_pair_world :: "fake_env world" where
  "demo_pair_world = (demo_empty_world [])\<lparr>db := (db (demo_empty_world []))\<lparr>
     instances := [demo_instance ''i1'' ''c1'' RolePrimary, demo_instance ''i2'' ''c1'' RoleReplica, demo_instance ''i3'' [] RoleStandalone],
     clusters := [\<lparr>c_ID = ''c1'', c_Name = ''orders'', c_Status = CStatusRunning, c_PrimaryInstanceID = ''i1'',
       c_RouterContainerID = [], c_RouterPort = 0, c_LastError = [], c_PoolMode = ''transaction''\<rparr>]\<rparr>\<rparr>"

lemma drop_instances_run:
  "drop_instances P d =
     (let gone = map i_ID (filter P (instances d)) in
      d\<lparr>instances := filter (\<lambda>i. \<not> P i) (instances d),
        backups := filter (\<lambda>(iid, b). iid \<notin> set gone) (backups d),
        events := filter (\<lambda>ev. ev_InstanceID ev \<notin> set gone) (events d),
        clusters := map (\<lambda>c. if c_PrimaryInstanceID c \<in> set gone then c\<lparr>c_PrimaryInstanceID := []\<rparr> else c) (clusters d)\<rparr>)"
  by (simp add: drop_instances_def Let_def)

lemmas demo_destroy_run = prog_run db_run tolerate_missing_def fake_run data_volume_of_def volumeName_def Destroy_def
  instance_Delete_def stmt_def ids_of_def drop_instances_run Let_def

lemma demo_destroy: "fst (Destroy_cluster demo_service ''c1'' False demo_pair_world) = Inr ()"
  by (simp add: Destroy_cluster_def prog_run demo_pair_world_def demo_empty_world_def db_run cluster_Get_def cluster_SetStatus_def
      cluster_exec_def instance_ListByCluster_def queryMany_def cluster_members_def demo_instance_def destroy_member_def
      cluster_primary_def demo_service_def demo_provisioner_def fake_provisioner_def NewFake_def,
    simp add: demo_destroy_run cluster_Delete_def)

theorem Destroy_cluster_primary_last_witness:
  "\<exists>w'. Destroy_cluster demo_service ''c1'' False demo_pair_world = (Inr (), w') \<and>
     cluster_members ''c1'' (instances (db w')) = [] \<and> map ikey (filter (\<lambda>i. i_ClusterID i \<noteq> ''c1'') (instances (db w'))) =
       [(''i3'', ''i3'', [], RoleStandalone)]"
proof -
  obtain w' where run: "Destroy_cluster demo_service ''c1'' False demo_pair_world = (Inr (), w')"
    using demo_destroy by (metis prod.collapse)
  have wf: "db_wf (db demo_pair_world)"
    by (simp add: demo_pair_world_def demo_empty_world_def db_wf_def one_primary_def ids_of_def demo_instance_def)
  from Destroy_cluster_primary_last [OF wf run] run show ?thesis
    by (simp add: demo_pair_world_def demo_empty_world_def demo_instance_def ikey_def)
qed

section \<open>Connection strings carry the right credentials\<close>

text \<open>
  A cluster's connection string is for its primary: when one is handed out, the user name
  and password that a URL parser reads back from it are exactly the superuser and the
  stored password of the cluster's first member, which is its primary, whatever characters
  they contain and whatever the host is.
\<close>

theorem ConnectionDSN_credentials:
  assumes "ConnectionDSN s cid host w = (Inr dsn, w')"
  shows "\<exists>m ms password d. cluster_members cid (instances (db w)) = m # ms \<and> i_Role m = RolePrimary \<and>
     instances d = instances (db w) \<and> sealed_of d = sealed_of (db w) \<and>
     fst (instance_Password (Lib (p_rt (s_prov s))) (p_kek (s_prov s)) (i_ID m) d) = Inr password \<and>
     url_userinfo dsn = Some (i_Superuser m, password)"
proof -
  obtain a w1 where a: "onD (cluster_Get cid) w = (a, w1)" by fastforce
  then have w1: "instances (db w1) = instances (db w)" "sealed_of (db w1) = sealed_of (db w)"
    by (auto simp: onD_def cluster_Get_def elim!: stmt_cases split: prod.splits option.splits)
  obtain c where c: "a = Inr c" "c_RouterPort c \<noteq> 0"
    using assms a by (auto simp: ConnectionDSN_def prog_run split: sum.splits if_splits)
  obtain b w2 where b: "onD (instance_ListByCluster cid) w1 = (b, w2)" by fastforce
  then have w2: "instances (db w2) = instances (db w)" "sealed_of (db w2) = sealed_of (db w)"
    using w1 by (auto simp: onD_def instance_ListByCluster_def queryMany_def elim!: stmt_cases split: prod.splits)
  obtain m ms where m: "b = Inr (m # ms)" "i_Role m = RolePrimary"
    using assms a b c by (auto simp: ConnectionDSN_def prog_run split: sum.splits if_splits list.splits)
  then have ms: "cluster_members cid (instances (db w)) = m # ms" using ListByCluster_result b w1 by metis
  obtain q w3 where q: "onD (instance_Password (Lib (p_rt (s_prov s))) (p_kek (s_prov s)) (i_ID m)) w2 = (q, w3)" by fastforce
  obtain password where pw: "q = Inr password"
      "dsn = url_string ''postgres'' (i_Superuser m) password (host_port host (c_RouterPort c)) ''/postgres'' ''sslmode=disable''"
    using assms a b c m q by (auto simp: ConnectionDSN_def prog_run split: sum.splits)
  have "fst (instance_Password (Lib (p_rt (s_prov s))) (p_kek (s_prov s)) (i_ID m) (db w2)) = Inr password"
    using q pw(1) by (auto dest!: onD_result)
  moreover have "url_userinfo dsn = Some (i_Superuser m, password)"
    unfolding pw(2) by (rule url_userinfo_string) (simp_all add: HasPrefix_def)
  ultimately show ?thesis using ms m(2) w2 by blast
qed

definition demo_routed_world :: "fake_env world" where
  "demo_routed_world = demo_pair_world\<lparr>db := (db demo_pair_world)\<lparr>sealed_of := [(''i1'', demo_sealed)],
     clusters := map (\<lambda>c. c\<lparr>c_RouterPort := 6432\<rparr>) (clusters (db demo_pair_world))\<rparr>\<rparr>"

lemma demo_password:
  "iid \<in> ids_of d \<Longrightarrow> map_of (sealed_of d) iid = Some demo_sealed \<Longrightarrow> faults d = [] \<Longrightarrow>
     instance_Password (Lib (p_rt (s_prov demo_service))) (p_kek (s_prov demo_service)) iid d = (Inr ''pw'', d)"
  by (simp add: instance_Password_def stmt_def Decrypt_def demo_sealed_def tagged_lib_def NonceSize_def newGCM_def demo_key_def
      keyLen_def Let_def demo_service_def demo_provisioner_def fake_provisioner_def fake_host_def)

theorem ConnectionDSN_credentials_witness:
  "\<exists>dsn w'. ConnectionDSN demo_service ''c1'' ''db.example'' demo_routed_world = (Inr dsn, w') \<and> url_userinfo dsn = Some (''postgres'', ''pw'')"
proof -
  let ?d = "db demo_routed_world"
  have rows: "faults ?d = []" "instances ?d = [demo_instance ''i1'' ''c1'' RolePrimary, demo_instance ''i2'' ''c1'' RoleReplica, demo_instance ''i3'' [] RoleStandalone]"
    "sealed_of ?d = [(''i1'', demo_sealed)]" "map c_ID (clusters ?d) = [''c1'']" "map c_RouterPort (clusters ?d) = [6432]"
    by (simp_all add: demo_routed_world_def demo_pair_world_def demo_empty_world_def)
  have ms: "cluster_members ''c1'' (instances ?d) = [demo_instance ''i1'' ''c1'' RolePrimary, demo_instance ''i2'' ''c1'' RoleReplica]"
    by (simp add: rows cluster_members_def demo_instance_def)
  obtain c where c: "clusters ?d = [c]" "c_ID c = ''c1''" "c_RouterPort c = 6432" using rows(4,5) by (auto simp: map_eq_Cons_conv)
  have pw: "instance_Password (Lib (p_rt (s_prov demo_service))) (p_kek (s_prov demo_service)) ''i1'' ?d = (Inr ''pw'', ?d)"
    by (rule demo_password) (simp_all add: ids_of_def rows demo_instance_def)
  have "\<exists>dsn. fst (ConnectionDSN demo_service ''c1'' ''db.example'' demo_routed_world) = Inr dsn"
    by (simp add: ConnectionDSN_def prog_run onD_def cluster_Get_def stmt_def rows(1) c instance_ListByCluster_def queryMany_def ms)
      (simp add: demo_instance_def pw prog_run)
  then obtain dsn w' where run: "ConnectionDSN demo_service ''c1'' ''db.example'' demo_routed_world = (Inr dsn, w')"
    by (metis prod.collapse)
  have pw: "password = ''pw''" if "instances d = instances ?d" "sealed_of d = sealed_of ?d"
    "fst (instance_Password (Lib (p_rt (s_prov demo_service))) (p_kek (s_prov demo_service)) ''i1'' d) = Inr password" for d password
  proof -
    obtain r d' where r: "instance_Password (Lib (p_rt (s_prov demo_service))) (p_kek (s_prov demo_service)) ''i1'' d = (r, d')" by fastforce
    have nf: "instance_Password (Lib (p_rt (s_prov demo_service))) (p_kek (s_prov demo_service)) ''i1'' (d\<lparr>faults := []\<rparr>) = (Inr ''pw'', d\<lparr>faults := []\<rparr>)"
      by (rule demo_password) (simp_all add: that ids_of_def rows demo_instance_def)
    have "r = Inr password" using that(3) r by simp
    with r nf show ?thesis
      unfolding instance_Password_def by (elim stmt_cases) (auto simp: stmt_def ids_of_def split: if_splits option.splits sum.splits)
  qed
  from ConnectionDSN_credentials [OF run] obtain m ms' password d where
    "cluster_members ''c1'' (instances (db demo_routed_world)) = m # ms'" "instances d = instances (db demo_routed_world)"
    "sealed_of d = sealed_of (db demo_routed_world)"
    "fst (instance_Password (Lib (p_rt (s_prov demo_service))) (p_kek (s_prov demo_service)) (i_ID m) d) = Inr password"
    "url_userinfo dsn = Some (i_Superuser m, password)" by blast
  with ms pw [of d password] run show ?thesis by (auto simp: demo_instance_def)
qed

section \<open>A provisioned cluster records its primary\<close>

lemma shape_weaken: "shape f K C d \<Longrightarrow> shape (\<lambda>c. g (f c)) K (map g C) d"
  by (auto simp: shape_def)

lemma cluster_exec_ok:
  assumes "cluster_exec up cid d = (Inr (), d')"
  shows "cid \<in> c_ID ` set (clusters d) \<and> instances d' = instances d \<and>
     clusters d' = map (\<lambda>c. if c_ID c = cid then up c else c) (clusters d)"
  using assms unfolding cluster_exec_def
  by (elim stmt_cases) (auto simp: Let_def split: if_splits)

lemma instance_Get_ok: "instance_Get iid d = (Inr i, d') \<Longrightarrow> i \<in> set (instances d) \<and> i_ID i = iid \<and> instances d' = instances d"
  unfolding instance_Get_def queryOne_def by (elim stmt_cases) (auto split: option.splits simp: find_Some_iff)

lemma instance_Password_ok: "instance_Password lb kek iid d = (Inr pw, d') \<Longrightarrow> iid \<in> ids_of d"
  unfolding instance_Password_def by (elim stmt_cases) (auto split: if_splits option.splits sum.splits simp: ids_of_def)

text \<open>The cluster rows up to their runtime columns: identity and recorded primary.\<close>

abbreviation prim_of :: "Cluster \<Rightarrow> string \<times> string" where
  "prim_of c \<equiv> (c_ID c, c_PrimaryInstanceID c)"

lemma shape_members:
  assumes "shape f K C d" "shape f' K C' d'" "cluster_members cid (instances d) = m # ms"
  obtains m' ms' where "cluster_members cid (instances d') = m' # ms'" "ikey m' = ikey m"
  using assms ikey_members [of "instances d" "instances d'" cid] that
  by (cases "cluster_members cid (instances d')") (auto simp: shape_def)

lemma shape_SetRouter [shape_rules]: "keeps (shape prim_of K Cs) (cluster_SetRouter cid c p)"
  by (simp add: cluster_SetRouter_def shape_cluster_exec)

lemma provision_cluster_primary:
  assumes ne: "[] \<notin> ids_of (db w)" and run: "provision_cluster s cid w = (Inr (), w')"
  shows "\<exists>m ms. cluster_members cid (instances (db w)) = m # ms \<and> i_Role m = RolePrimary \<and> cid \<in> c_ID ` set (clusters (db w)) \<and>
     shape prim_of (map ikey (instances (db w))) (map (\<lambda>c. (c_ID c, if c_ID c = cid then i_ID m else c_PrimaryInstanceID c)) (clusters (db w))) (db w')"
proof -
  let ?p = "s_prov s"
  let ?K = "map ikey (instances (db w))" and ?C = "map (\<lambda>c. c) (clusters (db w))"
  let ?I = "\<lambda>v. shape (\<lambda>c. c) ?K ?C (db v)"
  have I: "?I w" by (simp add: shape_def)
  have k: "keeps ?I (onD (cluster_Get cid))" "keeps ?I (onD (instance_ListByCluster cid))" "keeps ?I (Provision ?p iid)"
    "keeps ?I (onD (instance_Get iid))" for iid by (intro keeps_rules shape_rules)+
  from run obtain c w1 members w2 where
    w1: "onD (cluster_Get cid) w = (Inr c, w1)" and w2: "onD (instance_ListByCluster cid) w1 = (Inr members, w2)"
    and rest: "(case members of [] \<Rightarrow> fail (New KindInternal ''cluster: no primary member'')
      | m # replicas \<Rightarrow>
          if i_Role m \<noteq> RolePrimary then fail (New KindInternal ''cluster: no primary member'')
          else
            bindE (Provision ?p (i_ID m)) (\<lambda>_.
            attempt (onD (instance_Get (i_ID m))) (\<lambda>r.
            let primary = (case r of Inl _ \<Rightarrow> zero_Instance | Inr i \<Rightarrow> i) in
            bindE (onD (cluster_SetPrimary cid (i_ID primary))) (\<lambda>_.
            bindE (forE (\<lambda>rep. ProvisionReplica ?p (i_ID rep) primary) replicas) (\<lambda>_.
            bindE (onD (instance_Password (Lib (p_rt ?p)) (p_kek ?p) (i_ID primary))) (\<lambda>password.
            bindE (onE (StartRouter ?p (cluster_router_spec s c primary password (map i_Name replicas)))) (\<lambda>(routerID, port).
            onD (cluster_SetRouter cid routerID port)))))))) w2 = (Inr (), w')"
    unfolding provision_cluster_def Let_def by (elim bindE_Inr) blast
  have I1: "?I w1" by (rule keeps_result [OF k(1) I w1])
  have I2: "?I w2" by (rule keeps_result [OF k(2) I1 w2])
  obtain m replicas where m: "members = m # replicas" "i_Role m = RolePrimary"
    using rest by (auto simp: fail_def split: list.splits if_splits)
  have mem: "cluster_members cid (instances (db w1)) = m # replicas" using ListByCluster_result [OF w2] m(1) by simp
  from rest m obtain w3 g w4 where w3: "Provision ?p (i_ID m) w2 = (Inr (), w3)" and w4: "onD (instance_Get (i_ID m)) w3 = (g, w4)"
    and rest2: "(let primary = (case g of Inl _ \<Rightarrow> zero_Instance | Inr i \<Rightarrow> i) in
            bindE (onD (cluster_SetPrimary cid (i_ID primary))) (\<lambda>_.
            bindE (forE (\<lambda>rep. ProvisionReplica ?p (i_ID rep) primary) replicas) (\<lambda>_.
            bindE (onD (instance_Password (Lib (p_rt ?p)) (p_kek ?p) (i_ID primary))) (\<lambda>password.
            bindE (onE (StartRouter ?p (cluster_router_spec s c primary password (map i_Name replicas)))) (\<lambda>(routerID, port).
            onD (cluster_SetRouter cid routerID port)))))) w4 = (Inr (), w')"
    by (auto simp: attempt_def elim!: bindE_Inr split: prod.splits)
  have I4: "?I w4" by (rule keeps_result [OF k(4) keeps_result [OF k(3) I2 w3] w4])
  define primary where "primary = (case g of Inl _ \<Rightarrow> zero_Instance | Inr i \<Rightarrow> i)"
  from rest2 obtain w5 w6 password w7 routerID port w8 where
    w5: "onD (cluster_SetPrimary cid (i_ID primary)) w4 = (Inr (), w5)"
    and w6: "forE (\<lambda>rep. ProvisionReplica ?p (i_ID rep) primary) replicas w5 = (Inr (), w6)"
    and w7: "onD (instance_Password (Lib (p_rt ?p)) (p_kek ?p) (i_ID primary)) w6 = (Inr password, w7)"
    and w8: "onE (StartRouter ?p (cluster_router_spec s c primary password (map i_Name replicas))) w7 = (Inr (routerID, port), w8)"
    and w9: "onD (cluster_SetRouter cid routerID port) w8 = (Inr (), w')"
    unfolding Let_def primary_def [symmetric] by (elim bindE_Inr) (auto split: prod.splits)
  let ?J = "\<lambda>v. shape prim_of ?K (map (\<lambda>c. (c_ID c, if c_ID c = cid then i_ID primary else c_PrimaryInstanceID c)) (clusters (db w))) (db v)"
  have sp: "cid \<in> c_ID ` set (clusters (db w4)) \<and> instances (db w5) = instances (db w4) \<and>
     clusters (db w5) = map (\<lambda>c. if c_ID c = cid then c\<lparr>c_PrimaryInstanceID := i_ID primary\<rparr> else c) (clusters (db w4))"
    using onD_result [OF w5] unfolding cluster_SetPrimary_def by (auto dest: cluster_exec_ok)
  then have J5: "?J w5" using I4 by (simp add: shape_def comp_def)
  have kJ: "keeps ?J (forE (\<lambda>rep. ProvisionReplica ?p (i_ID rep) primary) replicas)"
    "keeps ?J (onD (instance_Password (Lib (p_rt ?p)) (p_kek ?p) (i_ID primary)))"
    "keeps ?J (onE (StartRouter ?p (cluster_router_spec s c primary password (map i_Name replicas))))"
    "keeps ?J (onD (cluster_SetRouter cid routerID port))"
    by (intro keeps_rules shape_rules)+
  have J6: "?J w6" by (rule keeps_result [OF kJ(1) J5 w6])
  have J: "?J w'" by (rule keeps_result [OF kJ(4) keeps_result [OF kJ(3) keeps_result [OF kJ(2) J6 w7] w8] w9])
  have "i_ID primary \<in> ids_of (db w6)" using onD_result [OF w7] by (auto dest: instance_Password_ok)
  moreover have "map i_ID (instances (db w6)) = map i_ID (instances (db w))" using J6 by (intro ikey_ids) (simp add: shape_def)
  ultimately have "i_ID primary \<noteq> []" using ne image_map_eq unfolding ids_of_def by metis
  then obtain i where "g = Inr i" by (cases g) (auto simp: primary_def zero_Instance_def)
  with w4 have pm: "i_ID primary = i_ID m" by (auto simp: primary_def dest!: onD_result instance_Get_ok)
  obtain m' ms' where m': "cluster_members cid (instances (db w)) = m' # ms'" "ikey m' = ikey m"
    by (rule shape_members [OF I1 I mem])
  have "cid \<in> c_ID ` set (clusters (db w))" using sp I4 by (simp add: shape_def)
  moreover have e: "i_ID primary = i_ID m'" and "i_Role m' = RolePrimary" using m'(2) m(2) pm by (auto simp: ikey_def)
  ultimately show ?thesis using m'(1) J [unfolded e] by blast
qed

text \<open>
  A cluster reported as provisioned really has its primary recorded, although the
  program ignores the error of the query that re-reads the primary: when the call returns
  without an error the cluster's row says running with no error, and the instance it
  records as its primary is a member of the cluster whose role is primary; no member changed its
  role and no other cluster its primary. (Identifiers the database generates are not empty.)
\<close>

theorem Provision_cluster_records_primary:
  assumes ne: "[] \<notin> ids_of (db w)" and run: "Provision_cluster s cid w = (Inr (), w')"
  shows "\<exists>m c. m \<in> set (instances (db w')) \<and> i_ClusterID m = cid \<and> i_Role m = RolePrimary \<and>
     c \<in> set (clusters (db w')) \<and> c_ID c = cid \<and> c_PrimaryInstanceID c = i_ID m \<and> c_Status c = CStatusRunning \<and> c_LastError c = [] \<and>
     map ikey (instances (db w')) = map ikey (instances (db w)) \<and>
     (\<forall>c'\<in>set (clusters (db w')). c_ID c' \<noteq> cid \<longrightarrow> (\<exists>c0\<in>set (clusters (db w)). prim_of c0 = prim_of c'))"
proof -
  obtain b w1 where b: "provision_cluster s cid w = (b, w1)" by fastforce
  have "b = Inr ()" and st: "onD (cluster_SetStatus cid CStatusRunning []) w1 = (Inr (), w')"
    using run b by (auto simp: Provision_cluster_def prog_run split: sum.splits)
  from provision_cluster_primary [OF ne b [unfolded this(1)]] obtain m ms where
    m: "cluster_members cid (instances (db w)) = m # ms" "i_Role m = RolePrimary" "cid \<in> c_ID ` set (clusters (db w))"
    and sh: "shape prim_of (map ikey (instances (db w))) (map (\<lambda>c. (c_ID c, if c_ID c = cid then i_ID m else c_PrimaryInstanceID c)) (clusters (db w))) (db w1)"
    by blast
  have ex: "instances (db w') = instances (db w1)" "clusters (db w') =
      map (\<lambda>c. if c_ID c = cid then c\<lparr>c_Status := CStatusRunning, c_LastError := []\<rparr> else c) (clusters (db w1))"
    using onD_result [OF st] unfolding cluster_SetStatus_def by (auto dest: cluster_exec_ok)
  have rows: "map ikey (instances (db w')) = map ikey (instances (db w))" using sh ex(1) by (simp add: shape_def)
  obtain m' ms' where m': "cluster_members cid (instances (db w')) = m' # ms'" "ikey m' = ikey m"
    using m(1) ikey_members [OF rows, of cid] by (cases "cluster_members cid (instances (db w'))") auto
  then have mem: "m' \<in> set (instances (db w'))" "i_ClusterID m' = cid" "i_Role m' = RolePrimary" "i_ID m' = i_ID m"
  proof -
    have "m' \<in> set (cluster_members cid (instances (db w')))" by (simp add: m'(1))
    then show "m' \<in> set (instances (db w'))" "i_ClusterID m' = cid" by (auto simp: cluster_members_def Let_def)
  qed (use m'(2) m(2) in \<open>auto simp: ikey_def\<close>)
  have prims: "prim_of ` set (clusters (db w1)) = (\<lambda>c. (c_ID c, if c_ID c = cid then i_ID m else c_PrimaryInstanceID c)) ` set (clusters (db w))"
    using arg_cong [OF conjunct2 [OF sh [unfolded shape_def]], of set] by simp
  then have "(cid, i_ID m) \<in> prim_of ` set (clusters (db w1))" using m(3) by force
  then obtain c1 where c1: "c1 \<in> set (clusters (db w1))" "c_ID c1 = cid" "c_PrimaryInstanceID c1 = i_ID m" by auto
  let ?c = "c1\<lparr>c_Status := CStatusRunning, c_LastError := []\<rparr>"
  have "?c \<in> set (clusters (db w'))" unfolding ex(2) using c1(1,2) by force
  moreover have "\<exists>c0\<in>set (clusters (db w)). prim_of c0 = prim_of c'" if "c' \<in> set (clusters (db w'))" "c_ID c' \<noteq> cid" for c'
  proof -
    have "c' \<in> set (clusters (db w1))" using that unfolding ex(2) by (auto split: if_splits)
    then have "prim_of c' \<in> (\<lambda>c. (c_ID c, if c_ID c = cid then i_ID m else c_PrimaryInstanceID c)) ` set (clusters (db w))"
      using prims by blast
    then show ?thesis using that(2) by (auto split: if_splits)
  qed
  ultimately show ?thesis using mem c1 rows by (intro exI [of _ m'] exI [of _ ?c]) auto
qed

definition demo_single_world :: "fake_env world" where
  "demo_single_world = demo_world\<lparr>db := demo_db\<lparr>instances := [demo_instance ''i1'' ''c1'' RolePrimary],
     clusters := [\<lparr>c_ID = ''c1'', c_Name = ''orders'', c_Status = CStatusProvisioning, c_PrimaryInstanceID = [],
       c_RouterContainerID = [], c_RouterPort = 0, c_LastError = [], c_PoolMode = ''transaction''\<rparr>]\<rparr>\<rparr>"

lemma demo_provision: "fst (Provision_cluster demo_service ''c1'' demo_single_world) = Inr ()"
  by (simp add: Provision_cluster_def provision_cluster_def demo_single_world_def demo_world_def demo_db_def demo_service_def prog_run db_run
      cluster_Get_def instance_ListByCluster_def queryMany_def cluster_members_def demo_instance_def,
    simp add: Provision_def record_outcome_def provision_def demo_provisioner_def demo_opts_def fake_provisioner_def prog_run db_run fake_run
      demo_sealed_def Decrypt_def tagged_lib_def NonceSize_def newGCM_def demo_key_def keyLen_def
      provision_resources_def volumeName_def Let_def provision_run_def,
    simp add: assignedPort_def portFor_def pgPort_def containerSpec_def str_eval,
    simp add: prog_run db_run fake_run waitReady_now ready_probe_def execOK_def writeConfig_def
      backrestConf_def BackrestConf_def repo1_lines_def conf_input_def,
    simp add: Let_def prog_run cluster_SetPrimary_def cluster_exec_def db_run demo_provisioner_def fake_provisioner_def fake_run
      Decrypt_def demo_sealed_def tagged_lib_def NonceSize_def newGCM_def demo_key_def keyLen_def,
    simp add: StartRouter_def router_container_def pgcatPort_def prog_run fake_run portFor_def str_eval cluster_SetRouter_def
      cluster_SetStatus_def cluster_exec_def db_run)

theorem Provision_cluster_records_primary_witness:
  "\<exists>w'. Provision_cluster demo_service ''c1'' demo_single_world = (Inr (), w') \<and>
     (\<exists>c\<in>set (clusters (db w')). c_PrimaryInstanceID c = ''i1'' \<and> c_Status c = CStatusRunning)"
proof -
  obtain w' where run: "Provision_cluster demo_service ''c1'' demo_single_world = (Inr (), w')"
    using demo_provision by (metis prod.collapse)
  have rows: "instances (db demo_single_world) = [demo_instance ''i1'' ''c1'' RolePrimary]"
    by (simp add: demo_single_world_def)
  then have "[] \<notin> ids_of (db demo_single_world)" by (simp add: ids_of_def demo_instance_def)
  from Provision_cluster_records_primary [OF this run] obtain m c where
    m: "m \<in> set (instances (db w'))" "map ikey (instances (db w')) = map ikey (instances (db demo_single_world))"
    and c: "c \<in> set (clusters (db w'))" "c_PrimaryInstanceID c = i_ID m" "c_Status c = CStatusRunning" by blast
  from m have "i_ID m = ''i1''" unfolding rows by (auto simp: ikey_def demo_instance_def)
  with run c show ?thesis by auto
qed

end
