(* ===== verification/BackupSvc.thy ===== *)
theory BackupSvc
  imports Replica "HOL-Library.Product_Lexorder"
begin

text \<open>
  Package \<^verbatim>\<open>internal/backup\<close>: taking, deleting, expiring and verifying backups, and keeping
  the catalog in step with what pgBackRest reports (\<^verbatim>\<open>backup.go\<close>, \<^verbatim>\<open>scheduled.go\<close>), over
  the catalog repository of \<open>MetaDB\<close>. The per-instance mutexes serialise whole operations,
  which the model runs one at a time. The package's own \<^verbatim>\<open>confPath\<close> and \<^verbatim>\<open>asPostgres\<close>
  are those of the provisioner, which they repeat.
\<close>

section \<open>Command output and annotations\<close>

definition backup_secret_keys :: "string list" where
  "backup_secret_keys = [''repo1-cipher-pass'', ''repo2-cipher-pass'', ''repo1-s3-key-secret'', ''repo1-s3-key'']"

definition backup_redactSecrets :: "string \<Rightarrow> string" where
  "backup_redactSecrets s = fold (\<lambda>key s. redact_pass (key @ ''='') s) backup_secret_keys s"

definition backup_execOK :: "'e host \<Rightarrow> string \<Rightarrow> string list \<Rightarrow> ('e, unit) gofun" where
  "backup_execOK h containerID cmd =
     bindE (Exec h containerID cmd) (\<lambda>res.
     if ExitCode res \<noteq> 0 then
       fail (New KindInternal (''backup: command failed (exit '' @ Itoa (ExitCode res) @ ''): '' @
               backup_redactSecrets (TrimSpace (Stderr res @ Stdout res))))
     else ret ())"

definition maxAnnotationLen :: nat where
  "maxAnnotationLen = 200"

text \<open>\<^verbatim>\<open>strings.Map\<close> with the annotation's mapping: it works rune by rune and writes the
  replacement character for a byte that is not part of one.\<close>

function map_controls :: "string \<Rightarrow> string" where
  "map_controls [] = []"
| "map_controls (c # cs) =
     (if byte_val c < 0x20 then CHR 0x20 # map_controls cs
      else if byte_val c < 0x80 then c # map_controls cs
      else let n = rune_width (c # cs) in
        if n = 1 then [CHR 0xEF, CHR 0xBF, CHR 0xBD] @ map_controls cs
        else take n (c # cs) @ map_controls (drop n (c # cs)))"
  by pat_completeness auto
termination
  by (relation "measure length") (use rune_width_pos in \<open>auto simp: diff_less\<close>)

definition sanitizeAnnotation :: "string \<Rightarrow> string" where
  "sanitizeAnnotation s0 =
     (let s = TrimSpace (map_controls s0) in
      if maxAnnotationLen < length s then TrimSpace (take maxAnnotationLen s) else s)"

section \<open>The service\<close>

text \<open>The service over a runtime; \<open>bs_events\<close> says whether an event recorder is attached.\<close>

record 'e backup_service =
  bs_rt :: "'e host"
  bs_events :: bool

record RunOpts =
  ru_Annotation :: string
  ru_Standby :: bool

definition record_backup :: "'e backup_service \<Rightarrow> Instance \<Rightarrow> string \<Rightarrow> string \<Rightarrow> string \<Rightarrow> ('e world, unit) gofun" where
  "record_backup s inst message backupType label =
     (if \<not> bs_events s then ret ()
      else ignoring (onD (event_Record \<lparr>ev_InstanceID = i_ID inst, ev_ClusterID = [], ev_Type = ''backup'', ev_Message = message,
         ev_Metadata = [(''instance'', i_Name inst)] @ (if backupType \<noteq> [] then [(''backup_type'', backupType)] else []) @
           (if label \<noteq> [] then [(''label'', label)] else [])\<rparr>)) (ret ()))"

text \<open>The loop that looks for the instance's stanza: found, healthy, its backups.\<close>

fun find_stanza :: "string \<Rightarrow> Stanza list \<Rightarrow> bool \<times> bool \<times> BackupInfo list \<Rightarrow> bool \<times> bool \<times> BackupInfo list" where
  "find_stanza name [] acc = acc"
| "find_stanza name (st # sts) acc =
     (if sz_Name st \<noteq> name then find_stanza name sts acc
      else find_stanza name sts (True, Healthy st, sz_Backups st))"

definition write_catalog :: "string \<Rightarrow> BackupInfo list \<Rightarrow> ('e world, BackupInfo list) gofun" where
  "write_catalog iid bks =
     bindE (forE (\<lambda>b. onD (catalog_Upsert iid b)) bks) (\<lambda>_.
     bindE (onD (catalog_Prune iid (map b_Label bks))) (\<lambda>_. ret bks))"

definition sync :: "'e backup_service \<Rightarrow> Instance \<Rightarrow> ('e world, BackupInfo list) gofun" where
  "sync s inst =
     bindE (onE (Exec (bs_rt s) (i_ContainerID inst) (asPostgres (Info (i_Stanza inst) confPath)))) (\<lambda>res.
     if ExitCode res \<noteq> 0 then fail (New KindInternal (''backup: info failed: '' @ TrimSpace (Stderr res)))
     else case ParseInfo (UnmarshalInfo (Lib (bs_rt s))) (Stdout res) of
         Inl e \<Rightarrow> fail e
       | Inr stanzas \<Rightarrow>
           (case find_stanza (i_Stanza inst) stanzas (False, False, []) of (found, healthy, bks) \<Rightarrow>
              if \<not> found then fail (New KindInternal
                (''backup: stanza '' @ i_Stanza inst @ '' not present in pgbackrest info; skipping catalog sync''))
              else if \<not> healthy \<and> bks = [] then fail (New KindInternal
                (''backup: stanza '' @ i_Stanza inst @ '' is unhealthy and reports no backups; skipping catalog prune''))
              else write_catalog (i_ID inst) bks))"

definition Sync :: "'e backup_service \<Rightarrow> string \<Rightarrow> ('e world, BackupInfo list) gofun" where
  "Sync s instanceID = bindE (onD (instance_Get instanceID)) (sync s)"

definition backup_opts :: "RunOpts \<Rightarrow> BackupOpts" where
  "backup_opts ro = (let note = sanitizeAnnotation (ru_Annotation ro) in
     \<lparr>bo_Annotations = (if note \<noteq> [] then [(''name'', note)] else []), bo_BackupStandby = ru_Standby ro\<rparr>)"

definition RunWith :: "'e backup_service \<Rightarrow> string \<Rightarrow> string \<Rightarrow> RunOpts \<Rightarrow> ('e world, unit) gofun" where
  "RunWith s instanceID backupType ro =
     (let opts = backup_opts ro in
      case Backup [] confPath backupType opts of
        Inl e \<Rightarrow> fail e
      | Inr _ \<Rightarrow>
          bindE (onD (instance_Get instanceID)) (\<lambda>inst.
          if i_Role inst = RoleReplica then
            fail (New KindInvalid ''backup: replicas are not backed up directly; back up the cluster primary'')
          else case Backup (i_Stanza inst) confPath backupType opts of
              Inl e \<Rightarrow> fail e
            | Inr cmd \<Rightarrow>
                bindE (record_backup s inst (''backup started ('' @ backupType @ '')'') backupType []) (\<lambda>_.
                bindE (onE (backup_execOK (bs_rt s) (i_ContainerID inst) (asPostgres cmd))) (\<lambda>_.
                bindE (sync s inst) (\<lambda>_.
                record_backup s inst (''backup completed ('' @ backupType @ '')'') backupType [])))))"

definition backup_Run :: "'e backup_service \<Rightarrow> string \<Rightarrow> string \<Rightarrow> ('e world, unit) gofun" where
  "backup_Run s instanceID backupType = RunWith s instanceID backupType \<lparr>ru_Annotation = [], ru_Standby = False\<rparr>"

definition backup_Delete :: "'e backup_service \<Rightarrow> string \<Rightarrow> string \<Rightarrow> ('e world, unit) gofun" where
  "backup_Delete s instanceID label =
     (if TrimSpace label = [] then fail (New KindInvalid ''backup: delete requires a non-empty label'')
      else
        bindE (onD (instance_Get instanceID)) (\<lambda>inst.
        if i_Role inst = RoleReplica then
          fail (New KindInvalid ''backup: replicas have no backups to delete; operate on the cluster primary'')
        else case ExpireSet (i_Stanza inst) confPath label of
            Inl e \<Rightarrow> fail (Wrap KindInvalid ''backup: delete'' e)
          | Inr cmd \<Rightarrow>
              bindE (onE (backup_execOK (bs_rt s) (i_ContainerID inst) (asPostgres cmd))) (\<lambda>_.
              bindE (sync s inst) (\<lambda>_.
              record_backup s inst (''backup deleted ('' @ label @ '')'') [] label))))"

definition backup_Expire :: "'e backup_service \<Rightarrow> string \<Rightarrow> ('e world, unit) gofun" where
  "backup_Expire s instanceID =
     bindE (onD (instance_Get instanceID)) (\<lambda>inst.
     if i_Role inst = RoleReplica then
       fail (New KindInvalid ''backup: replicas have no repo to expire; operate on the cluster primary'')
     else
       bindE (onE (backup_execOK (bs_rt s) (i_ContainerID inst) (asPostgres (Expire (i_Stanza inst) confPath)))) (\<lambda>_.
       bindE (sync s inst) (\<lambda>_. ret ())))"

definition backup_Verify :: "'e backup_service \<Rightarrow> string \<Rightarrow> ('e world, unit) gofun" where
  "backup_Verify s instanceID =
     bindE (onD (instance_Get instanceID)) (\<lambda>inst.
     if i_Role inst = RoleReplica then
       fail (New KindInvalid ''backup: replicas have no repo to verify; operate on the cluster primary'')
     else
       bindE (record_backup s inst ''backup verify started'' [] []) (\<lambda>_.
       bindE (onE (backup_execOK (bs_rt s) (i_ContainerID inst) (asPostgres (Verify (i_Stanza inst) confPath)))) (\<lambda>_.
       record_backup s inst ''backup verify completed'' [] [])))"

text \<open>\<^verbatim>\<open>Catalog.List\<close>: newest first. The label breaks ties, in the order of its bytes.\<close>

definition catalog_List :: "string \<Rightarrow> (metadb, BackupInfo list) gofun" where
  "catalog_List iid = stmt ''backup: list'' (\<lambda>d. (Inr (rev (sort_key
     (\<lambda>b. (case b_StopTime b of None \<Rightarrow> 0 | Some t \<Rightarrow> t, b_Label b)) (map snd (filter (\<lambda>(j, b). j = iid) (backups d))))), d))"

section \<open>The scheduled sweep (scheduled.go)\<close>

fun sweep :: "'e backup_service \<Rightarrow> string \<Rightarrow> Instance list \<Rightarrow> goerr option \<Rightarrow> 'e world \<Rightarrow> goerr option \<times> 'e world" where
  "sweep s backupType [] firstErr w = (firstErr, w)"
| "sweep s backupType (inst # insts) firstErr w =
     (if i_Status inst \<noteq> StatusRunning then sweep s backupType insts firstErr w
      else case backup_Run s (i_ID inst) backupType w of
          (Inl e, w1) \<Rightarrow> sweep s backupType insts (case firstErr of None \<Rightarrow> Some e | Some _ \<Rightarrow> firstErr) w1
        | (Inr _, w1) \<Rightarrow>
            (case backup_Expire s (i_ID inst) w1 of
               (Inl e, w2) \<Rightarrow> sweep s backupType insts (case firstErr of None \<Rightarrow> Some e | Some _ \<Rightarrow> firstErr) w2
             | (Inr _, w2) \<Rightarrow> sweep s backupType insts firstErr w2))"

definition RunScheduled :: "'e backup_service \<Rightarrow> string \<Rightarrow> ('e world, unit) gofun" where
  "RunScheduled s backupType =
     bindE (onD instance_List) (\<lambda>insts w. case sweep s backupType insts None w of
        (None, w') \<Rightarrow> (Inr (), w')
      | (Some e, w') \<Rightarrow> (Inl e, w'))"

section \<open>Annotations\<close>

lemma cont_bytes_high: "cont_bytes cs lo hi n \<Longrightarrow> 0x80 \<le> lo \<Longrightarrow> x \<in> set (take n cs) \<Longrightarrow> 0x80 \<le> byte_val x"
  by (cases cs; cases n) (auto simp: cont_bytes_def between_def list_all_iff)

lemma rune_width_cont:
  assumes "rune_width (c # cs) \<noteq> 1"
  shows "\<exists>lo hi. 0x80 \<le> lo \<and> cont_bytes cs lo hi (rune_width (c # cs) - 1)"
proof -
  consider "cont_bytes cs 0x80 0xBF 1" "rune_width (c # cs) = 2"
    | lo hi where "cont_bytes cs lo hi 2" "0x80 \<le> lo" "rune_width (c # cs) = 3"
    | lo hi where "cont_bytes cs lo hi 3" "0x80 \<le> lo" "rune_width (c # cs) = 4"
    using assms by (simp split: if_splits)
  then show ?thesis by cases auto
qed

lemma rune_bytes:
  assumes "rune_width (c # cs) \<noteq> 1" "0x80 \<le> byte_val c" "x \<in> set (take (rune_width (c # cs)) (c # cs))"
  shows "0x80 \<le> byte_val x"
proof -
  from rune_width_cont [OF assms(1)] obtain lo hi where "0x80 \<le> lo" "cont_bytes cs lo hi (rune_width (c # cs) - 1)" by blast
  moreover have "x = c \<or> x \<in> set (take (rune_width (c # cs) - 1) cs)"
    using assms(3) rune_width_pos [of "c # cs"] by (cases "rune_width (c # cs)") (auto simp del: rune_width.simps)
  ultimately show ?thesis using assms(2) cont_bytes_high by blast
qed

lemma map_controls_printable: "x \<in> set (map_controls s) \<Longrightarrow> 0x20 \<le> byte_val x"
proof (induction s rule: map_controls.induct)
  case (2 c cs)
  consider "byte_val c < 0x20" | "0x20 \<le> byte_val c" "byte_val c < 0x80" | "0x80 \<le> byte_val c" by linarith
  then show ?case
  proof cases
    case 3
    show ?thesis
    proof (cases "rune_width (c # cs) = 1")
      case True
      with 2 3 show ?thesis by (auto simp: byte_val_def)
    next
      case False
      with 2 3 rune_bytes [OF False 3, of x] show ?thesis
        by (force simp: Let_def simp del: rune_width.simps)
    qed
  qed (use 2 in \<open>auto simp: byte_val_def\<close>)
qed simp

text \<open>
  A backup note is safe to store: whatever the client sends, the sanitised annotation
  contains no control character below the space (no newline, tab or NUL that could mangle
  the annotation) and is at most 200 bytes long.
\<close>

theorem sanitizeAnnotation_bounds:
  "length (sanitizeAnnotation s) \<le> maxAnnotationLen \<and> list_all (\<lambda>c. 0x20 \<le> byte_val c) (sanitizeAnnotation s)"
proof -
  have "x \<in> set (sanitizeAnnotation s) \<Longrightarrow> x \<in> set (map_controls s)" for x
    using TrimSpace_set [of "map_controls s"] TrimSpace_set [of "take maxAnnotationLen (TrimSpace (map_controls s))"]
    by (auto simp: sanitizeAnnotation_def Let_def split: if_splits dest: in_set_takeD)
  moreover have "length (TrimSpace (take maxAnnotationLen t)) \<le> maxAnnotationLen" for t
    using TrimSpace_length [of "take maxAnnotationLen t"] by (simp add: le_trans)
  ultimately show ?thesis
    using map_controls_printable [of _ s] by (simp add: list_all_iff) (simp add: sanitizeAnnotation_def Let_def)
qed

section \<open>Redaction\<close>

text \<open>Where a marker first ends in a line.\<close>

lemma Index_take:
  assumes "Index l m = Some i"
  shows "take (i + length m) l = take i l @ m" "i + length m \<le> length l"
proof -
  obtain t where t: "drop i l = m @ t" using Index_HasPrefix [OF assms] by blast
  then show "take (i + length m) l = take i l @ m" by (simp add: take_add)
  have "i \<le> length l" using Index_Some [OF assms] by simp
  moreover have "length l - i = length m + length t" using arg_cong [OF t, of length] by simp
  ultimately show "i + length m \<le> length l" by linarith
qed

lemma Index_occurs: "Index l m = Some i \<Longrightarrow> l = take i l @ m @ drop (i + length m) l"
  by (metis Index_take(1) append.assoc append_take_drop_id)

lemma redact_line_prefix: "Index l m = Some i \<Longrightarrow> redact_line m l = take (i + length m) l @ ''***''"
  by (simp add: redact_line_def Index_take(1))

lemma occurs_in_redacted:
  assumes k: "CHR ''='' \<notin> set k'" and i: "Index l (k' @ ''='') = Some i" and occ: "redact_line (k' @ ''='') l = a @ (k @ ''='') @ b"
  shows "\<exists>c. l = a @ (k @ ''='') @ c \<and> length (a @ k @ ''='') \<le> i + length (k' @ ''='')"
proof -
  let ?e = "i + length (k' @ ''='')"
  have red: "a @ k @ [CHR ''=''] @ b = take i l @ k' @ [CHR ''=''] @ ''***''"
    using occ i by (simp add: redact_line_def)
  then consider "b = ''***''" | c where "take i l = a @ k @ [CHR ''=''] @ c" using append_marker_cases k by blast
  then show ?thesis
  proof cases
    case 1
    then have "a @ k @ ''='' = take i l @ k' @ ''=''" using red by simp
    then have "l = (a @ k @ ''='') @ drop ?e l" "length (a @ k @ ''='') = length (take i l @ k' @ ''='')"
      using Index_occurs [OF i] by (metis append.assoc)+
    moreover have "length (take i l @ k' @ ''='') \<le> ?e" by simp
    ultimately show ?thesis by (metis append.assoc)
  next
    case 2
    then have "l = a @ (k @ ''='') @ c @ drop i l" by (metis append.assoc append_take_drop_id)
    moreover have "length (a @ k @ ''='') \<le> i"
    proof -
      have "length (a @ k @ ''='') \<le> length (take i l)" by (simp add: 2)
      then show ?thesis by simp
    qed
    ultimately show ?thesis by (auto simp: exI [of _ "c @ drop i l"])
  qed
qed

text \<open>Two markers whose keys end in different letters can be redacted in either order:
  the line is cut after whichever ends first.\<close>

lemma redact_line_first:
  assumes k: "CHR ''='' \<notin> set k" "CHR ''='' \<notin> set k'" and i: "Index l (k @ ''='') = Some i" "Index l (k' @ ''='') = Some j"
    and lt: "i + length k < j + length k'"
  shows "redact_line (k @ ''='') (redact_line (k' @ ''='') l) = redact_line (k @ ''='') l"
    "redact_line (k' @ ''='') (redact_line (k @ ''='') l) = redact_line (k @ ''='') l"
proof -
  let ?m = "k @ ''=''" and ?m' = "k' @ ''=''" and ?r = "redact_line (k' @ ''='') l"
  have r: "?r = take (j + length ?m') l @ ''***''" by (rule redact_line_prefix [OF i(2)])
  have le: "i + length ?m \<le> j + length ?m'" using lt by simp
  have pre: "take (j + length ?m') l = take i l @ ?m @ take (j + length ?m' - (i + length ?m)) (drop (i + length ?m) l)"
    using take_add [of "i + length ?m" "j + length ?m' - (i + length ?m)" l] le by (simp only: Index_take(1) [OF i(1)] append.assoc) simp
  from Index_append [of "take i l" ?m] obtain i' where i': "Index (take (j + length ?m') l) ?m = Some i'"
    unfolding pre by (metis option.exhaust)
  then have "i' = i" using Index_append_Some [OF i', of "drop (j + length ?m') l"] i(1) by (metis append_take_drop_id option.inject)
  then have "Index ?r ?m = Some i" unfolding r using i' Index_append_Some by blast
  from redact_line_prefix [OF this] have "redact_line ?m ?r = take (i + length ?m) (take (j + length ?m') l @ ''***'') @ ''***''"
    unfolding r .
  also have "take (i + length ?m) (take (j + length ?m') l @ ''***'') = take (i + length ?m) l"
    using le Index_take(2) [OF i(1)] Index_take(2) [OF i(2)] by (simp add: min_def)
  finally show "redact_line ?m ?r = redact_line ?m l" by (simp only: redact_line_prefix [OF i(1)])
  show "redact_line ?m' (redact_line ?m l) = redact_line ?m l"
  proof -
    have "Index (redact_line ?m l) ?m' = None"
      unfolding Index_None_iff
    proof clarify
      fix a b assume "redact_line ?m l = a @ ?m' @ b"
      from occurs_in_redacted [OF k(1) i(1) this] obtain c where "l = a @ ?m' @ c" "length (a @ k' @ ''='') \<le> i + length ?m" by blast
      with Index_minimal [OF i(2), of a c] lt show False by simp
    qed
    then show ?thesis by (simp add: redact_line_def [of ?m'])
  qed
qed

lemma redact_line_commute:
  assumes k: "CHR ''='' \<notin> set k" "CHR ''='' \<notin> set k'" and nosuf: "k \<noteq> []" "k' \<noteq> []" "last k \<noteq> last k'"
  shows "redact_line (k @ ''='') (redact_line (k' @ ''='') l) = redact_line (k' @ ''='') (redact_line (k @ ''='') l)"
proof -
  have absent: "redact_line (q @ ''='') (redact_line (q' @ ''='') l) = redact_line (q' @ ''='') l"
    if "CHR ''='' \<notin> set q'" "Index l (q @ ''='') = None" for q q'
  proof (cases "Index l (q' @ ''='')")
    case None
    with that(2) show ?thesis by (simp add: redact_line_def)
  next
    case (Some j)
    have "Index (redact_line (q' @ ''='') l) (q @ ''='') = None"
      unfolding Index_None_iff using occurs_in_redacted [OF that(1) Some] that(2) [unfolded Index_None_iff] by blast
    then show ?thesis by (simp add: redact_line_def [of "q @ ''=''"])
  qed
  show ?thesis
  proof (cases "Index l (k @ ''='')")
    case None
    then show ?thesis using absent [OF k(2) None] by (simp add: redact_line_def)
  next
    case i: (Some i)
    show ?thesis
    proof (cases "Index l (k' @ ''='')")
      case None
      then show ?thesis using absent [OF k(1) None] by (simp add: redact_line_def)
    next
      case j: (Some j)
      have ne: "i + length k \<noteq> j + length k'"
      proof
        assume e: "i + length k = j + length k'"
        have "take (i + length (k @ ''='')) l = take i l @ k @ ''=''" "take (j + length (k' @ ''='')) l = take j l @ k' @ ''=''"
          using Index_take(1) [OF i] Index_take(1) [OF j] by simp_all
        moreover have "i + length (k @ ''='') = j + length (k' @ ''='')" using e by simp
        ultimately have "take i l @ k = take j l @ k'" by simp
        then have "last (take i l @ k) = last (take j l @ k')" by simp
        then show False using nosuf by simp
      qed
      then consider "i + length k < j + length k'" | "j + length k' < i + length k" by linarith
      then show ?thesis
        by cases (simp_all only: redact_line_first [OF k i j] redact_line_first [OF k(2,1) j i])
    qed
  qed
qed

lemma backup_secret_keys_plain: "k \<in> set backup_secret_keys \<Longrightarrow> nl \<notin> set k"
  by (auto simp: backup_secret_keys_def)

lemma backup_redact_lines:
  "backup_redactSecrets s = Join (map (fold (\<lambda>k. redact_line (k @ ''='')) backup_secret_keys) (Split s nl)) [nl]"
  unfolding backup_redactSecrets_def
  using redact_fold_lines [of backup_secret_keys "Split s nl"] backup_secret_keys_plain Split_parts
  by (auto simp: Join_Split)

text \<open>
  The two redactors agree: the backup service's copy of the redactor goes through the
  four secret keys in another order than the provisioner's, and on every text it returns
  the same. So no secret value survives in either.
\<close>

theorem backup_redactSecrets_eq: "backup_redactSecrets s = redactSecrets s"
proof -
  let ?r = "\<lambda>k. redact_line (k @ ''='')"
  let ?a = "''repo1-cipher-pass''" and ?b = "''repo2-cipher-pass''" and ?c = "''repo1-s3-key-secret''" and ?d = "''repo1-s3-key''"
  have com: "?r ?c (?r ?a l) = ?r ?a (?r ?c l)" "?r ?d (?r ?a l) = ?r ?a (?r ?d l)"
    "?r ?c (?r ?b l) = ?r ?b (?r ?c l)" "?r ?d (?r ?b l) = ?r ?b (?r ?d l)" for l
    by (rule redact_line_commute; simp)+
  have "fold ?r [?a, ?b, ?c, ?d] l = fold ?r [?c, ?d, ?a, ?b] l" for l
    by (simp only: fold.simps comp_apply id_apply com)
  then have "fold ?r backup_secret_keys = fold ?r secret_keys"
    unfolding backup_secret_keys_def secret_keys_def by (intro ext)
  then show ?thesis by (simp only: backup_redact_lines redactSecrets_lines)
qed

section \<open>The catalog follows pgBackRest\<close>

definition entries :: "string \<Rightarrow> metadb \<Rightarrow> BackupInfo set" where
  "entries iid d = {b. (iid, b) \<in> set (backups d)}"

definition foreign :: "string \<Rightarrow> metadb \<Rightarrow> (string \<times> BackupInfo) list" where
  "foreign iid d = filter (\<lambda>(j, b). j \<noteq> iid) (backups d)"

lemma catalog_faults [simp]: "entries iid (d\<lparr>faults := fs\<rparr>) = entries iid d" "foreign iid (d\<lparr>faults := fs\<rparr>) = foreign iid d"
  by (simp_all add: entries_def foreign_def)

lemma Upsert_result:
  assumes "catalog_Upsert iid b d = (r, d')"
  shows "foreign iid d' = foreign iid d \<and>
     entries iid d' = (if isl r then entries iid d else insert b {c \<in> entries iid d. b_Label c \<noteq> b_Label b})"
  using assms unfolding catalog_Upsert_def
proof (cases rule: stmt_cases)
  case (ran pre fs)
  let ?up = "map (\<lambda>(j, c). if j = iid \<and> b_Label c = b_Label b then (j, b) else (j, c)) (backups d)"
  have "filter (\<lambda>(j, b). j \<noteq> iid) (map (\<lambda>(j, c). if j = iid \<and> b_Label c = b_Label b then (j, b) else (j, c)) rows) =
      filter (\<lambda>(j, b). j \<noteq> iid) rows" for rows
    by (induction rows) (auto split: if_splits)
  then have up: "filter (\<lambda>(j, b). j \<noteq> iid) ?up = filter (\<lambda>(j, b). j \<noteq> iid) (backups d)" .
  consider (gone) "isl r" "d' = d\<lparr>faults := fs\<rparr>"
    | (hit) c where "r = Inr ()" "(iid, c) \<in> set (backups d)" "b_Label c = b_Label b" "d' = d\<lparr>faults := fs, backups := ?up\<rparr>"
    | (miss) "r = Inr ()" "\<And>c. (iid, c) \<in> set (backups d) \<Longrightarrow> b_Label c \<noteq> b_Label b" "d' = d\<lparr>faults := fs, backups := backups d @ [(iid, b)]\<rparr>"
    using ran by (auto simp: list_ex_iff split: if_splits)
  then show ?thesis
  proof cases
    case hit
    then have "{x. (iid, x) \<in> set ?up} = insert b {c. (iid, c) \<in> set (backups d) \<and> b_Label c \<noteq> b_Label b}"
      by (auto simp: image_iff split: if_splits prod.splits)
    then have "entries iid d' = insert b {c \<in> entries iid d. b_Label c \<noteq> b_Label b}"
      unfolding entries_def hit(4) by simp
    then show ?thesis using hit(1,4) up by (simp add: foreign_def)
  qed (auto simp: entries_def foreign_def)
qed auto

lemma Prune_result:
  assumes "catalog_Prune iid keep d = (r, d')"
  shows "foreign iid d' = foreign iid d \<and> entries iid d' = (if isl r then entries iid d else {c \<in> entries iid d. b_Label c \<in> set keep})"
  using assms unfolding catalog_Prune_def
proof (cases rule: stmt_cases)
  case (ran pre fs)
  have "filter (\<lambda>(j, b). j \<noteq> iid) (filter (\<lambda>(j, c). \<not> (j = iid \<and> b_Label c \<notin> set keep)) (backups d)) =
      filter (\<lambda>(j, b). j \<noteq> iid) (backups d)" by (simp, rule filter_cong) auto
  with ran show ?thesis by (auto simp: entries_def foreign_def)
qed auto

lemma Upserts_result:
  "forE (\<lambda>b. onD (catalog_Upsert iid b)) bks w = (r, w') \<Longrightarrow>
     foreign iid (db w') = foreign iid (db w) \<and> b_Label ` entries iid (db w) \<subseteq> b_Label ` entries iid (db w') \<and>
     (\<not> isl r \<longrightarrow> b_Label ` set bks \<subseteq> b_Label ` entries iid (db w') \<and>
        (distinct (map b_Label bks) \<longrightarrow> entries iid (db w') = set bks \<union> {c \<in> entries iid (db w). b_Label c \<notin> b_Label ` set bks}))"
proof (induction bks arbitrary: w)
  case Nil
  then show ?case by (auto simp: ret_def)
next
  case (Cons b bks)
  obtain a w1 where a: "onD (catalog_Upsert iid b) w = (a, w1)" by fastforce
  then have "catalog_Upsert iid b (db w) = (a, db w1)" by (auto dest: onD_result)
  note up = Upsert_result [OF this]
  show ?case
  proof (cases a)
    case (Inl e)
    then show ?thesis using Cons.prems a up by (auto simp: prog_run)
  next
    case (Inr u)
    then have e1: "entries iid (db w1) = insert b {c \<in> entries iid (db w). b_Label c \<noteq> b_Label b}" using up by simp
    have "forE (\<lambda>b. onD (catalog_Upsert iid b)) bks w1 = (r, w')" using Cons.prems a Inr by (simp add: prog_run)
    note ih = Cons.IH [OF this]
    have sub: "b_Label ` entries iid (db w) \<subseteq> b_Label ` entries iid (db w1)" "b_Label b \<in> b_Label ` entries iid (db w1)"
      unfolding e1 by auto
    show ?thesis using ih up sub unfolding e1 by (auto simp: subset_iff)
  qed
qed

lemma write_catalog_result:
  assumes "write_catalog iid bks w = (r, w')"
  shows "foreign iid (db w') = foreign iid (db w) \<and> (case r of
      Inl _ \<Rightarrow> b_Label ` entries iid (db w) \<subseteq> b_Label ` entries iid (db w')
    | Inr bs \<Rightarrow> bs = bks \<and> b_Label ` entries iid (db w') = b_Label ` set bks \<and>
        (distinct (map b_Label bks) \<longrightarrow> entries iid (db w') = set bks))"
proof -
  obtain a w1 where a: "forE (\<lambda>b. onD (catalog_Upsert iid b)) bks w = (a, w1)" by fastforce
  note up = Upserts_result [OF a]
  show ?thesis
  proof (cases a)
    case (Inl e)
    then show ?thesis using assms a up by (auto simp: write_catalog_def prog_run)
  next
    case (Inr u)
    obtain b w2 where b: "onD (catalog_Prune iid (map b_Label bks)) w1 = (b, w2)" by fastforce
    then have "catalog_Prune iid (map b_Label bks) (db w1) = (b, db w2)" by (auto dest: onD_result)
    note pr = Prune_result [OF this]
    show ?thesis
    proof (cases b)
      case e: (Inl e)
      then have "r = Inl e" "w' = w2" using assms a b Inr by (auto simp: write_catalog_def prog_run)
      with up pr e show ?thesis by auto
    next
      case ok: (Inr v)
      then have r: "r = Inr bks" "w' = w2" using assms a b Inr by (auto simp: write_catalog_def prog_run)
      have e2: "entries iid (db w2) = {c \<in> entries iid (db w1). b_Label c \<in> b_Label ` set bks}" using pr ok by simp
      have "b_Label ` set bks \<subseteq> b_Label ` entries iid (db w1)" using up Inr by simp
      then have "b_Label ` entries iid (db w2) = b_Label ` set bks" unfolding e2 by (auto simp: subset_iff image_iff) metis
      moreover have "distinct (map b_Label bks) \<longrightarrow> entries iid (db w2) = set bks" using up Inr unfolding e2 by auto
      ultimately show ?thesis using r up pr by auto
    qed
  qed
qed

text \<open>
  What \<^verbatim>\<open>pgbackrest info\<close> says of a stanza, as a specification: the last entry with its name in the output of a
  command that ran and exited with code 0. A report is usable unless it is unhealthy and lists nothing.
\<close>

definition reported :: "(string \<Rightarrow> goerr + rawStanza list) \<Rightarrow> string \<Rightarrow> goerr + exec_result \<Rightarrow> Stanza option" where
  "reported unmarshal name xr = (case xr of
       Inl _ \<Rightarrow> None
     | Inr res \<Rightarrow> if ExitCode res \<noteq> 0 then None else
         (case ParseInfo unmarshal (Stdout res) of
            Inl _ \<Rightarrow> None
          | Inr stanzas \<Rightarrow> (let own = filter (\<lambda>st. sz_Name st = name) stanzas in if own = [] then None else Some (last own))))"

definition usable :: "Stanza \<Rightarrow> bool" where
  "usable st \<longleftrightarrow> Healthy st \<or> sz_Backups st \<noteq> []"

lemma find_stanza_last:
  "find_stanza name sts acc = (let own = filter (\<lambda>st. sz_Name st = name) sts in
     if own = [] then acc else (True, Healthy (last own), sz_Backups (last own)))"
  by (induction name sts acc rule: find_stanza.induct) (simp_all add: Let_def)

lemma sync_run:
  assumes x: "Exec (bs_rt s) (i_ContainerID inst) (asPostgres (Info (i_Stanza inst) confPath)) (env w) = (xr, e1)"
    and run: "sync s inst w = (r, w')"
  obtains (refused) x where "r = Inl x" "db w' = db w"
      "\<And>st. reported (UnmarshalInfo (Lib (bs_rt s))) (i_Stanza inst) xr = Some st \<Longrightarrow> \<not> usable st"
  | (wrote) st where "reported (UnmarshalInfo (Lib (bs_rt s))) (i_Stanza inst) xr = Some st" "usable st"
      "write_catalog (i_ID inst) (sz_Backups st) (w\<lparr>env := e1\<rparr>) = (r, w')"
proof -
  let ?rep = "reported (UnmarshalInfo (Lib (bs_rt s))) (i_Stanza inst) xr"
  have "(\<exists>x. r = Inl x) \<and> db w' = db w \<and> (\<forall>st. ?rep = Some st \<longrightarrow> \<not> usable st) \<or>
     (\<exists>st. ?rep = Some st \<and> usable st \<and> write_catalog (i_ID inst) (sz_Backups st) (w\<lparr>env := e1\<rparr>) = (r, w'))"
    using x run
    by (cases xr) (auto simp: sync_def prog_run onE_def reported_def usable_def find_stanza_last Let_def split: sum.splits if_splits)
  then show ?thesis using refused wrote by blast
qed

lemma write_catalog_works:
  assumes "faults (db w) = []" "iid \<in> ids_of (db w)"
  shows "\<exists>w'. write_catalog iid bks w = (Inr bks, w')"
proof -
  have "\<exists>w'. forE (\<lambda>b. onD (catalog_Upsert iid b)) bs w = (Inr (), w') \<and> faults (db w') = []" 
    if "faults (db w) = []" "iid \<in> ids_of (db w)" for bs and w :: "'a world"
    using that by (induction bs arbitrary: w) (auto simp: prog_run onD_def catalog_Upsert_def stmt_def ids_of_def)
  from this [OF assms, of bks] show ?thesis
    by (auto simp: write_catalog_def prog_run onD_def catalog_Prune_def stmt_def)
qed

text \<open>
  C8. Synchronising the catalog is exact and never hides a backup. For every instance, every
  answer of pgBackRest and every database failure: the rows of other instances are
  untouched. Success means that the command ran and reported the instance's stanza, healthy or with at
  least one backup, and the instance's catalog then has exactly the labels of that report, and is exactly the
  list of reported backups when their labels are distinct. When the report is not to be trusted (the command failed, its output did not
  parse, the stanza is absent, or it is unhealthy and lists nothing) the call fails and the catalog is unchanged; on
  any other error, that of a statement, no label that was in the catalog is gone. With a usable report and no
  failing statement the call succeeds.
\<close>

theorem Sync_exact:
  assumes x: "Exec (bs_rt s) (i_ContainerID inst) (asPostgres (Info (i_Stanza inst) confPath)) (env w) = (xr, e1)"
    and run: "sync s inst w = (r, w')"
  shows "filter (\<lambda>(j, b). j \<noteq> i_ID inst) (backups (db w')) = filter (\<lambda>(j, b). j \<noteq> i_ID inst) (backups (db w)) \<and>
     (case reported (UnmarshalInfo (Lib (bs_rt s))) (i_Stanza inst) xr of
        None \<Rightarrow> (\<exists>e. r = Inl e) \<and> backups (db w') = backups (db w)
      | Some st \<Rightarrow>
          if \<not> Healthy st \<and> sz_Backups st = [] then (\<exists>e. r = Inl e) \<and> backups (db w') = backups (db w)
          else (case r of
             Inl _ \<Rightarrow> b_Label ` entries (i_ID inst) (db w) \<subseteq> b_Label ` entries (i_ID inst) (db w')
           | Inr bs \<Rightarrow> bs = sz_Backups st \<and> b_Label ` entries (i_ID inst) (db w') = b_Label ` set (sz_Backups st) \<and>
               (distinct (map b_Label (sz_Backups st)) \<longrightarrow> entries (i_ID inst) (db w') = set (sz_Backups st))) \<and>
           (faults (db w) = [] \<and> i_ID inst \<in> ids_of (db w) \<longrightarrow> r = Inr (sz_Backups st)))"
  using x run
proof (cases rule: sync_run)
  case (refused x)
  then show ?thesis by (auto simp: usable_def split: option.splits)
next
  case (wrote st)
  have "faults (db w) = [] \<and> i_ID inst \<in> ids_of (db w) \<longrightarrow> r = Inr (sz_Backups st)"
    using write_catalog_works [of "w\<lparr>env := e1\<rparr>" "i_ID inst" "sz_Backups st"] wrote(3) by auto
  with write_catalog_result [OF wrote(3)] wrote(1,2) show ?thesis
    by (auto simp: foreign_def usable_def split: sum.splits)
qed

text \<open>A runtime whose pgBackRest reports one backup for the stanza \<open>i1\<close>, and a catalog with a stale one.\<close>

definition demo_backup :: "string \<Rightarrow> rawBackup" where
  "demo_backup label = \<lparr>rb_Label = label, rb_Type = ''full'', rb_Start = 1, rb_Stop = 2, rb_Size = 3, rb_Delta = 3, rb_RepoSize = 1,
     rb_RepoDelta = 1, rb_ArchiveStart = ''a'', rb_ArchiveStop = ''b'', rb_Reference = [], rb_Error = False, rb_Annotation = []\<rparr>"

definition demo_backup_service :: "fake_env backup_service" where
  "demo_backup_service = \<lparr>bs_rt = (fake_host (Some (\<lambda>_ _. Inr \<lparr>ExitCode = 0, Stdout = ''info'', Stderr = []\<rparr>)) None (\<lambda>_. None)
     (tagged_lib\<lparr>UnmarshalInfo := \<lambda>_. Inr [\<lparr>rs_Name = ''i1'', rs_Code = 0, rs_Message = [], rs_Backup = [demo_backup ''new'']\<rparr>]\<rparr>)),
     bs_events = True\<rparr>"

definition demo_catalog_world :: "fake_env world" where
  "demo_catalog_world = (demo_running_world [])\<lparr>db := (db (demo_running_world []))\<lparr>backups := [(''i1'', backup_of_raw (demo_backup ''old''))]\<rparr>\<rparr>"

theorem Sync_exact_witness:
  "\<exists>bs w'. sync demo_backup_service demo_running demo_catalog_world = (Inr bs, w') \<and>
     b_Label ` entries ''i1'' (db w') = {''new''}"
proof -
  have "fst (sync demo_backup_service demo_running demo_catalog_world) = Inr [backup_of_raw (demo_backup ''new'')]"
    by (simp add: sync_def demo_backup_service_def demo_catalog_world_def demo_running_world_def demo_running_env_def demo_running_def
        demo_instance_def prog_run fake_run onE_def ParseInfo_def stanza_of_raw_def Healthy_def write_catalog_def,
      simp add: prog_run onD_def catalog_Upsert_def catalog_Prune_def stmt_def demo_db_def ids_of_def demo_instance_def
        backup_of_raw_def demo_backup_def)
  then obtain bs w' where run: "sync demo_backup_service demo_running demo_catalog_world = (Inr bs, w')"
    and bs: "bs = [backup_of_raw (demo_backup ''new'')]" by (metis prod.collapse sum.inject(2))
  have "i_ID demo_running = ''i1''" by (simp add: demo_running_def demo_instance_def)
  moreover obtain xr e1 where x: "Exec (bs_rt demo_backup_service) (i_ContainerID demo_running)
      (asPostgres (Info (i_Stanza demo_running) confPath)) (env demo_catalog_world) = (xr, e1)" by (rule prod.exhaust)
  ultimately have "b_Label ` entries ''i1'' (db w') = b_Label ` set bs"
    using Sync_exact [OF x run] by (auto split: option.splits if_splits)
  with run bs show ?thesis by (auto simp: backup_of_raw_def demo_backup_def)
qed

section \<open>Replicas\<close>

lemma Get_role:
  assumes "\<forall>i\<in>set (instances d). i_ID i = iid \<longrightarrow> i_Role i = RoleReplica" "instance_Get iid d = (r, d')"
  shows "(\<forall>i. r = Inr i \<longrightarrow> i_Role i = RoleReplica) \<and> (\<exists>fs. d' = d\<lparr>faults := fs\<rparr>)"
  using assms(2) unfolding instance_Get_def queryOne_def
  by (cases rule: stmt_cases) (use assms(1) in \<open>auto simp: find_Some_iff split: option.splits\<close>)

lemma replica_refused:
  assumes rep: "\<forall>i\<in>set (instances (db w)). i_ID i = iid \<longrightarrow> i_Role i = RoleReplica"
    and op: "\<And>i. i_Role i = RoleReplica \<Longrightarrow> \<exists>msg. k i = fail (New KindInvalid msg)"
  shows "\<exists>e fs. bindE (onD (instance_Get iid)) k w = (Inl e, w\<lparr>db := (db w)\<lparr>faults := fs\<rparr>\<rparr>)"
proof -
  obtain a d' where a: "instance_Get iid (db w) = (a, d')" by fastforce
  from Get_role [OF rep a] obtain fs where fs: "\<forall>i. a = Inr i \<longrightarrow> i_Role i = RoleReplica" "d' = (db w)\<lparr>faults := fs\<rparr>" by blast
  show ?thesis
  proof (cases a)
    case (Inl e)
    with a fs(2) show ?thesis by (auto simp: prog_run onD_def)
  next
    case (Inr i)
    with fs(1) obtain msg where "k i = fail (New KindInvalid msg)" using op by blast
    with a Inr fs(2) show ?thesis by (auto simp: prog_run onD_def)
  qed
qed

text \<open>
  A replica's backups are never touched: for an instance whose row says replica, taking,
  deleting, expiring and verifying a backup all return an error, run no command in any
  container and change nothing in the metadata (the schedule of database failures is all
  that advances).
\<close>

theorem replica_backups_refused:
  assumes rep: "\<forall>i\<in>set (instances (db w)). i_ID i = iid \<longrightarrow> i_Role i = RoleReplica"
    and op: "op \<in> {RunWith s iid backupType ro, backup_Delete s iid label, backup_Expire s iid, backup_Verify s iid}"
  shows "\<exists>e fs. op w = (Inl e, w\<lparr>db := (db w)\<lparr>faults := fs\<rparr>\<rparr>)"
proof -
  have same: "\<exists>e fs. fail e0 w = (Inl e, w\<lparr>db := (db w)\<lparr>faults := fs\<rparr>\<rparr>)" for e0
    by (rule exI [of _ e0], rule exI [of _ "faults (db w)"]) (simp add: fail_def)
  from op show ?thesis
    unfolding RunWith_def backup_Delete_def backup_Expire_def backup_Verify_def Let_def insert_iff empty_iff
    by (elim disjE FalseE) (auto split: sum.split intro!: same replica_refused [OF rep])
qed

definition demo_replica_world :: "fake_env world" where
  "demo_replica_world = \<lparr>env = (NewFake, plain_process), db = demo_db\<lparr>instances := [(demo_instance ''i1'' [] RoleReplica)\<lparr>i_Status := StatusRunning\<rparr>]\<rparr>,
     stampCounter = 0\<rparr>"

theorem replica_backups_refused_witness:
  "\<exists>e w'. RunWith demo_backup_service ''i1'' ''full'' \<lparr>ru_Annotation = [], ru_Standby = False\<rparr> demo_replica_world = (Inl e, w') \<and>
     env w' = env demo_replica_world"
proof -
  have "\<forall>i\<in>set (instances (db demo_replica_world)). i_ID i = ''i1'' \<longrightarrow> i_Role i = RoleReplica"
    by (simp add: demo_replica_world_def demo_instance_def)
  from replica_backups_refused [OF this, of "RunWith demo_backup_service ''i1'' ''full'' \<lparr>ru_Annotation = [], ru_Standby = False\<rparr>"
      demo_backup_service "''full''" "\<lparr>ru_Annotation = [], ru_Standby = False\<rparr>"]
  obtain e fs where "RunWith demo_backup_service ''i1'' ''full'' \<lparr>ru_Annotation = [], ru_Standby = False\<rparr> demo_replica_world =
      (Inl e, demo_replica_world\<lparr>db := (db demo_replica_world)\<lparr>faults := fs\<rparr>\<rparr>)" by blast
  then show ?thesis by simp
qed

text \<open>The scheduled sweep does not skip replicas: with one running replica in the fleet it reports
  an error although there is nothing to back up.\<close>

lemma RunScheduled_replica_error:
  "\<exists>w'. RunScheduled demo_backup_service ''full'' demo_replica_world =
     (Inl (New KindInvalid ''backup: replicas are not backed up directly; back up the cluster primary''), w')"
  by (simp add: RunScheduled_def demo_replica_world_def demo_db_def demo_instance_def prog_run db_run instance_List_def queryMany_def
      backup_Run_def RunWith_def Backup_def backupTypes_def)

end
