(* ===== verification/Auth.thy ===== *)
theory Auth
  imports Secrets GoURL
begin

text \<open>
  Package \<^verbatim>\<open>internal/auth\<close>: access roles and the permission matrix, the encoding of password
  hashes, session tokens and the middleware in front of the API. The argon2id function and
  the JWT library are third-party code, so they are arguments: \<open>IDKey\<close> of password, salt,
  iterations, memory, parallelism and key length, and the signer and parser of tokens.
\<close>

section \<open>Roles and actions (roles.go, rbac.go)\<close>

text \<open>A Go \<^verbatim>\<open>Role\<close> or \<^verbatim>\<open>Action\<close> is a string; any string may arrive in a request.\<close>

type_synonym auth_role = string
type_synonym Action = string

definition RoleAdmin :: auth_role where "RoleAdmin = ''admin''"
definition RoleOperator :: auth_role where "RoleOperator = ''operator''"
definition RoleViewer :: auth_role where "RoleViewer = ''viewer''"

lemmas auth_role_defs = RoleAdmin_def RoleOperator_def RoleViewer_def

definition Role_Valid :: "auth_role \<Rightarrow> bool" where
  "Role_Valid r \<longleftrightarrow> r = RoleAdmin \<or> r = RoleOperator \<or> r = RoleViewer"

definition ParseRole :: "string \<Rightarrow> goerr + auth_role" where
  "ParseRole s = (if \<not> Role_Valid s then Inl (New KindInvalid (''invalid role: '' @ s)) else Inr s)"

definition ActionInstanceRead :: Action where "ActionInstanceRead = ''instance.read''"
definition ActionInstanceWrite :: Action where "ActionInstanceWrite = ''instance.write''"
definition ActionInstanceDelete :: Action where "ActionInstanceDelete = ''instance.delete''"
definition ActionInstanceConnect :: Action where "ActionInstanceConnect = ''instance.connect''"
definition ActionBackupRead :: Action where "ActionBackupRead = ''backup.read''"
definition ActionBackupWrite :: Action where "ActionBackupWrite = ''backup.write''"
definition ActionBackupRestore :: Action where "ActionBackupRestore = ''backup.restore''"
definition ActionMetricsRead :: Action where "ActionMetricsRead = ''metrics.read''"
definition ActionAuditRead :: Action where "ActionAuditRead = ''audit.read''"
definition ActionUserManage :: Action where "ActionUserManage = ''user.manage''"

lemmas action_defs = ActionInstanceRead_def ActionInstanceWrite_def ActionInstanceDelete_def ActionInstanceConnect_def
  ActionBackupRead_def ActionBackupWrite_def ActionBackupRestore_def ActionMetricsRead_def ActionAuditRead_def ActionUserManage_def

definition AllActions :: "Action list" where
  "AllActions = [ActionInstanceRead, ActionInstanceWrite, ActionInstanceDelete, ActionInstanceConnect,
     ActionBackupRead, ActionBackupWrite, ActionBackupRestore, ActionMetricsRead, ActionAuditRead, ActionUserManage]"

definition readActions :: "Action list" where
  "readActions = [ActionInstanceRead, ActionBackupRead, ActionMetricsRead]"

definition grants :: "(auth_role \<times> Action list) list" where
  "grants = [(RoleViewer, readActions),
     (RoleOperator, [ActionInstanceWrite, ActionInstanceDelete, ActionInstanceConnect, ActionBackupWrite,
        ActionBackupRestore, ActionAuditRead] @ readActions)]"

definition Can :: "auth_role \<Rightarrow> Action \<Rightarrow> bool" where
  "Can role action =
     (if role = RoleAdmin then True
      else case map_of grants role of None \<Rightarrow> False | Some as \<Rightarrow> action \<in> set as)"

section \<open>Unpadded base64 (encoding/base64, RawStdEncoding)\<close>

definition b64_char :: "nat \<Rightarrow> char" where
  "b64_char i = char_of (if i < 26 then 65 + i else if i < 52 then 71 + i else if i < 62 then i - 4 else if i = 62 then 43 else 47)"

definition b64_val :: "char \<Rightarrow> nat option" where
  "b64_val c = (if is_upper c then Some (byte_val c - 65) else if is_lower c then Some (byte_val c - 71)
     else if is_digit c then Some (byte_val c + 4) else if byte_val c = 43 then Some 62 else if byte_val c = 47 then Some 63 else None)"

fun b64_encode :: "string \<Rightarrow> string" where
  "b64_encode [] = []"
| "b64_encode [a] = [b64_char (byte_val a div 4), b64_char ((byte_val a mod 4) * 16)]"
| "b64_encode [a, b] = [b64_char (byte_val a div 4), b64_char ((byte_val a mod 4) * 16 + byte_val b div 16),
     b64_char ((byte_val b mod 16) * 4)]"
| "b64_encode (a # b # c # s) = [b64_char (byte_val a div 4), b64_char ((byte_val a mod 4) * 16 + byte_val b div 16),
     b64_char ((byte_val b mod 16) * 4 + byte_val c div 64), b64_char (byte_val c mod 64)] @ b64_encode s"

text \<open>The decoder skips line breaks; \<open>None\<close> is \<^verbatim>\<open>CorruptInputError\<close>. Bits of an incomplete last
  byte are dropped.\<close>

fun b64_groups :: "nat list \<Rightarrow> string option" where
  "b64_groups [] = Some []"
| "b64_groups [a] = None"
| "b64_groups [a, b] = Some [char_of (a * 4 + b div 16)]"
| "b64_groups [a, b, c] = Some [char_of (a * 4 + b div 16), char_of ((b mod 16) * 16 + c div 4)]"
| "b64_groups (a # b # c # d # s) = map_option ((@) [char_of (a * 4 + b div 16), char_of ((b mod 16) * 16 + c div 4),
     char_of ((c mod 4) * 64 + d)]) (b64_groups s)"

definition b64_decode :: "string \<Rightarrow> string option" where
  "b64_decode s = (let cs = filter (\<lambda>c. c \<noteq> nl \<and> c \<noteq> cr) s in
     if list_all (\<lambda>c. b64_val c \<noteq> None) cs then b64_groups (map (\<lambda>c. the (b64_val c)) cs) else None)"

section \<open>Password hashes (password.go)\<close>

record argon2Params =
  a_memory :: nat
  a_iterations :: nat
  a_parallelism :: nat
  a_saltLen :: nat
  a_keyLen :: nat

definition currentParams :: argon2Params where
  "currentParams = \<lparr>a_memory = 19 * 1024, a_iterations = 2, a_parallelism = 1, a_saltLen = 16, a_keyLen = 32\<rparr>"

definition argon2_Version :: int where "argon2_Version = 19"

definition ErrInvalidHash :: goerr where
  "ErrInvalidHash = Plain ''auth: invalid password hash encoding''"

type_synonym idkey = "string \<Rightarrow> string \<Rightarrow> nat \<Rightarrow> nat \<Rightarrow> nat \<Rightarrow> nat \<Rightarrow> string"

definition params_text :: "nat \<Rightarrow> nat \<Rightarrow> nat \<Rightarrow> string" where
  "params_text m t p = ''m='' @ show_nat m @ '',t='' @ show_nat t @ '',p='' @ show_nat p"

definition encode_hash :: "string \<Rightarrow> string \<Rightarrow> string" where
  "encode_hash salt hash = ''$argon2id$v='' @ Itoa argon2_Version @ ''$'' @
     params_text (a_memory currentParams) (a_iterations currentParams) (a_parallelism currentParams) @ ''$'' @
     b64_encode salt @ ''$'' @ b64_encode hash"

definition HashPassword :: "idkey \<Rightarrow> 'e host \<Rightarrow> string \<Rightarrow> ('e, string) gofun" where
  "HashPassword IDKey h password = (let p = currentParams in
     attempt (RandRead h (a_saltLen p)) (\<lambda>r. case r of
       Inl e \<Rightarrow> fail (Wrapf ''auth: generate salt: '' e)
     | Inr salt \<Rightarrow> ret (encode_hash salt
         (IDKey password salt (a_iterations p) (a_memory p) (a_parallelism p) (a_keyLen p)))))"

text \<open>\<^verbatim>\<open>fmt.Sscanf\<close> with literals and \<^verbatim>\<open>%d\<close> into an unsigned integer of \<open>bits\<close> bits: leading
  spaces, then the longest run of digits; \<open>None\<close> is an error.\<close>

definition scan_lit :: "string \<Rightarrow> string \<Rightarrow> string option" where
  "scan_lit lit s = (if HasPrefix s lit then Some (drop (length lit) s) else None)"

definition scan_uint :: "nat \<Rightarrow> string \<Rightarrow> (nat \<times> string) option" where
  "scan_uint bits s = (let t = dropWhile (\<lambda>c. c = CHR 0x20 \<or> c = tab) s; ds = takeWhile is_digit t in
     if ds = [] then None
     else case parse_digits (2 ^ bits - 1) 0 ds of Inl _ \<Rightarrow> None | Inr n \<Rightarrow> Some (n, dropWhile is_digit t))"

definition scan_params :: "string \<Rightarrow> (nat \<times> nat \<times> nat) option" where
  "scan_params s =
     (case scan_lit ''m='' s of None \<Rightarrow> None | Some s1 \<Rightarrow> (case scan_uint 32 s1 of None \<Rightarrow> None | Some (m, s2) \<Rightarrow>
     (case scan_lit '',t='' s2 of None \<Rightarrow> None | Some s3 \<Rightarrow> (case scan_uint 32 s3 of None \<Rightarrow> None | Some (t, s4) \<Rightarrow>
     (case scan_lit '',p='' s4 of None \<Rightarrow> None | Some s5 \<Rightarrow> (case scan_uint 8 s5 of None \<Rightarrow> None | Some (p, _) \<Rightarrow>
        Some (m, t, p)))))))"

definition decodeHash :: "string \<Rightarrow> goerr + (argon2Params \<times> string \<times> string)" where
  "decodeHash encoded =
     (case Split encoded (CHR ''$'') of
        [p0, p1, p2, p3, p4, p5] \<Rightarrow>
          if p1 \<noteq> ''argon2id'' then Inl ErrInvalidHash
          else (case (case scan_lit ''v='' p2 of None \<Rightarrow> None | Some s \<Rightarrow> scan_int s) of
              None \<Rightarrow> Inl ErrInvalidHash
            | Some version \<Rightarrow>
                if version \<noteq> argon2_Version \<or> ''v='' @ Itoa version \<noteq> p2 then Inl ErrInvalidHash
                else (case scan_params p3 of
                    None \<Rightarrow> Inl ErrInvalidHash
                  | Some (m, t, p) \<Rightarrow>
                      if params_text m t p \<noteq> p3 then Inl ErrInvalidHash
                      else if m = 0 \<or> t = 0 \<or> p = 0 then Inl ErrInvalidHash
                      else (case (b64_decode p4, b64_decode p5) of
                          (Some salt, Some hash) \<Rightarrow>
                            if length salt = 0 \<or> length hash = 0 then Inl ErrInvalidHash
                            else Inr (\<lparr>a_memory = m, a_iterations = t, a_parallelism = p,
                                       a_saltLen = length salt mod 2 ^ 32, a_keyLen = length hash mod 2 ^ 32\<rparr>, salt, hash)
                        | _ \<Rightarrow> Inl ErrInvalidHash)))
      | _ \<Rightarrow> Inl ErrInvalidHash)"

definition VerifyPassword :: "idkey \<Rightarrow> string \<Rightarrow> string \<Rightarrow> goerr + bool" where
  "VerifyPassword IDKey password encoded =
     (case decodeHash encoded of
        Inl e \<Rightarrow> Inl e
      | Inr (p, salt, want) \<Rightarrow> Inr (IDKey password salt (a_iterations p) (a_memory p) (a_parallelism p) (a_keyLen p) = want))"

definition NeedsRehash :: "string \<Rightarrow> bool" where
  "NeedsRehash encoded = (case decodeHash encoded of
       Inl _ \<Rightarrow> True
     | Inr (p, _, _) \<Rightarrow> a_memory p < a_memory currentParams \<or> a_iterations p < a_iterations currentParams \<or>
         a_parallelism p < a_parallelism currentParams \<or> a_keyLen p < a_keyLen currentParams)"

section \<open>Session tokens (jwt.go) and middleware (middleware.go)\<close>

record Claims =
  cl_UserID :: string
  cl_Email :: string
  cl_Role :: auth_role
  cl_Subject :: string
  cl_IssuedAt :: int
  cl_NotBefore :: int
  cl_ExpiresAt :: "int option"

text \<open>
  Times are in seconds, the precision of a \<^verbatim>\<open>NumericDate\<close>.
  The JWT library: \<open>SignHS256\<close> of secret and claims, and \<open>ParseHS256\<close> of secret, current
  time and token, the parser with the options the code sets (HS256 only, expiry required).
\<close>

record jwt_lib =
  SignHS256 :: "string \<Rightarrow> Claims \<Rightarrow> goerr + string"
  ParseHS256 :: "string \<Rightarrow> int \<Rightarrow> string \<Rightarrow> goerr + Claims"

record Issuer =
  is_jwt :: jwt_lib
  is_secret :: string
  is_ttl :: int

definition MinSecretLen :: nat where "MinSecretLen = 32"

definition NewIssuer :: "jwt_lib \<Rightarrow> string \<Rightarrow> int \<Rightarrow> goerr + Issuer" where
  "NewIssuer jwt secret ttl =
     (if length secret < MinSecretLen then
        Inl (New KindInternal (''auth: jwt secret must be at least '' @ Itoa (int MinSecretLen) @ '' bytes''))
      else Inr \<lparr>is_jwt = jwt, is_secret = secret, is_ttl = ttl\<rparr>)"

definition Issue :: "Issuer \<Rightarrow> int \<Rightarrow> string \<Rightarrow> string \<Rightarrow> auth_role \<Rightarrow> goerr + string" where
  "Issue i now userID email role =
     (case SignHS256 (is_jwt i) (is_secret i) \<lparr>cl_UserID = userID, cl_Email = email, cl_Role = role, cl_Subject = userID,
          cl_IssuedAt = now, cl_NotBefore = now, cl_ExpiresAt = Some (now + is_ttl i)\<rparr> of
        Inl e \<Rightarrow> Inl (Wrapf ''auth: sign token: '' e)
      | Inr signed \<Rightarrow> Inr signed)"

definition Verify_token :: "Issuer \<Rightarrow> int \<Rightarrow> string \<Rightarrow> goerr + Claims" where
  "Verify_token i now token =
     (case ParseHS256 (is_jwt i) (is_secret i) now token of
        Inl e \<Rightarrow> Inl (Wrap KindUnauthorized ''auth: invalid token'' e)
      | Inr claims \<Rightarrow>
          if \<not> Role_Valid (cl_Role claims) then Inl (New KindUnauthorized ''auth: invalid role claim'')
          else Inr claims)"

text \<open>\<open>bearerToken\<close> of the \<^verbatim>\<open>Authorization\<close> header, which is empty when absent. The scheme is
  compared with \<^verbatim>\<open>strings.EqualFold\<close>, whose Unicode folds do not touch the letters of
  \<^verbatim>\<open>Bearer\<close>.\<close>

definition bearerToken :: "string \<Rightarrow> string option" where
  "bearerToken h = (case Cut h (CHR '' '') of (scheme, token, found) \<Rightarrow>
     if \<not> found \<or> map lower_char scheme \<noteq> map lower_char ''Bearer'' then None
     else let t = TrimSpace token in if t = [] then None else Some t)"

definition Authenticate :: "Issuer \<Rightarrow> int \<Rightarrow> string \<Rightarrow> goerr + Claims" where
  "Authenticate i now authorization =
     (case bearerToken authorization of
        None \<Rightarrow> Inl (New KindUnauthorized ''missing or malformed bearer token'')
      | Some token \<Rightarrow> (case Verify_token i now token of
            Inl _ \<Rightarrow> Inl (New KindUnauthorized ''invalid token'')
          | Inr claims \<Rightarrow> Inr claims))"

text \<open>\<open>RequireAction\<close> on the claims in the request's context (\<open>None\<close>: not authenticated).\<close>

definition RequireAction :: "Action \<Rightarrow> Claims option \<Rightarrow> goerr option" where
  "RequireAction action ctx =
     (case ctx of
        None \<Rightarrow> Some (New KindUnauthorized ''authentication required'')
      | Some claims \<Rightarrow> if \<not> Can (cl_Role claims) action then Some (New KindForbidden ''insufficient permissions'') else None)"

section \<open>Base64 round trip\<close>

lemma b64_char_byte:
  "i < 64 \<Longrightarrow> byte_val (b64_char i) =
     (if i < 26 then 65 + i else if i < 52 then 71 + i else if i < 62 then i - 4 else if i = 62 then 43 else 47)"
  by (simp add: b64_char_def byte_val_char_of)

lemma b64_val_char: "i < 64 \<Longrightarrow> b64_val (b64_char i) = Some i"
  using b64_char_byte [of i] by (auto simp: b64_val_def is_upper_def is_lower_def is_digit_def split: if_splits)

lemma b64_char_plain: "i < 64 \<Longrightarrow> b64_char i \<noteq> CHR ''$'' \<and> b64_char i \<noteq> nl \<and> b64_char i \<noteq> cr"
  using b64_char_byte [of i] by (auto simp: byte_val_def split: if_splits)

text \<open>The six-bit values behind an encoded text.\<close>

fun b64_bits :: "string \<Rightarrow> nat list" where
  "b64_bits [] = []"
| "b64_bits [a] = [byte_val a div 4, (byte_val a mod 4) * 16]"
| "b64_bits [a, b] = [byte_val a div 4, (byte_val a mod 4) * 16 + byte_val b div 16, (byte_val b mod 16) * 4]"
| "b64_bits (a # b # c # s) = [byte_val a div 4, (byte_val a mod 4) * 16 + byte_val b div 16,
     (byte_val b mod 16) * 4 + byte_val c div 64, byte_val c mod 64] @ b64_bits s"

lemma byte_parts: "byte_val a div 4 < 64" "byte_val a div 16 < 16" "byte_val a div 64 < 4"
  "byte_val a mod 4 \<le> 3" "byte_val a mod 16 \<le> 15"
  using byte_val_less [of a] by (simp_all add: less_mult_imp_div_less less_Suc_eq_le [symmetric])

lemma b64_bits_bound: "list_all (\<lambda>i. i < 64) (b64_bits s)"
proof (induction s rule: b64_bits.induct)
  case (2 a)
  then show ?case using byte_parts [of a] by simp
next
  case (3 a b)
  have "byte_val a mod 4 * 16 + byte_val b div 16 < 64" using byte_parts(4) [of a] byte_parts(2) [of b] by linarith
  then show ?case using byte_parts [of a] byte_parts [of b] by simp
next
  case (4 a b c s)
  have "byte_val a mod 4 * 16 + byte_val b div 16 < 64" "byte_val b mod 16 * 4 + byte_val c div 64 < 64"
    using byte_parts(4) [of a] byte_parts(2,5) [of b] byte_parts(3) [of c] by linarith+
  with 4 show ?case using byte_parts [of a] by simp
qed simp

lemma b64_encode_bits: "b64_encode s = map b64_char (b64_bits s)"
  by (induction s rule: b64_bits.induct) auto

lemma b64_groups_bits: "b64_groups (b64_bits s) = Some s"
proof (induction s rule: b64_bits.induct)
  case (2 a)
  have "byte_val a div 4 * 4 + byte_val a mod 4 = byte_val a" by simp
  then show ?case by simp
next
  case (3 a b)
  have "byte_val a div 4 * 4 + byte_val a mod 4 = byte_val a" "byte_val b div 16 < 16"
    using byte_val_less [of b] by (simp_all add: less_mult_imp_div_less)
  then show ?case by simp
next
  case (4 a b c s)
  have "byte_val b div 16 < 16" "byte_val c div 64 < 4"
    using byte_val_less [of b] byte_val_less [of c] by (simp_all add: less_mult_imp_div_less)
  with 4 show ?case by simp
qed simp

lemma b64_roundtrip: "b64_decode (b64_encode s) = Some s"
proof -
  have b: "x < 64" if "x \<in> set (b64_bits s)" for x using b64_bits_bound [of s] that by (simp add: list_all_iff)
  have "filter (\<lambda>c. c \<noteq> nl \<and> c \<noteq> cr) (b64_encode s) = b64_encode s"
    unfolding b64_encode_bits filter_id_conv using b b64_char_plain by auto
  moreover have "list_all (\<lambda>c. b64_val c \<noteq> None) (b64_encode s)"
    unfolding b64_encode_bits using b by (auto simp: list_all_iff b64_val_char)
  moreover have "map (\<lambda>c. the (b64_val c)) (b64_encode s) = b64_bits s"
    unfolding b64_encode_bits map_map by (rule map_idI) (simp add: b b64_val_char)
  ultimately show ?thesis by (simp add: b64_decode_def b64_groups_bits)
qed

lemma b64_no_dollar: "CHR ''$'' \<notin> set (b64_encode s)"
proof
  assume "CHR ''$'' \<in> set (b64_encode s)"
  then obtain i where "i \<in> set (b64_bits s)" "CHR ''$'' = b64_char i" unfolding b64_encode_bits by auto
  moreover from this have "i < 64" using b64_bits_bound [of s] by (simp add: list_all_iff)
  ultimately show False using b64_char_plain [of i] by simp
qed

section \<open>Password hashes\<close>

lemma scan_lit_append [simp]: "scan_lit lit (lit @ s) = Some s"
  by (simp add: scan_lit_def)

lemma takeWhile_digits: "takeWhile is_digit (show_nat n @ s) = show_nat n @ takeWhile is_digit s"
    "dropWhile is_digit (show_nat n @ s) = dropWhile is_digit s"
  using show_nat_digits [of n] by (simp_all add: list_all_iff takeWhile_append dropWhile_append)

lemma show_nat_hd: "is_digit (hd (show_nat n))"
  using show_nat_digits [of n] show_nat_not_Nil [of n] by (cases "show_nat n") auto

lemma digit_not_blank: "is_digit c \<Longrightarrow> c \<noteq> CHR 0x20 \<and> c \<noteq> tab \<and> c \<noteq> cr \<and> c \<noteq> CHR ''-'' \<and> c \<noteq> CHR ''+''"
  by (auto simp: is_digit_def byte_val_def)

lemma dropWhile_blank: "(\<And>c. P c \<Longrightarrow> \<not> is_digit c) \<Longrightarrow> dropWhile P (show_nat n @ s) = show_nat n @ s"
  using show_nat_hd [of n] show_nat_not_Nil [of n] by (cases "show_nat n") auto

lemma scan_uint_show:
  assumes "n < 2 ^ bits" "s = [] \<or> \<not> is_digit (hd s)"
  shows "scan_uint bits (show_nat n @ s) = Some (n, s)"
proof -
  have "dropWhile (\<lambda>c. c = CHR 0x20 \<or> c = tab) (show_nat n @ s) = show_nat n @ s"
    by (rule dropWhile_blank) (use digit_not_blank in blast)
  moreover have "takeWhile is_digit s = []" "dropWhile is_digit s = s" using assms(2) by (cases s; simp)+
  moreover have "parse_digits (2 ^ bits - 1) 0 (show_nat n) = Inr n" by (rule parse_digits_show) (use assms(1) in simp)
  ultimately show ?thesis by (simp add: scan_uint_def takeWhile_digits Let_def)
qed

lemma scan_params_text:
  assumes "m < 2 ^ 32" "t < 2 ^ 32" "p < 2 ^ 8"
  shows "scan_params (params_text m t p) = Some (m, t, p)"
proof -
  have c: "\<not> is_digit (CHR '','')" by (simp add: is_digit_def byte_val_def)
  have "scan_uint 32 (show_nat m @ '',t='' @ show_nat t @ '',p='' @ show_nat p) = Some (m, '',t='' @ show_nat t @ '',p='' @ show_nat p)"
    "scan_uint 32 (show_nat t @ '',p='' @ show_nat p) = Some (t, '',p='' @ show_nat p)" "scan_uint 8 (show_nat p @ []) = Some (p, [])"
    using assms c by (simp_all add: scan_uint_show del: append_Nil2)
  then show ?thesis unfolding scan_params_def params_text_def by (simp only: scan_lit_append option.case prod.case append_Nil2)
qed

lemma decode_encode:
  assumes "salt \<noteq> []" "hash \<noteq> []"
  shows "decodeHash (encode_hash salt hash) = Inr (\<lparr>a_memory = a_memory currentParams, a_iterations = a_iterations currentParams,
     a_parallelism = a_parallelism currentParams, a_saltLen = length salt mod 2 ^ 32, a_keyLen = length hash mod 2 ^ 32\<rparr>, salt, hash)"
proof -
  let ?ps = "params_text 19456 2 1"
  have enc: "encode_hash salt hash = [] @ CHR ''$'' # ''argon2id'' @ CHR ''$'' # ''v=19'' @ CHR ''$'' # ?ps @ CHR ''$'' # b64_encode salt @
      CHR ''$'' # b64_encode hash"
    by (simp add: encode_hash_def currentParams_def argon2_Version_def str_eval)
  have "CHR ''$'' \<notin> set ?ps" by (simp add: params_text_def str_eval)
  then have "Split (encode_hash salt hash) (CHR ''$'') = [[], ''argon2id'', ''v=19'', ?ps, b64_encode salt, b64_encode hash]"
    unfolding enc using b64_no_dollar by (subst Split_append, simp)+ (simp add: Split_no_sep)
  moreover have "(case scan_lit ''v='' ''v=19'' of None \<Rightarrow> None | Some s \<Rightarrow> scan_int s) = Some 19"
    by (simp add: scan_lit_def HasPrefix_def str_eval)
  moreover have "''v='' @ Itoa 19 = ''v=19''" by (simp add: str_eval)
  moreover have "scan_params ?ps = Some (19456, 2, 1)" by (rule scan_params_text) simp_all
  ultimately show ?thesis
    using assms by (simp add: decodeHash_def argon2_Version_def b64_roundtrip currentParams_def)
qed

lemma HashPassword_decodes:
  assumes "\<And>n e salt e'. RandRead h n e = (Inr salt, e') \<Longrightarrow> length salt = n"
    and "\<And>pw salt t m p n. length (IDKey pw salt t m p n) = n"
    and "HashPassword IDKey h password e = (Inr encoded, e')"
  shows "\<exists>salt. decodeHash encoded = Inr (\<lparr>a_memory = 19456, a_iterations = 2, a_parallelism = 1, a_saltLen = 16,
      a_keyLen = 32\<rparr>, salt, IDKey password salt 2 19456 1 32)"
proof -
  obtain salt where salt: "RandRead h 16 e = (Inr salt, e')" "encoded = encode_hash salt (IDKey password salt 2 19456 1 32)"
    using assms(3) by (auto simp: HashPassword_def currentParams_def prog_run split: prod.splits sum.splits)
  have len: "length salt = 16" "length (IDKey password salt 2 19456 1 32) = 32" using assms(1) [OF salt(1)] assms(2) by auto
  then have "salt \<noteq> []" "IDKey password salt 2 19456 1 32 \<noteq> []" by auto
  from decode_encode [OF this] have "decodeHash encoded = Inr (\<lparr>a_memory = 19456, a_iterations = 2, a_parallelism = 1, a_saltLen = 16,
      a_keyLen = 32\<rparr>, salt, IDKey password salt 2 19456 1 32)"
    by (simp add: salt(2) len(1) assms(2) currentParams_def)
  then show ?thesis by blast
qed

text \<open>
  A password hash verifies: whatever the password and the random salt, the string
  \<open>HashPassword\<close> returns is accepted by \<open>VerifyPassword\<close> for that password, a different
  password is accepted only if argon2id maps it to the same key, and the string is not
  reported as needing a rehash. (The random source fills its buffer and argon2id returns
  keys of the length asked for.)
\<close>

theorem HashPassword_roundtrip:
  assumes "\<And>n e salt e'. RandRead h n e = (Inr salt, e') \<Longrightarrow> length salt = n"
    and "\<And>pw salt t m p n. length (IDKey pw salt t m p n) = n"
    and "HashPassword IDKey h password e = (Inr encoded, e')"
  shows "VerifyPassword IDKey password encoded = Inr True \<and> \<not> NeedsRehash encoded \<and>
     (\<exists>salt. \<forall>other. VerifyPassword IDKey other encoded = Inr (IDKey other salt 2 19456 1 32 = IDKey password salt 2 19456 1 32))"
proof -
  obtain salt where "decodeHash encoded = Inr (\<lparr>a_memory = 19456, a_iterations = 2, a_parallelism = 1, a_saltLen = 16,
      a_keyLen = 32\<rparr>, salt, IDKey password salt 2 19456 1 32)"
    using HashPassword_decodes [OF _ assms(2,3)] assms(1) by blast
  then have "VerifyPassword IDKey other encoded = Inr (IDKey other salt 2 19456 1 32 = IDKey password salt 2 19456 1 32)" "\<not> NeedsRehash encoded"
    for other by (simp_all add: VerifyPassword_def NeedsRehash_def currentParams_def)
  then show ?thesis by auto
qed

definition demo_idkey :: idkey where
  "demo_idkey pw salt t m p n = take n (pw @ salt @ replicate n (CHR ''0''))"

theorem HashPassword_roundtrip_witness:
  "\<exists>encoded e'. HashPassword demo_idkey (fake_host None None (\<lambda>_. None) tagged_lib) ''secret-pw'' (NewFake, plain_process) = (Inr encoded, e') \<and>
     VerifyPassword demo_idkey ''secret-pw'' encoded = Inr True \<and> VerifyPassword demo_idkey ''guess'' encoded = Inr False"
proof -
  let ?h = "fake_host None None (\<lambda>_. None) tagged_lib"
  obtain encoded e' where run: "HashPassword demo_idkey ?h ''secret-pw'' (NewFake, plain_process) = (Inr encoded, e')"
    by (simp add: HashPassword_def currentParams_def prog_run fake_host_def fake_rand_def)
  have len: "length (demo_idkey pw salt t m p n) = n" for pw salt t m p n by (simp add: demo_idkey_def)
  have rnd: "length salt = n" if "RandRead ?h n e = (Inr salt, e')" for n e salt e'
    using that by (auto simp: fake_host_def fake_rand_def split: prod.splits)
  have "VerifyPassword demo_idkey ''secret-pw'' encoded = Inr True \<and> \<not> NeedsRehash encoded \<and>
     (\<exists>salt. \<forall>other. VerifyPassword demo_idkey other encoded =
        Inr (demo_idkey other salt 2 19456 1 32 = demo_idkey ''secret-pw'' salt 2 19456 1 32))"
    by (rule HashPassword_roundtrip [OF _ len run]) (rule rnd)
  then obtain salt where "VerifyPassword demo_idkey ''secret-pw'' encoded = Inr True"
    "VerifyPassword demo_idkey ''guess'' encoded = Inr (demo_idkey ''guess'' salt 2 19456 1 32 = demo_idkey ''secret-pw'' salt 2 19456 1 32)"
    by blast
  with run show ?thesis by (auto simp: demo_idkey_def)
qed

text \<open>
  Malformed hashes never reach the key derivation: every encoding that \<open>decodeHash\<close>
  accepts has cost parameters of at least one that fit their machine integers, and a non-empty salt and
  hash, so argon2id is never called with the zero inputs it panics on; and the accepted
  version and parameter fields are the canonical ones, with no trailing garbage.
\<close>

theorem decodeHash_well_formed:
  assumes "decodeHash encoded = Inr (p, salt, hash)"
  shows "1 \<le> a_memory p \<and> a_memory p < 2 ^ 32 \<and> 1 \<le> a_iterations p \<and> a_iterations p < 2 ^ 32 \<and>
     1 \<le> a_parallelism p \<and> a_parallelism p < 2 ^ 8 \<and> salt \<noteq> [] \<and> hash \<noteq> [] \<and>
     (\<exists>p0 p4 p5. encoded = Join [p0, ''argon2id'', ''v=19'', params_text (a_memory p) (a_iterations p) (a_parallelism p), p4, p5] ''$'' \<and>
        b64_decode p4 = Some salt \<and> b64_decode p5 = Some hash)"
proof -
  obtain p0 p1 p2 p3 p4 p5 where sp: "Split encoded (CHR ''$'') = [p0, p1, p2, p3, p4, p5]"
    using assms by (auto simp: decodeHash_def split: list.splits)
  obtain v where p1: "p1 = ''argon2id''" and v: "v = argon2_Version" "''v='' @ Itoa v = p2"
    using assms sp by (auto simp: decodeHash_def split: if_splits option.splits)
  obtain m t q where scan: "scan_params p3 = Some (m, t, q)" and canon: "params_text m t q = p3" and pos: "m \<noteq> 0" "t \<noteq> 0" "q \<noteq> 0"
    and dec: "b64_decode p4 = Some salt" "b64_decode p5 = Some hash" "salt \<noteq> []" "hash \<noteq> []"
    and p: "p = \<lparr>a_memory = m, a_iterations = t, a_parallelism = q, a_saltLen = length salt mod 2 ^ 32, a_keyLen = length hash mod 2 ^ 32\<rparr>"
    using assms sp by (auto simp: decodeHash_def split: if_splits option.splits)
  have ub: "n < 2 ^ bits" if "scan_uint bits s = Some (n, s')" for bits s n s'
  proof -
    have "\<exists>ds. parse_digits (2 ^ bits - 1) 0 ds = Inr n" using that by (auto simp: scan_uint_def Let_def split: if_splits sum.splits)
    then have "n \<le> 2 ^ bits - 1" by (auto dest: parse_digits_bound)
    moreover have "0 < (2 :: nat) ^ bits" by simp
    ultimately show ?thesis by linarith
  qed
  have "m < 2 ^ 32" "t < 2 ^ 32" "q < 2 ^ 8"
    using scan by (auto simp: scan_params_def split: option.splits dest!: ub)
  moreover have "encoded = Join [p0, ''argon2id'', ''v=19'', params_text m t q, p4, p5] ''$''"
    using Join_Split [of encoded "CHR ''$''"] sp p1 v canon by (simp add: argon2_Version_def str_eval)
  ultimately show ?thesis using pos dec p by auto
qed

theorem decodeHash_well_formed_witness:
  "\<exists>p salt hash. decodeHash (encode_hash ''salt'' ''key'') = Inr (p, salt, hash) \<and> 1 \<le> a_parallelism p \<and> hash \<noteq> []"
proof -
  obtain p salt hash where d: "decodeHash (encode_hash ''salt'' ''key'') = Inr (p, salt, hash)"
    using decode_encode [of "''salt''" "''key''"] by simp
  from decodeHash_well_formed [OF d] d show ?thesis by blast
qed

end
