(* ===== verification/Accounts.thy ===== *)
theory Accounts
  imports Auth ProvisionBase "HOL-Library.Sublist"
begin

text \<open>
  Control-plane accounts: \<^verbatim>\<open>internal/user\<close> (model and repository), \<^verbatim>\<open>internal/audit\<close>,
  \<^verbatim>\<open>internal/bootstrap\<close> and the HTTP handlers over them, \<^verbatim>\<open>internal/api/users.go\<close>,
  \<^verbatim>\<open>auth.go\<close>, \<^verbatim>\<open>sso.go\<close>, \<^verbatim>\<open>audit.go\<close> and \<^verbatim>\<open>respond.go\<close>.

  The state holds the two tables, the environment the handlers draw random bytes from, the
  schedule of failing statements and the sequence of generated ids, as in the metadata
  database; \<open>ac_lower\<close> is PostgreSQL's \<^verbatim>\<open>lower\<close> under the database's collation. A handler
  returns the error it responds with (\<open>Inl\<close>) or its payload (\<open>Inr\<close>); the JSON decoder is a
  parameter, and so is the request's \<^verbatim>\<open>Header.Get\<close>. The clock reading of
  \<^verbatim>\<open>Issue\<close> is an argument. An id that is no UUID matches no row here, where the driver refuses the argument
  and the handler answers with an internal error instead of not-found.
\<close>

section \<open>Users (user/user.go)\<close>

record User =
  u_ID :: string
  u_Email :: string
  u_PasswordHash :: string
  u_Role :: auth_role
  u_Disabled :: bool

record NewUser =
  nu_Email :: string
  nu_PasswordHash :: string
  nu_Role :: auth_role

definition NewUser_Validate :: "NewUser \<Rightarrow> goerr option" where
  "NewUser_Validate n =
     (if TrimSpace (nu_Email n) = [] then Some (New KindInvalid ''user: email is required'')
      else if nu_PasswordHash n = [] then Some (New KindInvalid ''user: password hash is required'')
      else if \<not> Role_Valid (nu_Role n) then Some (New KindInvalid ''user: invalid role'')
      else None)"

definition NormalizeEmail :: "string \<Rightarrow> string" where
  "NormalizeEmail email = ToLower (TrimSpace email)"

section \<open>Audit entries and the state\<close>

record Entry =
  en_ID :: string
  en_Actor :: string
  en_Action :: string
  en_Target :: string

definition Entry_Validate :: "Entry \<Rightarrow> goerr option" where
  "Entry_Validate e =
     (if TrimSpace (en_Actor e) = [] then Some (New KindInvalid ''audit: actor is required'')
      else if TrimSpace (en_Action e) = [] then Some (New KindInvalid ''audit: action is required'')
      else None)"

record 'e accounts =
  ac_env :: 'e
  ac_faults :: "bool list"
  ac_lower :: "string \<Rightarrow> string"
  ac_uuids :: "nat \<Rightarrow> string"
  ac_next :: nat
  users :: "User list"
  audit_log :: "Entry list"

definition onA :: "('e, 'a) gofun \<Rightarrow> ('e accounts, 'a) gofun" where
  "onA m s = (case m (ac_env s) of (r, e') \<Rightarrow> (r, s\<lparr>ac_env := e'\<rparr>))"

definition astmt :: "string \<Rightarrow> ('e accounts, 'a) gofun \<Rightarrow> ('e accounts, 'a) gofun" where
  "astmt msg m s = (case ac_faults s of
       [] \<Rightarrow> m s
     | bad # fs \<Rightarrow>
         if bad then (Inl (Wrap KindInternal msg (Plain ''statement failed'')), s\<lparr>ac_faults := fs\<rparr>)
         else m (s\<lparr>ac_faults := fs\<rparr>))"

section \<open>The user repository (user/repo.go)\<close>

definition user_insert :: "string \<Rightarrow> string \<Rightarrow> auth_role \<Rightarrow> ('e accounts, User) gofun" where
  "user_insert email hash role s =
     (let uid = ac_uuids s (ac_next s); s' = s\<lparr>ac_next := Suc (ac_next s)\<rparr>;
          u = \<lparr>u_ID = uid, u_Email = email, u_PasswordHash = hash, u_Role = role, u_Disabled = False\<rparr> in
      if uid \<in> u_ID ` set (users s) \<or> ac_lower s email \<in> (\<lambda>u. ac_lower s (u_Email u)) ` set (users s) then
        (Inl (Wrap KindConflict ''user: email already exists'' (Plain ''23505'')), s')
      else (Inr u, s'\<lparr>users := users s @ [u]\<rparr>))"

definition user_Create :: "NewUser \<Rightarrow> ('e accounts, User) gofun" where
  "user_Create n =
     (case NewUser_Validate n of
        Some e \<Rightarrow> fail e
      | None \<Rightarrow> astmt ''user: create'' (user_insert (NormalizeEmail (nu_Email n)) (nu_PasswordHash n) (nu_Role n)))"

definition user_scanOne :: "('e accounts \<Rightarrow> User \<Rightarrow> bool) \<Rightarrow> ('e accounts, User) gofun" where
  "user_scanOne P = astmt ''user: query'' (\<lambda>s. case find (P s) (users s) of
       None \<Rightarrow> (Inl (New KindNotFound ''user: not found''), s)
     | Some u \<Rightarrow> (Inr u, s))"

definition user_GetByEmail :: "string \<Rightarrow> ('e accounts, User) gofun" where
  "user_GetByEmail email =
     user_scanOne (\<lambda>s u. ac_lower s (u_Email u) = ac_lower s (NormalizeEmail email))"

definition user_GetByID :: "string \<Rightarrow> ('e accounts, User) gofun" where
  "user_GetByID uid = user_scanOne (\<lambda>_ u. u_ID u = uid)"

definition user_List :: "('e accounts, User list) gofun" where
  "user_List = astmt ''user: list'' (\<lambda>s. (Inr (users s), s))"

definition user_exec :: "(User \<Rightarrow> User) \<Rightarrow> string \<Rightarrow> ('e accounts, unit) gofun" where
  "user_exec up uid = astmt ''user: exec'' (\<lambda>s.
     if uid \<notin> u_ID ` set (users s) then (Inl (New KindNotFound ''user: not found''), s)
     else (Inr (), s\<lparr>users := map (\<lambda>u. if u_ID u = uid then up u else u) (users s)\<rparr>))"

definition SetDisabled :: "string \<Rightarrow> bool \<Rightarrow> ('e accounts, unit) gofun" where
  "SetDisabled uid disabled = user_exec (\<lambda>u. u\<lparr>u_Disabled := disabled\<rparr>) uid"

definition UpdatePasswordHash :: "string \<Rightarrow> string \<Rightarrow> ('e accounts, unit) gofun" where
  "UpdatePasswordHash uid hash = user_exec (\<lambda>u. u\<lparr>u_PasswordHash := hash\<rparr>) uid"

section \<open>The audit log (audit/audit.go)\<close>

definition audit_Record :: "Entry \<Rightarrow> ('e accounts, unit) gofun" where
  "audit_Record e =
     (case Entry_Validate e of
        Some err \<Rightarrow> fail err
      | None \<Rightarrow> astmt ''audit: record'' (\<lambda>s.
          let uid = ac_uuids s (ac_next s); s' = s\<lparr>ac_next := Suc (ac_next s)\<rparr> in
          if uid \<in> en_ID ` set (audit_log s) then (Inl (Wrap KindInternal ''audit: record'' (Plain ''23505'')), s')
          else (Inr (), s'\<lparr>audit_log := audit_log s @ [e\<lparr>en_ID := uid\<rparr>]\<rparr>)))"

definition audit_List :: "int \<Rightarrow> ('e accounts, Entry list) gofun" where
  "audit_List limit0 =
     (let limit = if limit0 \<le> 0 then 100 else limit0
      in astmt ''audit: list'' (\<lambda>s. (Inr (take (nat limit) (rev (audit_log s))), s)))"

section \<open>Requests and responses (api/respond.go, api/audit\_helper.go)\<close>

text \<open>
  A JSON decoder, strict about unknown fields, reads the bytes a body offers and is told
  whether reading on fails (the body is over the limit); it returns the first value, and
  whether the input ended after it.
\<close>

type_synonym 'a decoder = "string \<Rightarrow> bool \<Rightarrow> goerr + ('a \<times> bool)"

definition maxBodyBytes :: nat where
  "maxBodyBytes = 2 ^ 20"

definition decodeJSON :: "'a decoder \<Rightarrow> string \<Rightarrow> goerr + 'a" where
  "decodeJSON dec body =
     (case dec (take maxBodyBytes body) (maxBodyBytes < length body) of
        Inl e \<Rightarrow> Inl (Wrap KindInvalid ''invalid request body'' e)
      | Inr (x, eof) \<Rightarrow>
          if eof then Inr x else Inl (New KindInvalid ''invalid request body: unexpected trailing data''))"

definition respondError :: "goerr \<Rightarrow> nat \<times> string" where
  "respondError e =
     (let status = HTTPStatus e in (status, if status \<ge> 500 then ''internal error'' else Error e))"

definition entry_of :: "string \<Rightarrow> string \<Rightarrow> string \<Rightarrow> Entry" where
  "entry_of actor action target = \<lparr>en_ID = [], en_Actor = actor, en_Action = action, en_Target = target\<rparr>"

definition recordAudit :: "bool \<Rightarrow> Claims option \<Rightarrow> string \<Rightarrow> string \<Rightarrow> ('e accounts, unit) gofun" where
  "recordAudit recorder ctx action target =
     (if \<not> recorder then ret ()
      else let actor = (case ctx of Some c \<Rightarrow> if cl_Email c \<noteq> [] then cl_Email c else ''system'' | None \<Rightarrow> ''system'')
           in ignoring (audit_Record (entry_of actor action target)) (ret ()))"

text \<open>The \<open>record\<close> methods of the two login handlers.\<close>

definition record_login :: "bool \<Rightarrow> string \<Rightarrow> string \<Rightarrow> ('e accounts, unit) gofun" where
  "record_login recorder action target =
     (if \<not> recorder then ret () else ignoring (audit_Record (entry_of target action target)) (ret ()))"

section \<open>User administration (api/users.go)\<close>

definition minPasswordLen :: nat where "minPasswordLen = 8"

record createUserRequest =
  cr_Email :: string
  cr_Password :: string
  cr_Role :: string

record userPayload =
  up_ID :: string
  up_Email :: string
  up_Role :: string

definition toPayload :: "User \<Rightarrow> userPayload" where
  "toPayload u = \<lparr>up_ID = u_ID u, up_Email = u_Email u, up_Role = u_Role u\<rparr>"

text \<open>What the handlers are built with: the host (random bytes), argon2id, the token issuer, the
  placeholder hash of \<^verbatim>\<open>auth.go\<close> and whether an audit recorder is attached.\<close>

record 'e handlers =
  hd_host :: "'e host"
  hd_idkey :: idkey
  hd_issuer :: Issuer
  hd_dummyHash :: string
  hd_audit :: bool

definition users_Create :: "'e handlers \<Rightarrow> Claims option \<Rightarrow> createUserRequest decoder \<Rightarrow> string \<Rightarrow>
    ('e accounts, userPayload) gofun" where
  "users_Create h ctx dec body =
     (case decodeJSON dec body of
        Inl e \<Rightarrow> fail e
      | Inr req \<Rightarrow>
          if length (cr_Password req) < minPasswordLen then
            fail (New KindInvalid ''password must be at least 8 characters'')
          else case ParseRole (cr_Role req) of
            Inl e \<Rightarrow> fail e
          | Inr role \<Rightarrow>
              bindE (wrap_error (Wrap KindInternal ''hash password'') (onA (HashPassword (hd_idkey h) (hd_host h) (cr_Password req)))) (\<lambda>hash.
              bindE (user_Create \<lparr>nu_Email = cr_Email req, nu_PasswordHash = hash, nu_Role = role\<rparr>) (\<lambda>u.
              ignoring (recordAudit (hd_audit h) ctx ''user.create'' (u_Email u)) (ret (toPayload u)))))"

definition users_List :: "('e accounts, userPayload list) gofun" where
  "users_List = bindE user_List (\<lambda>us. ret (map toPayload us))"

definition active_admin :: "User \<Rightarrow> bool" where
  "active_admin u \<longleftrightarrow> u_Role u = RoleAdmin \<and> \<not> u_Disabled u"

definition guardDisable :: "Claims option \<Rightarrow> string \<Rightarrow> ('e accounts, unit) gofun" where
  "guardDisable ctx uid =
     (if (case ctx of Some c \<Rightarrow> cl_UserID c = uid | None \<Rightarrow> False) then
        fail (New KindInvalid ''you cannot disable your own account'')
      else
        bindE user_List (\<lambda>us.
        let target = find (\<lambda>u. u_ID u = uid) (rev us); activeAdmins = length (filter active_admin us) in
        case target of
          None \<Rightarrow> ret ()
        | Some t \<Rightarrow>
            if u_Role t = RoleAdmin \<and> \<not> u_Disabled t \<and> activeAdmins \<le> 1 then
              fail (New KindInvalid ''cannot disable the last active admin'')
            else ret ()))"

definition setDisabled :: "'e handlers \<Rightarrow> Claims option \<Rightarrow> string \<Rightarrow> bool \<Rightarrow> string \<Rightarrow> ('e accounts, unit) gofun" where
  "setDisabled h ctx uid disabled action =
     bindE (if disabled then guardDisable ctx uid else ret ()) (\<lambda>_.
     bindE (SetDisabled uid disabled) (\<lambda>_.
     ignoring (recordAudit (hd_audit h) ctx action uid) (ret ())))"

definition users_Disable :: "'e handlers \<Rightarrow> Claims option \<Rightarrow> string \<Rightarrow> ('e accounts, unit) gofun" where
  "users_Disable h ctx uid = setDisabled h ctx uid True ''user.disable''"

definition users_Enable :: "'e handlers \<Rightarrow> Claims option \<Rightarrow> string \<Rightarrow> ('e accounts, unit) gofun" where
  "users_Enable h ctx uid = setDisabled h ctx uid False ''user.enable''"

section \<open>Password login (api/auth.go)\<close>

record loginRequest =
  lr_Email :: string
  lr_Password :: string

definition invalid_credentials :: goerr where
  "invalid_credentials = New KindUnauthorized ''invalid credentials''"

definition upgrade_hash :: "'e handlers \<Rightarrow> User \<Rightarrow> string \<Rightarrow> ('e accounts, unit) gofun" where
  "upgrade_hash h u password =
     (if NeedsRehash (u_PasswordHash u) then
        attempt (onA (HashPassword (hd_idkey h) (hd_host h) password)) (\<lambda>r. case r of
            Inl _ \<Rightarrow> ret ()
          | Inr newHash \<Rightarrow> ignoring (UpdatePasswordHash (u_ID u) newHash) (ret ()))
      else ret ())"

definition start_session :: "'e handlers \<Rightarrow> int \<Rightarrow> User \<Rightarrow> string \<Rightarrow> ('e accounts, string \<times> userPayload) gofun" where
  "start_session h now u action =
     (case Issue (hd_issuer h) now (u_ID u) (u_Email u) (u_Role u) of
        Inl e \<Rightarrow> fail (Wrap KindInternal ''issue token'' e)
      | Inr token \<Rightarrow> ignoring (record_login (hd_audit h) action (u_Email u)) (ret (token, toPayload u)))"

definition Login :: "'e handlers \<Rightarrow> loginRequest decoder \<Rightarrow> int \<Rightarrow> string \<Rightarrow> ('e accounts, string \<times> userPayload) gofun" where
  "Login h dec now body =
     (case decodeJSON dec body of
        Inl e \<Rightarrow> fail e
      | Inr req \<Rightarrow>
          if TrimSpace (lr_Email req) = [] \<or> lr_Password req = [] then
            fail (New KindInvalid ''email and password are required'')
          else
            attempt (user_GetByEmail (lr_Email req)) (\<lambda>r. case r of
                Inl _ \<Rightarrow>
                  ignoring (\<lambda>s. (VerifyPassword (hd_idkey h) (lr_Password req) (hd_dummyHash h), s)) (
                  ignoring (record_login (hd_audit h) ''auth.login.failed'' (lr_Email req)) (fail invalid_credentials))
              | Inr u \<Rightarrow>
                  if VerifyPassword (hd_idkey h) (lr_Password req) (u_PasswordHash u) \<noteq> Inr True then
                    ignoring (record_login (hd_audit h) ''auth.login.failed'' (lr_Email req)) (fail invalid_credentials)
                  else if u_Disabled u then
                    ignoring (record_login (hd_audit h) ''auth.login.disabled'' (u_Email u))
                      (fail (New KindForbidden ''account is disabled''))
                  else
                    ignoring (upgrade_hash h u (lr_Password req)) (start_session h now u ''auth.login'')))"

definition Logout :: "'e handlers \<Rightarrow> Claims option \<Rightarrow> ('e accounts, unit) gofun" where
  "Logout h ctx =
     (case ctx of Some c \<Rightarrow> record_login (hd_audit h) ''auth.logout'' (cl_Email c) | None \<Rightarrow> ret ())"

section \<open>Single sign-on (api/sso.go)\<close>

definition ssoSecretHeader :: string where
  "ssoSecretHeader = ''X-Pgfleet-Sso-Secret''"

record SSOConfig =
  sc_EmailHeader :: string
  sc_GroupsHeader :: string
  sc_AutoProvision :: bool
  sc_AdminGroup :: string
  sc_OperatorGroup :: string
  sc_SharedSecret :: string

definition SSO_Enabled :: "SSOConfig \<Rightarrow> bool" where
  "SSO_Enabled c \<longleftrightarrow> TrimSpace (sc_EmailHeader c) \<noteq> []"

definition adminGroup :: "SSOConfig \<Rightarrow> string" where
  "adminGroup c = (if sc_AdminGroup c \<noteq> [] then sc_AdminGroup c else ''pgfleet-admins'')"

definition operatorGroup :: "SSOConfig \<Rightarrow> string" where
  "operatorGroup c = (if sc_OperatorGroup c \<noteq> [] then sc_OperatorGroup c else ''pgfleet-operators'')"

text \<open>\<^verbatim>\<open>strings.FieldsFunc\<close> with the separators comma and space.\<close>

fun group_fields :: "string \<Rightarrow> string \<Rightarrow> string list" where
  "group_fields field [] = (if field = [] then [] else [field])"
| "group_fields field (c # cs) =
     (if c = CHR '','' \<or> c = CHR '' '' then
        (if field = [] then group_fields [] cs else field # group_fields [] cs)
      else group_fields (field @ [c]) cs)"

primrec first_role :: "SSOConfig \<Rightarrow> string list \<Rightarrow> auth_role" where
  "first_role c [] = RoleViewer"
| "first_role c (g # gs) =
     (if TrimSpace g = adminGroup c then RoleAdmin
      else if TrimSpace g = operatorGroup c then RoleOperator
      else first_role c gs)"

definition roleFromGroups :: "SSOConfig \<Rightarrow> string \<Rightarrow> auth_role" where
  "roleFromGroups c groups = first_role c (group_fields [] groups)"

definition randomPasswordHash :: "'e handlers \<Rightarrow> ('e accounts, string) gofun" where
  "randomPasswordHash h =
     bindE (wrap_error (Wrap KindInternal ''sso: generate random secret'') (onA (RandRead (hd_host h) 32))) (\<lambda>b.
     onA (HashPassword (hd_idkey h) (hd_host h) (hex_encode b)))"

definition sso_provision :: "'e handlers \<Rightarrow> SSOConfig \<Rightarrow> string \<Rightarrow> string \<Rightarrow> ('e accounts, User) gofun" where
  "sso_provision h cfg email groups =
     bindE (randomPasswordHash h) (\<lambda>hash.
     bindE (user_Create \<lparr>nu_Email = email, nu_PasswordHash = hash, nu_Role = roleFromGroups cfg groups\<rparr>) (\<lambda>u.
     ignoring (record_login (hd_audit h) ''auth.sso.provisioned'' (u_Email u)) (ret u)))"

definition sso_account :: "'e handlers \<Rightarrow> SSOConfig \<Rightarrow> (string \<Rightarrow> string) \<Rightarrow> string \<Rightarrow> ('e accounts, User) gofun" where
  "sso_account h cfg header email =
     attempt (user_GetByEmail email) (\<lambda>r. case r of
         Inr u \<Rightarrow> ret u
       | Inl e \<Rightarrow>
           if Kind e = KindNotFound \<and> sc_AutoProvision cfg then sso_provision h cfg email (header (sc_GroupsHeader cfg))
           else fail e)"

definition Exchange :: "'e handlers \<Rightarrow> SSOConfig \<Rightarrow> int \<Rightarrow> (string \<Rightarrow> string) \<Rightarrow> ('e accounts, string \<times> userPayload) gofun" where
  "Exchange h cfg now header =
     (if sc_SharedSecret cfg \<noteq> [] \<and> header ssoSecretHeader \<noteq> sc_SharedSecret cfg then
        fail (New KindUnauthorized ''single sign-on: missing or invalid proxy secret'')
      else
        let email = TrimSpace (header (sc_EmailHeader cfg)) in
        if email = [] then fail (New KindUnauthorized ''no single sign-on identity present'')
        else
          attempt (sso_account h cfg header email) (\<lambda>r. case r of
              Inl e \<Rightarrow>
                if Kind e = KindNotFound then
                  ignoring (record_login (hd_audit h) ''auth.sso.unprovisioned'' email)
                    (fail (New KindForbidden ''no PgFleet account is provisioned for this identity''))
                else fail e
            | Inr u \<Rightarrow>
                if u_Disabled u then
                  ignoring (record_login (hd_audit h) ''auth.sso.disabled'' (u_Email u))
                    (fail (New KindForbidden ''account is disabled''))
                else start_session h now u ''auth.sso.login''))"

section \<open>Bootstrap (bootstrap/bootstrap.go)\<close>

definition EnsureAdmin :: "'e handlers \<Rightarrow> string \<Rightarrow> string \<Rightarrow> ('e accounts, bool) gofun" where
  "EnsureAdmin h email password =
     (if email = [] \<or> password = [] then ret False
      else
        bindE (wrap_error (Wrapf ''bootstrap: list users: '') user_List) (\<lambda>existing.
        if existing \<noteq> [] then ret False
        else
          bindE (wrap_error (Wrapf ''bootstrap: hash password: '') (onA (HashPassword (hd_idkey h) (hd_host h) password))) (\<lambda>hash.
          bindE (wrap_error (Wrapf ''bootstrap: create admin: '')
            (user_Create \<lparr>nu_Email = email, nu_PasswordHash = hash, nu_Role = RoleAdmin\<rparr>)) (\<lambda>_.
          ret True))))"

section \<open>The audit trail (api/audit.go)\<close>

definition auditDefaultLimit :: int where "auditDefaultLimit = 100"
definition auditMaxLimit :: int where "auditMaxLimit = 500"

definition parseAuditLimit :: "string \<Rightarrow> int" where
  "parseAuditLimit raw =
     (case ParseInt raw of
        Inl _ \<Rightarrow> auditDefaultLimit
      | Inr n \<Rightarrow> if n \<le> 0 then auditDefaultLimit else if n > auditMaxLimit then auditMaxLimit else n)"

definition AuditHandler_List :: "string \<Rightarrow> ('e accounts, Entry list) gofun" where
  "AuditHandler_List limit = audit_List (parseAuditLimit limit)"

section \<open>What every operation keeps\<close>

definition acc_wf :: "'e accounts \<Rightarrow> bool" where
  "acc_wf s \<longleftrightarrow> distinct (map u_ID (users s)) \<and> distinct (map (\<lambda>u. ac_lower s (u_Email u)) (users s)) \<and>
     (\<forall>u\<in>set (users s). Role_Valid (u_Role u))"

definition profile :: "User \<Rightarrow> string \<times> string \<times> auth_role" where
  "profile u = (u_ID u, u_Email u, u_Role u)"

definition has_admin :: "'e accounts \<Rightarrow> bool" where
  "has_admin s \<longleftrightarrow> (\<exists>u\<in>set (users s). active_admin u)"

text \<open>\<open>live s0\<close>: well-formed, administrable, and every account of \<open>s0\<close> still there with its
  e-mail and its role.\<close>

definition live :: "'e accounts \<Rightarrow> 'e accounts \<Rightarrow> bool" where
  "live s0 s \<longleftrightarrow> acc_wf s \<and> has_admin s \<and> ac_lower s = ac_lower s0 \<and>
     prefix (map profile (users s0)) (map profile (users s))"

definition spare :: "string \<Rightarrow> 'e accounts \<Rightarrow> bool" where
  "spare uid s \<longleftrightarrow> (\<exists>u\<in>set (users s). active_admin u \<and> u_ID u \<noteq> uid)"

lemma live_fields:
  "live s0 (s\<lparr>ac_faults := fs\<rparr>) = live s0 s" "live s0 (s\<lparr>ac_env := e\<rparr>) = live s0 s"
  "live s0 (s\<lparr>ac_next := n\<rparr>) = live s0 s" "live s0 (s\<lparr>audit_log := l\<rparr>) = live s0 s"
  "spare uid (s\<lparr>ac_faults := fs\<rparr>) = spare uid s"
  by (simp_all add: live_def acc_wf_def has_admin_def spare_def)

lemma keeps_astmt: "keeps (live s0) m \<Longrightarrow> keeps (live s0) (astmt msg m)"
  by (simp add: keeps_def astmt_def live_fields split: list.splits)

lemma keeps_onA: "keeps (live s0) (onA m)"
  by (simp add: keeps_def onA_def live_fields split: prod.splits)

lemma keeps_wrap: "keeps I m \<Longrightarrow> keeps I (wrap_error w m)"
  by (simp add: wrap_error_def keeps_attempt keeps_case_sum keeps_fail keeps_ret)

lemma wf_updated:
  assumes "acc_wf s" "\<And>u. profile (up u) = profile u"
  shows "acc_wf (s\<lparr>users := map up (users s)\<rparr>)"
proof -
  have "u_ID (up u) = u_ID u" "u_Email (up u) = u_Email u" "u_Role (up u) = u_Role u" for u
    using assms(2) [of u] by (simp_all add: profile_def)
  then have "map u_ID (map up (users s)) = map u_ID (users s)"
    "map (\<lambda>u. ac_lower s (u_Email u)) (map up (users s)) = map (\<lambda>u. ac_lower s (u_Email u)) (users s)"
    "\<forall>u\<in>set (users s). Role_Valid (u_Role u) \<Longrightarrow> \<forall>u\<in>set (map up (users s)). Role_Valid (u_Role u)"
    by simp_all
  with assms(1) show ?thesis by (simp add: acc_wf_def del: map_map)
qed

lemma live_updated:
  assumes "live s0 s" "\<And>u. profile (up u) = profile u" "\<exists>u\<in>set (users s). active_admin (up u)"
  shows "live s0 (s\<lparr>users := map up (users s)\<rparr>)"
proof -
  have "map profile (map up (users s)) = map profile (users s)" using assms(2) by simp
  with assms wf_updated [of s up] show ?thesis by (simp add: live_def has_admin_def del: map_map)
qed

lemma keeps_user_exec:
  assumes "\<And>u. profile (up u) = profile u" "\<And>u. u_Disabled (up u) \<Longrightarrow> u_Disabled u"
  shows "keeps (live s0) (user_exec up uid)"
proof -
  have pf: "profile (if u_ID u = uid then up u else u) = profile u" for u using assms(1) by simp
  have "active_admin u \<Longrightarrow> active_admin (if u_ID u = uid then up u else u)" for u
    using assms(1) [of u] assms(2) [of u] by (auto simp: active_admin_def profile_def)
  then have adm: "live s0 s \<Longrightarrow> \<exists>u\<in>set (users s). active_admin (if u_ID u = uid then up u else u)" for s
    unfolding live_def has_admin_def by blast
  show ?thesis unfolding user_exec_def
    by (rule keeps_astmt) (simp add: keeps_def live_updated [OF _ pf adm])
qed

lemma keeps_SetDisabled: "hoare (\<lambda>s. live s0 s \<and> spare uid s) (SetDisabled uid d) (\<lambda>_. live s0)"
proof (rule hoareI, elim conjE)
  fix s assume l: "live s0 s" and sp: "spare uid s"
  let ?up = "\<lambda>u. if u_ID u = uid then u\<lparr>u_Disabled := d\<rparr> else u"
  have pf: "profile (?up u) = profile u" for u by (simp add: profile_def)
  have adm: "\<exists>u\<in>set (users s). active_admin (?up u)" using sp by (auto simp: spare_def)
  have "live s0 (s\<lparr>users := map ?up (users s)\<rparr>)" using l pf adm by (rule live_updated)
  moreover have "live s0 (s\<lparr>ac_faults := fs, users := map ?up (users s)\<rparr>)" for fs
    using live_updated [of s0 "s\<lparr>ac_faults := fs\<rparr>" ?up] l pf adm by (simp add: live_fields)
  ultimately show "live s0 (snd (SetDisabled uid d s))"
    using l by (simp add: SetDisabled_def user_exec_def astmt_def live_fields split: list.splits)
qed

lemma keeps_user_insert: "Role_Valid role \<Longrightarrow> keeps (live s0) (user_insert email hash role)"
  by (rule keepsI) (auto simp: user_insert_def Let_def live_def acc_wf_def has_admin_def)

lemma keeps_user_Create: "keeps (live s0) (user_Create n)"
  unfolding user_Create_def
  by (auto intro!: keeps_case_option keeps_fail keeps_astmt keeps_user_insert simp: NewUser_Validate_def split: if_splits)

lemma keeps_user_queries:
  "keeps (live s0) (user_scanOne P)" "keeps (live s0) (user_GetByEmail email)" "keeps (live s0) user_List"
  by (auto simp: user_GetByEmail_def user_scanOne_def user_List_def keeps_def split: option.splits intro!: keepsD [OF keeps_astmt])

lemma keeps_audit:
  "keeps (live s0) (audit_Record e)" "keeps (live s0) (recordAudit b ctx action target)"
  "keeps (live s0) (record_login b action target)"
proof -
  show r: "keeps (live s0) (audit_Record e)" for e
    unfolding audit_Record_def
    by (intro keeps_case_option keeps_fail keeps_astmt) (simp add: keeps_def Let_def live_fields)
  show "keeps (live s0) (recordAudit b ctx action target)" "keeps (live s0) (record_login b action target)"
    by (simp_all add: recordAudit_def record_login_def Let_def keeps_ret keeps_ignoring r)
qed

lemmas keeps_account_prims =
  keeps_rules keeps_wrap keeps_onA keeps_user_Create keeps_user_queries keeps_audit

lemma keeps_users_Create: "keeps (live s0) (users_Create h ctx dec body)"
  unfolding users_Create_def by (intro keeps_account_prims)

lemma keeps_upgrade_hash: "keeps (live s0) (upgrade_hash h u password)"
proof -
  have "keeps (live s0) (UpdatePasswordHash uid hash)" for uid hash
    unfolding UpdatePasswordHash_def by (rule keeps_user_exec) (simp_all add: profile_def)
  then show ?thesis unfolding upgrade_hash_def by (intro keeps_account_prims)
qed

lemma keeps_start_session: "keeps (live s0) (start_session h now u action)"
  unfolding start_session_def by (intro keeps_account_prims)

lemma keeps_Login: "keeps (live s0) (Login h dec now body)"
proof -
  have "keeps (live s0) (\<lambda>s. (r, s))" for r :: "goerr + bool" by (simp add: keeps_def)
  then show ?thesis unfolding Login_def by (intro keeps_account_prims keeps_upgrade_hash keeps_start_session)
qed

lemma keeps_Exchange: "keeps (live s0) (Exchange h cfg now header)"
  unfolding Exchange_def Let_def sso_account_def sso_provision_def randomPasswordHash_def
  by (intro keeps_account_prims keeps_start_session)

lemma keeps_EnsureAdmin: "keeps (live s0) (EnsureAdmin h email password)"
  unfolding EnsureAdmin_def by (intro keeps_account_prims)

lemma user_List_result:
  "user_List s = (r, s') \<Longrightarrow> users s' = users s \<and> ac_lower s' = ac_lower s \<and> (\<forall>xs. r = Inr xs \<longrightarrow> xs = users s)"
  by (auto simp: user_List_def astmt_def split: list.splits if_splits)

lemma guardDisable_spare:
  "hoare (live s0) (guardDisable ctx uid) (\<lambda>r s. live s0 s \<and> (r = Inr () \<longrightarrow> spare uid s))"
proof (rule hoareI)
  fix s assume l: "live s0 s"
  let ?m = "guardDisable ctx uid s"
  have st: "live s0 (snd ?m)" using l by (rule keepsD [rotated])
    (unfold guardDisable_def Let_def, intro keeps_account_prims)
  have "spare uid (snd ?m)" if ok: "fst ?m = Inr ()"
  proof -
    obtain r s1 where run: "user_List s = (r, s1)" by fastforce
    obtain xs where r: "r = Inr xs" using ok run by (cases r) (simp_all add: guardDisable_def prog_run split: if_splits)
    have us: "xs = users s" "users s1 = users s" using user_List_result [OF run] r by simp_all
    have last: "snd ?m = s1"
      using ok run r by (simp add: guardDisable_def prog_run Let_def split: if_splits option.splits)
    have t: "\<not> (active_admin t \<and> length (filter active_admin (users s)) \<le> 1)"
      if "find (\<lambda>u. u_ID u = uid) (rev (users s)) = Some t" for t
      using ok run r us that by (simp add: guardDisable_def prog_run Let_def active_admin_def split: if_splits)
    obtain a where a: "a \<in> set (users s)" "active_admin a" using l by (auto simp: live_def has_admin_def)
    show ?thesis
    proof (cases "u_ID a = uid")
      case False with a us last show ?thesis unfolding spare_def by metis
    next
      case True
      have d: "distinct (map u_ID (users s))" using l by (simp add: live_def acc_wf_def)
      obtain t where f: "find (\<lambda>u. u_ID u = uid) (rev (users s)) = Some t"
        using a True by (cases "find (\<lambda>u. u_ID u = uid) (rev (users s))") (auto simp: find_None_iff)
      then have tm: "t \<in> set (users s)" "u_ID t = uid" using find_SomeD [OF f] by simp_all
      have "t = a" by (rule distinct_map_unique [OF d tm(1) a(1)]) (simp add: tm(2) True)
      with t [OF f] a have "1 < length (filter active_admin (users s))" by simp
      moreover have "distinct (filter active_admin (users s))" using d by (simp add: distinct_map)
      ultimately obtain b where "b \<in> set (filter active_admin (users s))" "b \<noteq> a"
        by (rule distinct_other)
      then have b: "b \<in> set (users s)" "active_admin b" by auto
      moreover have "u_ID b \<noteq> uid" using distinct_map_unique [OF d b(1) a(1)] True \<open>b \<noteq> a\<close> by metis
      ultimately show ?thesis using us last unfolding spare_def by metis
    qed
  qed
  with st show "live s0 (snd ?m) \<and> (fst ?m = Inr () \<longrightarrow> spare uid (snd ?m))" by simp
qed

lemma keeps_setDisabled: "keeps (live s0) (setDisabled h ctx uid d action)"
proof (cases d)
  case False
  have "keeps (live s0) (SetDisabled uid False)"
    unfolding SetDisabled_def by (rule keeps_user_exec) (simp_all add: profile_def)
  with False show ?thesis unfolding setDisabled_def if_False by (simp add: keeps_account_prims)
next
  case True
  have k: "keeps (live s0) (ignoring (recordAudit (hd_audit h) ctx action uid) (ret () :: ('a accounts, unit) gofun))"
    by (intro keeps_account_prims)
  have "hoare (live s0) (bindE (guardDisable ctx uid) (\<lambda>_. bindE (SetDisabled uid True) (\<lambda>_.
     ignoring (recordAudit (hd_audit h) ctx action uid) (ret ())))) (\<lambda>_. live s0)"
  proof (rule hoare_bindE [OF guardDisable_spare])
    fix x :: unit
    show "hoare (\<lambda>s. live s0 s \<and> ((Inr x :: goerr + unit) = Inr () \<longrightarrow> spare uid s)) (bindE (SetDisabled uid True) (\<lambda>_.
       ignoring (recordAudit (hd_audit h) ctx action uid) (ret ()))) (\<lambda>_. live s0)"
      by (rule hoare_bindE [OF hoare_pre [OF keeps_SetDisabled]]) (use k in \<open>simp_all add: keeps_hoare\<close>)
  qed simp
  then show ?thesis using True by (simp add: setDisabled_def keeps_hoare)
qed

section \<open>No lockout\<close>

text \<open>The requests that touch the account tables, one at a time, with arbitrary callers and
  contents; authentication only narrows them.\<close>

inductive account_step :: "'e handlers \<Rightarrow> SSOConfig \<Rightarrow> 'e accounts \<Rightarrow> 'e accounts \<Rightarrow> bool" for h cfg where
  create: "account_step h cfg s (snd (users_Create h ctx dec body s))"
| disable: "account_step h cfg s (snd (users_Disable h ctx uid s))"
| enable: "account_step h cfg s (snd (users_Enable h ctx uid s))"
| login: "account_step h cfg s (snd (Login h dec' now body s))"
| sso: "account_step h cfg s (snd (Exchange h cfg now header s))"
| boot: "account_step h cfg s (snd (EnsureAdmin h email password s))"
| logout: "account_step h cfg s (snd (Logout h ctx s))"

inductive account_reachable :: "'e handlers \<Rightarrow> SSOConfig \<Rightarrow> 'e accounts \<Rightarrow> 'e accounts \<Rightarrow> bool" for h cfg s0 where
  refl: "account_reachable h cfg s0 s0"
| step: "account_reachable h cfg s0 s \<Longrightarrow> account_step h cfg s s' \<Longrightarrow> account_reachable h cfg s0 s'"

lemma account_step_live: "account_step h cfg s s' \<Longrightarrow> live s0 s \<Longrightarrow> live s0 s'"
proof (induction rule: account_step.induct)
  case logout
  have "keeps (live s0) (Logout h ctx)" for ctx unfolding Logout_def by (intro keeps_account_prims)
  from keepsD [OF this logout] show ?case .
qed (simp_all only: users_Disable_def users_Enable_def
  keepsD [OF keeps_users_Create] keepsD [OF keeps_setDisabled] keepsD [OF keeps_Login] keepsD [OF keeps_Exchange]
  keepsD [OF keeps_EnsureAdmin])

text \<open>
  C4. The control plane cannot be locked. From any well-formed state with an active
  administrator, no sequence of requests (creating, disabling and enabling users,
  logging in by password or single sign-on, logging out, bootstrapping), each run to its
  end under any failures, leaves the system without an active administrator; e-mails and
  ids stay unique, every role stays valid, and no account is removed or has its e-mail or
  role changed.
\<close>

theorem no_lockout:
  assumes "account_reachable h cfg s0 s" "acc_wf s0" "has_admin s0"
  shows "has_admin s \<and> acc_wf s \<and> prefix (map profile (users s0)) (map profile (users s))"
proof -
  have "live s0 s" using assms(1)
  proof induction
    case refl
    show ?case using assms(2,3) by (simp add: live_def)
  next
    case (step s s')
    show ?case using step.hyps(2) step.IH by (rule account_step_live)
  qed
  then show ?thesis by (simp add: live_def)
qed

definition demo_user :: "string \<Rightarrow> string \<Rightarrow> auth_role \<Rightarrow> User" where
  "demo_user uid email role = \<lparr>u_ID = uid, u_Email = email, u_PasswordHash = ''hash'', u_Role = role, u_Disabled = False\<rparr>"

definition demo_accounts :: "User list \<Rightarrow> fake_env accounts" where
  "demo_accounts us = \<lparr>ac_env = (NewFake, plain_process), ac_faults = [], ac_lower = ToLower,
     ac_uuids = (\<lambda>n. ''g'' @ show_nat n), ac_next = 0, users = us, audit_log = []\<rparr>"

text \<open>A toy JWT library and a toy decoder for the witnesses: the token lists the claims, escaped and
  with the times in unary.\<close>

definition int_text :: "int \<Rightarrow> string" where
  "int_text i = (if i < 0 then CHR ''m'' else CHR ''p'') # replicate (nat (abs i)) (CHR ''1'')"

definition text_int :: "string \<Rightarrow> int" where
  "text_int s = (if hd s = CHR ''m'' then - int (length (tl s)) else int (length (tl s)))"

definition demo_token :: "Claims \<Rightarrow> string" where
  "demo_token c = Join [url_escape encodeUserPassword (cl_UserID c), url_escape encodeUserPassword (cl_Email c),
     url_escape encodeUserPassword (cl_Role c), url_escape encodeUserPassword (cl_Subject c),
     int_text (cl_IssuedAt c), int_text (cl_NotBefore c), (case cl_ExpiresAt c of None \<Rightarrow> [] | Some e \<Rightarrow> int_text e)] '':''"

definition demo_claims :: "string \<Rightarrow> Claims option" where
  "demo_claims token = (case Split token (CHR '':'') of
     [a, b, c, d, e, f, g] \<Rightarrow> (case (url_unescape a, url_unescape b, url_unescape c, url_unescape d) of
        (Some uid, Some email, Some role, Some sub) \<Rightarrow> Some \<lparr>cl_UserID = uid, cl_Email = email, cl_Role = role, cl_Subject = sub,
          cl_IssuedAt = text_int e, cl_NotBefore = text_int f, cl_ExpiresAt = (if g = [] then None else Some (text_int g))\<rparr>
      | _ \<Rightarrow> None)
   | _ \<Rightarrow> None)"

definition demo_jwt :: jwt_lib where
  "demo_jwt = \<lparr>SignHS256 = (\<lambda>key c. Inr (demo_token c)),
     ParseHS256 = (\<lambda>key now token. case demo_claims token of
        None \<Rightarrow> Inl (Plain ''token is malformed'')
      | Some c \<Rightarrow> if now < cl_NotBefore c then Inl (Plain ''token is not valid yet'')
          else case cl_ExpiresAt c of None \<Rightarrow> Inl (Plain ''token is missing required claim'')
          | Some e \<Rightarrow> if now < e then Inr c else Inl (Plain ''token is expired''))\<rparr>"

definition demo_login :: "loginRequest decoder" where
  "demo_login body over = (case Cut body nl of (email, password, found) \<Rightarrow>
     if found then Inr (\<lparr>lr_Email = email, lr_Password = password\<rparr>, True) else Inl (Plain ''unexpected end of JSON input''))"

definition demo_handlers :: "fake_env handlers" where
  "demo_handlers = \<lparr>hd_host = fake_host None None (\<lambda>_. None) tagged_lib, hd_idkey = demo_idkey,
     hd_issuer = \<lparr>is_jwt = demo_jwt, is_secret = replicate 32 (CHR ''k''), is_ttl = 3600\<rparr>, hd_dummyHash = [], hd_audit = False\<rparr>"

definition two_admins :: "fake_env accounts" where
  "two_admins = demo_accounts [demo_user ''a'' ''a@x'' RoleAdmin, demo_user ''b'' ''b@x'' RoleAdmin]"

lemmas demo_accounts_eval = demo_accounts_def demo_user_def two_admins_def demo_handlers_def demo_jwt_def
  setDisabled_def guardDisable_def SetDisabled_def user_exec_def user_List_def astmt_def recordAudit_def
  active_admin_def RoleAdmin_def Let_def prog_run

text \<open>Two administrators: one is disabled, the second disable is then refused.\<close>

theorem no_lockout_witness:
  "fst (users_Disable demo_handlers None ''b'' (snd (users_Disable demo_handlers None ''a'' two_admins))) =
     Inl (New KindInvalid ''cannot disable the last active admin'') \<and>
   has_admin (snd (users_Disable demo_handlers None ''b'' (snd (users_Disable demo_handlers None ''a'' two_admins))))"
proof -
  let ?s1 = "snd (users_Disable demo_handlers None ''a'' two_admins)"
  let ?s2 = "snd (users_Disable demo_handlers None ''b'' ?s1)"
  have r: "account_reachable demo_handlers cfg two_admins ?s2" for cfg
    by (rule account_reachable.step [OF account_reachable.step [OF account_reachable.refl account_step.disable] account_step.disable])
  have wf: "acc_wf two_admins" "has_admin two_admins"
    by (simp_all add: acc_wf_def has_admin_def demo_accounts_eval Role_Valid_def str_eval lower_char_def is_upper_def byte_val_def HasPrefix_def)
  have "fst (users_Disable demo_handlers None ''b'' ?s1) = Inl (New KindInvalid ''cannot disable the last active admin'')"
    by (simp add: users_Disable_def demo_accounts_eval)
  with no_lockout [OF r wf] show ?thesis by blast
qed

text \<open>
  The guarantee is one of whole requests. The guard reads the table in one statement and the
  update writes in another, so two administrators who disable each other at the same time
  both pass the guard and leave no active administrator.
\<close>

lemma concurrent_disable_locks_out:
  "cl_UserID a = ''a'' \<Longrightarrow> cl_UserID b = ''b'' \<Longrightarrow>
   fst (guardDisable (Some a) ''b'' two_admins) = Inr () \<and> fst (guardDisable (Some b) ''a'' two_admins) = Inr () \<and>
   \<not> has_admin (snd (SetDisabled ''a'' True (snd (SetDisabled ''b'' True two_admins))))"
  by (simp add: demo_accounts_eval has_admin_def)

section \<open>Sessions\<close>

lemma GetByEmail_result:
  "user_GetByEmail email s = (r, s') \<Longrightarrow> users s' = users s \<and> ac_lower s' = ac_lower s \<and>
     (\<forall>u. r = Inr u \<longrightarrow> u \<in> set (users s) \<and> ac_lower s (u_Email u) = ac_lower s (NormalizeEmail email))"
  by (auto simp: user_GetByEmail_def user_scanOne_def astmt_def split: list.splits if_splits option.splits dest!: find_SomeD)

lemma audit_Record_users: "users (snd (audit_Record e s)) = users s"
  by (simp add: audit_Record_def prog_run astmt_def Let_def split: option.splits list.splits)

lemma record_login_users: "users (snd (record_login b action target s)) = users s"
  by (simp add: record_login_def prog_run audit_Record_users)

text \<open>What the code relies on of the JWT library: a token it signed parses back to its claims until it
  expires.\<close>

definition jwt_sound :: "Issuer \<Rightarrow> bool" where
  "jwt_sound i \<longleftrightarrow> (\<forall>c token now exp. SignHS256 (is_jwt i) (is_secret i) c = Inr token \<longrightarrow> cl_NotBefore c \<le> now \<longrightarrow>
     cl_ExpiresAt c = Some exp \<longrightarrow> now < exp \<longrightarrow> ParseHS256 (is_jwt i) (is_secret i) now token = Inr c)"

definition session_of :: "Issuer \<Rightarrow> int \<Rightarrow> string \<Rightarrow> User \<Rightarrow> bool" where
  "session_of i now token u \<longleftrightarrow> (\<exists>c. cl_UserID c = u_ID u \<and> cl_Email c = u_Email u \<and> cl_Role c = u_Role u \<and>
     (\<forall>t. now \<le> t \<longrightarrow> t < now + is_ttl i \<longrightarrow> Verify_token i t token = Inr c))"

lemma start_session_result:
  assumes "start_session h now u action s = (Inr (token, payload), s')" "jwt_sound (hd_issuer h)" "Role_Valid (u_Role u)"
  shows "payload = toPayload u \<and> session_of (hd_issuer h) now token u \<and> users s' = users s"
proof -
  let ?i = "hd_issuer h"
  let ?c = "\<lparr>cl_UserID = u_ID u, cl_Email = u_Email u, cl_Role = u_Role u, cl_Subject = u_ID u,
    cl_IssuedAt = now, cl_NotBefore = now, cl_ExpiresAt = Some (now + is_ttl ?i)\<rparr>"
  have sg: "SignHS256 (is_jwt ?i) (is_secret ?i) ?c = Inr token" and rest: "payload = toPayload u" "users s' = users s"
    using assms(1) by (auto simp: start_session_def Issue_def prog_run record_login_users split: sum.splits)
  have "Verify_token ?i t token = Inr ?c" if "now \<le> t" "t < now + is_ttl ?i" for t
    using assms(2) sg that assms(3) by (simp add: jwt_sound_def Verify_token_def)
  then have "session_of ?i now token u" unfolding session_of_def by (intro exI [of _ ?c]) simp
  with rest show ?thesis by simp
qed

lemma onA_result: "onA m s = (r, s') \<Longrightarrow> users s' = users s \<and> ac_lower s' = ac_lower s \<and> ac_faults s' = ac_faults s \<and>
    (\<exists>e'. m (ac_env s) = (r, e'))"
  by (auto simp: onA_def split: prod.splits)

lemma user_exec_users:
  "users (snd (user_exec up uid s)) = users s \<or> users (snd (user_exec up uid s)) = map (\<lambda>u. if u_ID u = uid then up u else u) (users s)"
  by (simp add: user_exec_def astmt_def split: list.splits)

text \<open>What the code relies on of the random source and of argon2id: a read fills its buffer, a key has the
  length asked for.\<close>

definition kdf_sound :: "'e handlers \<Rightarrow> bool" where
  "kdf_sound h \<longleftrightarrow> (\<forall>n e salt e'. RandRead (hd_host h) n e = (Inr salt, e') \<longrightarrow> length salt = n) \<and>
     (\<forall>pw salt t m p n. length (hd_idkey h pw salt t m p n) = n)"

lemma VerifyPassword_hashed:
  assumes "kdf_sound h" "HashPassword (hd_idkey h) (hd_host h) password e = (Inr encoded, e')"
  shows "VerifyPassword (hd_idkey h) password encoded = Inr True" "\<not> NeedsRehash encoded" "encoded \<noteq> []"
proof -
  obtain salt where d: "decodeHash encoded = Inr (\<lparr>a_memory = 19456, a_iterations = 2, a_parallelism = 1, a_saltLen = 16,
      a_keyLen = 32\<rparr>, salt, hd_idkey h password salt 2 19456 1 32)"
    using HashPassword_decodes [OF _ _ assms(2)] assms(1) unfolding kdf_sound_def by blast
  then show "VerifyPassword (hd_idkey h) password encoded = Inr True" "\<not> NeedsRehash encoded"
    by (simp_all add: VerifyPassword_def NeedsRehash_def currentParams_def)
  show "encoded \<noteq> []" using d by (auto simp: decodeHash_def)
qed

lemma upgrade_hash_users:
  assumes "kdf_sound h"
  shows "users (snd (upgrade_hash h u password s)) = users s \<or>
    (\<exists>hash. VerifyPassword (hd_idkey h) password hash = Inr True \<and>
       users (snd (upgrade_hash h u password s)) = map (\<lambda>x. if u_ID x = u_ID u then x\<lparr>u_PasswordHash := hash\<rparr> else x) (users s))"
proof -
  obtain r s1 where run: "onA (HashPassword (hd_idkey h) (hd_host h) password) s = (r, s1)" by fastforce
  from onA_result [OF run] obtain e' where us: "users s1 = users s"
    and hp: "HashPassword (hd_idkey h) (hd_host h) password (ac_env s) = (r, e')" by blast
  show ?thesis
  proof (cases r)
    case (Inl e) with run us show ?thesis by (simp add: upgrade_hash_def prog_run)
  next
    case (Inr hash)
    have "VerifyPassword (hd_idkey h) password hash = Inr True"
      using assms hp unfolding Inr by (rule VerifyPassword_hashed(1))
    with user_exec_users [of "\<lambda>x. x\<lparr>u_PasswordHash := hash\<rparr>" "u_ID u" s1] run us Inr show ?thesis
      by (auto simp: upgrade_hash_def prog_run UpdatePasswordHash_def)
  qed
qed

lemma Issue_total:
  assumes "\<And>c. \<exists>token. SignHS256 (is_jwt i) (is_secret i) c = Inr token"
  shows "\<exists>token. Issue i now uid email role = Inr token"
proof -
  obtain token where "SignHS256 (is_jwt i) (is_secret i) \<lparr>cl_UserID = uid, cl_Email = email, cl_Role = role, cl_Subject = uid,
    cl_IssuedAt = now, cl_NotBefore = now, cl_ExpiresAt = Some (now + is_ttl i)\<rparr> = Inr token" using assms by blast
  then show ?thesis by (simp add: Issue_def)
qed

lemma Login_Inr:
  assumes "Login h dec now body s = (Inr (token, payload), s')"
  obtains req u s1 where "decodeJSON dec body = Inr req" "lr_Password req \<noteq> []"
    "user_GetByEmail (lr_Email req) s = (Inr u, s1)"
    "VerifyPassword (hd_idkey h) (lr_Password req) (u_PasswordHash u) = Inr True" "\<not> u_Disabled u"
    "start_session h now u ''auth.login'' (snd (upgrade_hash h u (lr_Password req) s1)) = (Inr (token, payload), s')"
proof -
  obtain req where req: "decodeJSON dec body = Inr req" and ne: "lr_Password req \<noteq> []" "TrimSpace (lr_Email req) \<noteq> []"
    using assms by (cases "decodeJSON dec body") (auto simp: Login_def prog_run split: if_splits)
  obtain r s1 where get: "user_GetByEmail (lr_Email req) s = (r, s1)" by fastforce
  then obtain u where u: "r = Inr u"
    using assms req ne by (cases r) (simp_all add: Login_def prog_run)
  show thesis
    using assms req ne get u by (intro that [of req u s1]) (simp_all add: Login_def prog_run split: if_splits)
qed

text \<open>
  C23. A password login is sound. Whenever \<open>Login\<close> answers with a token, the e-mail of the
  request names a stored account, the password of the request verifies against that
  account's hash, the account is not disabled, and until its expiry the token is accepted and
  identifies exactly that account with its stored role; the login changes no account except,
  possibly, to replace that account's hash by another one of the same password. (The JWT
  library accepts what it signed, the random source fills its buffer and argon2id returns
  keys of the length asked for.)
\<close>

theorem Login_sound:
  assumes "Login h dec now body s = (Inr (token, payload), s')" "acc_wf s" "jwt_sound (hd_issuer h)" "kdf_sound h"
  shows "\<exists>req u. decodeJSON dec body = Inr req \<and> u \<in> set (users s) \<and>
     ac_lower s (u_Email u) = ac_lower s (NormalizeEmail (lr_Email req)) \<and>
     VerifyPassword (hd_idkey h) (lr_Password req) (u_PasswordHash u) = Inr True \<and> \<not> u_Disabled u \<and>
     payload = toPayload u \<and> session_of (hd_issuer h) now token u \<and>
     (users s' = users s \<or> (\<exists>hash. VerifyPassword (hd_idkey h) (lr_Password req) hash = Inr True \<and>
        users s' = map (\<lambda>x. if u_ID x = u_ID u then x\<lparr>u_PasswordHash := hash\<rparr> else x) (users s)))"
proof -
  obtain req u s1 where l: "decodeJSON dec body = Inr req" "user_GetByEmail (lr_Email req) s = (Inr u, s1)"
    "VerifyPassword (hd_idkey h) (lr_Password req) (u_PasswordHash u) = Inr True" "\<not> u_Disabled u"
    "start_session h now u ''auth.login'' (snd (upgrade_hash h u (lr_Password req) s1)) = (Inr (token, payload), s')"
    using assms(1) by (rule Login_Inr)
  have u: "u \<in> set (users s)" "ac_lower s (u_Email u) = ac_lower s (NormalizeEmail (lr_Email req))" "users s1 = users s"
    using GetByEmail_result [OF l(2)] by simp_all
  then have "Role_Valid (u_Role u)" using assms(2) by (simp add: acc_wf_def)
  from start_session_result [OF l(5) assms(3) this]
  have ss: "payload = toPayload u" "session_of (hd_issuer h) now token u" "users s' = users (snd (upgrade_hash h u (lr_Password req) s1))"
    by simp_all
  have "users s' = users s \<or> (\<exists>hash. VerifyPassword (hd_idkey h) (lr_Password req) hash = Inr True \<and>
        users s' = map (\<lambda>x. if u_ID x = u_ID u then x\<lparr>u_PasswordHash := hash\<rparr> else x) (users s))"
    using upgrade_hash_users [of h u "lr_Password req" s1, OF assms(4)] unfolding ss(3) u(3) .
  with l(1,3,4) u(1,2) ss(1,2) show ?thesis by (intro exI [of _ req] exI [of _ u] conjI)
qed

text \<open>
  C25. A fresh installation can be administered. On an empty user table, with the database, the
  random source and the token signer working, \<open>EnsureAdmin\<close> with a non-blank e-mail and a
  password creates exactly one active administrator, a login with the same e-mail and
  password succeeds and opens a session of that account, and running \<open>EnsureAdmin\<close> again
  (with any credentials) changes nothing.
\<close>

theorem bootstrap_then_login:
  assumes "users s = []" "ac_faults s = []" "TrimSpace email \<noteq> []" "password \<noteq> []" "jwt_sound (hd_issuer h)"
    and kdf: "kdf_sound h" and rand: "\<And>n e. \<exists>salt e'. RandRead (hd_host h) n e = (Inr salt, e')"
    and sign: "\<And>c. \<exists>token. SignHS256 (is_jwt (hd_issuer h)) (is_secret (hd_issuer h)) c = Inr token"
    and dec: "decodeJSON dec body = Inr \<lparr>lr_Email = email, lr_Password = password\<rparr>"
  shows "\<exists>u s1 token s2. EnsureAdmin h email password s = (Inr True, s1) \<and> users s1 = [u] \<and> active_admin u \<and>
     Login h dec now body s1 = (Inr (token, toPayload u), s2) \<and> session_of (hd_issuer h) now token u \<and> users s2 = [u] \<and>
     (\<forall>email' password'. EnsureAdmin h email' password' s1 = (Inr False, s1))"
proof -
  obtain salt e1 where "RandRead (hd_host h) (a_saltLen currentParams) (ac_env s) = (Inr salt, e1)" using rand by blast
  then obtain hash e' where hp: "HashPassword (hd_idkey h) (hd_host h) password (ac_env s) = (Inr hash, e')"
    by (simp add: HashPassword_def Let_def prog_run wrap_error_def)
  have ne: "hash \<noteq> []" and vf: "VerifyPassword (hd_idkey h) password hash = Inr True" and nr: "\<not> NeedsRehash hash"
    by (rule VerifyPassword_hashed [OF kdf hp])+
  let ?u = "\<lparr>u_ID = ac_uuids s (ac_next s), u_Email = NormalizeEmail email, u_PasswordHash = hash, u_Role = RoleAdmin, u_Disabled = False\<rparr>"
  let ?s1 = "s\<lparr>ac_env := e', ac_next := Suc (ac_next s), users := [?u]\<rparr>"
  have "email \<noteq> []" using assms(3) TrimSpace_Nil by auto
  then have boot: "EnsureAdmin h email password s = (Inr True, ?s1)"
    using assms(1-4) ne hp by (simp add: EnsureAdmin_def prog_run wrap_error_def user_List_def astmt_def onA_def
        user_Create_def NewUser_Validate_def user_insert_def Role_Valid_def Let_def)
  obtain token where tok: "Issue (hd_issuer h) now (u_ID ?u) (u_Email ?u) (u_Role ?u) = Inr token"
    using Issue_total [OF sign] by blast
  obtain s2 where ss: "start_session h now ?u ''auth.login'' ?s1 = (Inr (token, toPayload ?u), s2)"
    using tok by (simp add: start_session_def prog_run)
  have login: "Login h dec now body ?s1 = (Inr (token, toPayload ?u), s2)"
    using assms(2-4) dec vf nr ss by (simp add: Login_def prog_run user_GetByEmail_def user_scanOne_def astmt_def upgrade_hash_def)
  have sess: "session_of (hd_issuer h) now token ?u" "users s2 = [?u]"
    using start_session_result [OF ss assms(5)] by (simp_all add: Role_Valid_def)
  have "EnsureAdmin h email' password' ?s1 = (Inr False, ?s1)" for email' password'
    using assms(2) by (simp add: EnsureAdmin_def prog_run wrap_error_def user_List_def astmt_def)
  with boot login sess show ?thesis
    by (intro exI [of _ ?u] exI [of _ ?s1] exI [of _ token] exI [of _ s2]) (simp add: active_admin_def)
qed

lemma text_int_text: "text_int (int_text i) = i" "int_text i \<noteq> []" "CHR '':'' \<notin> set (int_text i)"
  by (simp_all add: text_int_def int_text_def)

lemma demo_claims_token: "demo_claims (demo_token c) = Some c"
proof -
  have "CHR '':'' \<notin> set (url_escape encodeUserPassword s)" for s by (rule delimiters_escaped) simp
  then have "Split (demo_token c) (CHR '':'') = [url_escape encodeUserPassword (cl_UserID c), url_escape encodeUserPassword (cl_Email c),
     url_escape encodeUserPassword (cl_Role c), url_escape encodeUserPassword (cl_Subject c),
     int_text (cl_IssuedAt c), int_text (cl_NotBefore c), (case cl_ExpiresAt c of None \<Rightarrow> [] | Some e \<Rightarrow> int_text e)]"
    unfolding demo_token_def by (intro Split_Join) (auto simp: text_int_text split: option.splits)
  then show ?thesis
    by (cases c) (simp add: demo_claims_def url_unescape_escape text_int_text split: option.splits)
qed

lemma demo_jwt_sound: "is_jwt i = demo_jwt \<Longrightarrow> jwt_sound i"
  by (auto simp: jwt_sound_def demo_jwt_def demo_claims_token split: option.splits)

lemma demo_rand: "\<exists>salt e'. RandRead (hd_host demo_handlers) n e = (Inr salt, e')"
  by (cases e) (simp add: demo_handlers_def fake_host_def fake_rand_def split: prod.splits)

lemma demo_kdf_sound: "kdf_sound demo_handlers"
  by (auto simp: kdf_sound_def demo_handlers_def demo_idkey_def fake_host_def fake_rand_def split: prod.splits)

lemma demo_handlers_sound: "jwt_sound (hd_issuer demo_handlers)"
  by (rule demo_jwt_sound) (simp add: demo_handlers_def)

lemma demo_sign: "\<exists>token. SignHS256 (is_jwt (hd_issuer demo_handlers)) (is_secret (hd_issuer demo_handlers)) c = Inr token"
  by (simp add: demo_handlers_def demo_jwt_def)

lemma demo_body: "decodeJSON demo_login (''root@x'' @ [nl] @ ''s3cret-pw'') = Inr \<lparr>lr_Email = ''root@x'', lr_Password = ''s3cret-pw''\<rparr>"
  by (simp add: decodeJSON_def demo_login_def maxBodyBytes_def)

lemma demo_email: "TrimSpace ''root@x'' = ''root@x''" "NormalizeEmail ''root@x'' = ''root@x''"
  by code_simp+

theorem bootstrap_then_login_witness:
  "\<exists>u s1 token s2. EnsureAdmin demo_handlers ''root@x'' ''s3cret-pw'' (demo_accounts []) = (Inr True, s1) \<and> active_admin u \<and>
     Login demo_handlers demo_login 100 (''root@x'' @ [nl] @ ''s3cret-pw'') s1 = (Inr (token, toPayload u), s2)"
proof -
  have s: "users (demo_accounts []) = []" "ac_faults (demo_accounts []) = []" "''s3cret-pw'' \<noteq> []" "TrimSpace ''root@x'' \<noteq> []"
    by (simp_all add: demo_accounts_def demo_email)
  show ?thesis
    using bootstrap_then_login [OF s(1,2,4,3) demo_handlers_sound demo_kdf_sound demo_rand demo_sign demo_body]
    by blast
qed

text \<open>A login against an account whose hash was made with the current parameters.\<close>

definition demo_registered :: "fake_env accounts" where
  "demo_registered = demo_accounts [(demo_user ''a'' ''root@x'' RoleAdmin)\<lparr>u_PasswordHash :=
     encode_hash ''salt'' (demo_idkey ''s3cret-pw'' ''salt'' 2 19456 1 32)\<rparr>]"

definition demo_credentials :: string where
  "demo_credentials = ''root@x'' @ [nl] @ ''s3cret-pw''"

lemma demo_login_run: "\<exists>token payload s'. Login demo_handlers demo_login 100 demo_credentials demo_registered = (Inr (token, payload), s')"
proof -
  let ?hash = "encode_hash ''salt'' (demo_idkey ''s3cret-pw'' ''salt'' 2 19456 1 32)"
  have ne: "demo_idkey ''s3cret-pw'' ''salt'' 2 19456 1 32 \<noteq> []" by (simp add: demo_idkey_def)
  have ok: "VerifyPassword demo_idkey ''s3cret-pw'' ?hash = Inr True" "\<not> NeedsRehash ?hash"
    using decode_encode [OF _ ne, of "''salt''"] by (simp_all add: VerifyPassword_def NeedsRehash_def currentParams_def demo_idkey_def)
  then show ?thesis unfolding Login_def demo_credentials_def demo_body demo_registered_def
    by (simp add: user_GetByEmail_def user_scanOne_def astmt_def demo_accounts_def demo_user_def upgrade_hash_def
        start_session_def Issue_def demo_handlers_def demo_jwt_def prog_run demo_email)
qed

theorem Login_sound_witness:
  "\<exists>token payload s'. Login demo_handlers demo_login 100 demo_credentials demo_registered = (Inr (token, payload), s') \<and>
     (\<exists>u\<in>set (users demo_registered). payload = toPayload u \<and> session_of (hd_issuer demo_handlers) 100 token u)"
proof -
  obtain token payload s' where run: "Login demo_handlers demo_login 100 demo_credentials demo_registered = (Inr (token, payload), s')"
    using demo_login_run by blast
  have wf: "acc_wf demo_registered" by (simp add: acc_wf_def demo_registered_def demo_accounts_def demo_user_def Role_Valid_def)
  from Login_sound [OF run wf demo_handlers_sound demo_kdf_sound] run show ?thesis by blast
qed

section \<open>Single sign-on\<close>

lemma astmt_Inr: "astmt msg m s = (Inr x, s') \<Longrightarrow> \<exists>fs. m (s\<lparr>ac_faults := fs\<rparr>) = (Inr x, s')"
proof (cases "ac_faults s")
  case Nil
  assume "astmt msg m s = (Inr x, s')"
  with Nil have "m (s\<lparr>ac_faults := []\<rparr>) = (Inr x, s')"
    by (simp add: astmt_def) (metis accounts.surjective accounts.update_convs(2))
  then show ?thesis by blast
next
  case (Cons b fs)
  assume "astmt msg m s = (Inr x, s')"
  with Cons show ?thesis by (intro exI [of _ fs]) (simp add: astmt_def split: if_splits)
qed

lemma user_Create_result:
  assumes "user_Create n s = (Inr u, s')"
  shows "users s' = users s @ [u] \<and> u_Email u = NormalizeEmail (nu_Email n) \<and> u_Role u = nu_Role n \<and> \<not> u_Disabled u \<and>
     Role_Valid (u_Role u) \<and> (\<forall>x\<in>set (users s). ac_lower s (u_Email x) \<noteq> ac_lower s (u_Email u))"
proof -
  have v: "NewUser_Validate n = None" using assms by (cases "NewUser_Validate n") (simp_all add: user_Create_def prog_run)
  obtain fs where ins: "user_insert (NormalizeEmail (nu_Email n)) (nu_PasswordHash n) (nu_Role n) (s\<lparr>ac_faults := fs\<rparr>) = (Inr u, s')"
    using assms v by (auto simp: user_Create_def dest: astmt_Inr)
  have "Role_Valid (nu_Role n)" using v by (simp add: NewUser_Validate_def split: if_splits)
  with ins show ?thesis by (auto simp: user_insert_def Let_def image_iff split: if_splits)
qed

lemma sso_account_result:
  assumes "sso_account h cfg header email s = (Inr u, s1)" "acc_wf s"
  shows "ac_lower s (u_Email u) = ac_lower s (NormalizeEmail email) \<and> Role_Valid (u_Role u) \<and>
     (u \<in> set (users s) \<and> users s1 = users s \<or>
      sc_AutoProvision cfg \<and> users s1 = users s @ [u] \<and> u_Role u = roleFromGroups cfg (header (sc_GroupsHeader cfg)) \<and>
      (\<forall>x\<in>set (users s). ac_lower s (u_Email x) \<noteq> ac_lower s (u_Email u)))"
proof -
  obtain r s0 where get: "user_GetByEmail email s = (r, s0)" by fastforce
  note g = GetByEmail_result [OF get]
  show ?thesis
  proof (cases r)
    case (Inr x)
    then have "x = u" "s0 = s1" using assms(1) get by (simp_all add: sso_account_def prog_run)
    with Inr g assms(2) show ?thesis by (simp add: acc_wf_def)
  next
    case (Inl e)
    then have auto: "sc_AutoProvision cfg" and p: "sso_provision h cfg email (header (sc_GroupsHeader cfg)) s0 = (Inr u, s1)"
      using assms(1) get by (simp_all add: sso_account_def prog_run split: if_splits)
    obtain hash s2 where rnd: "randomPasswordHash h s0 = (Inr hash, s2)"
      and rest: "bindE (user_Create \<lparr>nu_Email = email, nu_PasswordHash = hash, nu_Role = roleFromGroups cfg (header (sc_GroupsHeader cfg))\<rparr>)
        (\<lambda>u. ignoring (record_login (hd_audit h) ''auth.sso.provisioned'' (u_Email u)) (ret u)) s2 = (Inr u, s1)"
      using p unfolding sso_provision_def by (rule bindE_Inr)
    obtain u' s3 where cr: "user_Create \<lparr>nu_Email = email, nu_PasswordHash = hash, nu_Role = roleFromGroups cfg (header (sc_GroupsHeader cfg))\<rparr> s2 = (Inr u', s3)"
      and fin: "ignoring (record_login (hd_audit h) ''auth.sso.provisioned'' (u_Email u')) (ret u') s3 = (Inr u :: goerr + User, s1)"
      using rest by (rule bindE_Inr) (rule that)
    have "u' = u" "users s1 = users s3" using fin by (auto simp: prog_run record_login_users)
    moreover have "users s2 = users s0 \<and> ac_lower s2 = ac_lower s0"
      using rnd unfolding randomPasswordHash_def by (elim bindE_Inr) (auto simp: wrap_error_result dest!: onA_result)
    ultimately show ?thesis using user_Create_result [OF cr] g auto by (elim conjE) simp
  qed
qed

lemma roles_neq: "RoleViewer \<noteq> RoleAdmin" "RoleOperator \<noteq> RoleAdmin" "RoleViewer \<noteq> RoleOperator"
  by (simp_all add: RoleAdmin_def RoleOperator_def RoleViewer_def)

lemma first_role_admin: "first_role cfg gs = RoleAdmin \<Longrightarrow> adminGroup cfg \<in> TrimSpace ` set gs"
  by (induction gs) (simp_all add: roles_neq split: if_splits)

text \<open>
  Single sign-on is sound. Whenever \<open>Exchange\<close> answers with a token, the request carried the
  proxy's shared secret if one is configured, and the token is a session of an account that is
  not disabled and has the e-mail of the identity header. Either the account was stored
  already, and then its stored role counts whatever groups the header claims, and no account
  changes; or auto-provisioning is on, no account had that e-mail, and exactly one is added,
  with the role of its groups, which is administrator only if the admin group is one of them.
\<close>

theorem Exchange_sound:
  assumes "Exchange h cfg now header s = (Inr (token, payload), s')" "acc_wf s" "jwt_sound (hd_issuer h)"
  shows "(sc_SharedSecret cfg = [] \<or> header ssoSecretHeader = sc_SharedSecret cfg) \<and>
     (\<exists>u. payload = toPayload u \<and> session_of (hd_issuer h) now token u \<and> \<not> u_Disabled u \<and>
        ac_lower s (u_Email u) = ac_lower s (NormalizeEmail (TrimSpace (header (sc_EmailHeader cfg)))) \<and>
        (u \<in> set (users s) \<and> users s' = users s \<or>
         sc_AutoProvision cfg \<and> users s' = users s @ [u] \<and> (\<forall>x\<in>set (users s). ac_lower s (u_Email x) \<noteq> ac_lower s (u_Email u)) \<and>
         u_Role u = roleFromGroups cfg (header (sc_GroupsHeader cfg)) \<and>
         (u_Role u = RoleAdmin \<longrightarrow> adminGroup cfg \<in> TrimSpace ` set (group_fields [] (header (sc_GroupsHeader cfg))))))"
proof -
  let ?email = "TrimSpace (header (sc_EmailHeader cfg))"
  have secret: "sc_SharedSecret cfg = [] \<or> header ssoSecretHeader = sc_SharedSecret cfg" and ne: "?email \<noteq> []"
    using assms(1) by (auto simp: Exchange_def Let_def prog_run split: if_splits)
  obtain r s1 where acc: "sso_account h cfg header ?email s = (r, s1)" by fastforce
  obtain u where u: "r = Inr u"
    using assms(1) secret ne acc by (cases r) (auto simp: Exchange_def Let_def prog_run split: if_splits)
  have ss: "start_session h now u ''auth.sso.login'' s1 = (Inr (token, payload), s')" and en: "\<not> u_Disabled u"
    using assms(1) secret ne acc u by (auto simp: Exchange_def Let_def prog_run split: if_splits)
  note a = sso_account_result [OF acc [unfolded u] assms(2)]
  have "payload = toPayload u \<and> session_of (hd_issuer h) now token u \<and> users s' = users s1"
    using ss assms(3) by (rule start_session_result) (use a in simp)
  then have p: "payload = toPayload u" "session_of (hd_issuer h) now token u" "users s' = users s1" by simp_all
  have "u_Role u = roleFromGroups cfg g \<Longrightarrow> u_Role u = RoleAdmin \<Longrightarrow> adminGroup cfg \<in> TrimSpace ` set (group_fields [] g)" for g
    using first_role_admin [of cfg "group_fields [] g"] by (simp add: roleFromGroups_def)
  with a p(3) have "u \<in> set (users s) \<and> users s' = users s \<or>
         sc_AutoProvision cfg \<and> users s' = users s @ [u] \<and> (\<forall>x\<in>set (users s). ac_lower s (u_Email x) \<noteq> ac_lower s (u_Email u)) \<and>
         u_Role u = roleFromGroups cfg (header (sc_GroupsHeader cfg)) \<and>
         (u_Role u = RoleAdmin \<longrightarrow> adminGroup cfg \<in> TrimSpace ` set (group_fields [] (header (sc_GroupsHeader cfg))))" by metis
  with a secret en p(1,2) show ?thesis by (intro conjI exI [of _ u]) simp_all
qed

definition demo_sso :: SSOConfig where
  "demo_sso = \<lparr>sc_EmailHeader = ''Remote-Email'', sc_GroupsHeader = ''Remote-Groups'', sc_AutoProvision = True,
     sc_AdminGroup = [], sc_OperatorGroup = [], sc_SharedSecret = []\<rparr>"

definition demo_header :: "string \<Rightarrow> string" where
  "demo_header k = (if k = ''Remote-Email'' then ''root@x'' else if k = ''Remote-Groups'' then ''dev, pgfleet-admins'' else [])"

lemma demo_groups: "roleFromGroups demo_sso ''dev, pgfleet-admins'' = RoleAdmin"
  by code_simp

lemma demo_provisioned: "\<exists>u s'. sso_account demo_handlers demo_sso demo_header ''root@x'' (demo_accounts []) = (Inr u, s') \<and> \<not> u_Disabled u"
proof -
  obtain b e1 where b: "RandRead (hd_host demo_handlers) 32 (NewFake, plain_process) = (Inr b, e1)" using demo_rand by blast
  obtain salt e2 where "RandRead (hd_host demo_handlers) (a_saltLen currentParams) e1 = (Inr salt, e2)" using demo_rand by blast
  then obtain hash e' where hp: "HashPassword (hd_idkey demo_handlers) (hd_host demo_handlers) (hex_encode b) e1 = (Inr hash, e')"
    by (simp add: HashPassword_def Let_def prog_run wrap_error_def)
  have "hash \<noteq> []" using demo_kdf_sound hp by (rule VerifyPassword_hashed(3))
  have hdr: "demo_header (sc_GroupsHeader demo_sso) = ''dev, pgfleet-admins''" "sc_AutoProvision demo_sso"
    by (simp_all add: demo_header_def demo_sso_def)
  have v: "NewUser_Validate \<lparr>nu_Email = ''root@x'', nu_PasswordHash = hash, nu_Role = RoleAdmin\<rparr> = None"
    using \<open>hash \<noteq> []\<close> by (simp add: NewUser_Validate_def demo_email Role_Valid_def)
  show ?thesis unfolding sso_account_def sso_provision_def hdr demo_groups
    by (simp add: prog_run user_GetByEmail_def user_scanOne_def astmt_def demo_accounts_def hdr(2)
        randomPasswordHash_def wrap_error_def onA_def b hp user_Create_def v user_insert_def Let_def)
qed

theorem Exchange_sound_witness:
  "\<exists>token payload s' u. Exchange demo_handlers demo_sso 100 demo_header (demo_accounts []) = (Inr (token, payload), s') \<and>
     payload = toPayload u \<and> session_of (hd_issuer demo_handlers) 100 token u \<and> u_Role u = RoleAdmin"
proof -
  obtain u s1 where acc: "sso_account demo_handlers demo_sso demo_header ''root@x'' (demo_accounts []) = (Inr u, s1)" "\<not> u_Disabled u"
    using demo_provisioned by blast
  have hdr: "sc_SharedSecret demo_sso = []" "demo_header (sc_EmailHeader demo_sso) = ''root@x''"
    "demo_header (sc_GroupsHeader demo_sso) = ''dev, pgfleet-admins''" by (simp_all add: demo_sso_def demo_header_def)
  obtain token payload s' where run: "Exchange demo_handlers demo_sso 100 demo_header (demo_accounts []) = (Inr (token, payload), s')"
  proof -
    obtain token where "Issue (hd_issuer demo_handlers) 100 (u_ID u) (u_Email u) (u_Role u) = Inr token"
      using Issue_total [OF demo_sign] by blast
    with acc show thesis by (intro that) (simp add: Exchange_def hdr demo_email prog_run start_session_def Let_def)
  qed
  have wf: "acc_wf (demo_accounts [])" "users (demo_accounts []) = []" by (simp_all add: acc_wf_def demo_accounts_def)
  from Exchange_sound [OF run wf(1) demo_handlers_sound] obtain u' where
    "payload = toPayload u'" "session_of (hd_issuer demo_handlers) 100 token u'"
    "u_Role u' = roleFromGroups demo_sso (demo_header (sc_GroupsHeader demo_sso))" unfolding wf(2) by auto
  with run show ?thesis unfolding hdr demo_groups by blast
qed

end
