(* ===== verification/Router.thy ===== *)
theory Router
  imports Accounts
begin

text \<open>
  The HTTP surface of \<^verbatim>\<open>internal/api/router.go\<close>: which route is mounted with which
  handlers in front of it, and the WebSocket handshake of \<^verbatim>\<open>internal/ws/handler.go\<close>.

  A route is its method, its pattern and its guard, the middleware between the client and the
  handler. Matching a request against the patterns is the router library's work; the tables below are
  what it is given. The rate limiter, the request id and the panic handler of the library
  are left out: they never let a request past a guard.
\<close>

datatype guard = Open | Session "Action option" | QueryToken Action

record route =
  rt_method :: string
  rt_pattern :: string
  rt_guard :: guard

text \<open>\<open>Deps\<close>: which collaborators are present (the others are \<^verbatim>\<open>nil\<close>).\<close>

record Deps =
  dp_Issuer :: bool
  dp_Auth :: bool
  dp_SSO :: bool
  dp_Users :: bool
  dp_Audit :: bool
  dp_Instances :: bool
  dp_Clusters :: bool
  dp_Backups :: bool
  dp_Metrics :: bool
  dp_Health :: bool
  dp_Events :: bool
  dp_Timescale :: bool
  dp_Alerts :: bool
  dp_AlertRules :: bool
  dp_EventsHistory :: bool
  dp_Logs :: bool
  dp_Prometheus :: bool
  dp_SQL :: bool
  dp_Exec :: bool
  dp_Dump :: bool
  dp_Remote :: bool
  dp_Pool :: bool
  dp_Compose :: bool

definition mount_routes :: "guard \<Rightarrow> (string \<times> string) list \<Rightarrow> route list" where
  "mount_routes g rs = map (\<lambda>(m, p). \<lparr>rt_method = m, rt_pattern = ''/api/v1'' @ p, rt_guard = g\<rparr>) rs"

definition require :: "Action \<Rightarrow> (string \<times> string) list \<Rightarrow> route list" where
  "require a rs = mount_routes (Session (Some a)) rs"

definition mountInstanceRoutes :: "route list" where
  "mountInstanceRoutes =
     require ActionInstanceRead [(''GET'', ''/instances''), (''GET'', ''/instances/{id}'')] @
     require ActionInstanceConnect [(''GET'', ''/instances/{id}/connection'')] @
     require ActionInstanceWrite [(''POST'', ''/instances''), (''POST'', ''/instances/{id}/clone''),
       (''POST'', ''/instances/{id}/visibility''), (''POST'', ''/instances/{id}/start''),
       (''POST'', ''/instances/{id}/stop''), (''POST'', ''/instances/{id}/restart'')] @
     require ActionInstanceDelete [(''DELETE'', ''/instances/{id}'')]"

definition mountClusterRoutes :: "route list" where
  "mountClusterRoutes =
     require ActionInstanceRead [(''GET'', ''/clusters''), (''GET'', ''/clusters/{id}'')] @
     require ActionInstanceConnect [(''GET'', ''/clusters/{id}/connection'')] @
     require ActionInstanceWrite [(''POST'', ''/clusters'')] @
     require ActionInstanceDelete [(''DELETE'', ''/clusters/{id}'')]"

definition mountTimescaleRoutes :: "route list" where
  "mountTimescaleRoutes = (let base = ''/instances/{id}/timescale'' in
     require ActionInstanceRead [(''GET'', base @ ''/hypertables''), (''GET'', base @ ''/jobs'')] @
     require ActionInstanceWrite [(''POST'', base @ ''/hypertables''), (''POST'', base @ ''/retention''),
       (''DELETE'', base @ ''/retention''), (''POST'', base @ ''/compression''),
       (''DELETE'', base @ ''/compression''), (''POST'', base @ ''/continuous-aggregates'')])"

definition mountRemoteRoutes :: "route list" where
  "mountRemoteRoutes =
     require ActionInstanceRead [(''GET'', ''/remote/backups'')] @
     require ActionInstanceWrite [(''POST'', ''/remote/backups''), (''POST'', ''/remote/backups/{id}/restore'')]"

definition mountBackupRoutes :: "route list" where
  "mountBackupRoutes =
     require ActionBackupRead [(''GET'', ''/instances/{id}/backups'')] @
     require ActionBackupWrite [(''POST'', ''/instances/{id}/backups''), (''POST'', ''/instances/{id}/backups/verify'')] @
     require ActionBackupRestore [(''POST'', ''/instances/{id}/restore''), (''DELETE'', ''/instances/{id}/backups/{label}'')]"

definition provided :: "bool \<Rightarrow> route list \<Rightarrow> route list" where
  "provided b rs = (if b then rs else [])"

definition session_routes :: "Deps \<Rightarrow> route list" where
  "session_routes d =
     provided (dp_Auth d) (mount_routes (Session None) [(''POST'', ''/auth/logout'')]) @
     provided (dp_Users d) (require ActionUserManage [(''POST'', ''/users''), (''GET'', ''/users''),
       (''POST'', ''/users/{id}/disable''), (''POST'', ''/users/{id}/enable'')]) @
     provided (dp_Instances d) mountInstanceRoutes @
     provided (dp_Clusters d) mountClusterRoutes @
     provided (dp_Backups d) mountBackupRoutes @
     provided (dp_Metrics d) (require ActionMetricsRead [(''GET'', ''/instances/{id}/metrics''),
       (''GET'', ''/instances/{id}/metrics/{metric}''), (''GET'', ''/instances/{id}/queries'')]) @
     provided (dp_Health d) (require ActionMetricsRead [(''GET'', ''/health'')]) @
     provided (dp_Alerts d) (require ActionMetricsRead [(''GET'', ''/alerts'')]) @
     provided (dp_AlertRules d) (require ActionMetricsRead [(''GET'', ''/alert-rules'')] @
       require ActionInstanceWrite [(''POST'', ''/alert-rules''), (''PUT'', ''/alert-rules/{id}''), (''DELETE'', ''/alert-rules/{id}'')]) @
     provided (dp_EventsHistory d) (require ActionMetricsRead [(''GET'', ''/events/history'')]) @
     provided (dp_Logs d) (require ActionInstanceRead [(''GET'', ''/instances/{id}/logs'')]) @
     provided (dp_Compose d) (require ActionInstanceRead [(''GET'', ''/instances/{id}/compose''), (''GET'', ''/clusters/{id}/compose'')]) @
     provided (dp_Dump d) (require ActionInstanceConnect [(''GET'', ''/instances/{id}/dump'')]) @
     provided (dp_Timescale d) mountTimescaleRoutes @
     provided (dp_SQL d) (require ActionInstanceConnect [(''POST'', ''/instances/{id}/sql'')]) @
     provided (dp_Exec d) (require ActionInstanceWrite [(''POST'', ''/instances/{id}/exec'')]) @
     provided (dp_Remote d) mountRemoteRoutes @
     provided (dp_Pool d) (require ActionMetricsRead [(''GET'', ''/clusters/{id}/pool/stats'')]) @
     provided (dp_Audit d) (require ActionUserManage [(''GET'', ''/audit'')])"

definition NewRouter :: "Deps \<Rightarrow> route list" where
  "NewRouter d =
     [\<lparr>rt_method = ''GET'', rt_pattern = ''/healthz'', rt_guard = Open\<rparr>,
      \<lparr>rt_method = ''GET'', rt_pattern = ''/readyz'', rt_guard = Open\<rparr>] @
     provided (dp_Prometheus d) [\<lparr>rt_method = ''GET'', rt_pattern = ''/metrics'', rt_guard = Open\<rparr>] @
     provided (dp_Auth d) (mount_routes Open [(''POST'', ''/auth/login'')]) @
     provided (dp_SSO d) (mount_routes Open [(''POST'', ''/auth/sso'')]) @
     provided (dp_Issuer d) (session_routes d) @
     provided (dp_Events d \<and> dp_Issuer d) (mount_routes (QueryToken ActionMetricsRead) [(''GET'', ''/events'')])"

text \<open>What a request brings to a guard: its \<^verbatim>\<open>Authorization\<close> header and the \<^verbatim>\<open>token\<close> of
  its query string. A refusal of the WebSocket handshake is answered with 401 whatever its reason.\<close>

record credentials =
  rq_authorization :: string
  rq_token :: string

definition ws_verify :: "Issuer \<Rightarrow> int \<Rightarrow> Action \<Rightarrow> string \<Rightarrow> goerr + Claims" where
  "ws_verify i now a token =
     (case Verify_token i now token of
        Inl e \<Rightarrow> Inl e
      | Inr claims \<Rightarrow> if \<not> Can (cl_Role claims) a then Inl (Plain ''insufficient permissions'') else Inr claims)"

definition pass :: "Issuer \<Rightarrow> int \<Rightarrow> guard \<Rightarrow> credentials \<Rightarrow> goerr + Claims option" where
  "pass i now g rq =
     (case g of
        Open \<Rightarrow> Inr None
      | Session a \<Rightarrow> (case Authenticate i now (rq_authorization rq) of
            Inl e \<Rightarrow> Inl e
          | Inr claims \<Rightarrow> (case a of
                None \<Rightarrow> Inr (Some claims)
              | Some action \<Rightarrow> (case RequireAction action (Some claims) of
                    Some e \<Rightarrow> Inl e
                  | None \<Rightarrow> Inr (Some claims))))
      | QueryToken a \<Rightarrow> (case ws_verify i now a (rq_token rq) of
            Inl _ \<Rightarrow> Inl (New KindUnauthorized ''unauthorized'')
          | Inr claims \<Rightarrow> Inr (Some claims)))"

section \<open>The access policy\<close>

definition public_routes :: "string list" where
  "public_routes = [''/healthz'', ''/readyz'', ''/metrics'', ''/api/v1/auth/login'', ''/api/v1/auth/sso'']"

text \<open>The routes that hand out a superuser password, data or a shell.\<close>

definition secret_routes :: "string list" where
  "secret_routes = map (\<lambda>p. ''/api/v1'' @ p) [''/instances/{id}/connection'', ''/clusters/{id}/connection'',
     ''/instances/{id}/dump'', ''/instances/{id}/sql'', ''/instances/{id}/exec'']"

definition admin_routes :: "string list" where
  "admin_routes = map (\<lambda>p. ''/api/v1'' @ p) [''/users'', ''/users/{id}/disable'', ''/users/{id}/enable'', ''/audit'']"

definition logout_route :: string where
  "logout_route = ''/api/v1/auth/logout''"

definition reads_only :: "route \<Rightarrow> bool" where
  "reads_only r \<longleftrightarrow> rt_method r = ''GET'' \<and> rt_pattern r \<notin> set secret_routes \<and> rt_pattern r \<notin> set admin_routes"

definition route_ok :: "route \<Rightarrow> bool" where
  "route_ok r \<longleftrightarrow> (case rt_guard r of
       Open \<Rightarrow> rt_pattern r \<in> set public_routes
     | Session None \<Rightarrow> rt_pattern r = logout_route
     | Session (Some a) \<Rightarrow> (a \<in> set readActions \<longrightarrow> reads_only r) \<and>
         (rt_pattern r \<in> set admin_routes \<longrightarrow> a = ActionUserManage)
     | QueryToken a \<Rightarrow> reads_only r \<and> rt_pattern r \<notin> set admin_routes)"

definition full_deps :: Deps where
  "full_deps = \<lparr>dp_Issuer = True, dp_Auth = True, dp_SSO = True, dp_Users = True, dp_Audit = True, dp_Instances = True,
     dp_Clusters = True, dp_Backups = True, dp_Metrics = True, dp_Health = True, dp_Events = True, dp_Timescale = True,
     dp_Alerts = True, dp_AlertRules = True, dp_EventsHistory = True, dp_Logs = True, dp_Prometheus = True, dp_SQL = True,
     dp_Exec = True, dp_Dump = True, dp_Remote = True, dp_Pool = True, dp_Compose = True\<rparr>"

lemma provided_mono: "r \<in> set (provided b rs) \<Longrightarrow> r \<in> set rs"
  by (simp add: provided_def split: if_splits)

lemma full_table: "list_all route_ok (NewRouter full_deps)"
  by code_simp

lemma session_routes_full: "r \<in> set (session_routes d) \<Longrightarrow> r \<in> set (session_routes full_deps)"
  unfolding session_routes_def set_append Un_iff by (elim disjE) (simp_all add: provided_def full_deps_def split: if_splits)

lemma routes_full: "r \<in> set (NewRouter d) \<Longrightarrow> r \<in> set (NewRouter full_deps)"
  unfolding NewRouter_def set_append Un_iff
  by (elim disjE) (auto simp: provided_def full_deps_def dest: session_routes_full [unfolded full_deps_def] split: if_splits)

lemma routes_ok: "r \<in> set (NewRouter d) \<Longrightarrow> route_ok r"
  using full_table routes_full by (auto simp: list_all_iff)

lemma Verify_token_role: "Verify_token i now token = Inr c \<Longrightarrow> Role_Valid (cl_Role c)"
  by (simp add: Verify_token_def split: sum.splits if_splits)

lemma Can_viewer: "Can RoleViewer a \<longleftrightarrow> a \<in> set readActions"
  by (simp add: Can_def grants_def roles_neq)

lemma Can_manage: "Role_Valid role \<Longrightarrow> Can role ActionUserManage \<Longrightarrow> role = RoleAdmin"
  by (auto simp: Role_Valid_def Can_def grants_def readActions_def action_defs roles_neq split: if_splits)

lemma pass_Session:
  assumes "pass i now (Session a) rq = Inr ctx"
  shows "\<exists>c token. ctx = Some c \<and> Verify_token i now token = Inr c \<and> (\<forall>act. a = Some act \<longrightarrow> Can (cl_Role c) act)"
proof -
  obtain c where auth: "Authenticate i now (rq_authorization rq) = Inr c"
    using assms by (cases "Authenticate i now (rq_authorization rq)") (simp_all add: pass_def)
  then obtain token where "Verify_token i now token = Inr c"
    by (auto simp: Authenticate_def split: option.splits sum.splits)
  moreover have "ctx = Some c \<and> (\<forall>act. a = Some act \<longrightarrow> Can (cl_Role c) act)"
    using assms auth by (auto simp: pass_def RequireAction_def split: option.splits if_splits)
  ultimately show ?thesis by blast
qed

text \<open>
  C12. Least privilege holds on every mounted route, whatever collaborators are configured. A
  request that gets past the guard of a route either is for one of the five public
  endpoints, or carries a token that verifies now and names a valid role; a viewer gets past
  only for reading (a GET that hands out no password, no dump and no user data) or for logging
  out; and the user-management and audit routes are passed by administrators only.
\<close>

theorem least_privilege:
  assumes "r \<in> set (NewRouter d)" "pass i now (rt_guard r) rq = Inr ctx"
  shows "ctx = None \<and> rt_pattern r \<in> set public_routes \<or>
     (\<exists>c token. ctx = Some c \<and> Verify_token i now token = Inr c \<and> Role_Valid (cl_Role c) \<and>
        (cl_Role c = RoleViewer \<longrightarrow> reads_only r \<or> rt_pattern r = logout_route) \<and>
        (rt_pattern r \<in> set admin_routes \<longrightarrow> cl_Role c = RoleAdmin))"
proof -
  note ok = routes_ok [OF assms(1)]
  show ?thesis
  proof (cases "rt_guard r")
    case Open
    with ok assms(2) show ?thesis by (simp add: route_ok_def pass_def)
  next
    case (Session a)
    from pass_Session [OF assms(2) [unfolded Session]] obtain c token
      where c: "ctx = Some c" "Verify_token i now token = Inr c" "\<forall>act. a = Some act \<longrightarrow> Can (cl_Role c) act" by blast
    have v: "Role_Valid (cl_Role c)" using c(2) by (rule Verify_token_role)
    have adm: "logout_route \<notin> set admin_routes" by code_simp
    have "cl_Role c = RoleViewer \<longrightarrow> reads_only r \<or> rt_pattern r = logout_route"
      using ok Session c(3) by (cases a) (auto simp: route_ok_def Can_viewer)
    moreover have "rt_pattern r \<in> set admin_routes \<longrightarrow> cl_Role c = RoleAdmin"
      using ok Session c(3) adm Can_manage [OF v] by (cases a) (auto simp: route_ok_def)
    ultimately show ?thesis using c v by blast
  next
    case (QueryToken a)
    obtain c where "ws_verify i now a (rq_token rq) = Inr c" "ctx = Some c"
      using assms(2) QueryToken by (auto simp: pass_def split: sum.splits)
    then have "Verify_token i now (rq_token rq) = Inr c" by (auto simp: ws_verify_def split: sum.splits if_splits)
    with \<open>ctx = Some c\<close> Verify_token_role [OF this] ok QueryToken show ?thesis by (auto simp: route_ok_def)
  qed
qed

definition demo_issuer :: Issuer where
  "demo_issuer = \<lparr>is_jwt = demo_jwt, is_secret = replicate 32 (CHR ''k''), is_ttl = 4\<rparr>"

definition demo_viewer :: credentials where
  "demo_viewer = \<lparr>rq_authorization = (case Issue demo_issuer 1 ''u1'' ''v@x'' RoleViewer of Inr t \<Rightarrow> ''Bearer '' @ t | Inl _ \<Rightarrow> []),
     rq_token = []\<rparr>"

text \<open>A viewer's session: listing the instances is allowed, creating one is refused with 403, and an
  expired session with 401.\<close>

theorem least_privilege_witness:
  "\<exists>c. pass demo_issuer 2 (Session (Some ActionInstanceRead)) demo_viewer = Inr (Some c) \<and> cl_Role c = RoleViewer \<and>
     HTTPStatus (case pass demo_issuer 2 (Session (Some ActionInstanceWrite)) demo_viewer of Inl e \<Rightarrow> e) = 403 \<and>
     HTTPStatus (case pass demo_issuer 5 (Session (Some ActionInstanceRead)) demo_viewer of Inl e \<Rightarrow> e) = 401 \<and>
     reads_only \<lparr>rt_method = ''GET'', rt_pattern = ''/api/v1/instances'', rt_guard = Session (Some ActionInstanceRead)\<rparr>"
proof -
  let ?r = "\<lparr>rt_method = ''GET'', rt_pattern = ''/api/v1/instances'', rt_guard = Session (Some ActionInstanceRead)\<rparr>"
  have r: "?r \<in> set (NewRouter full_deps)" by code_simp
  obtain c where p: "pass demo_issuer 2 (rt_guard ?r) demo_viewer = Inr (Some c)" "cl_Role c = RoleViewer"
  proof -
    have "(case pass demo_issuer 2 (Session (Some ActionInstanceRead)) demo_viewer of Inr (Some c) \<Rightarrow> cl_Role c = RoleViewer | _ \<Rightarrow> False)"
      by code_simp
    then show thesis using that by (auto split: sum.splits option.splits)
  qed
  have "rt_pattern ?r \<noteq> logout_route" by code_simp
  with least_privilege [OF r p(1)] p(2) have ro: "reads_only ?r" by auto
  have "HTTPStatus (case pass demo_issuer 2 (Session (Some ActionInstanceWrite)) demo_viewer of Inl e \<Rightarrow> e) = 403"
    "HTTPStatus (case pass demo_issuer 5 (Session (Some ActionInstanceRead)) demo_viewer of Inl e \<Rightarrow> e) = 401"
    by code_simp+
  with p ro show ?thesis by auto
qed

text \<open>The permission table grants operators \<^verbatim>\<open>audit.read\<close>, but no route asks for it: the audit trail
  is behind \<^verbatim>\<open>user.manage\<close>.\<close>

lemma audit_read_unused:
  "Can RoleOperator ActionAuditRead \<and> (\<forall>r\<in>set (NewRouter d). rt_guard r \<noteq> Session (Some ActionAuditRead))"
proof -
  have "list_all (\<lambda>r. rt_guard r \<noteq> Session (Some ActionAuditRead)) (NewRouter full_deps)" by code_simp
  moreover have "r \<in> set (NewRouter d) \<Longrightarrow> r \<in> set (NewRouter full_deps)" for r by (rule routes_full)
  moreover have "Can RoleOperator ActionAuditRead" by code_simp
  ultimately show ?thesis by (auto simp: list_all_iff)
qed

end
