(* ===== verification/Async.thy ===== *)
theory Async
  imports Prelude "HOL-Library.Multiset"
begin

text \<open>
  The tracker of background work, \<^verbatim>\<open>internal/api/async.go\<close>: request handlers launch
  provisioning, restores and backups through \<^verbatim>\<open>Go\<close>, and the shutdown drains them with
  \<^verbatim>\<open>Wait\<close> before it closes the database pool and the container runtime.

  The state is the fields of \<^verbatim>\<open>Async\<close> (the \<^verbatim>\<open>WaitGroup\<close> is its counter) and what the
  goroutines do: \<open>as_starting\<close> are the calls of \<^verbatim>\<open>Go\<close> that released the lock and still
  have to start their goroutine, \<open>as_running\<close> the goroutines in flight and \<open>as_waits\<close>
  the calls of \<^verbatim>\<open>Wait\<close> with what became of them. A critical section is one step, and the
  steps of all goroutines interleave. A task that panics is recovered, so it ends as one that
  returns. \<open>as_nil\<close> is the nil receiver, which tracks nothing.
\<close>

datatype wait_call = Waits | WaitDrained | WaitTimedOut

record 't async =
  as_nil :: bool
  as_closed :: bool
  as_wg :: int
  as_starting :: "'t list"
  as_running :: "'t list"
  as_waits :: "wait_call list"

definition NewAsync :: "'t async" where
  "NewAsync = \<lparr>as_nil = False, as_closed = False, as_wg = 0, as_starting = [], as_running = [], as_waits = []\<rparr>"

text \<open>\<open>Go\<close>: the critical section, then the \<^verbatim>\<open>go\<close> statement. With a nil receiver there is only the
  second.\<close>

definition Go_admit :: "'t \<Rightarrow> 't async \<Rightarrow> 't async" where
  "Go_admit t a =
     (if as_nil a then a\<lparr>as_starting := as_starting a @ [t]\<rparr>
      else if as_closed a then a
      else a\<lparr>as_wg := as_wg a + 1, as_starting := as_starting a @ [t]\<rparr>)"

definition Go_launch :: "'t list \<Rightarrow> 't \<Rightarrow> 't list \<Rightarrow> 't async \<Rightarrow> 't async" where
  "Go_launch xs t ys a = a\<lparr>as_starting := xs @ ys, as_running := as_running a @ [t]\<rparr>"

text \<open>The end of a goroutine, by a return or by a recovered panic: the deferred \<^verbatim>\<open>wg.Done\<close>.\<close>

definition task_done :: "'t list \<Rightarrow> 't list \<Rightarrow> 't async \<Rightarrow> 't async" where
  "task_done xs ys a = a\<lparr>as_running := xs @ ys, as_wg := if as_nil a then as_wg a else as_wg a - 1\<rparr>"

text \<open>\<open>Wait\<close>: the critical section; then its \<^verbatim>\<open>select\<close> takes the drained group or the timeout.\<close>

definition Wait_begin :: "'t async \<Rightarrow> 't async" where
  "Wait_begin a = (if as_nil a then a else a\<lparr>as_closed := True, as_waits := as_waits a @ [Waits]\<rparr>)"

definition Wait_return :: "wait_call list \<Rightarrow> wait_call \<Rightarrow> wait_call list \<Rightarrow> 't async \<Rightarrow> 't async" where
  "Wait_return xs r ys a = a\<lparr>as_waits := xs @ r # ys\<rparr>"

inductive async_step :: "'t async \<Rightarrow> 't async \<Rightarrow> bool" where
  go: "async_step a (Go_admit t a)"
| launch: "as_starting a = xs @ t # ys \<Longrightarrow> async_step a (Go_launch xs t ys a)"
| finish: "as_running a = xs @ t # ys \<Longrightarrow> async_step a (task_done xs ys a)"
| wait: "async_step a (Wait_begin a)"
| drained: "as_waits a = xs @ Waits # ys \<Longrightarrow> as_wg a = 0 \<Longrightarrow> async_step a (Wait_return xs WaitDrained ys a)"
| timeout: "as_waits a = xs @ Waits # ys \<Longrightarrow> async_step a (Wait_return xs WaitTimedOut ys a)"

inductive async_steps :: "'t async \<Rightarrow> 't async \<Rightarrow> bool" for a0 where
  none: "async_steps a0 a0"
| more: "async_steps a0 a \<Longrightarrow> async_step a a' \<Longrightarrow> async_steps a0 a'"

lemmas async_defs = Go_admit_def Go_launch_def task_done_def Wait_begin_def Wait_return_def

section \<open>What every interleaving keeps\<close>

text \<open>The work admitted and not finished.\<close>

definition outstanding :: "'t async \<Rightarrow> 't multiset" where
  "outstanding a = mset (as_starting a) + mset (as_running a)"

definition async_inv :: "'t async \<Rightarrow> bool" where
  "async_inv a \<longleftrightarrow> \<not> as_nil a \<and> as_wg a = int (size (outstanding a)) \<and> (as_waits a \<noteq> [] \<longrightarrow> as_closed a) \<and>
     (WaitDrained \<in> set (as_waits a) \<longrightarrow> outstanding a = {#})"

lemma async_inv_New: "async_inv NewAsync"
  by (simp add: async_inv_def NewAsync_def outstanding_def)

lemma async_inv_step: "async_step a a' \<Longrightarrow> async_inv a \<Longrightarrow> async_inv a'"
proof (induction rule: async_step.induct)
  case (drained a xs ys)
  hence "size (outstanding a) = 0" by (simp add: async_inv_def)
  with drained show ?case by (auto simp: async_inv_def Wait_return_def outstanding_def)
qed (auto simp: async_inv_def async_defs outstanding_def split: if_splits)

text \<open>A closed tracker admits nothing: what is in flight only shrinks, and it stays closed.\<close>

lemma closed_step: "async_step a a' \<Longrightarrow> as_closed a \<Longrightarrow> \<not> as_nil a \<Longrightarrow>
    as_closed a' \<and> \<not> as_nil a' \<and> outstanding a' \<subseteq># outstanding a"
  by (induction rule: async_step.induct) (auto simp: async_defs outstanding_def)

lemma async_steps_inv: "async_steps a a' \<Longrightarrow> async_inv a \<Longrightarrow> async_inv a'"
  by (induction rule: async_steps.induct) (auto intro: async_inv_step)

lemma closed_steps: "async_steps a a' \<Longrightarrow> as_closed a \<Longrightarrow> \<not> as_nil a \<Longrightarrow>
    as_closed a' \<and> \<not> as_nil a' \<and> outstanding a' \<subseteq># outstanding a"
  by (induction rule: async_steps.induct) (use closed_step subset_mset.order_trans in fast)+

lemma async_steps_trans: "async_steps b c \<Longrightarrow> async_steps a b \<Longrightarrow> async_steps a c"
  by (induction rule: async_steps.induct) (auto intro: async_steps.intros)

lemma async_one: "async_step a a' \<Longrightarrow> async_steps a a'"
  by (rule more [OF none])

text \<open>The goroutines in flight can always run to their end, one after the other.\<close>

lemma can_drain: "async_inv a \<Longrightarrow> \<exists>a'. async_steps a a' \<and> outstanding a' = {#} \<and> as_waits a' = as_waits a"
proof (induction "2 * length (as_starting a) + length (as_running a)" arbitrary: a rule: less_induct)
  case less
  show ?case
  proof (cases "as_starting a")
    case (Cons t ys)
    let ?b = "Go_launch [] t ys a"
    have step: "async_step a ?b" by (rule launch) (simp add: Cons)
    have "2 * length (as_starting ?b) + length (as_running ?b) < 2 * length (as_starting a) + length (as_running a)"
      by (simp add: Cons Go_launch_def)
    from less(1) [OF this async_inv_step [OF step less(2)]] obtain a'
      where "async_steps ?b a'" "outstanding a' = {#}" "as_waits a' = as_waits ?b" by blast
    with async_steps_trans [OF _ async_one [OF step]] show ?thesis by (auto simp: Go_launch_def)
  next
    case Nil
    show ?thesis
    proof (cases "as_running a")
      case (Cons t ys)
      let ?b = "task_done [] ys a"
      have step: "async_step a ?b" by (rule finish [where t = t]) (simp add: Cons)
      have "2 * length (as_starting ?b) + length (as_running ?b) < 2 * length (as_starting a) + length (as_running a)"
        by (simp add: Cons task_done_def)
      from less(1) [OF this async_inv_step [OF step less(2)]] obtain a'
        where "async_steps ?b a'" "outstanding a' = {#}" "as_waits a' = as_waits ?b" by blast
      with async_steps_trans [OF _ async_one [OF step]] show ?thesis by (auto simp: task_done_def)
    qed (use Nil in \<open>auto simp: outstanding_def intro: async_steps.none\<close>)
  qed
qed

lemma can_complete:
  assumes "async_inv a" "as_waits a = xs @ Waits # ys"
  shows "\<exists>a'. async_steps a a' \<and> as_waits a' = xs @ WaitDrained # ys"
proof -
  obtain b where b: "async_steps a b" "outstanding b = {#}" "as_waits b = as_waits a"
    using can_drain [OF assms(1)] by blast
  from async_steps_inv [OF b(1) assms(1)] have "as_wg b = 0" by (simp add: async_inv_def b(2))
  with b(3) assms(2) have "async_step b (Wait_return xs WaitDrained ys b)" by (intro drained) auto
  with b(1) have "async_steps a (Wait_return xs WaitDrained ys b)" by (rule more)
  thus ?thesis by (auto simp: Wait_return_def)
qed

text \<open>
  C16. In every interleaving of \<^verbatim>\<open>Go\<close>, \<^verbatim>\<open>Wait\<close> and the goroutines, from a fresh tracker: the
  \<^verbatim>\<open>WaitGroup\<close> counts exactly the work admitted and not finished, so it never goes negative;
  once \<^verbatim>\<open>Wait\<close> was called nothing more is admitted, however the run goes on; when a
  \<^verbatim>\<open>Wait\<close> returns because the group drained, no work is in flight then or ever after; and a
  waiting \<^verbatim>\<open>Wait\<close> can always still complete.
\<close>

theorem async_drain_sound:
  assumes "async_steps NewAsync a" "async_steps a a'"
  shows "as_wg a = int (size (outstanding a)) \<and>
    (as_waits a \<noteq> [] \<longrightarrow> outstanding a' \<subseteq># outstanding a) \<and>
    (WaitDrained \<in> set (as_waits a) \<longrightarrow> outstanding a' = {#}) \<and>
    (\<forall>xs ys. as_waits a = xs @ Waits # ys \<longrightarrow> (\<exists>b. async_steps a b \<and> as_waits b = xs @ WaitDrained # ys))"
proof -
  have inv: "async_inv a" using async_steps_inv [OF assms(1) async_inv_New] .
  have shrink: "as_waits a \<noteq> [] \<Longrightarrow> outstanding a' \<subseteq># outstanding a"
    using closed_steps [OF assms(2)] inv by (simp add: async_inv_def)
  moreover have "outstanding a' = {#}" if "WaitDrained \<in> set (as_waits a)"
  proof -
    have "outstanding a = {#}" "as_waits a \<noteq> []" using inv that by (auto simp: async_inv_def)
    with shrink show ?thesis by simp
  qed
  ultimately show ?thesis using inv can_complete [OF inv] by (auto simp: async_inv_def)
qed

definition demo_async :: "nat async" where
  "demo_async = Wait_begin (Go_admit 7 NewAsync)"

theorem async_drain_sound_witness:
  "as_wg demo_async = 1 \<and> (\<exists>b. async_steps demo_async b \<and> as_waits b = [WaitDrained])"
proof -
  have "async_steps NewAsync demo_async" unfolding demo_async_def
    by (intro more [OF more [OF none go] wait])
  note sound = async_drain_sound [OF this none]
  have "as_waits demo_async = [] @ Waits # []" by (simp add: demo_async_def async_defs NewAsync_def)
  with sound have "\<exists>b. async_steps demo_async b \<and> as_waits b = [] @ WaitDrained # []" by blast
  with sound show ?thesis by (simp add: demo_async_def async_defs NewAsync_def outstanding_def)
qed

end
