(* ===== verification/Handlers.thy ===== *)
theory Handlers
  imports ClusterOps BackupSvc Router Async Visibility FailoverMeta
begin

text \<open>
  The handlers of \<^verbatim>\<open>internal/api\<close> that operate on instances, clusters and backups:
  \<^verbatim>\<open>instances.go\<close>, \<^verbatim>\<open>clusters.go\<close> and \<^verbatim>\<open>backups.go\<close>.

  The state is the control plane's: the world of the provisioner and its database, the audit
  log, and the tracker of background work. A function literal given to \<^verbatim>\<open>Go\<close> is a \<open>task\<close>
  with the variables it captures; \<open>run_task\<close> is its body. A handler returns the error it
  responds with (\<open>Inl\<close>, written by \<open>respondError\<close>) or its status and payload (\<open>Inr\<close>).
  The JSON decoders are parameters. Left out are the progress messages for the event hub, the
  deadlines of the contexts, and the listing of backups, whose rows carry a generated id that
  the catalog model does not have.
\<close>

section \<open>State, tasks and payloads\<close>

datatype task =
    ProvisionInstance string
  | FlipVisibility string bool
  | CloneInstance string Instance
  | ProvisionCluster string
  | RunBackup string string RunOpts
  | VerifyRepo string
  | RestoreInstance string RestoreOptions

record 'e server =
  sv_world :: "'e world"
  sv_audit :: "unit accounts"
  sv_async :: "task async"

text \<open>What the handlers are built with: \<open>ap_cloneBackup\<close> says whether \<^verbatim>\<open>WithCloneBackup\<close> attached
  a runner and \<open>ap_audit\<close> whether a recorder is attached.\<close>

record 'e api =
  ap_prov :: "'e Provisioner"
  ap_svc :: "'e Service"
  ap_backup :: "'e backup_service"
  ap_cloneBackup :: bool
  ap_audit :: bool
  ap_host :: string

definition onW :: "('e world, 'a) gofun \<Rightarrow> ('e server, 'a) gofun" where
  "onW m s = (case m (sv_world s) of (r, w) \<Rightarrow> (r, s\<lparr>sv_world := w\<rparr>))"

definition api_audit :: "'e api \<Rightarrow> Claims option \<Rightarrow> string \<Rightarrow> string \<Rightarrow> ('e server, unit) gofun" where
  "api_audit h ctx action target s =
     (case recordAudit (ap_audit h) ctx action target (sv_audit s) of (r, a) \<Rightarrow> (r, s\<lparr>sv_audit := a\<rparr>))"

definition async_Go :: "task \<Rightarrow> ('e server, unit) gofun" where
  "async_Go t s = (Inr (), s\<lparr>sv_async := Go_admit t (sv_async s)\<rparr>)"

text \<open>\<^verbatim>\<open>instance.RepoType(s)\<close>.\<close>

definition repo_of :: "string \<Rightarrow> RepoType" where
  "repo_of s = (if s = ''s3'' then RepoS3 else if s = ''local'' then RepoLocal else RepoOther s)"

record createInstanceRequest =
  ci_Name :: string
  ci_RepoType :: string
  ci_PGVersion :: string
  ci_Password :: string
  ci_Parameters :: strmap
  ci_Extensions :: "string list"

record instancePayload =
  ip_ID :: string
  ip_Name :: string
  ip_Status :: string
  ip_RepoType :: string
  ip_PGVersion :: string
  ip_HostPort :: int
  ip_Stanza :: string
  ip_Role :: string
  ip_ClusterID :: string
  ip_LastError :: string
  ip_Parameters :: strmap
  ip_Extensions :: "string list"
  ip_Public :: bool

definition toInstancePayload :: "Instance \<Rightarrow> instancePayload" where
  "toInstancePayload i = \<lparr>ip_ID = i_ID i, ip_Name = i_Name i, ip_Status = status_string (i_Status i),
     ip_RepoType = repo_string (i_RepoType i), ip_PGVersion = i_PGVersion i, ip_HostPort = i_HostPort i,
     ip_Stanza = i_Stanza i, ip_Role = role_string (i_Role i), ip_ClusterID = i_ClusterID i, ip_LastError = i_LastError i,
     ip_Parameters = i_Parameters i, ip_Extensions = i_Extensions i, ip_Public = i_Public i\<rparr>"

record cloneRequest =
  cq_Name :: string
  cq_Password :: string

record createClusterRequest =
  cc_Name :: string
  cc_Replicas :: int
  cc_Password :: string
  cc_RepoType :: string
  cc_PGVersion :: string
  cc_PoolMode :: string
  cc_Parameters :: strmap
  cc_Extensions :: "string list"

fun cstatus_string :: "cluster_status \<Rightarrow> string" where
  "cstatus_string CStatusProvisioning = ''provisioning''"
| "cstatus_string CStatusRunning = ''running''"
| "cstatus_string CStatusDegraded = ''degraded''"
| "cstatus_string CStatusError = ''error''"
| "cstatus_string CStatusDestroying = ''destroying''"

record clusterPayload =
  cp_ID :: string
  cp_Name :: string
  cp_Status :: string
  cp_RouterPort :: int
  cp_PoolMode :: string
  cp_LastError :: string

definition toClusterPayload :: "Cluster \<Rightarrow> clusterPayload" where
  "toClusterPayload c = \<lparr>cp_ID = c_ID c, cp_Name = c_Name c, cp_Status = cstatus_string (c_Status c),
     cp_RouterPort = c_RouterPort c, cp_PoolMode = c_PoolMode c, cp_LastError = c_LastError c\<rparr>"

record createBackupRequest =
  cb_Type :: string
  cb_Annotation :: string
  cb_Standby :: bool

record restoreRequest =
  rr_Type :: string
  rr_Target :: string
  rr_Set :: string
  rr_Delta :: bool
  rr_Repo :: int

datatype payload =
    NoBody
  | InstanceBody instancePayload
  | InstancesBody "instancePayload list"
  | ClusterBody clusterPayload
  | ClustersBody "clusterPayload list"
  | MembersBody clusterPayload "instancePayload list"
  | DSNBody string

type_synonym 'e handler = "('e server, nat \<times> payload) gofun"

text \<open>\<^verbatim>\<open>if err := decodeJSON(r, &req); err != nil { respondError(w, err); return }\<close>.\<close>

definition with_body :: "'a decoder \<Rightarrow> string \<Rightarrow> ('a \<Rightarrow> 'e handler) \<Rightarrow> 'e handler" where
  "with_body dec body k = (case decodeJSON dec body of Inl e \<Rightarrow> fail e | Inr req \<Rightarrow> k req)"

text \<open>The end of a handler: the entry in the audit log, then the response.\<close>

definition audited :: "'e api \<Rightarrow> Claims option \<Rightarrow> string \<Rightarrow> string \<Rightarrow> 'e handler \<Rightarrow> 'e handler" where
  "audited h ctx action target k = ignoring (api_audit h ctx action target) k"

section \<open>Instances (api/instances.go)\<close>

definition store_Create :: "'e api \<Rightarrow> NewInstance \<Rightarrow> ('e server, Instance) gofun" where
  "store_Create h n = onW (instance_Create (p_rt (ap_prov h)) (p_kek (ap_prov h)) n)"

definition store_Get :: "string \<Rightarrow> ('e server, Instance) gofun" where
  "store_Get iid = onW (onD (instance_Get iid))"

definition instances_Create :: "'e api \<Rightarrow> Claims option \<Rightarrow> createInstanceRequest decoder \<Rightarrow> string \<Rightarrow> 'e handler" where
  "instances_Create h ctx dec body = with_body dec body (\<lambda>req.
     bindE (store_Create h \<lparr>n_Name = ci_Name req, n_Image = [], n_PGVersion = ci_PGVersion req, n_ClusterID = [],
        n_Role = RoleUnset, n_RepoType = repo_of (ci_RepoType req), n_Superuser = [], n_Password = ci_Password req,
        n_Parameters = ci_Parameters req, n_Extensions = ci_Extensions req\<rparr>) (\<lambda>inst.
     audited h ctx ''instance.create'' (i_Name inst) (
     ignoring (async_Go (ProvisionInstance (i_ID inst))) (
     ret (202, InstanceBody (toInstancePayload inst))))))"

definition instances_Visibility :: "'e api \<Rightarrow> Claims option \<Rightarrow> bool decoder \<Rightarrow> string \<Rightarrow> string \<Rightarrow> 'e handler" where
  "instances_Visibility h ctx dec iid body =
     bindE (store_Get iid) (\<lambda>_.
     with_body dec body (\<lambda>public.
     audited h ctx ''instance.visibility'' iid (
     ignoring (async_Go (FlipVisibility iid public)) (ret (202, NoBody)))))"

definition instances_Clone :: "'e api \<Rightarrow> Claims option \<Rightarrow> cloneRequest decoder \<Rightarrow> string \<Rightarrow> string \<Rightarrow> 'e handler" where
  "instances_Clone h ctx dec iid body =
     bindE (store_Get iid) (\<lambda>source.
     with_body dec body (\<lambda>req.
     bindE (store_Create h \<lparr>n_Name = cq_Name req, n_Image = [], n_PGVersion = i_PGVersion source, n_ClusterID = [],
        n_Role = RoleUnset, n_RepoType = i_RepoType source, n_Superuser = [], n_Password = cq_Password req,
        n_Parameters = i_Parameters source, n_Extensions = i_Extensions source\<rparr>) (\<lambda>clone.
     audited h ctx ''instance.clone'' (i_Name clone @ '' from '' @ i_Name source) (
     ignoring (async_Go (CloneInstance (i_ID clone) source)) (
     ret (202, InstanceBody (toInstancePayload clone)))))))"

definition instances_List :: "'e handler" where
  "instances_List = bindE (onW (onD instance_List)) (\<lambda>items. ret (200, InstancesBody (map toInstancePayload items)))"

definition instances_Get :: "string \<Rightarrow> 'e handler" where
  "instances_Get iid = bindE (store_Get iid) (\<lambda>inst. ret (200, InstanceBody (toInstancePayload inst)))"

definition lifecycle :: "'e api \<Rightarrow> Claims option \<Rightarrow> (string \<Rightarrow> ('e world, unit) gofun) \<Rightarrow> string \<Rightarrow> string \<Rightarrow> 'e handler" where
  "lifecycle h ctx fn action iid =
     bindE (onW (fn iid)) (\<lambda>_. audited h ctx action iid (ret (204, NoBody)))"

definition instances_Start :: "'e api \<Rightarrow> Claims option \<Rightarrow> string \<Rightarrow> 'e handler" where
  "instances_Start h ctx iid = lifecycle h ctx (Start (ap_prov h)) ''instance.start'' iid"

definition instances_Stop :: "'e api \<Rightarrow> Claims option \<Rightarrow> string \<Rightarrow> 'e handler" where
  "instances_Stop h ctx iid = lifecycle h ctx (Stop (ap_prov h)) ''instance.stop'' iid"

definition instances_Restart :: "'e api \<Rightarrow> Claims option \<Rightarrow> string \<Rightarrow> 'e handler" where
  "instances_Restart h ctx iid = lifecycle h ctx (Restart (ap_prov h)) ''instance.restart'' iid"

definition member_conflict :: "Instance \<Rightarrow> goerr" where
  "member_conflict inst = New KindConflict (''cannot destroy a cluster member directly; destroy the cluster '' @ i_ClusterID inst @
     '' instead (it tears down members in order and drops replication slots)'')"

definition instances_Destroy :: "'e api \<Rightarrow> Claims option \<Rightarrow> string \<Rightarrow> string \<Rightarrow> 'e handler" where
  "instances_Destroy h ctx iid retain_backups =
     bindE (store_Get iid) (\<lambda>inst.
     if i_ClusterID inst \<noteq> [] then fail (member_conflict inst)
     else
       bindE (onW (Destroy (ap_prov h) iid (retain_backups = ''true''))) (\<lambda>_.
       audited h ctx ''instance.destroy'' iid (ret (204, NoBody))))"

definition instances_Connection :: "'e api \<Rightarrow> string \<Rightarrow> 'e handler" where
  "instances_Connection h iid = bindE (onW (DSN (ap_prov h) iid)) (\<lambda>dsn. ret (200, DSNBody dsn))"

section \<open>Clusters (api/clusters.go)\<close>

definition clusters_Create :: "'e api \<Rightarrow> Claims option \<Rightarrow> createClusterRequest decoder \<Rightarrow> string \<Rightarrow> 'e handler" where
  "clusters_Create h ctx dec body = with_body dec body (\<lambda>req.
     if length (cc_Password req) < 8 then fail (New KindInvalid ''password must be at least 8 characters'')
     else
       bindE (onW (Create (ap_svc h) \<lparr>in_Name = cc_Name req, in_Replicas = cc_Replicas req, in_Password = cc_Password req,
          in_RepoType = repo_of (cc_RepoType req), in_Version = cc_PGVersion req, in_Parameters = cc_Parameters req,
          in_Extensions = cc_Extensions req, in_PoolMode = cc_PoolMode req\<rparr>)) (\<lambda>c.
       audited h ctx ''cluster.create'' (c_Name c) (
       ignoring (async_Go (ProvisionCluster (c_ID c))) (
       ret (202, ClusterBody (toClusterPayload c))))))"

definition clusters_List :: "'e handler" where
  "clusters_List = bindE (onW (onD cluster_List)) (\<lambda>items. ret (200, ClustersBody (map toClusterPayload items)))"

definition clusters_Get :: "string \<Rightarrow> 'e handler" where
  "clusters_Get cid =
     bindE (onW (onD (cluster_Get cid))) (\<lambda>c.
     bindE (onW (onD (instance_ListByCluster cid))) (\<lambda>members.
     ret (200, MembersBody (toClusterPayload c) (map toInstancePayload members))))"

definition clusters_Destroy :: "'e api \<Rightarrow> Claims option \<Rightarrow> string \<Rightarrow> string \<Rightarrow> 'e handler" where
  "clusters_Destroy h ctx cid retain_backups =
     bindE (onW (Destroy_cluster (ap_svc h) cid (retain_backups = ''true''))) (\<lambda>_.
     audited h ctx ''cluster.destroy'' cid (ret (204, NoBody)))"

definition clusters_Connection :: "'e api \<Rightarrow> string \<Rightarrow> 'e handler" where
  "clusters_Connection h cid = bindE (onW (ConnectionDSN (ap_svc h) cid (ap_host h))) (\<lambda>dsn. ret (200, DSNBody dsn))"

section \<open>Backups (api/backups.go)\<close>

definition validBackupTypes :: "string list" where
  "validBackupTypes = [''full'', ''incr'', ''diff'']"

definition validRestoreTypes :: "string list" where
  "validRestoreTypes = [[], ''time'', ''lsn'', ''xid'', ''name'']"

definition backups_Create :: "'e api \<Rightarrow> Claims option \<Rightarrow> createBackupRequest decoder \<Rightarrow> string \<Rightarrow> string \<Rightarrow> 'e handler" where
  "backups_Create h ctx dec iid body = with_body dec body (\<lambda>req.
     if cb_Type req \<notin> set validBackupTypes then fail (New KindInvalid ''backup type must be full, incr, or diff'')
     else
       audited h ctx ''backup.create'' iid (
       ignoring (async_Go (RunBackup iid (cb_Type req) \<lparr>ru_Annotation = cb_Annotation req, ru_Standby = cb_Standby req\<rparr>)) (
       ret (202, NoBody))))"

definition backups_Delete :: "'e api \<Rightarrow> Claims option \<Rightarrow> string \<Rightarrow> string \<Rightarrow> 'e handler" where
  "backups_Delete h ctx iid label =
     (if label = [] then fail (New KindInvalid ''backup label is required'')
      else
        audited h ctx ''backup.delete'' (iid @ ''/'' @ label) (
        bindE (onW (backup_Delete (ap_backup h) iid label)) (\<lambda>_. ret (204, NoBody))))"

definition backups_Verify :: "'e api \<Rightarrow> Claims option \<Rightarrow> string \<Rightarrow> 'e handler" where
  "backups_Verify h ctx iid =
     audited h ctx ''backup.verify'' iid (ignoring (async_Go (VerifyRepo iid)) (ret (202, NoBody)))"

definition backups_Restore :: "'e api \<Rightarrow> Claims option \<Rightarrow> restoreRequest decoder \<Rightarrow> string \<Rightarrow> string \<Rightarrow> 'e handler" where
  "backups_Restore h ctx dec iid body = with_body dec body (\<lambda>req.
     if rr_Type req \<notin> set validRestoreTypes then fail (New KindInvalid ''restore type must be one of: time, lsn, xid, name'')
     else if rr_Type req \<noteq> [] \<and> rr_Target req = [] then fail (New KindInvalid ''restore type requires a target'')
     else if rr_Repo req \<noteq> 0 \<and> rr_Repo req \<noteq> 1 \<and> rr_Repo req \<noteq> 2 then fail (New KindInvalid ''restore repo must be 1 or 2'')
     else
       audited h ctx ''backup.restore'' iid (
       ignoring (async_Go (RestoreInstance iid \<lparr>r_Type = rr_Type req, r_Target = rr_Target req, r_Set = rr_Set req,
          r_Delta = rr_Delta req, r_Repo = rr_Repo req\<rparr>)) (
       ret (202, NoBody))))"

section \<open>The bodies of the background tasks\<close>

definition clone_task :: "'e api \<Rightarrow> string \<Rightarrow> Instance \<Rightarrow> ('e world, unit) gofun" where
  "clone_task h cloneID source =
     (if ap_cloneBackup h then
        attempt (backup_Run (ap_backup h) (i_ID source) ''full'') (\<lambda>r. case r of
            Inl e \<Rightarrow> ignoring (MarkError cloneID (''clone aborted: source backup failed: '' @ Error e)) (ret ())
          | Inr _ \<Rightarrow> ignoring (Clone (ap_prov h) cloneID source) (ret ()))
      else ignoring (Clone (ap_prov h) cloneID source) (ret ()))"

definition run_task :: "'e api \<Rightarrow> task \<Rightarrow> ('e world, unit) gofun" where
  "run_task h t = (case t of
       ProvisionInstance iid \<Rightarrow> ignoring (Provision (ap_prov h) iid) (ret ())
     | FlipVisibility iid public \<Rightarrow> ignoring (SetVisibility (ap_prov h) iid public) (ret ())
     | CloneInstance cloneID source \<Rightarrow> clone_task h cloneID source
     | ProvisionCluster cid \<Rightarrow> ignoring (Provision_cluster (ap_svc h) cid) (ret ())
     | RunBackup iid ty opts \<Rightarrow> ignoring (RunWith (ap_backup h) iid ty opts) (ret ())
     | VerifyRepo iid \<Rightarrow> ignoring (backup_Verify (ap_backup h) iid) (ret ())
     | RestoreInstance iid opts \<Rightarrow> ignoring (Restore (ap_prov h) iid opts) (ret ()))"

section \<open>One request\<close>

text \<open>A request to these handlers: the route's parameters, its query and its body.\<close>

datatype request =
    CreateInstance string
  | ListInstances
  | GetInstance string
  | SetInstanceVisibility string string
  | CloneRequest string string
  | StartInstance string
  | StopInstance string
  | RestartInstance string
  | DestroyInstance string string
  | InstanceConnection string
  | CreateCluster string
  | ListClusters
  | GetCluster string
  | DestroyCluster string string
  | ClusterConnection string
  | CreateBackup string string
  | DeleteBackup string string
  | VerifyBackups string
  | RestoreBackup string string

record decoders =
  d_instance :: "createInstanceRequest decoder"
  d_visibility :: "bool decoder"
  d_clone :: "cloneRequest decoder"
  d_cluster :: "createClusterRequest decoder"
  d_backup :: "createBackupRequest decoder"
  d_restore :: "restoreRequest decoder"

fun serve :: "'e api \<Rightarrow> decoders \<Rightarrow> Claims option \<Rightarrow> request \<Rightarrow> 'e handler" where
  "serve h d ctx (CreateInstance body) = instances_Create h ctx (d_instance d) body"
| "serve h d ctx ListInstances = instances_List"
| "serve h d ctx (GetInstance iid) = instances_Get iid"
| "serve h d ctx (SetInstanceVisibility iid body) = instances_Visibility h ctx (d_visibility d) iid body"
| "serve h d ctx (CloneRequest iid body) = instances_Clone h ctx (d_clone d) iid body"
| "serve h d ctx (StartInstance iid) = instances_Start h ctx iid"
| "serve h d ctx (StopInstance iid) = instances_Stop h ctx iid"
| "serve h d ctx (RestartInstance iid) = instances_Restart h ctx iid"
| "serve h d ctx (DestroyInstance iid retain) = instances_Destroy h ctx iid retain"
| "serve h d ctx (InstanceConnection iid) = instances_Connection h iid"
| "serve h d ctx (CreateCluster body) = clusters_Create h ctx (d_cluster d) body"
| "serve h d ctx ListClusters = clusters_List"
| "serve h d ctx (GetCluster cid) = clusters_Get cid"
| "serve h d ctx (DestroyCluster cid retain) = clusters_Destroy h ctx cid retain"
| "serve h d ctx (ClusterConnection cid) = clusters_Connection h cid"
| "serve h d ctx (CreateBackup iid body) = backups_Create h ctx (d_backup d) iid body"
| "serve h d ctx (DeleteBackup iid label) = backups_Delete h ctx iid label"
| "serve h d ctx (VerifyBackups iid) = backups_Verify h ctx iid"
| "serve h d ctx (RestoreBackup iid body) = backups_Restore h ctx (d_restore d) iid body"

section \<open>What a request launches\<close>

definition restore_ok :: "restoreRequest \<Rightarrow> bool" where
  "restore_ok q \<longleftrightarrow> rr_Type q \<in> set validRestoreTypes \<and> (rr_Type q \<noteq> [] \<longrightarrow> rr_Target q \<noteq> []) \<and> rr_Repo q \<in> {0, 1, 2}"

text \<open>
  The task a request asks for: what its decoded body says, on the object named in the route, or on the one that
  was created and is named in the response. \<open>rows\<close> are the instances at the time of the request, where a clone finds its source.
\<close>

fun task_of :: "decoders \<Rightarrow> Instance list \<Rightarrow> request \<Rightarrow> payload \<Rightarrow> task \<Rightarrow> bool" where
  "task_of d rows (CreateInstance body) (InstanceBody p) t = (t = ProvisionInstance (ip_ID p))"
| "task_of d rows (SetInstanceVisibility iid body) NoBody t =
     (\<exists>public. decodeJSON (d_visibility d) body = Inr public \<and> t = FlipVisibility iid public)"
| "task_of d rows (CloneRequest iid body) (InstanceBody p) t =
     (\<exists>source. find (\<lambda>i. i_ID i = iid) rows = Some source \<and> t = CloneInstance (ip_ID p) source)"
| "task_of d rows (CreateCluster body) (ClusterBody p) t = (t = ProvisionCluster (cp_ID p))"
| "task_of d rows (CreateBackup iid body) NoBody t =
     (\<exists>q. decodeJSON (d_backup d) body = Inr q \<and> cb_Type q \<in> set validBackupTypes \<and>
        t = RunBackup iid (cb_Type q) \<lparr>ru_Annotation = cb_Annotation q, ru_Standby = cb_Standby q\<rparr>)"
| "task_of d rows (VerifyBackups iid) NoBody t = (t = VerifyRepo iid)"
| "task_of d rows (RestoreBackup iid body) NoBody t =
     (\<exists>q. decodeJSON (d_restore d) body = Inr q \<and> restore_ok q \<and>
        t = RestoreInstance iid \<lparr>r_Type = rr_Type q, r_Target = rr_Target q, r_Set = rr_Set q, r_Delta = rr_Delta q, r_Repo = rr_Repo q\<rparr>)"
| "task_of _ _ _ _ _ = False"

definition tracked :: "decoders \<Rightarrow> Instance list \<Rightarrow> request \<Rightarrow> goerr + nat \<times> payload \<Rightarrow> task async \<Rightarrow> task async \<Rightarrow> bool" where
  "tracked d rows req r a a' \<longleftrightarrow> (case r of
       Inl e \<Rightarrow> a' = a
     | Inr (status, p) \<Rightarrow> if status = 202 then \<exists>t. task_of d rows req p t \<and> a' = Go_admit t a else a' = a)"

lemma tracked_simps [simp]:
  "tracked d rows req (Inl e) a a' = (a' = a)"
  "tracked d rows req (Inr (202, p)) a a' = (\<exists>t. task_of d rows req p t \<and> a' = Go_admit t a)"
  "tracked d rows req (Inr (200, p)) a a' = (a' = a)" "tracked d rows req (Inr (204, p)) a a' = (a' = a)"
  by (simp_all add: tracked_def)

lemma keeps_onW: "keeps (\<lambda>s. P (sv_async s)) (onW m)"
  by (simp add: keeps_def onW_def split: prod.splits)

lemma keeps_store: "keeps (\<lambda>s. P (sv_async s)) (store_Get iid)" "keeps (\<lambda>s. P (sv_async s)) (store_Create h n)"
  by (simp_all add: store_Get_def store_Create_def keeps_onW)

lemma keeps_api_audit: "keeps (\<lambda>s. P (sv_async s)) (api_audit h ctx action target)"
  by (simp add: keeps_def api_audit_def split: prod.splits)

lemma hoare_audited:
  "hoare (\<lambda>s. P (sv_async s)) k Q \<Longrightarrow> hoare (\<lambda>s. P (sv_async s)) (audited h ctx action target k) Q"
  unfolding audited_def by (rule hoare_ignoring [OF keeps_api_audit [unfolded keeps_hoare]])

lemma hoare_launch:
  "task_of d rows req p t \<Longrightarrow> hoare (\<lambda>s. sv_async s = a) (ignoring (async_Go t) (ret (202, p))) (\<lambda>r s. tracked d rows req r a (sv_async s))"
  by (auto simp: hoare_def async_Go_def prog_run)

lemma hoare_with_body:
  "(\<And>x. decodeJSON dec body = Inr x \<Longrightarrow> hoare P (k x) Q) \<Longrightarrow> (\<And>e s. P s \<Longrightarrow> Q (Inl e) s) \<Longrightarrow> hoare P (with_body dec body k) Q"
  by (auto simp: with_body_def hoare_fail split: sum.splits)

lemma hoare_answer:
  "status \<noteq> 202 \<Longrightarrow> hoare (\<lambda>s. sv_async s = a) (ret (status, p)) (\<lambda>r s. tracked d rows req r a (sv_async s))"
  "hoare (\<lambda>s. sv_async s = a) (fail e) (\<lambda>r s. tracked d rows req r a (sv_async s))"
  by (simp_all add: hoare_def prog_run tracked_def)

lemma hoare_call:
  assumes "keeps (\<lambda>s. sv_async s = a) m" "\<And>x. hoare (\<lambda>s. sv_async s = a) (k x) (\<lambda>r s. tracked d rows req r a (sv_async s))"
  shows "hoare (\<lambda>s. sv_async s = a) (bindE m k) (\<lambda>r s. tracked d rows req r a (sv_async s))"
  by (rule hoare_bindE_keeps [OF assms]) simp

lemma hoare_found:
  assumes "\<And>x. find (\<lambda>i. i_ID i = iid) rows = Some x \<Longrightarrow> hoare (\<lambda>s. sv_async s = a) (k x) (\<lambda>r s. tracked d rows req r a (sv_async s))"
  shows "hoare (\<lambda>s. sv_async s = a \<and> instances (db (sv_world s)) = rows) (bindE (store_Get iid) k) (\<lambda>r s. tracked d rows req r a (sv_async s))"
proof -
  have "hoare (\<lambda>s. sv_async s = a \<and> instances (db (sv_world s)) = rows) (store_Get iid)
      (\<lambda>r s. (case r of Inr x \<Rightarrow> find (\<lambda>i. i_ID i = iid) rows = Some x | Inl _ \<Rightarrow> True) \<and> sv_async s = a)"
    by (auto simp: hoare_def store_Get_def onW_def onD_def instance_Get_def queryOne_def stmt_def
        split: prod.splits sum.splits option.splits list.splits)
  then show ?thesis by (rule hoare_bindE) (use assms in \<open>auto simp: hoare_def\<close>)
qed

lemmas serve_rules = hoare_audited [where P = "\<lambda>x. x = _"] hoare_launch hoare_with_body hoare_answer hoare_call
  hoare_if keeps_onW keeps_store

lemma serve_launches:
  "(\<And>iid body. req \<noteq> CloneRequest iid body) \<Longrightarrow>
     hoare (\<lambda>s. sv_async s = a) (serve h d ctx req) (\<lambda>r s. tracked d rows req r a (sv_async s))"
proof (cases req)
  case (RestoreBackup iid body)
  then show ?thesis
    by (auto simp: backups_Restore_def restore_ok_def simp del: set_simps intro!: serve_rules)
qed (auto simp: instances_Create_def instances_List_def instances_Get_def instances_Visibility_def instances_Start_def
    instances_Stop_def instances_Restart_def lifecycle_def instances_Destroy_def instances_Connection_def clusters_Create_def
    clusters_List_def clusters_Get_def clusters_Destroy_def clusters_Connection_def backups_Create_def backups_Delete_def
    backups_Verify_def toInstancePayload_def toClusterPayload_def intro!: serve_rules)

lemma serve_tracked:
  "hoare (\<lambda>s. sv_async s = a \<and> instances (db (sv_world s)) = rows) (serve h d ctx req) (\<lambda>r s. tracked d rows req r a (sv_async s))"
proof (cases "\<exists>iid body. req = CloneRequest iid body")
  case True
  then show ?thesis
    by (auto simp: instances_Clone_def toInstancePayload_def intro!: hoare_found serve_rules)
next
  case False
  then show ?thesis by (intro hoare_pre [OF serve_launches]) auto
qed

section \<open>What a request leaves in the audit log\<close>

fun action_of :: "request \<Rightarrow> string option" where
  "action_of (CreateInstance _) = Some ''instance.create''"
| "action_of (SetInstanceVisibility _ _) = Some ''instance.visibility''"
| "action_of (CloneRequest _ _) = Some ''instance.clone''"
| "action_of (StartInstance _) = Some ''instance.start''"
| "action_of (StopInstance _) = Some ''instance.stop''"
| "action_of (RestartInstance _) = Some ''instance.restart''"
| "action_of (DestroyInstance _ _) = Some ''instance.destroy''"
| "action_of (CreateCluster _) = Some ''cluster.create''"
| "action_of (DestroyCluster _ _) = Some ''cluster.destroy''"
| "action_of (CreateBackup _ _) = Some ''backup.create''"
| "action_of (DeleteBackup _ _) = Some ''backup.delete''"
| "action_of (VerifyBackups _) = Some ''backup.verify''"
| "action_of (RestoreBackup _ _) = Some ''backup.restore''"
| "action_of _ = None"

definition actor_of :: "Claims option \<Rightarrow> string" where
  "actor_of ctx = (case ctx of Some c \<Rightarrow> if cl_Email c \<noteq> [] then cl_Email c else ''system'' | None \<Rightarrow> ''system'')"

text \<open>The next entry can be written: a recorder is attached, its statement does not fail and the generated
  id is new.\<close>

definition can_audit :: "'e api \<Rightarrow> Claims option \<Rightarrow> unit accounts \<Rightarrow> bool" where
  "can_audit h ctx A \<longleftrightarrow> ap_audit h \<and> TrimSpace (actor_of ctx) \<noteq> [] \<and> ac_faults A = [] \<and>
     ac_uuids A (ac_next A) \<notin> en_ID ` set (audit_log A)"

definition logged_as :: "Claims option \<Rightarrow> string \<Rightarrow> unit accounts \<Rightarrow> unit accounts \<Rightarrow> bool" where
  "logged_as ctx action A A' \<longleftrightarrow>
     (\<exists>e. audit_log A' = audit_log A @ [e] \<and> en_Actor e = actor_of ctx \<and> en_Action e = action)"

definition audits :: "Claims option \<Rightarrow> request \<Rightarrow> goerr + 'a \<Rightarrow> unit accounts \<Rightarrow> unit accounts \<Rightarrow> bool" where
  "audits ctx req r A A' \<longleftrightarrow> (case action_of req of
       None \<Rightarrow> A' = A
     | Some action \<Rightarrow> (case r of
           Inr _ \<Rightarrow> logged_as ctx action A A'
         | Inl _ \<Rightarrow> A' = A \<or> (\<exists>iid label. req = DeleteBackup iid label) \<and> logged_as ctx action A A'))"

lemma recordAudit_logs:
  assumes "can_audit h ctx A" "TrimSpace action \<noteq> []"
  shows "logged_as ctx action A (snd (recordAudit (ap_audit h) ctx action target A))"
  using assms
  by (auto simp: recordAudit_def can_audit_def logged_as_def actor_of_def [symmetric] entry_of_def audit_Record_def
      Entry_Validate_def astmt_def prog_run Let_def)

lemma audits_call:
  assumes "keeps (\<lambda>s. sv_audit s = A) m" "\<And>x. hoare (\<lambda>s. sv_audit s = A) (k x) (\<lambda>r s. audits ctx req r A (sv_audit s))"
  shows "hoare (\<lambda>s. sv_audit s = A) (bindE m k) (\<lambda>r s. audits ctx req r A (sv_audit s))"
  by (rule hoare_bindE_keeps [OF assms]) (simp add: audits_def split: option.splits)

lemma audits_fail: "hoare (\<lambda>s. sv_audit s = A) (fail e) (\<lambda>r s. audits ctx req r A (sv_audit s))"
  by (simp add: hoare_def prog_run audits_def split: option.splits)

lemma audits_read: "action_of req = None \<Longrightarrow> hoare (\<lambda>s. sv_audit s = A) (ret x) (\<lambda>r s. audits ctx req r A (sv_audit s))"
  by (simp add: hoare_def prog_run audits_def)

lemma audits_body:
  "(\<And>x. hoare (\<lambda>s. sv_audit s = A) (k x) (\<lambda>r s. audits ctx req r A (sv_audit s))) \<Longrightarrow>
   hoare (\<lambda>s. sv_audit s = A) (with_body dec body k) (\<lambda>r s. audits ctx req r A (sv_audit s))"
  by (rule hoare_with_body) (simp_all add: audits_def split: option.splits)

lemma audits_keeps: "keeps (\<lambda>s. sv_audit s = A) (onW m)" "keeps (\<lambda>s. sv_audit s = A) (store_Get iid)"
  "keeps (\<lambda>s. sv_audit s = A) (store_Create h n)"
  by (simp_all add: keeps_def store_Get_def store_Create_def onW_def split: prod.splits)

lemma hoare_logged:
  assumes "can_audit h ctx A" "TrimSpace action \<noteq> []"
    and "\<And>A'. logged_as ctx action A A' \<Longrightarrow> hoare (\<lambda>s. sv_audit s = A') k Q"
  shows "hoare (\<lambda>s. sv_audit s = A) (audited h ctx action target k) Q"
proof -
  let ?A = "snd (recordAudit (ap_audit h) ctx action target A)"
  have "hoare (\<lambda>s. sv_audit s = A) (api_audit h ctx action target) (\<lambda>_ s. sv_audit s = ?A)"
    by (auto simp: hoare_def api_audit_def split: prod.splits)
  from hoare_ignoring [OF this assms(3) [OF recordAudit_logs [OF assms(1,2)]]] show ?thesis
    by (simp add: audited_def)
qed

lemma audits_done: "action_of req \<noteq> None \<Longrightarrow> logged_as ctx (the (action_of req)) A A' \<Longrightarrow>
    hoare (\<lambda>s. sv_audit s = A') (ret x) (\<lambda>r s. audits ctx req r A (sv_audit s))"
  by (auto simp: hoare_def prog_run audits_def)

lemma audits_launched: "action_of req \<noteq> None \<Longrightarrow> logged_as ctx (the (action_of req)) A A' \<Longrightarrow>
    hoare (\<lambda>s. sv_audit s = A') (ignoring (async_Go t) (ret x)) (\<lambda>r s. audits ctx req r A (sv_audit s))"
  by (auto simp: hoare_def prog_run audits_def async_Go_def)

lemma audits_deletion: "logged_as ctx ''backup.delete'' A A' \<Longrightarrow>
    hoare (\<lambda>s. sv_audit s = A') (bindE (onW m) (\<lambda>_. ret x)) (\<lambda>r s. audits ctx (DeleteBackup iid label) r A (sv_audit s))"
  by (auto simp: hoare_def prog_run audits_def onW_def split: prod.splits sum.splits)

text \<open>Every action has a dot, which is no space.\<close>

lemma dotted: "CHR ''.'' \<in> set s \<Longrightarrow> TrimSpace s \<noteq> []"
proof -
  have "\<not> (\<exists>r\<in>set space_runes. CHR ''.'' \<in> set r)" by code_simp
  with TrimSpace_chars [of "CHR ''.''" s] show "CHR ''.'' \<in> set s \<Longrightarrow> TrimSpace s \<noteq> []" by auto
qed

lemmas audit_rules = audits_call audits_fail audits_read audits_body audits_keeps hoare_if

lemma serve_audits:
  assumes "can_audit h ctx A"
  shows "hoare (\<lambda>s. sv_audit s = A) (serve h d ctx req) (\<lambda>r s. audits ctx req r A (sv_audit s))"
proof (cases req)
  case (DeleteBackup iid label)
  then show ?thesis
    by (auto simp: backups_Delete_def intro!: audit_rules hoare_logged [OF assms dotted] audits_deletion)
qed (simp_all only: serve.simps instances_Create_def instances_List_def instances_Get_def instances_Visibility_def
    instances_Start_def instances_Stop_def instances_Restart_def lifecycle_def instances_Destroy_def instances_Connection_def
    clusters_Create_def clusters_List_def clusters_Get_def clusters_Destroy_def clusters_Connection_def backups_Create_def
    backups_Verify_def instances_Clone_def backups_Restore_def,
   (intro audit_rules hoare_logged [OF assms dotted] audits_launched audits_done, simp_all)+)

text \<open>
  C15. Every request to the instance, cluster and backup handlers, whatever fails underneath: an error
  response launches no background work; an accepted one (202) launches exactly the task asked for, with the
  options its decoded body gives (the visibility flag, the type and options of a backup, the target and options of a restore)
  on the object named in the request or in the response, and every other response launches nothing. Provided that
  the audit log can be written, an accepted change leaves exactly one entry, with the acting
  user and the action; a read leaves none, and neither does a refused change, save the
  deletion of a backup, which is recorded when it is attempted. A failure to write the entry is ignored by the
  code and does not stop the request.
\<close>

theorem serve_contract:
  assumes "serve h d ctx req s = (r, s')"
  shows "tracked d (instances (db (sv_world s))) req r (sv_async s) (sv_async s') \<and>
    (can_audit h ctx (sv_audit s) \<longrightarrow> audits ctx req r (sv_audit s) (sv_audit s'))"
proof -
  have "tracked d (instances (db (sv_world s))) req r (sv_async s) (sv_async s')"
    using hoare_result [OF serve_tracked _ assms] by simp
  moreover have "audits ctx req r (sv_audit s) (sv_audit s')" if "can_audit h ctx (sv_audit s)"
    using hoare_result [OF serve_audits [OF that] _ assms] by simp
  ultimately show ?thesis by blast
qed

definition demo_api :: "fake_env api" where
  "demo_api = \<lparr>ap_prov = demo_provisioner, ap_svc = demo_service, ap_backup = demo_backup_service,
     ap_cloneBackup = True, ap_audit = True, ap_host = ''h''\<rparr>"

definition demo_server :: "fake_env server" where
  "demo_server = \<lparr>sv_world = demo_world,
     sv_audit = \<lparr>ac_env = (), ac_faults = [], ac_lower = id, ac_uuids = (\<lambda>n. replicate (Suc n) CHR ''u''),
       ac_next = 0, users = [], audit_log = []\<rparr>,
     sv_async = NewAsync\<rparr>"

definition demo_decoders :: decoders where
  "demo_decoders = \<lparr>d_instance = (\<lambda>_ _. Inl (Plain ''EOF'')), d_visibility = (\<lambda>_ _. Inl (Plain ''EOF'')),
     d_clone = (\<lambda>_ _. Inl (Plain ''EOF'')), d_cluster = (\<lambda>_ _. Inl (Plain ''EOF'')),
     d_backup = (\<lambda>_ _. Inl (Plain ''EOF'')), d_restore = (\<lambda>_ _. Inl (Plain ''EOF''))\<rparr>"

theorem serve_contract_witness:
  "as_starting (sv_async (snd (serve demo_api demo_decoders None (VerifyBackups ''i1'') demo_server))) = [VerifyRepo ''i1''] \<and>
   map en_Action (audit_log (sv_audit (snd (serve demo_api demo_decoders None (VerifyBackups ''i1'') demo_server)))) = [''backup.verify'']"
proof -
  let ?out = "serve demo_api demo_decoders None (VerifyBackups ''i1'') demo_server"
  note contract = serve_contract [OF prod.collapse [symmetric], where h = demo_api and d = demo_decoders and ctx = None and
      req = "VerifyBackups ''i1''" and s = demo_server]
  have "fst ?out = Inr (202, NoBody)"
    by (simp add: backups_Verify_def audited_def prog_run async_Go_def)
  moreover have "can_audit demo_api None (sv_audit demo_server)" by code_simp
  ultimately show ?thesis using contract
    by (auto simp: audits_def logged_as_def demo_server_def NewAsync_def Go_admit_def)
qed

section \<open>Background work settles the row\<close>

lemma SetStatus_settles:
  assumes "iid \<in> fst ` set R" "single R"
  shows "hoare (\<lambda>w. topo R C (db w)) (onD (instance_SetStatus iid st le))
    (\<lambda>r w. r = Inr () \<and> topo R C (db w) \<and> (\<forall>i\<in>set (instances (db w)). i_ID i = iid \<longrightarrow> i_Status i = st))"
proof (rule hoareI)
  fix w :: "'a world" assume t: "topo R C (db w)"
  let ?d = "(db w)\<lparr>instances := update_rows iid (\<lambda>i. i\<lparr>i_Status := st, i_LastError := le\<rparr>) (instances (db w))\<rparr>"
  have "roles ?d = roles (db w)" by (simp add: roles_def update_rows_def)
  then have "one_primary (instances ?d)" using t assms(2) unfolding one_primary_roles topo_def by simp
  then have run: "instance_SetStatus iid st le (db w) = (Inr (), ?d)"
    using t assms(1) by (simp add: instance_SetStatus_def instance_exec_def stmt_def topo_def ids_of_roles)
  moreover have "topo R C ?d" using keepsD [OF topo_setters(3) t, of iid st le] run by simp
  moreover have "\<forall>i\<in>set (instances ?d). i_ID i = iid \<longrightarrow> i_Status i = st"
    by (simp add: update_rows_def ball_Un)
  ultimately show "fst (onD (instance_SetStatus iid st le) w) = Inr () \<and> topo R C (db (snd (onD (instance_SetStatus iid st le) w))) \<and>
      (\<forall>i\<in>set (instances (db (snd (onD (instance_SetStatus iid st le) w)))). i_ID i = iid \<longrightarrow> i_Status i = st)"
    by (simp add: onD_def)
qed

definition settled :: "string \<Rightarrow> metadb \<Rightarrow> bool" where
  "settled iid d \<longleftrightarrow> iid \<in> ids_of d \<and> (\<forall>i\<in>set (instances d). i_ID i = iid \<longrightarrow> i_Status i \<in> {StatusRunning, StatusError})"

lemma record_outcome_settles:
  assumes "iid \<in> fst ` set R" "single R" "keeps (\<lambda>w. topo R C (db w)) body"
  shows "hoare (\<lambda>w. topo R C (db w)) (record_outcome iid body) (\<lambda>_ w. settled iid (db w))"
proof -
  have set: "hoare (\<lambda>w. topo R C (db w)) (onD (instance_SetStatus iid st le)) (\<lambda>_ w. settled iid (db w))"
    if "st \<in> {StatusRunning, StatusError}" for st le
    by (rule hoare_weaken [OF SetStatus_settles [OF assms(1,2)]]) (use that assms(1) in \<open>auto simp: settled_def ids_of_roles topo_def\<close>)
  show ?thesis unfolding record_outcome_def
  proof (rule hoare_attempt [OF assms(3) [unfolded keeps_hoare]])
    fix r :: "goerr + unit"
    show "hoare (\<lambda>w. topo R C (db w)) (case r of
        Inl e \<Rightarrow> ignoring (onD (instance_SetStatus iid StatusError (Error e))) (fail e)
      | Inr x \<Rightarrow> onD (instance_SetStatus iid StatusRunning [])) (\<lambda>_ w. settled iid (db w))"
      by (cases r) (auto intro!: set hoare_ignoring [OF set] hoare_fail)
  qed
qed

lemma topo_catalog [topo_rules]: "keeps (topo R C) (catalog_Upsert iid b)" "keeps (topo R C) (catalog_Prune iid ls)"
  unfolding catalog_Upsert_def catalog_Prune_def
  by (rule keeps_topo_stmt, simp add: topo_def roles_def prims_def)+

lemma topo_backup_Run: "keeps (\<lambda>w. topo R C (db w)) (backup_Run b iid ty)"
  unfolding backup_Run_def RunWith_def record_backup_def sync_def write_catalog_def Let_def
  by (auto intro!: keeps_rules topo_rules split: sum.split)

lemma topo_provision: "keeps (\<lambda>w. topo R C (db w)) (provision p iid)"
  unfolding provision_def provision_resources_def provision_run_def Let_def
  by (auto intro!: keeps_rules topo_rules)

lemma topo_clone: "keeps (\<lambda>w. topo R C (db w)) (clone_body p iid src)"
  unfolding clone_body_def clone_resources_def clone_run_def refreshPort_def runRestoreContainer_def Let_def
  by (auto intro!: keeps_rules topo_rules split: sum.split)

lemma hoare_ignored: "hoare P m (\<lambda>_. Q) \<Longrightarrow> hoare P (ignoring m (ret ())) (\<lambda>_. Q)"
  by (rule hoare_ignoring) (auto simp: hoare_def prog_run)

lemma clone_task_settles:
  assumes "iid \<in> fst ` set R" "single R"
  shows "hoare (\<lambda>w. topo R C (db w)) (clone_task h iid src) (\<lambda>_ w. settled iid (db w))"
proof -
  have clone: "hoare (\<lambda>w. topo R C (db w)) (ignoring (Clone (ap_prov h) iid src) (ret ())) (\<lambda>_ w. settled iid (db w))"
    unfolding Clone_def by (intro hoare_ignored record_outcome_settles assms topo_clone)
  have mark: "hoare (\<lambda>w. topo R C (db w)) (ignoring (MarkError iid reason) (ret ())) (\<lambda>_ w. settled iid (db w))" for reason
    unfolding MarkError_def
    by (rule hoare_ignored, rule hoare_weaken [OF SetStatus_settles [OF assms]])
      (use assms(1) in \<open>auto simp: settled_def ids_of_roles topo_def\<close>)
  show ?thesis unfolding clone_task_def
  proof (rule hoare_if [OF hoare_attempt [OF topo_backup_Run [unfolded keeps_hoare]] clone])
    fix r :: "goerr + unit"
    show "hoare (\<lambda>w. topo R C (db w)) (case r of
        Inl e \<Rightarrow> ignoring (MarkError iid (''clone aborted: source backup failed: '' @ Error e)) (ret ())
      | Inr x \<Rightarrow> ignoring (Clone (ap_prov h) iid src) (ret ())) (\<lambda>_ w. settled iid (db w))"
      by (cases r) (simp_all add: clone mark)
  qed
qed

text \<open>
  C24. A create or clone request that was accepted never stays in \<open>provisioning\<close>: on a well-formed
  database whose statements succeed, once the background task has run, the row of the new
  instance is \<open>running\<close> or \<open>error\<close>, whatever the container runtime did, and also when the fresh
  backup of a clone's source failed.
\<close>

theorem provisioning_settles:
  assumes "db_wf (db w)" "faults (db w) = []" "iid \<in> i_ID ` set (instances (db w))"
    and "t = ProvisionInstance iid \<or> t = CloneInstance iid src"
  shows "\<exists>i\<in>set (instances (db (snd (run_task h t w)))). i_ID i = iid \<and> i_Status i \<in> {StatusRunning, StatusError}"
proof -
  let ?R = "roles (db w)" and ?C = "prims (db w)"
  have R: "topo ?R ?C (db w)" "iid \<in> fst ` set ?R" "single ?R"
    using assms(1-3) by (simp_all add: topo_def one_primary_roles [symmetric] db_wf_def ids_of_roles [symmetric] ids_of_def)
  have prov: "hoare (\<lambda>w. topo ?R ?C (db w)) (ignoring (Provision (ap_prov h) iid) (ret ())) (\<lambda>_ w. settled iid (db w))"
    unfolding Provision_def by (intro hoare_ignored record_outcome_settles R topo_provision)
  have "settled iid (db (snd (run_task h t w)))"
    using assms(4) hoareD [OF prov R(1)] hoareD [OF clone_task_settles [OF R(2,3)] R(1)] by (auto simp: run_task_def)
  then show ?thesis by (auto simp: settled_def ids_of_def)
qed

theorem provisioning_settles_witness:
  "\<exists>i\<in>set (instances (db (snd (run_task demo_api (ProvisionInstance ''i1'') demo_world)))).
     i_ID i = ''i1'' \<and> i_Status i \<in> {StatusRunning, StatusError}"
proof (rule provisioning_settles)
  show "db_wf (db demo_world)" by code_simp
  show "faults (db demo_world) = []" by code_simp
  show "''i1'' \<in> i_ID ` set (instances (db demo_world))" by code_simp
qed simp

text \<open>
  The premise on the statements matters. The deadline of the task's context also governs the
  statement that records the failure: when the context has expired, every further statement fails,
  the status is never written and the row stays in \<open>provisioning\<close>.
\<close>

definition demo_expired_world :: "fake_env world" where
  "demo_expired_world = demo_world\<lparr>db := demo_db\<lparr>faults := [False, True, True]\<rparr>\<rparr>"

lemma expired_context_strands_row:
  "isl (fst (Provision demo_provisioner ''i1'' demo_expired_world)) \<and>
   map i_Status (instances (db (snd (run_task demo_api (ProvisionInstance ''i1'') demo_expired_world)))) = [StatusProvisioning]"
proof -
  have fails: "\<exists>e. provision demo_provisioner ''i1'' demo_expired_world =
      (Inl e, demo_expired_world\<lparr>db := demo_db\<lparr>faults := [True]\<rparr>\<rparr>)"
    by (simp add: provision_def demo_expired_world_def demo_world_def demo_db_def demo_provisioner_def fake_provisioner_def
        demo_opts_def demo_instance_def prog_run onD_def instance_Get_def queryOne_def stmt_def instance_Password_def Let_def)
  show ?thesis
    using fails
    by (auto simp: Provision_def record_outcome_def run_task_def demo_api_def prog_run onD_def instance_SetStatus_def
        instance_exec_def stmt_def demo_expired_world_def demo_world_def demo_db_def demo_instance_def)
qed

end
