(* ===== verification/Hub.thy ===== *)
theory Hub
  imports Prelude "HOL-Library.Sublist"
begin

text \<open>
  The event hub, \<^verbatim>\<open>internal/ws/hub.go\<close>: it fans progress events out to the WebSocket
  subscribers, and drops events for a subscriber that is slow instead of blocking.

  The state holds every channel ever made by \<^verbatim>\<open>Subscribe\<close>, known by its position: its
  buffer, whether the map of subscribers still lists it, whether it is closed and whether its
  \<^verbatim>\<open>sync.Once\<close> has run. \<open>ch_got\<close> is what the subscriber received; \<open>ch_sent\<close> and
  \<open>ch_dropped\<close> only observe: the events published while it was listed, and how many of them
  found the buffer full. A critical section is one step; the close of a channel comes after the
  critical section that removes it. A send on a closed channel and a second close are Go panics.
\<close>

record hub_event =
  he_InstanceID :: string
  he_Step :: string
  he_Detail :: string

definition subBuffer :: nat where
  "subBuffer = 64"

record chan =
  ch_buf :: "hub_event list"
  ch_listed :: bool
  ch_once :: bool
  ch_closed :: bool
  ch_got :: "hub_event list"
  ch_sent :: "hub_event list"
  ch_dropped :: nat

record hub =
  hb_chans :: "chan list"
  hb_panic :: bool

definition NewHub :: hub where
  "NewHub = \<lparr>hb_chans = [], hb_panic = False\<rparr>"

definition Subscribe :: "hub \<Rightarrow> hub" where
  "Subscribe h = h\<lparr>hb_chans := hb_chans h @ [\<lparr>ch_buf = [], ch_listed = True, ch_once = False, ch_closed = False,
     ch_got = [], ch_sent = [], ch_dropped = 0\<rparr>]\<rparr>"

text \<open>One round of the loop of \<open>Publish\<close>: a send when the buffer has room, the default case otherwise.\<close>

definition offer :: "hub_event \<Rightarrow> chan \<Rightarrow> chan" where
  "offer ev c =
     (if \<not> ch_listed c then c
      else if length (ch_buf c) < subBuffer then c\<lparr>ch_buf := ch_buf c @ [ev], ch_sent := ch_sent c @ [ev]\<rparr>
      else c\<lparr>ch_sent := ch_sent c @ [ev], ch_dropped := Suc (ch_dropped c)\<rparr>)"

definition Publish :: "string \<Rightarrow> string \<Rightarrow> string \<Rightarrow> hub \<Rightarrow> hub" where
  "Publish instanceID st detail h =
     (let ev = \<lparr>he_InstanceID = instanceID, he_Step = st, he_Detail = detail\<rparr> in
      h\<lparr>hb_chans := map (offer ev) (hb_chans h),
        hb_panic := hb_panic h \<or> (\<exists>c\<in>set (hb_chans h). ch_listed c \<and> ch_closed c)\<rparr>)"

text \<open>The unsubscribe function: the first call removes the channel, then closes it; others do nothing.\<close>

definition cancel_begin :: "nat \<Rightarrow> hub \<Rightarrow> hub" where
  "cancel_begin i h =
     (let c = hb_chans h ! i in
      if ch_once c then h else h\<lparr>hb_chans := (hb_chans h)[i := c\<lparr>ch_once := True, ch_listed := False\<rparr>]\<rparr>)"

definition cancel_close :: "nat \<Rightarrow> hub \<Rightarrow> hub" where
  "cancel_close i h =
     (let c = hb_chans h ! i in
      h\<lparr>hb_chans := (hb_chans h)[i := c\<lparr>ch_closed := True\<rparr>], hb_panic := hb_panic h \<or> ch_closed c\<rparr>)"

definition hub_receive :: "nat \<Rightarrow> hub \<Rightarrow> hub" where
  "hub_receive i h =
     (let c = hb_chans h ! i in
      h\<lparr>hb_chans := (hb_chans h)[i := c\<lparr>ch_buf := tl (ch_buf c), ch_got := ch_got c @ [hd (ch_buf c)]\<rparr>]\<rparr>)"

text \<open>\<open>hr_closing\<close> are the unsubscribe calls between their two parts.\<close>

record hub_run =
  hr_hub :: hub
  hr_closing :: "nat list"

inductive hub_step :: "hub_run \<Rightarrow> hub_run \<Rightarrow> bool" where
  subscribe: "hub_step r (r\<lparr>hr_hub := Subscribe (hr_hub r)\<rparr>)"
| publish: "hub_step r (r\<lparr>hr_hub := Publish iid st detail (hr_hub r)\<rparr>)"
| receive: "i < length (hb_chans (hr_hub r)) \<Longrightarrow> ch_buf (hb_chans (hr_hub r) ! i) \<noteq> [] \<Longrightarrow>
    hub_step r (r\<lparr>hr_hub := hub_receive i (hr_hub r)\<rparr>)"
| cancel: "i < length (hb_chans (hr_hub r)) \<Longrightarrow>
    hub_step r (r\<lparr>hr_hub := cancel_begin i (hr_hub r),
      hr_closing := if ch_once (hb_chans (hr_hub r) ! i) then hr_closing r else i # hr_closing r\<rparr>)"
| close: "hr_closing r = xs @ i # ys \<Longrightarrow>
    hub_step r (r\<lparr>hr_hub := cancel_close i (hr_hub r), hr_closing := xs @ ys\<rparr>)"

inductive hub_reachable :: "hub_run \<Rightarrow> bool" where
  init: "hub_reachable \<lparr>hr_hub = NewHub, hr_closing = []\<rparr>"
| step: "hub_reachable r \<Longrightarrow> hub_step r r' \<Longrightarrow> hub_reachable r'"

section \<open>What a subscriber sees\<close>

text \<open>What holds of one channel: it received, or has buffered, a subsequence of what was published
  while it was listed, and the count of what it missed is exact.\<close>

definition chan_ok :: "chan \<Rightarrow> bool" where
  "chan_ok c \<longleftrightarrow> subseq (ch_got c @ ch_buf c) (ch_sent c) \<and> length (ch_buf c) \<le> subBuffer \<and>
     length (ch_sent c) = length (ch_got c @ ch_buf c) + ch_dropped c \<and>
     (ch_dropped c \<noteq> 0 \<longrightarrow> subBuffer < length (ch_sent c)) \<and>
     (ch_once c \<longleftrightarrow> \<not> ch_listed c) \<and> (ch_closed c \<longrightarrow> ch_once c)"

definition hub_inv :: "hub_run \<Rightarrow> bool" where
  "hub_inv r \<longleftrightarrow> \<not> hb_panic (hr_hub r) \<and> (\<forall>c\<in>set (hb_chans (hr_hub r)). chan_ok c) \<and> distinct (hr_closing r) \<and>
     (\<forall>i\<in>set (hr_closing r). i < length (hb_chans (hr_hub r)) \<and>
        ch_once (hb_chans (hr_hub r) ! i) \<and> \<not> ch_closed (hb_chans (hr_hub r) ! i))"

lemma chan_ok_offer: "chan_ok c \<Longrightarrow> chan_ok (offer ev c)"
  using list_emb_append_mono [of "(=)" "ch_got c @ ch_buf c" "ch_sent c" "[ev]" "[ev]"]
  by (auto simp: chan_ok_def offer_def intro: list_emb_append2)

lemma chan_ok_nth: "hub_inv r \<Longrightarrow> i < length (hb_chans (hr_hub r)) \<Longrightarrow> chan_ok (hb_chans (hr_hub r) ! i)"
  by (simp add: hub_inv_def)

lemma offer_flags [simp]: "ch_once (offer ev c) = ch_once c" "ch_closed (offer ev c) = ch_closed c"
  by (simp_all add: offer_def)

lemma hub_inv_publish: "hub_inv r \<Longrightarrow> hub_inv (r\<lparr>hr_hub := Publish iid st detail (hr_hub r)\<rparr>)"
  by (auto simp: hub_inv_def Publish_def Let_def intro: chan_ok_offer) (auto simp: chan_ok_def)

lemma hub_inv_receive:
  assumes "hub_inv r" "i < length (hb_chans (hr_hub r))" "ch_buf (hb_chans (hr_hub r) ! i) \<noteq> []"
  shows "hub_inv (r\<lparr>hr_hub := hub_receive i (hr_hub r)\<rparr>)"
proof -
  let ?c = "hb_chans (hr_hub r) ! i"
  have "chan_ok (?c\<lparr>ch_buf := tl (ch_buf ?c), ch_got := ch_got ?c @ [hd (ch_buf ?c)]\<rparr>)"
    using chan_ok_nth [OF assms(1,2)] assms(3) by (cases "ch_buf ?c") (auto simp: chan_ok_def)
  with assms show ?thesis
    by (auto simp: hub_inv_def hub_receive_def Let_def nth_list_update dest!: set_update_subset_insert [THEN subsetD])
qed

lemma hub_inv_cancel:
  assumes "hub_inv r" "i < length (hb_chans (hr_hub r))"
  shows "hub_inv (r\<lparr>hr_hub := cancel_begin i (hr_hub r),
      hr_closing := if ch_once (hb_chans (hr_hub r) ! i) then hr_closing r else i # hr_closing r\<rparr>)"
proof -
  let ?c = "hb_chans (hr_hub r) ! i"
  have "chan_ok (?c\<lparr>ch_once := True, ch_listed := False\<rparr>)" "\<not> ch_once ?c \<Longrightarrow> \<not> ch_closed ?c"
    using chan_ok_nth [OF assms] by (auto simp: chan_ok_def)
  with assms show ?thesis
    by (auto simp: hub_inv_def cancel_begin_def Let_def nth_list_update dest!: set_update_subset_insert [THEN subsetD])
qed

lemma hub_inv_close:
  assumes "hub_inv r" "hr_closing r = xs @ i # ys"
  shows "hub_inv (r\<lparr>hr_hub := cancel_close i (hr_hub r), hr_closing := xs @ ys\<rparr>)"
proof -
  let ?c = "hb_chans (hr_hub r) ! i"
  have i: "i < length (hb_chans (hr_hub r))" "ch_once ?c" "\<not> ch_closed ?c"
    using assms by (auto simp: hub_inv_def)
  with chan_ok_nth [OF assms(1) i(1)] have "chan_ok (?c\<lparr>ch_closed := True\<rparr>)" by (auto simp: chan_ok_def)
  with assms i show ?thesis
    by (auto simp: hub_inv_def cancel_close_def Let_def nth_list_update dest!: set_update_subset_insert [THEN subsetD])
qed

lemma hub_inv_step: "hub_step r r' \<Longrightarrow> hub_inv r \<Longrightarrow> hub_inv r'"
proof (induction rule: hub_step.induct)
  case (subscribe r)
  thus ?case by (auto simp: hub_inv_def Subscribe_def chan_ok_def nth_append)
next
  case (cancel i r)
  thus ?case by (intro hub_inv_cancel)
qed (auto intro: hub_inv_publish hub_inv_receive hub_inv_close)

lemma hub_reachable_inv: "hub_reachable r \<Longrightarrow> hub_inv r"
proof (induction rule: hub_reachable.induct)
  case init
  show ?case by (simp add: hub_inv_def NewHub_def)
qed (rule hub_inv_step)

text \<open>
  C30. However publishers, subscribers and unsubscribers interleave, the hub never panics (no send
  on a closed channel, no channel closed twice); a subscriber receives, in order, a subsequence of
  the events published while it was subscribed and holds at most 64 undelivered ones; what it
  received and holds is all of them, unless more than 64 were published, and then the number
  missing is the number that found its buffer full.
\<close>

theorem hub_delivery:
  assumes "hub_reachable r" "c \<in> set (hb_chans (hr_hub r))"
  shows "\<not> hb_panic (hr_hub r) \<and> subseq (ch_got c @ ch_buf c) (ch_sent c) \<and> length (ch_buf c) \<le> 64 \<and>
    length (ch_sent c) = length (ch_got c @ ch_buf c) + ch_dropped c \<and>
    (length (ch_sent c) \<le> 64 \<longrightarrow> ch_got c @ ch_buf c = ch_sent c)"
proof -
  have "chan_ok c" "\<not> hb_panic (hr_hub r)"
    using hub_reachable_inv [OF assms(1)] assms(2) by (simp_all add: hub_inv_def)
  thus ?thesis by (auto simp: chan_ok_def subBuffer_def intro!: subseq_same_length)
qed

definition demo_hub :: hub where
  "demo_hub = hub_receive 0 (Publish ''i2'' ''ready'' [] (Publish ''i1'' ''pull'' [] (Subscribe NewHub)))"

theorem hub_delivery_witness:
  "map he_Step (ch_got (hb_chans demo_hub ! 0) @ ch_buf (hb_chans demo_hub ! 0)) = [''pull'', ''ready'']"
proof -
  let ?r = "\<lparr>hr_hub = NewHub, hr_closing = []\<rparr>"
  let ?r1 = "?r\<lparr>hr_hub := Subscribe (hr_hub ?r)\<rparr>"
  let ?r2 = "?r1\<lparr>hr_hub := Publish ''i1'' ''pull'' [] (hr_hub ?r1)\<rparr>"
  let ?r3 = "?r2\<lparr>hr_hub := Publish ''i2'' ''ready'' [] (hr_hub ?r2)\<rparr>"
  have "hub_reachable ?r3" by (intro hub_reachable.step [OF _ publish] hub_reachable.step [OF _ subscribe] init)
  moreover have "hub_step ?r3 (?r3\<lparr>hr_hub := hub_receive 0 (hr_hub ?r3)\<rparr>)"
    by (rule receive) code_simp+
  ultimately have reach: "hub_reachable (?r3\<lparr>hr_hub := hub_receive 0 (hr_hub ?r3)\<rparr>)" by (rule hub_reachable.step)
  have hub: "hr_hub (?r3\<lparr>hr_hub := hub_receive 0 (hr_hub ?r3)\<rparr>) = demo_hub" by (simp add: demo_hub_def)
  have "hb_chans demo_hub ! 0 \<in> set (hb_chans demo_hub)" by code_simp
  from hub_delivery [OF reach, unfolded hub, OF this]
  have "length (ch_sent (hb_chans demo_hub ! 0)) \<le> 64 \<longrightarrow>
      ch_got (hb_chans demo_hub ! 0) @ ch_buf (hb_chans demo_hub ! 0) = ch_sent (hb_chans demo_hub ! 0)" by blast
  moreover have "length (ch_sent (hb_chans demo_hub ! 0)) \<le> 64" by code_simp
  moreover have "map he_Step (ch_sent (hb_chans demo_hub ! 0)) = [''pull'', ''ready'']" by code_simp
  ultimately show ?thesis by simp
qed

end
