(* ===== verification/Timescale.thy ===== *)
theory Timescale
  imports Apperr
begin

text \<open>
  Package \<^verbatim>\<open>internal/timescale\<close>: the validation of names and intervals
  (\<^verbatim>\<open>validate.go\<close>), the statements built from them (\<^verbatim>\<open>sql.go\<close>) and the operations that run
  them on a connection given as a parameter (\<^verbatim>\<open>service.go\<close>). The two listings of
  \<^verbatim>\<open>service.go\<close> run a fixed query and copy its rows; they are left out.
\<close>

section \<open>Validation (validate.go)\<close>

definition maxIdentLen :: nat where "maxIdentLen = 63"

definition isLetter :: "char \<Rightarrow> bool" where
  "isLetter c \<longleftrightarrow> is_lower c \<or> is_upper c \<or> c = CHR ''_''"

definition ValidateIdent :: "string \<Rightarrow> goerr option" where
  "ValidateIdent name =
     (if name = [] then Some (New KindInvalid ''timescale: empty identifier'')
      else if length name > maxIdentLen then Some (New KindInvalid (''timescale: identifier too long (max 63): '' @ name))
      else if \<not> isLetter (hd name) \<or> \<not> list_all (\<lambda>c. isLetter c \<or> is_digit c) (tl name) then
        Some (New KindInvalid (''timescale: invalid identifier: '' @ name))
      else None)"

definition ValidateQualifiedName :: "string \<Rightarrow> goerr option" where
  "ValidateQualifiedName name =
     (let parts = Split name (CHR ''.''); e = New KindInvalid (''timescale: invalid qualified name: '' @ name) in
      if length parts > 2 then Some e
      else if list_ex (\<lambda>p. ValidateIdent p \<noteq> None) parts then Some e
      else None)"

definition ValidateIdentList :: "string \<Rightarrow> goerr option" where
  "ValidateIdentList xs =
     (if list_ex (\<lambda>p. ValidateIdent (TrimSpace p) \<noteq> None) (Split xs (CHR '','')) then
        Some (New KindInvalid (''timescale: invalid column list: '' @ xs))
      else None)"

definition ValidateInterval :: "string \<Rightarrow> goerr option" where
  "ValidateInterval iv =
     (if TrimSpace iv = [] then Some (New KindInvalid ''timescale: empty interval'')
      else if \<not> list_all (\<lambda>c. is_lower c \<or> is_upper c \<or> is_digit c \<or> c = CHR '' '') iv then
        Some (New KindInvalid (''timescale: invalid interval: '' @ iv))
      else None)"

section \<open>Statements (sql.go)\<close>

definition checked :: "goerr option \<Rightarrow> goerr + 'a \<Rightarrow> goerr + 'a" where
  "checked err k = (case err of Some e \<Rightarrow> Inl e | None \<Rightarrow> k)"

definition quoted :: "string \<Rightarrow> string" where
  "quoted s = [squote] @ s @ [squote]"

definition CreateHypertableSQL :: "string \<Rightarrow> string \<Rightarrow> goerr + string" where
  "CreateHypertableSQL table timeColumn =
     checked (ValidateQualifiedName table) (
     checked (ValidateIdent timeColumn) (
     Inr (''SELECT create_hypertable('' @ quoted table @ '', by_range('' @ quoted timeColumn @ ''))'')))"

definition AddRetentionPolicySQL :: "string \<Rightarrow> string \<Rightarrow> goerr + string" where
  "AddRetentionPolicySQL hypertable dropAfter =
     checked (ValidateQualifiedName hypertable) (
     checked (ValidateInterval dropAfter) (
     Inr (''SELECT add_retention_policy('' @ quoted hypertable @ '', INTERVAL '' @ quoted dropAfter @ '')'')))"

definition RemoveRetentionPolicySQL :: "string \<Rightarrow> goerr + string" where
  "RemoveRetentionPolicySQL hypertable =
     checked (ValidateQualifiedName hypertable) (
     Inr (''SELECT remove_retention_policy('' @ quoted hypertable @ '')''))"

definition EnableCompressionSQL :: "string \<Rightarrow> string \<Rightarrow> string \<Rightarrow> goerr + string" where
  "EnableCompressionSQL hypertable segmentBy orderBy =
     checked (ValidateQualifiedName hypertable) (
     checked (if segmentBy \<noteq> [] then ValidateIdentList segmentBy else None) (
     checked (if orderBy \<noteq> [] then ValidateIdentList orderBy else None) (
     let clauses = [''timescaledb.compress''] @
       (if segmentBy \<noteq> [] then [''timescaledb.compress_segmentby='' @ quoted segmentBy] else []) @
       (if orderBy \<noteq> [] then [''timescaledb.compress_orderby='' @ quoted orderBy] else [])
     in Inr (''ALTER TABLE '' @ hypertable @ '' SET ('' @ Join clauses '', '' @ '')''))))"

definition AddCompressionPolicySQL :: "string \<Rightarrow> string \<Rightarrow> goerr + string" where
  "AddCompressionPolicySQL hypertable compressAfter =
     checked (ValidateQualifiedName hypertable) (
     checked (ValidateInterval compressAfter) (
     Inr (''SELECT add_compression_policy('' @ quoted hypertable @ '', INTERVAL '' @ quoted compressAfter @ '')'')))"

definition RemoveCompressionPolicySQL :: "string \<Rightarrow> goerr + string" where
  "RemoveCompressionPolicySQL hypertable =
     checked (ValidateQualifiedName hypertable) (
     Inr (''SELECT remove_compression_policy('' @ quoted hypertable @ '')''))"

definition CreateContinuousAggregateSQL :: "string \<Rightarrow> string \<Rightarrow> goerr + string" where
  "CreateContinuousAggregateSQL name query =
     checked (ValidateIdent name) (
     let q = TrimSpace query in
     if q = [] then Inl (New KindInvalid ''timescale: empty continuous aggregate query'')
     else if Contains query '';'' then
       Inl (New KindInvalid (''timescale: continuous aggregate query must not contain '' @ quoted '';''))
     else Inr (''CREATE MATERIALIZED VIEW '' @ name @ '' WITH (timescaledb.continuous) AS '' @ q @ '' WITH NO DATA''))"

definition AddContinuousAggregatePolicySQL :: "string \<Rightarrow> string \<Rightarrow> string \<Rightarrow> string \<Rightarrow> goerr + string" where
  "AddContinuousAggregatePolicySQL name startOffset endOffset scheduleInterval =
     checked (ValidateIdent name) (
     checked (ValidateInterval startOffset) (
     checked (ValidateInterval endOffset) (
     checked (ValidateInterval scheduleInterval) (
     Inr (''SELECT add_continuous_aggregate_policy('' @ quoted name @ '', '' @
       ''start_offset => INTERVAL '' @ quoted startOffset @ '', '' @
       ''end_offset => INTERVAL '' @ quoted endOffset @ '', '' @
       ''schedule_interval => INTERVAL '' @ quoted scheduleInterval @ '')'')))))"

section \<open>Operations (service.go)\<close>

text \<open>A connection is its \<open>Exec\<close>.\<close>

type_synonym 'e conn = "string \<Rightarrow> ('e, unit) gofun"

definition ts_exec :: "'e conn \<Rightarrow> string \<Rightarrow> goerr + string \<Rightarrow> ('e, unit) gofun" where
  "ts_exec conn op built =
     (case built of
        Inl buildErr \<Rightarrow> fail buildErr
      | Inr sql \<Rightarrow> attempt (conn sql) (\<lambda>r. case r of
            Inl err \<Rightarrow> fail (Wrap KindInternal (''timescale: '' @ op) err)
          | Inr _ \<Rightarrow> ret ()))"

datatype operation =
    CreateHypertable string string
  | AddRetentionPolicy string string
  | RemoveRetentionPolicy string
  | EnableCompression string string string
  | AddCompressionPolicy string string
  | RemoveCompressionPolicy string
  | CreateContinuousAggregate string string
  | AddContinuousAggregatePolicy string string string string

fun ts_sql :: "operation \<Rightarrow> goerr + string" where
  "ts_sql (CreateHypertable t c) = CreateHypertableSQL t c"
| "ts_sql (AddRetentionPolicy h d) = AddRetentionPolicySQL h d"
| "ts_sql (RemoveRetentionPolicy h) = RemoveRetentionPolicySQL h"
| "ts_sql (EnableCompression h s ob) = EnableCompressionSQL h s ob"
| "ts_sql (AddCompressionPolicy h c) = AddCompressionPolicySQL h c"
| "ts_sql (RemoveCompressionPolicy h) = RemoveCompressionPolicySQL h"
| "ts_sql (CreateContinuousAggregate n q) = CreateContinuousAggregateSQL n q"
| "ts_sql (AddContinuousAggregatePolicy n s e i) = AddContinuousAggregatePolicySQL n s e i"

fun ts_name :: "operation \<Rightarrow> string" where
  "ts_name (CreateHypertable _ _) = ''create_hypertable''"
| "ts_name (AddRetentionPolicy _ _) = ''add_retention_policy''"
| "ts_name (RemoveRetentionPolicy _) = ''remove_retention_policy''"
| "ts_name (EnableCompression _ _ _) = ''enable_compression''"
| "ts_name (AddCompressionPolicy _ _) = ''add_compression_policy''"
| "ts_name (RemoveCompressionPolicy _) = ''remove_compression_policy''"
| "ts_name (CreateContinuousAggregate _ _) = ''create_continuous_aggregate''"
| "ts_name (AddContinuousAggregatePolicy _ _ _ _) = ''add_continuous_aggregate_policy''"

definition ts_run :: "'e conn \<Rightarrow> operation \<Rightarrow> ('e, unit) gofun" where
  "ts_run conn op = ts_exec conn (ts_name op) (ts_sql op)"

section \<open>How PostgreSQL reads a statement\<close>

text \<open>
  The text outside string literals, with every literal shown as a lone quote, and the values of the
  literals; a doubled quote inside a literal stands for one. A literal that is never
  closed is reported as \<open>None\<close>.
\<close>

fun sql_scan :: "string option \<Rightarrow> string \<Rightarrow> (string \<times> string list) option" where
  "sql_scan None [] = Some ([], [])"
| "sql_scan None (c # cs) =
     (if c = squote then sql_scan (Some []) cs
      else map_option (\<lambda>(out, lits). (c # out, lits)) (sql_scan None cs))"
| "sql_scan (Some acc) [] = None"
| "sql_scan (Some acc) (c # cs) =
     (if c = squote then
        (case cs of
           d # ds \<Rightarrow> if d = squote then sql_scan (Some (acc @ [d])) ds
                      else map_option (\<lambda>(out, lits). (squote # out, acc # lits)) (sql_scan None cs)
         | [] \<Rightarrow> Some ([squote], [acc]))
      else sql_scan (Some (acc @ [c])) cs)"

text \<open>What each operation is meant to send: the fixed text with a hole per literal, and the literals. An
  aggregate's query is the caller's own SQL.\<close>

fun ts_shape :: "operation \<Rightarrow> (string \<times> string list) option" where
  "ts_shape (CreateHypertable t c) = Some (''SELECT create_hypertable('' @ [squote] @ '', by_range('' @ [squote] @ ''))'', [t, c])"
| "ts_shape (AddRetentionPolicy h d) = Some (''SELECT add_retention_policy('' @ [squote] @ '', INTERVAL '' @ [squote] @ '')'', [h, d])"
| "ts_shape (RemoveRetentionPolicy h) = Some (''SELECT remove_retention_policy('' @ [squote] @ '')'', [h])"
| "ts_shape (EnableCompression h s ob) = Some (''ALTER TABLE '' @ h @ '' SET (timescaledb.compress'' @
     (if s \<noteq> [] then '', timescaledb.compress_segmentby='' @ [squote] else []) @
     (if ob \<noteq> [] then '', timescaledb.compress_orderby='' @ [squote] else []) @ '')'',
     (if s \<noteq> [] then [s] else []) @ (if ob \<noteq> [] then [ob] else []))"
| "ts_shape (AddCompressionPolicy h c) = Some (''SELECT add_compression_policy('' @ [squote] @ '', INTERVAL '' @ [squote] @ '')'', [h, c])"
| "ts_shape (RemoveCompressionPolicy h) = Some (''SELECT remove_compression_policy('' @ [squote] @ '')'', [h])"
| "ts_shape (CreateContinuousAggregate n q) = None"
| "ts_shape (AddContinuousAggregatePolicy n s e i) = Some (''SELECT add_continuous_aggregate_policy('' @ [squote] @
     '', start_offset => INTERVAL '' @ [squote] @ '', end_offset => INTERVAL '' @ [squote] @
     '', schedule_interval => INTERVAL '' @ [squote] @ '')'', [n, s, e, i])"

section \<open>No value escapes its literal\<close>

definition harmless :: "string \<Rightarrow> bool" where
  "harmless s \<longleftrightarrow> squote \<notin> set s \<and> CHR '';'' \<notin> set s"

lemma space_runes_harmless: "list_all harmless space_runes"
  by code_simp

lemma TrimSpace_harmless: "harmless (TrimSpace s) \<Longrightarrow> harmless s"
  using TrimSpace_chars [of squote s] TrimSpace_chars [of "CHR '';''" s] space_runes_harmless
  by (auto simp: harmless_def list_all_iff)

lemma letters_harmless: "list_all (\<lambda>c. isLetter c \<or> is_digit c \<or> c = CHR '' '') s \<Longrightarrow> harmless s"
  by (induction s) (auto simp: harmless_def isLetter_def is_lower_def is_upper_def is_digit_def byte_val_def)

lemma ident_harmless: "ValidateIdent name = None \<Longrightarrow> harmless name"
  by (cases name) (auto simp: ValidateIdent_def list_all_iff split: if_splits intro!: letters_harmless)

lemma parts_harmless:
  assumes "\<And>p. p \<in> set (Split s c) \<Longrightarrow> harmless p" "c \<noteq> squote" "c \<noteq> CHR '';''"
  shows "harmless s"
proof -
  have "x \<in> set s \<Longrightarrow> x = c \<or> (\<exists>p\<in>set (Split s c). x \<in> set p)" for x
    using set_Split [of s c] by auto
  with assms show ?thesis unfolding harmless_def by blast
qed

lemma qualified_harmless: "ValidateQualifiedName name = None \<Longrightarrow> harmless name"
  by (rule parts_harmless [of name "CHR ''.''"])
    (auto simp: ValidateQualifiedName_def Let_def list_ex_iff split: if_splits dest: ident_harmless)

lemma ident_list_harmless: "ValidateIdentList xs = None \<Longrightarrow> harmless xs"
  by (rule parts_harmless [of xs "CHR '',''"])
    (auto simp: ValidateIdentList_def list_ex_iff split: if_splits dest: ident_harmless intro: TrimSpace_harmless)

lemma interval_harmless: "ValidateInterval iv = None \<Longrightarrow> harmless iv"
  by (rule letters_harmless) (auto simp: ValidateInterval_def list_all_iff isLetter_def split: if_splits)

lemmas validated_harmless = qualified_harmless ident_harmless ident_list_harmless interval_harmless

lemma scan_out: "squote \<notin> set a \<Longrightarrow>
    sql_scan None (a @ s) = map_option (\<lambda>(out, lits). (a @ out, lits)) (sql_scan None s)"
  by (induction a) (auto simp: option.map_comp comp_def case_prod_unfold option.map_ident)

lemma scan_literal: "squote \<notin> set a \<Longrightarrow> s = [] \<or> hd s \<noteq> squote \<Longrightarrow>
    sql_scan (Some acc) (a @ squote # s) = map_option (\<lambda>(out, lits). (squote # out, (acc @ a) # lits)) (sql_scan None s)"
proof (induction a arbitrary: acc)
  case Nil then show ?case by (cases s) auto
qed auto

lemma scan_quoted: "harmless a \<Longrightarrow> s = [] \<or> hd s \<noteq> squote \<Longrightarrow>
    sql_scan None (quoted a @ s) = map_option (\<lambda>(out, lits). (squote # out, a # lits)) (sql_scan None s)"
  by (simp add: quoted_def harmless_def scan_literal)

lemma checked_Inr: "checked err k = Inr x \<longleftrightarrow> err = None \<and> k = Inr x"
  by (simp add: checked_def split: option.splits)

lemma quoted_semicolon: "harmless a \<Longrightarrow> CHR '';'' \<notin> set (quoted a)"
  by (simp add: quoted_def harmless_def)

lemma harmless_semicolon: "harmless a \<Longrightarrow> CHR '';'' \<notin> set a" "harmless a \<Longrightarrow> squote \<notin> set a"
  by (simp_all add: harmless_def)

lemmas statement_defs = CreateHypertableSQL_def AddRetentionPolicySQL_def RemoveRetentionPolicySQL_def
  AddCompressionPolicySQL_def RemoveCompressionPolicySQL_def AddContinuousAggregatePolicySQL_def checked_Inr

lemma compression_statement:
  assumes "EnableCompressionSQL h s ob = Inr sql"
  shows "CHR '';'' \<notin> set sql \<and> sql_scan None sql = ts_shape (EnableCompression h s ob)"
proof -
  have v: "harmless h" "s \<noteq> [] \<Longrightarrow> harmless s" "ob \<noteq> [] \<Longrightarrow> harmless ob"
    and sql: "sql = ''ALTER TABLE '' @ h @ '' SET ('' @ Join ([''timescaledb.compress''] @
       (if s \<noteq> [] then [''timescaledb.compress_segmentby='' @ quoted s] else []) @
       (if ob \<noteq> [] then [''timescaledb.compress_orderby='' @ quoted ob] else [])) '', '' @ '')''"
    using assms by (auto simp: EnableCompressionSQL_def checked_Inr Let_def dest: validated_harmless split: if_splits)
  show ?thesis unfolding sql
    by (cases "s = []"; cases "ob = []")
      (simp_all add: v scan_out scan_quoted harmless_semicolon quoted_semicolon)
qed

text \<open>
  C26. What each TimescaleDB request can put into SQL. Whenever a builder accepts its arguments, the statement it
  returns has no semicolon, so it is one statement. For every operation but two, PostgreSQL reads it as its fixed text with
  each argument as the value of its own string literal. \<^verbatim>\<open>ALTER TABLE\<close> splices its table as it is: that is a
  qualified identifier without quote or semicolon, and the column lists are literals. A
  continuous aggregate splices its name, an identifier, and the query, which is the caller's own SQL: the
  statement is the fixed text around exactly these two.
\<close>

theorem timescale_no_injection:
  assumes "ts_sql op = Inr sql"
  shows "CHR '';'' \<notin> set sql \<and> (case op of
     CreateContinuousAggregate n q \<Rightarrow> ValidateIdent n = None \<and> harmless n \<and>
       sql = ''CREATE MATERIALIZED VIEW '' @ n @ '' WITH (timescaledb.continuous) AS '' @ TrimSpace q @ '' WITH NO DATA''
   | EnableCompression h s ob \<Rightarrow> ValidateQualifiedName h = None \<and> harmless h \<and> sql_scan None sql = ts_shape op
   | _ \<Rightarrow> sql_scan None sql = ts_shape op)"
proof (cases op)
  case (EnableCompression h s ob)
  moreover have "ValidateQualifiedName h = None"
    using assms EnableCompression by (auto simp: EnableCompressionSQL_def checked_Inr Let_def split: if_splits)
  ultimately show ?thesis using assms compression_statement validated_harmless(1) [of h] by simp
next
  case (CreateContinuousAggregate n q)
  have "TrimSpace q \<noteq> [] \<Longrightarrow> \<not> Contains q '';'' \<Longrightarrow> CHR '';'' \<notin> set (TrimSpace q)"
    using TrimSpace_set [of q] in_set_conv_decomp [of "CHR '';''" q] by (auto simp: Contains_iff)
  moreover have "ValidateIdent n = None" "TrimSpace q \<noteq> []" "\<not> Contains q '';''"
    and sql: "sql = ''CREATE MATERIALIZED VIEW '' @ n @ '' WITH (timescaledb.continuous) AS '' @ TrimSpace q @ '' WITH NO DATA''"
    using assms CreateContinuousAggregate by (auto simp: CreateContinuousAggregateSQL_def checked_Inr Let_def split: if_splits)
  ultimately show ?thesis
    using ident_harmless [of n] harmless_semicolon(1) [of n] CreateContinuousAggregate unfolding sql by simp
qed (use assms in \<open>auto simp: statement_defs scan_quoted quoted_semicolon dest!: validated_harmless\<close>)

theorem timescale_no_injection_witness:
  "ts_sql (AddRetentionPolicy ''metrics.cpu'' ''30 days'') =
     Inr (''SELECT add_retention_policy('' @ quoted ''metrics.cpu'' @ '', INTERVAL '' @ quoted ''30 days'' @ '')'') \<and>
   sql_scan None (''SELECT add_retention_policy('' @ quoted ''metrics.cpu'' @ '', INTERVAL '' @ quoted ''30 days'' @ '')'') =
     Some (''SELECT add_retention_policy('' @ [squote] @ '', INTERVAL '' @ [squote] @ '')'', [''metrics.cpu'', ''30 days'']) \<and>
   HTTPStatus (case ts_sql (RemoveRetentionPolicy (''a'' @ [squote] @ '') ; drop'')) of Inl e \<Rightarrow> e) = 400"
proof -
  have ok: "ts_sql (AddRetentionPolicy ''metrics.cpu'' ''30 days'') =
     Inr (''SELECT add_retention_policy('' @ quoted ''metrics.cpu'' @ '', INTERVAL '' @ quoted ''30 days'' @ '')'')" by code_simp
  have "HTTPStatus (case ts_sql (RemoveRetentionPolicy (''a'' @ [squote] @ '') ; drop'')) of Inl e \<Rightarrow> e) = 400" by code_simp
  with ok timescale_no_injection [OF ok] show ?thesis by simp
qed

end
