(* ===== verification/Polling.thy ===== *)
theory Polling
  imports Provision
begin

text \<open>
  Termination of the polling loops of \<^verbatim>\<open>internal/provision\<close> (\<^verbatim>\<open>waitReady\<close>,
  \<^verbatim>\<open>waitRestoreExit\<close>, \<^verbatim>\<open>verifyStreaming\<close>). Elsewhere the loops run on fuel; here the
  loop is written as in the source, without a bound, as a partial function whose value is
  \<open>None\<close> when it never returns, and proved to return what the fuelled one does.
\<close>

partial_function (option) poll_loop ::
    "'e host \<Rightarrow> ('e \<Rightarrow> (goerr + unit) option \<times> 'e) \<Rightarrow> goerr \<Rightarrow> int \<Rightarrow> int \<Rightarrow> 'e \<Rightarrow> ((goerr + unit) \<times> 'e) option" where
  "poll_loop h probe timedOut interval deadline e =
     (case probe e of
        (Some r, e') \<Rightarrow> Some (r, e')
      | (None, e') \<Rightarrow>
          if deadline < Now h e' then Some (Inl timedOut, e')
          else (case Wait h interval e' of
              (Inl err, e'') \<Rightarrow> Some (Inl err, e'')
            | (Inr _, e'') \<Rightarrow> poll_loop h probe timedOut interval deadline e''))"

text \<open>What is needed of the host: no call turns the clock back, and a wait that is not cancelled lasts
  as long as it was asked to.\<close>

definition clock_ok :: "'e host \<Rightarrow> bool" where
  "clock_ok h \<longleftrightarrow> (\<forall>c cmd e. Now h e \<le> Now h (snd (Exec h c cmd e))) \<and> (\<forall>c e. Now h e \<le> Now h (snd (Inspect h c e))) \<and>
     (\<forall>c f e. Now h e \<le> Now h (snd (Logs h c f e))) \<and>
     (\<forall>d e e'. Wait h d e = (Inr (), e') \<longrightarrow> Now h e + d \<le> Now h e')"

lemma poll_loop_returns:
  assumes probe: "\<And>e. Now h e \<le> Now h (snd (probe e))" and "clock_ok h" and "dl < Now h e + interval * int n"
  shows "poll_loop h probe te interval dl e = Some (poll h probe te interval (Suc n) dl e)"
  using assms(3)
proof (induction n arbitrary: e)
  case 0
  then show ?case using probe [of e] by (subst poll_loop.simps) (auto split: prod.splits option.splits)
next
  case (Suc n)
  obtain o1 e1 where e1: "probe e = (o1, e1)" by fastforce
  have ih: "poll_loop h probe te interval dl e2 = Some (poll h probe te interval (Suc n) dl e2)"
    if "Wait h interval e1 = (Inr (), e2)" for e2
  proof (rule Suc.IH)
    have "Now h e1 + interval \<le> Now h e2" using assms(2) that unfolding clock_ok_def by blast
    then show "dl < Now h e2 + interval * int n" using Suc.prems probe [of e] e1 by (simp add: algebra_simps)
  qed
  show ?case
    by (subst poll_loop.simps, subst poll.simps(2))
      (auto simp: e1 bindE_def ih simp del: poll.simps(2) split: option.splits prod.splits sum.splits)
qed

lemma probe_clocks:
  assumes "clock_ok h"
  shows "Now h e \<le> Now h (snd (ready_probe h c su e))" "Now h e \<le> Now h (snd (stream_probe h c a e))"
    "Now h e \<le> Now h (snd (exit_probe h c e))"
proof -
  have ex: "Now h e \<le> Now h (snd (Exec h c cmd e))" and ins: "Now h e \<le> Now h (snd (Inspect h c e))"
    and lg: "Now h e \<le> Now h (snd (Logs h c f e))" for c cmd f e
    using assms by (auto simp: clock_ok_def)
  show "Now h e \<le> Now h (snd (ready_probe h c su e))" "Now h e \<le> Now h (snd (stream_probe h c a e))"
    unfolding ready_probe_def stream_probe_def by (auto split: prod.splits sum.splits) (metis ex snd_conv)+
  have "Now h e' \<le> Now h (snd (containerLogs h c e'))" for e'
    unfolding containerLogs_def by (auto split: prod.splits sum.splits) (metis lg snd_conv)+
  then show "Now h e \<le> Now h (snd (exit_probe h c e))"
    unfolding exit_probe_def by (auto split: prod.splits sum.splits) (metis ins order.trans snd_conv)+
qed

text \<open>
  C34. The three polling loops of provisioning return. Whatever the container answers and however long
  it takes, on a host whose clock does not run backwards, the unbounded loops behind
  \<open>waitReady\<close>, \<open>waitRestoreExit\<close> and \<open>verifyStreaming\<close> end, with the result the model computes
  within its fuel: the probe's verdict, a cancelled wait, or the time-out error.
\<close>

theorem polling_terminates:
  assumes "clock_ok h"
  shows "poll_loop h (ready_probe h c su) (New KindInternal ''provision: postgres did not become ready in time'')
       second (Now h e + readyTimeout) e = Some (waitReady h c su e) \<and>
    poll_loop h (exit_probe h c) (New KindInternal ''provision: restore timed out'')
       second (Now h e + restoreTimeout) e = Some (waitRestoreExit h c e) \<and>
    poll_loop h (stream_probe h c a) (New KindInternal ''provision: replica did not start streaming in time'')
       (2 * second) (Now h e + streamTimeout) e = Some (verifyStreaming h c a e)"
proof -
  note loop = poll_loop_returns [OF _ assms, of _ "Now h e + readyTimeout" e second 91]
    poll_loop_returns [OF _ assms, of _ "Now h e + restoreTimeout" e second 301]
    poll_loop_returns [OF _ assms, of _ "Now h e + streamTimeout" e "2 * second" 31]
  have n: "Suc 91 = 92" "Suc 301 = 302" "Suc 31 = 32" by simp_all
  show ?thesis unfolding waitReady_def waitRestoreExit_def verifyStreaming_def withS_def
    using loop(1) [OF probe_clocks(1) [OF assms]] loop(2) [OF probe_clocks(3) [OF assms]] loop(3) [OF probe_clocks(2) [OF assms]]
    unfolding n by (simp add: second_def readyTimeout_def restoreTimeout_def streamTimeout_def del: poll.simps)
qed

text \<open>Every container runtime that keeps its contract has such a clock, the in-memory one among them.\<close>

context container_host
begin

lemma host_clock_ok: "clock_ok h"
  unfolding clock_ok_def using time_Exec time_Inspect time_Logs time_Wait by (metis prod.collapse)

end

text \<open>A server that never answers: the wait for it ends, with the time-out.\<close>

definition silent_host :: "fake_env host" where
  "silent_host = fake_host None None (\<lambda>_. None) tagged_lib"

lemma silent_timeout:
  "fst (waitReady silent_host ''gone'' ''postgres'' (NewFake, plain_process)) =
     Inl (New KindInternal ''provision: postgres did not become ready in time'')"
  by code_simp

theorem polling_terminates_witness:
  "\<exists>e'. poll_loop silent_host (ready_probe silent_host ''gone'' ''postgres'')
     (New KindInternal ''provision: postgres did not become ready in time'') second
     (Now silent_host (NewFake, plain_process) + readyTimeout) (NewFake, plain_process) =
   Some (Inl (New KindInternal ''provision: postgres did not become ready in time''), e')"
proof -
  have "clock_ok silent_host" unfolding silent_host_def by (rule fake_rt.host_clock_ok)
  from polling_terminates [OF this, of "''gone''" "''postgres''" "(NewFake, plain_process)"] silent_timeout
  show ?thesis by (metis prod.collapse)
qed

end
