(* ===== verification/Scheduler.thy ===== *)
theory Scheduler
  imports Apperr
begin

text \<open>
  Package \<^verbatim>\<open>internal/scheduler\<close>: jobs on fixed intervals, one goroutine each.

  The state is the fields of \<^verbatim>\<open>Scheduler\<close> and what its goroutines are doing. A \<^verbatim>\<open>Start\<close>
  that launches creates a cancellable context, a batch, known by its number; the stored
  \<^verbatim>\<open>cancel\<close> is the number of the batch it cancels. \<open>sd_loops\<close> are the goroutines in
  \<open>loop\<close>, whose number is the count of the \<^verbatim>\<open>WaitGroup\<close>; \<open>sd_pending\<close> are the
  launches a \<^verbatim>\<open>Start\<close> still has to do after it released the lock; \<open>sd_stops\<close> are the
  \<^verbatim>\<open>Stop\<close> calls under way, waiting for the group or just after. Each critical section
  is one step, and the steps of all goroutines interleave. When a tick and the end of its
  context are both ready, a loop may take either.
\<close>

record job =
  jb_name :: string
  jb_interval :: int

datatype phase = Waiting | Running

record loop =
  lp_batch :: nat
  lp_job :: nat
  lp_phase :: phase

datatype stop_call = Draining | Drained

record scheduler =
  sd_jobs :: "job list"
  sd_cancel :: "nat option"
  sd_batches :: nat
  sd_cancelled :: "nat list"
  sd_pending :: "(nat \<times> nat) list"
  sd_loops :: "loop list"
  sd_stops :: "stop_call list"
  sd_errors :: "(string \<times> goerr) list"

definition New_scheduler :: scheduler where
  "New_scheduler = \<lparr>sd_jobs = [], sd_cancel = None, sd_batches = 0, sd_cancelled = [], sd_pending = [], sd_loops = [],
     sd_stops = [], sd_errors = []\<rparr>"

definition Register :: "string \<Rightarrow> int \<Rightarrow> scheduler \<Rightarrow> scheduler" where
  "Register name interval s = s\<lparr>sd_jobs := sd_jobs s @ [\<lparr>jb_name = name, jb_interval = interval\<rparr>]\<rparr>"

text \<open>\<open>Start\<close> up to the release of the lock: nothing when a batch is stored already.\<close>

definition Start_scheduler :: "scheduler \<Rightarrow> scheduler" where
  "Start_scheduler s =
     (case sd_cancel s of
        Some _ \<Rightarrow> s
      | None \<Rightarrow> s\<lparr>sd_cancel := Some (sd_batches s), sd_batches := Suc (sd_batches s),
          sd_pending := sd_pending s @ map (Pair (sd_batches s)) [0..<length (sd_jobs s)]\<rparr>)"

text \<open>One round of its loop over the jobs: \<^verbatim>\<open>wg.Add(1)\<close> and \<^verbatim>\<open>go s.loop(ctx, j)\<close>.\<close>

definition launch :: "scheduler \<Rightarrow> scheduler" where
  "launch s = (case sd_pending s of
       [] \<Rightarrow> s
     | (b, j) # ps \<Rightarrow> s\<lparr>sd_pending := ps, sd_loops := sd_loops s @ [\<lparr>lp_batch = b, lp_job = j, lp_phase = Waiting\<rparr>]\<rparr>)"

text \<open>The three parts of \<open>Stop\<close>: cancel the stored batch, wait for the group, clear the stored batch.\<close>

definition Stop_begin :: "scheduler \<Rightarrow> scheduler" where
  "Stop_begin s = s\<lparr>sd_cancelled := (case sd_cancel s of Some b \<Rightarrow> b # sd_cancelled s | None \<Rightarrow> sd_cancelled s),
     sd_stops := sd_stops s @ [Draining]\<rparr>"

definition Stop_waited :: "stop_call list \<Rightarrow> stop_call list \<Rightarrow> scheduler \<Rightarrow> scheduler" where
  "Stop_waited xs ys s = s\<lparr>sd_stops := xs @ Drained # ys\<rparr>"

definition Stop_end :: "stop_call list \<Rightarrow> stop_call list \<Rightarrow> scheduler \<Rightarrow> scheduler" where
  "Stop_end xs ys s = s\<lparr>sd_cancel := None, sd_stops := xs @ ys\<rparr>"

text \<open>What a run of a job comes to. \<open>runOnce\<close> turns a panic into an error; \<open>quote\<close> is the verb
  \<^verbatim>\<open>%q\<close>.\<close>

datatype outcome = Returned "goerr option" | Panicked string

definition runOnce :: "(string \<Rightarrow> string) \<Rightarrow> job \<Rightarrow> outcome \<Rightarrow> goerr option" where
  "runOnce quote j r = (case r of
       Returned e \<Rightarrow> e
     | Panicked v \<Rightarrow> Some (Plain (''job '' @ quote (jb_name j) @ '' panicked: '' @ v)))"

text \<open>The steps of \<open>loop\<close>: a tick starts a run, the run ends and its error is reported, the end of the
  context ends the loop.\<close>

definition set_phase :: "loop list \<Rightarrow> loop \<Rightarrow> phase \<Rightarrow> loop list \<Rightarrow> scheduler \<Rightarrow> scheduler" where
  "set_phase xs l p ys s = s\<lparr>sd_loops := xs @ l\<lparr>lp_phase := p\<rparr> # ys\<rparr>"

definition report :: "(string \<Rightarrow> string) \<Rightarrow> nat \<Rightarrow> outcome \<Rightarrow> scheduler \<Rightarrow> scheduler" where
  "report quote j r s = (if j < length (sd_jobs s) then
       (case runOnce quote (sd_jobs s ! j) r of
          None \<Rightarrow> s
        | Some e \<Rightarrow> s\<lparr>sd_errors := sd_errors s @ [(jb_name (sd_jobs s ! j), e)]\<rparr>)
     else s)"

definition loop_exit :: "loop list \<Rightarrow> loop list \<Rightarrow> scheduler \<Rightarrow> scheduler" where
  "loop_exit xs ys s = s\<lparr>sd_loops := xs @ ys\<rparr>"

definition idle :: "scheduler \<Rightarrow> bool" where
  "idle s \<longleftrightarrow> sd_pending s = [] \<and> sd_stops s = []"

text \<open>With \<open>serial\<close>, \<open>Start\<close> and \<open>Stop\<close> are called one after the other, as the control plane does;
  without it they may overlap.\<close>

inductive sched_step :: "bool \<Rightarrow> (string \<Rightarrow> string) \<Rightarrow> scheduler \<Rightarrow> scheduler \<Rightarrow> bool" for serial quote where
  register: "sched_step serial quote s (Register name interval s)"
| start: "(serial \<longrightarrow> idle s) \<Longrightarrow> sched_step serial quote s (Start_scheduler s)"
| go: "sd_pending s \<noteq> [] \<Longrightarrow> sched_step serial quote s (launch s)"
| stop: "(serial \<longrightarrow> idle s) \<Longrightarrow> sched_step serial quote s (Stop_begin s)"
| waited: "sd_stops s = xs @ Draining # ys \<Longrightarrow> sd_loops s = [] \<Longrightarrow> sched_step serial quote s (Stop_waited xs ys s)"
| stopped: "sd_stops s = xs @ Drained # ys \<Longrightarrow> sched_step serial quote s (Stop_end xs ys s)"
| parent: "sched_step serial quote s (s\<lparr>sd_cancelled := b # sd_cancelled s\<rparr>)"
| tick: "sd_loops s = xs @ l # ys \<Longrightarrow> lp_phase l = Waiting \<Longrightarrow> sched_step serial quote s (set_phase xs l Running ys s)"
| finish: "sd_loops s = xs @ l # ys \<Longrightarrow> lp_phase l = Running \<Longrightarrow>
    sched_step serial quote s (report quote (lp_job l) r (set_phase xs l Waiting ys s))"
| exit: "sd_loops s = xs @ l # ys \<Longrightarrow> lp_phase l = Waiting \<Longrightarrow> lp_batch l \<in> set (sd_cancelled s) \<Longrightarrow>
    sched_step serial quote s (loop_exit xs ys s)"

inductive sched_steps :: "bool \<Rightarrow> (string \<Rightarrow> string) \<Rightarrow> scheduler \<Rightarrow> scheduler \<Rightarrow> bool" for serial quote s0 where
  none: "sched_steps serial quote s0 s0"
| more: "sched_steps serial quote s0 s \<Longrightarrow> sched_step serial quote s s' \<Longrightarrow> sched_steps serial quote s0 s'"

definition batch_of :: "loop \<Rightarrow> nat \<times> nat" where
  "batch_of l = (lp_batch l, lp_job l)"

definition sched_inv :: "scheduler \<Rightarrow> bool" where
  "sched_inv s \<longleftrightarrow>
     (\<forall>l\<in>set (sd_loops s). sd_cancel s = Some (lp_batch l)) \<and> (\<forall>(b, j)\<in>set (sd_pending s). sd_cancel s = Some b) \<and>
     distinct (map batch_of (sd_loops s) @ sd_pending s) \<and>
     length (sd_stops s) \<le> 1 \<and> (sd_stops s \<noteq> [] \<longrightarrow> sd_pending s = []) \<and>
     (Drained \<in> set (sd_stops s) \<longrightarrow> sd_loops s = []) \<and>
     (sd_stops s \<noteq> [] \<longrightarrow> (\<forall>b. sd_cancel s = Some b \<longrightarrow> b \<in> set (sd_cancelled s)))"

lemma sched_inv_fields:
  "sched_inv (s\<lparr>sd_jobs := x\<rparr>) = sched_inv s" "sched_inv (s\<lparr>sd_errors := y\<rparr>) = sched_inv s"
  "sched_inv (s\<lparr>sd_batches := n\<rparr>) = sched_inv s"
  by (simp_all add: sched_inv_def)

lemma report_fields: "sched_inv (report quote j r s) = sched_inv s" "sd_loops (report quote j r s) = sd_loops s"
  "sd_cancelled (report quote j r s) = sd_cancelled s" "sd_stops (report quote j r s) = sd_stops s"
  by (simp_all add: report_def sched_inv_fields split: option.splits)

lemma stops_single: "length xs \<le> 1 \<Longrightarrow> xs = as @ x # bs \<Longrightarrow> as = [] \<and> bs = []"
  by auto

lemma sched_step_inv: "sched_step True quote s s' \<Longrightarrow> sched_inv s \<Longrightarrow> sched_inv s'"
proof (induction rule: sched_step.induct)
  case (register s name interval) then show ?case by (simp add: Register_def sched_inv_fields)
next
  case (start s)
  then show ?case
    by (cases "sd_cancel s") (auto simp: Start_scheduler_def sched_inv_def idle_def distinct_map inj_on_def)
next
  case (go s)
  then obtain b j ps where p: "sd_pending s = (b, j) # ps" by (cases "sd_pending s") auto
  have "batch_of \<lparr>lp_batch = b, lp_job = j, lp_phase = Waiting\<rparr> = (b, j)" by (simp add: batch_of_def)
  with go p show ?case by (auto simp: launch_def sched_inv_def)
next
  case (stop s)
  then show ?case by (auto simp: Stop_begin_def sched_inv_def idle_def split: option.splits)
next
  case (waited s xs ys)
  then show ?case by (auto simp: Stop_waited_def sched_inv_def)
next
  case (stopped s xs ys)
  then have "xs = [] \<and> ys = []" "sd_loops s = []" "sd_pending s = []" by (auto simp: sched_inv_def)
  then show ?case by (simp add: Stop_end_def sched_inv_def)
next
  case (parent s b) then show ?case by (auto simp: sched_inv_def)
next
  case (tick s xs l ys) then show ?case by (auto simp: set_phase_def sched_inv_def batch_of_def)
next
  case (finish s xs l ys r)
  then have "sched_inv (set_phase xs l Waiting ys s)" by (auto simp: set_phase_def sched_inv_def batch_of_def)
  then show ?case by (simp add: report_fields)
next
  case (exit s xs l ys) then show ?case by (auto simp: loop_exit_def sched_inv_def)
qed

lemma sched_steps_inv: "sched_steps True quote New_scheduler s \<Longrightarrow> sched_inv s"
proof (induction rule: sched_steps.induct)
  case none show ?case by (simp add: New_scheduler_def sched_inv_def)
next
  case (more s s') show ?case using more.hyps(2) more.IH by (rule sched_step_inv)
qed

text \<open>A \<open>Stop\<close> that is waiting can always be brought to its end by the loops alone: each run that
  ends and each cancelled loop that exits is a step.\<close>

lemma sched_steps_trans: "sched_steps b q s' s'' \<Longrightarrow> sched_steps b q s s' \<Longrightarrow> sched_steps b q s s''"
  by (induction rule: sched_steps.induct) (auto intro: sched_steps.more)

lemma drain:
  assumes "\<forall>l\<in>set (sd_loops s). lp_batch l \<in> set (sd_cancelled s)"
  shows "\<exists>s'. sched_steps b q s s' \<and> sd_loops s' = [] \<and> sd_stops s' = sd_stops s"
  using assms
proof (induction "sd_loops s" arbitrary: s)
  case Nil then show ?case by (intro exI [of _ s]) (auto intro: sched_steps.none)
next
  case (Cons l ls)
  obtain s1 where s1: "sched_steps b q s s1" "sd_loops s1 = l\<lparr>lp_phase := Waiting\<rparr> # ls" "sd_cancelled s1 = sd_cancelled s" "sd_stops s1 = sd_stops s"
  proof (cases "lp_phase l")
    case Waiting
    then have "l\<lparr>lp_phase := Waiting\<rparr> = l" by simp
    with Cons.hyps(2) show thesis by (intro that [of s]) (simp_all add: sched_steps.none)
  next
    case Running
    have "sched_step b q s (report q (lp_job l) (Returned None) (set_phase [] l Waiting ls s))"
      using Cons.hyps(2) Running by (intro sched_step.finish) simp_all
    from sched_steps.more [OF sched_steps.none this] show thesis
      by (rule that) (simp_all add: report_fields set_phase_def)
  qed
  have "sched_step b q s1 (loop_exit [] ls s1)"
    using s1 Cons.prems Cons.hyps(2) by (intro sched_step.exit [where l = "l\<lparr>lp_phase := Waiting\<rparr>"]) (auto dest: sym)
  then have s2: "sched_steps b q s (loop_exit [] ls s1)" using s1(1) by (rule sched_steps.more [rotated])
  have "\<forall>l\<in>set (sd_loops (loop_exit [] ls s1)). lp_batch l \<in> set (sd_cancelled (loop_exit [] ls s1))"
    using Cons.prems s1(3) Cons.hyps(2) by (auto simp: loop_exit_def dest!: sym [of "l # ls"])
  then obtain s' where "sched_steps b q (loop_exit [] ls s1) s'" "sd_loops s' = []" "sd_stops s' = sd_stops (loop_exit [] ls s1)"
    using Cons.hyps(1) [of "loop_exit [] ls s1"] by (auto simp: loop_exit_def)
  with s2 s1(4) show ?case using sched_steps_trans by (force simp: loop_exit_def)
qed

text \<open>
  C31. The scheduler runs each job once and stops cleanly. With \<open>Start\<close> and \<open>Stop\<close> called one
  after the other, in every reachable state and whatever the jobs do (fail, panic, overrun their
  tick, lose their context), no job has two loops, every loop belongs to the batch that
  \<open>Stop\<close> would cancel, so none is orphaned and none is left when the scheduler is stopped; and
  a \<open>Stop\<close> that is waiting is never stuck: from there the loops alone can run to the state
  in which it returns.
\<close>

theorem scheduler_sound:
  assumes "sched_steps True quote New_scheduler s"
  shows "(\<forall>j. length (filter (\<lambda>l. lp_job l = j) (sd_loops s)) \<le> 1) \<and>
     (\<forall>l\<in>set (sd_loops s). sd_cancel s = Some (lp_batch l)) \<and>
     (sd_stops s = [Draining] \<longrightarrow> (\<exists>s'. sched_steps True quote s s' \<and> sd_stops s' = [] \<and> sd_cancel s' = None \<and> sd_loops s' = []))"
proof -
  note inv = sched_steps_inv [OF assms]
  have same: "lp_batch l = lp_batch l'" if "l \<in> set (sd_loops s)" "l' \<in> set (sd_loops s)" for l l'
  proof -
    have own: "\<forall>l\<in>set (sd_loops s). sd_cancel s = Some (lp_batch l)" using inv by (simp add: sched_inv_def)
    from own that(1) have "sd_cancel s = Some (lp_batch l)" by blast
    moreover from own that(2) have "sd_cancel s = Some (lp_batch l')" by blast
    ultimately show ?thesis by simp
  qed
  have "length (filter (\<lambda>l. lp_job l = j) (sd_loops s)) \<le> 1" for j
  proof (rule ccontr)
    assume "\<not> ?thesis"
    then have "Suc (Suc 0) \<le> length (filter (\<lambda>l. lp_job l = j) (sd_loops s))" by simp
    then obtain x y zs where f: "filter (\<lambda>l. lp_job l = j) (sd_loops s) = x # y # zs"
      by (auto simp: Suc_le_length_iff)
    have "x \<in> set (filter (\<lambda>l. lp_job l = j) (sd_loops s))" "y \<in> set (filter (\<lambda>l. lp_job l = j) (sd_loops s))"
      unfolding f by simp_all
    then have "x \<in> set (sd_loops s)" "y \<in> set (sd_loops s)" "lp_job x = j" "lp_job y = j" by simp_all
    then have "batch_of x = batch_of y" using same [of x y] by (simp add: batch_of_def)
    moreover have "distinct (map batch_of (filter (\<lambda>l. lp_job l = j) (sd_loops s)))"
      using inv by (simp add: sched_inv_def distinct_map_filter)
    ultimately show False by (simp add: f)
  qed
  moreover have "\<forall>l\<in>set (sd_loops s). sd_cancel s = Some (lp_batch l)" using inv by (simp add: sched_inv_def)
  moreover have "\<exists>s'. sched_steps True quote s s' \<and> sd_stops s' = [] \<and> sd_cancel s' = None \<and> sd_loops s' = []"
    if st: "sd_stops s = [Draining]"
  proof -
    have "\<forall>l\<in>set (sd_loops s). lp_batch l \<in> set (sd_cancelled s)" using inv st by (auto simp: sched_inv_def)
    from drain [OF this] obtain s1 where s1: "sched_steps True quote s s1" "sd_loops s1 = []" "sd_stops s1 = [Draining]"
      using st by metis
    have w: "sched_step True quote s1 (Stop_waited [] [] s1)" by (rule sched_step.waited) (simp_all add: s1)
    have e: "sched_step True quote (Stop_waited [] [] s1) (Stop_end [] [] (Stop_waited [] [] s1))"
      by (rule sched_step.stopped) (simp add: Stop_waited_def)
    show ?thesis
      by (rule exI, rule conjI [OF sched_steps.more [OF sched_steps.more [OF s1(1) w] e]])
        (simp add: Stop_end_def Stop_waited_def s1(2))
  qed
  ultimately show ?thesis by blast
qed

definition demo_started :: scheduler where
  "demo_started = launch (Start_scheduler (Start_scheduler (Register ''backup'' 60 New_scheduler)))"

lemmas sched_eval = demo_started_def launch_def Start_scheduler_def Register_def New_scheduler_def Stop_begin_def
  Stop_waited_def Stop_end_def loop_exit_def idle_def

text \<open>One job, started twice: a single loop; a \<open>Stop\<close> begun then can end.\<close>

theorem scheduler_sound_witness:
  "sd_loops demo_started = [\<lparr>lp_batch = 0, lp_job = 0, lp_phase = Waiting\<rparr>] \<and>
   (\<exists>s'. sched_steps True id (Stop_begin demo_started) s' \<and> sd_stops s' = [] \<and> sd_cancel s' = None \<and> sd_loops s' = [])"
proof -
  let ?r = "Register ''backup'' 60 New_scheduler"
  have a: "sched_step True id New_scheduler ?r" by (rule sched_step.register)
  have b: "sched_step True id ?r (Start_scheduler ?r)" by (rule sched_step.start) (simp add: sched_eval)
  have c: "sched_step True id (Start_scheduler ?r) (launch (Start_scheduler ?r))" by (rule sched_step.go) (simp add: sched_eval)
  have same: "Start_scheduler (Start_scheduler ?r) = Start_scheduler ?r" by (simp add: sched_eval)
  have d: "sched_step True id demo_started (Stop_begin demo_started)" by (rule sched_step.stop) (simp add: sched_eval)
  have run: "sched_steps True id New_scheduler (Stop_begin demo_started)"
    using sched_steps.more [OF sched_steps.more [OF sched_steps.more [OF sched_steps.more [OF sched_steps.none a] b] c]] d
    by (simp add: demo_started_def same)
  have "sd_stops (Stop_begin demo_started) = [Draining]" "sd_loops demo_started = [\<lparr>lp_batch = 0, lp_job = 0, lp_phase = Waiting\<rparr>]"
    by (simp_all add: sched_eval)
  with scheduler_sound [OF run] show ?thesis by blast
qed

text \<open>
  When calls overlap this fails: of two \<open>Stop\<close> calls that drained the same batch, the slower one
  clears the batch of a \<open>Start\<close> that came between, whose loops then no \<open>Stop\<close> can cancel.
\<close>

definition overlap_orphan :: scheduler where
  "overlap_orphan =
     (let s1 = Stop_begin (Stop_begin demo_started);
          s2 = loop_exit [] [] s1;
          s3 = Stop_waited [Drained] [] (Stop_waited [] [Draining] s2);
          s4 = Stop_end [] [Drained] s3;
          s5 = launch (Start_scheduler s4)
      in Stop_end [] [] s5)"

lemma overlapping_stop_orphans:
  "sched_steps False id demo_started overlap_orphan \<and> sd_cancel overlap_orphan = None \<and> sd_stops overlap_orphan = [] \<and>
   sd_loops overlap_orphan = [\<lparr>lp_batch = 1, lp_job = 0, lp_phase = Waiting\<rparr>] \<and> 1 \<notin> set (sd_cancelled overlap_orphan)"
proof -
  let ?s1 = "Stop_begin (Stop_begin demo_started)"
  let ?s2 = "loop_exit [] [] ?s1"
  let ?s3 = "Stop_waited [Drained] [] (Stop_waited [] [Draining] ?s2)"
  let ?s4 = "Stop_end [] [Drained] ?s3"
  let ?s5 = "launch (Start_scheduler ?s4)"
  have "sched_steps False id demo_started ?s1"
    by (rule sched_steps.more [OF sched_steps.more [OF sched_steps.none sched_step.stop] sched_step.stop]) simp_all
  then have "sched_steps False id demo_started ?s2"
    by (rule sched_steps.more [OF _ sched_step.exit [where l = "\<lparr>lp_batch = 0, lp_job = 0, lp_phase = Waiting\<rparr>"]]) (simp_all add: sched_eval)
  then have "sched_steps False id demo_started (Stop_waited [] [Draining] ?s2)"
    by (rule sched_steps.more [OF _ sched_step.waited]) (simp_all add: sched_eval)
  then have "sched_steps False id demo_started ?s3"
    by (rule sched_steps.more [OF _ sched_step.waited]) (simp_all add: sched_eval)
  then have "sched_steps False id demo_started ?s4"
    by (rule sched_steps.more [OF _ sched_step.stopped]) (simp_all add: sched_eval)
  then have "sched_steps False id demo_started (Start_scheduler ?s4)"
    by (rule sched_steps.more [OF _ sched_step.start]) simp
  then have "sched_steps False id demo_started ?s5"
    by (rule sched_steps.more [OF _ sched_step.go]) (simp add: sched_eval)
  then have "sched_steps False id demo_started (Stop_end [] [] ?s5)"
    by (rule sched_steps.more [OF _ sched_step.stopped]) (simp_all add: sched_eval)
  then show ?thesis by (simp add: overlap_orphan_def Let_def) (simp add: sched_eval)
qed

end
