(* ===== verification/ObjectStore.thy ===== *)
theory ObjectStore
  imports ProvisionBase "HOL-Library.AList"
begin

text \<open>
  Package \<^verbatim>\<open>internal/objectstore\<close>: the bucket that holds backups and dumps.

  The S3 client is a third-party SDK, a record of functions over its own state; building one
  from a configuration is the parameter \<open>newClient\<close>. An SDK error is a value of
  \<open>s3_error\<close>, as the \<^verbatim>\<open>errors.As\<close> tests of the package tell errors apart. A listing is the
  sequence of pages the SDK's paginator delivers, each an error or the keys of its objects.
  \<open>s3_config\<close> of the provisioner is \<^verbatim>\<open>objectstore.Config\<close>.
\<close>

section \<open>Configuration\<close>

definition Config_Validate :: "s3_config \<Rightarrow> goerr option" where
  "Config_Validate c =
     (if oc_Endpoint c = [] then Some (New KindInvalid ''objectstore: endpoint required'')
      else if oc_Bucket c = [] then Some (New KindInvalid ''objectstore: bucket required'')
      else if oc_AccessKey c = [] \<or> oc_SecretKey c = [] then Some (New KindInvalid ''objectstore: credentials required'')
      else None)"

definition endpointURL :: "s3_config \<Rightarrow> string" where
  "endpointURL c =
     (if Contains (oc_Endpoint c) ''://'' then oc_Endpoint c
      else if oc_UseTLS c \<or> oc_SkipTLSVerify c then ''https://'' @ oc_Endpoint c
      else ''http://'' @ oc_Endpoint c)"

section \<open>The SDK\<close>

datatype s3_error =
    S3NoSuchKey string
  | S3NotFound string
  | S3BucketAlreadyOwnedByYou string
  | S3BucketAlreadyExists string
  | S3APIError string string
  | S3Other string

fun s3_text :: "s3_error \<Rightarrow> string" where
  "s3_text (S3NoSuchKey m) = m"
| "s3_text (S3NotFound m) = m"
| "s3_text (S3BucketAlreadyOwnedByYou m) = m"
| "s3_text (S3BucketAlreadyExists m) = m"
| "s3_text (S3APIError code m) = m"
| "s3_text (S3Other m) = m"

text \<open>\<^verbatim>\<open>errors.As(err, &apiErr)\<close> and \<^verbatim>\<open>apiErr.ErrorCode()\<close>: the modelled errors are API errors too.\<close>

fun ErrorCode :: "s3_error \<Rightarrow> string option" where
  "ErrorCode (S3NoSuchKey _) = Some ''NoSuchKey''"
| "ErrorCode (S3NotFound _) = Some ''NotFound''"
| "ErrorCode (S3BucketAlreadyOwnedByYou _) = Some ''BucketAlreadyOwnedByYou''"
| "ErrorCode (S3BucketAlreadyExists _) = Some ''BucketAlreadyExists''"
| "ErrorCode (S3APIError code _) = Some code"
| "ErrorCode (S3Other _) = None"

record 's s3_client =
  cl_HeadBucket :: "string \<Rightarrow> ('s, s3_error, unit) prog"
  cl_CreateBucket :: "string \<Rightarrow> ('s, s3_error, unit) prog"
  cl_PutObject :: "string \<Rightarrow> string \<Rightarrow> string \<Rightarrow> ('s, s3_error, unit) prog"
  cl_GetObject :: "string \<Rightarrow> string \<Rightarrow> ('s, s3_error, s3_error + string) prog"
  cl_Pages :: "string \<Rightarrow> string \<Rightarrow> 's \<Rightarrow> (s3_error + string option list) list \<times> 's"
  cl_DeleteObject :: "string \<Rightarrow> string \<Rightarrow> ('s, s3_error, unit) prog"

type_synonym 's newClient = "s3_config \<Rightarrow> goerr + 's s3_client"

definition sdk :: "(s3_error \<Rightarrow> goerr) \<Rightarrow> ('s, s3_error, 'a) prog \<Rightarrow> ('s, 'a) gofun" where
  "sdk f m s = (case m s of (Inl e, s') \<Rightarrow> (Inl (f e), s') | (Inr x, s') \<Rightarrow> (Inr x, s'))"

text \<open>The opening of every operation: validate, then build a client.\<close>

definition with_client :: "'s newClient \<Rightarrow> s3_config \<Rightarrow> ('s s3_client \<Rightarrow> ('s, 'a) gofun) \<Rightarrow> ('s, 'a) gofun" where
  "with_client mk c k = (case Config_Validate c of
       Some e \<Rightarrow> fail e
     | None \<Rightarrow> (case mk c of Inl e \<Rightarrow> fail (Wrap KindInternal ''objectstore: load aws config'' e) | Inr cl \<Rightarrow> k cl))"

section \<open>Operations\<close>

definition BucketExists :: "'s newClient \<Rightarrow> s3_config \<Rightarrow> ('s, bool) gofun" where
  "BucketExists mk c = with_client mk c (\<lambda>cl.
     attempt (cl_HeadBucket cl (oc_Bucket c)) (\<lambda>r. case r of
         Inr _ \<Rightarrow> ret True
       | Inl e \<Rightarrow>
           if ErrorCode e = Some ''NotFound'' \<or> ErrorCode e = Some ''NoSuchBucket'' then ret False
           else fail (Wrap KindInternal ''objectstore: head bucket'' (Plain (s3_text e)))))"

definition EnsureBucket :: "'s newClient \<Rightarrow> s3_config \<Rightarrow> ('s, unit) gofun" where
  "EnsureBucket mk c = with_client mk c (\<lambda>cl.
     attempt (cl_HeadBucket cl (oc_Bucket c)) (\<lambda>r. case r of
         Inr _ \<Rightarrow> ret ()
       | Inl _ \<Rightarrow>
           attempt (cl_CreateBucket cl (oc_Bucket c)) (\<lambda>r'. case r' of
               Inr _ \<Rightarrow> ret ()
             | Inl e \<Rightarrow>
                 if ErrorCode e = Some ''BucketAlreadyOwnedByYou'' \<or> (case e of S3BucketAlreadyExists _ \<Rightarrow> True | _ \<Rightarrow> False) then ret ()
                 else fail (Wrap KindInternal ''objectstore: create bucket'' (Plain (s3_text e))))))"

definition PutObject :: "'s newClient \<Rightarrow> s3_config \<Rightarrow> string \<Rightarrow> string \<Rightarrow> ('s, unit) gofun" where
  "PutObject mk c key data = with_client mk c (\<lambda>cl.
     sdk (\<lambda>e. Wrap KindInternal ''objectstore: put object'' (Plain (s3_text e))) (cl_PutObject cl (oc_Bucket c) key data))"

definition mapGetError :: "s3_error \<Rightarrow> goerr" where
  "mapGetError e =
     (if ErrorCode e \<in> {Some ''NoSuchKey'', Some ''NotFound'', Some ''404''} then
        Wrap KindNotFound ''objectstore: object not found'' (Plain (s3_text e))
      else Wrap KindInternal ''objectstore: get object'' (Plain (s3_text e)))"

definition GetObject :: "'s newClient \<Rightarrow> s3_config \<Rightarrow> string \<Rightarrow> ('s, string) gofun" where
  "GetObject mk c key = with_client mk c (\<lambda>cl.
     bindE (sdk mapGetError (cl_GetObject cl (oc_Bucket c) key)) (\<lambda>body. case body of
         Inl e \<Rightarrow> fail (Wrap KindInternal ''objectstore: read object body'' (Plain (s3_text e)))
       | Inr data \<Rightarrow> ret data))"

fun collect_pages :: "string list \<Rightarrow> (s3_error + string option list) list \<Rightarrow> goerr + string list" where
  "collect_pages keys [] = Inr keys"
| "collect_pages keys (Inl e # ps) = Inl (Wrap KindInternal ''objectstore: list objects'' (Plain (s3_text e)))"
| "collect_pages keys (Inr objs # ps) = collect_pages (keys @ List.map_filter id objs) ps"

definition ListObjects :: "'s newClient \<Rightarrow> s3_config \<Rightarrow> string \<Rightarrow> ('s, string list) gofun" where
  "ListObjects mk c prefix = with_client mk c (\<lambda>cl s.
     case cl_Pages cl (oc_Bucket c) prefix s of (pages, s') \<Rightarrow> (collect_pages [] pages, s'))"

definition DeleteObject :: "'s newClient \<Rightarrow> s3_config \<Rightarrow> string \<Rightarrow> ('s, unit) gofun" where
  "DeleteObject mk c key = with_client mk c (\<lambda>cl.
     sdk (\<lambda>e. Wrap KindInternal ''objectstore: delete object'' (Plain (s3_text e))) (cl_DeleteObject cl (oc_Bucket c) key))"

section \<open>What the package promises its clients\<close>

text \<open>
  The contract of a bucket, for a client that puts, gets, lists and deletes: a successful put is
  read back, a failed one changes nothing under other keys, reading and listing change
  nothing, a listing has every stored key with the prefix once, and a deletion removes at most its
  key. \<open>objects\<close> is what the bucket holds.
\<close>

locale object_store =
  fixes Put :: "string \<Rightarrow> string \<Rightarrow> ('s, unit) gofun"
    and Get :: "string \<Rightarrow> ('s, string) gofun"
    and List_keys :: "string \<Rightarrow> ('s, string list) gofun"
    and Delete :: "string \<Rightarrow> ('s, unit) gofun"
    and objects :: "'s \<Rightarrow> string \<Rightarrow> string option"
  assumes put: "Put key data s = (rp, s') \<Longrightarrow>
      (\<forall>k. k \<noteq> key \<longrightarrow> objects s' k = objects s k) \<and> (rp = Inr () \<longrightarrow> objects s' key = Some data)"
    and get: "Get key s = (rg, s') \<Longrightarrow> objects s' = objects s \<and> (\<forall>data. rg = Inr data \<longrightarrow> objects s key = Some data)"
    and list_keys: "List_keys prefix s = (rl, s') \<Longrightarrow> objects s' = objects s \<and>
      (\<forall>ks. rl = Inr ks \<longrightarrow> distinct ks \<and> set ks = {k. objects s k \<noteq> None \<and> HasPrefix k prefix})"
    and delete: "Delete key s = (rd, s') \<Longrightarrow>
      (\<forall>k. k \<noteq> key \<longrightarrow> objects s' k = objects s k) \<and> (rd = Inr () \<longrightarrow> objects s' key = None) \<and>
      (rd \<noteq> Inr () \<longrightarrow> objects s' key \<in> {None, objects s key})"
begin

lemma get_after_put:
  "Put key data s = (Inr (), s1) \<Longrightarrow> Get key s1 = (Inr x, s2) \<Longrightarrow> x = data"
  using put [of key data s "Inr ()" s1] get [of key s1 "Inr x" s2] by auto

end

section \<open>A bucket in memory\<close>

text \<open>A client over an association list of the one bucket, with a schedule of failing calls; its pages
  have one object each.\<close>

record mem_bucket =
  mb_faults :: "bool list"
  mb_objects :: "(string \<times> string) list"

definition mb_call :: "(mem_bucket, s3_error, 'a) prog \<Rightarrow> (mem_bucket, s3_error, 'a) prog" where
  "mb_call m s = (case mb_faults s of
       [] \<Rightarrow> m s
     | bad # fs \<Rightarrow> if bad then (Inl (S3Other ''connection reset''), s\<lparr>mb_faults := fs\<rparr>) else m (s\<lparr>mb_faults := fs\<rparr>))"

definition mem_client :: "mem_bucket s3_client" where
  "mem_client = \<lparr>cl_HeadBucket = (\<lambda>_. mb_call (ret ())), cl_CreateBucket = (\<lambda>_. mb_call (ret ())),
     cl_PutObject = (\<lambda>_ key data. mb_call (\<lambda>s. (Inr (), s\<lparr>mb_objects := AList.update key data (mb_objects s)\<rparr>))),
     cl_GetObject = (\<lambda>_ key. mb_call (\<lambda>s. case map_of (mb_objects s) key of
         None \<Rightarrow> (Inl (S3NoSuchKey ''no such key''), s) | Some d \<Rightarrow> (Inr (Inr d), s))),
     cl_Pages = (\<lambda>_ prefix s. case mb_call (ret ()) s of
         (Inl e, s') \<Rightarrow> ([Inl e], s')
       | (Inr _, s') \<Rightarrow> (map (\<lambda>k. Inr [Some k]) (filter (\<lambda>k. HasPrefix k prefix) (remdups (map fst (mb_objects s)))), s')),
     cl_DeleteObject = (\<lambda>_ key. mb_call (\<lambda>s. (Inr (), s\<lparr>mb_objects := AList.delete key (mb_objects s)\<rparr>)))\<rparr>"

lemma collect_singletons: "collect_pages keys (map (\<lambda>k. Inr [Some k]) ks) = Inr (keys @ ks)"
  by (induction ks arbitrary: keys) (simp_all add: List.map_filter_def)

definition mem_newClient :: "mem_bucket newClient" where
  "mem_newClient c = Inr mem_client"

lemma with_mem_client: "with_client mem_newClient c k s =
    (case Config_Validate c of Some e \<Rightarrow> (Inl e, s) | None \<Rightarrow> k mem_client s)"
  by (simp add: with_client_def mem_newClient_def prog_run split: option.splits)

interpretation mem_store: object_store "PutObject mem_newClient c" "GetObject mem_newClient c" "ListObjects mem_newClient c"
  "DeleteObject mem_newClient c" "\<lambda>s. map_of (mb_objects s)" for c
proof
  fix key data r and s s' :: mem_bucket
  assume "PutObject mem_newClient c key data s = (r, s')"
  then show "(\<forall>k. k \<noteq> key \<longrightarrow> map_of (mb_objects s') k = map_of (mb_objects s) k) \<and>
      (r = Inr () \<longrightarrow> map_of (mb_objects s') key = Some data)"
    by (auto simp: PutObject_def with_mem_client sdk_def mem_client_def mb_call_def update_conv
        split: option.splits list.splits if_splits)
next
  fix key r and s s' :: mem_bucket
  assume "GetObject mem_newClient c key s = (r, s')"
  then show "map_of (mb_objects s') = map_of (mb_objects s) \<and> (\<forall>data. r = Inr data \<longrightarrow> map_of (mb_objects s) key = Some data)"
    by (auto simp: GetObject_def with_mem_client sdk_def mem_client_def mb_call_def prog_run
        split: option.splits list.splits if_splits)
next
  fix prefix r and s s' :: mem_bucket
  assume "ListObjects mem_newClient c prefix s = (r, s')"
  then show "map_of (mb_objects s') = map_of (mb_objects s) \<and> (\<forall>ks. r = Inr ks \<longrightarrow> distinct ks \<and>
      set ks = {k. map_of (mb_objects s) k \<noteq> None \<and> HasPrefix k prefix})"
    by (auto simp: ListObjects_def with_mem_client mem_client_def mb_call_def prog_run collect_singletons map_of_eq_None_iff
        split: option.splits list.splits if_splits) force+
next
  fix key r and s s' :: mem_bucket
  assume "DeleteObject mem_newClient c key s = (r, s')"
  then show "(\<forall>k. k \<noteq> key \<longrightarrow> map_of (mb_objects s') k = map_of (mb_objects s) k) \<and>
      (r = Inr () \<longrightarrow> map_of (mb_objects s') key = None) \<and>
      (r \<noteq> Inr () \<longrightarrow> map_of (mb_objects s') key \<in> {None, map_of (mb_objects s) key})"
    by (auto simp: DeleteObject_def with_mem_client sdk_def mem_client_def mb_call_def delete_conv'
        split: option.splits list.splits if_splits)
qed

end
