(* ===== verification/PgTools.thy ===== *)
theory PgTools
  imports ProvisionBase GoURL
begin

text \<open>
  What the packages that shell out to the PostgreSQL client tools share
  (\<^verbatim>\<open>internal/remotebackup\<close>, \<^verbatim>\<open>internal/metabackup\<close>): running a command, passing the
  password in the environment, scrubbing it from output, the tools' version, and the
  random suffix of an object's key. Each package has its own copy of these helpers.

  Running a command is the parameter \<open>os_Run\<close>: it is given the arguments, the environment and
  the standard input, and returns whether the command failed, with its output.
\<close>

section \<open>Commands\<close>

record cmd_result =
  cm_err :: "goerr option"
  cm_stdout :: string
  cm_stderr :: string

record 'e os =
  os_Environ :: "string list"
  os_Run :: "string list \<Rightarrow> string list \<Rightarrow> string \<Rightarrow> 'e \<Rightarrow> cmd_result \<times> 'e"

text \<open>With the clock, in seconds, and six bytes of \<^verbatim>\<open>crypto/rand\<close>.\<close>

record 'e tools = "'e os" +
  os_Now :: "'e \<Rightarrow> nat \<times> 'e"
  os_Rand :: "'e \<Rightarrow> string option \<times> 'e"

definition withPGPassword :: "string list \<Rightarrow> string \<Rightarrow> string list" where
  "withPGPassword environ pw = (if pw = [] then environ else environ @ [''PGPASSWORD='' @ pw])"

text \<open>The suffix of an object's key from the six bytes of \<^verbatim>\<open>crypto/rand\<close>, \<open>None\<close> when it fails. The layout
  \<^verbatim>\<open>000000000\<close> of the fallback has no element that \<^verbatim>\<open>time.Format\<close> replaces, so it prints as it is.\<close>

definition uniqueSuffix :: "string option \<Rightarrow> string" where
  "uniqueSuffix b = (case b of None \<Rightarrow> ''000000000'' | Some bs \<Rightarrow> hex_encode bs)"

text \<open>\<^verbatim>\<open>strconv.Quote\<close>; bytes above 127 are taken to be printable.\<close>

definition quote_char :: "char \<Rightarrow> string" where
  "quote_char c =
     (if c = dquote \<or> c = bslash then [bslash, c]
      else if c = CHR 0x07 then [bslash, CHR ''a''] else if c = CHR 0x08 then [bslash, CHR ''b'']
      else if c = CHR 0x0C then [bslash, CHR ''f''] else if c = nl then [bslash, CHR ''n'']
      else if c = cr then [bslash, CHR ''r''] else if c = tab then [bslash, CHR ''t'']
      else if c = CHR 0x0B then [bslash, CHR ''v'']
      else if byte_val c < 32 \<or> byte_val c = 127 then [bslash, CHR ''x''] @ hex_encode [c]
      else [c])"

definition Quote :: "string \<Rightarrow> string" where
  "Quote s = [dquote] @ concat (map quote_char s) @ [dquote]"

section \<open>Versions\<close>

definition is_re_space :: "char \<Rightarrow> bool" where
  "is_re_space c \<longleftrightarrow> c = CHR '' '' \<or> c = tab \<or> c = nl \<or> c = CHR 0x0C \<or> c = cr"

text \<open>The expression \<^verbatim>\<open>\(PostgreSQL\)\s+(\d+)\<close>: the digits of its leftmost match.\<close>

definition version_at :: "string \<Rightarrow> string option" where
  "version_at s =
     (if HasPrefix s ''(PostgreSQL)'' then
        let t = drop 12 s; u = dropWhile is_re_space t; ds = takeWhile is_digit u in
        if u \<noteq> t \<and> ds \<noteq> [] then Some ds else None
      else None)"

fun find_version :: "string \<Rightarrow> string option" where
  "find_version [] = None"
| "find_version (c # cs) = (case version_at (c # cs) of Some ds \<Rightarrow> Some ds | None \<Rightarrow> find_version cs)"

text \<open>\<^verbatim>\<open>strconv.Atoi\<close> of the digits; \<open>None\<close> is the result \<^verbatim>\<open>0, false\<close>.\<close>

definition ParsePgDumpMajor :: "string \<Rightarrow> int option" where
  "ParsePgDumpMajor out = (case find_version out of
       None \<Rightarrow> None
     | Some ds \<Rightarrow> (case ParseInt ds of Inl _ \<Rightarrow> None | Inr n \<Rightarrow> if n \<le> 0 then None else Some n))"

text \<open>Go's division truncates; the argument is positive.\<close>

definition serverMajorFromVersionNum :: "int \<Rightarrow> int" where
  "serverMajorFromVersionNum num = (if num < 0 then - ((- num) div 10000) else num div 10000)"

section \<open>Scrubbing a secret\<close>

text \<open>A replacement leaves what has no character of the new text as it was.\<close>

lemma ReplaceAll_prefix:
  assumes "HasPrefix (ReplaceAll s old new) p" "set p \<inter> set new = {}" "new \<noteq> []" "old \<noteq> []"
  shows "HasPrefix s p"
  using assms
proof (induction s old new arbitrary: p rule: ReplaceAll.induct)
  case (1 s old new)
  show ?case
  proof (cases p)
    case (Cons x xs)
    have np: "\<not> (s \<noteq> [] \<and> HasPrefix s old)"
    proof
      assume a: "s \<noteq> [] \<and> HasPrefix s old"
      then have "ReplaceAll s old new = new @ ReplaceAll (drop (length old) s) old new"
        using 1(6) by (subst ReplaceAll.simps) (cases s; auto simp: HasPrefix_def)
      with 1(3-5) Cons show False by (cases new) (auto simp: HasPrefix_def)
    qed
    show ?thesis
    proof (cases s)
      case Nil
      with 1(3) Cons show ?thesis by (simp add: HasPrefix_def)
    next
      case s: (Cons c cs)
      with np 1(6) have e: "ReplaceAll s old new = c # ReplaceAll cs old new" by (subst ReplaceAll.simps) simp
      with 1(3) Cons have "c = x" "HasPrefix (ReplaceAll cs old new) xs" by (auto simp: HasPrefix_def)
      moreover have "HasPrefix cs xs"
        using 1 s np Cons calculation by auto
      ultimately show ?thesis using s Cons by (simp add: HasPrefix_def)
    qed
  qed (simp add: HasPrefix_def)
qed

text \<open>
  After a replacement by a text that shares no character with a secret, the secret does not occur.
\<close>

lemma ReplaceAll_gone:
  assumes "set old \<inter> set new = {}" "new \<noteq> []" "old \<noteq> []"
  shows "ReplaceAll s old new \<noteq> a @ old @ b"
  using assms
proof (induction s old new arbitrary: a rule: ReplaceAll.induct)
  case (1 s old new)
  show ?case
  proof (cases s)
    case Nil
    with 1(5) show ?thesis by (simp add: ReplaceAll.simps)
  next
    case (Cons c cs)
    show ?thesis
    proof (cases "HasPrefix s old")
      case True
      then have e: "ReplaceAll s old new = new @ ReplaceAll (drop (length old) s) old new"
        using Cons 1(5) by (subst ReplaceAll.simps) simp
      show ?thesis
      proof
        assume "ReplaceAll s old new = a @ old @ b"
        then have "new @ ReplaceAll (drop (length old) s) old new = a @ (old @ b)" using e by (rule trans [OF sym, rotated])
        then obtain us where "new @ us = a \<and> ReplaceAll (drop (length old) s) old new = us @ old @ b \<or>
            new = a @ us \<and> us @ ReplaceAll (drop (length old) s) old new = old @ b"
          unfolding append_eq_append_conv2 by blast
        then show False
        proof
          assume "new @ us = a \<and> ReplaceAll (drop (length old) s) old new = us @ old @ b"
          with 1(1) [of c cs us] True Cons 1(3-5) show False by auto
        next
          assume u: "new = a @ us \<and> us @ ReplaceAll (drop (length old) s) old new = old @ b"
          show False
          proof (cases us)
            case Nil
            with u 1(1) [of c cs "[]"] True Cons 1(3-5) show False by auto
          next
            case us: (Cons x xs)
            with u 1(3,5) show False by (cases old) auto
          qed
        qed
      qed
    next
      case False
      then have e: "ReplaceAll s old new = c # ReplaceAll cs old new"
        using Cons by (subst ReplaceAll.simps) simp
      show ?thesis
      proof
        assume occ: "ReplaceAll s old new = a @ old @ b"
        show False
        proof (cases a)
          case Nil
          with occ have "HasPrefix (ReplaceAll s old new) old" by simp
          from ReplaceAll_prefix [OF this 1(3-5)] False show False by simp
        next
          case (Cons x xs)
          with occ e have "ReplaceAll cs old new = xs @ old @ b" by simp
          with 1(2) [OF \<open>s = c # cs\<close>, of xs] False 1(3-5) show False by simp
        qed
      qed
    qed
  qed
qed

end
