(* ===== verification/NetIP.thy ===== *)
theory NetIP
  imports GoStrings
begin

text \<open>
  IP literals as Go reads them: \<^verbatim>\<open>net.ParseIP\<close> over \<^verbatim>\<open>netip.ParseAddr\<close>, and the predicates on
  the 16-byte form that the program uses. The control plane checks the bind address of
  instances and the hosts of remote databases with them. An address is the list of its 16
  byte values, an IPv4 one in its IPv4-mapped form; a zone is refused by \<^verbatim>\<open>net.ParseIP\<close>.
\<close>

section \<open>Parsing\<close>

text \<open>\<open>parseIPv4Fields\<close>: \<open>digLen\<close> counts the digits of the current field and \<open>fields\<close> holds the
  finished ones.\<close>

fun ipv4_loop :: "string \<Rightarrow> nat \<Rightarrow> nat \<Rightarrow> nat list \<Rightarrow> nat list option" where
  "ipv4_loop [] val digLen fields = (if length fields < 3 then None else Some (fields @ [val]))"
| "ipv4_loop (c # cs) val digLen fields =
     (if is_digit c then
        if digLen = 1 \<and> val = 0 then None
        else let v = 10 * val + digit_val c in
          if v > 255 then None else ipv4_loop cs v (Suc digLen) fields
      else if c = CHR ''.'' then
        if digLen = 0 \<or> cs = [] \<or> length fields = 3 then None
        else ipv4_loop cs 0 0 (fields @ [val])
      else None)"

definition parseIPv4Fields :: "string \<Rightarrow> nat list option" where
  "parseIPv4Fields s = ipv4_loop s 0 0 []"

definition hex_val :: "char \<Rightarrow> nat option" where
  "hex_val c = (let b = byte_val c in
     if is_digit c then Some (digit_val c)
     else if 97 \<le> b \<and> b \<le> 102 then Some (b - 87)
     else if 65 \<le> b \<and> b \<le> 70 then Some (b - 55)
     else None)"

text \<open>One group of hexadecimal digits: its value, the number of digits and the rest; more than four digits
  are an error.\<close>

fun hex_group :: "string \<Rightarrow> nat \<Rightarrow> nat \<Rightarrow> (nat \<times> nat \<times> string) option" where
  "hex_group [] acc off = Some (acc, off, [])"
| "hex_group (c # cs) acc off =
     (case hex_val c of
        None \<Rightarrow> Some (acc, off, c # cs)
      | Some v \<Rightarrow> if off > 3 then None else hex_group cs (16 * acc + v) (Suc off))"

lemma hex_group_shorter: "hex_group s acc off = Some (a, n, rest) \<Longrightarrow> off \<le> n \<and> length rest + n = length s + off"
  by (induction s acc off rule: hex_group.induct) (fastforce split: option.splits if_splits)+

text \<open>The loop of \<open>parseIPv6\<close>: the bytes so far, the position of the ellipsis and the rest of the string. The result is
  the bytes and the ellipsis once the whole string is used.\<close>

function ipv6_loop :: "nat list \<Rightarrow> nat option \<Rightarrow> string \<Rightarrow> (nat list \<times> nat option) option" where
  "ipv6_loop ip ellipsis s =
     (if 16 \<le> length ip then (if s = [] then Some (ip, ellipsis) else None)
      else case hex_group s 0 0 of
          None \<Rightarrow> None
        | Some (acc, off, rest) \<Rightarrow>
            if off = 0 then None
            else if rest \<noteq> [] \<and> hd rest = CHR ''.'' then
              if ellipsis = None \<and> length ip \<noteq> 12 then None
              else if length ip + 4 > 16 then None
              else map_option (\<lambda>v4. (ip @ v4, ellipsis)) (parseIPv4Fields s)
            else
              let ip' = ip @ [acc div 256, acc mod 256] in
              if rest = [] then Some (ip', ellipsis)
              else if hd rest \<noteq> CHR '':'' \<or> tl rest = [] then None
              else if hd (tl rest) = CHR '':'' then
                if ellipsis \<noteq> None then None
                else if tl (tl rest) = [] then Some (ip', Some (length ip'))
                else ipv6_loop ip' (Some (length ip')) (tl (tl rest))
              else ipv6_loop ip' ellipsis (tl rest))"
  by pat_completeness auto
termination
  by (relation "measure (\<lambda>(ip, e, s). length s)") (auto dest!: hex_group_shorter simp: le_imp_less_Suc)

declare ipv6_loop.simps [simp del]

definition expand_ellipsis :: "nat list \<times> nat option \<Rightarrow> nat list option" where
  "expand_ellipsis p = (case p of (ip, ellipsis) \<Rightarrow>
     if length ip < 16 then
       map_option (\<lambda>e. take e ip @ replicate (16 - length ip) 0 @ drop e ip) ellipsis
     else if ellipsis \<noteq> None then None else Some ip)"

definition parseIPv6 :: "string \<Rightarrow> nat list option" where
  "parseIPv6 s =
     (if HasPrefix s ''::'' then
        if drop 2 s = [] then Some (replicate 16 0)
        else Option.bind (ipv6_loop [] (Some 0) (drop 2 s)) expand_ellipsis
      else Option.bind (ipv6_loop [] None s) expand_ellipsis)"

text \<open>The first of the three characters decides; a string with a zone is refused, whatever the address before it.\<close>

fun ip_kind :: "string \<Rightarrow> char option" where
  "ip_kind [] = None"
| "ip_kind (c # cs) = (if c = CHR ''.'' \<or> c = CHR '':'' \<or> c = CHR ''%'' then Some c else ip_kind cs)"

definition v4_mapped :: "nat list \<Rightarrow> nat list" where
  "v4_mapped v4 = replicate 10 0 @ [255, 255] @ v4"

definition ParseIP :: "string \<Rightarrow> nat list option" where
  "ParseIP s = (case ip_kind s of
       None \<Rightarrow> None
     | Some c \<Rightarrow>
         if c = CHR ''.'' then map_option v4_mapped (parseIPv4Fields s)
         else if c = CHR '':'' then (if CHR ''%'' \<in> set s then None else parseIPv6 s)
         else None)"

section \<open>Predicates\<close>

definition To4 :: "nat list \<Rightarrow> nat list option" where
  "To4 ip = (if length ip = 16 \<and> take 12 ip = replicate 10 0 @ [255, 255] then Some (drop 12 ip) else None)"

definition IsLinkLocalUnicast :: "nat list \<Rightarrow> bool" where
  "IsLinkLocalUnicast ip = (case To4 ip of
       Some v4 \<Rightarrow> v4 ! 0 = 169 \<and> v4 ! 1 = 254
     | None \<Rightarrow> length ip = 16 \<and> ip ! 0 = 254 \<and> ip ! 1 div 64 = 2)"

definition IsLinkLocalMulticast :: "nat list \<Rightarrow> bool" where
  "IsLinkLocalMulticast ip = (case To4 ip of
       Some v4 \<Rightarrow> v4 ! 0 = 224 \<and> v4 ! 1 = 0 \<and> v4 ! 2 = 0
     | None \<Rightarrow> length ip = 16 \<and> ip ! 0 = 255 \<and> ip ! 1 mod 16 = 2)"

section \<open>Dotted quads\<close>

definition dotted :: "nat \<Rightarrow> nat \<Rightarrow> nat \<Rightarrow> nat \<Rightarrow> string" where
  "dotted a b c d = show_nat a @ ''.'' @ show_nat b @ ''.'' @ show_nat c @ ''.'' @ show_nat d"

text \<open>The digits of a field, read after the fields before it.\<close>

lemma ipv4_field:
  assumes "n \<le> 255"
  shows "ipv4_loop (show_nat n @ rest) 0 0 fields = ipv4_loop rest n (length (show_nat n)) fields"
  using assms
proof (induction n arbitrary: rest rule: show_nat.induct)
  case (1 n)
  have d: "is_digit (digit_char (n mod 10))" "digit_val (digit_char (n mod 10)) = n mod 10"
    by (simp_all add: is_digit_digit_char digit_val_digit_char)
  show ?case
  proof (cases "n < 10")
    case True
    then have "show_nat n = [digit_char n]" by (subst show_nat.simps) simp
    with True d 1(2) show ?thesis by simp
  next
    case False
    then have n: "show_nat n = show_nat (n div 10) @ [digit_char (n mod 10)]" by (subst show_nat.simps) simp
    have "10 * (n div 10) + n mod 10 = n" "n div 10 \<noteq> 0" using False by auto
    with 1(1) [OF False, of "[digit_char (n mod 10)] @ rest"] 1(2) d n show ?thesis by simp
  qed
qed

lemma ParseIP_dotted:
  assumes "a \<le> 255" "b \<le> 255" "c \<le> 255" "d \<le> 255"
  shows "ParseIP (dotted a b c d) = Some (v4_mapped [a, b, c, d])"
proof -
  have nd: "\<not> is_digit (CHR ''.'')" by (simp add: is_digit_def byte_val_def)
  have "ip_kind (ds @ CHR ''.'' # r) = Some (CHR ''.'')" if "list_all is_digit ds" for ds r
    using that by (induction ds) (auto simp: is_digit_def byte_val_def)
  then have "ip_kind (dotted a b c d) = Some (CHR ''.'')" using show_nat_digits [of a] by (simp add: dotted_def)
  moreover have "parseIPv4Fields (dotted a b c d) = Some [a, b, c, d]"
    using assms nd ipv4_field [of d "[]"] by (simp add: parseIPv4Fields_def dotted_def ipv4_field)
  ultimately show ?thesis by (simp add: ParseIP_def)
qed

text \<open>Every literal that parses has 16 bytes.\<close>

lemma ipv4_length: "ipv4_loop s v n fs = Some xs \<Longrightarrow> length fs \<le> 3 \<Longrightarrow> length xs = 4 \<and> (\<forall>x\<in>set xs. x \<le> 255 \<or> x \<in> set fs \<or> x = v)"
  by (induction s v n fs rule: ipv4_loop.induct) (fastforce simp: Let_def split: if_splits)+

section \<open>Graphic text\<close>

text \<open>The printable ASCII characters but the space: text made of them has nothing to trim.\<close>

definition graphic :: "char \<Rightarrow> bool" where
  "graphic c \<longleftrightarrow> 33 \<le> byte_val c \<and> byte_val c \<le> 126"

lemma space_not_graphic: "r \<in> set space_runes \<Longrightarrow> c \<in> set r \<Longrightarrow> \<not> graphic c"
proof -
  have "list_all (list_all (\<lambda>c. \<not> graphic c)) space_runes" by code_simp
  then show "r \<in> set space_runes \<Longrightarrow> c \<in> set r \<Longrightarrow> \<not> graphic c" by (auto simp: list_all_iff)
qed

lemma HasPrefix_set: "HasPrefix s r \<Longrightarrow> set r \<subseteq> set s"
  unfolding HasPrefix_def by (metis set_take_subset)

lemma HasPrefix_not_graphic:
  assumes "list_all graphic s" "r \<in> set space_runes"
  shows "\<not> HasPrefix s r \<and> \<not> HasPrefix (rev s) (rev r)"
proof -
  obtain c where "c \<in> set r" using space_runes_nonempty [OF assms(2)] by (cases r) auto
  then have "c \<notin> set s" using assms space_not_graphic by (auto simp: list_all_iff)
  with \<open>c \<in> set r\<close> show ?thesis using HasPrefix_set [of s r] HasPrefix_set [of "rev s" "rev r"] by auto
qed

lemma TrimSpace_graphic: "list_all graphic s \<Longrightarrow> TrimSpace s = s"
proof -
  assume s: "list_all graphic s"
  then have "leading_space s = None" "trailing_space s = None"
    using HasPrefix_not_graphic [OF s] by (auto simp: leading_space_def trailing_space_def find_None_iff)
  then show ?thesis by (simp add: TrimSpace_def TrimLeftSpace.simps [of s] TrimRightSpace.simps [of s])
qed

lemma graphic_digit: "is_digit c \<Longrightarrow> graphic c"
  by (simp add: is_digit_def graphic_def)

lemma TrimSpace_dotted: "TrimSpace (dotted a b c d) = dotted a b c d"
proof (rule TrimSpace_graphic)
  have "list_all graphic (show_nat n)" for n
    using show_nat_digits [of n] graphic_digit by (auto simp: list_all_iff)
  moreover have "graphic (CHR ''.'')" by (simp add: graphic_def byte_val_def)
  ultimately show "list_all graphic (dotted a b c d)" by (simp add: dotted_def)
qed

end
