(* ===== verification/GoURLParse.thy ===== *)
theory GoURLParse
  imports PgTools NetIP
begin

text \<open>
  \<^verbatim>\<open>url.Parse\<close> and \<^verbatim>\<open>URL.String\<close> of the standard library, which the control plane uses on the DSN
  of its meta database, the webhook address and the \<^verbatim>\<open>Origin\<close> header. The functions and their
  cases are those of the library; a URL is the library's struct. Bytes above 127 are
  ordinary characters. \<open>parse_error\<close> is the \<^verbatim>\<open>url.Error\<close> the library wraps a cause in.
\<close>

section \<open>Escaping\<close>

datatype enc = EncHost | EncZone | EncUser | EncPath | EncFragment

text \<open>\<open>shouldEscape\<close> for the five modes; the two that build a DSN are those of \<open>GoURL\<close>.\<close>

definition must_escape :: "enc \<Rightarrow> char \<Rightarrow> bool" where
  "must_escape m c =
     (if url_plain c then False
      else if m = EncHost \<or> m = EncZone then shouldEscape encodeHost c
      else if m = EncUser then shouldEscape encodeUserPassword c
      else if c \<in> set ''$&+,/:;=?@'' then m = EncPath \<and> c = CHR ''?''
      else if m = EncFragment \<and> c \<in> set ''!()*'' then False
      else True)"

definition escape_url :: "enc \<Rightarrow> string \<Rightarrow> string" where
  "escape_url m s = concat (map (\<lambda>c.
     if must_escape m c then [CHR ''%'', upperhex (byte_val c div 16), upperhex (byte_val c mod 16)] else [c]) s)"

definition EscapeError :: "string \<Rightarrow> goerr" where
  "EscapeError s = Plain (''invalid URL escape '' @ Quote (take 3 s))"

definition InvalidHostError :: "char \<Rightarrow> goerr" where
  "InvalidHostError c = Plain (''invalid character '' @ Quote [c] @ '' in host name'')"

fun unescape :: "enc \<Rightarrow> string \<Rightarrow> goerr + string" where
  "unescape m [] = Inr []"
| "unescape m (c # s) =
     (if c = CHR ''%'' then
        (case s of
           a # b # t \<Rightarrow>
             if \<not> (ishex a \<and> ishex b) then Inl (EscapeError (c # s))
             else if m = EncHost \<and> unhex a < 8 \<and> [a, b] \<noteq> ''25'' then Inl (EscapeError (c # s))
             else if m = EncZone \<and> [a, b] \<noteq> ''25'' \<and> 16 * unhex a + unhex b \<noteq> 32 \<and>
                 shouldEscape encodeHost (char_of (16 * unhex a + unhex b)) then Inl (EscapeError (c # s))
             else map_sum id ((#) (char_of (16 * unhex a + unhex b))) (unescape m t)
         | _ \<Rightarrow> Inl (EscapeError (c # s)))
      else if (m = EncHost \<or> m = EncZone) \<and> byte_val c < 128 \<and> must_escape m c then Inl (InvalidHostError c)
      else map_sum id ((#) c) (unescape m s))"

section \<open>Parsing\<close>

record url =
  u_Scheme :: string
  u_Opaque :: string
  u_User :: "(string \<times> string option) option"
  u_Host :: string
  u_Path :: string
  u_RawPath :: string
  u_OmitHost :: bool
  u_ForceQuery :: bool
  u_RawQuery :: string
  u_Fragment :: string
  u_RawFragment :: string

definition empty_url :: url where
  "empty_url = \<lparr>u_Scheme = [], u_Opaque = [], u_User = None, u_Host = [], u_Path = [], u_RawPath = [], u_OmitHost = False,
     u_ForceQuery = False, u_RawQuery = [], u_Fragment = [], u_RawFragment = []\<rparr>"

text \<open>The scheme and the rest; \<open>pre\<close> holds the characters read so far.\<close>

fun getScheme :: "string \<Rightarrow> string \<Rightarrow> goerr + string \<times> string" where
  "getScheme pre [] = Inr ([], pre)"
| "getScheme pre (c # s) =
     (if is_lower c \<or> is_upper c then getScheme (pre @ [c]) s
      else if is_digit c \<or> c \<in> set ''+-.'' then
        if pre = [] then Inr ([], c # s) else getScheme (pre @ [c]) s
      else if c = CHR '':'' then
        if pre = [] then Inl (Plain ''missing protocol scheme'') else Inr (pre, s)
      else Inr ([], pre @ c # s))"

text \<open>\<^verbatim>\<open>strings.LastIndex\<close> of a character: what precedes its last occurrence and what follows.\<close>

definition cut_last :: "char \<Rightarrow> string \<Rightarrow> (string \<times> string) option" where
  "cut_last c s =
     (if c \<in> set s then
        Some (rev (tl (dropWhile (\<lambda>x. x \<noteq> c) (rev s))), rev (takeWhile (\<lambda>x. x \<noteq> c) (rev s)))
      else None)"

definition validOptionalPort :: "string \<Rightarrow> bool" where
  "validOptionalPort port \<longleftrightarrow> port = [] \<or> hd port = CHR '':'' \<and> list_all is_digit (tl port)"

definition bad_port :: "string \<Rightarrow> goerr" where
  "bad_port colonPort = Plain (''invalid port '' @ Quote colonPort @ '' after host'')"

text \<open>A host in brackets has to be an IPv6 address, with a zone after \<^verbatim>\<open>%25\<close>.\<close>

definition parse_bracketed :: "string \<Rightarrow> goerr + string" where
  "parse_bracketed host = (case cut_last (CHR '']'') host of
       None \<Rightarrow> Inl (Plain (''missing '' @ [squote, CHR '']'', squote] @ '' in host''))
     | Some (before, colonPort) \<Rightarrow>
         if \<not> validOptionalPort colonPort then Inl (bad_port colonPort)
         else
           let hostname = (case cut_last (CHR ''['') before of None \<Rightarrow> before | Some (_, h) \<Rightarrow> h);
               parts = (case Index hostname ''%25'' of
                   None \<Rightarrow> map_sum id (\<lambda>h. (h, [])) (unescape EncHost hostname)
                 | Some i \<Rightarrow> (case (unescape EncHost (take i hostname), unescape EncZone (drop i hostname)) of
                     (Inl e, _) \<Rightarrow> Inl e | (Inr _, Inl e) \<Rightarrow> Inl e | (Inr h, Inr z) \<Rightarrow> Inr (h, z))) in
           case parts of
             Inl e \<Rightarrow> Inl e
           | Inr (h, z) \<Rightarrow>
               if CHR '':'' \<notin> set h \<or> parseIPv6 h = None \<or> z = ''%'' then Inl (Plain (''invalid host: '' @ h @ z))
               else Inr (''['' @ h @ z @ '']'' @ colonPort))"

definition parseHost :: "string \<Rightarrow> goerr + string" where
  "parseHost host =
     (if CHR ''['' \<in> set host then parse_bracketed host
      else case cut_last (CHR '':'') host of
          Some (_, port) \<Rightarrow>
            if \<not> validOptionalPort ('':'' @ port) then Inl (bad_port ('':'' @ port)) else unescape EncHost host
        | None \<Rightarrow> unescape EncHost host)"

definition validUserinfo :: "string \<Rightarrow> bool" where
  "validUserinfo s \<longleftrightarrow> list_all (\<lambda>c. is_lower c \<or> is_upper c \<or> is_digit c \<or> c \<in> set ''-._:~!$&()*+,;=%@'' \<or> c = squote) s"

definition parseAuthority :: "string \<Rightarrow> goerr + (string \<times> string option) option \<times> string" where
  "parseAuthority authority = (case cut_last (CHR ''@'') authority of
       None \<Rightarrow> map_sum id (\<lambda>h. (None, h)) (parseHost authority)
     | Some (userinfo, hostpart) \<Rightarrow>
         (case parseHost hostpart of
            Inl e \<Rightarrow> Inl e
          | Inr host \<Rightarrow>
              if \<not> validUserinfo userinfo then Inl (Plain ''net/url: invalid userinfo'')
              else (case Cut userinfo (CHR '':'') of (u, p, found) \<Rightarrow>
                if \<not> found then map_sum id (\<lambda>u'. (Some (u', None), host)) (unescape EncUser userinfo)
                else (case (unescape EncUser u, unescape EncUser p) of
                    (Inl e, _) \<Rightarrow> Inl e
                  | (Inr _, Inl e) \<Rightarrow> Inl e
                  | (Inr u', Inr p') \<Rightarrow> Inr (Some (u', Some p'), host)))))"

definition setPath :: "string \<Rightarrow> url \<Rightarrow> goerr + url" where
  "setPath p u = map_sum id (\<lambda>path. u\<lparr>u_Path := path, u_RawPath := (if p = escape_url EncPath path then [] else p)\<rparr>) (unescape EncPath p)"

definition setFragment :: "string \<Rightarrow> url \<Rightarrow> goerr + url" where
  "setFragment f u = map_sum id (\<lambda>frag. u\<lparr>u_Fragment := frag, u_RawFragment := (if f = escape_url EncFragment frag then [] else f)\<rparr>)
     (unescape EncFragment f)"

definition split_query :: "string \<Rightarrow> string \<times> bool \<times> string" where
  "split_query rest =
     (if rest \<noteq> [] \<and> last rest = CHR ''?'' \<and> CHR ''?'' \<notin> set (butlast rest) then (butlast rest, True, [])
      else (case Cut rest (CHR ''?'') of (r, q, _) \<Rightarrow> (r, False, q)))"

definition parse_rest :: "string \<Rightarrow> url \<Rightarrow> goerr + url" where
  "parse_rest rest u =
     (if \<not> HasPrefix rest ''/'' \<and> u_Scheme u \<noteq> [] then Inr (u\<lparr>u_Opaque := rest\<rparr>)
      else if \<not> HasPrefix rest ''/'' \<and> CHR '':'' \<in> set (fst (Cut rest (CHR ''/''))) then
        Inl (Plain ''first path segment in URL cannot contain colon'')
      else if HasPrefix rest ''//'' \<and> (u_Scheme u \<noteq> [] \<or> \<not> HasPrefix rest ''///'') then
        (let authority = takeWhile (\<lambda>c. c \<noteq> CHR ''/'') (drop 2 rest); path = dropWhile (\<lambda>c. c \<noteq> CHR ''/'') (drop 2 rest) in
         case parseAuthority authority of
           Inl e \<Rightarrow> Inl e
         | Inr (user, host) \<Rightarrow> setPath path (u\<lparr>u_User := user, u_Host := host\<rparr>))
      else setPath rest (u\<lparr>u_OmitHost := (u_Scheme u \<noteq> [] \<and> HasPrefix rest ''/'')\<rparr>))"

definition parse_url :: "string \<Rightarrow> goerr + url" where
  "parse_url raw =
     (if list_ex (\<lambda>c. byte_val c < 32 \<or> byte_val c = 127) raw then Inl (Plain ''net/url: invalid control character in URL'')
      else if raw = ''*'' then Inr (empty_url\<lparr>u_Path := ''*''\<rparr>)
      else case getScheme [] raw of
          Inl e \<Rightarrow> Inl e
        | Inr (scheme, rest) \<Rightarrow>
            (case split_query rest of (r, force, q) \<Rightarrow>
               parse_rest r (empty_url\<lparr>u_Scheme := ToLower scheme, u_ForceQuery := force, u_RawQuery := q\<rparr>)))"

definition parse_error :: "string \<Rightarrow> goerr \<Rightarrow> goerr" where
  "parse_error raw e = Wrapf (''parse '' @ Quote raw @ '': '') e"

definition url_Parse :: "string \<Rightarrow> goerr + url" where
  "url_Parse raw = (case Cut raw (CHR ''#'') of (s, frag, _) \<Rightarrow>
     (case parse_url s of
        Inl e \<Rightarrow> Inl (parse_error s e)
      | Inr u \<Rightarrow> if frag = [] then Inr u
          else (case setFragment frag u of Inl e \<Rightarrow> Inl (parse_error raw e) | Inr u' \<Rightarrow> Inr u')))"

section \<open>Printing\<close>

definition validEncoded :: "enc \<Rightarrow> string \<Rightarrow> bool" where
  "validEncoded m s \<longleftrightarrow> list_all (\<lambda>c. c \<in> set ''!$&()*+,;=:@[]%'' \<or> c = squote \<or> \<not> must_escape m c) s"

definition escaped_part :: "enc \<Rightarrow> string \<Rightarrow> string \<Rightarrow> string" where
  "escaped_part m raw p =
     (if raw \<noteq> [] \<and> validEncoded m raw \<and> unescape m raw = Inr p then raw
      else if m = EncPath \<and> p = ''*'' then ''*'' else escape_url m p)"

definition user_string :: "string \<times> string option \<Rightarrow> string" where
  "user_string ui = (case ui of (u, p) \<Rightarrow>
     escape_url EncUser u @ (case p of None \<Rightarrow> [] | Some pw \<Rightarrow> '':'' @ escape_url EncUser pw))"

definition url_String :: "url \<Rightarrow> string" where
  "url_String u =
     (if u_Scheme u \<noteq> [] then u_Scheme u @ '':'' else []) @
     (if u_Opaque u \<noteq> [] then u_Opaque u
      else
        (if u_Scheme u \<noteq> [] \<or> u_Host u \<noteq> [] \<or> u_User u \<noteq> None then
           if u_OmitHost u \<and> u_Host u = [] \<and> u_User u = None then []
           else (if u_Host u \<noteq> [] \<or> u_Path u \<noteq> [] \<or> u_User u \<noteq> None then ''//'' else []) @
             (case u_User u of None \<Rightarrow> [] | Some ui \<Rightarrow> user_string ui @ ''@'') @
             (if u_Host u \<noteq> [] then escape_url EncHost (u_Host u) else [])
         else []) @
        (let path = escaped_part EncPath (u_RawPath u) (u_Path u) in
         (if path \<noteq> [] \<and> hd path \<noteq> CHR ''/'' \<and> u_Host u \<noteq> [] then ''/'' else []) @
         (if u_Scheme u = [] \<and> u_Host u = [] \<and> u_User u = None \<and> CHR '':'' \<in> set (fst (Cut path (CHR ''/''))) then ''./'' else []) @
         path)) @
     (if u_ForceQuery u \<or> u_RawQuery u \<noteq> [] then ''?'' @ u_RawQuery u else []) @
     (if u_Fragment u \<noteq> [] then ''#'' @ escaped_part EncFragment (u_RawFragment u) (u_Fragment u) else [])"

section \<open>Reading back a URL with credentials\<close>

lemma url_plain_cases: "url_plain c \<Longrightarrow> graphic c \<and> c \<notin> set ''#%/:?@[]'' \<and> (is_lower c \<or> is_upper c \<or> is_digit c \<or> c \<in> set ''-_.~'')"
  by (auto simp: url_plain_def graphic_def is_lower_def is_upper_def is_digit_def byte_val_def)

definition user_char :: "char \<Rightarrow> bool" where
  "user_char c \<longleftrightarrow> graphic c \<and> c \<notin> set ''#/:?@[]'' \<and> (is_lower c \<or> is_upper c \<or> is_digit c \<or> c \<in> set ''-_.~%$&+,;='')"

lemma user_chars:
  assumes "c \<in> set (url_escape encodeUserPassword s)"
  shows "user_char c"
proof -
  have lit: "list_all user_char ''%$&+,;=''" by (simp add: user_char_def graphic_def byte_val_def)
  have "c \<in> set ''%$&+,;='' \<or> url_plain c"
    using url_escape_set [OF assms] by (auto simp: shouldEscape_def split: if_splits)
  then show ?thesis
  proof
    assume "c \<in> set ''%$&+,;=''"
    with lit show ?thesis unfolding list_all_iff by blast
  next
    assume "url_plain c"
    from url_plain_cases [OF this] have "graphic c" "c \<notin> set ''#%/:?@[]''"
      "is_lower c \<or> is_upper c \<or> is_digit c \<or> c \<in> set ''-_.~''" by blast+
    moreover have "set ''#/:?@[]'' \<subseteq> set ''#%/:?@[]''" "set ''-_.~'' \<subseteq> set ''-_.~%$&+,;=''" by (simp_all add: subset_insertI2)
    ultimately show ?thesis unfolding user_char_def by blast
  qed
qed

lemma unescape_user: "unescape EncUser (url_escape encodeUserPassword s) = Inr s"
proof (induction s)
  case (Cons c s)
  have "16 * (byte_val c div 16) + byte_val c mod 16 = byte_val c" by simp
  moreover have "byte_val c div 16 < 16" using byte_val_less [of c] by (simp add: less_mult_imp_div_less)
  ultimately show ?case
    using Cons percent_escaped upperhex_hex [of "byte_val c div 16"] upperhex_hex [of "byte_val c mod 16"] by auto
qed simp

text \<open>Text of characters that need no escape is read and printed as it is.\<close>

lemma unescape_plain: "list_all (\<lambda>c. c \<noteq> CHR ''%'' \<and> \<not> must_escape m c) s \<Longrightarrow> unescape m s = Inr s"
  by (induction s) auto

lemma escape_plain: "list_all (\<lambda>c. \<not> must_escape m c) s \<Longrightarrow> escape_url m s = s"
  by (induction s) (auto simp: escape_url_def)

lemma escape_user: "escape_url EncUser s = url_escape encodeUserPassword s"
  by (auto simp: escape_url_def url_escape_def must_escape_def shouldEscape_def intro!: arg_cong [of _ _ concat])

lemma getScheme_letters:
  "list_all is_lower a \<Longrightarrow> pre @ a \<noteq> [] \<Longrightarrow> getScheme pre (a @ CHR '':'' # r) = Inr (pre @ a, r)"
  by (induction a arbitrary: pre) (auto simp: is_lower_def is_upper_def is_digit_def byte_val_def)

lemma ToLower_lower: "list_all is_lower a \<Longrightarrow> ToLower a = a"
proof (induction a)
  case (Cons c a)
  then have "\<not> HasPrefix (c # a) [CHR 0xC4, CHR 0xB0]" "\<not> HasPrefix (c # a) [CHR 0xE2, CHR 0x84, CHR 0xAA]" "lower_char c = c"
    by (auto simp: HasPrefix_def is_lower_def is_upper_def byte_val_def lower_char_def)
  with Cons show ?case by simp
qed simp

lemma cut_last_unique: "c \<notin> set b \<Longrightarrow> cut_last c (a @ c # b) = Some (a, b)"
proof -
  assume "c \<notin> set b"
  then have "\<forall>x\<in>set (rev b). x \<noteq> c" by auto
  then show ?thesis by (simp add: cut_last_def dropWhile_stop takeWhile_stop)
qed

lemma cut_last_None: "c \<notin> set b \<Longrightarrow> cut_last c b = None"
  by (simp add: cut_last_def)

lemma Cut_none: "c \<notin> set s \<Longrightarrow> Cut s c = (s, [], False)"
  by (induction s) auto

definition host_and_port :: "string \<Rightarrow> nat \<Rightarrow> string" where
  "host_and_port h n = h @ '':'' @ show_nat n"

lemma host_port_plain: "list_all url_plain h \<Longrightarrow> list_all (\<lambda>c. c \<noteq> CHR ''%'' \<and> \<not> must_escape EncHost c) (host_and_port h n)"
proof -
  have "list_all url_plain (show_nat n)" using show_nat_digits [of n] by (auto simp: list_all_iff url_plain_def)
  moreover have "\<not> must_escape EncHost (CHR '':'')" by (simp add: must_escape_def shouldEscape_def)
  moreover have "url_plain c \<Longrightarrow> c \<noteq> CHR ''%'' \<and> \<not> must_escape EncHost c" for c
    using url_plain_cases [of c] by (auto simp: must_escape_def)
  ultimately show "list_all url_plain h \<Longrightarrow> ?thesis" by (auto simp: host_and_port_def list_all_iff)
qed

lemma parseHost_port:
  assumes "list_all url_plain h"
  shows "parseHost (host_and_port h n) = Inr (host_and_port h n)"
proof -
  have d: "list_all is_digit (show_nat n)" by (rule show_nat_digits)
  then have "CHR '':'' \<notin> set (show_nat n)" "CHR ''['' \<notin> set (show_nat n)"
    by (auto simp: list_all_iff is_digit_def byte_val_def)
  moreover have "CHR ''['' \<notin> set h" using assms url_plain_cases by (fastforce simp: list_all_iff)
  ultimately show ?thesis
    using d unescape_plain [OF host_port_plain [OF assms]] by (simp add: parseHost_def host_and_port_def cut_last_unique validOptionalPort_def)
qed

lemma escape_host: "escape_url EncHost s = url_escape encodeHost s"
  by (auto simp: escape_url_def url_escape_def must_escape_def shouldEscape_def intro!: arg_cong [of _ _ concat])

lemma escape_host_port:
  assumes "list_all url_plain h"
  shows "url_escape encodeHost (host_and_port h n) = host_and_port h n"
proof -
  have "list_all (\<lambda>c. \<not> must_escape EncHost c) (host_and_port h n)"
    using host_port_plain [OF assms, of n] by (simp add: list_all_iff)
  from escape_plain [OF this] show ?thesis by (simp add: escape_host)
qed

lemma host_chars: "list_all url_plain h \<Longrightarrow> c \<in> set (host_and_port h n) \<Longrightarrow> graphic c \<and> c \<notin> set ''#/?@''"
proof -
  assume h: "list_all url_plain h" and c: "c \<in> set (host_and_port h n)"
  have "list_all url_plain (show_nat n)" using show_nat_digits [of n] by (auto simp: list_all_iff url_plain_def)
  with h c have "url_plain c \<or> c = CHR '':''" by (auto simp: host_and_port_def list_all_iff)
  moreover have "graphic (CHR '':'') \<and> CHR '':'' \<notin> set ''#/?@''" by (simp add: graphic_def byte_val_def)
  moreover have "graphic c \<and> c \<notin> set ''#/?@''" if "url_plain c"
    using url_plain_cases [OF that] by simp
  ultimately show ?thesis by blast
qed

lemma validUserinfo_chars: "validUserinfo s \<longleftrightarrow> (\<forall>c\<in>set s. validUserinfo [c])"
  by (simp add: validUserinfo_def list_all_iff)

lemma split_query_tail:
  assumes "CHR ''?'' \<notin> set a" "CHR ''?'' \<notin> set q" "a \<noteq> []"
  shows "split_query (a @ (if q \<noteq> [] then ''?'' @ q else [])) = (a, False, q)"
proof (cases "q = []")
  case True
  moreover have "last a \<noteq> CHR ''?''" using assms(1,3) last_in_set by metis
  ultimately show ?thesis using assms by (simp add: split_query_def Cut_none)
next
  case False
  then have "last q \<noteq> CHR ''?''" using assms(2) last_in_set by metis
  with False assms(1) show ?thesis by (simp add: split_query_def Cut_first)
qed

lemma parseAuthority_user:
  assumes "list_all url_plain h"
  shows "parseAuthority (url_escape encodeUserPassword user @ '':'' @ url_escape encodeUserPassword pw @ ''@'' @ host_and_port h n)
    = Inr (Some (user, Some pw), host_and_port h n)"
proof -
  let ?u = "url_escape encodeUserPassword user" and ?p = "url_escape encodeUserPassword pw"
  have "CHR ''@'' \<notin> set (host_and_port h n)" using host_chars [OF assms] by fastforce
  then have "cut_last (CHR ''@'') ((?u @ '':'' @ ?p) @ CHR ''@'' # host_and_port h n) = Some (?u @ '':'' @ ?p, host_and_port h n)"
    by (rule cut_last_unique)
  moreover have "validUserinfo (?u @ '':'' @ ?p)"
  proof -
    have v: "validUserinfo [c]" if "user_char c" for c using that by (auto simp: user_char_def validUserinfo_def)
    have "validUserinfo '':''" by (simp add: validUserinfo_def)
    with v user_chars show ?thesis by (subst validUserinfo_chars) auto
  qed
  moreover have "CHR '':'' \<notin> set ?u" by (simp add: delimiters_escaped)
  ultimately show ?thesis
    by (simp add: parseAuthority_def parseHost_port [OF assms] Cut_first unescape_user)
qed

text \<open>A connection URL with credentials parses into its parts.\<close>

lemma url_Parse_string:
  assumes scheme: "scheme \<noteq> []" "list_all is_lower scheme" and h: "list_all url_plain h" and t: "list_all url_plain t"
    and q: "list_all (\<lambda>c. graphic c \<and> c \<notin> set ''#?'') query"
  shows "url_Parse (url_string scheme user pw (host_and_port h n) (CHR ''/'' # t) query) =
    Inr (empty_url\<lparr>u_Scheme := scheme, u_RawQuery := query, u_User := Some (user, Some pw), u_Host := host_and_port h n,
      u_Path := CHR ''/'' # t\<rparr>)"
proof -
  let ?auth = "url_escape encodeUserPassword user @ '':'' @ url_escape encodeUserPassword pw @ ''@'' @ host_and_port h n"
  let ?front = "''//'' @ ?auth @ CHR ''/'' # t" and ?tail = "if query \<noteq> [] then ''?'' @ query else []"
  let ?raw = "scheme @ '':'' @ ?front @ ?tail"
  have raw: "url_string scheme user pw (host_and_port h n) (CHR ''/'' # t) query = ?raw"
    by (simp add: url_string_def escape_host_port [OF h])
  have auth: "graphic c \<and> c \<notin> set ''#/?''" if "c \<in> set ?auth" for c
  proof -
    have "c \<in> set '':@'' \<or> user_char c \<or> c \<in> set (host_and_port h n)" using that user_chars by auto
    moreover have "list_all (\<lambda>c. graphic c \<and> c \<notin> set ''#/?'') '':@''" by (simp add: graphic_def byte_val_def)
    moreover have "graphic c \<and> c \<notin> set ''#/?''" if "user_char c" using that by (simp add: user_char_def)
    moreover have "graphic c \<and> c \<notin> set ''#/?''" if "c \<in> set (host_and_port h n)" using host_chars [OF h that] by simp
    ultimately show ?thesis unfolding list_all_iff by blast
  qed
  have front: "graphic c \<and> c \<notin> set ''#?''" if "c \<in> set ?front" for c
  proof -
    have "c = CHR ''/'' \<or> c \<in> set ?auth \<or> url_plain c" using that t by (auto simp: list_all_iff)
    moreover have "graphic (CHR ''/'') \<and> CHR ''/'' \<notin> set ''#?''" by (simp add: graphic_def byte_val_def)
    moreover have "graphic c \<and> c \<notin> set ''#?''" if "c \<in> set ?auth" using auth [OF that] by simp
    moreover have "graphic c \<and> c \<notin> set ''#?''" if "url_plain c" using url_plain_cases [OF that] by simp
    ultimately show ?thesis by blast
  qed
  have all: "graphic c \<and> c \<noteq> CHR ''#''" if "c \<in> set ?raw" for c
  proof -
    have "graphic c \<and> c \<noteq> CHR ''#''" if "is_lower c" using that by (auto simp: is_lower_def graphic_def byte_val_def)
    moreover have "graphic (CHR '':'')" "graphic (CHR ''?'')" by (simp_all add: graphic_def byte_val_def)
    moreover have "c \<in> set scheme \<or> c = CHR '':'' \<or> c \<in> set ?front \<or> c = CHR ''?'' \<or> c \<in> set query"
      using that by (auto split: if_splits)
    ultimately show ?thesis using scheme(2) front [of c] q by (auto simp: list_all_iff)
  qed
  have "Cut ?raw (CHR ''#'') = (?raw, [], False)" using all by (intro Cut_none) blast
  moreover have "parse_url ?raw = Inr (empty_url\<lparr>u_Scheme := scheme, u_RawQuery := query, u_User := Some (user, Some pw),
      u_Host := host_and_port h n, u_Path := CHR ''/'' # t\<rparr>)"
  proof -
    have g: "\<not> (byte_val c < 32 \<or> byte_val c = 127)" if "graphic c" for c using that by (simp add: graphic_def)
    have "\<not> list_ex (\<lambda>c. byte_val c < 32 \<or> byte_val c = 127) ?raw" unfolding list_ex_iff using all g by blast
    moreover have "?raw \<noteq> ''*''" using scheme(1) by (cases scheme) auto
    moreover have "getScheme [] ?raw = Inr (scheme, ?front @ ?tail)"
      using getScheme_letters [of scheme "[]" "?front @ ?tail"] scheme by simp
    moreover have "split_query (?front @ ?tail) = (?front, False, query)"
      by (rule split_query_tail) (use front q in \<open>auto simp: list_all_iff\<close>)
    moreover have "parse_rest ?front (empty_url\<lparr>u_Scheme := scheme, u_RawQuery := query\<rparr>) =
        Inr (empty_url\<lparr>u_Scheme := scheme, u_RawQuery := query, u_User := Some (user, Some pw), u_Host := host_and_port h n, u_Path := CHR ''/'' # t\<rparr>)"
    proof -
      have no: "\<forall>c\<in>set ?auth. c \<noteq> CHR ''/''" using auth by fastforce
      have "takeWhile (\<lambda>c. c \<noteq> CHR ''/'') (?auth @ CHR ''/'' # t) = ?auth" using no by (rule takeWhile_stop) simp
      moreover have "dropWhile (\<lambda>c. c \<noteq> CHR ''/'') (?auth @ CHR ''/'' # t) = CHR ''/'' # t" using no by (rule dropWhile_stop) simp
      moreover have "list_all (\<lambda>c. c \<noteq> CHR ''%'' \<and> \<not> must_escape EncPath c) (CHR ''/'' # t)"
      proof -
        have "c \<noteq> CHR ''%'' \<and> \<not> must_escape EncPath c" if "url_plain c" for c
          using url_plain_cases [OF that] that by (simp add: must_escape_def)
        with t show ?thesis by (simp add: list_all_iff must_escape_def)
      qed
      then have "unescape EncPath (CHR ''/'' # t) = Inr (CHR ''/'' # t)" "escape_url EncPath (CHR ''/'' # t) = CHR ''/'' # t"
        by (rule unescape_plain, intro escape_plain) (simp add: list_all_iff)
      ultimately show ?thesis
        using scheme(1) by (simp add: parse_rest_def HasPrefix_def Let_def parseAuthority_user [OF h, simplified] setPath_def empty_url_def)
    qed
    ultimately show ?thesis by (simp add: parse_url_def ToLower_lower [OF scheme(2)] empty_url_def)
  qed
  ultimately show ?thesis by (simp add: url_Parse_def raw)
qed

end
