(* ===== verification/GoTime.thy ===== *)
theory GoTime
  imports GoStrings "HOL-Library.List_Lexorder" "HOL-Library.Char_ord"
begin

text \<open>
  The calendar of \<^verbatim>\<open>time.Time\<close> in UTC, as far as the program formats times: the layout
  \<^verbatim>\<open>20060102T150405Z\<close> of the object keys of dumps. A time is the number of seconds since 1970;
  the program only formats the present. The theory ends with what the keys rely on: for the
  years with four digits, the formatted stamps are ordered, byte by byte, as the times are.
\<close>

section \<open>Dates\<close>

definition leap :: "nat \<Rightarrow> bool" where
  "leap y \<longleftrightarrow> y mod 4 = 0 \<and> (y mod 100 \<noteq> 0 \<or> y mod 400 = 0)"

definition year_days :: "nat \<Rightarrow> nat" where
  "year_days y = (if leap y then 366 else 365)"

definition month_days :: "nat \<Rightarrow> nat list" where
  "month_days y = [31, if leap y then 29 else 28, 31, 30, 31, 30, 31, 31, 30, 31, 30, 31]"

text \<open>The year a day falls in and its number in that year; then its month and day, from 0.\<close>

function year_of :: "nat \<Rightarrow> nat \<Rightarrow> nat \<times> nat" where
  "year_of y d = (if d < year_days y then (y, d) else year_of (Suc y) (d - year_days y))"
  by pat_completeness auto
termination
  by (relation "measure snd") (auto simp: year_days_def)

declare year_of.simps [simp del]

fun month_of :: "nat list \<Rightarrow> nat \<Rightarrow> nat \<times> nat" where
  "month_of [] d = (0, d)"
| "month_of (n # ns) d = (if d < n then (0, d) else (case month_of ns (d - n) of (m, r) \<Rightarrow> (Suc m, r)))"

text \<open>Year, month, day, hour, minute, second.\<close>

definition fields_of :: "nat \<Rightarrow> nat list" where
  "fields_of t =
     (let days = t div 86400; rest = t mod 86400 in
      case year_of 1970 days of (y, yd) \<Rightarrow>
        case month_of (month_days y) yd of (m, d) \<Rightarrow>
          [y, Suc m, Suc d, rest div 3600, rest mod 3600 div 60, rest mod 60])"

section \<open>Formatting\<close>

text \<open>A number with at least \<open>w\<close> digits.\<close>

definition pad :: "nat \<Rightarrow> nat \<Rightarrow> string" where
  "pad w n = replicate (w - length (show_nat n)) CHR ''0'' @ show_nat n"

definition stamp :: "nat \<Rightarrow> string" where
  "stamp t = (case fields_of t of
       [y, mo, d, h, mi, s] \<Rightarrow> pad 4 y @ pad 2 mo @ pad 2 d @ ''T'' @ pad 2 h @ pad 2 mi @ pad 2 s @ ''Z''
     | _ \<Rightarrow> [])"

section \<open>The order of stamps\<close>

lemma year_of_ge: "year_of y d = (y', r) \<Longrightarrow> y \<le> y' \<and> r < year_days y'"
proof (induction y d rule: year_of.induct)
  case (1 y d)
  then show ?case by (cases "d < year_days y") (auto simp: year_of.simps [of y d])
qed

lemma year_of_less:
  "d < e \<Longrightarrow> year_of y d = (a, i) \<Longrightarrow> year_of y e = (b, j) \<Longrightarrow> a < b \<or> a = b \<and> i < j"
proof (induction y d arbitrary: e rule: year_of.induct)
  case (1 y d)
  show ?case
  proof (cases "d < year_days y")
    case True
    then have a: "a = y" "i = d" using 1(3) by (simp_all add: year_of.simps [of y d])
    show ?thesis
    proof (cases "e < year_days y")
      case True
      then show ?thesis using 1(2,4) a by (simp add: year_of.simps [of y e])
    next
      case False
      then have "year_of (Suc y) (e - year_days y) = (b, j)" using 1(4) by (simp add: year_of.simps [of y e])
      from year_of_ge [OF this] a show ?thesis by simp
    qed
  next
    case False
    then have "\<not> e < year_days y" "d - year_days y < e - year_days y" using 1(2) by auto
    with False 1(1) [OF False, of "e - year_days y"] 1(3,4) show ?thesis
      by (simp add: year_of.simps [of y d] year_of.simps [of y e])
  qed
qed

lemma month_of_less: "d < e \<Longrightarrow> month_of ns d = (a, i) \<Longrightarrow> month_of ns e = (b, j) \<Longrightarrow> a < b \<or> a = b \<and> i < j"
proof (induction ns d arbitrary: e a b rule: month_of.induct)
  case (2 n ns d)
  show ?case
  proof (cases "d < n")
    case True
    with 2(2-4) show ?thesis by (cases "e < n") (auto split: prod.splits)
  next
    case False
    obtain a' i' b' j' where m: "month_of ns (d - n) = (a', i')" "month_of ns (e - n) = (b', j')"
      by (cases "month_of ns (d - n)", cases "month_of ns (e - n)") auto
    from False 2(2) have "d - n < e - n" "\<not> e < n" by auto
    with 2(1) [OF False \<open>d - n < e - n\<close>] 2(3,4) m False show ?thesis by auto
  qed
qed simp

lemma month_of_bound: "d < sum_list ns \<Longrightarrow> month_of ns d = (m, r) \<Longrightarrow> m < length ns \<and> r < ns ! m"
  by (induction ns d arbitrary: m r rule: month_of.induct) (auto split: if_splits prod.splits)

lemma sum_month_days: "sum_list (month_days y) = year_days y"
  by (simp add: month_days_def year_days_def)

lemma month_days_le: "n \<in> set (month_days y) \<Longrightarrow> n \<le> 31"
  by (auto simp: month_days_def split: if_splits)

lemma fields_of_split:
  obtains y yd m d where "year_of 1970 (t div 86400) = (y, yd)" "month_of (month_days y) yd = (m, d)"
    "fields_of t = [y, Suc m, Suc d, t mod 86400 div 3600, t mod 86400 mod 3600 div 60, t mod 86400 mod 60]"
    "m < 12" "d < 31"
proof -
  obtain y yd where y: "year_of 1970 (t div 86400) = (y, yd)" by fastforce
  obtain m d where m: "month_of (month_days y) yd = (m, d)" by fastforce
  have "yd < sum_list (month_days y)" using year_of_ge [OF y] by (simp add: sum_month_days)
  from month_of_bound [OF this m] have "m < 12" "d < month_days y ! m" by (simp_all add: month_days_def)
  moreover have "m < length (month_days y)" using \<open>m < 12\<close> by (simp add: month_days_def)
  then have "month_days y ! m \<le> 31" by (metis month_days_le nth_mem)
  ultimately show thesis using that [OF y m] by (simp add: fields_of_def y m Let_def)
qed

lemma clock_less:
  assumes "(i::nat) < j" "j < 86400"
  shows "[i div 3600, i mod 3600 div 60, i mod 60] < [j div 3600, j mod 3600 div 60, j mod 60]"
proof -
  have d: "x = 3600 * (x div 3600) + 60 * (x mod 3600 div 60) + x mod 60" for x :: nat
  proof -
    have "x mod 3600 = 60 * (x mod 3600 div 60) + x mod 3600 mod 60" by simp
    moreover have "x mod 3600 mod 60 = x mod 60" by (simp add: mod_mod_cancel)
    ultimately show ?thesis using mult_div_mod_eq [of 3600 x] by linarith
  qed
  have b: "x mod 3600 div 60 < 60" "x mod 60 < 60" for x :: nat by (simp_all add: less_mult_imp_div_less)
  have "i div 3600 < j div 3600 \<or> i div 3600 = j div 3600 \<and> (i mod 3600 div 60 < j mod 3600 div 60 \<or>
      i mod 3600 div 60 = j mod 3600 div 60 \<and> i mod 60 < j mod 60)"
    using assms(1) d [of i] d [of j] b [of i] b [of j] by linarith
  then show ?thesis by auto
qed

lemma fields_of_less:
  assumes "t < u"
  shows "fields_of t < fields_of u"
proof -
  obtain y yd m d where t: "year_of 1970 (t div 86400) = (y, yd)" "month_of (month_days y) yd = (m, d)"
    "fields_of t = [y, Suc m, Suc d, t mod 86400 div 3600, t mod 86400 mod 3600 div 60, t mod 86400 mod 60]"
    by (rule fields_of_split)
  obtain y' yd' m' d' where u: "year_of 1970 (u div 86400) = (y', yd')" "month_of (month_days y') yd' = (m', d')"
    "fields_of u = [y', Suc m', Suc d', u mod 86400 div 3600, u mod 86400 mod 3600 div 60, u mod 86400 mod 60]"
    by (rule fields_of_split)
  consider "t div 86400 < u div 86400" | "t div 86400 = u div 86400" "t mod 86400 < u mod 86400"
  proof -
    have "t div 86400 \<le> u div 86400" using assms by (simp add: div_le_mono)
    moreover have "t mod 86400 < u mod 86400" if "t div 86400 = u div 86400"
      using assms that mult_div_mod_eq [of 86400 t] mult_div_mod_eq [of 86400 u] by linarith
    ultimately show thesis using that by linarith
  qed
  then show ?thesis
  proof cases
    case 1
    from year_of_less [OF 1 t(1) u(1)] show ?thesis
    proof
      assume "y = y' \<and> yd < yd'"
      with month_of_less [of yd yd'] t(2) u(2) have "m < m' \<or> m = m' \<and> d < d'" "y = y'" by auto
      then show ?thesis by (auto simp: t(3) u(3))
    qed (simp add: t(3) u(3))
  next
    case 2
    with t(1,2) u(1,2) have "y = y'" "m = m'" "d = d'" by auto
    with clock_less [OF 2(2)] show ?thesis by (simp add: t(3) u(3))
  qed
qed

text \<open>Byte strings of the same length compare piece by piece.\<close>

lemma append_less:
  fixes xs ys :: "'a::linorder list"
  assumes "length xs = length ys"
  shows "xs @ a < ys @ b \<longleftrightarrow> xs < ys \<or> xs = ys \<and> a < b"
  using assms by (induction xs ys rule: list_induct2) auto

fun digits :: "nat \<Rightarrow> nat \<Rightarrow> string" where
  "digits 0 n = []"
| "digits (Suc w) n = digits w (n div 10) @ [digit_char (n mod 10)]"

lemma length_digits [simp]: "length (digits w n) = w"
  by (induction w arbitrary: n) simp_all

lemma digit_char_less: "i < j \<Longrightarrow> j < 10 \<Longrightarrow> digit_char i < digit_char j"
  by (simp add: digit_char_def less_char_def)

lemma digits_less: "m < n \<Longrightarrow> n < 10 ^ w \<Longrightarrow> digits w m < digits w n"
proof (induction w arbitrary: m n)
  case (Suc w)
  have "n div 10 < 10 ^ w" using Suc.prems(2) by (simp add: less_mult_imp_div_less mult.commute)
  moreover have "m div 10 < n div 10 \<or> m div 10 = n div 10 \<and> m mod 10 < n mod 10" 
    using Suc.prems(1) div_le_mono [of m n 10] mult_div_mod_eq [of 10 m] mult_div_mod_eq [of 10 n] by linarith
  ultimately show ?case using Suc.IH digit_char_less [of "m mod 10" "n mod 10"] by (auto simp: append_less)
qed simp

lemma digits_0: "digits w 0 = replicate w CHR ''0''"
  by (induction w) (simp_all add: digit_char_simps replicate_append_same)

lemma show_nat_short: "n < 10 ^ w \<Longrightarrow> 0 < w \<Longrightarrow> length (show_nat n) \<le> w \<and> digits w n = pad w n"
proof (induction n arbitrary: w rule: show_nat.induct)
  case (1 n)
  then obtain v where w: "w = Suc v" by (cases w) auto
  show ?case
  proof (cases "n < 10")
    case True
    then show ?thesis by (simp add: w pad_def digits_0 show_nat.simps [of n])
  next
    case False
    have "n div 10 < 10 ^ v" using 1(2) by (simp add: w less_mult_imp_div_less mult.commute)
    moreover have "0 < v" using 1(2) False by (cases v) (auto simp: w)
    ultimately have "length (show_nat (n div 10)) \<le> v" "digits v (n div 10) = pad v (n div 10)" using 1(1) [OF False, of v] by simp_all
    with False show ?thesis by (simp add: w pad_def show_nat.simps [of n])
  qed
qed

lemma pad_less: "m < n \<Longrightarrow> n < 10 ^ w \<Longrightarrow> 0 < w \<Longrightarrow> pad w m < pad w n"
  using digits_less [of m n w] show_nat_short [of m w] show_nat_short [of n w] by simp

lemma length_pad: "n < 10 ^ w \<Longrightarrow> 0 < w \<Longrightarrow> length (pad w n) = w"
  using show_nat_short [of n w] by (metis length_digits)

definition year :: "nat \<Rightarrow> nat" where
  "year t = hd (fields_of t)"

lemma pad2_cmp: "m < 100 \<Longrightarrow> n < 100 \<Longrightarrow> (pad 2 m @ a < pad 2 n @ b) \<longleftrightarrow> m < n \<or> m = n \<and> a < b"
  using pad_less [of m n 2] pad_less [of n m 2] by (cases m n rule: linorder_cases) (auto simp: append_less length_pad)

lemma clock_bounds: "(x::nat) mod 86400 div 3600 < 100" "x mod 86400 mod 3600 div 60 < 100" "x mod 86400 mod 60 < 100"
proof -
  show "x mod 86400 div 3600 < 100" by (rule less_mult_imp_div_less) (simp add: less_trans [of _ 86400])
  show "x mod 86400 mod 3600 div 60 < 100" by (rule less_mult_imp_div_less) (simp add: less_trans [of _ 3600])
  have "x mod 86400 mod 60 < 60" by simp
  then show "x mod 86400 mod 60 < 100" by linarith
qed

lemma stamp_less:
  assumes "t < u" "year u < 10000"
  shows "stamp t < stamp u"
proof -
  obtain y m d where t: "fields_of t = [y, Suc m, Suc d, t mod 86400 div 3600, t mod 86400 mod 3600 div 60, t mod 86400 mod 60]"
    "m < 12" "d < 31" by (rule fields_of_split [of t])
  obtain y' m' d' where u: "fields_of u = [y', Suc m', Suc d', u mod 86400 div 3600, u mod 86400 mod 3600 div 60, u mod 86400 mod 60]"
    "m' < 12" "d' < 31" by (rule fields_of_split [of u])
  have y: "y' < 10 ^ 4" using assms(2) by (simp add: year_def u)
  have l: "y < y' \<or> y = y' \<and> [Suc m, Suc d, t mod 86400 div 3600, t mod 86400 mod 3600 div 60, t mod 86400 mod 60]
      < [Suc m', Suc d', u mod 86400 div 3600, u mod 86400 mod 3600 div 60, u mod 86400 mod 60]"
    using fields_of_less [OF assms(1)] by (simp add: t(1) u(1))
  then have "pad 4 y < pad 4 y' \<or> pad 4 y = pad 4 y' \<and> y = y'" "length (pad 4 y) = length (pad 4 y')"
    using pad_less [of y y' 4] length_pad [of y 4] length_pad [of y' 4] y by auto
  then show ?thesis
    using l t(2,3) u(2,3) clock_bounds [of t] clock_bounds [of u] by (auto simp: stamp_def t(1) u(1) append_less pad2_cmp)
qed

lemma length_stamp: "year t < 10000 \<Longrightarrow> length (stamp t) = 16"
proof -
  assume a: "year t < 10000"
  obtain y m d where t: "fields_of t = [y, Suc m, Suc d, t mod 86400 div 3600, t mod 86400 mod 3600 div 60, t mod 86400 mod 60]"
    "m < 12" "d < 31" by (rule fields_of_split [of t])
  show ?thesis using a t(2,3) by (simp add: stamp_def year_def t(1) length_pad clock_bounds)
qed

end
