(* ===== verification/MetaBackup.thy ===== *)
theory MetaBackup
  imports ObjectStore GoURLParse GoTime
begin

text \<open>
  Package \<^verbatim>\<open>internal/metabackup\<close> and the command \<^verbatim>\<open>pgfleet meta-restore\<close>: dumps of the meta
  database in the bucket, their retention and their restore.

  The state is the bucket with the environment of the client tools. \<^verbatim>\<open>sort.Strings\<close> is \<open>sort\<close> for
  the byte order of strings; a key's stamp orders keys by time. The commands' flags are the record
  \<open>meta_flags\<close>, after \<^verbatim>\<open>flag.Parse\<close>; what the command prints is left out.
\<close>

section \<open>The service\<close>

record meta_service =
  ms_store :: s3_config
  ms_prefix :: string

definition New_meta :: "s3_config \<Rightarrow> meta_service" where
  "New_meta cfg = \<lparr>ms_store = cfg, ms_prefix = ''meta-backups/''\<rparr>"

type_synonym ('b, 'e, 'a) metafun = "('b \<times> 'e, 'a) gofun"

definition inBucket :: "('b, 'a) gofun \<Rightarrow> ('b, 'e, 'a) metafun" where
  "inBucket m s = (case m (fst s) of (r, b) \<Rightarrow> (r, (b, snd s)))"

definition inTools :: "('e \<Rightarrow> 'r \<times> 'e) \<Rightarrow> 'b \<times> 'e \<Rightarrow> 'r \<times> 'b \<times> 'e" where
  "inTools m s = (case m (snd s) of (r, e) \<Rightarrow> (r, (fst s, e)))"

definition stampKey :: "meta_service \<Rightarrow> nat \<Rightarrow> string option \<Rightarrow> string" where
  "stampKey sv t rnd = ms_prefix sv @ ''pgfleet-meta-'' @ stamp t @ ''-'' @ uniqueSuffix rnd @ ''.dump''"

definition splitDSNPassword :: "string \<Rightarrow> string \<times> string" where
  "splitDSNPassword dsn = (case url_Parse dsn of
       Inl _ \<Rightarrow> (dsn, [])
     | Inr u \<Rightarrow> (case u_User u of
           None \<Rightarrow> (dsn, [])
         | Some (name, None) \<Rightarrow> (dsn, [])
         | Some (name, Some pw) \<Rightarrow> (url_String (u\<lparr>u_User := Some (name, None)\<rparr>), pw)))"

definition redactPW :: "string \<Rightarrow> string \<Rightarrow> string" where
  "redactPW s pw = (if pw = [] then s else ReplaceAll s pw ''****'')"

definition meta_Backup :: "'b newClient \<Rightarrow> 'e tools \<Rightarrow> meta_service \<Rightarrow> string \<Rightarrow> ('b, 'e, string) metafun" where
  "meta_Backup mk os sv dsn = (case splitDSNPassword dsn of (clean, pw) \<Rightarrow>
     attempt (inTools (os_Run os [''pg_dump'', ''--format=custom'', ''--dbname='' @ clean] (withPGPassword (os_Environ os) pw) [])) (\<lambda>r.
     case cm_err r of
       Some e \<Rightarrow> fail (Wrap KindInternal (''metabackup: pg_dump failed: '' @ redactPW (TrimSpace (cm_stderr r)) pw) e)
     | None \<Rightarrow>
         attempt (inTools (os_Now os)) (\<lambda>t. attempt (inTools (os_Rand os)) (\<lambda>rnd.
         let key = stampKey sv t rnd in
         bindE (inBucket (PutObject mk (ms_store sv) key (cm_stdout r))) (\<lambda>_. ret key)))))"

definition meta_List :: "'b newClient \<Rightarrow> meta_service \<Rightarrow> ('b, 'e, string list) metafun" where
  "meta_List mk sv = bindE (inBucket (ListObjects mk (ms_store sv) (ms_prefix sv))) (\<lambda>keys. ret (sort keys))"

definition meta_Prune :: "'b newClient \<Rightarrow> meta_service \<Rightarrow> int \<Rightarrow> ('b, 'e, unit) metafun" where
  "meta_Prune mk sv keep =
     (if keep \<le> 0 then ret ()
      else bindE (meta_List mk sv) (\<lambda>keys.
        if int (length keys) \<le> keep then ret ()
        else forE (\<lambda>key. inBucket (DeleteObject mk (ms_store sv) key)) (take (length keys - nat keep) keys)))"

definition meta_Restore :: "'b newClient \<Rightarrow> 'e tools \<Rightarrow> meta_service \<Rightarrow> string \<Rightarrow> string \<Rightarrow> ('b, 'e, unit) metafun" where
  "meta_Restore mk os sv dsn key =
     bindE (inBucket (GetObject mk (ms_store sv) key)) (\<lambda>data.
     case splitDSNPassword dsn of (clean, pw) \<Rightarrow>
     attempt (inTools (os_Run os [''pg_restore'', ''--clean'', ''--if-exists'', ''--no-owner'', ''--dbname='' @ clean]
       (withPGPassword (os_Environ os) pw) data)) (\<lambda>r.
     case cm_err r of
       Some e \<Rightarrow> fail (Wrap KindInternal (''metabackup: pg_restore failed: '' @ redactPW (TrimSpace (cm_stderr r)) pw) e)
     | None \<Rightarrow> ret ()))"

section \<open>The command\<close>

record meta_flags =
  mf_dsn :: string
  mf_endpoint :: string
  mf_bucket :: string
  mf_region :: string
  mf_key :: string
  mf_secret :: string
  mf_tls :: bool
  mf_object :: string

definition flags_store :: "meta_flags \<Rightarrow> s3_config" where
  "flags_store f = \<lparr>oc_Endpoint = mf_endpoint f, oc_Region = mf_region f, oc_AccessKey = mf_key f, oc_SecretKey = mf_secret f,
     oc_Bucket = mf_bucket f, oc_UseTLS = mf_tls f, oc_SkipTLSVerify = False\<rparr>"

definition meta_target :: "'b newClient \<Rightarrow> meta_service \<Rightarrow> meta_flags \<Rightarrow> ('b, 'e, string) metafun" where
  "meta_target mk sv f =
     (if mf_object f \<noteq> [] then ret (mf_object f)
      else attempt (meta_List mk sv) (\<lambda>r. case r of
          Inl e \<Rightarrow> fail (Wrapf ''listing meta backups: '' e)
        | Inr keys \<Rightarrow>
            if keys = [] then fail (Plain (''no meta backups found in bucket '' @ Quote (mf_bucket f)))
            else ret (last keys)))"

definition runMetaRestore :: "'b newClient \<Rightarrow> 'e tools \<Rightarrow> meta_flags \<Rightarrow> ('b, 'e, unit) metafun" where
  "runMetaRestore mk os f =
     (if mf_dsn f = [] then fail (Plain ''--dsn is required'')
      else case Config_Validate (flags_store f) of
          Some e \<Rightarrow> fail e
        | None \<Rightarrow>
            let sv = New_meta (flags_store f) in
            bindE (meta_target mk sv f) (\<lambda>target.
            attempt (meta_Restore mk os sv (mf_dsn f) target) (\<lambda>r. case r of
                Inl e \<Rightarrow> fail (Wrapf ''meta restore failed: '' e)
              | Inr _ \<Rightarrow> ret ())))"

section \<open>Keys in time order\<close>

lemma stampKey_less:
  assumes "t < u" "year u < 10000" "year t < 10000"
  shows "stampKey sv t x < stampKey sv u y"
  using stamp_less [OF assms(1,2)] length_stamp [OF assms(2)] length_stamp [OF assms(3)]
  by (simp add: stampKey_def append_less)

section \<open>Retention\<close>

lemma Delete_loop:
  assumes os: "object_store (PutObject mk cfg) (GetObject mk cfg) (ListObjects mk cfg) (DeleteObject mk cfg) objects"
  shows "forE (\<lambda>key. inBucket (DeleteObject mk cfg key)) ds s = (r, s') \<Longrightarrow>
    (\<forall>k. k \<notin> set ds \<longrightarrow> objects (fst s') k = objects (fst s) k) \<and> (\<forall>k. objects (fst s') k \<in> {None, objects (fst s) k}) \<and>
    (r = Inr () \<longrightarrow> (\<forall>k\<in>set ds. objects (fst s') k = None))"
proof (induction ds arbitrary: s)
  case Nil
  then show ?case by (simp add: prog_run)
next
  case (Cons d ds)
  obtain r1 s1 where 1: "inBucket (DeleteObject mk cfg d) s = (r1, s1)" by (cases "inBucket (DeleteObject mk cfg d) s")
  then have "DeleteObject mk cfg d (fst s) = (r1, fst s1)" by (auto simp: inBucket_def split: prod.splits)
  note del = object_store.delete [OF os this]
  show ?case
  proof (cases r1)
    case (Inl e)
    then have "r = Inl e" "s' = s1" using Cons.prems 1 by (simp_all add: prog_run)
    with del Inl show ?thesis by (auto, metis)
  next
    case (Inr u)
    then have "forE (\<lambda>key. inBucket (DeleteObject mk cfg key)) ds s1 = (r, s')" using Cons.prems 1 by (simp add: prog_run)
    from Cons.IH [OF this] del Inr show ?thesis by (auto, metis+)
  qed
qed

lemma meta_List_result:
  assumes os: "object_store (PutObject mk (ms_store sv)) (GetObject mk (ms_store sv)) (ListObjects mk (ms_store sv)) (DeleteObject mk (ms_store sv)) objects"
    and run: "meta_List mk sv s = (r, s')"
  shows "objects (fst s') = objects (fst s) \<and> snd s' = snd s \<and>
    (\<forall>ks. r = Inr ks \<longrightarrow> sorted ks \<and> distinct ks \<and> set ks = {k. objects (fst s) k \<noteq> None \<and> HasPrefix k (ms_prefix sv)})"
proof -
  obtain r1 b1 where 1: "ListObjects mk (ms_store sv) (ms_prefix sv) (fst s) = (r1, b1)" by fastforce
  with run have "r = map_sum id sort r1" "s' = (b1, snd s)"
    by (auto simp: meta_List_def prog_run inBucket_def split: sum.splits)
  with object_store.list_keys [OF os 1] show ?thesis by (cases r1) auto
qed

text \<open>In a sorted list without repetitions, everything before a position is smaller than everything after.\<close>

lemma sorted_split_less:
  fixes ks :: "'a::linorder list"
  assumes "sorted ks" "distinct ks" "x \<in> set (take n ks)" "y \<in> set (drop n ks)"
  shows "x < y"
proof -
  have "sorted (take n ks @ drop n ks)" "distinct (take n ks @ drop n ks)" using assms(1,2) by simp_all
  with assms(3,4) have "x \<le> y" "x \<noteq> y" unfolding sorted_append distinct_append by blast+
  then show ?thesis by simp
qed

text \<open>
  C20. Retention: pruning to \<open>keep\<close> dumps, whatever fails on the way, touches only the keys under the
  service's prefix and changes the content of none; a dump is gone only if \<open>keep\<close> other dumps with
  greater keys were there and are all still there, and of two dumps the greater key is never the older one; when
  it returns without error at most \<open>keep\<close> dumps are left.
\<close>

theorem Prune_keeps_newest:
  assumes os: "object_store (PutObject mk (ms_store sv)) (GetObject mk (ms_store sv)) (ListObjects mk (ms_store sv)) (DeleteObject mk (ms_store sv)) objects"
    and run: "meta_Prune mk sv keep s = (r, s')" and keep: "0 < keep"
  defines "K \<equiv> {k. objects (fst s) k \<noteq> None \<and> HasPrefix k (ms_prefix sv)}"
  shows "(\<forall>k. k \<notin> K \<longrightarrow> objects (fst s') k = objects (fst s) k) \<and> (\<forall>k. objects (fst s') k \<in> {None, objects (fst s) k}) \<and>
    (\<forall>k\<in>K. objects (fst s') k = None \<longrightarrow> (\<exists>N\<subseteq>K. card N = nat keep \<and> (\<forall>k'\<in>N. objects (fst s') k' = objects (fst s) k' \<and> k < k' \<and>
      (\<forall>t x t' x'. k = stampKey sv t x \<and> k' = stampKey sv t' x' \<and> year t < 10000 \<and> year t' < 10000 \<longrightarrow> t \<le> t')))) \<and>
    (r = Inr () \<longrightarrow> card {k \<in> K. objects (fst s') k \<noteq> None} \<le> nat keep)"
proof -
  obtain rl s1 where l: "meta_List mk sv s = (rl, s1)" by (cases "meta_List mk sv s")
  note ls = meta_List_result [OF os l]
  consider (bad) e where "rl = Inl e" | (few) ks where "rl = Inr ks" "int (length ks) \<le> keep" | (many) ks where "rl = Inr ks" "keep < int (length ks)"
    by (cases rl) force+
  then show ?thesis
  proof cases
    case bad
    with run keep l have "r = Inl e" "s' = s1" by (simp_all add: meta_Prune_def prog_run)
    with ls show ?thesis by (auto simp: K_def)
  next
    case few
    with run keep l have "r = Inr ()" "s' = s1" by (simp_all add: meta_Prune_def prog_run)
    moreover have "set ks = K" "distinct ks" using ls few(1) by (auto simp: K_def)
    then have "card K \<le> nat keep" "finite K" using distinct_card [of ks] few(2) by auto
    then have "card {k \<in> K. P k} \<le> nat keep" for P using card_mono [of K "{k \<in> K. P k}"] by fastforce
    ultimately show ?thesis using ls by (auto simp: K_def)
  next
    case many
    let ?n = "length ks - nat keep"
    have ks: "sorted ks" "distinct ks" "set ks = K" using ls many(1) by (auto simp: K_def)
    have "forE (\<lambda>key. inBucket (DeleteObject mk (ms_store sv) key)) (take ?n ks) s1 = (r, s')"
      using run keep l many by (simp add: meta_Prune_def prog_run)
    note del = Delete_loop [OF os this]
    have gone: "k \<in> set (take ?n ks)" if "k \<in> K" "objects (fst s') k = None" for k
      using del that ls by (auto simp: K_def)
    have N: "set (drop ?n ks) \<subseteq> K" "card (set (drop ?n ks)) = nat keep"
      using ks many(2) keep by (auto simp: distinct_card dest: in_set_dropD)
    have stays: "objects (fst s') k' = objects (fst s) k'" if "k' \<in> set (drop ?n ks)" for k'
      using del ls that ks(2) by (metis (no_types) append_take_drop_id disjoint_iff distinct_append)
    have order: "t \<le> t'" if "stampKey sv t x < stampKey sv t' x'" "year t < 10000" "year t' < 10000" for t x t' x'
      using stampKey_less [of t' t sv x' x] that by (meson leI less_asym)
    have left: "{k \<in> K. objects (fst s') k \<noteq> None} \<subseteq> set (drop ?n ks)" if "r = Inr ()"
      using del that ks(3) by (auto simp flip: ks(3)) (metis Un_iff append_take_drop_id set_append option.distinct(1))
    show ?thesis
    proof (intro conjI allI ballI impI)
      fix k assume "k \<notin> K"
      then show "objects (fst s') k = objects (fst s) k" using del ls ks(3) by (metis in_set_takeD)
    next
      fix k show "objects (fst s') k \<in> {None, objects (fst s) k}" using del ls by metis
    next
      fix k assume "k \<in> K" "objects (fst s') k = None"
      then have "k \<in> set (take ?n ks)" by (rule gone)
      then show "\<exists>N\<subseteq>K. card N = nat keep \<and> (\<forall>k'\<in>N. objects (fst s') k' = objects (fst s) k' \<and> k < k' \<and>
          (\<forall>t x t' x'. k = stampKey sv t x \<and> k' = stampKey sv t' x' \<and> year t < 10000 \<and> year t' < 10000 \<longrightarrow> t \<le> t'))"
        using N stays order sorted_split_less [OF ks(1,2)] by (intro exI [of _ "set (drop ?n ks)"]) blast
    next
      assume "r = Inr ()"
      from card_mono [OF _ left [OF this]] N(2) show "card {k \<in> K. objects (fst s') k \<noteq> None} \<le> nat keep" by simp
    qed
  qed
qed

definition demo_meta :: meta_service where
  "demo_meta = New_meta \<lparr>oc_Endpoint = ''minio'', oc_Region = [], oc_AccessKey = ''k'', oc_SecretKey = ''s'',
     oc_Bucket = ''meta'', oc_UseTLS = False, oc_SkipTLSVerify = False\<rparr>"

text \<open>Two dumps a second apart, the newer one listed first, and a second deletion that would fail.\<close>

definition demo_dumps :: mem_bucket where
  "demo_dumps = \<lparr>mb_faults = [False, False, True],
     mb_objects = [(stampKey demo_meta 1 (Some ''a''), ''new''), (stampKey demo_meta 0 (Some ''b''), ''old'')]\<rparr>"

lemma demo_stamps: "stamp 0 = ''19700101T000000Z''" "stamp 1 = ''19700101T000001Z''"
  by (simp_all add: stamp_def fields_of_def year_of.simps year_days_def leap_def month_days_def pad_def str_eval)

theorem Prune_keeps_newest_witness:
  "\<exists>s'. meta_Prune mem_newClient demo_meta 1 (demo_dumps, ()) = (Inr (), s') \<and>
     map_of (mb_objects (fst s')) (stampKey demo_meta 0 (Some ''b'')) = None \<and>
     (\<exists>N. card N = 1 \<and> (\<forall>k\<in>N. map_of (mb_objects (fst s')) k = map_of (mb_objects demo_dumps) k \<and> stampKey demo_meta 0 (Some ''b'') < k))"
proof -
  let ?k0 = "stampKey demo_meta 0 (Some ''b'')" and ?k1 = "stampKey demo_meta 1 (Some ''a'')"
  have lt: "?k0 < ?k1" by (rule stampKey_less) (simp_all add: year_def fields_of_def year_of.simps year_days_def leap_def month_days_def)
  then have nle: "\<not> ?k1 \<le> ?k0" "?k1 \<noteq> ?k0" "?k0 \<noteq> ?k1" by auto
  have pre: "HasPrefix ?k0 (ms_prefix demo_meta)" "HasPrefix ?k1 (ms_prefix demo_meta)" by (simp_all add: stampKey_def)
  have cfg: "Config_Validate (ms_store demo_meta) = None" by (simp add: demo_meta_def New_meta_def Config_Validate_def)
  obtain s' where run: "meta_Prune mem_newClient demo_meta 1 (demo_dumps, ()) = (Inr (), s')"
    and gone: "map_of (mb_objects (fst s')) ?k0 = None"
    using nle pre cfg by (simp del: One_nat_def add: meta_Prune_def meta_List_def ListObjects_def DeleteObject_def inBucket_def with_mem_client mem_client_def
        mb_call_def sdk_def prog_run demo_dumps_def List.map_filter_def delete_conv')
  have "map_of (mb_objects (fst (demo_dumps, ()))) ?k0 \<noteq> None" by (simp add: demo_dumps_def)
  with Prune_keeps_newest [OF mem_store.object_store_axioms run] pre(1) gone run show ?thesis by (fastforce simp del: map_of_eq_None_iff)
qed

section \<open>The password of a DSN\<close>

text \<open>
  The password leaves the arguments: for a connection URL with any user and any
  password, \<open>splitDSNPassword\<close> returns that password and a clean URL that is the same for every
  password, so the arguments of \<^verbatim>\<open>pg_dump\<close> and \<^verbatim>\<open>pg_restore\<close> do not depend on it.
\<close>

theorem splitDSNPassword_clean:
  assumes "scheme \<noteq> []" "list_all is_lower scheme" "list_all url_plain h" "list_all url_plain t"
    and "list_all (\<lambda>c. graphic c \<and> c \<notin> set ''#?'') query"
  shows "splitDSNPassword (url_string scheme user pw (host_and_port h n) (CHR ''/'' # t) query) =
    (scheme @ ''://'' @ url_escape encodeUserPassword user @ ''@'' @ host_and_port h n @ CHR ''/'' # t @
       (if query \<noteq> [] then ''?'' @ query else []), pw)"
proof -
  have p: "list_all (\<lambda>c. \<not> must_escape EncPath c) (CHR ''/'' # t)"
    using assms(4) by (simp add: list_all_iff must_escape_def)
  have "host_and_port h n \<noteq> []" by (simp add: host_and_port_def)
  with p assms(1) show ?thesis
    by (simp add: splitDSNPassword_def url_Parse_string [OF assms] url_String_def user_string_def escape_user escape_host
        escape_host_port [OF assms(3)] escaped_part_def escape_plain [OF p] empty_url_def Let_def)
qed

theorem splitDSNPassword_clean_witness:
  "splitDSNPassword (url_string ''postgres'' ''fleet'' ''p:/?@#'' (host_and_port ''meta'' 5432) ''/pgfleet'' ''sslmode=disable'') =
     (''postgres://fleet@meta:5432/pgfleet?sslmode=disable'', ''p:/?@#'')"
  using splitDSNPassword_clean [of "''postgres''" "''meta''" "''pgfleet''" "''sslmode=disable''" "''fleet''" "''p:/?@#''" 5432]
  by (simp add: url_plain_def str_eval is_lower_def graphic_def host_and_port_def shouldEscape_def url_escape_def)

section \<open>Restores\<close>

text \<open>
  Restoring the newest dump: when \<^verbatim>\<open>pgfleet meta-restore\<close> without \<^verbatim>\<open>--object\<close> succeeds, it
  ran one \<^verbatim>\<open>pg_restore\<close>, fed with the content of the dump with the greatest key under the
  prefix, and that dump is at least as recent as every other; the bucket is unchanged.
\<close>

theorem meta_restore_newest:
  assumes os: "object_store (PutObject mk cfg) (GetObject mk cfg) (ListObjects mk cfg) (DeleteObject mk cfg) objects"
    and cfg: "cfg = flags_store f" and run: "runMetaRestore mk os f s = (Inr (), s')" and obj: "mf_object f = []"
  shows "\<exists>key data. objects (fst s) key = Some data \<and> HasPrefix key ''meta-backups/'' \<and>
    (\<forall>k. objects (fst s) k \<noteq> None \<and> HasPrefix k ''meta-backups/'' \<longrightarrow> k \<le> key \<and>
      (\<forall>t x t' x'. k = stampKey (New_meta cfg) t x \<and> key = stampKey (New_meta cfg) t' x' \<and> year t < 10000 \<and> year t' < 10000 \<longrightarrow> t \<le> t')) \<and>
    (\<exists>args env r. os_Run os (''pg_restore'' # args) env data (snd s) = (r, snd s') \<and> cm_err r = None) \<and>
    objects (fst s') = objects (fst s)"
proof -
  let ?sv = "New_meta cfg"
  have st: "ms_store ?sv = cfg" "ms_prefix ?sv = ''meta-backups/''" by (simp_all add: New_meta_def)
  from run obtain key s1 where tgt: "meta_target mk ?sv f s = (Inr key, s1)" and res: "meta_Restore mk os ?sv (mf_dsn f) key s1 = (Inr (), s')"
    by (auto simp: runMetaRestore_def cfg Let_def prog_run split: if_splits option.splits prod.splits sum.splits)
  from tgt obj obtain ks where l: "meta_List mk ?sv s = (Inr ks, s1)" and ks: "ks \<noteq> []" "key = last ks"
    by (auto simp: meta_target_def prog_run split: if_splits prod.splits sum.splits)
  from meta_List_result [of mk ?sv objects, unfolded st, OF os l]
  have list: "objects (fst s1) = objects (fst s)" "snd s1 = snd s" "sorted ks" "set ks = {k. objects (fst s) k \<noteq> None \<and> HasPrefix k ''meta-backups/''}"
    by auto
  have key: "key \<in> set ks" using ks by simp
  have top: "k \<le> key" if "k \<in> set ks" for k
  proof -
    have "ks = butlast ks @ [key]" using ks by simp
    with that list(3) show ?thesis by (metis Un_iff empty_iff empty_set insert_iff list.simps(15) order_refl set_append sorted_append)
  qed
  have order: "t \<le> t'" if "stampKey ?sv t x \<le> stampKey ?sv t' x'" "year t < 10000" "year t' < 10000" for t x t' x'
    using stampKey_less [of t' t ?sv x' x] that by (meson leD leI)
  from res obtain data b where get: "GetObject mk cfg key (fst s1) = (Inr data, b)"
    and rr: "\<exists>args env r. os_Run os (''pg_restore'' # args) env data (snd s1) = (r, snd s') \<and> cm_err r = None" "fst s' = b"
    by (auto simp: meta_Restore_def inBucket_def inTools_def prog_run st split: prod.splits sum.splits option.splits) blast+
  from object_store.get [OF os get] have "objects (fst s) key = Some data" "objects b = objects (fst s)" using list(1) by auto
  moreover have "HasPrefix key ''meta-backups/''" using key unfolding list(4) by blast
  moreover have "k \<le> key \<and> (\<forall>t x t' x'. k = stampKey ?sv t x \<and> key = stampKey ?sv t' x' \<and> year t < 10000 \<and> year t' < 10000 \<longrightarrow> t \<le> t')"
    if "objects (fst s) k \<noteq> None \<and> HasPrefix k ''meta-backups/''" for k
    using top [of k] order that unfolding list(4) by blast
  ultimately show ?thesis using rr unfolding list(2) by (intro exI [of _ key] exI [of _ data]) simp
qed

definition demo_meta_flags :: meta_flags where
  "demo_meta_flags = \<lparr>mf_dsn = ''meta'', mf_endpoint = ''minio'', mf_bucket = ''meta'', mf_region = [], mf_key = ''k'', mf_secret = ''s'',
     mf_tls = False, mf_object = []\<rparr>"

text \<open>Tools that note the standard input of the last command.\<close>

definition noting_tools :: "string tools" where
  "noting_tools = \<lparr>os_Environ = [], os_Run = (\<lambda>argv env inp e. (\<lparr>cm_err = None, cm_stdout = [], cm_stderr = []\<rparr>, inp)),
     os_Now = (\<lambda>e. (0, e)), os_Rand = (\<lambda>e. (None, e))\<rparr>"

theorem meta_restore_newest_witness:
  "\<exists>s'. runMetaRestore mem_newClient noting_tools demo_meta_flags (demo_dumps\<lparr>mb_faults := []\<rparr>, ''idle'') = (Inr (), s') \<and> snd s' = ''new''"
proof -
  let ?k0 = "stampKey demo_meta 0 (Some ''b'')" and ?k1 = "stampKey demo_meta 1 (Some ''a'')"
  let ?s = "(demo_dumps\<lparr>mb_faults := []\<rparr>, ''idle'')"
  have lt: "?k0 < ?k1" by (rule stampKey_less) (simp_all add: year_def fields_of_def year_of.simps year_days_def leap_def month_days_def)
  then have nle: "\<not> ?k1 \<le> ?k0" "?k1 \<noteq> ?k0" "?k0 \<noteq> ?k1" by auto
  have pre: "HasPrefix ?k0 (ms_prefix demo_meta)" "HasPrefix ?k1 (ms_prefix demo_meta)" by (simp_all add: stampKey_def)
  have sv: "New_meta (flags_store demo_meta_flags) = demo_meta" by (simp add: demo_meta_def demo_meta_flags_def flags_store_def)
  have cfg: "Config_Validate (ms_store demo_meta) = None" "Config_Validate (flags_store demo_meta_flags) = None"
    by (simp_all add: demo_meta_def New_meta_def Config_Validate_def flags_store_def demo_meta_flags_def)
  have lst: "meta_List mem_newClient demo_meta ?s = (Inr [?k0, ?k1], ?s)"
    using nle pre cfg by (simp del: One_nat_def add: meta_List_def ListObjects_def inBucket_def with_mem_client
        mem_client_def mb_call_def prog_run demo_dumps_def List.map_filter_def)
  obtain clean pw where sp: "splitDSNPassword (mf_dsn demo_meta_flags) = (clean, pw)" by fastforce
  have res: "meta_Restore mem_newClient noting_tools demo_meta (mf_dsn demo_meta_flags) ?k1 ?s = (Inr (), (fst ?s, ''new''))"
    using cfg by (simp del: One_nat_def add: meta_Restore_def sp GetObject_def inBucket_def inTools_def with_mem_client sdk_def
        mem_client_def mb_call_def prog_run demo_dumps_def noting_tools_def)
  have fl: "mf_dsn demo_meta_flags \<noteq> []" "mf_object demo_meta_flags = []" by (simp_all add: demo_meta_flags_def)
  obtain s' where run: "runMetaRestore mem_newClient noting_tools demo_meta_flags ?s = (Inr (), s')"
    using lst res by (simp del: One_nat_def add: runMetaRestore_def fl cfg(2) sv meta_target_def prog_run Let_def)
  have obj: "mf_object demo_meta_flags = []" by (simp add: demo_meta_flags_def)
  from meta_restore_newest [OF mem_store.object_store_axioms refl run obj] obtain key data args env r where
    d: "map_of (mb_objects (fst ?s)) key = Some data" "map_of (mb_objects (fst ?s)) ?k1 \<noteq> None \<and> HasPrefix ?k1 ''meta-backups/'' \<longrightarrow> ?k1 \<le> key"
      "os_Run noting_tools (''pg_restore'' # args) env data (snd ?s) = (r, snd s')" by meson
  have "HasPrefix ?k1 ''meta-backups/''" using pre(2) by (simp only: demo_meta_def New_meta_def meta_service.select_convs)
  then have "?k1 \<le> key" using d(2) by (simp add: demo_dumps_def)
  moreover have "key = ?k1 \<or> key = ?k0" using d(1) by (simp add: demo_dumps_def split: if_splits)
  ultimately have "key = ?k1" using nle(1) by auto
  with d(1,3) have "snd s' = ''new''" by (simp add: demo_dumps_def noting_tools_def)
  with run show ?thesis by blast
qed

end
