(* ===== verification/RemoteBackup.thy ===== *)
theory RemoteBackup
  imports ObjectStore PgTools NetIP GoTime Secrets
begin

text \<open>
  Package \<^verbatim>\<open>internal/remotebackup\<close>: capturing a logical dump of a database the fleet does not
  manage, keeping it in the bucket and in a catalog, and loading it into a new target.

  The service is a record of its collaborators over a state, as the struct has them as fields:
  the store, the catalog, the clock, and the functions that run the client tools. \<open>New_remote\<close>
  builds the production service: the tools through \<open>os_Run\<close>, the catalog in the meta
  database (two tables, with a schedule of failing statements), the bucket of \<open>ObjectStore\<close>.
  \<^verbatim>\<open>pgconn.ParseConfig\<close> belongs to the driver and is the parameter \<open>parseConfig\<close>. The
  deadlines of the contexts appear as errors of the collaborators.
\<close>

section \<open>The connection\<close>

record RemoteConn =
  rc_Host :: string
  rc_Port :: int
  rc_User :: string
  rc_Password :: string
  rc_DBName :: string
  rc_SSLMode :: string

definition redactMask :: string where "redactMask = ''[REDACTED]''"

definition remote_defaultPort :: int where "remote_defaultPort = 5432"

definition validSSLModes :: "string list" where
  "validSSLModes = [''disable'', ''allow'', ''prefer'', ''require'', ''verify-ca'', ''verify-full'']"

definition RemoteConn_applyDefaults :: "RemoteConn \<Rightarrow> RemoteConn" where
  "RemoteConn_applyDefaults c =
     c\<lparr>rc_Port := (if rc_Port c = 0 then remote_defaultPort else rc_Port c),
       rc_SSLMode := (if rc_SSLMode c = [] then ''prefer'' else rc_SSLMode c)\<rparr>"

text \<open>\<^verbatim>\<open>ip.Equal(net.ParseIP(...))\<close> on the 16-byte forms.\<close>

definition blocked_ip :: "nat list \<Rightarrow> bool" where
  "blocked_ip ip \<longleftrightarrow> IsLinkLocalUnicast ip \<or> IsLinkLocalMulticast ip \<or>
     Some ip = ParseIP ''169.254.169.254'' \<or> Some ip = ParseIP ''fd00:ec2::254''"

definition RemoteConn_Validate :: "RemoteConn \<Rightarrow> goerr option" where
  "RemoteConn_Validate c =
     (if TrimSpace (rc_Host c) = [] then Some (New KindInvalid ''remotebackup: host is required'')
      else if TrimSpace (rc_User c) = [] then Some (New KindInvalid ''remotebackup: user is required'')
      else if TrimSpace (rc_DBName c) = [] then Some (New KindInvalid ''remotebackup: dbname is required'')
      else if rc_Port c < 0 \<or> rc_Port c > 65535 then
        Some (New KindInvalid ''remotebackup: port must be between 0 and 65535'')
      else if rc_SSLMode c \<noteq> [] \<and> rc_SSLMode c \<notin> set validSSLModes then
        Some (New KindInvalid (''remotebackup: invalid sslmode '' @ Quote (rc_SSLMode c)))
      else case ParseIP (TrimSpace (rc_Host c)) of
          None \<Rightarrow> None
        | Some ip \<Rightarrow>
            if blocked_ip ip then Some (New KindInvalid ''remotebackup: host is a blocked link-local/metadata address'')
            else None)"

definition dsnEscape :: "string \<Rightarrow> string" where
  "dsnEscape v =
     (let needsQuote = (v = [] \<or> ContainsAny v ([CHR '' '', squote, bslash, tab, nl]));
          v1 = ReplaceAll v [bslash] [bslash, bslash];
          v2 = ReplaceAll v1 [squote] [bslash, squote] in
      if needsQuote then [squote] @ v2 @ [squote] else v2)"

definition RemoteConn_DSN :: "RemoteConn \<Rightarrow> string" where
  "RemoteConn_DSN c0 = (let c = RemoteConn_applyDefaults c0 in
     Join [''host='' @ dsnEscape (rc_Host c), ''port='' @ Itoa (rc_Port c), ''user='' @ dsnEscape (rc_User c),
       ''dbname='' @ dsnEscape (rc_DBName c), ''sslmode='' @ dsnEscape (rc_SSLMode c)] '' '')"

definition redactHost :: "string \<Rightarrow> string" where
  "redactHost host0 = (let host = TrimSpace host0 in
     if host = [] then redactMask
     else let tail = takeWhile (\<lambda>c. c \<noteq> CHR ''.'') (rev host) in
       if CHR ''.'' \<in> set host \<and> tail \<noteq> [] then redactMask @ ''.'' @ rev tail else redactMask)"

definition Redact :: "string \<Rightarrow> string \<Rightarrow> string" where
  "Redact s secret = (if secret = [] then s else ReplaceAll s secret redactMask)"

definition CheckVersionSkew :: "int \<Rightarrow> int \<Rightarrow> goerr option" where
  "CheckVersionSkew dumpMajor serverMajor =
     (if dumpMajor < serverMajor then
        Some (New KindInvalid (''remotebackup: pg_dump major version '' @ Itoa dumpMajor @
          '' is older than the remote server major version '' @ Itoa serverMajor @
          ''; pg_dump must be >= the server. Upgrade the control-plane Postgres client tools.''))
      else None)"

definition catalogKey :: "nat \<Rightarrow> string option \<Rightarrow> string" where
  "catalogKey t rnd = ''remote-dumps/remote-'' @ stamp t @ ''-'' @ uniqueSuffix rnd @ ''.dump''"

definition buildDumpArgs :: "RemoteConn \<Rightarrow> string list" where
  "buildDumpArgs c0 = (let c = RemoteConn_applyDefaults c0 in
     [''--format=custom'', ''--no-owner'', ''--no-privileges''] @ [''--host='' @ rc_Host c] @
     [''--port='' @ Itoa (rc_Port c)] @ [''--username='' @ rc_User c] @ [''--no-password''] @ [''--dbname='' @ rc_DBName c])"

definition buildRestoreArgs :: "string \<Rightarrow> string \<Rightarrow> string \<Rightarrow> int \<Rightarrow> string list" where
  "buildRestoreArgs user dbname host port =
     [''--no-owner'', ''--no-privileges'', ''--host='' @ host,
      ''--port='' @ Itoa (if port = 0 then remote_defaultPort else port), ''--username='' @ user,
      ''--no-password'', ''--dbname='' @ dbname]"

section \<open>The service\<close>

record CatalogEntry =
  ce_ID :: string
  ce_ObjectKey :: string
  ce_SourceHost :: string
  ce_SourceDB :: string
  ce_ServerMaj :: int
  ce_Size :: int
  ce_CreatedAt :: nat

definition CatalogEntry_String :: "CatalogEntry \<Rightarrow> string" where
  "CatalogEntry_String e = ''remote-dump id='' @ ce_ID e @ '' key='' @ ce_ObjectKey e @ '' host='' @ ce_SourceHost e @
     '' db='' @ ce_SourceDB e @ '' server_major='' @ Itoa (ce_ServerMaj e) @ '' size='' @ Itoa (ce_Size e)"

record 's remote_service =
  sv_Put :: "string \<Rightarrow> string \<Rightarrow> ('s, unit) gofun"
  sv_Get :: "string \<Rightarrow> ('s, string) gofun"
  sv_Save :: "CatalogEntry \<Rightarrow> ('s, CatalogEntry) gofun"
  sv_GetEntry :: "string \<Rightarrow> ('s, CatalogEntry) gofun"
  sv_ListEntries :: "('s, CatalogEntry list) gofun"
  sv_now :: "'s \<Rightarrow> nat \<times> 's"
  sv_rand :: "'s \<Rightarrow> string option \<times> 's"
  sv_runCapture :: "RemoteConn \<Rightarrow> ('s, string) gofun"
  sv_serverMajor :: "RemoteConn \<Rightarrow> ('s, int) gofun"
  sv_dumpMajor :: "('s, int) gofun"
  sv_runRestore :: "string \<Rightarrow> string \<Rightarrow> ('s, unit) gofun"

definition redactErr :: "RemoteConn \<Rightarrow> string \<Rightarrow> goerr \<Rightarrow> goerr" where
  "redactErr c msg cause =
     (let safeMsg = Redact msg (rc_Password c);
          safeCause = New (Kind cause) (Redact (Error cause) (rc_Password c)) in
      Wrap (Kind cause) safeMsg safeCause)"

definition remote_Capture :: "'s remote_service \<Rightarrow> RemoteConn \<Rightarrow> ('s, CatalogEntry) gofun" where
  "remote_Capture s c0 = (case RemoteConn_Validate c0 of
       Some e \<Rightarrow> fail e
     | None \<Rightarrow>
         let c = RemoteConn_applyDefaults c0 in
         bindE (wrap_error (redactErr c ''remotebackup: probe remote server version'') (sv_serverMajor s c)) (\<lambda>srvMaj.
         bindE (wrap_error (redactErr c ''remotebackup: probe pg_dump version'') (sv_dumpMajor s)) (\<lambda>dMaj.
         case CheckVersionSkew dMaj srvMaj of
           Some e \<Rightarrow> fail e
         | None \<Rightarrow>
             bindE (wrap_error (redactErr c ''remotebackup: pg_dump failed'') (sv_runCapture s c)) (\<lambda>data.
             if data = [] then fail (New KindInternal ''remotebackup: pg_dump produced no output'')
             else attempt (sv_now s) (\<lambda>t. attempt (sv_rand s) (\<lambda>rnd.
               let key = catalogKey t rnd in
               bindE (wrap_error (redactErr c ''remotebackup: store dump'') (sv_Put s key data)) (\<lambda>_.
               attempt (sv_now s) (\<lambda>t'.
               wrap_error (redactErr c ''remotebackup: catalog dump'') (sv_Save s
                 \<lparr>ce_ID = [], ce_ObjectKey = key, ce_SourceHost = redactHost (rc_Host c), ce_SourceDB = rc_DBName c,
                  ce_ServerMaj = srvMaj, ce_Size = int (length data), ce_CreatedAt = t'\<rparr>)))))))))"

definition remote_List :: "'s remote_service \<Rightarrow> ('s, CatalogEntry list) gofun" where
  "remote_List s = sv_ListEntries s"

definition remote_GetEntry :: "'s remote_service \<Rightarrow> string \<Rightarrow> ('s, CatalogEntry) gofun" where
  "remote_GetEntry s i = sv_GetEntry s i"

definition remote_Fetch :: "'s remote_service \<Rightarrow> string \<Rightarrow> ('s, CatalogEntry \<times> string) gofun" where
  "remote_Fetch s i =
     bindE (sv_GetEntry s i) (\<lambda>e.
     bindE (sv_Get s (ce_ObjectKey e)) (\<lambda>data. ret (e, data)))"

definition remote_RestoreInto :: "'s remote_service \<Rightarrow> string \<Rightarrow> string \<Rightarrow> ('s, unit) gofun" where
  "remote_RestoreInto s dumpID targetDSN =
     bindE (remote_Fetch s dumpID) (\<lambda>(_, data). sv_runRestore s data targetDSN)"

section \<open>The client tools\<close>

definition realServerMajor :: "'e tools \<Rightarrow> RemoteConn \<Rightarrow> ('e, int) gofun" where
  "realServerMajor os c =
     attempt (os_Run os ([''psql'', ''--host='' @ rc_Host c, ''--port='' @ Itoa (rc_Port c), ''--username='' @ rc_User c,
         ''--dbname='' @ rc_DBName c, ''--no-password'', ''-tAX'', ''-c'', ''SHOW server_version_num''])
       (withPGPassword (os_Environ os) (rc_Password c)) [])
     (\<lambda>r. if cm_err r \<noteq> None then
            fail (New KindInternal (''psql server_version probe: '' @ TrimSpace (cm_stderr r)))
          else (case ParseInt (TrimSpace (cm_stdout r)) of
              Inl _ \<Rightarrow> fail (New KindInternal ''could not parse server_version_num'')
            | Inr num \<Rightarrow>
                if num \<le> 0 then fail (New KindInternal ''could not parse server_version_num'')
                else ret (serverMajorFromVersionNum num)))"

definition realDumpMajor :: "'e tools \<Rightarrow> ('e, int) gofun" where
  "realDumpMajor os =
     attempt (os_Run os [''pg_dump'', ''--version''] (os_Environ os) []) (\<lambda>r. case cm_err r of
         Some e \<Rightarrow> fail (Wrap KindInternal ''pg_dump --version (is it installed?)'' e)
       | None \<Rightarrow> (case ParsePgDumpMajor (cm_stdout r) of
             None \<Rightarrow> fail (New KindInternal ''could not parse pg_dump version'')
           | Some maj \<Rightarrow> ret maj))"

definition realCapture :: "'e tools \<Rightarrow> RemoteConn \<Rightarrow> ('e, string) gofun" where
  "realCapture os c =
     attempt (os_Run os (''pg_dump'' # buildDumpArgs c) (withPGPassword (os_Environ os) (rc_Password c)) [])
     (\<lambda>r. if cm_err r \<noteq> None then fail (New KindInternal (''pg_dump: '' @ TrimSpace (cm_stderr r)))
          else ret (cm_stdout r))"

record pg_config =
  pgc_Host :: string
  pgc_Port :: int
  pgc_User :: string
  pgc_Password :: string
  pgc_Database :: string

definition realRestore :: "(string \<Rightarrow> goerr + pg_config) \<Rightarrow> 'e tools \<Rightarrow> string \<Rightarrow> string \<Rightarrow> ('e, unit) gofun" where
  "realRestore parseConfig os data targetDSN = (case parseConfig targetDSN of
       Inl e \<Rightarrow> fail (Wrap KindInternal ''remotebackup: parse target dsn'' e)
     | Inr cfg \<Rightarrow>
         attempt (os_Run os (''pg_restore'' # buildRestoreArgs (pgc_User cfg) (pgc_Database cfg) (pgc_Host cfg) (pgc_Port cfg))
           (withPGPassword (os_Environ os) (pgc_Password cfg)) data)
         (\<lambda>r. if cm_err r \<noteq> None then
                fail (New KindInternal (''remotebackup: pg_restore failed: '' @ Redact (TrimSpace (cm_stderr r)) (pgc_Password cfg)))
              else ret ()))"

section \<open>The repository\<close>

text \<open>The two tables. A value of \<^verbatim>\<open>server_major\<close> has to fit its column, an object key is unique, and an id
  that is not the text of a UUID is refused by the server.\<close>

record source_row =
  sr_dump :: string
  sr_conn :: RemoteConn
  sr_secret :: Sealed

record remote_db =
  rd_faults :: "bool list"
  rd_is_uuid :: "string \<Rightarrow> bool"
  rd_uuids :: "nat \<Rightarrow> string"
  rd_next :: nat
  rd_clock :: nat
  rd_dumps :: "CatalogEntry list"
  rd_sources :: "source_row list"

definition rstmt :: "(goerr \<Rightarrow> goerr) \<Rightarrow> (remote_db, 'a) gofun \<Rightarrow> (remote_db, 'a) gofun" where
  "rstmt f m d = (case rd_faults d of
       [] \<Rightarrow> wrap_error f m d
     | bad # fs \<Rightarrow>
         if bad then (Inl (f (Plain ''statement failed'')), d\<lparr>rd_faults := fs\<rparr>)
         else wrap_error f m (d\<lparr>rd_faults := fs\<rparr>))"

definition dump_insert :: "CatalogEntry \<Rightarrow> (remote_db, CatalogEntry) gofun" where
  "dump_insert e d =
     (let row = e\<lparr>ce_ID := rd_uuids d (rd_next d), ce_CreatedAt := rd_clock d\<rparr>; d' = d\<lparr>rd_next := Suc (rd_next d)\<rparr> in
      if \<not> (- (2 ^ 31) \<le> ce_ServerMaj e \<and> ce_ServerMaj e < 2 ^ 31) then (Inl (Plain ''integer out of range''), d')
      else if ce_ID row \<in> ce_ID ` set (rd_dumps d) \<or> ce_ObjectKey e \<in> ce_ObjectKey ` set (rd_dumps d) then
        (Inl (Plain ''23505''), d')
      else (Inr row, d'\<lparr>rd_dumps := rd_dumps d @ [row]\<rparr>))"

definition repo_Save :: "CatalogEntry \<Rightarrow> (remote_db, CatalogEntry) gofun" where
  "repo_Save e = rstmt (\<lambda>e. e) (dump_insert e)"

definition invalid_uuid :: goerr where "invalid_uuid = Plain ''22P02''"

definition repo_Get :: "string \<Rightarrow> (remote_db, CatalogEntry) gofun" where
  "repo_Get i = rstmt (\<lambda>e. e) (\<lambda>d.
     if \<not> rd_is_uuid d i then (Inl invalid_uuid, d)
     else case find (\<lambda>e. ce_ID e = i) (rd_dumps d) of
         None \<Rightarrow> (Inl (New KindNotFound ''remotebackup: dump not found''), d)
       | Some e \<Rightarrow> (Inr e, d))"

text \<open>\<^verbatim>\<open>ORDER BY created_at DESC, id DESC\<close>: an insertion sort on the pair.\<close>

definition newer :: "CatalogEntry \<Rightarrow> CatalogEntry \<Rightarrow> bool" where
  "newer a b \<longleftrightarrow> ce_CreatedAt b < ce_CreatedAt a \<or> ce_CreatedAt a = ce_CreatedAt b \<and> ce_ID b \<le> ce_ID a"

fun insert_newest :: "CatalogEntry \<Rightarrow> CatalogEntry list \<Rightarrow> CatalogEntry list" where
  "insert_newest e [] = [e]"
| "insert_newest e (x # xs) = (if newer e x then e # x # xs else x # insert_newest e xs)"

definition repo_List :: "(remote_db, CatalogEntry list) gofun" where
  "repo_List = rstmt (Wrap KindInternal ''remotebackup: list dumps'') (\<lambda>d. (Inr (foldr insert_newest (rd_dumps d) []), d))"

text \<open>The statements of the repository run on a state that has the tables and, for \<open>Encrypt\<close>, an environment with a
  random source.\<close>

record ('b, 'e) remote_state =
  rm_bucket :: 'b
  rm_db :: remote_db
  rm_env :: 'e

definition onBucket :: "('b, 'a) gofun \<Rightarrow> (('b, 'e) remote_state, 'a) gofun" where
  "onBucket m s = (case m (rm_bucket s) of (r, b) \<Rightarrow> (r, s\<lparr>rm_bucket := b\<rparr>))"

definition onRepo :: "(remote_db, 'a) gofun \<Rightarrow> (('b, 'e) remote_state, 'a) gofun" where
  "onRepo m s = (case m (rm_db s) of (r, d) \<Rightarrow> (r, s\<lparr>rm_db := d\<rparr>))"

definition onTools :: "('e \<Rightarrow> 'r \<times> 'e) \<Rightarrow> ('b, 'e) remote_state \<Rightarrow> 'r \<times> ('b, 'e) remote_state" where
  "onTools m s = (case m (rm_env s) of (r, e) \<Rightarrow> (r, s\<lparr>rm_env := e\<rparr>))"

definition source_upsert :: "string \<Rightarrow> RemoteConn \<Rightarrow> Sealed \<Rightarrow> (remote_db, unit) gofun" where
  "source_upsert dumpID c blob d =
     (if \<not> rd_is_uuid d dumpID then (Inl invalid_uuid, d)
      else if dumpID \<notin> ce_ID ` set (rd_dumps d) then (Inl (Plain ''23503''), d)
      else (Inr (), d\<lparr>rd_sources := \<lparr>sr_dump = dumpID, sr_conn = c\<lparr>rc_Password := []\<rparr>, sr_secret = blob\<rparr> #
        filter (\<lambda>r. sr_dump r \<noteq> dumpID) (rd_sources d)\<rparr>))"

definition repo_SaveSource :: "'e host \<Rightarrow> string option \<Rightarrow> string \<Rightarrow> RemoteConn \<Rightarrow> (('b, 'e) remote_state, unit) gofun" where
  "repo_SaveSource h cipher dumpID c0 = (case cipher of
       None \<Rightarrow> fail (New KindInternal ''remotebackup: no cipher configured'')
     | Some kek \<Rightarrow>
         let c = RemoteConn_applyDefaults c0 in
         bindE (wrap_error (Wrap KindInternal ''remotebackup: seal source password'') (onTools (Encrypt h kek (rc_Password c)))) (\<lambda>blob.
         onRepo (rstmt (Wrap KindInternal ''remotebackup: save source secret'') (source_upsert dumpID c blob))))"

definition repo_Source :: "lib \<Rightarrow> string option \<Rightarrow> string \<Rightarrow> (remote_db, RemoteConn) gofun" where
  "repo_Source lb cipher dumpID = (case cipher of
       None \<Rightarrow> fail (New KindInternal ''remotebackup: no cipher configured'')
     | Some kek \<Rightarrow>
         bindE (rstmt (Wrap KindInternal ''remotebackup: read source'') (\<lambda>d.
           if \<not> rd_is_uuid d dumpID then (Inl invalid_uuid, d)
           else (Inr (find (\<lambda>r. sr_dump r = dumpID) (rd_sources d)), d))) (\<lambda>row. case row of
             None \<Rightarrow> fail (New KindNotFound ''remotebackup: source not found'')
           | Some r \<Rightarrow> (case Decrypt lb kek (sr_secret r) of
                 Inl e \<Rightarrow> fail (Wrap KindInternal ''remotebackup: decrypt source secret'' e)
               | Inr plain \<Rightarrow> ret ((sr_conn r)\<lparr>rc_Password := plain\<rparr>))))"

definition New_remote :: "'b newClient \<Rightarrow> s3_config \<Rightarrow> (string \<Rightarrow> goerr + pg_config) \<Rightarrow> 'e tools \<Rightarrow> ('b, 'e) remote_state remote_service" where
  "New_remote mk cfg parseConfig os =
     \<lparr>sv_Put = (\<lambda>key data. onBucket (PutObject mk cfg key data)), sv_Get = (\<lambda>key. onBucket (GetObject mk cfg key)),
      sv_Save = (\<lambda>e. onRepo (repo_Save e)), sv_GetEntry = (\<lambda>i. onRepo (repo_Get i)), sv_ListEntries = onRepo repo_List,
      sv_now = onTools (os_Now os), sv_rand = onTools (os_Rand os),
      sv_runCapture = (\<lambda>c. onTools (realCapture os c)), sv_serverMajor = (\<lambda>c. onTools (realServerMajor os c)),
      sv_dumpMajor = onTools (realDumpMajor os), sv_runRestore = (\<lambda>data dsn. onTools (realRestore parseConfig os data dsn))\<rparr>"

section \<open>Hosts\<close>

lemma metadata_v4: "ParseIP ''169.254.169.254'' = Some (v4_mapped [169, 254, 169, 254])"
proof -
  have "''169.254.169.254'' = dotted 169 254 169 254" by (simp add: dotted_def str_eval)
  then show ?thesis using ParseIP_dotted [of 169 254 169 254] by simp
qed

lemma metadata_v6: "ParseIP ''fd00:ec2::254'' = Some [253, 0, 14, 194, 0, 0, 0, 0, 0, 0, 0, 0, 0, 0, 2, 84]"
  by (simp add: ParseIP_def parseIPv6_def ipv6_loop.simps hex_val_def str_eval Let_def HasPrefix_def expand_ellipsis_def)
    (simp add: numeral_eq_Suc)

lemma v4_link_local: "IsLinkLocalUnicast (v4_mapped [169, 254, a, b])"
  by (simp add: IsLinkLocalUnicast_def To4_def v4_mapped_def eval_nat_numeral)

lemma link_local_invalid:
  assumes "rc_Host c = dotted 169 254 a b" "a \<le> 255" "b \<le> 255"
  shows "\<exists>e. RemoteConn_Validate c = Some e \<and> Kind e = KindInvalid"
  using assms ParseIP_dotted [of 169 254 a b] v4_link_local [of a b]
  by (auto simp: RemoteConn_Validate_def TrimSpace_dotted blocked_ip_def split: option.splits)

text \<open>
  Link-local hosts: for every dotted quad of 169.254.0.0/16, so for the metadata address
  too, a capture is refused with status 400 before any command runs or any state changes.
\<close>

theorem link_local_refused:
  assumes "rc_Host c = dotted 169 254 a b" "a \<le> 255" "b \<le> 255"
  shows "\<exists>e. remote_Capture sv c s = (Inl e, s) \<and> HTTPStatus e = 400"
  using link_local_invalid [OF assms] by (auto simp: remote_Capture_def prog_run HTTPStatus_def)

text \<open>
  The check reads the host field only. \<^verbatim>\<open>pg_dump\<close> takes its \<^verbatim>\<open>--dbname\<close> argument as a connection string when it
  has an equals sign, and its parameters override the other options: a database name
  \<^verbatim>\<open>host=169.254.169.254\<close> passes the check and is handed to the tool as it is.
\<close>

lemma dbname_bypasses_check:
  assumes "RemoteConn_Validate c = None" "TrimSpace dbn \<noteq> []"
  shows "RemoteConn_Validate (c\<lparr>rc_DBName := dbn\<rparr>) = None \<and> ''--dbname='' @ dbn \<in> set (buildDumpArgs (c\<lparr>rc_DBName := dbn\<rparr>))"
  using assms by (auto simp: RemoteConn_Validate_def buildDumpArgs_def RemoteConn_applyDefaults_def Let_def split: if_splits option.splits)

text \<open>The validated SSL mode does not reach the tools: their arguments and environment do not depend on it.\<close>

lemma sslmode_unused:
  "realCapture os (c\<lparr>rc_SSLMode := m\<rparr>) = realCapture os c" "realServerMajor os (c\<lparr>rc_SSLMode := m\<rparr>) = realServerMajor os c"
  by (simp_all add: realCapture_def realServerMajor_def buildDumpArgs_def RemoteConn_applyDefaults_def Let_def)

section \<open>Secrets in errors\<close>

lemma Redact_clean:
  assumes "pw \<noteq> []" "set pw \<inter> set redactMask = {}"
  shows "\<not> Contains (Redact s pw) pw"
  using ReplaceAll_gone [of pw redactMask] assms by (auto simp: Redact_def Contains_iff redactMask_def)

lemma Contains_across:
  assumes "Contains (a @ x # b) pw" "x \<notin> set pw" "pw \<noteq> []"
  shows "Contains a pw \<or> Contains b pw"
proof -
  from assms(1) obtain u v where e: "a @ (x # b) = u @ (pw @ v)" by (auto simp: Contains_iff)
  from iffD1 [OF append_eq_append_conv2 e] show ?thesis
  proof (elim exE disjE conjE)
    fix us assume "a @ us = u" "x # b = us @ pw @ v"
    with assms(2,3) show ?thesis
      by (cases us; cases pw) (auto simp: Contains_iff Cons_eq_append_conv)
  next
    fix us assume a: "a = u @ us" "us @ x # b = pw @ v"
    from iffD1 [OF append_eq_append_conv2 a(2)] show ?thesis
    proof (elim exE disjE conjE)
      fix vs assume v: "us @ vs = pw" "x # b = vs @ v"
      with assms(2) have "vs = []" by (cases vs) auto
      with a(1) v have "a = u @ pw @ []" by simp
      then show ?thesis unfolding Contains_iff by blast
    next
      fix vs assume "us = pw @ vs" "vs @ x # b = v"
      with a(1) show ?thesis by (auto simp: Contains_iff)
    qed
  qed
qed

lemma redactErr_clean:
  assumes "pw = rc_Password c" "pw \<noteq> []" "set pw \<inter> set (redactMask @ '': '') = {}"
  shows "\<not> Contains (Error (redactErr c msg cause)) pw"
proof
  assume "Contains (Error (redactErr c msg cause)) pw"
  then have "Contains (Redact msg pw @ CHR '':'' # CHR '' '' # Redact (Error cause) pw) pw"
    using assms(1) by (simp add: redactErr_def Wrap_def New_def Let_def)
  from Contains_across [OF this] assms(2,3)
  have "Contains (Redact msg pw) pw \<or> Contains ([] @ CHR '' '' # Redact (Error cause) pw) pw" by auto
  moreover have "\<not> Contains (Redact x pw) pw" for x using Redact_clean [of pw x] assms(2,3) by auto
  moreover have "\<not> Contains [] pw" using assms(2) by (simp add: Contains_iff)
  ultimately show False using Contains_across [of "[]" "CHR '' ''" "Redact (Error cause) pw" pw] assms(2,3) by auto
qed

text \<open>Every error a program returns satisfies a predicate.\<close>

definition errs :: "(goerr \<Rightarrow> bool) \<Rightarrow> ('s, 'a) gofun \<Rightarrow> bool" where
  "errs P m \<longleftrightarrow> (\<forall>s e s'. m s = (Inl e, s') \<longrightarrow> P e)"

lemma errs_ret: "errs P (ret x)"
  and errs_fail: "P e \<Longrightarrow> errs P (fail e)"
  and errs_bindE: "errs P m \<Longrightarrow> (\<And>x. errs P (k x)) \<Longrightarrow> errs P (bindE m k)"
  and errs_attempt: "(\<And>r. errs P (k' r)) \<Longrightarrow> errs P (attempt m' k')"
  and errs_wrap: "(\<And>cause. P (f cause)) \<Longrightarrow> errs P (wrap_error f m'')"
  and errs_if: "(b \<Longrightarrow> errs P x1) \<Longrightarrow> (\<not> b \<Longrightarrow> errs P x2) \<Longrightarrow> errs P (if b then x1 else x2)"
  and errs_option: "(opt = None \<Longrightarrow> errs P y1) \<Longrightarrow> (\<And>z. opt = Some z \<Longrightarrow> errs P (y2 z)) \<Longrightarrow> errs P (case opt of None \<Rightarrow> y1 | Some z \<Rightarrow> y2 z)"
  by (auto simp: errs_def wrap_error_def prog_defs split: prod.splits sum.splits option.splits)

lemmas errs_rules = errs_ret errs_fail errs_bindE errs_attempt errs_wrap errs_if errs_option

lemma wrap_error_Inr: "wrap_error f m s = (Inr x, s') \<longleftrightarrow> m s = (Inr x, s')"
  by (auto simp: wrap_error_def prog_defs split: prod.splits sum.splits)

text \<open>
  Scrubbed errors: whatever the tools, the store and the catalog answer, when a capture of
  a valid connection fails the error text does not contain the remote password, unless the
  error is one of the two whose text depends on no collaborator's message: the version check and
  an empty dump. The password is one that has no character of the mask or of the separator
  between the messages of wrapped errors.
\<close>

theorem Capture_error_scrubbed:
  assumes "RemoteConn_Validate c = None" "rc_Password c \<noteq> []" "set (rc_Password c) \<inter> set (redactMask @ '': '') = {}"
    and run: "remote_Capture sv c s = (Inl e, s')"
  shows "(\<exists>d v. CheckVersionSkew d v = Some e) \<or> e = New KindInternal ''remotebackup: pg_dump produced no output''
    \<or> \<not> Contains (Error e) (rc_Password c)"
proof -
  let ?c = "RemoteConn_applyDefaults c"
  have clean: "\<not> Contains (Error (redactErr ?c msg cause)) (rc_Password c)" for msg cause
    by (rule redactErr_clean) (use assms(2,3) in \<open>simp_all add: RemoteConn_applyDefaults_def\<close>)
  have "errs (\<lambda>e. (\<exists>d v. CheckVersionSkew d v = Some e) \<or> e = New KindInternal ''remotebackup: pg_dump produced no output''
      \<or> \<not> Contains (Error e) (rc_Password c)) (remote_Capture sv c)"
    unfolding remote_Capture_def assms(1) Let_def option.simps
    by (intro errs_rules) (use clean in auto)
  with run show ?thesis by (auto simp: errs_def)
qed

text \<open>Tools whose \<^verbatim>\<open>pg_dump\<close> writes a dump when \<open>up\<close>, and otherwise fails with a message that repeats its environment.\<close>

definition demo_tools :: "bool \<Rightarrow> 'e tools" where
  "demo_tools up = \<lparr>os_Environ = [''HOME=/''],
     os_Run = (\<lambda>argv env inp e. (if hd argv = ''psql'' then \<lparr>cm_err = None, cm_stdout = ''160002'', cm_stderr = []\<rparr>
         else if argv ! 1 = ''--version'' then \<lparr>cm_err = None, cm_stdout = ''(PostgreSQL) 16.2'', cm_stderr = []\<rparr>
         else if up then \<lparr>cm_err = None, cm_stdout = ''PGDMP'', cm_stderr = []\<rparr>
         else \<lparr>cm_err = Some (Plain ''exit status 1''), cm_stdout = [], cm_stderr = concat env\<rparr>, e)),
     os_Now = (\<lambda>e. (1751700000, e)), os_Rand = (\<lambda>e. (Some ''abcdef'', e))\<rparr>"

definition demo_conn :: RemoteConn where
  "demo_conn = \<lparr>rc_Host = dotted 10 0 0 7, rc_Port = 0, rc_User = ''app'', rc_Password = ''hunter2'',
     rc_DBName = ''shop'', rc_SSLMode = ''require''\<rparr>"

definition demo_repo :: remote_db where
  "demo_repo = \<lparr>rd_faults = [], rd_is_uuid = (\<lambda>_. True), rd_uuids = show_nat, rd_next = 1, rd_clock = 7, rd_dumps = [], rd_sources = []\<rparr>"

definition demo_bucket_config :: s3_config where
  "demo_bucket_config = \<lparr>oc_Endpoint = ''minio'', oc_Region = [], oc_AccessKey = ''k'', oc_SecretKey = ''s'',
     oc_Bucket = ''dumps'', oc_UseTLS = False, oc_SkipTLSVerify = False\<rparr>"

definition demo_remote :: "bool \<Rightarrow> (mem_bucket, 'e) remote_state remote_service" where
  "demo_remote up = New_remote mem_newClient demo_bucket_config (\<lambda>_. Inl (Plain ''no target'')) (demo_tools up)"

definition demo_remote_state :: "'e \<Rightarrow> (mem_bucket, 'e) remote_state" where
  "demo_remote_state e = \<lparr>rm_bucket = \<lparr>mb_faults = [], mb_objects = []\<rparr>, rm_db = demo_repo, rm_env = e\<rparr>"

lemma demo_valid: "RemoteConn_Validate demo_conn = None"
proof -
  have "TrimSpace ''app'' = ''app''" "TrimSpace ''shop'' = ''shop''"
    by (simp_all add: TrimSpace_graphic graphic_def byte_val_def)
  moreover have "dotted 10 0 0 7 \<noteq> []" by (simp add: dotted_def)
  moreover have "\<not> blocked_ip (v4_mapped [10, 0, 0, 7])"
    by (simp add: blocked_ip_def metadata_v4 metadata_v6 IsLinkLocalUnicast_def IsLinkLocalMulticast_def To4_def v4_mapped_def eval_nat_numeral)
  ultimately show ?thesis
    by (simp add: RemoteConn_Validate_def demo_conn_def TrimSpace_dotted ParseIP_dotted validSSLModes_def)
qed

lemma demo_version: "realServerMajor (demo_tools up) (RemoteConn_applyDefaults demo_conn) e = (Inr 16, e)"
proof -
  have "TrimSpace ''160002'' = ''160002''" by (simp add: TrimSpace_graphic graphic_def byte_val_def)
  moreover have "ParseInt ''160002'' = Inr 160002" by (simp add: ParseInt_def ParseUint_def str_eval)
  ultimately show ?thesis by (simp add: realServerMajor_def demo_tools_def prog_run serverMajorFromVersionNum_def)
qed

lemma demo_dump_version: "realDumpMajor (demo_tools up) e = (Inr 16, e)"
proof -
  have "ParsePgDumpMajor ''(PostgreSQL) 16.2'' = Some 16"
    by (simp add: ParsePgDumpMajor_def version_at_def ParseInt_def ParseUint_def is_re_space_def str_eval HasPrefix_def Let_def)
  then show ?thesis by (simp add: realDumpMajor_def demo_tools_def prog_run)
qed

lemma demo_clock: "os_Now (demo_tools up) e = (1751700000, e)" "os_Rand (demo_tools up) e = (Some ''abcdef'', e)"
  by (simp_all add: demo_tools_def)

lemma demo_capture: "realCapture (demo_tools up) c e =
    (if up then Inr ''PGDMP'' else Inl (New KindInternal (''pg_dump: '' @ TrimSpace (concat (withPGPassword [''HOME=/''] (rc_Password c))))), e)"
  by (simp add: realCapture_def demo_tools_def prog_run buildDumpArgs_def Let_def)

theorem Capture_error_scrubbed_witness:
  "\<exists>e s'. remote_Capture (demo_remote False) demo_conn (demo_remote_state ()) = (Inl e, s') \<and> \<not> Contains (Error e) ''hunter2''"
proof -
  obtain e s' where run: "remote_Capture (demo_remote False) demo_conn (demo_remote_state ()) = (Inl e, s')"
    and k: "e = redactErr (RemoteConn_applyDefaults demo_conn) ''remotebackup: pg_dump failed''
      (New KindInternal (''pg_dump: '' @ TrimSpace (concat (withPGPassword [''HOME=/''] ''hunter2''))))"
    by (simp add: remote_Capture_def demo_valid Let_def demo_remote_def New_remote_def onTools_def wrap_error_def prog_run
        demo_version demo_dump_version demo_capture CheckVersionSkew_def demo_remote_state_def)
      (simp add: RemoteConn_applyDefaults_def demo_conn_def)
  have pw: "rc_Password demo_conn = ''hunter2''" by (simp add: demo_conn_def)
  have "\<not> Contains (Error e) ''hunter2''"
    using Capture_error_scrubbed [OF demo_valid _ _ run] k
    by (auto simp: pw redactMask_def CheckVersionSkew_def redactErr_def Let_def New_neq_Wrap [symmetric] split: if_splits)
  with run show ?thesis by blast
qed

theorem link_local_refused_witness:
  "\<exists>e. remote_Capture (demo_remote True) (demo_conn\<lparr>rc_Host := dotted 169 254 169 254\<rparr>) (demo_remote_state ()) =
     (Inl e, demo_remote_state ()) \<and> HTTPStatus e = 400"
  by (rule link_local_refused [of _ 169 254]) simp_all

section \<open>Captures\<close>

text \<open>What a successful capture did, step by step.\<close>

lemma Capture_Inr:
  assumes "remote_Capture sv c s = (Inr entry, s')"
  obtains srvMaj dMaj data t rnd t' s1 s2 s3 s4 s5 s6 s7 where
    "RemoteConn_Validate c = None" "sv_serverMajor sv (RemoteConn_applyDefaults c) s = (Inr srvMaj, s1)"
    "sv_dumpMajor sv s1 = (Inr dMaj, s2)" "srvMaj \<le> dMaj" "sv_runCapture sv (RemoteConn_applyDefaults c) s2 = (Inr data, s3)"
    "data \<noteq> []" "sv_now sv s3 = (t, s4)" "sv_rand sv s4 = (rnd, s5)" "sv_Put sv (catalogKey t rnd) data s5 = (Inr (), s6)"
    "sv_now sv s6 = (t', s7)"
    "sv_Save sv \<lparr>ce_ID = [], ce_ObjectKey = catalogKey t rnd, ce_SourceHost = redactHost (rc_Host c), ce_SourceDB = rc_DBName c,
        ce_ServerMaj = srvMaj, ce_Size = int (length data), ce_CreatedAt = t'\<rparr> s7 = (Inr entry, s')"
proof -
  have c: "rc_Host (RemoteConn_applyDefaults c) = rc_Host c" "rc_DBName (RemoteConn_applyDefaults c) = rc_DBName c"
    by (simp_all add: RemoteConn_applyDefaults_def)
  from assms have v: "RemoteConn_Validate c = None" by (cases "RemoteConn_Validate c") (simp_all add: remote_Capture_def prog_run)
  note run = assms [unfolded remote_Capture_def v option.simps Let_def c]
  show thesis
    using run that v by (auto elim!: bindE_Inr simp: wrap_error_Inr attempt_def CheckVersionSkew_def fail_def split: if_splits prod.splits)
qed

definition catalog_ok :: "('b \<Rightarrow> string \<Rightarrow> string option) \<Rightarrow> ('b, 'e) remote_state \<Rightarrow> bool" where
  "catalog_ok objects s \<longleftrightarrow> distinct (map ce_ID (rd_dumps (rm_db s))) \<and>
     (\<forall>e\<in>set (rd_dumps (rm_db s)). \<exists>data. objects (rm_bucket s) (ce_ObjectKey e) = Some data \<and>
       data \<noteq> [] \<and> ce_Size e = int (length data))"

lemma repo_Save_Inr:
  assumes "repo_Save e d = (Inr row, d')"
  shows "ce_ObjectKey row = ce_ObjectKey e \<and> ce_SourceHost row = ce_SourceHost e \<and> ce_SourceDB row = ce_SourceDB e \<and>
    ce_ServerMaj row = ce_ServerMaj e \<and> ce_Size row = ce_Size e \<and> rd_dumps d' = rd_dumps d @ [row] \<and>
    ce_ID row \<notin> ce_ID ` set (rd_dumps d) \<and> ce_ObjectKey e \<notin> ce_ObjectKey ` set (rd_dumps d)"
  using assms by (auto simp: repo_Save_def rstmt_def wrap_error_Inr dump_insert_def Let_def split: list.splits if_splits)

lemma repo_Get_Inr:
  assumes "repo_Get i d = (Inr e, d')"
  shows "rd_dumps d' = rd_dumps d \<and> e \<in> set (rd_dumps d) \<and> ce_ID e = i"
  using assms by (auto simp: repo_Get_def rstmt_def wrap_error_Inr find_Some_iff split: list.splits if_splits option.splits)

lemma onTools_frame: "onTools m s = (r, s') \<Longrightarrow> rm_bucket s' = rm_bucket s \<and> rm_db s' = rm_db s \<and> m (rm_env s) = (r, rm_env s')"
  by (auto simp: onTools_def split: prod.splits)

lemma onBucket_frame: "onBucket m s = (r, s') \<Longrightarrow> rm_db s' = rm_db s \<and> m (rm_bucket s) = (r, rm_bucket s')"
  by (auto simp: onBucket_def split: prod.splits)

lemma onRepo_frame: "onRepo m s = (r, s') \<Longrightarrow> rm_bucket s' = rm_bucket s \<and> m (rm_db s) = (r, rm_db s')"
  by (auto simp: onRepo_def split: prod.splits)

text \<open>The capture of the production service, over any bucket that keeps its contract.\<close>

lemma Capture_effect:
  assumes os: "object_store (PutObject mk cfg) (GetObject mk cfg) (ListObjects mk cfg) (DeleteObject mk cfg) objects"
    and run: "remote_Capture (New_remote mk cfg pc os) c s = (Inr entry, s')"
  obtains data env env' where "realCapture os (RemoteConn_applyDefaults c) env = (Inr data, env')" "data \<noteq> []"
    "rd_dumps (rm_db s') = rd_dumps (rm_db s) @ [entry]" "ce_ID entry \<notin> ce_ID ` set (rd_dumps (rm_db s))"
    "ce_ObjectKey entry \<notin> ce_ObjectKey ` set (rd_dumps (rm_db s))"
    "objects (rm_bucket s') = (objects (rm_bucket s))(ce_ObjectKey entry \<mapsto> data)"
    "ce_Size entry = int (length data)" "ce_SourceHost entry = redactHost (rc_Host c)" "ce_SourceDB entry = rc_DBName c"
proof -
  let ?sv = "New_remote mk cfg pc os"
  from run obtain srvMaj dMaj data t rnd t' s1 s2 s3 s4 s5 s6 s7 where
    st: "sv_serverMajor ?sv (RemoteConn_applyDefaults c) s = (Inr srvMaj, s1)" "sv_dumpMajor ?sv s1 = (Inr dMaj, s2)"
      "sv_runCapture ?sv (RemoteConn_applyDefaults c) s2 = (Inr data, s3)" "data \<noteq> []" "sv_now ?sv s3 = (t, s4)" "sv_rand ?sv s4 = (rnd, s5)"
      "sv_now ?sv s6 = (t', s7)"
    and put: "sv_Put ?sv (catalogKey t rnd) data s5 = (Inr (), s6)"
    and save: "sv_Save ?sv \<lparr>ce_ID = [], ce_ObjectKey = catalogKey t rnd, ce_SourceHost = redactHost (rc_Host c), ce_SourceDB = rc_DBName c,
        ce_ServerMaj = srvMaj, ce_Size = int (length data), ce_CreatedAt = t'\<rparr> s7 = (Inr entry, s')"
    by (rule Capture_Inr)
  have fr: "rm_bucket s5 = rm_bucket s" "rm_db s5 = rm_db s" "rm_bucket s7 = rm_bucket s6" "rm_db s7 = rm_db s6"
    "realCapture os (RemoteConn_applyDefaults c) (rm_env s2) = (Inr data, rm_env s3)"
    using st by (auto simp: New_remote_def dest!: onTools_frame)
  have p: "rm_db s6 = rm_db s5" "PutObject mk cfg (catalogKey t rnd) data (rm_bucket s5) = (Inr (), rm_bucket s6)"
    using put by (auto simp: New_remote_def dest!: onBucket_frame)
  have sv: "rm_bucket s' = rm_bucket s7" "repo_Save \<lparr>ce_ID = [], ce_ObjectKey = catalogKey t rnd, ce_SourceHost = redactHost (rc_Host c),
      ce_SourceDB = rc_DBName c, ce_ServerMaj = srvMaj, ce_Size = int (length data), ce_CreatedAt = t'\<rparr> (rm_db s7) = (Inr entry, rm_db s')"
    using save by (auto simp: New_remote_def dest!: onRepo_frame)
  from repo_Save_Inr [OF sv(2)] have e: "ce_ObjectKey entry = catalogKey t rnd" "ce_SourceHost entry = redactHost (rc_Host c)"
      "ce_SourceDB entry = rc_DBName c" "ce_Size entry = int (length data)"
    and d: "rd_dumps (rm_db s') = rd_dumps (rm_db s) @ [entry]" "ce_ID entry \<notin> ce_ID ` set (rd_dumps (rm_db s))"
      "catalogKey t rnd \<notin> ce_ObjectKey ` set (rd_dumps (rm_db s))"
    by (simp_all add: fr p(1))
  from object_store.put [OF os p(2)] have "objects (rm_bucket s6) = (objects (rm_bucket s))(catalogKey t rnd \<mapsto> data)"
    by (auto simp: fr(1))
  with that [OF fr(5) st(4) d(1,2)] d(3) e sv(1) fr(3) show thesis by simp
qed

text \<open>
  C21. Capture and fetch: over any bucket that keeps its contract, a successful capture adds one
  catalog row and one object and changes no other; the row names the dump with its
  size, the catalog stays consistent (every row's object exists and has the
  row's size), and whenever fetching the row by its id returns, it returns that row and exactly
  the bytes \<^verbatim>\<open>pg_dump\<close> wrote.
\<close>

theorem Capture_Fetch:
  assumes os: "object_store (PutObject mk cfg) (GetObject mk cfg) (ListObjects mk cfg) (DeleteObject mk cfg) objects"
    and ok: "catalog_ok objects s"
    and run: "remote_Capture (New_remote mk cfg pc os) c s = (Inr entry, s')"
  shows "catalog_ok objects s' \<and> rd_dumps (rm_db s') = rd_dumps (rm_db s) @ [entry] \<and>
    (\<exists>data env env'. realCapture os (RemoteConn_applyDefaults c) env = (Inr data, env') \<and>
      objects (rm_bucket s') = (objects (rm_bucket s))(ce_ObjectKey entry \<mapsto> data) \<and>
      (\<forall>e x s''. remote_Fetch (New_remote mk cfg pc os) (ce_ID entry) s' = (Inr (e, x), s'') \<longrightarrow> e = entry \<and> x = data))"
proof -
  from Capture_effect [OF os run] obtain data env env' where d: "realCapture os (RemoteConn_applyDefaults c) env = (Inr data, env')" "data \<noteq> []"
    "rd_dumps (rm_db s') = rd_dumps (rm_db s) @ [entry]" "ce_ID entry \<notin> ce_ID ` set (rd_dumps (rm_db s))"
    "ce_ObjectKey entry \<notin> ce_ObjectKey ` set (rd_dumps (rm_db s))"
    "objects (rm_bucket s') = (objects (rm_bucket s))(ce_ObjectKey entry \<mapsto> data)" "ce_Size entry = int (length data)" .
  have "catalog_ok objects s'" using ok d by (auto simp: catalog_ok_def image_iff)
  moreover have "e = entry \<and> x = data" if f: "remote_Fetch (New_remote mk cfg pc os) (ce_ID entry) s' = (Inr (e, x), s'')" for e x s''
  proof -
    from f obtain s1 where g: "onRepo (repo_Get (ce_ID entry)) s' = (Inr e, s1)" "onBucket (GetObject mk cfg (ce_ObjectKey e)) s1 = (Inr x, s'')"
      by (auto simp: remote_Fetch_def New_remote_def ret_def elim!: bindE_Inr)
    have b: "rm_bucket s1 = rm_bucket s'" "repo_Get (ce_ID entry) (rm_db s') = (Inr e, rm_db s1)" using onRepo_frame [OF g(1)] by auto
    from repo_Get_Inr [OF b(2)] d(3,4) have e: "e = entry" by (auto simp: image_iff)
    from onBucket_frame [OF g(2)] object_store.get [OF os] have "objects (rm_bucket s') (ce_ObjectKey entry) = Some x"
      using e b(1) by metis
    with e d(6) show ?thesis by simp
  qed
  ultimately show ?thesis using d(1,3,6) by blast
qed

theorem Capture_Fetch_witness:
  "\<exists>entry s'. remote_Capture (demo_remote True) demo_conn (demo_remote_state ()) = (Inr entry, s') \<and>
     catalog_ok (\<lambda>b. map_of (mb_objects b)) s' \<and> length (rd_dumps (rm_db s')) = 1 \<and>
     (\<forall>e x s''. remote_Fetch (demo_remote True) (ce_ID entry) s' = (Inr (e, x), s'') \<longrightarrow> x = ''PGDMP'')"
proof -
  let ?sv = "demo_remote True :: (mem_bucket, unit) remote_state remote_service"
  have ok: "catalog_ok (\<lambda>b. map_of (mb_objects b)) (demo_remote_state ())"
    by (simp add: catalog_ok_def demo_remote_state_def demo_repo_def)
  obtain entry s' where run: "remote_Capture ?sv demo_conn (demo_remote_state ()) = (Inr entry, s')"
    by (simp add: remote_Capture_def demo_valid Let_def demo_remote_def New_remote_def onTools_def onBucket_def onRepo_def
        wrap_error_def prog_run demo_version demo_dump_version demo_capture CheckVersionSkew_def demo_remote_state_def
        PutObject_def with_mem_client sdk_def mem_client_def mb_call_def Config_Validate_def demo_bucket_config_def
        demo_clock repo_Save_def rstmt_def dump_insert_def demo_repo_def)
  note th = Capture_Fetch [OF mem_store.object_store_axioms ok run [unfolded demo_remote_def], folded demo_remote_def]
  have "rd_dumps (rm_db (demo_remote_state ())) = []" by (simp add: demo_remote_state_def demo_repo_def)
  with th run show ?thesis by (auto simp: demo_capture)
qed

section \<open>Stored sources\<close>

lemma source_upsert_Inr:
  assumes "rstmt f (source_upsert dumpID c blob) d = (Inr (), d')"
  shows "rd_is_uuid d' dumpID \<and> rd_sources d' = \<lparr>sr_dump = dumpID, sr_conn = c\<lparr>rc_Password := []\<rparr>, sr_secret = blob\<rparr> #
      filter (\<lambda>r. sr_dump r \<noteq> dumpID) (rd_sources d)"
  using assms by (auto simp: rstmt_def wrap_error_Inr source_upsert_def split: list.splits if_splits)

text \<open>
  A stored source comes back: after \<open>SaveSource\<close> returns without error, \<open>Source\<close> for the
  same dump, whenever its statement does not fail, returns the connection with its defaults and
  its password, for every AEAD that opens what it sealed; and the row that was written holds the
  password only in sealed form.
\<close>

theorem SaveSource_Source:
  assumes gcm: "gcm_host h" and key: "length kek = keyLen"
    and save: "repo_SaveSource h (Some kek) dumpID c s = (Inr (), s')" and calm: "rd_faults (rm_db s') = []"
  shows "repo_Source (Lib h) (Some kek) dumpID (rm_db s') = (Inr (RemoteConn_applyDefaults c), rm_db s') \<and>
    (\<forall>r\<in>set (rd_sources (rm_db s')). sr_dump r = dumpID \<longrightarrow> rc_Password (sr_conn r) = [] \<and>
      Decrypt (Lib h) kek (sr_secret r) = Inr (rc_Password c))"
proof -
  let ?c = "RemoteConn_applyDefaults c"
  from save obtain blob s1 where 1: "onTools (Encrypt h kek (rc_Password ?c)) s = (Inr blob, s1)"
      "onRepo (rstmt (Wrap KindInternal ''remotebackup: save source secret'') (source_upsert dumpID ?c blob)) s1 = (Inr (), s')"
    by (auto simp: repo_SaveSource_def Let_def wrap_error_Inr elim!: bindE_Inr)
  from onTools_frame [OF 1(1)] have "Encrypt h kek (rc_Password ?c) (rm_env s) = (Inr blob, rm_env s1)" by simp
  then have dec: "Decrypt (Lib h) kek blob = Inr (rc_Password c)"
    using gcm_host.Decrypt_Encrypt [OF gcm key] by (simp add: RemoteConn_applyDefaults_def)
  from onRepo_frame [OF 1(2)] have up: "rd_is_uuid (rm_db s') dumpID"
    "rd_sources (rm_db s') = \<lparr>sr_dump = dumpID, sr_conn = ?c\<lparr>rc_Password := []\<rparr>, sr_secret = blob\<rparr> #
      filter (\<lambda>r. sr_dump r \<noteq> dumpID) (rd_sources (rm_db s1))"
    using source_upsert_Inr by blast+
  have "?c\<lparr>rc_Password := rc_Password c\<rparr> = ?c" by (simp add: RemoteConn_applyDefaults_def)
  then show ?thesis
    using dec up calm by (auto simp: repo_Source_def rstmt_def wrap_error_def prog_run)
qed

theorem SaveSource_Source_witness:
  "\<exists>s'. repo_SaveSource (fake_host None None (\<lambda>_. None) tagged_lib) (Some (replicate 32 (CHR ''k''))) ''1'' demo_conn
       \<lparr>rm_bucket = (), rm_db = demo_repo\<lparr>rd_dumps := [\<lparr>ce_ID = ''1'', ce_ObjectKey = ''k'', ce_SourceHost = [], ce_SourceDB = [],
          ce_ServerMaj = 16, ce_Size = 5, ce_CreatedAt = 0\<rparr>]\<rparr>, rm_env = (NewFake, plain_process)\<rparr> = (Inr (), s') \<and>
     repo_Source tagged_lib (Some (replicate 32 (CHR ''k''))) ''1'' (rm_db s') = (Inr (RemoteConn_applyDefaults demo_conn), rm_db s')"
proof -
  let ?h = "fake_host None None (\<lambda>_. None) tagged_lib" and ?k = "replicate 32 (CHR ''k'')"
  let ?s = "\<lparr>rm_bucket = (), rm_db = demo_repo\<lparr>rd_dumps := [\<lparr>ce_ID = ''1'', ce_ObjectKey = ''k'', ce_SourceHost = [], ce_SourceDB = [],
          ce_ServerMaj = 16, ce_Size = 5, ce_CreatedAt = 0\<rparr>]\<rparr>, rm_env = (NewFake, plain_process)\<rparr>"
  obtain b e' where enc: "Encrypt ?h ?k ''hunter2'' (NewFake, plain_process) = (Inr b, e')"
    by (simp add: Encrypt_def seal_def wrap_error_def prog_defs newGCM_def keyLen_def fake_host_def fake_rand_def)
  have pw: "rc_Password (RemoteConn_applyDefaults demo_conn) = ''hunter2''" by (simp add: RemoteConn_applyDefaults_def demo_conn_def)
  obtain s' where run: "repo_SaveSource ?h (Some ?k) ''1'' demo_conn ?s = (Inr (), s')" and calm: "rd_faults (rm_db s') = []"
    by (simp add: repo_SaveSource_def Let_def wrap_error_def prog_run onTools_def onRepo_def enc pw rstmt_def source_upsert_def demo_repo_def)
  have "Lib ?h = tagged_lib" by (simp add: fake_host_def)
  then show ?thesis
    using SaveSource_Source [OF fake_gcm.gcm_host_axioms _ run calm] run by (simp add: keyLen_def)
qed

end
