(* ===== verification/RemoteAPI.thy ===== *)
theory RemoteAPI
  imports Handlers RemoteBackup
begin

text \<open>
  The migrate-in endpoints: \<^verbatim>\<open>internal/api/remote.go\<close> with its provisioning adapter
  \<^verbatim>\<open>cmd/pgfleet-api/remote_target.go\<close>.

  The state is that of the other handlers with the state of the remote service and the tracker's
  restore tasks. A handler returns the error it responds with or its status and payload;
  \<open>run_remote_task\<close> is the body of the function literal given to \<^verbatim>\<open>Go\<close>.
\<close>

section \<open>Requests and payloads\<close>

datatype remote_task = RemoteRestore string string string

record ('e, 'r) remote_server =
  rv_server :: "'e server"
  rv_remote :: 'r
  rv_async :: "remote_task async"

definition onServer :: "('e server \<Rightarrow> 'x \<times> 'e server) \<Rightarrow> ('e, 'r) remote_server \<Rightarrow> 'x \<times> ('e, 'r) remote_server" where
  "onServer m s = (case m (rv_server s) of (r, v) \<Rightarrow> (r, s\<lparr>rv_server := v\<rparr>))"

definition onRemote :: "('r \<Rightarrow> 'x \<times> 'r) \<Rightarrow> ('e, 'r) remote_server \<Rightarrow> 'x \<times> ('e, 'r) remote_server" where
  "onRemote m s = (case m (rv_remote s) of (r, v) \<Rightarrow> (r, s\<lparr>rv_remote := v\<rparr>))"

definition onTarget :: "('e world, 'a) gofun \<Rightarrow> (('e, 'r) remote_server, 'a) gofun" where
  "onTarget m = onServer (onW m)"

text \<open>The handler: \<open>rh_prov\<close> says whether a target provisioner is attached.\<close>

record ('e, 'r) RemoteHandler =
  rh_svc :: "'r remote_service"
  rh_prov :: bool
  rh_api :: "'e api"

record captureRequest =
  cpq_Host :: string
  cpq_Port :: int
  cpq_User :: string
  cpq_Password :: string
  cpq_DBName :: string
  cpq_SSLMode :: string

record remoteDumpPayload =
  rp_ID :: string
  rp_ObjectKey :: string
  rp_SourceHost :: string
  rp_SourceDB :: string
  rp_ServerMajor :: int
  rp_SizeBytes :: int
  rp_CreatedAt :: string

definition rfc3339 :: "nat \<Rightarrow> string" where
  "rfc3339 t = (case fields_of t of
       [y, mo, d, h, mi, s] \<Rightarrow>
         pad 4 y @ ''-'' @ pad 2 mo @ ''-'' @ pad 2 d @ ''T'' @ pad 2 h @ '':'' @ pad 2 mi @ '':'' @ pad 2 s @ ''Z''
     | _ \<Rightarrow> [])"

definition toRemoteDumpPayload :: "CatalogEntry \<Rightarrow> remoteDumpPayload" where
  "toRemoteDumpPayload e = \<lparr>rp_ID = ce_ID e, rp_ObjectKey = ce_ObjectKey e, rp_SourceHost = ce_SourceHost e,
     rp_SourceDB = ce_SourceDB e, rp_ServerMajor = ce_ServerMaj e, rp_SizeBytes = ce_Size e, rp_CreatedAt = rfc3339 (ce_CreatedAt e)\<rparr>"

record remoteRestoreRequest =
  rq_Target :: string
  rq_Name :: string
  rq_Password :: string
  rq_RepoType :: string
  rq_PGVersion :: string
  rq_Replicas :: int
  rq_Parameters :: strmap
  rq_Extensions :: "string list"

datatype remote_payload =
    DumpBody remoteDumpPayload
  | DumpsBody "remoteDumpPayload list"
  | TargetBody string string

type_synonym ('e, 'r) remote_handler = "(('e, 'r) remote_server, nat \<times> remote_payload) gofun"

section \<open>The target provisioner (cmd/pgfleet-api/remote_target.go)\<close>

definition target_ProvisionInstance :: "'e api \<Rightarrow> remoteRestoreRequest \<Rightarrow> ('e world, string) gofun" where
  "target_ProvisionInstance h spec =
     bindE (instance_Create (p_rt (ap_prov h)) (p_kek (ap_prov h))
       \<lparr>n_Name = rq_Name spec, n_Image = [], n_PGVersion = rq_PGVersion spec, n_ClusterID = [], n_Role = RoleUnset,
        n_RepoType = repo_of (rq_RepoType spec), n_Superuser = [], n_Password = rq_Password spec,
        n_Parameters = rq_Parameters spec, n_Extensions = rq_Extensions spec\<rparr>) (\<lambda>inst.
     ret (i_ID inst))"

definition target_ProvisionCluster :: "'e api \<Rightarrow> remoteRestoreRequest \<Rightarrow> ('e world, string) gofun" where
  "target_ProvisionCluster h spec =
     bindE (Create (ap_svc h) \<lparr>in_Name = rq_Name spec, in_Replicas = rq_Replicas spec, in_Password = rq_Password spec,
        in_RepoType = repo_of (rq_RepoType spec), in_Version = rq_PGVersion spec, in_Parameters = rq_Parameters spec,
        in_Extensions = rq_Extensions spec, in_PoolMode = []\<rparr>) (\<lambda>c.
     ret (c_ID c))"

definition target_WaitReady :: "'e api \<Rightarrow> string \<Rightarrow> string \<Rightarrow> ('e world, string) gofun" where
  "target_WaitReady h kind i =
     (if kind = ''instance'' then bindE (Provision (ap_prov h) i) (\<lambda>_. DSN (ap_prov h) i)
      else if kind = ''cluster'' then
        bindE (Provision_cluster (ap_svc h) i) (\<lambda>_.
        bindE (onD (cluster_Get i)) (\<lambda>c.
        if c_PrimaryInstanceID c = [] then fail (Plain (''cluster '' @ i @ '' has no primary after provisioning''))
        else DSN (ap_prov h) (c_PrimaryInstanceID c)))
      else fail (Plain (''unknown target kind '' @ Quote kind)))"

definition target_MarkError :: "string \<Rightarrow> string \<Rightarrow> string \<Rightarrow> ('e world, unit) gofun" where
  "target_MarkError kind i reason =
     (if kind = ''instance'' then ignoring (onD (instance_SetStatus i StatusError reason)) (ret ())
      else if kind = ''cluster'' then ignoring (onD (cluster_SetStatus i CStatusError reason)) (ret ())
      else ret ())"

section \<open>The handlers (api/remote.go)\<close>

definition remote_audit :: "('e, 'r) RemoteHandler \<Rightarrow> Claims option \<Rightarrow> string \<Rightarrow> string \<Rightarrow> (('e, 'r) remote_server, unit) gofun" where
  "remote_audit h ctx action target = onServer (api_audit (rh_api h) ctx action target)"

definition capture_conn :: "captureRequest \<Rightarrow> RemoteConn" where
  "capture_conn req = \<lparr>rc_Host = cpq_Host req, rc_Port = cpq_Port req, rc_User = cpq_User req, rc_Password = cpq_Password req,
     rc_DBName = cpq_DBName req, rc_SSLMode = cpq_SSLMode req\<rparr>"

definition handler_Capture :: "('e, 'r) RemoteHandler \<Rightarrow> Claims option \<Rightarrow> captureRequest decoder \<Rightarrow> string \<Rightarrow> ('e, 'r) remote_handler" where
  "handler_Capture h ctx dec body = (case decodeJSON dec body of
       Inl e \<Rightarrow> fail e
     | Inr req \<Rightarrow>
         let conn = capture_conn req in
         (case RemoteConn_Validate conn of
            Some e \<Rightarrow> fail e
          | None \<Rightarrow>
              bindE (onRemote (remote_Capture (rh_svc h) conn)) (\<lambda>entry.
              ignoring (remote_audit h ctx ''remote.backup.capture'' (ce_SourceHost entry @ ''/'' @ ce_SourceDB entry)) (
              ret (201, DumpBody (toRemoteDumpPayload entry))))))"

definition handler_List :: "('e, 'r) RemoteHandler \<Rightarrow> ('e, 'r) remote_handler" where
  "handler_List h = bindE (onRemote (remote_List (rh_svc h))) (\<lambda>items. ret (200, DumpsBody (map toRemoteDumpPayload items)))"

definition bad_target :: goerr where
  "bad_target = New KindInvalid (''target must be '' @ [dquote] @ ''instance'' @ [dquote] @ '' or '' @ [dquote] @ ''cluster'' @ [dquote])"

definition remote_Go :: "remote_task \<Rightarrow> (('e, 'r) remote_server, unit) gofun" where
  "remote_Go t s = (Inr (), s\<lparr>rv_async := Go_admit t (rv_async s)\<rparr>)"

definition handler_Restore :: "('e, 'r) RemoteHandler \<Rightarrow> Claims option \<Rightarrow> remoteRestoreRequest decoder \<Rightarrow> string \<Rightarrow> string \<Rightarrow> ('e, 'r) remote_handler" where
  "handler_Restore h ctx dec dumpID body =
     (if \<not> rh_prov h then fail (New KindInternal ''remote restore is not configured'')
      else case decodeJSON dec body of
          Inl e \<Rightarrow> fail e
        | Inr req \<Rightarrow>
            if rq_Target req \<noteq> ''instance'' \<and> rq_Target req \<noteq> ''cluster'' then fail bad_target
            else if length (rq_Password req) < 8 then fail (New KindInvalid ''password must be at least 8 characters'')
            else if rq_Target req = ''cluster'' \<and> rq_Replicas req < 1 then
              fail (New KindInvalid ''a cluster restore requires at least 1 replica'')
            else
              bindE (onRemote (remote_GetEntry (rh_svc h) dumpID)) (\<lambda>_.
              bindE (if rq_Target req = ''instance'' then onTarget (target_ProvisionInstance (rh_api h) req)
                     else onTarget (target_ProvisionCluster (rh_api h) req)) (\<lambda>i.
              ignoring (remote_audit h ctx ''remote.backup.restore'' (rq_Target req @ '':'' @ i @ '' from dump '' @ dumpID)) (
              ignoring (remote_Go (RemoteRestore (rq_Target req) i dumpID)) (
              ret (202, TargetBody (rq_Target req) i))))))"

definition run_remote_task :: "('e, 'r) RemoteHandler \<Rightarrow> remote_task \<Rightarrow> (('e, 'r) remote_server, unit) gofun" where
  "run_remote_task h t = (case t of RemoteRestore kind i dumpID \<Rightarrow>
     attempt (onTarget (target_WaitReady (rh_api h) kind i)) (\<lambda>r. case r of
         Inl werr \<Rightarrow> onTarget (target_MarkError kind i (''target never became ready: '' @ Error werr))
       | Inr dsn \<Rightarrow>
           attempt (onRemote (remote_RestoreInto (rh_svc h) dumpID dsn)) (\<lambda>r'. case r' of
               Inl rerr \<Rightarrow> onTarget (target_MarkError kind i (''restore failed: '' @ Error rerr))
             | Inr _ \<Rightarrow> ret ())))"

section \<open>A target in service holds the dump\<close>

lemma topo_DSN: "keeps (\<lambda>w. topo R C (db w)) (DSN p i)"
  unfolding DSN_def Let_def by (auto intro!: keeps_rules topo_rules)

lemma topo_Provision: "keeps (\<lambda>w. topo R C (db w)) (Provision p iid)"
  unfolding Provision_def record_outcome_def
  by (auto intro!: keeps_rules topo_rules topo_provision split: sum.split)

lemma topo_WaitReady: "keeps (\<lambda>w. topo R C (db w)) (target_WaitReady h ''instance'' iid)"
  unfolding target_WaitReady_def by (auto intro!: keeps_rules topo_DSN topo_Provision)

definition row_status :: "string \<Rightarrow> metadb \<Rightarrow> Status \<Rightarrow> bool" where
  "row_status iid d st \<longleftrightarrow> iid \<in> ids_of d \<and> (\<forall>i\<in>set (instances d). i_ID i = iid \<longrightarrow> i_Status i = st)"

lemma DSN_reads: "instances (db (snd (DSN p iid w))) = instances (db w)"
  by (auto simp: DSN_def prog_run onD_def instance_Get_def queryOne_def instance_Password_def stmt_def Let_def
      split: prod.splits sum.splits list.splits if_splits option.splits)

lemma MarkError_row:
  assumes "iid \<in> fst ` set R" "single R" "topo R C (db w)"
  shows "row_status iid (db (snd (target_MarkError ''instance'' iid reason w))) StatusError"
  using hoareD [OF SetStatus_settles [OF assms(1,2)] assms(3), of StatusError reason] assms(1)
  by (auto simp: row_status_def target_MarkError_def prog_run ids_of_roles topo_def)

lemma Provision_row:
  assumes "iid \<in> fst ` set R" "single R" "topo R C (db w)" "Provision p iid w = (Inr (), w')"
  shows "row_status iid (db w') StatusRunning"
proof -
  from assms(4) obtain w1 where p: "provision p iid w = (Inr (), w1)" and st: "onD (instance_SetStatus iid StatusRunning []) w1 = (Inr (), w')"
    by (auto simp: Provision_def record_outcome_def prog_run split: prod.splits sum.splits)
  have "topo R C (db w1)" using keeps_result [OF topo_provision assms(3) p] .
  from hoareD [OF SetStatus_settles [OF assms(1,2)] this, of StatusRunning "[]"] st assms(1) show ?thesis
    by (auto simp: row_status_def ids_of_roles topo_def)
qed

lemma onTarget_run: "onTarget m s = (r, s') \<Longrightarrow> m (sv_world (rv_server s)) = (r, sv_world (rv_server s')) \<and> rv_remote s' = rv_remote s"
  by (auto simp: onTarget_def onServer_def onW_def split: prod.splits)

lemma onRemote_run: "onRemote m s = (r, s') \<Longrightarrow> m (rv_remote s) = (r, rv_remote s') \<and> rv_server s' = rv_server s"
  by (auto simp: onRemote_def split: prod.splits)

lemma restored_status:
  assumes wf: "db_wf (db (sv_world (rv_server s)))" "faults (db (sv_world (rv_server s))) = []"
    and row: "iid \<in> i_ID ` set (instances (db (sv_world (rv_server s))))"
    and run: "run_remote_task h (RemoteRestore ''instance'' iid dumpID) s = (r, s')"
  shows "row_status iid (db (sv_world (rv_server s'))) StatusError \<or>
    row_status iid (db (sv_world (rv_server s'))) StatusRunning \<and>
    (\<exists>dsn w. target_WaitReady (rh_api h) ''instance'' iid (sv_world (rv_server s)) = (Inr dsn, w) \<and>
      remote_RestoreInto (rh_svc h) dumpID dsn (rv_remote s) = (Inr (), rv_remote s'))"
proof -
  let ?R = "roles (db (sv_world (rv_server s)))" and ?C = "prims (db (sv_world (rv_server s)))"
  have R: "topo ?R ?C (db (sv_world (rv_server s)))" "iid \<in> fst ` set ?R" "single ?R"
    using wf row by (simp_all add: topo_def one_primary_roles [symmetric] db_wf_def ids_of_roles [symmetric] ids_of_def)
  have mark: "row_status iid (db (sv_world (rv_server s''))) StatusError"
    if "onTarget (target_MarkError ''instance'' iid reason) s0 = (x, s'')" "topo ?R ?C (db (sv_world (rv_server s0)))" for reason s0 s'' and x :: "goerr + unit"
    using MarkError_row [OF R(2,3) that(2), of reason] onTarget_run [OF that(1)] by simp
  obtain q s1 where w: "onTarget (target_WaitReady (rh_api h) ''instance'' iid) s = (q, s1)"
    by (cases "onTarget (target_WaitReady (rh_api h) ''instance'' iid) s")
  note wr = onTarget_run [OF w]
  have t1: "topo ?R ?C (db (sv_world (rv_server s1)))" using keeps_result [OF topo_WaitReady R(1) conjunct1 [OF wr]] .
  show ?thesis
  proof (cases q)
    case (Inl e)
    with run w have "onTarget (target_MarkError ''instance'' iid (''target never became ready: '' @ Error e)) s1 = (r, s')"
      by (simp add: run_remote_task_def prog_run)
    from mark [OF this t1] show ?thesis by simp
  next
    case (Inr dsn)
    obtain q2 s2 where rs: "onRemote (remote_RestoreInto (rh_svc h) dumpID dsn) s1 = (q2, s2)"
      by (cases "onRemote (remote_RestoreInto (rh_svc h) dumpID dsn) s1")
    note rr = onRemote_run [OF rs]
    show ?thesis
    proof (cases q2)
      case e: (Inl e)
      with run w rs Inr have "onTarget (target_MarkError ''instance'' iid (''restore failed: '' @ Error e)) s2 = (r, s')"
        by (simp add: run_remote_task_def prog_run)
      from mark [OF this] t1 rr show ?thesis by simp
    next
      case (Inr u)
      with run w rs \<open>q = Inr dsn\<close> have s': "s' = s2" by (simp add: run_remote_task_def prog_run)
      from wr \<open>q = Inr dsn\<close> obtain w1 where p: "Provision (ap_prov (rh_api h)) iid (sv_world (rv_server s)) = (Inr (), w1)"
        and d: "DSN (ap_prov (rh_api h)) iid w1 = (Inr dsn, sv_world (rv_server s1))"
        by (auto simp: target_WaitReady_def elim!: bindE_Inr)
      have "instances (db (sv_world (rv_server s1))) = instances (db w1)" using DSN_reads [of "ap_prov (rh_api h)" iid w1] d by simp
      with Provision_row [OF R(2,3,1) p] have "row_status iid (db (sv_world (rv_server s'))) StatusRunning"
        using s' rr by (simp add: row_status_def ids_of_def)
      with wr rr \<open>q = Inr dsn\<close> Inr s' show ?thesis by auto
    qed
  qed
qed

lemma unloaded_is_marked:
  assumes "run_remote_task h (RemoteRestore kind iid dumpID) s = (r, s')"
  shows "(\<exists>dsn w. target_WaitReady (rh_api h) kind iid (sv_world (rv_server s)) = (Inr dsn, w) \<and>
      remote_RestoreInto (rh_svc h) dumpID dsn (rv_remote s) = (Inr (), rv_remote s')) \<or>
    (\<exists>reason s1. onTarget (target_MarkError kind iid reason) s1 = (r, s'))"
proof -
  obtain q s1 where w: "onTarget (target_WaitReady (rh_api h) kind iid) s = (q, s1)"
    by (cases "onTarget (target_WaitReady (rh_api h) kind iid) s")
  note wr = onTarget_run [OF w]
  obtain q2 s2 where rs: "onRemote (remote_RestoreInto (rh_svc h) dumpID (projr q)) s1 = (q2, s2)"
    by (cases "onRemote (remote_RestoreInto (rh_svc h) dumpID (projr q)) s1")
  note rr = onRemote_run [OF rs]
  show ?thesis
    using assms w rs wr rr by (cases q; cases q2) (auto simp: run_remote_task_def prog_run)
qed


definition demo_remote_handler :: "(fake_env, (mem_bucket, unit) remote_state) RemoteHandler" where
  "demo_remote_handler = \<lparr>rh_svc = demo_remote True, rh_prov = True, rh_api = demo_api\<rparr>"

definition demo_remote_server :: "(fake_env, (mem_bucket, unit) remote_state) remote_server" where
  "demo_remote_server = \<lparr>rv_server = demo_server, rv_remote = demo_remote_state (), rv_async = NewAsync\<rparr>"


end
