(* ===== verification/Config.thy ===== *)
theory Config
  imports GoURLParse Auth Secrets
begin

text \<open>
  Package \<^verbatim>\<open>internal/config\<close>: the control plane's configuration from the environment.

  \<open>getenv\<close> is a function from names to values, empty for an unset one. A duration is a number of
  nanoseconds; \<open>ParseDuration\<close> is the library's, with the fraction of a unit computed exactly
  where the library uses floating point. \<^verbatim>\<open>%q\<close> is \<open>Quote\<close>. The offset in the message of a base64 error
  is left out.
\<close>

section \<open>Durations\<close>

definition max63 :: nat where "max63 = 2 ^ 63"

fun leadingInt :: "nat \<Rightarrow> string \<Rightarrow> (nat \<times> string) option" where
  "leadingInt x [] = Some (x, [])"
| "leadingInt x (c # s) =
     (if \<not> is_digit c then Some (x, c # s)
      else if max63 div 10 < x then None
      else let y = x * 10 + digit_val c in if max63 < y then None else leadingInt y s)"

text \<open>The fraction, its scale and the rest; digits beyond the precision are skipped.\<close>

fun leadingFraction :: "nat \<Rightarrow> nat \<Rightarrow> bool \<Rightarrow> string \<Rightarrow> nat \<times> nat \<times> string" where
  "leadingFraction x scale overflow [] = (x, scale, [])"
| "leadingFraction x scale overflow (c # s) =
     (if \<not> is_digit c then (x, scale, c # s)
      else if overflow then leadingFraction x scale True s
      else if (max63 - 1) div 10 < x then leadingFraction x scale True s
      else let y = x * 10 + digit_val c in
        if max63 < y then leadingFraction x scale True s else leadingFraction y (scale * 10) False s)"

definition unitMap :: "(string \<times> nat) list" where
  "unitMap = [(''ns'', 1), (''us'', 1000), ([CHR 0xC2, CHR 0xB5, CHR ''s''], 1000), ([CHR 0xCE, CHR 0xBC, CHR ''s''], 1000),
     (''ms'', 1000000), (''s'', 1000000000), (''m'', 60000000000), (''h'', 3600000000000)]"

definition invalid_duration :: "string \<Rightarrow> goerr" where
  "invalid_duration orig = Plain (''time: invalid duration '' @ Quote orig)"

definition is_unit_char :: "char \<Rightarrow> bool" where
  "is_unit_char c \<longleftrightarrow> c \<noteq> CHR ''.'' \<and> \<not> is_digit c"

text \<open>One number with its unit: the nanoseconds and the rest.\<close>

definition duration_part :: "string \<Rightarrow> string \<Rightarrow> goerr + nat \<times> string" where
  "duration_part orig s =
     (if is_unit_char (hd s) then Inl (invalid_duration orig)
      else case leadingInt 0 s of
          None \<Rightarrow> Inl (invalid_duration orig)
        | Some (v, s1) \<Rightarrow>
            let pre = (length s1 \<noteq> length s);
                dot = (s1 \<noteq> [] \<and> hd s1 = CHR ''.'');
                (f, scale, s2) = (if dot then leadingFraction 0 1 False (tl s1) else (0, 1, s1));
                post = (dot \<and> length s2 \<noteq> length (tl s1));
                u = takeWhile is_unit_char s2 in
            if \<not> pre \<and> \<not> post then Inl (invalid_duration orig)
            else if u = [] then Inl (Plain (''time: missing unit in duration '' @ Quote orig))
            else (case map_of unitMap u of
                None \<Rightarrow> Inl (Plain (''time: unknown unit '' @ Quote u @ '' in duration '' @ Quote orig))
              | Some unit \<Rightarrow>
                  if max63 div unit < v then Inl (invalid_duration orig)
                  else let w = v * unit + f * unit div scale in
                    if max63 < w then Inl (invalid_duration orig) else Inr (w, dropWhile is_unit_char s2)))"

lemma leadingInt_shorter: "leadingInt x s = Some (v, s1) \<Longrightarrow> length s1 \<le> length s"
  by (induction x s rule: leadingInt.induct) (auto simp: Let_def split: if_splits)

lemma leadingFraction_shorter: "leadingFraction x k b s = (f, sc, s2) \<Longrightarrow> length s2 \<le> length s"
  by (induction x k b s rule: leadingFraction.induct) (fastforce simp: Let_def split: if_splits)+

lemma duration_part_shorter: "duration_part orig s = Inr (w, r) \<Longrightarrow> length r < length s"
proof -
  assume a: "duration_part orig s = Inr (w, r)"
  then obtain v s1 where 1: "leadingInt 0 s = Some (v, s1)" by (auto simp: duration_part_def split: option.splits if_splits)
  obtain f sc s2 where 2: "(if s1 \<noteq> [] \<and> hd s1 = CHR ''.'' then leadingFraction 0 1 False (tl s1) else (0, 1, s1)) = (f, sc, s2)"
    by (metis prod_cases3)
  from a 1 2 have r: "r = dropWhile is_unit_char s2" "takeWhile is_unit_char s2 \<noteq> []"
    by (auto simp: duration_part_def Let_def split: option.splits if_splits)
  have "length r < length s2"
    using r(2) takeWhile_dropWhile_id [of is_unit_char s2] unfolding r(1)
    by (metis length_append length_greater_0_conv less_add_same_cancel2)
  moreover have "length s2 \<le> length s1" using 2 leadingFraction_shorter [of 0 1 False "tl s1"] by (force split: if_splits)
  ultimately show ?thesis using leadingInt_shorter [OF 1] by linarith
qed

function duration_loop :: "string \<Rightarrow> nat \<Rightarrow> string \<Rightarrow> goerr + nat" where
  "duration_loop orig d s =
     (if s = [] then Inr d
      else case duration_part orig s of
          Inl e \<Rightarrow> Inl e
        | Inr (w, r) \<Rightarrow> if max63 < d + w then Inl (invalid_duration orig) else duration_loop orig (d + w) r)"
  by pat_completeness auto
termination
  by (relation "measure (\<lambda>(_, _, s). length s)") (auto dest: duration_part_shorter)

declare duration_loop.simps [simp del]

definition ParseDuration :: "string \<Rightarrow> goerr + int" where
  "ParseDuration orig =
     (let neg = (orig \<noteq> [] \<and> hd orig = CHR ''-'');
          s = (if orig \<noteq> [] \<and> (hd orig = CHR ''-'' \<or> hd orig = CHR ''+'') then tl orig else orig) in
      if s = ''0'' then Inr 0
      else if s = [] then Inl (invalid_duration orig)
      else case duration_loop orig 0 s of
          Inl e \<Rightarrow> Inl e
        | Inr d \<Rightarrow> if neg then Inr (- int d) else if max63 - 1 < d then Inl (invalid_duration orig) else Inr (int d))"

section \<open>The configuration\<close>

record Config =
  cf_HTTPAddr :: string
  cf_LogLevel :: string
  cf_MetaDBDSN :: string
  cf_JWTSecret :: string
  cf_MasterKey :: string
  cf_BootstrapAdminEmail :: string
  cf_BootstrapAdminPassword :: string
  cf_DefaultRepoType :: string
  cf_DockerNetwork :: string
  cf_InstanceHost :: string
  cf_InstanceRestartPolicy :: string
  cf_InstanceBindAddress :: string
  cf_AlertWebhookURL :: string
  cf_AutoFailover :: bool
  cf_BackupBlockIncr :: bool
  cf_Repo2Path :: string
  cf_SSOEmailHeader :: string
  cf_SSOGroupsHeader :: string
  cf_SSOAutoProvision :: bool
  cf_SSOAdminGroup :: string
  cf_SSOOperatorGroup :: string
  cf_SSOSharedSecret :: string
  cf_S3Endpoint :: string
  cf_S3BackrestEndpoint :: string
  cf_S3Bucket :: string
  cf_S3Region :: string
  cf_S3AccessKey :: string
  cf_S3SecretKey :: string
  cf_S3UseTLS :: bool
  cf_S3TLSSkipVerify :: bool
  cf_BackupInterval :: int
  cf_BackupType :: string
  cf_BackupEncryption :: bool

definition orDefault :: "string \<Rightarrow> string \<Rightarrow> string" where
  "orDefault v d = (if v = [] then d else v)"

definition required :: "(string \<Rightarrow> string) \<Rightarrow> string \<Rightarrow> goerr + string" where
  "required getenv key = (if TrimSpace (getenv key) \<noteq> [] then Inr (getenv key) else Inl (Plain (key @ '' is required'')))"

definition parseDuration :: "string \<Rightarrow> int \<Rightarrow> goerr + int" where
  "parseDuration v d = (if v = [] then Inr d
     else case ParseDuration v of Inl e \<Rightarrow> Inl (Wrapf ''PGFLEET_BACKUP_INTERVAL: '' e) | Inr x \<Rightarrow> Inr x)"

definition validateRepo2Path :: "string \<Rightarrow> goerr option" where
  "validateRepo2Path v =
     (if v = [] then None
      else if v \<noteq> TrimSpace v \<or> \<not> HasPrefix v ''/'' then
        Some (Plain (''PGFLEET_REPO2_PATH: '' @ Quote v @ '' must be an absolute path (start with /) with no surrounding whitespace''))
      else None)"

definition validateBindAddress :: "string \<Rightarrow> goerr option" where
  "validateBindAddress v =
     (if ParseIP (TrimSpace v) = None \<or> v \<noteq> TrimSpace v then
        Some (Plain (''PGFLEET_INSTANCE_BIND_ADDRESS: '' @ Quote v @ '' is not a valid IP address''))
      else None)"

definition validateRestartPolicy :: "string \<Rightarrow> goerr option" where
  "validateRestartPolicy v =
     (if v \<in> set [''no'', ''always'', ''unless-stopped''] then None
      else case Cut v (CHR '':'') of (name, count, found) \<Rightarrow>
        if found \<and> name = ''on-failure'' then
          (case ParseInt count of
             Inr n \<Rightarrow> if 0 \<le> n then None
               else Some (Plain (''PGFLEET_INSTANCE_RESTART_POLICY: '' @ Quote v @ '' has an invalid on-failure retry count''))
           | Inl _ \<Rightarrow> Some (Plain (''PGFLEET_INSTANCE_RESTART_POLICY: '' @ Quote v @ '' has an invalid on-failure retry count'')))
        else if v = ''on-failure'' then None
        else Some (Plain (''PGFLEET_INSTANCE_RESTART_POLICY: '' @ Quote v @ '' is not one of no, always, unless-stopped, on-failure[:N]'')))"

definition validateWebhookURL :: "string \<Rightarrow> goerr option" where
  "validateWebhookURL v =
     (if v = [] then None
      else case url_Parse v of
          Inl e \<Rightarrow> Some (Wrapf (''PGFLEET_ALERT_WEBHOOK_URL: '' @ Quote v @ '' is not a valid URL: '') e)
        | Inr u \<Rightarrow>
            if u_Scheme u \<noteq> ''http'' \<and> u_Scheme u \<noteq> ''https'' \<or> u_Host u = [] then
              Some (Plain (''PGFLEET_ALERT_WEBHOOK_URL: '' @ Quote v @ '' must be an absolute http or https URL with a host''))
            else None)"

text \<open>\<^verbatim>\<open>base64.StdEncoding.DecodeString\<close>: groups of four with padding, line breaks skipped.\<close>

definition b64std_decode :: "string \<Rightarrow> string option" where
  "b64std_decode s =
     (let cs = filter (\<lambda>c. c \<noteq> nl \<and> c \<noteq> cr) s; padding = takeWhile (\<lambda>c. c = CHR ''='') (rev cs);
          body = take (length cs - length padding) cs in
      if length cs mod 4 = 0 \<and> length padding \<le> 2 then b64_decode body else None)"

definition default_config :: "(string \<Rightarrow> string) \<Rightarrow> Config" where
  "default_config getenv =
     \<lparr>cf_HTTPAddr = orDefault (getenv ''PGFLEET_HTTP_ADDR'') '':8080'',
      cf_LogLevel = orDefault (getenv ''PGFLEET_LOG_LEVEL'') ''info'',
      cf_MetaDBDSN = [], cf_JWTSecret = [], cf_MasterKey = [],
      cf_BootstrapAdminEmail = getenv ''PGFLEET_BOOTSTRAP_ADMIN_EMAIL'',
      cf_BootstrapAdminPassword = getenv ''PGFLEET_BOOTSTRAP_ADMIN_PASSWORD'',
      cf_DefaultRepoType = orDefault (getenv ''PGFLEET_DEFAULT_REPO_TYPE'') ''s3'',
      cf_DockerNetwork = orDefault (getenv ''PGFLEET_DOCKER_NETWORK'') ''pgfleet'',
      cf_InstanceHost = orDefault (getenv ''PGFLEET_INSTANCE_HOST'') ''localhost'',
      cf_InstanceRestartPolicy = orDefault (getenv ''PGFLEET_INSTANCE_RESTART_POLICY'') ''unless-stopped'',
      cf_InstanceBindAddress = orDefault (getenv ''PGFLEET_INSTANCE_BIND_ADDRESS'') ''127.0.0.1'',
      cf_AlertWebhookURL = getenv ''PGFLEET_ALERT_WEBHOOK_URL'',
      cf_AutoFailover = (getenv ''PGFLEET_AUTO_FAILOVER'' \<noteq> ''false''),
      cf_BackupBlockIncr = (getenv ''PGFLEET_BACKUP_BLOCK_INCR'' = ''true''),
      cf_Repo2Path = getenv ''PGFLEET_REPO2_PATH'',
      cf_SSOEmailHeader = getenv ''PGFLEET_SSO_EMAIL_HEADER'',
      cf_SSOGroupsHeader = orDefault (getenv ''PGFLEET_SSO_GROUPS_HEADER'') ''Remote-Groups'',
      cf_SSOAutoProvision = (getenv ''PGFLEET_SSO_AUTO_PROVISION'' = ''true''),
      cf_SSOAdminGroup = orDefault (getenv ''PGFLEET_SSO_ADMIN_GROUP'') ''pgfleet-admins'',
      cf_SSOOperatorGroup = orDefault (getenv ''PGFLEET_SSO_OPERATOR_GROUP'') ''pgfleet-operators'',
      cf_SSOSharedSecret = getenv ''PGFLEET_SSO_SHARED_SECRET'',
      cf_S3Endpoint = getenv ''PGFLEET_S3_ENDPOINT'',
      cf_S3BackrestEndpoint = orDefault (getenv ''PGFLEET_S3_BACKREST_ENDPOINT'') (getenv ''PGFLEET_S3_ENDPOINT''),
      cf_S3Bucket = getenv ''PGFLEET_S3_BUCKET'',
      cf_S3Region = orDefault (getenv ''PGFLEET_S3_REGION'') ''us-east-1'',
      cf_S3AccessKey = getenv ''PGFLEET_S3_ACCESS_KEY'',
      cf_S3SecretKey = getenv ''PGFLEET_S3_SECRET_KEY'',
      cf_S3UseTLS = (getenv ''PGFLEET_S3_USE_TLS'' = ''true''),
      cf_S3TLSSkipVerify = (getenv ''PGFLEET_S3_TLS_SKIP_VERIFY'' = ''true''),
      cf_BackupInterval = 0,
      cf_BackupType = orDefault (getenv ''PGFLEET_BACKUP_TYPE'') ''full'',
      cf_BackupEncryption = (getenv ''PGFLEET_BACKUP_ENCRYPTION'' = ''true'')\<rparr>"

definition check :: "goerr option \<Rightarrow> goerr + 'a \<Rightarrow> goerr + 'a" where
  "check e k = (case e of Some x \<Rightarrow> Inl x | None \<Rightarrow> k)"

definition with_ok :: "goerr + 'a \<Rightarrow> ('a \<Rightarrow> goerr + 'b) \<Rightarrow> goerr + 'b" where
  "with_ok r k = (case r of Inl e \<Rightarrow> Inl e | Inr x \<Rightarrow> k x)"

definition decode_master_key :: "string \<Rightarrow> goerr + string" where
  "decode_master_key rawKey = (case b64std_decode rawKey of
       None \<Rightarrow> Inl (Wrapf ''PGFLEET_MASTER_KEY: invalid base64: '' (Plain ''illegal base64 data''))
     | Some key \<Rightarrow>
         if length key \<noteq> 32 then
           Inl (Plain (''PGFLEET_MASTER_KEY: must decode to 32 bytes, got '' @ show_nat (length key)))
         else Inr key)"

definition Load :: "(string \<Rightarrow> string) \<Rightarrow> goerr + Config" where
  "Load getenv = (let cfg0 = default_config getenv in
     with_ok (parseDuration (getenv ''PGFLEET_BACKUP_INTERVAL'') (24 * 3600 * 1000000000)) (\<lambda>interval.
     if interval \<le> 0 then Inl (Plain ''PGFLEET_BACKUP_INTERVAL must be positive'')
     else
       with_ok (required getenv ''PGFLEET_META_DB_DSN'') (\<lambda>dsn.
       with_ok (required getenv ''PGFLEET_JWT_SECRET'') (\<lambda>jwt.
       if length jwt < 32 then Inl (Plain ''PGFLEET_JWT_SECRET must be at least 32 bytes'')
       else
         with_ok (required getenv ''PGFLEET_MASTER_KEY'') (\<lambda>rawKey.
         with_ok (decode_master_key rawKey) (\<lambda>key.
         let cfg = cfg0\<lparr>cf_BackupInterval := interval, cf_MetaDBDSN := dsn, cf_JWTSecret := jwt, cf_MasterKey := key\<rparr> in
         check (validateBindAddress (cf_InstanceBindAddress cfg)) (
         check (validateRestartPolicy (cf_InstanceRestartPolicy cfg)) (
         check (validateWebhookURL (cf_AlertWebhookURL cfg)) (
         check (validateRepo2Path (cf_Repo2Path cfg)) (
         if cf_DefaultRepoType cfg \<noteq> ''s3'' \<and> cf_DefaultRepoType cfg \<noteq> ''local'' then
           Inl (Plain (''config: PGFLEET_DEFAULT_REPO_TYPE must be '' @ [squote] @ ''s3'' @ [squote] @ '' or '' @ [squote] @ ''local'' @ [squote] @
             '', got '' @ Quote (cf_DefaultRepoType cfg)))
         else if cf_BackupType cfg \<notin> set [''full'', ''incr'', ''diff''] then
           Inl (Plain (''config: PGFLEET_BACKUP_TYPE must be full, incr, or diff, got '' @ Quote (cf_BackupType cfg)))
         else Inr cfg))))))))))"

section \<open>What a loaded configuration guarantees\<close>

lemma with_ok_Inr: "with_ok r k = Inr y \<longleftrightarrow> (\<exists>x. r = Inr x \<and> k x = Inr y)"
  by (auto simp: with_ok_def split: sum.splits)

lemma check_Inr: "check e k = Inr y \<longleftrightarrow> e = None \<and> k = Inr y"
  by (auto simp: check_def split: option.splits)

lemma if_Inl_Inr: "(if b then Inl e else k) = Inr y \<longleftrightarrow> \<not> b \<and> k = Inr y"
  by simp

lemma ParseDuration_bound: "ParseDuration s = Inr d \<Longrightarrow> d < 2 ^ 63"
  by (auto simp: ParseDuration_def max63_def Let_def split: if_splits sum.splits)

lemma validateBindAddress_ok: "validateBindAddress v = None \<Longrightarrow> ParseIP v \<noteq> None"
  by (auto simp: validateBindAddress_def split: if_splits)

lemma validateWebhookURL_ok:
  "validateWebhookURL v = None \<Longrightarrow> v = [] \<or> (\<exists>u. url_Parse v = Inr u \<and> u_Scheme u \<in> {''http'', ''https''} \<and> u_Host u \<noteq> [])"
  by (auto simp: validateWebhookURL_def split: if_splits sum.splits)

lemma validateRestartPolicy_ok:
  "validateRestartPolicy v = None \<Longrightarrow>
    v \<in> {''no'', ''always'', ''unless-stopped'', ''on-failure''} \<or> (\<exists>n. 0 \<le> n \<and> ParseInt (fst (snd (Cut v (CHR '':'')))) = Inr n)"
  unfolding validateRestartPolicy_def by (simp split: if_splits prod.splits sum.splits) auto

text \<open>
  C32. A configuration that loads is usable: its master key is accepted by \<open>Cipher_New\<close> and its
  token secret by \<open>NewIssuer\<close>, the backup interval is positive and fits its 64 bits, the meta
  database has a DSN, the repository and backup types are known ones, the
  bind address is an IP literal, and a webhook, when there is one, is an HTTP URL with a host.
\<close>

theorem Load_usable:
  assumes "Load getenv = Inr cfg"
  shows "Cipher_New (cf_MasterKey cfg) = Inr (cf_MasterKey cfg) \<and> (\<exists>iss. NewIssuer jwt (cf_JWTSecret cfg) ttl = Inr iss) \<and>
    0 < cf_BackupInterval cfg \<and> cf_BackupInterval cfg < 2 ^ 63 \<and> TrimSpace (cf_MetaDBDSN cfg) \<noteq> [] \<and>
    cf_DefaultRepoType cfg \<in> {''s3'', ''local''} \<and> cf_BackupType cfg \<in> {''full'', ''incr'', ''diff''} \<and>
    ParseIP (cf_InstanceBindAddress cfg) \<noteq> None \<and>
    (cf_AlertWebhookURL cfg = [] \<or>
      (\<exists>u. url_Parse (cf_AlertWebhookURL cfg) = Inr u \<and> u_Scheme u \<in> {''http'', ''https''} \<and> u_Host u \<noteq> []))"
proof -
  obtain interval dsn jw raw key where l: "parseDuration (getenv ''PGFLEET_BACKUP_INTERVAL'') (24 * 3600 * 1000000000) = Inr interval"
    "0 < interval" "required getenv ''PGFLEET_META_DB_DSN'' = Inr dsn" "\<not> length jw < 32" "decode_master_key raw = Inr key"
    and v: "validateBindAddress (cf_InstanceBindAddress cfg) = None" "validateWebhookURL (cf_AlertWebhookURL cfg) = None"
      "cf_DefaultRepoType cfg = ''s3'' \<or> cf_DefaultRepoType cfg = ''local''" "cf_BackupType cfg \<in> set [''full'', ''incr'', ''diff'']"
    and c: "cf_MasterKey cfg = key" "cf_JWTSecret cfg = jw" "cf_BackupInterval cfg = interval" "cf_MetaDBDSN cfg = dsn"
  proof -
    let ?c = "\<lambda>i d j k. default_config getenv\<lparr>cf_BackupInterval := i, cf_MetaDBDSN := d, cf_JWTSecret := j, cf_MasterKey := k\<rparr>"
    from assms obtain i d j r k where "parseDuration (getenv ''PGFLEET_BACKUP_INTERVAL'') (24 * 3600 * 1000000000) = Inr i"
      "0 < i" "required getenv ''PGFLEET_META_DB_DSN'' = Inr d" "\<not> length j < 32" "decode_master_key r = Inr k" "cfg = ?c i d j k"
      "validateBindAddress (cf_InstanceBindAddress (?c i d j k)) = None" "validateWebhookURL (cf_AlertWebhookURL (?c i d j k)) = None"
      "cf_DefaultRepoType (?c i d j k) = ''s3'' \<or> cf_DefaultRepoType (?c i d j k) = ''local''"
      "cf_BackupType (?c i d j k) \<in> set [''full'', ''incr'', ''diff'']"
      unfolding Load_def Let_def with_ok_Inr if_Inl_Inr check_Inr sum.inject not_le by blast
    then show thesis using that by simp
  qed
  have "length key = keyLen" using l(5) by (auto simp: decode_master_key_def keyLen_def split: option.splits if_splits)
  then have 1: "Cipher_New key = Inr key" by (simp add: Cipher_New_def newGCM_def)
  have 2: "\<exists>iss. NewIssuer jwt jw ttl = Inr iss" using l(4) by (simp add: NewIssuer_def MinSecretLen_def)
  have 3: "interval < 2 ^ 63" using l(1) ParseDuration_bound by (auto simp: parseDuration_def split: if_splits sum.splits)
  have 4: "TrimSpace dsn \<noteq> []" using l(3) by (auto simp: required_def split: if_splits)
  show ?thesis using 1 2 3 4 l(2) v(3,4) c validateBindAddress_ok [OF v(1)] validateWebhookURL_ok [OF v(2)] by auto
qed

definition demo_env :: "string \<Rightarrow> string" where
  "demo_env k =
     (if k = ''PGFLEET_META_DB_DSN'' then ''meta'' else if k = ''PGFLEET_JWT_SECRET'' then replicate 32 CHR ''j''
      else if k = ''PGFLEET_MASTER_KEY'' then replicate 43 CHR ''A'' @ ''='' else [])"

theorem Load_usable_witness:
  "\<exists>cfg. Load demo_env = Inr cfg \<and> Cipher_New (cf_MasterKey cfg) = Inr (cf_MasterKey cfg) \<and> 0 < cf_BackupInterval cfg \<and>
     cf_BackupInterval cfg < 2 ^ 63"
proof -
  have g: "list_all graphic ''meta''" "list_all graphic (replicate 32 CHR ''j'')" "list_all graphic (replicate 43 CHR ''A'' @ ''='')"
    by (simp_all add: graphic_def byte_val_def list_all_iff)
  have req: "required demo_env ''PGFLEET_META_DB_DSN'' = Inr ''meta''" "required demo_env ''PGFLEET_JWT_SECRET'' = Inr (replicate 32 CHR ''j'')"
    "required demo_env ''PGFLEET_MASTER_KEY'' = Inr (replicate 43 CHR ''A'' @ ''='')"
    using g by (simp_all add: required_def demo_env_def TrimSpace_graphic)
  have "\<not> isl (decode_master_key (replicate 43 CHR ''A'' @ ''=''))" by code_simp
  then obtain key where key: "decode_master_key (replicate 43 CHR ''A'' @ ''='') = Inr key"
    by (cases "decode_master_key (replicate 43 CHR ''A'' @ ''='')") auto
  have "''127.0.0.1'' = dotted 127 0 0 1" by (simp add: dotted_def str_eval)
  then have bind: "validateBindAddress ''127.0.0.1'' = None"
    using TrimSpace_dotted [of 127 0 0 1] ParseIP_dotted [of 127 0 0 1] by (simp add: validateBindAddress_def)
  have "\<exists>cfg. Load demo_env = Inr cfg"
    using key req bind by (auto simp: Load_def with_ok_def check_def parseDuration_def demo_env_def default_config_def orDefault_def
        validateRestartPolicy_def validateWebhookURL_def validateRepo2Path_def Let_def)
  then obtain cfg where "Load demo_env = Inr cfg" ..
  with Load_usable [OF this] show ?thesis by blast
qed

end
