(* ===== verification/WsHandler.thy ===== *)
theory WsHandler
  imports Hub GoURLParse
begin

text \<open>
  The WebSocket endpoint, \<^verbatim>\<open>internal/ws/handler.go\<close>: the token check, the same-origin check of
  the upgrader, and the subscription to the hub. The other conditions of the upgrade belong
  to the WebSocket library and are the argument \<open>upgradable\<close>; the loop that forwards events is
  the subscriber of \<open>Hub\<close>. \<open>EqualFold\<close> folds ASCII letters and the two other runes that fold to
  one; other non-ASCII letters compare as they are.
\<close>

fun fold_case :: "string \<Rightarrow> string" where
  "fold_case [] = []"
| "fold_case (c # s) =
     (if HasPrefix (c # s) [CHR 0xC5, CHR 0xBF] then CHR ''s'' # fold_case (drop 1 s)
      else if HasPrefix (c # s) [CHR 0xE2, CHR 0x84, CHR 0xAA] then CHR ''k'' # fold_case (drop 2 s)
      else lower_char c # fold_case s)"

definition EqualFold :: "string \<Rightarrow> string \<Rightarrow> bool" where
  "EqualFold s t \<longleftrightarrow> fold_case s = fold_case t"

definition sameOrigin :: "string \<Rightarrow> string \<Rightarrow> bool" where
  "sameOrigin origin host =
     (if origin = [] then True
      else case url_Parse origin of Inl _ \<Rightarrow> False | Inr u \<Rightarrow> EqualFold (u_Host u) host)"

datatype ws_reply = WsUnauthorized | WsUpgradeFailed | WsStreaming nat

definition ws_Handler :: "(string \<Rightarrow> goerr option) option \<Rightarrow> bool \<Rightarrow> string \<Rightarrow> string \<Rightarrow> string \<Rightarrow> hub \<Rightarrow> ws_reply \<times> hub" where
  "ws_Handler verify upgradable token origin host h =
     (if (case verify of None \<Rightarrow> False | Some f \<Rightarrow> f token \<noteq> None) then (WsUnauthorized, h)
      else if \<not> (upgradable \<and> sameOrigin origin host) then (WsUpgradeFailed, h)
      else (WsStreaming (length (hb_chans h)), Subscribe h))"

section \<open>Origins\<close>

text \<open>An origin as a browser sends it, a scheme and a host with an optional port.\<close>

definition origin_host :: "string \<Rightarrow> nat option \<Rightarrow> string" where
  "origin_host h port = (case port of None \<Rightarrow> h | Some n \<Rightarrow> host_and_port h n)"

lemma origin_host_parses:
  assumes "list_all url_plain h"
  shows "parseHost (origin_host h port) = Inr (origin_host h port)"
proof (cases port)
  case None
  have p: "c \<noteq> CHR ''%'' \<and> \<not> must_escape EncHost c \<and> c \<noteq> CHR '':'' \<and> c \<noteq> CHR ''[''" if "url_plain c" for c
    using url_plain_cases [OF that] that by (simp add: must_escape_def)
  then have "list_all (\<lambda>c. c \<noteq> CHR ''%'' \<and> \<not> must_escape EncHost c) h" "CHR '':'' \<notin> set h" "CHR ''['' \<notin> set h"
    using assms by (auto simp: list_all_iff)
  with None show ?thesis by (simp add: origin_host_def parseHost_def cut_last_None unescape_plain)
next
  case (Some n)
  then show ?thesis using parseHost_port [OF assms] by (simp add: origin_host_def)
qed

lemma origin_host_chars: "list_all url_plain h \<Longrightarrow> c \<in> set (origin_host h port) \<Longrightarrow> graphic c \<and> c \<notin> set ''#/?@''"
proof -
  assume h: "list_all url_plain h" and c: "c \<in> set (origin_host h port)"
  show ?thesis
  proof (cases port)
    case None
    with h c have "url_plain c" by (auto simp: origin_host_def list_all_iff)
    from url_plain_cases [OF this] show ?thesis by simp
  next
    case (Some n)
    with host_chars [OF h, of c n] c show ?thesis by (simp add: origin_host_def)
  qed
qed

lemma url_Parse_origin:
  assumes "scheme \<noteq> []" "list_all is_lower scheme" and h: "list_all url_plain h"
  shows "\<exists>u. url_Parse (scheme @ ''://'' @ origin_host h port) = Inr u \<and> u_Host u = origin_host h port"
proof -
  let ?a = "origin_host h port" and ?front = "''//'' @ origin_host h port"
  let ?raw = "scheme @ CHR '':'' # ?front"
  have no: "c \<notin> set ?a" if "c \<in> set ''#/?@''" for c using origin_host_chars [OF h, of c port] that by blast
  have "graphic c \<and> c \<noteq> CHR ''#''" if "c \<in> set ?raw" for c
  proof -
    have "graphic c \<and> c \<noteq> CHR ''#''" if "is_lower c" using that by (auto simp: is_lower_def graphic_def byte_val_def)
    moreover have "graphic (CHR '':'')" "graphic (CHR ''/'')" by (simp_all add: graphic_def byte_val_def)
    ultimately show ?thesis using that assms(2) origin_host_chars [OF h, of c port] by (auto simp: list_all_iff)
  qed
  then have all: "\<forall>c\<in>set ?raw. graphic c \<and> c \<noteq> CHR ''#''" by blast
  have "Cut ?raw (CHR ''#'') = (?raw, [], False)" using all by (intro Cut_none) blast
  moreover have "\<not> list_ex (\<lambda>c. byte_val c < 32 \<or> byte_val c = 127) ?raw"
    using all unfolding list_ex_iff graphic_def by fastforce
  moreover have "?raw \<noteq> ''*''" using assms(1) by (cases scheme) auto
  moreover have "getScheme [] ?raw = Inr (scheme, ?front)" using getScheme_letters [of scheme "[]" ?front] assms by simp
  moreover have "split_query ?front = (?front, False, [])"
    using split_query_tail [of ?front "[]"] no by simp
  moreover have "parseAuthority ?a = Inr (None, ?a)"
    using no by (simp add: parseAuthority_def cut_last_None origin_host_parses [OF h])
  moreover have tk: "takeWhile (\<lambda>c. c \<noteq> CHR ''/'') ?a = ?a" "dropWhile (\<lambda>c. c \<noteq> CHR ''/'') ?a = []"
    using no by (auto simp: takeWhile_eq_all_conv dropWhile_eq_Nil_conv)
  ultimately show ?thesis
    using assms(1) by (simp add: url_Parse_def parse_url_def parse_rest_def HasPrefix_def ToLower_lower [OF assms(2)] setPath_def empty_url_def tk)
qed

text \<open>
  C28. Cross-origin pages get no events: for a browser's origin, the endpoint subscribes a client only
  if the token was verified and the origin's host and port are those of the request, up to
  case; every other request leaves the hub as it was.
\<close>

theorem ws_same_origin:
  assumes "scheme \<noteq> []" "list_all is_lower scheme" "list_all url_plain h"
    and run: "ws_Handler verify upgradable token (scheme @ ''://'' @ origin_host h port) host hub = (reply, hub')"
  shows "((\<exists>i. reply = WsStreaming i) \<longleftrightarrow> upgradable \<and> (\<forall>f. verify = Some f \<longrightarrow> f token = None) \<and> EqualFold (origin_host h port) host) \<and>
    hub' = (if \<exists>i. reply = WsStreaming i then Subscribe hub else hub)"
proof -
  obtain u where "url_Parse (scheme @ ''://'' @ origin_host h port) = Inr u" "u_Host u = origin_host h port"
    using url_Parse_origin [OF assms(1-3)] by blast
  then have "sameOrigin (scheme @ ''://'' @ origin_host h port) host = EqualFold (origin_host h port) host"
    using assms(1) by (simp add: sameOrigin_def)
  with run show ?thesis
    by (auto simp: ws_Handler_def split: if_splits option.splits)
qed

theorem ws_same_origin_witness:
  "fst (ws_Handler (Some (\<lambda>_. None)) True ''t'' ''https://Fleet.example:8443'' ''fleet.example:8443'' NewHub) = WsStreaming 0 \<and>
   ws_Handler (Some (\<lambda>_. None)) True ''t'' ''https://evil.example'' ''fleet.example:8443'' NewHub = (WsUpgradeFailed, NewHub)"
proof -
  have p: "list_all is_lower ''https''" "list_all url_plain ''Fleet.example''" "list_all url_plain ''evil.example''"
    by (simp_all add: is_lower_def url_plain_def is_upper_def is_digit_def byte_val_def)
  have o: "''https://Fleet.example:8443'' = ''https'' @ ''://'' @ origin_host ''Fleet.example'' (Some 8443)"
    "''https://evil.example'' = ''https'' @ ''://'' @ origin_host ''evil.example'' None"
    by (simp_all add: origin_host_def host_and_port_def str_eval)
  have c: "char_of (102 :: nat) = CHR ''f''" by code_simp
  have f: "EqualFold (origin_host ''Fleet.example'' (Some 8443)) ''fleet.example:8443''"
    "\<not> EqualFold (origin_host ''evil.example'' None) ''fleet.example:8443''"
    by (simp_all add: origin_host_def host_and_port_def str_eval EqualFold_def HasPrefix_def lower_char_def is_upper_def c)
  let ?r1 = "ws_Handler (Some (\<lambda>_. None)) True ''t'' ''https://Fleet.example:8443'' ''fleet.example:8443'' NewHub"
  let ?r2 = "ws_Handler (Some (\<lambda>_. None)) True ''t'' ''https://evil.example'' ''fleet.example:8443'' NewHub"
  have "\<exists>i. fst ?r1 = WsStreaming i" unfolding o
    using ws_same_origin [OF _ p(1,2) prod.collapse [symmetric], of _ _ _ "Some 8443"] f(1) by simp
  moreover have "\<nexists>i. fst ?r2 = WsStreaming i" unfolding o
    using ws_same_origin [OF _ p(1,3) prod.collapse [symmetric], of _ _ _ None] f(2) by simp
  ultimately show ?thesis by (auto simp: ws_Handler_def NewHub_def split: if_splits)
qed

end
