(* ===== verification/PoolStats.thy ===== *)
theory PoolStats
  imports ClusterOps "HOL-Library.Word"
begin

text \<open>
  The statistics of the query router: \<^verbatim>\<open>internal/pgcat/stats.go\<close> reads them from the admin console
  and \<^verbatim>\<open>internal/api/pool.go\<close> attributes the server connections to the members of the cluster.

  Connecting and querying belong to the driver and are the record \<open>admin\<close>: a query gives the
  column names, the rows, each the values or an error, and the error after the last row. Counters
  are 64-bit words. A row, a Go map, is a function to text, empty for a missing column.
\<close>

section \<open>Reading the admin console (pgcat/stats.go)\<close>

datatype admin_value = AVNil | AVText string | AVOther string

record admin_result =
  ar_cols :: "string list"
  ar_rows :: "(goerr + admin_value list) list"
  ar_err :: "goerr option"

record 'e admin =
  ad_Connect :: "string \<Rightarrow> ('e, unit) gofun"
  ad_Query :: "string \<Rightarrow> ('e, admin_result) gofun"

fun stringify :: "admin_value \<Rightarrow> string" where
  "stringify AVNil = []"
| "stringify (AVText t) = t"
| "stringify (AVOther t) = t"

definition row_map :: "string list \<Rightarrow> admin_value list \<Rightarrow> string \<Rightarrow> string" where
  "row_map cols vals = fold (\<lambda>(c, v) m. m(c := stringify v)) (zip cols vals) (\<lambda>_. [])"

fun admin_rows :: "string list \<Rightarrow> (goerr + admin_value list) list \<Rightarrow> goerr + (string \<Rightarrow> string) list" where
  "admin_rows cols [] = Inr []"
| "admin_rows cols (Inl e # rows) = Inl e"
| "admin_rows cols (Inr vals # rows) = map_sum id ((#) (row_map cols vals)) (admin_rows cols rows)"

definition queryAdmin :: "'e admin \<Rightarrow> string \<Rightarrow> ('e, (string \<Rightarrow> string) list) gofun" where
  "queryAdmin a sql = bindE (ad_Query a sql) (\<lambda>res.
     case admin_rows (ar_cols res) (ar_rows res) of
       Inl e \<Rightarrow> fail e
     | Inr out \<Rightarrow> (case ar_err res of Some e \<Rightarrow> fail e | None \<Rightarrow> ret out))"

definition pool_atoi :: "string \<Rightarrow> 64 word" where
  "pool_atoi s = (if s = [] then 0 else case ParseInt s of Inl _ \<Rightarrow> 0 | Inr n \<Rightarrow> word_of_int n)"

record PoolStat =
  po_Database :: string
  po_User :: string
  po_PoolMode :: string
  po_ClActive :: "64 word"
  po_ClWaiting :: "64 word"
  po_ClIdle :: "64 word"
  po_SvActive :: "64 word"
  po_SvIdle :: "64 word"
  po_SvUsed :: "64 word"
  po_SvTested :: "64 word"
  po_SvLogin :: "64 word"
  po_Maxwait :: "64 word"
  po_MaxwaitUs :: "64 word"

definition parsePoolRows :: "(string \<Rightarrow> string) list \<Rightarrow> PoolStat list" where
  "parsePoolRows rows = map (\<lambda>r. \<lparr>po_Database = r ''database'', po_User = r ''user'', po_PoolMode = r ''pool_mode'',
     po_ClActive = pool_atoi (r ''cl_active''), po_ClWaiting = pool_atoi (r ''cl_waiting''), po_ClIdle = pool_atoi (r ''cl_idle''),
     po_SvActive = pool_atoi (r ''sv_active''), po_SvIdle = pool_atoi (r ''sv_idle''), po_SvUsed = pool_atoi (r ''sv_used''),
     po_SvTested = pool_atoi (r ''sv_tested''), po_SvLogin = pool_atoi (r ''sv_login''), po_Maxwait = pool_atoi (r ''maxwait''),
     po_MaxwaitUs = pool_atoi (r ''maxwait_us'')\<rparr>) rows"

record Stat =
  st_Database :: string
  st_TotalXactCount :: "64 word"
  st_TotalQueryCount :: "64 word"
  st_TotalReceived :: "64 word"
  st_TotalSent :: "64 word"
  st_TotalXactTime :: "64 word"
  st_TotalQueryTime :: "64 word"
  st_TotalWaitTime :: "64 word"
  st_AvgXactCount :: "64 word"
  st_AvgQueryCount :: "64 word"
  st_AvgXactTime :: "64 word"
  st_AvgQueryTime :: "64 word"
  st_AvgWaitTime :: "64 word"

definition parseStatRows :: "(string \<Rightarrow> string) list \<Rightarrow> Stat list" where
  "parseStatRows rows = map (\<lambda>r. \<lparr>st_Database = r ''database'', st_TotalXactCount = pool_atoi (r ''total_xact_count''),
     st_TotalQueryCount = pool_atoi (r ''total_query_count''), st_TotalReceived = pool_atoi (r ''total_received''),
     st_TotalSent = pool_atoi (r ''total_sent''), st_TotalXactTime = pool_atoi (r ''total_xact_time''),
     st_TotalQueryTime = pool_atoi (r ''total_query_time''), st_TotalWaitTime = pool_atoi (r ''total_wait_time''),
     st_AvgXactCount = pool_atoi (r ''avg_xact_count''), st_AvgQueryCount = pool_atoi (r ''avg_query_count''),
     st_AvgXactTime = pool_atoi (r ''avg_xact_time''), st_AvgQueryTime = pool_atoi (r ''avg_query_time''),
     st_AvgWaitTime = pool_atoi (r ''avg_wait_time'')\<rparr>) rows"

record ServerStat =
  ss_ServerID :: string
  ss_Database :: string
  ss_User :: string
  ss_Address :: string
  ss_ApplicationName :: string
  ss_State :: string
  ss_TransactionCount :: "64 word"
  ss_QueryCount :: "64 word"
  ss_BytesSent :: "64 word"
  ss_BytesReceived :: "64 word"
  ss_AgeSeconds :: "64 word"
  ss_PrepareCacheHit :: "64 word"
  ss_PrepareCacheMiss :: "64 word"

definition parseServerRows :: "(string \<Rightarrow> string) list \<Rightarrow> ServerStat list" where
  "parseServerRows rows = map (\<lambda>r. \<lparr>ss_ServerID = r ''server_id'', ss_Database = r ''database_name'', ss_User = r ''user'',
     ss_Address = r ''address_id'', ss_ApplicationName = r ''application_name'', ss_State = r ''state'',
     ss_TransactionCount = pool_atoi (r ''transaction_count''), ss_QueryCount = pool_atoi (r ''query_count''),
     ss_BytesSent = pool_atoi (r ''bytes_sent''), ss_BytesReceived = pool_atoi (r ''bytes_received''),
     ss_AgeSeconds = pool_atoi (r ''age_seconds''), ss_PrepareCacheHit = pool_atoi (r ''prepare_cache_hit''),
     ss_PrepareCacheMiss = pool_atoi (r ''prepare_cache_miss'')\<rparr>) rows"

record ClientStat =
  cs_ClientID :: string
  cs_Database :: string
  cs_User :: string
  cs_ApplicationName :: string
  cs_State :: string
  cs_TransactionCount :: "64 word"
  cs_QueryCount :: "64 word"
  cs_ErrorCount :: "64 word"
  cs_AgeSeconds :: "64 word"
  cs_Maxwait :: "64 word"
  cs_MaxwaitUs :: "64 word"

definition parseClientRows :: "(string \<Rightarrow> string) list \<Rightarrow> ClientStat list" where
  "parseClientRows rows = map (\<lambda>r. \<lparr>cs_ClientID = r ''client_id'', cs_Database = r ''database'', cs_User = r ''user'',
     cs_ApplicationName = r ''application_name'', cs_State = r ''state'', cs_TransactionCount = pool_atoi (r ''transaction_count''),
     cs_QueryCount = pool_atoi (r ''query_count''), cs_ErrorCount = pool_atoi (r ''error_count''),
     cs_AgeSeconds = pool_atoi (r ''age_seconds''), cs_Maxwait = pool_atoi (r ''maxwait''),
     cs_MaxwaitUs = pool_atoi (r ''maxwait_us'')\<rparr>) rows"

record PoolStats =
  ps_Pools :: "PoolStat list"
  ps_Stats :: "Stat list"
  ps_Servers :: "ServerStat list"
  ps_Clients :: "ClientStat list"

definition best_effort :: "('e, 'a list) gofun \<Rightarrow> 'e \<Rightarrow> 'a list \<times> 'e" where
  "best_effort m s = (case m s of (Inl _, s') \<Rightarrow> ([], s') | (Inr xs, s') \<Rightarrow> (xs, s'))"

definition ReadPoolStats :: "'e admin \<Rightarrow> string \<Rightarrow> ('e, PoolStats) gofun" where
  "ReadPoolStats a adminDSN =
     bindE (ad_Connect a adminDSN) (\<lambda>_.
     bindE (queryAdmin a ''SHOW POOLS'') (\<lambda>poolRows.
     bindE (queryAdmin a ''SHOW STATS'') (\<lambda>statRows.
     attempt (best_effort (queryAdmin a ''SHOW SERVERS'')) (\<lambda>serverRows.
     attempt (best_effort (queryAdmin a ''SHOW CLIENTS'')) (\<lambda>clientRows.
     ret \<lparr>ps_Pools = parsePoolRows poolRows, ps_Stats = parseStatRows statRows,
       ps_Servers = parseServerRows serverRows, ps_Clients = parseClientRows clientRows\<rparr>)))))"

section \<open>Attributing traffic (api/pool.go)\<close>

record RoutingBackend =
  rg_Name :: string
  rg_Role :: string
  rg_Address :: string
  rg_Connections :: "64 word"
  rg_ActiveConns :: "64 word"
  rg_QueryCount :: "64 word"
  rg_TransactionCount :: "64 word"
  rg_BytesSent :: "64 word"
  rg_BytesReceived :: "64 word"

definition new_routing :: "RouterBackend \<Rightarrow> RoutingBackend" where
  "new_routing b = \<lparr>rg_Name = rb_Name b, rg_Role = rb_Role b, rg_Address = rb_Address b, rg_Connections = 0, rg_ActiveConns = 0,
     rg_QueryCount = 0, rg_TransactionCount = 0, rg_BytesSent = 0, rg_BytesReceived = 0\<rparr>"

text \<open>The map from names to entries: the last member of a name, by its position.\<close>

fun byName :: "string \<Rightarrow> RouterBackend list \<Rightarrow> nat \<Rightarrow> nat option" where
  "byName n [] i = None"
| "byName n (b # bs) i = (case byName n bs (Suc i) of Some j \<Rightarrow> Some j | None \<Rightarrow> if rb_Name b = n then Some i else None)"

definition matchOrder :: "RouterBackend list \<Rightarrow> RouterBackend list" where
  "matchOrder backends = sort_key (\<lambda>b. - int (length (rb_Address b))) backends"

definition serves :: "ServerStat \<Rightarrow> RouterBackend \<Rightarrow> bool" where
  "serves srv b \<longleftrightarrow> rb_Address b \<noteq> [] \<and> Contains (ss_Address srv) (rb_Address b)"

definition add_server :: "ServerStat \<Rightarrow> RoutingBackend \<Rightarrow> RoutingBackend" where
  "add_server srv agg = agg\<lparr>rg_Connections := rg_Connections agg + 1,
     rg_ActiveConns := rg_ActiveConns agg + (if ss_State srv = ''active'' then 1 else 0),
     rg_QueryCount := rg_QueryCount agg + ss_QueryCount srv,
     rg_TransactionCount := rg_TransactionCount agg + ss_TransactionCount srv,
     rg_BytesSent := rg_BytesSent agg + ss_BytesSent srv,
     rg_BytesReceived := rg_BytesReceived agg + ss_BytesReceived srv\<rparr>"

definition attribute :: "RouterBackend list \<Rightarrow> ServerStat \<Rightarrow> RoutingBackend list \<Rightarrow> RoutingBackend list" where
  "attribute backends srv out = (case find (serves srv) (matchOrder backends) of
       None \<Rightarrow> out
     | Some b \<Rightarrow> (case byName (rb_Name b) backends 0 of None \<Rightarrow> out | Some i \<Rightarrow> out[i := add_server srv (out ! i)]))"

definition buildRouting :: "RouterBackend list \<Rightarrow> ServerStat list \<Rightarrow> RoutingBackend list" where
  "buildRouting backends servers = fold (attribute backends) servers (map new_routing backends)"

record pool_body =
  pb_pools :: "PoolStat list"
  pb_stats :: "Stat list"
  pb_servers :: "ServerStat list"
  pb_clients :: "ClientStat list"
  pb_routing :: "RoutingBackend list"

definition pool_Stats :: "'e admin \<Rightarrow> 'e Service \<Rightarrow> string \<Rightarrow> string \<Rightarrow> ('e world, nat \<times> pool_body) gofun" where
  "pool_Stats a svc host cid =
     bindE (RouterAdminDSN svc cid host) (\<lambda>dsn.
     bindE (onE (ReadPoolStats a dsn)) (\<lambda>stats.
     attempt (RouterBackends cid) (\<lambda>r.
     ret (200, \<lparr>pb_pools = ps_Pools stats, pb_stats = ps_Stats stats, pb_servers = ps_Servers stats, pb_clients = ps_Clients stats,
       pb_routing = (case r of Inl _ \<Rightarrow> [] | Inr backends \<Rightarrow> buildRouting backends (ps_Servers stats))\<rparr>))))"

section \<open>Every connection is counted once, for the most specific member\<close>

definition owner :: "RouterBackend list \<Rightarrow> ServerStat \<Rightarrow> RouterBackend option" where
  "owner backends srv = find (serves srv) (matchOrder backends)"

lemma find_sorted_min:
  assumes "sorted (map f xs)" "find P xs = Some b" "x \<in> set xs" "P x"
  shows "f b \<le> f x"
  using assms by (induction xs) (auto split: if_splits)

lemma set_matchOrder [simp]: "set (matchOrder bs) = set bs"
  by (simp add: matchOrder_def)

lemma owner_Some:
  assumes "owner bs srv = Some b"
  shows "b \<in> set bs \<and> serves srv b \<and> (\<forall>b'\<in>set bs. serves srv b' \<longrightarrow> length (rb_Address b') \<le> length (rb_Address b))"
proof -
  have f: "find (serves srv) (matchOrder bs) = Some b" using assms by (simp add: owner_def)
  then have "b \<in> set (matchOrder bs)" "serves srv b" unfolding find_Some_iff by (auto simp del: set_matchOrder intro: nth_mem)
  moreover have "length (rb_Address b') \<le> length (rb_Address b)" if "b' \<in> set bs" "serves srv b'" for b'
    using find_sorted_min [OF sorted_sort_key [of "\<lambda>b. - int (length (rb_Address b))" bs, folded matchOrder_def] f, of b'] that by simp
  ultimately show ?thesis by auto
qed

lemma owner_None: "owner bs srv = None \<longleftrightarrow> (\<forall>b\<in>set bs. \<not> serves srv b)"
  by (auto simp: owner_def find_None_iff)

lemma byName_None: "n \<notin> rb_Name ` set bs \<Longrightarrow> byName n bs i = None"
  by (induction bs arbitrary: i) auto

lemma byName_nth: "distinct (map rb_Name bs) \<Longrightarrow> j < length bs \<Longrightarrow> byName (rb_Name (bs ! j)) bs i = Some (i + j)"
proof (induction bs arbitrary: i j)
  case (Cons b bs)
  then show ?case by (cases j) (auto simp: byName_None)
qed simp

lemma length_attribute [simp]: "length (attribute bs srv out) = length out"
  by (simp add: attribute_def split: option.splits)

lemma attribute_nth:
  assumes "distinct (map rb_Name bs)" "length out = length bs" "j < length bs"
  shows "attribute bs srv out ! j = (if owner bs srv = Some (bs ! j) then add_server srv (out ! j) else out ! j)"
proof (cases "owner bs srv")
  case None
  then show ?thesis by (simp add: attribute_def owner_def)
next
  case (Some b)
  from owner_Some [OF this] obtain k where k: "b = bs ! k" "k < length bs" by (auto simp: in_set_conv_nth)
  have "bs ! k = bs ! j \<longleftrightarrow> k = j" using assms(1,3) k(2) using distinct_map nth_eq_iff_index_eq by blast
  with Some k assms byName_nth [OF assms(1) k(2), of 0] show ?thesis by (simp add: attribute_def owner_def nth_list_update)
qed

lemma fold_attribute_nth:
  assumes "distinct (map rb_Name bs)" "length out = length bs" "j < length bs"
  shows "fold (attribute bs) srvs out ! j = fold add_server (filter (\<lambda>s. owner bs s = Some (bs ! j)) srvs) (out ! j)"
  using assms by (induction srvs arbitrary: out) (simp_all add: attribute_nth)

lemma length_fold_attribute: "length (fold (attribute bs) srvs out) = length out"
  by (induction srvs arbitrary: out) simp_all

lemma fold_add_server:
  "rg_QueryCount (fold add_server xs a) = rg_QueryCount a + (\<Sum>s\<leftarrow>xs. ss_QueryCount s)"
  "rg_Connections (fold add_server xs a) = rg_Connections a + of_nat (length xs)"
  by (induction xs arbitrary: a) (simp_all add: add_server_def algebra_simps)

lemma sum_one: "distinct bs \<Longrightarrow> (\<Sum>b\<leftarrow>bs. if o1 = Some b then (q :: 'a::comm_monoid_add) else 0) = (if o1 \<in> Some ` set bs then q else 0)"
  by (induction bs) auto

lemma sum_partition:
  fixes q :: "ServerStat \<Rightarrow> 'a::comm_monoid_add"
  assumes "distinct bs"
  shows "(\<Sum>b\<leftarrow>bs. \<Sum>s\<leftarrow>filter (\<lambda>s. owner bs s = Some b) srvs. q s) = (\<Sum>s\<leftarrow>filter (\<lambda>s. owner bs s \<noteq> None) srvs. q s)"
proof (induction srvs)
  case (Cons x srvs)
  have "(\<Sum>b\<leftarrow>bs. \<Sum>s\<leftarrow>filter (\<lambda>s. owner bs s = Some b) (x # srvs). q s) =
      (\<Sum>b\<leftarrow>bs. (if owner bs x = Some b then q x else 0) + (\<Sum>s\<leftarrow>filter (\<lambda>s. owner bs s = Some b) srvs. q s))"
    by (rule arg_cong [of _ _ sum_list], rule map_cong) auto
  also have "\<dots> = (if owner bs x \<in> Some ` set bs then q x else 0) + (\<Sum>s\<leftarrow>filter (\<lambda>s. owner bs s \<noteq> None) srvs. q s)"
    by (simp add: sum_list_addf sum_one [OF assms] Cons)
  also have "owner bs x \<in> Some ` set bs \<longleftrightarrow> owner bs x \<noteq> None" using owner_Some [of bs x] by fastforce
  finally show ?case by simp
qed simp

text \<open>
  C27. The routing view: for members with different names, the entry of each member sums exactly
  the server connections whose address contains the member's, and no longer member address; a
  connection is counted for one member only, so the query counts of the entries add up to those of
  all attributed connections.
\<close>

theorem buildRouting_attribution:
  assumes "distinct (map rb_Name backends)"
  shows "buildRouting backends servers =
      map (\<lambda>b. fold add_server (filter (\<lambda>s. owner backends s = Some b) servers) (new_routing b)) backends \<and>
    (\<forall>s b. owner backends s = Some b \<longrightarrow> b \<in> set backends \<and> serves s b \<and>
      (\<forall>b'\<in>set backends. serves s b' \<longrightarrow> length (rb_Address b') \<le> length (rb_Address b))) \<and>
    (\<Sum>r\<leftarrow>buildRouting backends servers. rg_QueryCount r) =
      (\<Sum>s\<leftarrow>filter (\<lambda>s. \<exists>b\<in>set backends. serves s b) servers. ss_QueryCount s)"
proof -
  have eq: "buildRouting backends servers =
      map (\<lambda>b. fold add_server (filter (\<lambda>s. owner backends s = Some b) servers) (new_routing b)) backends"
    unfolding buildRouting_def
    by (rule nth_equalityI) (simp_all add: length_fold_attribute fold_attribute_nth [OF assms])
  have "distinct backends" using assms by (simp add: distinct_map)
  from sum_partition [OF this, of ss_QueryCount servers]
  have "(\<Sum>r\<leftarrow>buildRouting backends servers. rg_QueryCount r) = (\<Sum>s\<leftarrow>filter (\<lambda>s. owner backends s \<noteq> None) servers. ss_QueryCount s)"
    by (simp add: eq comp_def fold_add_server new_routing_def)
  moreover have "(\<lambda>s. owner backends s \<noteq> None) = (\<lambda>s. \<exists>b\<in>set backends. serves s b)" by (simp add: owner_None)
  ultimately show ?thesis using eq owner_Some [of backends] by simp
qed

definition demo_backends :: "RouterBackend list" where
  "demo_backends = [\<lparr>rb_Name = ''orders'', rb_Role = ''primary'', rb_Address = ''pgfleet-pg-orders''\<rparr>,
     \<lparr>rb_Name = ''orders-2'', rb_Role = ''replica'', rb_Address = ''pgfleet-pg-orders-2''\<rparr>]"

definition demo_servers :: "ServerStat list" where
  "demo_servers = [\<lparr>ss_ServerID = [], ss_Database = [], ss_User = [], ss_Address = ''pgfleet-pg-orders-2'', ss_ApplicationName = [],
     ss_State = ''active'', ss_TransactionCount = 0, ss_QueryCount = 7, ss_BytesSent = 0, ss_BytesReceived = 0, ss_AgeSeconds = 0,
     ss_PrepareCacheHit = 0, ss_PrepareCacheMiss = 0\<rparr>]"

theorem buildRouting_attribution_witness:
  "map rg_QueryCount (buildRouting demo_backends demo_servers) = [0, 7]"
proof -
  have d: "distinct (map rb_Name demo_backends)" by code_simp
  have "map (owner demo_backends) demo_servers = [Some (demo_backends ! 1)]" by code_simp
  then have "owner demo_backends (demo_servers ! 0) = Some (demo_backends ! 1)" "length demo_servers = 1" by (auto simp: demo_servers_def)
  with buildRouting_attribution [OF d, of demo_servers] show ?thesis
    by (simp add: demo_backends_def demo_servers_def fold_add_server new_routing_def add_server_def)
qed

end
