(* ===== verification/RestoreCLI.thy ===== *)
theory RestoreCLI
  imports Restore Secrets
begin

text \<open>
  The disaster-recovery command \<^verbatim>\<open>pgfleet restore\<close> (\<^verbatim>\<open>cmd/pgfleet/restore.go\<close>): a
  restore from the pgBackRest repository into a Docker volume, with no meta database.

  The flags after \<^verbatim>\<open>flag.Parse\<close> are the record \<open>restoreFlags\<close>; opening the Docker client
  is a parameter, an error or the runtime interface of \<open>Docker\<close>. What the command prints is left
  out. The theory also has a reading of the words of a shell command, against which the quoting of
  both restore paths is proved.
\<close>

section \<open>Flags, paths and the configuration\<close>

definition cli_dataPath :: string where "cli_dataPath = ''/var/lib/postgresql/data''"
definition cli_repoPath :: string where "cli_repoPath = ''/var/lib/pgbackrest''"
definition cli_confPath :: string where "cli_confPath = ''/etc/pgbackrest/pgbackrest.conf''"
definition cli_pgPort :: int where "cli_pgPort = 5432"
definition cli_restoreTimeout :: int where "cli_restoreTimeout = 1800 * second"

record repoFlags =
  rf_endpoint :: string
  rf_bucket :: string
  rf_region :: string
  rf_key :: string
  rf_secret :: string
  rf_tls :: bool
  rf_pathPrefix :: string
  rf_localPath :: string

record restoreFlags =
  fl_stanza :: string
  fl_image :: string
  fl_repoType :: string
  fl_dataVolume :: string
  fl_network :: string
  fl_repo :: repoFlags
  fl_repoVolume :: string
  fl_type :: string
  fl_target :: string

definition buildConf :: "string \<Rightarrow> string \<Rightarrow> repoFlags \<Rightarrow> goerr + string" where
  "buildConf stanza repoType f =
     (let c = \<lparr>ic_Stanza = stanza, ic_PGDataPath = cli_dataPath, ic_PGPort = cli_pgPort, ic_RetentionFull = 2,
               ic_RepoType = repoType, ic_S3 = no_S3, ic_LocalPath = [], ic_CipherPass = [], ic_BlockIncr = False,
               ic_Repo2Path = []\<rparr> in
      if repoType = ''s3'' then
        if rf_endpoint f = [] \<or> rf_bucket f = [] \<or> rf_key f = [] \<or> rf_secret f = [] then
          Inl (Plain ''repo-type s3 requires --s3-endpoint, --s3-bucket, --s3-key and --s3-secret'')
        else BackrestConf (c\<lparr>ic_S3 := \<lparr>s3_Endpoint = rf_endpoint f, s3_Bucket = rf_bucket f, s3_Region = rf_region f,
               s3_Key = rf_key f, s3_Secret = rf_secret f,
               s3_PathPrefix = (if rf_pathPrefix f = [] then ''/stanzas/'' @ stanza else rf_pathPrefix f),
               s3_URIStyle = ''path'', s3_VerifyTLS = rf_tls f\<rparr>\<rparr>)
      else if repoType = ''local'' then BackrestConf (c\<lparr>ic_LocalPath := rf_localPath f\<rparr>)
      else Inl (Plain (''invalid --repo-type '' @ [dquote] @ repoType @ [dquote] @ '' (want s3 or local)'')))"

section \<open>The script\<close>

definition cli_asPostgres :: "string list \<Rightarrow> string list" where
  "cli_asPostgres args = [''gosu'', ''postgres''] @ args"

definition cli_shellJoin :: "string list \<Rightarrow> string" where
  "cli_shellJoin args =
     Join (map (\<lambda>a. [squote] @ ReplaceAll a [squote] [squote, bslash, squote, squote] @ [squote]) args) '' ''"

definition cli_targetAction :: "string \<Rightarrow> string" where
  "cli_targetAction restoreType = (if restoreType = [] then [] else ''promote'')"

definition restoreScript :: "string \<Rightarrow> string list \<Rightarrow> string" where
  "restoreScript conf restoreArgs = Join
     [''set -e'',
      ''mkdir -p /etc/pgbackrest'',
      ''chown postgres:postgres '' @ cli_repoPath @ '' '' @ cli_dataPath,
      ''umask 0177'',
      ''cat > '' @ cli_confPath @ '' <<'' @ [squote] @ ''PGBR_EOF'' @ [squote],
      conf,
      ''PGBR_EOF'',
      ''chown postgres:postgres '' @ cli_confPath,
      cli_shellJoin (cli_asPostgres restoreArgs),
      ''gosu postgres pg_ctl -D '' @ cli_dataPath @ '' -w -t 600 start'',
      ''gosu postgres pg_ctl -D '' @ cli_dataPath @ '' -m fast -w stop''] [nl]"

section \<open>The one-shot container\<close>

text \<open>A function with three results: the exit code, the logs, the error.\<close>

type_synonym outcome = "int \<times> string \<times> goerr option"

definition cli_containerLogs :: "'e host \<Rightarrow> string \<Rightarrow> 'e \<Rightarrow> string \<times> 'e" where
  "cli_containerLogs h cid e = (case Logs h cid False e of
       (Inl _, e') \<Rightarrow> ([], e')
     | (Inr out, e') \<Rightarrow> (TrimSpace (take (256 * 1024) out), e'))"

fun waitExit :: "'e host \<Rightarrow> string \<Rightarrow> nat \<Rightarrow> int \<Rightarrow> 'e \<Rightarrow> outcome \<times> 'e" where
  "waitExit h cid 0 deadline e = ((0, [], Some (Plain ''out of fuel'')), e)"
| "waitExit h cid (Suc n) deadline e =
     (case Inspect h cid e of
        (Inl err, e1) \<Rightarrow> ((0, [], Some (Wrapf ''inspect container: '' err)), e1)
      | (Inr state, e1) \<Rightarrow>
          if \<not> st_Running state \<and> st_Status state = ''exited'' then
            (case cli_containerLogs h cid e1 of (logs, e2) \<Rightarrow> ((st_ExitCode state, logs, None), e2))
          else if deadline < Now h e1 then
            (case cli_containerLogs h cid e1 of (logs, e2) \<Rightarrow>
               ((0, logs, Some (Plain ''restore timed out after 30m0s'')), e2))
          else (case Wait h second e1 of
                  (Inl err, e2) \<Rightarrow> ((0, [], Some err), e2)
                | (Inr _, e2) \<Rightarrow> waitExit h cid n deadline e2))"

definition runOneShot :: "'e host \<Rightarrow> container_spec \<Rightarrow> 'e \<Rightarrow> outcome \<times> 'e" where
  "runOneShot h spec e =
     (case CreateContainer h spec e of
        (Inl err, e1) \<Rightarrow> ((0, [], Some (Wrapf ''create container: '' err)), e1)
      | (Inr cid, e1) \<Rightarrow> finallyE (RemoveContainer h cid True) (\<lambda>e2.
          case StartContainer h cid e2 of
            (Inl err, e3) \<Rightarrow> ((0, [], Some (Wrapf ''start container: '' err)), e3)
          | (Inr _, e3) \<Rightarrow> waitExit h cid 1802 (Now h e3 + cli_restoreTimeout) e3) e1)"

section \<open>The command\<close>

definition cli_stamp :: "'e host \<Rightarrow> 'e \<Rightarrow> string" where
  "cli_stamp h e = show_hex (nat (Now h e mod 2 ^ 32))"

definition cli_volume :: "restoreFlags \<Rightarrow> string" where
  "cli_volume fl = (if fl_dataVolume fl = [] then ''pgfleet-restore-'' @ fl_stanza fl else fl_dataVolume fl)"

definition cli_mounts :: "restoreFlags \<Rightarrow> goerr + mount list" where
  "cli_mounts fl =
     (let data = [\<lparr>Volume = cli_volume fl, Path = cli_dataPath, ReadOnly = False\<rparr>] in
      if fl_repoType fl = ''local'' then
        if fl_repoVolume fl = [] then
          Inl (Plain (''--repo-volume is required for --repo-type local (it is mounted at '' @ rf_localPath (fl_repo fl) @ '')''))
        else Inr (data @ [\<lparr>Volume = fl_repoVolume fl, Path = rf_localPath (fl_repo fl), ReadOnly = False\<rparr>])
      else Inr data)"

definition cli_spec :: "restoreFlags \<Rightarrow> mount list \<Rightarrow> string \<Rightarrow> string \<Rightarrow> container_spec" where
  "cli_spec fl mounts script stamp = \<lparr>
     cs_Name = ''pgfleet-restore-'' @ fl_stanza fl @ ''-'' @ stamp, cs_Image = fl_image fl,
     cs_Cmd = [''bash'', ''-c'', script], cs_Env = [],
     cs_Labels = [(LabelManaged, ''true''), (LabelRole, ''restore'')], cs_Ports = [], cs_Mounts = mounts,
     cs_Networks = (if fl_network fl \<noteq> [] then [fl_network fl] else []), cs_User = [], cs_RestartPolicy = []\<rparr>"

text \<open>The checks that come before Docker is contacted: the script and the mounts.\<close>

definition cli_plan :: "restoreFlags \<Rightarrow> goerr + string \<times> mount list" where
  "cli_plan fl =
     (if fl_stanza fl = [] then Inl (Plain ''--stanza is required'')
      else case buildConf (fl_stanza fl) (fl_repoType fl) (fl_repo fl) of
        Inl e \<Rightarrow> Inl e
      | Inr conf \<Rightarrow> (case Restore_args (fl_stanza fl) cli_confPath
            \<lparr>ro_Type = fl_type fl, ro_Target = fl_target fl, ro_TargetAction = cli_targetAction (fl_type fl),
             ro_Set = [], ro_Delta = False, ro_Repo = 0\<rparr> of
            Inl e \<Rightarrow> Inl e
          | Inr restoreArgs \<Rightarrow> map_sum id (Pair (restoreScript conf restoreArgs)) (cli_mounts fl)))"

definition runRestore :: "(goerr + 'e host) \<Rightarrow> restoreFlags \<Rightarrow> ('e, unit) gofun" where
  "runRestore newMoby fl =
     (case cli_plan fl of
        Inl e \<Rightarrow> fail e
      | Inr (script, mounts) \<Rightarrow>
     (case newMoby of
        Inl e \<Rightarrow> fail e
      | Inr rt \<Rightarrow>
          bindE (wrap_error (Wrapf ''ensuring image: '') (EnsureImage rt (fl_image fl))) (\<lambda>_.
          bindE (wrap_error (Wrapf (''creating volume '' @ [dquote] @ cli_volume fl @ [dquote] @ '': ''))
                   (CreateVolume rt (cli_volume fl) [(LabelManaged, ''true''), (LabelRole, ''restore'')])) (\<lambda>_.
          withS (\<lambda>e. attempt (runOneShot rt (cli_spec fl mounts script (cli_stamp rt e))) (\<lambda>(exitCode, logs, err).
          case err of
            Some x \<Rightarrow> fail (Wrapf ''restore container: '' x)
          | None \<Rightarrow>
              if exitCode \<noteq> 0 then fail (Plain (''restore failed: container exited with code '' @ Itoa exitCode))
              else ret ()))))))"

section \<open>The words of a shell command\<close>

text \<open>
  How a POSIX shell splits a simple command into words: inside single quotes every character stands
  for itself, outside a backslash protects the next one and a blank ends the word. \<open>None\<close> when an
  operator, an expansion or an open quote remains, which is where one argument could become code.
\<close>

definition sh_plain :: "char \<Rightarrow> bool" where
  "sh_plain c \<longleftrightarrow> c \<in> set ''abcdefghijklmnopqrstuvwxyzABCDEFGHIJKLMNOPQRSTUVWXYZ0123456789_-./:=,+@%''"

fun sh_unquoted :: "string option \<Rightarrow> string \<Rightarrow> string list option"
  and sh_quoted :: "string \<Rightarrow> string \<Rightarrow> string list option" where
  "sh_unquoted None [] = Some []"
| "sh_unquoted (Some w) [] = Some [w]"
| "sh_unquoted w (c # cs) =
     (if c = squote then sh_quoted (case w of None \<Rightarrow> [] | Some v \<Rightarrow> v) cs
      else if c = CHR 0x20 then
        (case w of None \<Rightarrow> sh_unquoted None cs | Some v \<Rightarrow> map_option ((#) v) (sh_unquoted None cs))
      else if c = bslash then
        (case cs of [] \<Rightarrow> None | d # ds \<Rightarrow> sh_unquoted (Some ((case w of None \<Rightarrow> [] | Some v \<Rightarrow> v) @ [d])) ds)
      else if sh_plain c then sh_unquoted (Some ((case w of None \<Rightarrow> [] | Some v \<Rightarrow> v) @ [c])) cs
      else None)"
| "sh_quoted w [] = None"
| "sh_quoted w (c # cs) = (if c = squote then sh_unquoted (Some w) cs else sh_quoted (w @ [c]) cs)"

definition shell_words :: "string \<Rightarrow> string list option" where
  "shell_words s = sh_unquoted None s"

lemma sh_quoted_escape:
  "sh_quoted w (ReplaceAll a [squote] [squote, bslash, squote, squote] @ squote # rest) = sh_unquoted (Some (w @ a)) rest"
  by (induction a arbitrary: w) (simp_all add: ReplaceAll_char)

lemma shell_quote_word: "sh_unquoted None (shell_quote a @ rest) = sh_unquoted (Some a) rest"
  by (simp add: shell_quote_def sh_quoted_escape)

lemma shellJoin_words: "shell_words (shellJoin args) = Some args"
proof (induction args rule: induct_list012)
  case (2 a)
  show ?case using shell_quote_word [of a "[]"] by (simp add: shellJoin_def shell_words_def)
next
  case (3 a b cs)
  then show ?case using shell_quote_word [of a] by (simp add: shellJoin_def shell_words_def)
qed (simp add: shellJoin_def shell_words_def)

lemma cli_quoting: "cli_shellJoin = shellJoin" "cli_asPostgres = asPostgres" "cli_targetAction = targetAction"
  by (auto simp: cli_shellJoin_def shellJoin_def shell_quote_def cli_asPostgres_def asPostgres_def cli_targetAction_def
      targetAction_def fun_eq_iff intro!: arg_cong2 [where f = Join])

section \<open>What the command leaves behind\<close>

definition exited_ok :: "container_state \<Rightarrow> bool" where
  "exited_ok st \<longleftrightarrow> \<not> st_Running st \<and> st_Status st = ''exited'' \<and> st_ExitCode st = 0"

lemma waitExit_ok: "waitExit h cid n dl e = ((0, logs, None), e') \<Longrightarrow> \<exists>e1 e2 st. Inspect h cid e1 = (Inr st, e2) \<and> exited_ok st"
  by (induction n arbitrary: e) (force simp: exited_ok_def split: prod.splits sum.splits if_splits)+

lemma runOneShot_ok:
  assumes "runOneShot h spec e = ((0, logs, None), e')"
  shows "\<exists>cid e0 e1 e2 st. CreateContainer h spec e = (Inr cid, e0) \<and> Inspect h cid e1 = (Inr st, e2) \<and> exited_ok st"
  using assms by (fastforce simp: runOneShot_def prog_run split: prod.splits sum.splits dest: waitExit_ok)

context container_host
begin

lemma cli_logs_clock: "Now h e \<le> Now h (snd (cli_containerLogs h cid e))"
  by (auto simp: cli_containerLogs_def split: prod.splits sum.splits dest: time_Logs)

lemma cli_logs_objs: "keeps (objs C V) (cli_containerLogs h cid)"
  using keepsD [OF objs_frames(6) [of C V cid False]] by (auto simp: keeps_def cli_containerLogs_def split: prod.splits sum.splits) (metis snd_conv)+

lemma waitExit_objs: "keeps (objs C V) (waitExit h cid n dl)"
proof (induction n)
  case (Suc n)
  show ?case
  proof (rule keepsI)
    fix e assume e: "objs C V e"
    obtain r e1 where i: "Inspect h cid e = (r, e1)" by fastforce
    have e1: "objs C V e1" using keeps_result [OF objs_frames(4) e i] .
    have l: "objs C V (snd (cli_containerLogs h cid e1))" using keepsD [OF cli_logs_objs e1] .
    obtain r2 e2 where w: "Wait h second e1 = (r2, e2)" by fastforce
    have "objs C V e2" using keeps_result [OF objs_frames(8) e1 w] .
    with Suc.IH have "objs C V (snd (waitExit h cid n dl e2))" by (rule keepsD)
    with e1 l \<open>objs C V e2\<close> i w show "objs C V (snd (waitExit h cid (Suc n) dl e))" by (auto split: prod.splits sum.splits)
  qed
qed (simp add: keeps_def)

lemma waitExit_fuel:
  "dl < Now h e + second * int n \<Longrightarrow> n \<le> m \<Longrightarrow> waitExit h cid (Suc m) dl e = waitExit h cid (Suc n) dl e"
proof (induction n arbitrary: m e)
  case 0
  then show ?case using time_Inspect by (fastforce split: prod.splits sum.splits)
next
  case (Suc n)
  obtain m' where m: "m = Suc m'" "n \<le> m'" using Suc.prems(2) by (cases m) auto
  obtain r e1 where i: "Inspect h cid e = (r, e1)" by fastforce
  obtain r2 e2 where w: "Wait h second e1 = (r2, e2)" by fastforce
  have "waitExit h cid (Suc m') dl e2 = waitExit h cid (Suc n) dl e2" if "r2 = Inr ()"
  proof (rule Suc.IH [OF _ m(2)])
    show "dl < Now h e2 + second * int n"
      using Suc.prems(1) time_Inspect [OF i] time_Wait [OF w [unfolded that]] by (simp add: algebra_simps)
  qed
  then show ?case
    unfolding m(1) waitExit.simps(2) [of h cid "Suc _"] i
    by (simp add: w del: waitExit.simps split: sum.split)
qed

lemma waitExit_enough:
  "1802 \<le> m \<Longrightarrow> waitExit h cid m (Now h e + cli_restoreTimeout) e = waitExit h cid 1802 (Now h e + cli_restoreTimeout) e"
  using waitExit_fuel [of "Now h e + cli_restoreTimeout" e 1801 "m - 1" cid]
  by (cases m) (auto simp: second_def cli_restoreTimeout_def eval_nat_numeral)

end

context container_host
begin

lemma runOneShot_contained:
  assumes "inv e" "runOneShot h spec e = (r, e')"
  shows "inv e' \<and> vols e \<subseteq> vols e' \<and> vols e' \<subseteq> vols e \<union> Volume ` set (cs_Mounts spec) \<and>
    (conts e' = conts e \<or> (\<exists>c e1 x. c \<notin> conts e \<and> conts e' = insert c (conts e) \<and> RemoveContainer h c True e1 = (Inl x, e')))"
proof -
  obtain c e1 where c: "CreateContainer h spec e = (c, e1)" by fastforce
  have i1: "inv e1" using keeps_result [OF inv_CreateContainer assms(1) c] .
  note v1 = create_vols [OF assms(1) c]
  show ?thesis
  proof (cases c)
    case (Inl x)
    with c assms(2) i1 v1 create_fail [OF assms(1) c [unfolded Inl]] show ?thesis by (simp add: runOneShot_def)
  next
    case (Inr cid)
    note fresh = create_fresh [OF assms(1) c [unfolded Inr]]
    let ?body = "\<lambda>e2. case StartContainer h cid e2 of (Inl err, e3) \<Rightarrow> ((0, [], Some (Wrapf ''start container: '' err)), e3)
        | (Inr _, e3) \<Rightarrow> waitExit h cid 1802 (Now h e3 + cli_restoreTimeout) e3"
    obtain r2 e2 where b: "?body e1 = (r2, e2)" by fastforce
    obtain s e3 where s: "StartContainer h cid e1 = (s, e3)" by fastforce
    have "objs (conts e1) (vols e1) e3" using keeps_result [OF objs_frames(2) _ s] i1 by (simp add: objs_def)
    then have "objs (conts e1) (vols e1) e2"
      using b s keepsD [OF waitExit_objs, of "conts e1" "vols e1" e3 cid 1802 "Now h e3 + cli_restoreTimeout"]
      by (cases s) auto
    then have o2: "inv e2" "conts e2 = conts e1" "vols e2 = vols e1" by (simp_all add: objs_def)
    obtain q x where x: "RemoveContainer h cid True e2 = (q, x)" by fastforce
    have e': "e' = x" using assms(2) c Inr b x by (simp add: runOneShot_def prog_run)
    have "conts e' = conts e \<or> conts e' = insert cid (conts e) \<and> (\<exists>y. RemoveContainer h cid True e2 = (Inl y, e'))"
      using remove_cont [OF o2(1), of cid True _ x] remove_cont_fail [OF o2(1), of cid True _ x] x o2 fresh e'
      by (cases q) auto
    then have "conts e' = conts e \<or> (\<exists>c e1 y. c \<notin> conts e \<and> conts e' = insert c (conts e) \<and> RemoveContainer h c True e1 = (Inl y, e'))"
      using fresh by blast
    with e' remove_cont_vols [OF o2(1) x] o2 v1 keeps_result [OF inv_RemoveContainer o2(1) x]
    show ?thesis by simp
  qed
qed

end

lemma cli_mounts_volumes:
  "cli_mounts fl = Inr ms \<Longrightarrow> Volume ` set ms = insert (cli_volume fl) (if fl_repoType fl = ''local'' then {fl_repoVolume fl} else {})"
  by (auto simp: cli_mounts_def Let_def split: if_splits)

lemma cli_plan_mounts: "cli_plan fl = Inr (script, ms) \<Longrightarrow> cli_mounts fl = Inr ms"
  by (auto simp: cli_plan_def split: if_splits sum.splits) (cases "cli_mounts fl"; simp)

text \<open>
  C13. The command leaves nothing of its own behind and takes nothing away, on every path and for every runtime that
  keeps the laws of \<open>container_host\<close>: the set of containers is the one it found, unless the deferred removal, its last call
  to Docker, was refused, and then its one container is all there is besides; no volume is removed, and no volume is added but the target
  and, when the repository is local, the one named for it. Flags that are refused never reach Docker. Success
  means that the target volume exists and that Docker reported the restore container as exited with
  code 0.
\<close>

theorem runRestore_contained:
  assumes host: "container_host h rinv conts vols" and e: "rinv e" and run: "runRestore (Inr h) fl e = (r, e')"
  shows "(conts e' = conts e \<or>
      (\<exists>c e1 x. c \<notin> conts e \<and> conts e' = insert c (conts e) \<and> RemoveContainer h c True e1 = (Inl x, e'))) \<and>
    vols e \<subseteq> vols e' \<and>
    vols e' \<subseteq> vols e \<union> {cli_volume fl} \<union> (if fl_repoType fl = ''local'' then {fl_repoVolume fl} else {}) \<and>
    (\<forall>err. cli_plan fl = Inl err \<longrightarrow> r = Inl err \<and> e' = e) \<and>
    (r = Inr () \<longrightarrow> cli_volume fl \<in> vols e' \<and>
      (\<exists>script mounts stamp cid e0 e1 e2 e3 st. cli_plan fl = Inr (script, mounts) \<and>
         CreateContainer h (cli_spec fl mounts script stamp) e0 = (Inr cid, e1) \<and>
         Inspect h cid e2 = (Inr st, e3) \<and> exited_ok st))"
proof (cases "cli_plan fl")
  case (Inl err)
  with run show ?thesis by (auto simp: runRestore_def prog_run)
next
  case (Inr sm)
  obtain script ms where sm: "sm = (script, ms)" by fastforce
  note plan = Inr [unfolded sm]
  note mv = cli_mounts_volumes [OF cli_plan_mounts [OF plan]]
  obtain r1 e1 where s1: "EnsureImage h (fl_image fl) e = (r1, e1)" by fastforce
  obtain r2 e2 where s2: "CreateVolume h (cli_volume fl) [(LabelManaged, ''true''), (LabelRole, ''restore'')] e1 = (r2, e2)" by fastforce
  let ?spec = "cli_spec fl ms script (cli_stamp h e2)"
  obtain xc logs err e3 where s3: "runOneShot h ?spec e2 = ((xc, logs, err), e3)" by (metis prod.collapse)
  note ax = host
  have i1: "rinv e1" using keeps_result [OF container_host.inv_EnsureImage [OF ax] e s1] .
  have f1: "conts e1 = conts e" "vols e1 = vols e" using container_host.frame_EnsureImage [OF ax e s1] by simp_all
  have i2: "rinv e2" using keeps_result [OF container_host.inv_CreateVolume [OF ax] i1 s2] .
  have f2: "conts e2 = conts e" "vols e \<subseteq> vols e2" "vols e2 \<subseteq> insert (cli_volume fl) (vols e)" "r2 = Inr () \<Longrightarrow> cli_volume fl \<in> vols e2"
    using container_host.create_vol_conts [OF ax i1 s2] container_host.create_vol [OF ax i1, of "cli_volume fl" _ _ e2]
      container_host.create_vol_fail [OF ax i1, of "cli_volume fl" _ _ e2] s2 f1 by (cases r2; force)+
  have f3: "conts e3 = conts e2 \<or> (\<exists>c e1 x. c \<notin> conts e2 \<and> conts e3 = insert c (conts e2) \<and> RemoveContainer h c True e1 = (Inl x, e3))"
      "vols e2 \<subseteq> vols e3" "vols e3 \<subseteq> vols e2 \<union> Volume ` set ms"
    using container_host.runOneShot_contained [OF host i2 s3] by (auto simp: cli_spec_def)
  have res: "(r, e') = (case r1 of Inl x \<Rightarrow> (Inl (Wrapf ''ensuring image: '' x), e1) | Inr _ \<Rightarrow>
      (case r2 of Inl x \<Rightarrow> (Inl (Wrapf (''creating volume '' @ [dquote] @ cli_volume fl @ [dquote] @ '': '') x), e2) | Inr _ \<Rightarrow>
        (case err of Some x \<Rightarrow> (Inl (Wrapf ''restore container: '' x), e3) | None \<Rightarrow>
          (if xc \<noteq> 0 then Inl (Plain (''restore failed: container exited with code '' @ Itoa xc)) else Inr (), e3))))"
    using run s1 s2 s3 plan
    by (auto simp: runRestore_def prog_run wrap_error_def split: sum.splits option.splits)
  have st: "(conts e' = conts e \<or>
      (\<exists>c e1 x. c \<notin> conts e \<and> conts e' = insert c (conts e) \<and> RemoveContainer h c True e1 = (Inl x, e'))) \<and> vols e \<subseteq> vols e' \<and> vols e' \<subseteq> vols e \<union> insert (cli_volume fl) (Volume ` set ms)"
    using res f1 f2 f3 by (auto split: sum.splits option.splits if_splits)
  have ok: "r2 = Inr () \<and> err = None \<and> xc = 0 \<and> e' = e3" if "r = Inr ()"
    using res that by (auto split: sum.splits option.splits if_splits)
  have "cli_volume fl \<in> vols e' \<and> (\<exists>script mounts stamp cid e0 e1 e2 e3 st. cli_plan fl = Inr (script, mounts) \<and>
         CreateContainer h (cli_spec fl mounts script stamp) e0 = (Inr cid, e1) \<and> Inspect h cid e2 = (Inr st, e3) \<and> exited_ok st)"
    if "r = Inr ()"
    using ok [OF that] f2(4) f3(2) plan runOneShot_ok [of h ?spec e2 logs e3] s3 by blast
  with st plan mv show ?thesis by auto
qed

text \<open>
  C39. Both restore paths quote safely: a shell that reads the command line built for the one-shot container
  sees exactly the intended arguments, whatever characters a target, a path or a stanza contains.
\<close>

theorem restore_command_words:
  "shell_words (shellJoin args) = Some args \<and>
   shell_words (cli_shellJoin (cli_asPostgres args)) = Some (''gosu'' # ''postgres'' # args)"
  by (simp add: cli_quoting shellJoin_words asPostgres_def)

definition demo_restore_flags :: restoreFlags where
  "demo_restore_flags = \<lparr>fl_stanza = ''orders'', fl_image = ''pg:16'', fl_repoType = ''local'', fl_dataVolume = [], fl_network = [],
     fl_repo = \<lparr>rf_endpoint = [], rf_bucket = [], rf_region = [], rf_key = [], rf_secret = [], rf_tls = False, rf_pathPrefix = [],
       rf_localPath = ''/var/lib/pgbackrest''\<rparr>, fl_repoVolume = ''repo'', fl_type = [], fl_target = []\<rparr>"

definition demo_cli_host :: "fake_env host" where
  "demo_cli_host = fake_host None None (\<lambda>_. Some 0) tagged_lib"

lemma waitExit_now:
  "Inspect h cid e = (Inr st, e1) \<Longrightarrow> exited_ok st \<Longrightarrow> cli_containerLogs h cid e1 = (logs, e2) \<Longrightarrow>
   waitExit h cid 1802 dl e = ((0, logs, None), e2)"
  using waitExit.simps(2) [of h cid 1801 dl e] by (simp add: exited_ok_def)

lemma demo_one_shot:
  "fk_containers f = [] \<Longrightarrow> fk_seq f = 0 \<Longrightarrow> \<exists>e'. runOneShot demo_cli_host spec (f, pr) = ((0, [], None), e')"
  by (simp add: runOneShot_def waitExit_now exited_ok_def cli_containerLogs_def prog_run demo_cli_host_def)
    (simp add: fake_run Let_def waitExit_now exited_ok_def cli_containerLogs_def prog_run TrimSpace_Nil)

lemma demo_cli_calls:
  "EnsureImage demo_cli_host ref e = (Inr (), e)"
  "CreateVolume demo_cli_host v l (f, pr) = (Inr (), f\<lparr>fk_volumes := AList.update v l (fk_volumes f)\<rparr>, pr)"
  by (simp_all add: demo_cli_host_def fake_host_def on_fake_def fake_EnsureImage_def fake_CreateVolume_def prog_run split: prod.split)

lemma fake_removal_refused: "RemoveContainer (fake_host x i t l) c True e1 = (Inl y, e') \<Longrightarrow> c \<notin> fake_conts e'"
  by (cases e1) (auto simp: fake_host_def on_fake_def fake_RemoveContainer_def split: sum.splits dest: fake_get_fail)

theorem runRestore_contained_witness:
  "\<exists>e'. runRestore (Inr demo_cli_host) demo_restore_flags (NewFake, plain_process) = (Inr (), e') \<and>
     fake_conts e' = {} \<and> ''pgfleet-restore-orders'' \<in> fake_vols e'"
proof -
  have "\<exists>e'. runRestore (Inr demo_cli_host) demo_restore_flags (NewFake, plain_process) = (Inr (), e')"
  proof -
    obtain sm where plan: "cli_plan demo_restore_flags = Inr sm"
      by (simp add: cli_plan_def buildConf_def BackrestConf_def repo1_lines_def Restore_args_def cli_mounts_def demo_restore_flags_def)
    have "runRestore (Inr demo_cli_host) demo_restore_flags (NewFake, plain_process) = (Inr (), e')"
      if "runOneShot demo_cli_host (cli_spec demo_restore_flags (snd sm) (fst sm) (cli_stamp demo_cli_host e)) e = ((0, [], None), e')"
        "e = (NewFake\<lparr>fk_volumes := [(''pgfleet-restore-orders'', [(LabelManaged, ''true''), (LabelRole, ''restore'')])]\<rparr>, plain_process)"
      for e e'
      using that plan
      by (cases sm) (simp add: runRestore_def prog_run wrap_error_def demo_cli_calls cli_volume_def demo_restore_flags_def NewFake_def)
    moreover have "\<exists>e'. runOneShot demo_cli_host spec
        (NewFake\<lparr>fk_volumes := [(''pgfleet-restore-orders'', [(LabelManaged, ''true''), (LabelRole, ''restore'')])]\<rparr>, plain_process) = ((0, [], None), e')" for spec
      by (rule demo_one_shot) (simp_all add: NewFake_def)
    ultimately show ?thesis by blast
  qed
  then obtain e' where run: "runRestore (Inr demo_cli_host) demo_restore_flags (NewFake, plain_process) = (Inr (), e')" by blast
  have "fake_inv (NewFake, plain_process)" by (simp add: NewFake_def ids_ok_def cids_def)
  from runRestore_contained [OF fake_rt.container_host_axioms this run [unfolded demo_cli_host_def]]
  have "fake_conts e' = fake_conts (NewFake, plain_process)" "cli_volume demo_restore_flags \<in> fake_vols e'"
    using fake_removal_refused by blast+
  with run show ?thesis by (simp add: NewFake_def cids_def cli_volume_def demo_restore_flags_def)
qed

end
