(* ===== verification/Console.thy ===== *)
theory Console
  imports Handlers RemoteBackup
begin

text \<open>
  The operator's console in \<^verbatim>\<open>internal/api\<close>: ad-hoc SQL (\<^verbatim>\<open>sql.go\<close>), one command in an
  instance's container (\<^verbatim>\<open>exec.go\<close>), a logical dump (\<^verbatim>\<open>dump.go\<close>) and the container's logs
  (\<^verbatim>\<open>logs.go\<close>).

  The handlers are programs over the server of \<open>Handlers\<close>. The PostgreSQL driver, the child process of
  a dump and the demultiplexing of Docker's log stream are parameters. The deadlines of the contexts
  and logging are left out.
\<close>

section \<open>SQL (sql.go)\<close>

definition maxSQLRows :: nat where "maxSQLRows = 1000"
definition maxSQLBytes :: nat where "maxSQLBytes = 8 * 1024 * 1024"

text \<open>A decoded cell; \<open>COther\<close> carries the text that \<^verbatim>\<open>%v\<close> prints.\<close>

datatype cell = CNil | CText string | CBytes string | COther string

fun cellBytes :: "cell \<Rightarrow> nat" where
  "cellBytes CNil = 0"
| "cellBytes (CText t) = length t"
| "cellBytes (CBytes t) = length t"
| "cellBytes (COther t) = length t"

text \<open>
  A result set: what each call of \<^verbatim>\<open>Values\<close> gives for the rows that \<^verbatim>\<open>Next\<close> moves to, and the error
  and the command tag the driver reports, which depend on whether the rows were read to the end.
\<close>

record sql_rows =
  sr_fields :: "string list"
  sr_values :: "(goerr + cell list) list"
  sr_Err :: "bool \<Rightarrow> goerr option"
  sr_tag :: "bool \<Rightarrow> int \<times> string"

fun collect_loop :: "(goerr + cell list) list \<Rightarrow> cell list list \<Rightarrow> nat \<Rightarrow> cell list list \<times> bool \<times> goerr option" where
  "collect_loop [] out size1 = (out, False, None)"
| "collect_loop (v # rest) out size1 =
     (if maxSQLRows \<le> length out then (out, True, None)
      else case v of
        Inl e \<Rightarrow> (out, False, Some e)
      | Inr vals \<Rightarrow>
          let size' = size1 + sum_list (map cellBytes vals); out' = out @ [vals] in
          if maxSQLBytes < size' then (out', True, None) else collect_loop rest out' size')"

definition collectRows :: "sql_rows \<Rightarrow> string list \<times> cell list list \<times> bool \<times> goerr option" where
  "collectRows rows = (sr_fields rows, collect_loop (sr_values rows) [] 0)"

record 'e pgdriver =
  pd_Connect :: "string \<Rightarrow> ('e, unit) gofun"
  pd_Query :: "string \<Rightarrow> ('e, sql_rows) gofun"

record sql_response =
  sq_columns :: "string list"
  sq_rows :: "cell list list"
  sq_affected :: int
  sq_command :: string
  sq_truncated :: bool

definition sql_Run ::
    "'e api \<Rightarrow> 'e pgdriver \<Rightarrow> Claims option \<Rightarrow> string decoder \<Rightarrow> string \<Rightarrow> string \<Rightarrow> ('e server, nat \<times> sql_response) gofun" where
  "sql_Run h drv ctx dec iid body = (case decodeJSON dec body of
       Inl e \<Rightarrow> fail e
     | Inr query \<Rightarrow>
         if query = [] then fail (New KindInvalid ''query is required'')
         else
           bindE (onW (DSN (ap_prov h) iid)) (\<lambda>dsn.
           ignoring (api_audit h ctx ''instance.sql'' iid) (
           bindE (wrap_error (Wrap KindInternal ''sql: connect'') (onW (onE (pd_Connect drv dsn)))) (\<lambda>_.
           bindE (wrap_error (Wrap KindInvalid ''query failed'') (onW (onE (pd_Query drv query)))) (\<lambda>rows.
           case collectRows rows of (cols, out, truncated, cerr) \<Rightarrow>
           (case cerr of
              Some e \<Rightarrow> fail (Wrap KindInternal ''sql: read row'' e)
            | None \<Rightarrow> (case sr_Err rows (\<not> truncated) of
                Some e \<Rightarrow> fail (Wrap KindInvalid ''query failed'' e)
              | None \<Rightarrow> ret (200, \<lparr>sq_columns = cols, sq_rows = out, sq_affected = fst (sr_tag rows (\<not> truncated)),
                  sq_command = snd (sr_tag rows (\<not> truncated)), sq_truncated = truncated\<rparr>)))))))) "

section \<open>Commands in a container (exec.go)\<close>

definition maxExecOutputBytes :: nat where "maxExecOutputBytes = 1024 * 1024"

definition clipOutput :: "string \<Rightarrow> string \<times> bool" where
  "clipOutput s = (if length s \<le> maxExecOutputBytes then (s, False) else (take maxExecOutputBytes s, True))"

record exec_response =
  xr_exit :: int
  xr_stdout :: string
  xr_stderr :: string
  xr_truncated :: bool

definition exec_Run :: "'e api \<Rightarrow> Claims option \<Rightarrow> string list decoder \<Rightarrow> string \<Rightarrow> string \<Rightarrow> ('e server, nat \<times> exec_response) gofun" where
  "exec_Run h ctx dec iid body = (case decodeJSON dec body of
       Inl e \<Rightarrow> fail e
     | Inr command \<Rightarrow>
         if length command = 0 then fail (New KindInvalid ''command is required'')
         else
           bindE (store_Get iid) (\<lambda>inst.
           if i_ContainerID inst = [] then fail (New KindConflict ''instance has no running container'')
           else
             ignoring (api_audit h ctx ''instance.exec'' (i_ID inst)) (
             bindE (wrap_error (Wrap KindInternal ''exec'') (onW (onE (Exec (p_rt (ap_prov h)) (i_ContainerID inst) command)))) (\<lambda>res.
             case clipOutput (Stdout res) of (stdout, outTrunc) \<Rightarrow>
             case clipOutput (Stderr res) of (stderr, errTrunc) \<Rightarrow>
               ret (200, \<lparr>xr_exit = ExitCode res, xr_stdout = stdout, xr_stderr = stderr, xr_truncated = (outTrunc \<or> errTrunc)\<rparr>)))))"

section \<open>Logical dumps (dump.go)\<close>

definition dump_args :: "pg_config \<Rightarrow> string list" where
  "dump_args cfg = [''--format=plain'', ''--no-owner'', ''--no-privileges''] @
     (if pgc_Host cfg \<noteq> [] then [''--host='' @ pgc_Host cfg] else []) @
     (if pgc_Port cfg \<noteq> 0 then [''--port='' @ Itoa (pgc_Port cfg)] else []) @
     (if pgc_User cfg \<noteq> [] then [''--username='' @ pgc_User cfg] else []) @
     [''--no-password''] @
     (if pgc_Database cfg \<noteq> [] then [''--dbname='' @ pgc_Database cfg] else [])"

text \<open>The arguments and the environment of the command.\<close>

definition buildDumpCmd :: "(string \<Rightarrow> goerr + pg_config) \<Rightarrow> string list \<Rightarrow> string \<Rightarrow> goerr + string list \<times> string list" where
  "buildDumpCmd parseConfig environ dsn = (case parseConfig dsn of
       Inl e \<Rightarrow> Inl (Wrap KindInternal ''dump: parse dsn'' e)
     | Inr cfg \<Rightarrow> Inr (''pg_dump'' # dump_args cfg,
         environ @ (if pgc_Password cfg \<noteq> [] then [''PGPASSWORD='' @ pgc_Password cfg] else [])))"

text \<open>A started command: the pipe's content and how it ends. Opening the pipe and starting may fail.\<close>

record dump_run =
  du_stdout :: string
  du_err :: "goerr option"

record 'e dump_os =
  do_Environ :: "string list"
  do_parseConfig :: "string \<Rightarrow> goerr + pg_config"
  do_Pipe :: "('e, unit) gofun"
  do_Start :: "string list \<Rightarrow> string list \<Rightarrow> ('e, dump_run) gofun"

record dump_response =
  dr_type :: string
  dr_disposition :: string
  dr_body :: string

text \<open>\<^verbatim>\<open>io.ReadFull\<close> reads nothing only when the command printed nothing; otherwise the first chunk and the
  rest are the output. A failure after the first byte cannot change the response.\<close>

definition dump_Get :: "'e api \<Rightarrow> 'e dump_os \<Rightarrow> Claims option \<Rightarrow> string \<Rightarrow> ('e server, nat \<times> dump_response) gofun" where
  "dump_Get h os ctx iid =
     bindE (store_Get iid) (\<lambda>inst.
     bindE (onW (DSN (ap_prov h) iid)) (\<lambda>dsn.
     ignoring (api_audit h ctx ''instance.dump'' iid) (
     case buildDumpCmd (do_parseConfig os) (do_Environ os) dsn of
       Inl e \<Rightarrow> fail (Wrap KindInternal ''dump: build command'' e)
     | Inr (argv, environ) \<Rightarrow>
         bindE (wrap_error (Wrap KindInternal ''dump: pipe'') (onW (onE (do_Pipe os)))) (\<lambda>_.
         bindE (wrap_error (Wrap KindInternal ''dump: start pg_dump (is it installed?)'') (onW (onE (do_Start os argv environ)))) (\<lambda>run.
         if du_stdout run = [] then fail (New KindInternal ''dump: pg_dump failed'')
         else
           let first = take 4096 (du_stdout run); rest = drop 4096 (du_stdout run) in
           ret (200, \<lparr>dr_type = ''application/sql'',
             dr_disposition = ''attachment; filename='' @ [dquote] @ i_Name inst @ ''.sql'' @ [dquote],
             dr_body = first @ rest\<rparr>))))))"

section \<open>Logs (logs.go)\<close>

definition maxLogBytes :: nat where "maxLogBytes = 4 * 1024 * 1024"
definition maxLogLines :: nat where "maxLogLines = 1000"

text \<open>\<^verbatim>\<open>strings.TrimRight(s, cutset)\<close> for a cutset of one newline.\<close>

definition trim_newlines :: "string \<Rightarrow> string" where
  "trim_newlines s = rev (dropWhile (\<lambda>c. c = nl) (rev s))"

definition tailLines :: "string \<Rightarrow> nat \<Rightarrow> string" where
  "tailLines s n =
     (let lines = Split (trim_newlines s) nl in
      Join (if n < length lines then drop (length lines - n) lines else lines) [nl])"

text \<open>\<open>demux\<close> is \<^verbatim>\<open>stdcopy.StdCopy\<close>: the text of both streams and an error.\<close>

definition logs_Get :: "'e api \<Rightarrow> (string \<Rightarrow> string \<times> goerr option) \<Rightarrow> string \<Rightarrow> ('e server, nat \<times> string) gofun" where
  "logs_Get h demux iid =
     bindE (store_Get iid) (\<lambda>inst.
     if i_ContainerID inst = [] then fail (New KindConflict ''instance has no running container'')
     else
       bindE (onW (onE (Logs (p_rt (ap_prov h)) (i_ContainerID inst) False))) (\<lambda>rc.
       case demux (take maxLogBytes rc) of (buf, err) \<Rightarrow>
       (case err of
          Some e \<Rightarrow> if length buf = 0 then fail (Wrap KindInternal ''read logs'' e) else ret (200, tailLines buf maxLogLines)
        | None \<Rightarrow> ret (200, tailLines buf maxLogLines))))"

section \<open>Bounds\<close>

definition row_bytes :: "cell list list \<Rightarrow> nat" where
  "row_bytes rows = sum_list (map (\<lambda>r. sum_list (map cellBytes r)) rows)"

lemma row_bytes_snoc [simp]: "row_bytes (rows @ [r]) = row_bytes rows + sum_list (map cellBytes r)"
  by (simp add: row_bytes_def)

lemma collect_loop_spec:
  assumes "collect_loop vs out (row_bytes out) = (out', truncated, err)" "row_bytes out \<le> maxSQLBytes" "length out \<le> maxSQLRows"
  shows "\<exists>new. out' = out @ new \<and> map Inr new = take (length new) vs \<and> length out' \<le> maxSQLRows \<and>
    (out' \<noteq> [] \<longrightarrow> row_bytes (butlast out') \<le> maxSQLBytes) \<and>
    (truncated \<longrightarrow> length out' = maxSQLRows \<or> maxSQLBytes < row_bytes out') \<and>
    (\<not> truncated \<and> err = None \<longrightarrow> map Inr new = vs) \<and>
    (\<forall>e. err = Some e \<longrightarrow> \<not> truncated \<and> length new < length vs \<and> vs ! length new = Inl e)"
  using assms
proof (induction vs arbitrary: out)
  case Nil
  have "row_bytes (butlast out) \<le> row_bytes out" if "out \<noteq> []"
    using row_bytes_snoc [of "butlast out" "last out"] that by simp
  with Nil show ?case by (auto intro: le_trans)
next
  case (Cons v rest)
  have bl: "row_bytes (butlast out) \<le> maxSQLBytes" if "out \<noteq> []"
    using row_bytes_snoc [of "butlast out" "last out"] that Cons.prems(2) by simp
  show ?case
  proof (cases "maxSQLRows \<le> length out \<or> (\<exists>e. v = Inl e)")
    case True
    with Cons.prems bl show ?thesis by (auto split: if_splits)
  next
    case False
    then obtain vals where v: "v = Inr vals" by (cases v) auto
    show ?thesis
    proof (cases "maxSQLBytes < row_bytes (out @ [vals])")
      case True
      with False v Cons.prems show ?thesis by (intro exI [of _ "[vals]"]) (auto simp: Let_def)
    next
      case fits: False
      with False v Cons.prems(1) have "collect_loop rest (out @ [vals]) (row_bytes (out @ [vals])) = (out', truncated, err)"
        by (simp add: Let_def)
      from Cons.IH [OF this] fits False obtain new where n: "out' = (out @ [vals]) @ new" "map Inr new = take (length new) rest"
        "length out' \<le> maxSQLRows" "out' \<noteq> [] \<longrightarrow> row_bytes (butlast out') \<le> maxSQLBytes"
        "truncated \<longrightarrow> length out' = maxSQLRows \<or> maxSQLBytes < row_bytes out'"
        "\<not> truncated \<and> err = None \<longrightarrow> map Inr new = rest"
        "\<forall>e. err = Some e \<longrightarrow> \<not> truncated \<and> length new < length rest \<and> rest ! length new = Inl e" by force
      show ?thesis by (rule exI [of _ "vals # new"]) (use n v in auto)
    qed
  qed
qed

lemma clipOutput_take: "clipOutput s = (take maxExecOutputBytes s, take maxExecOutputBytes s \<noteq> s)"
  by (auto simp: clipOutput_def dest: arg_cong [where f = length])

lemma store_Get_frame: "store_Get iid s = (r, s1) \<Longrightarrow> env (sv_world s1) = env (sv_world s) \<and> sv_audit s1 = sv_audit s"
  by (auto simp: store_Get_def onW_def onD_def split: prod.splits)

lemma onW_audit: "onW m s = (r, s1) \<Longrightarrow> sv_audit s1 = sv_audit s"
  by (auto simp: onW_def split: prod.splits)

lemma api_audit_world [simp]: "sv_world (snd (api_audit h ctx action target s)) = sv_world s"
  by (simp add: api_audit_def split: prod.splits)

lemma tailLines_spec: "tailLines s n = Join (drop (length (Split (trim_newlines s) nl) - n) (Split (trim_newlines s) nl)) [nl]"
  by (simp add: tailLines_def Let_def)

text \<open>
  C33. The console buffers a bounded part of a result: at most 1000 rows, and no row after the byte
  budget of 8 MiB is exceeded. What it returns is the beginning of the result, in order; it is the whole result
  unless it is marked truncated or an error is reported, and it is marked only at one of the two limits.
\<close>

theorem collectRows_bounded:
  "collectRows rows = (cols, out, truncated, err) \<Longrightarrow>
     cols = sr_fields rows \<and> length out \<le> 1000 \<and> (out \<noteq> [] \<longrightarrow> row_bytes (butlast out) \<le> 8 * 1024 * 1024) \<and>
     map Inr out = take (length out) (sr_values rows) \<and>
     (\<not> truncated \<and> err = None \<longrightarrow> map Inr out = sr_values rows) \<and>
     (truncated \<longrightarrow> length out = 1000 \<or> 8 * 1024 * 1024 < row_bytes out) \<and>
     (\<forall>e. err = Some e \<longrightarrow> sr_values rows ! length out = Inl e)"
proof -
  assume "collectRows rows = (cols, out, truncated, err)"
  then have c: "cols = sr_fields rows" and run: "collect_loop (sr_values rows) [] (row_bytes []) = (out, truncated, err)"
    by (simp_all add: collectRows_def row_bytes_def)
  have "row_bytes [] \<le> maxSQLBytes" "length ([] :: cell list list) \<le> maxSQLRows" by (simp_all add: row_bytes_def)
  from collect_loop_spec [OF run this] c show ?thesis
    unfolding maxSQLBytes_def maxSQLRows_def by (simp only: append_Nil) blast
qed

definition demo_sql_rows :: sql_rows where
  "demo_sql_rows = \<lparr>sr_fields = [''n''], sr_values = [Inr [CText ''abc''], Inr [CNil]], sr_Err = (\<lambda>_. None), sr_tag = (\<lambda>_. (2, ''SELECT 2''))\<rparr>"

theorem collectRows_bounded_witness:
  "\<exists>out. collectRows demo_sql_rows = ([''n''], out, False, None) \<and> out = [[CText ''abc''], [CNil]]"
proof -
  have run: "collectRows demo_sql_rows = ([''n''], [[CText ''abc''], [CNil]], False, None)"
    by (simp add: collectRows_def demo_sql_rows_def Let_def maxSQLRows_def maxSQLBytes_def)
  from collectRows_bounded [OF run] run show ?thesis by simp
qed

section \<open>What the privileged endpoints leave behind\<close>

lemma exec_audit_entry:
  assumes "can_audit h ctx (sv_audit s)"
  shows "\<exists>e. audit_log (sv_audit (snd (api_audit h ctx ''instance.exec'' target s))) = audit_log (sv_audit s) @ [e] \<and>
    en_Actor e = actor_of ctx \<and> en_Action e = ''instance.exec'' \<and> en_Target e = target"
proof -
  have "TrimSpace ''instance.exec'' \<noteq> []" by (rule dotted) simp
  with assms show ?thesis
    by (auto simp: api_audit_def recordAudit_def can_audit_def actor_of_def [symmetric] entry_of_def audit_Record_def
        Entry_Validate_def astmt_def prog_run Let_def)
qed

lemma api_audit_log: "set (audit_log (sv_audit s)) \<subseteq> set (audit_log (sv_audit (snd (api_audit h ctx action target s))))"
  by (auto simp: api_audit_def recordAudit_def audit_Record_def astmt_def prog_run Let_def split: option.splits list.splits)

text \<open>
  C29. What a request to run a command in a container does. A request whose body is refused, whose command is empty, whose instance
  is unknown or has no container reaches neither the container nor the audit log, and fails. Any other one
  runs exactly the given command, once, in the instance's container, and offers the audit log the entry
  \<^verbatim>\<open>instance.exec\<close> for the instance, with the acting user: the log then has exactly this entry more, whatever the command
  does, provided that the log can be written; a failure to write it is ignored by the code, and no entry is ever
  lost. The answer is an error when the command could not be run, and otherwise has the exit code and of each stream the
  first MiB, marked when a stream was clipped.
\<close>

theorem exec_audited_and_clipped:
  "exec_Run h ctx dec iid body s = (r, s') \<Longrightarrow>
     (env (sv_world s') = env (sv_world s) \<and> sv_audit s' = sv_audit s \<and> (\<exists>e. r = Inl e)) \<or>
     (\<exists>cmd inst s1. decodeJSON dec body = Inr cmd \<and> cmd \<noteq> [] \<and> store_Get iid s = (Inr inst, s1) \<and> i_ContainerID inst \<noteq> [] \<and>
        env (sv_world s') = snd (Exec (p_rt (ap_prov h)) (i_ContainerID inst) cmd (env (sv_world s))) \<and>
        set (audit_log (sv_audit s)) \<subseteq> set (audit_log (sv_audit s')) \<and>
        (can_audit h ctx (sv_audit s) \<longrightarrow> (\<exists>e. audit_log (sv_audit s') = audit_log (sv_audit s) @ [e] \<and>
           en_Actor e = actor_of ctx \<and> en_Action e = ''instance.exec'' \<and> en_Target e = i_ID inst)) \<and>
        (case fst (Exec (p_rt (ap_prov h)) (i_ContainerID inst) cmd (env (sv_world s))) of
           Inl e \<Rightarrow> r = Inl (Wrap KindInternal ''exec'' e)
         | Inr res \<Rightarrow> \<exists>x. r = Inr (200, x) \<and> xr_exit x = ExitCode res \<and>
             xr_stdout x = take (1024 * 1024) (Stdout res) \<and> xr_stderr x = take (1024 * 1024) (Stderr res) \<and>
             (xr_truncated x \<longleftrightarrow> xr_stdout x \<noteq> Stdout res \<or> xr_stderr x \<noteq> Stderr res)))"
proof -
  assume run: "exec_Run h ctx dec iid body s = (r, s')"
  show ?thesis
  proof (cases "\<exists>cmd inst s1. decodeJSON dec body = Inr cmd \<and> cmd \<noteq> [] \<and> store_Get iid s = (Inr inst, s1) \<and> i_ContainerID inst \<noteq> []")
    case False
    obtain g s1 where g: "store_Get iid s = (g, s1)" by fastforce
    from False g run have "(s' = s \<or> s' = s1) \<and> (\<exists>e. r = Inl e)"
      by (auto simp: exec_Run_def prog_run split: sum.splits if_splits)
    with store_Get_frame [OF g] show ?thesis by auto
  next
    case True
    then obtain cmd inst s1 where t: "decodeJSON dec body = Inr cmd" "cmd \<noteq> []" "store_Get iid s = (Inr inst, s1)" "i_ContainerID inst \<noteq> []"
      by blast
    note f1 = store_Get_frame [OF t(3)]
    let ?s2 = "snd (api_audit h ctx ''instance.exec'' (i_ID inst) s1)"
    let ?m = "onW (onE (Exec (p_rt (ap_prov h)) (i_ContainerID inst) cmd)) :: ('a server, exec_result) gofun"
    obtain x s3 where x: "?m ?s2 = (x, s3)" by fastforce
    have fx: "Exec (p_rt (ap_prov h)) (i_ContainerID inst) cmd (env (sv_world s)) = (x, env (sv_world s3))"
      using x f1 by (auto simp: onW_def onE_def split: prod.splits)
    have res: "(r, s') = (case x of Inl e \<Rightarrow> (Inl (Wrap KindInternal ''exec'' e), s3)
       | Inr res \<Rightarrow> (Inr (200, \<lparr>xr_exit = ExitCode res, xr_stdout = take maxExecOutputBytes (Stdout res),
            xr_stderr = take maxExecOutputBytes (Stderr res),
            xr_truncated = (take maxExecOutputBytes (Stdout res) \<noteq> Stdout res \<or> take maxExecOutputBytes (Stderr res) \<noteq> Stderr res)\<rparr>), s3))"
      using run t x by (simp add: exec_Run_def prog_run wrap_error_def clipOutput_take split: sum.splits)
    then have s3: "s' = s3" by (simp split: sum.splits)
    then have aud: "sv_audit s' = sv_audit ?s2" using onW_audit [OF x] by simp
    have log: "can_audit h ctx (sv_audit s) \<longrightarrow> (\<exists>e. audit_log (sv_audit s') = audit_log (sv_audit s) @ [e] \<and>
           en_Actor e = actor_of ctx \<and> en_Action e = ''instance.exec'' \<and> en_Target e = i_ID inst)"
      using exec_audit_entry [of h ctx s1 "i_ID inst"] f1 unfolding aud by simp
    have kept: "set (audit_log (sv_audit s)) \<subseteq> set (audit_log (sv_audit s'))"
      using api_audit_log [of s1 h ctx "''instance.exec''" "i_ID inst"] f1 unfolding aud by simp
    have answer: "case x of Inl e \<Rightarrow> r = Inl (Wrap KindInternal ''exec'' e)
         | Inr res \<Rightarrow> \<exists>x. r = Inr (200, x) \<and> xr_exit x = ExitCode res \<and>
             xr_stdout x = take (1024 * 1024) (Stdout res) \<and> xr_stderr x = take (1024 * 1024) (Stderr res) \<and>
             (xr_truncated x \<longleftrightarrow> xr_stdout x \<noteq> Stdout res \<or> xr_stderr x \<noteq> Stderr res)"
      using res by (cases x) (simp_all add: maxExecOutputBytes_def)
    have "env (sv_world s') = snd (Exec (p_rt (ap_prov h)) (i_ContainerID inst) cmd (env (sv_world s)))" by (simp add: fx s3)
    moreover have "x = fst (Exec (p_rt (ap_prov h)) (i_ContainerID inst) cmd (env (sv_world s)))" by (simp add: fx)
    ultimately show ?thesis using t log kept answer by blast
  qed
qed

definition demo_exec_server :: "fake_env server" where
  "demo_exec_server = demo_server\<lparr>sv_world := demo_running_world []\<rparr>"

theorem exec_audited_and_clipped_witness:
  "\<exists>r s'. exec_Run demo_api None (\<lambda>_ _. Inr ([''psql''], True)) ''i1'' [] demo_exec_server = (r, s') \<and>
     map en_Action (audit_log (sv_audit s')) = [''instance.exec'']"
proof -
  let ?dec = "\<lambda>_ _. Inr ([''psql''], True)"
  obtain x s' where run: "exec_Run demo_api None ?dec ''i1'' [] demo_exec_server = (x, s')" by fastforce
  have dec: "decodeJSON ?dec [] = Inr [''psql'']" by (simp add: decodeJSON_def)
  have get: "store_Get ''i1'' demo_exec_server = (Inr demo_running, demo_exec_server)"
    by (simp add: demo_exec_server_def demo_server_def store_Get_def onW_def demo_running_world_def demo_db_def prog_run db_run demo_running_def demo_instance_def)
  let ?s2 = "snd (api_audit demo_api None ''instance.exec'' (i_ID demo_running) demo_exec_server)"
  have aud: "map en_Action (audit_log (sv_audit ?s2)) = [''instance.exec'']" by code_simp
  have "sv_audit s' = sv_audit ?s2"
  proof -
    have "i_ContainerID demo_running \<noteq> []" by (simp add: demo_running_def)
    with run dec get have "s' = snd (onW (onE (Exec (p_rt (ap_prov demo_api)) (i_ContainerID demo_running) [''psql''])) ?s2)"
      by (auto simp: exec_Run_def prog_run wrap_error_def split: prod.splits sum.splits)
    then show ?thesis by (simp add: onW_def split: prod.splits)
  qed
  moreover have "sv_audit demo_exec_server \<noteq> sv_audit ?s2" using aud by (auto simp: demo_exec_server_def demo_server_def)
  ultimately have "map en_Action (audit_log (sv_audit s')) = [''instance.exec'']"
    using exec_audited_and_clipped [OF run] get aud by auto
  then show ?thesis by (intro exI conjI) (rule run)
qed

text \<open>
  The password of a dump reaches the child process only through the environment: the command line is
  the same for every password.
\<close>

lemma dump_password_not_in_argv:
  "parseConfig dsn = Inr cfg \<Longrightarrow> buildDumpCmd parseConfig environ dsn = Inr (argv, childEnv) \<Longrightarrow>
     argv = ''pg_dump'' # dump_args (cfg\<lparr>pgc_Password := pw\<rparr>) \<and>
     childEnv = environ @ (if pgc_Password cfg = [] then [] else [''PGPASSWORD='' @ pgc_Password cfg])"
  by (auto simp: buildDumpCmd_def dump_args_def)

end
