(* ===== verification/TimescaleAPI.thy ===== *)
theory TimescaleAPI
  imports Timescale ClusterOps Accounts
begin

text \<open>
  The TimescaleDB endpoints (\<^verbatim>\<open>internal/api/timescale.go\<close>) and the two listings of
  \<^verbatim>\<open>internal/timescale/service.go\<close>: each request resolves the instance, checks that the extension is
  enabled, connects and runs one or two management statements.

  The driver is the record \<open>tsdriver\<close>; a connection is named by its connection string. A listing runs a
  fixed query, whose scanned rows are given as values or errors, with the error after the last row.
\<close>

record Hypertable =
  ht_Schema :: string
  ht_Name :: string
  ht_NumChunks :: int
  ht_SizeBytes :: int
  ht_CompressionEnabled :: bool

record Job =
  jb_ID :: int
  jb_Application :: string
  jb_ScheduleInterval :: string
  jb_NextStart :: gotime
  jb_LastRunStatus :: string

type_synonym 'a scanned = "(goerr + 'a) list \<times> goerr option"

record 'e tsdriver =
  td_Connect :: "string \<Rightarrow> ('e, unit) gofun"
  td_Exec :: "string \<Rightarrow> string \<Rightarrow> ('e, unit) gofun"
  td_Hypertables :: "string \<Rightarrow> ('e, Hypertable scanned) gofun"
  td_Jobs :: "string \<Rightarrow> ('e, Job scanned) gofun"

section \<open>Listings (timescale/service.go)\<close>

fun scan_rows :: "(goerr \<Rightarrow> goerr) \<Rightarrow> (goerr + 'a) list \<Rightarrow> goerr + 'a list" where
  "scan_rows wrap [] = Inr []"
| "scan_rows wrap (Inl e # rows) = Inl (wrap e)"
| "scan_rows wrap (Inr x # rows) = map_sum id ((#) x) (scan_rows wrap rows)"

definition list_scanned :: "string \<Rightarrow> string \<Rightarrow> ('e, 'a scanned) gofun \<Rightarrow> ('e, 'a list) gofun" where
  "list_scanned listMsg scanMsg query =
     bindE (wrap_error (Wrap KindInternal listMsg) query) (\<lambda>(rows, err).
     case scan_rows (Wrap KindInternal scanMsg) rows of
       Inl e \<Rightarrow> fail e
     | Inr out \<Rightarrow> (case err of Some e \<Rightarrow> fail (Wrap KindInternal listMsg e) | None \<Rightarrow> ret out))"

definition ListHypertables :: "'e tsdriver \<Rightarrow> string \<Rightarrow> ('e, Hypertable list) gofun" where
  "ListHypertables drv conn = list_scanned ''timescale: list hypertables'' ''timescale: scan hypertable'' (td_Hypertables drv conn)"

definition ListJobs :: "'e tsdriver \<Rightarrow> string \<Rightarrow> ('e, Job list) gofun" where
  "ListJobs drv conn = list_scanned ''timescale: list jobs'' ''timescale: scan job'' (td_Jobs drv conn)"

section \<open>Handlers (api/timescale.go)\<close>

datatype ts_body = TsOk | TsHypertables "Hypertable list" | TsJobs "Job list"

type_synonym 'e ts_handler = "('e world, nat \<times> ts_body) gofun"

record createHypertableRequest =
  ch_Table :: string
  ch_TimeColumn :: string

record retentionRequest =
  rq_Hypertable :: string
  rq_DropAfter :: string

record enableCompressionRequest =
  ec_Hypertable :: string
  ec_SegmentBy :: string
  ec_OrderBy :: string
  ec_CompressAfter :: string

record continuousAggregateRequest =
  ca_Name :: string
  ca_Query :: string
  ca_StartOffset :: string
  ca_EndOffset :: string
  ca_ScheduleInterval :: string

definition ts_connect :: "'e Provisioner \<Rightarrow> 'e tsdriver \<Rightarrow> string \<Rightarrow> ('e world, string) gofun" where
  "ts_connect p drv iid =
     bindE (onD (instance_Get iid)) (\<lambda>inst.
     if ''timescaledb'' \<notin> set (i_Extensions inst) then fail (New KindConflict ''timescaledb is not enabled on this instance'')
     else
       bindE (wrap_error (Wrap KindInternal ''timescale: resolve dsn'') (DSN p (i_ID inst))) (\<lambda>dsn.
       bindE (wrap_error (Wrap KindInternal ''timescale: connect'') (onE (td_Connect drv dsn))) (\<lambda>_. ret dsn)))"

definition ts_decoded :: "'a decoder \<Rightarrow> string \<Rightarrow> ('a \<Rightarrow> 'e ts_handler) \<Rightarrow> 'e ts_handler" where
  "ts_decoded dec body k = (case decodeJSON dec body of Inl e \<Rightarrow> fail e | Inr req \<Rightarrow> k req)"

definition ts_op :: "'e tsdriver \<Rightarrow> string \<Rightarrow> operation \<Rightarrow> ('e world, unit) gofun" where
  "ts_op drv conn op = onE (ts_run (td_Exec drv conn) op)"

definition ts_List :: "'e Provisioner \<Rightarrow> 'e tsdriver \<Rightarrow> string \<Rightarrow> 'e ts_handler" where
  "ts_List p drv iid = bindE (ts_connect p drv iid) (\<lambda>conn.
     bindE (onE (ListHypertables drv conn)) (\<lambda>tables. ret (200, TsHypertables tables)))"

definition ts_CreateHypertable :: "'e Provisioner \<Rightarrow> 'e tsdriver \<Rightarrow> createHypertableRequest decoder \<Rightarrow> string \<Rightarrow> string \<Rightarrow> 'e ts_handler" where
  "ts_CreateHypertable p drv dec iid body = ts_decoded dec body (\<lambda>req.
     bindE (ts_connect p drv iid) (\<lambda>conn.
     bindE (ts_op drv conn (CreateHypertable (ch_Table req) (ch_TimeColumn req))) (\<lambda>_. ret (201, TsOk))))"

definition ts_AddRetention :: "'e Provisioner \<Rightarrow> 'e tsdriver \<Rightarrow> retentionRequest decoder \<Rightarrow> string \<Rightarrow> string \<Rightarrow> 'e ts_handler" where
  "ts_AddRetention p drv dec iid body = ts_decoded dec body (\<lambda>req.
     bindE (ts_connect p drv iid) (\<lambda>conn.
     bindE (ts_op drv conn (AddRetentionPolicy (rq_Hypertable req) (rq_DropAfter req))) (\<lambda>_. ret (200, TsOk))))"

definition hypertableParam :: "string decoder \<Rightarrow> string \<Rightarrow> string \<Rightarrow> goerr + string" where
  "hypertableParam dec query body =
     (if query \<noteq> [] then Inr query
      else case decodeJSON dec body of
        Inl e \<Rightarrow> Inl e
      | Inr hypertable \<Rightarrow> if hypertable = [] then Inl (New KindInvalid ''hypertable is required'') else Inr hypertable)"

definition ts_remove :: "(string \<Rightarrow> operation) \<Rightarrow> 'e Provisioner \<Rightarrow> 'e tsdriver \<Rightarrow> string decoder \<Rightarrow> string \<Rightarrow> string \<Rightarrow> string \<Rightarrow> 'e ts_handler" where
  "ts_remove mk p drv dec iid query body = (case hypertableParam dec query body of
       Inl e \<Rightarrow> fail e
     | Inr hypertable \<Rightarrow>
         bindE (ts_connect p drv iid) (\<lambda>conn. bindE (ts_op drv conn (mk hypertable)) (\<lambda>_. ret (200, TsOk))))"

definition ts_RemoveRetention :: "'e Provisioner \<Rightarrow> 'e tsdriver \<Rightarrow> string decoder \<Rightarrow> string \<Rightarrow> string \<Rightarrow> string \<Rightarrow> 'e ts_handler" where
  "ts_RemoveRetention = ts_remove RemoveRetentionPolicy"

definition ts_EnableCompression :: "'e Provisioner \<Rightarrow> 'e tsdriver \<Rightarrow> enableCompressionRequest decoder \<Rightarrow> string \<Rightarrow> string \<Rightarrow> 'e ts_handler" where
  "ts_EnableCompression p drv dec iid body = ts_decoded dec body (\<lambda>req.
     bindE (ts_connect p drv iid) (\<lambda>conn.
     bindE (ts_op drv conn (EnableCompression (ec_Hypertable req) (ec_SegmentBy req) (ec_OrderBy req))) (\<lambda>_.
     bindE (if ec_CompressAfter req \<noteq> [] then ts_op drv conn (AddCompressionPolicy (ec_Hypertable req) (ec_CompressAfter req))
            else ret ()) (\<lambda>_.
     ret (200, TsOk)))))"

definition ts_RemoveCompression :: "'e Provisioner \<Rightarrow> 'e tsdriver \<Rightarrow> string decoder \<Rightarrow> string \<Rightarrow> string \<Rightarrow> string \<Rightarrow> 'e ts_handler" where
  "ts_RemoveCompression = ts_remove RemoveCompressionPolicy"

definition ts_CreateContinuousAggregate ::
    "'e Provisioner \<Rightarrow> 'e tsdriver \<Rightarrow> continuousAggregateRequest decoder \<Rightarrow> string \<Rightarrow> string \<Rightarrow> 'e ts_handler" where
  "ts_CreateContinuousAggregate p drv dec iid body = ts_decoded dec body (\<lambda>req.
     bindE (ts_connect p drv iid) (\<lambda>conn.
     bindE (ts_op drv conn (CreateContinuousAggregate (ca_Name req) (ca_Query req))) (\<lambda>_.
     bindE (if ca_StartOffset req \<noteq> [] \<or> ca_EndOffset req \<noteq> [] \<or> ca_ScheduleInterval req \<noteq> []
            then ts_op drv conn (AddContinuousAggregatePolicy (ca_Name req) (ca_StartOffset req) (ca_EndOffset req) (ca_ScheduleInterval req))
            else ret ()) (\<lambda>_.
     ret (201, TsOk)))))"

definition ts_Jobs :: "'e Provisioner \<Rightarrow> 'e tsdriver \<Rightarrow> string \<Rightarrow> 'e ts_handler" where
  "ts_Jobs p drv iid = bindE (ts_connect p drv iid) (\<lambda>conn.
     bindE (onE (ListJobs drv conn)) (\<lambda>jobs. ret (200, TsJobs jobs)))"

section \<open>One request\<close>

datatype ts_request =
    TsList
  | TsCreateHypertable string
  | TsAddRetention string
  | TsRemoveRetention string string
  | TsEnableCompression string
  | TsRemoveCompression string string
  | TsCreateAggregate string
  | TsListJobs

record ts_decoders =
  tdc_create :: "createHypertableRequest decoder"
  tdc_retention :: "retentionRequest decoder"
  tdc_hypertable :: "string decoder"
  tdc_compression :: "enableCompressionRequest decoder"
  tdc_aggregate :: "continuousAggregateRequest decoder"

fun ts_serve :: "'e Provisioner \<Rightarrow> 'e tsdriver \<Rightarrow> ts_decoders \<Rightarrow> string \<Rightarrow> ts_request \<Rightarrow> 'e ts_handler" where
  "ts_serve p drv d iid TsList = ts_List p drv iid"
| "ts_serve p drv d iid (TsCreateHypertable body) = ts_CreateHypertable p drv (tdc_create d) iid body"
| "ts_serve p drv d iid (TsAddRetention body) = ts_AddRetention p drv (tdc_retention d) iid body"
| "ts_serve p drv d iid (TsRemoveRetention query body) = ts_RemoveRetention p drv (tdc_hypertable d) iid query body"
| "ts_serve p drv d iid (TsEnableCompression body) = ts_EnableCompression p drv (tdc_compression d) iid body"
| "ts_serve p drv d iid (TsRemoveCompression query body) = ts_RemoveCompression p drv (tdc_hypertable d) iid query body"
| "ts_serve p drv d iid (TsCreateAggregate body) = ts_CreateContinuousAggregate p drv (tdc_aggregate d) iid body"
| "ts_serve p drv d iid TsListJobs = ts_Jobs p drv iid"

section \<open>What reaches the database\<close>

definition managed_sql :: "string \<Rightarrow> bool" where
  "managed_sql sql \<longleftrightarrow> (\<exists>op. ts_sql op = Inr sql)"

lemma keeps_ts_op:
  assumes "\<And>sql. managed_sql sql \<Longrightarrow> keeps I (td_Exec drv conn sql)"
  shows "keeps (\<lambda>w. I (env w)) (ts_op drv conn op)"
proof -
  have "keeps I (td_Exec drv conn sql)" if "ts_sql op = Inr sql" for sql
    using that assms by (auto simp: managed_sql_def)
  then show ?thesis unfolding ts_op_def ts_run_def ts_exec_def by (intro keeps_rules) auto
qed

lemma keeps_DSN_env: "keeps (\<lambda>w. I (env w)) (DSN p iid)"
  unfolding DSN_def Let_def by (intro keeps_rules)

lemma keeps_ts_connect:
  assumes "\<And>conn. keeps I (td_Connect drv conn)"
  shows "keeps (\<lambda>w. I (env w)) (ts_connect p drv iid)"
  unfolding ts_connect_def by (intro keeps_rules keeps_wrap keeps_DSN_env assms)

lemma keeps_list_scanned: "keeps I q \<Longrightarrow> keeps I (list_scanned a b q)"
  unfolding list_scanned_def by (auto intro!: keeps_rules keeps_wrap split: sum.split option.split)

lemmas ts_handler_defs = ts_List_def ts_CreateHypertable_def ts_AddRetention_def ts_RemoveRetention_def ts_EnableCompression_def
  ts_RemoveCompression_def ts_CreateContinuousAggregate_def ts_Jobs_def ts_remove_def ts_decoded_def ListHypertables_def ListJobs_def

lemma ts_serve_keeps:
  assumes "\<And>conn. keeps I (td_Connect drv conn)" "\<And>conn. keeps I (td_Hypertables drv conn)" "\<And>conn. keeps I (td_Jobs drv conn)"
    "\<And>conn sql. managed_sql sql \<Longrightarrow> keeps I (td_Exec drv conn sql)"
  shows "keeps (\<lambda>w. I (env w)) (ts_serve p drv d iid req)"
  by (cases req) (auto simp: ts_handler_defs intro!: keeps_rules keeps_ts_op keeps_ts_connect keeps_list_scanned assms split: sum.split)

lemma ts_connect_refused:
  assumes "fst (instance_Get iid (db w)) = Inr inst" "''timescaledb'' \<notin> set (i_Extensions inst)"
  shows "\<exists>w'. ts_connect p drv iid w = (Inl (New KindConflict ''timescaledb is not enabled on this instance''), w') \<and> env w' = env w"
proof -
  have "fst (onD (instance_Get iid) w) = Inr inst" "env (snd (onD (instance_Get iid) w)) = env w"
    using assms(1) by (cases "instance_Get iid (db w)"; simp add: onD_def)+
  then obtain w1 where "onD (instance_Get iid) w = (Inr inst, w1)" "env w1 = env w" by (metis prod.collapse)
  then show ?thesis using assms(2) by (simp add: ts_connect_def prog_run)
qed

lemma bindE_fails: "m s = (Inl e, s') \<Longrightarrow> bindE m k s = (Inl e, s')"
  by (simp add: prog_run)

lemma ts_serve_refused:
  assumes "fst (instance_Get iid (db w)) = Inr inst" "''timescaledb'' \<notin> set (i_Extensions inst)"
  shows "isl (fst (ts_serve p drv d iid req w)) \<and> env (snd (ts_serve p drv d iid req w)) = env w"
proof -
  obtain e w' where c: "ts_connect p drv iid w = (Inl e, w')" "env w' = env w" using ts_connect_refused [OF assms] by blast
  show ?thesis
    by (cases req) (auto simp: ts_handler_defs prog_run c split: sum.split)
qed

text \<open>
  The TimescaleDB endpoints: whatever the request, the only statements executed on the instance are the
  management statements of \<open>Timescale\<close>, whose arguments were validated, so every invariant that those
  statements keep is kept by the endpoint; and an instance without the extension is never connected to.
\<close>

theorem timescale_requests_guarded:
  assumes "\<And>conn. keeps I (td_Connect drv conn)" "\<And>conn. keeps I (td_Hypertables drv conn)" "\<And>conn. keeps I (td_Jobs drv conn)"
    "\<And>conn sql. managed_sql sql \<Longrightarrow> keeps I (td_Exec drv conn sql)"
  shows "keeps (\<lambda>w. I (env w)) (ts_serve p drv d iid req) \<and>
    (\<forall>w inst. fst (instance_Get iid (db w)) = Inr inst \<and> ''timescaledb'' \<notin> set (i_Extensions inst) \<longrightarrow>
      isl (fst (ts_serve p drv d iid req w)) \<and> env (snd (ts_serve p drv d iid req w)) = env w)"
  using ts_serve_keeps [where I = I, OF assms] ts_serve_refused by blast

text \<open>
  The two statements of a continuous aggregate are not one transaction, and the arguments of the second are
  checked after the first has run: a request whose offsets are incomplete creates the aggregate and is then
  answered with status 400. The same holds for compression with a malformed interval.
\<close>

lemma incomplete_policy_invalid:
  assumes "ValidateIdent n = None" "so = [] \<or> eo = [] \<or> si = []"
  shows "\<exists>e. ts_sql (AddContinuousAggregatePolicy n so eo si) = Inl e \<and> Kind e = KindInvalid"
proof -
  have "\<exists>e. ValidateInterval x = Some e \<and> Kind e = KindInvalid" if "x = []" for x
    using that by (simp add: ValidateInterval_def TrimSpace_Nil)
  moreover have "ValidateInterval x = Some e \<Longrightarrow> Kind e = KindInvalid" for x e
    by (auto simp: ValidateInterval_def Let_def split: if_splits)
  ultimately show ?thesis
    using assms by (auto simp: AddContinuousAggregatePolicySQL_def checked_def split: option.splits)
qed

lemma partial_aggregate:
  assumes "decodeJSON dec body = Inr req" "ts_connect p drv iid w = (Inr conn, w1)"
    "ts_sql (CreateContinuousAggregate (ca_Name req) (ca_Query req)) = Inr sql" "td_Exec drv conn sql (env w1) = (Inr (), e2)"
    "ValidateIdent (ca_Name req) = None" "ca_StartOffset req \<noteq> []" "ca_EndOffset req = []"
  shows "\<exists>err. ts_CreateContinuousAggregate p drv dec iid body w = (Inl err, w1\<lparr>env := e2\<rparr>) \<and> HTTPStatus err = 400"
proof -
  obtain e where e: "ts_sql (AddContinuousAggregatePolicy (ca_Name req) (ca_StartOffset req) [] (ca_ScheduleInterval req)) = Inl e" "Kind e = KindInvalid"
    using incomplete_policy_invalid [OF assms(5)] by blast
  have "ts_op drv conn (CreateContinuousAggregate (ca_Name req) (ca_Query req)) w1 = (Inr (), w1\<lparr>env := e2\<rparr>)"
    using assms(3,4) by (simp add: ts_op_def ts_run_def ts_exec_def onE_def prog_run)
  moreover have "ts_op drv conn (AddContinuousAggregatePolicy (ca_Name req) (ca_StartOffset req) [] (ca_ScheduleInterval req)) w2 = (Inl e, w2)" for w2
    using e(1) by (simp add: ts_op_def ts_run_def ts_exec_def onE_def prog_run)
  ultimately show ?thesis
    using assms(1,2,6,7) e(2) by (simp add: ts_CreateContinuousAggregate_def ts_decoded_def prog_run HTTPStatus_def)
qed

end
