(* ===== verification/Alerts.thy ===== *)
theory Alerts
  imports Apperr
begin

text \<open>
  Package \<^verbatim>\<open>internal/alerts\<close>: thresholds and rules (\<^verbatim>\<open>alerts.go\<close>, \<^verbatim>\<open>rules.go\<close>,
  \<^verbatim>\<open>effective.go\<close>), the evaluation of a snapshot (\<^verbatim>\<open>engine.go\<close>), and the two stores
  (\<^verbatim>\<open>store.go\<close>, \<^verbatim>\<open>rules_store.go\<close>) with the tables of
  \<^verbatim>\<open>migrations/00013_alerts.sql\<close> and \<^verbatim>\<open>00020_alert_rules.sql\<close>.

  The metric values are \<^verbatim>\<open>float64\<close>; the type \<open>'f\<close> stands for it, and the record
  \<open>float_ops\<close> for what the code uses of it: the comparison, the literals, the tests for
  NaN and infinity and the verb \<^verbatim>\<open>%.nf\<close>. Times are instants in nanoseconds. Rows are kept in
  the order of their insertion; any statement may fail, by the schedule \<open>ad_faults\<close>.
  A commit that fails is a rollback: a connection lost after the server committed is not modelled.
\<close>

record 'f float_ops =
  f_less :: "'f \<Rightarrow> 'f \<Rightarrow> bool"
  f_lit :: "int \<Rightarrow> 'f"
  f_isNaN :: "'f \<Rightarrow> bool"
  f_isInf :: "'f \<Rightarrow> bool"
  f_fmt :: "nat \<Rightarrow> 'f \<Rightarrow> string"

section \<open>Thresholds (alerts.go)\<close>

definition KindDiskFull :: string where "KindDiskFull = ''disk_full''"
definition KindReplicationLag :: string where "KindReplicationLag = ''replication_lag''"
definition KindBackupStale :: string where "KindBackupStale = ''backup_stale''"
definition KindConnectionSaturation :: string where "KindConnectionSaturation = ''connection_saturation''"

definition SeverityWarning :: string where "SeverityWarning = ''warning''"
definition SeverityCritical :: string where "SeverityCritical = ''critical''"
definition StateFiring :: string where "StateFiring = ''firing''"
definition StateResolved :: string where "StateResolved = ''resolved''"

lemmas kind_defs = KindDiskFull_def KindReplicationLag_def KindBackupStale_def KindConnectionSaturation_def

record 'f Alert =
  al_ID :: string
  al_InstanceID :: string
  al_Kind :: string
  al_Severity :: string
  al_State :: string
  al_Message :: string
  al_Value :: "'f"
  al_Threshold :: "'f"
  al_FiredAt :: int
  al_ResolvedAt :: "int option"
  al_UpdatedAt :: int

record 'f Thresholds =
  MinDiskFreePercent :: "'f"
  MaxReplicationLagSeconds :: "'f"
  MaxBackupAgeSeconds :: "'f"
  MaxConnectionUtilizationPercent :: "'f"

definition DefaultThresholds :: "'f float_ops \<Rightarrow> 'f Thresholds" where
  "DefaultThresholds fp = \<lparr>MinDiskFreePercent = f_lit fp 10, MaxReplicationLagSeconds = f_lit fp 300,
     MaxBackupAgeSeconds = f_lit fp (25 * 60 * 60), MaxConnectionUtilizationPercent = f_lit fp 90\<rparr>"

section \<open>Rules (rules.go, effective.go)\<close>

record 'f Rule =
  ru_ID :: string
  ru_InstanceID :: "string option"
  ru_Kind :: string
  ru_Threshold :: "'f"
  ru_Severity :: string
  ru_Enabled :: bool

definition knownKinds :: "string list" where
  "knownKinds = [KindDiskFull, KindReplicationLag, KindBackupStale, KindConnectionSaturation]"

definition Rule_Validate :: "'f float_ops \<Rightarrow> 'f Rule \<Rightarrow> goerr option" where
  "Rule_Validate fp r =
     (if ru_Kind r \<notin> set knownKinds then Some (New KindInvalid (''alert rule: unknown kind '' @ ru_Kind r))
      else if ru_Severity r \<noteq> SeverityWarning \<and> ru_Severity r \<noteq> SeverityCritical then
        Some (New KindInvalid ''alert rule: severity must be warning or critical'')
      else if f_isNaN fp (ru_Threshold r) \<or> f_isInf fp (ru_Threshold r) then
        Some (New KindInvalid ''alert rule: threshold must be a finite number'')
      else None)"

definition apply_rule :: "'f Rule \<Rightarrow> 'f Thresholds \<Rightarrow> 'f Thresholds" where
  "apply_rule r out =
     (if \<not> ru_Enabled r then out
      else if ru_Kind r = KindDiskFull then out\<lparr>MinDiskFreePercent := ru_Threshold r\<rparr>
      else if ru_Kind r = KindReplicationLag then out\<lparr>MaxReplicationLagSeconds := ru_Threshold r\<rparr>
      else if ru_Kind r = KindBackupStale then out\<lparr>MaxBackupAgeSeconds := ru_Threshold r\<rparr>
      else if ru_Kind r = KindConnectionSaturation then out\<lparr>MaxConnectionUtilizationPercent := ru_Threshold r\<rparr>
      else out)"

definition EffectiveThresholds :: "'f Thresholds \<Rightarrow> 'f Rule list \<Rightarrow> 'f Thresholds" where
  "EffectiveThresholds defaults rules = fold apply_rule rules defaults"

section \<open>Evaluation (engine.go)\<close>

definition criticalDiskFreePercent :: int where "criticalDiskFreePercent = 5"
definition criticalReplicationLagS :: int where "criticalReplicationLagS = 900"
definition criticalConnectionUtilPc :: int where "criticalConnectionUtilPc = 98"

record 'f Snapshot =
  sn_InstanceID :: string
  DiskFreePercent :: "'f option"
  ReplicationLagSeconds :: "'f option"
  BackupAgeSeconds :: "'f option"
  ConnectionUtilizationPercent :: "'f option"

record 'f Finding =
  fi_Kind :: string
  fi_Severity :: string
  fi_Message :: string
  fi_Value :: "'f"
  fi_Threshold :: "'f"
  fi_Firing :: bool

definition disk_finding :: "'f float_ops \<Rightarrow> 'f \<Rightarrow> 'f \<Rightarrow> 'f Finding list" where
  "disk_finding fp v th =
     (if f_less fp v th then
        [\<lparr>fi_Kind = KindDiskFull,
          fi_Severity = (if f_less fp v (f_lit fp criticalDiskFreePercent) then SeverityCritical else SeverityWarning),
          fi_Message = ''disk free '' @ f_fmt fp 1 v @ ''% is below '' @ f_fmt fp 1 th @ ''%'',
          fi_Value = v, fi_Threshold = th, fi_Firing = True\<rparr>]
      else [])"

definition lag_finding :: "'f float_ops \<Rightarrow> 'f \<Rightarrow> 'f \<Rightarrow> 'f Finding list" where
  "lag_finding fp v th =
     (if f_less fp th v then
        [\<lparr>fi_Kind = KindReplicationLag,
          fi_Severity = (if f_less fp (f_lit fp criticalReplicationLagS) v then SeverityCritical else SeverityWarning),
          fi_Message = ''replication lag '' @ f_fmt fp 0 v @ ''s exceeds '' @ f_fmt fp 0 th @ ''s'',
          fi_Value = v, fi_Threshold = th, fi_Firing = True\<rparr>]
      else [])"

definition backup_finding :: "'f float_ops \<Rightarrow> 'f \<Rightarrow> 'f \<Rightarrow> 'f Finding list" where
  "backup_finding fp v th =
     (if f_less fp th v then
        [\<lparr>fi_Kind = KindBackupStale, fi_Severity = SeverityWarning,
          fi_Message = ''last backup '' @ f_fmt fp 0 v @ ''s old exceeds '' @ f_fmt fp 0 th @ ''s'',
          fi_Value = v, fi_Threshold = th, fi_Firing = True\<rparr>]
      else [])"

definition connection_finding :: "'f float_ops \<Rightarrow> 'f \<Rightarrow> 'f \<Rightarrow> 'f Finding list" where
  "connection_finding fp v th =
     (if f_less fp th v then
        [\<lparr>fi_Kind = KindConnectionSaturation,
          fi_Severity = (if f_less fp (f_lit fp criticalConnectionUtilPc) v then SeverityCritical else SeverityWarning),
          fi_Message = ''connection utilization '' @ f_fmt fp 1 v @ ''% exceeds '' @ f_fmt fp 1 th @ ''%'',
          fi_Value = v, fi_Threshold = th, fi_Firing = True\<rparr>]
      else [])"

definition known :: "'f option \<Rightarrow> ('f \<Rightarrow> 'f Finding list) \<Rightarrow> 'f Finding list" where
  "known v k = (case v of None \<Rightarrow> [] | Some x \<Rightarrow> k x)"

definition Evaluate :: "'f float_ops \<Rightarrow> 'f Snapshot \<Rightarrow> 'f Thresholds \<Rightarrow> 'f Finding list" where
  "Evaluate fp s th =
     known (DiskFreePercent s) (\<lambda>v. disk_finding fp v (MinDiskFreePercent th)) @
     known (ReplicationLagSeconds s) (\<lambda>v. lag_finding fp v (MaxReplicationLagSeconds th)) @
     known (BackupAgeSeconds s) (\<lambda>v. backup_finding fp v (MaxBackupAgeSeconds th)) @
     known (ConnectionUtilizationPercent s) (\<lambda>v. connection_finding fp v (MaxConnectionUtilizationPercent th))"

section \<open>The alert store (store.go)\<close>

text \<open>A transition; its field \<^verbatim>\<open>State\<close> is always a copy of \<^verbatim>\<open>To\<close> and has no field here.\<close>

record Transition =
  tr_Kind :: string
  tr_InstanceID :: string
  tr_From :: string
  tr_To :: string
  tr_Severity :: string
  tr_Message :: string
  tr_Timestamp :: int

record 'f alert_db =
  ad_faults :: "bool list"
  ad_uuids :: "nat \<Rightarrow> string"
  ad_next :: nat
  ad_instances :: "string list"
  ad_alerts :: "'f Alert list"
  ad_rules :: "'f Rule list"

definition alert_stmt :: "string \<Rightarrow> ('f alert_db, 'a) gofun \<Rightarrow> ('f alert_db, 'a) gofun" where
  "alert_stmt msg m s = (case ad_faults s of
       [] \<Rightarrow> m s
     | bad # fs \<Rightarrow>
         if bad then (Inl (Wrap KindInternal msg (Plain ''statement failed'')), s\<lparr>ad_faults := fs\<rparr>)
         else m (s\<lparr>ad_faults := fs\<rparr>))"

definition is_firing :: "string \<Rightarrow> string \<Rightarrow> 'f Alert \<Rightarrow> bool" where
  "is_firing inst kind a \<longleftrightarrow> al_InstanceID a = inst \<and> al_Kind a = kind \<and> al_State a = StateFiring"

definition alert_upsert :: "string \<Rightarrow> int \<Rightarrow> 'f Finding \<Rightarrow> ('f alert_db, unit) gofun" where
  "alert_upsert inst now f s =
     (if inst \<notin> set (ad_instances s) then (Inl (Wrap KindInternal ''alerts: sync upsert'' (Plain ''23503'')), s)
      else if list_ex (is_firing inst (fi_Kind f)) (ad_alerts s) then
        (Inr (), s\<lparr>ad_alerts := map (\<lambda>a. if is_firing inst (fi_Kind f) a then
           a\<lparr>al_Severity := fi_Severity f, al_Message := fi_Message f, al_Value := fi_Value f, al_Threshold := fi_Threshold f,
             al_UpdatedAt := now\<rparr> else a) (ad_alerts s)\<rparr>)
      else if ad_uuids s (ad_next s) \<in> al_ID ` set (ad_alerts s) then
        (Inl (Wrap KindInternal ''alerts: sync upsert'' (Plain ''23505'')), s\<lparr>ad_next := Suc (ad_next s)\<rparr>)
      else
        (Inr (), s\<lparr>ad_next := Suc (ad_next s), ad_alerts := ad_alerts s @
           [\<lparr>al_ID = ad_uuids s (ad_next s), al_InstanceID = inst, al_Kind = fi_Kind f, al_Severity = fi_Severity f,
             al_State = StateFiring, al_Message = fi_Message f, al_Value = fi_Value f, al_Threshold = fi_Threshold f,
             al_FiredAt = now, al_ResolvedAt = None, al_UpdatedAt = now\<rparr>]\<rparr>))"

primrec sync_findings :: "string \<Rightarrow> int \<Rightarrow> 'f Finding list \<Rightarrow> ('f alert_db, Transition list) gofun" where
  "sync_findings inst now [] = ret []"
| "sync_findings inst now (f # fs) =
     bindE (alert_stmt ''alerts: sync exists'' (\<lambda>s. (Inr (list_ex (is_firing inst (fi_Kind f)) (ad_alerts s)), s))) (\<lambda>existed.
     bindE (alert_stmt ''alerts: sync upsert'' (alert_upsert inst now f)) (\<lambda>_.
     bindE (sync_findings inst now fs) (\<lambda>ts.
     ret ((if existed then [] else [\<lparr>tr_Kind = fi_Kind f, tr_InstanceID = inst, tr_From = [], tr_To = StateFiring,
       tr_Severity = fi_Severity f, tr_Message = fi_Message f, tr_Timestamp = now\<rparr>]) @ ts))))"

definition alert_resolve :: "string \<Rightarrow> int \<Rightarrow> string \<Rightarrow> ('f alert_db, unit) gofun" where
  "alert_resolve inst now kind s = (Inr (), s\<lparr>ad_alerts := map (\<lambda>a. if is_firing inst kind a then
       a\<lparr>al_State := StateResolved, al_ResolvedAt := Some now, al_UpdatedAt := now\<rparr> else a) (ad_alerts s)\<rparr>)"

primrec resolve_stale :: "string \<Rightarrow> int \<Rightarrow> 'f Alert list \<Rightarrow> ('f alert_db, Transition list) gofun" where
  "resolve_stale inst now [] = ret []"
| "resolve_stale inst now (a # as) =
     bindE (alert_stmt ''alerts: sync resolve'' (alert_resolve inst now (al_Kind a))) (\<lambda>_.
     bindE (resolve_stale inst now as) (\<lambda>ts.
     ret (\<lparr>tr_Kind = al_Kind a, tr_InstanceID = inst, tr_From = StateFiring, tr_To = StateResolved,
       tr_Severity = al_Severity a, tr_Message = al_Message a, tr_Timestamp = now\<rparr> # ts)))"

text \<open>A transaction: whatever fails inside it, or its commit, restores the table.\<close>

definition alert_tx :: "('f alert_db, 'a) gofun \<Rightarrow> ('f alert_db, 'a) gofun" where
  "alert_tx m s = (case m s of
       (Inl e, s') \<Rightarrow> (Inl e, s'\<lparr>ad_alerts := ad_alerts s\<rparr>)
     | (Inr x, s') \<Rightarrow> (Inr x, s'))"

definition alerts_Sync :: "string \<Rightarrow> 'f Finding list \<Rightarrow> int \<Rightarrow> ('f alert_db, Transition list) gofun" where
  "alerts_Sync inst findings now =
     bindE (alert_stmt ''alerts: begin'' (ret ())) (\<lambda>_.
     alert_tx (
       bindE (sync_findings inst now findings) (\<lambda>fired.
       bindE (alert_stmt ''alerts: sync list firing'' (\<lambda>s.
         (Inr (filter (\<lambda>a. al_InstanceID a = inst \<and> al_State a = StateFiring) (ad_alerts s)), s))) (\<lambda>firing.
       let stale = filter (\<lambda>a. al_Kind a \<notin> fi_Kind ` set findings) firing in
       bindE (resolve_stale inst now stale) (\<lambda>resolved.
       bindE (alert_stmt ''alerts: commit'' (ret ())) (\<lambda>_.
       ret (fired @ resolved)))))))"

definition ListActive :: "('f alert_db, 'f Alert list) gofun" where
  "ListActive = alert_stmt ''alerts: list'' (\<lambda>s.
     (Inr (sort_key (\<lambda>a. - al_FiredAt a) (filter (\<lambda>a. al_State a = StateFiring) (ad_alerts s))), s))"

definition ListForInstance :: "string \<Rightarrow> ('f alert_db, 'f Alert list) gofun" where
  "ListForInstance inst = alert_stmt ''alerts: list'' (\<lambda>s.
     (Inr (sort_key (\<lambda>a. - al_FiredAt a) (filter (\<lambda>a. al_InstanceID a = inst) (ad_alerts s))), s))"

section \<open>The rule store (rules\_store.go)\<close>

definition rule_insert :: "'f Rule \<Rightarrow> ('f alert_db, 'f Rule) gofun" where
  "rule_insert r s =
     (let uid = ad_uuids s (ad_next s); s' = s\<lparr>ad_next := Suc (ad_next s)\<rparr>; row = r\<lparr>ru_ID := uid\<rparr> in
      if uid \<in> ru_ID ` set (ad_rules s) then (Inl (Wrap KindInternal ''alert rules: create'' (Plain ''23505'')), s')
      else if (case ru_InstanceID r of None \<Rightarrow> False | Some i \<Rightarrow> i \<notin> set (ad_instances s)) then
        (Inl (Wrap KindInternal ''alert rules: create'' (Plain ''23503'')), s')
      else (Inr row, s'\<lparr>ad_rules := ad_rules s @ [row]\<rparr>))"

definition rules_Create :: "'f float_ops \<Rightarrow> 'f Rule \<Rightarrow> ('f alert_db, 'f Rule) gofun" where
  "rules_Create fp r =
     (case Rule_Validate fp r of Some e \<Rightarrow> fail e | None \<Rightarrow> alert_stmt ''alert rules: create'' (rule_insert r))"

definition rules_List :: "('f alert_db, 'f Rule list) gofun" where
  "rules_List = alert_stmt ''alert rules: list'' (\<lambda>s. (Inr (rev (ad_rules s)), s))"

definition rules_Get :: "string \<Rightarrow> ('f alert_db, 'f Rule) gofun" where
  "rules_Get rid = alert_stmt ''alert rules: get'' (\<lambda>s. case find (\<lambda>r. ru_ID r = rid) (ad_rules s) of
       None \<Rightarrow> (Inl (New KindNotFound ''alert rule not found''), s)
     | Some r \<Rightarrow> (Inr r, s))"

definition rules_Update :: "'f float_ops \<Rightarrow> 'f Rule \<Rightarrow> ('f alert_db, unit) gofun" where
  "rules_Update fp r =
     (case Rule_Validate fp r of
        Some e \<Rightarrow> fail e
      | None \<Rightarrow> alert_stmt ''alert rules: update'' (\<lambda>s.
          if ru_ID r \<notin> ru_ID ` set (ad_rules s) then (Inl (New KindNotFound ''alert rule not found''), s)
          else if (case ru_InstanceID r of None \<Rightarrow> False | Some i \<Rightarrow> i \<notin> set (ad_instances s)) then
            (Inl (Wrap KindInternal ''alert rules: update'' (Plain ''23503'')), s)
          else (Inr (), s\<lparr>ad_rules := map (\<lambda>x. if ru_ID x = ru_ID r then r else x) (ad_rules s)\<rparr>)))"

definition rules_Delete :: "string \<Rightarrow> ('f alert_db, unit) gofun" where
  "rules_Delete rid = alert_stmt ''alert rules: delete'' (\<lambda>s.
     if rid \<notin> ru_ID ` set (ad_rules s) then (Inl (New KindNotFound ''alert rule not found''), s)
     else (Inr (), s\<lparr>ad_rules := filter (\<lambda>x. ru_ID x \<noteq> rid) (ad_rules s)\<rparr>))"

definition ListEffective :: "string \<Rightarrow> ('f alert_db, 'f Rule list) gofun" where
  "ListEffective inst = alert_stmt ''alert rules: list effective'' (\<lambda>s.
     let rs = filter (\<lambda>r. ru_Enabled r \<and> (ru_InstanceID r = None \<or> ru_InstanceID r = Some inst)) (ad_rules s)
     in (Inr (filter (\<lambda>r. ru_InstanceID r = None) rs @ filter (\<lambda>r. ru_InstanceID r \<noteq> None) rs), s))"

section \<open>The firing set\<close>

text \<open>The abstract state of the alert table: which kinds fire for which instance.\<close>

definition fkeys :: "'f alert_db \<Rightarrow> (string \<times> string) list" where
  "fkeys s = map (\<lambda>a. (al_InstanceID a, al_Kind a)) (filter (\<lambda>a. al_State a = StateFiring) (ad_alerts s))"

lemma fkeys_faults [simp]: "fkeys (s\<lparr>ad_faults := fs\<rparr>) = fkeys s"
  by (simp add: fkeys_def)

lemma alert_stmt_Inr: "alert_stmt msg m s = (Inr x, s') \<Longrightarrow> \<exists>s0. fkeys s0 = fkeys s \<and> ad_alerts s0 = ad_alerts s \<and> m s0 = (Inr x, s')"
proof (cases "ad_faults s")
  case Nil
  assume "alert_stmt msg m s = (Inr x, s')"
  with Nil show ?thesis by (intro exI [of _ s]) (simp add: alert_stmt_def)
next
  case (Cons b fs)
  assume "alert_stmt msg m s = (Inr x, s')"
  with Cons show ?thesis by (intro exI [of _ "s\<lparr>ad_faults := fs\<rparr>"]) (simp add: alert_stmt_def split: if_splits)
qed

lemma existed_iff: "list_ex (is_firing inst kind) (ad_alerts s) \<longleftrightarrow> (inst, kind) \<in> set (fkeys s)"
  by (auto simp: list_ex_iff is_firing_def fkeys_def)

lemma StateResolved_neq: "StateResolved \<noteq> StateFiring"
  by (simp add: StateResolved_def StateFiring_def)

lemma fkeys_update:
  assumes "\<And>a. al_State (up a) = al_State a \<and> al_InstanceID (up a) = al_InstanceID a \<and> al_Kind (up a) = al_Kind a"
  shows "fkeys (s\<lparr>ad_alerts := map up (ad_alerts s)\<rparr>) = fkeys s"
  using assms by (simp add: fkeys_def filter_map comp_def)

lemma alert_upsert_fkeys:
  assumes "alert_upsert inst now f s = (Inr (), s')"
  shows "fkeys s' = (if (inst, fi_Kind f) \<in> set (fkeys s) then fkeys s else fkeys s @ [(inst, fi_Kind f)])"
proof (cases "list_ex (is_firing inst (fi_Kind f)) (ad_alerts s)")
  case True
  then have "s' = s\<lparr>ad_alerts := map (\<lambda>a. if is_firing inst (fi_Kind f) a then
      a\<lparr>al_Severity := fi_Severity f, al_Message := fi_Message f, al_Value := fi_Value f, al_Threshold := fi_Threshold f,
        al_UpdatedAt := now\<rparr> else a) (ad_alerts s)\<rparr>"
    using assms by (simp add: alert_upsert_def split: if_splits)
  with True show ?thesis by (simp add: fkeys_update existed_iff)
next
  case False
  with assms show ?thesis by (auto simp: alert_upsert_def fkeys_def existed_iff split: if_splits)
qed

lemma alert_resolve_fkeys:
  assumes "alert_resolve inst now kind s = (Inr (), s')"
  shows "fkeys s' = filter (\<lambda>k. k \<noteq> (inst, kind)) (fkeys s)"
proof -
  have "map (\<lambda>a. (al_InstanceID a, al_Kind a)) (filter (\<lambda>a. al_State a = StateFiring) (map (\<lambda>a. if is_firing inst kind a then
       a\<lparr>al_State := StateResolved, al_ResolvedAt := Some now, al_UpdatedAt := now\<rparr> else a) as)) =
     filter (\<lambda>k. k \<noteq> (inst, kind)) (map (\<lambda>a. (al_InstanceID a, al_Kind a)) (filter (\<lambda>a. al_State a = StateFiring) as))"
    for as :: "'a Alert list"
    by (induction as) (simp_all add: is_firing_def StateResolved_neq)
  with assms show ?thesis by (auto simp: alert_resolve_def fkeys_def)
qed

definition fired_by :: "string \<Rightarrow> string \<Rightarrow> Transition list \<Rightarrow> bool" where
  "fired_by inst to ts \<longleftrightarrow> (\<forall>t\<in>set ts. tr_InstanceID t = inst \<and> tr_To t = to)"

lemma sync_findings_fkeys:
  assumes "sync_findings inst now fs s = (Inr ts, s')" "distinct (fkeys s)"
  shows "fkeys s' = fkeys s @ map (\<lambda>t. (inst, tr_Kind t)) ts \<and> distinct (fkeys s') \<and>
    set (fkeys s') = set (fkeys s) \<union> {inst} \<times> fi_Kind ` set fs \<and> fired_by inst StateFiring ts"
  using assms
proof (induction fs arbitrary: s ts)
  case (Cons f fs)
  obtain existed s1 where ex: "alert_stmt ''alerts: sync exists'' (\<lambda>s. (Inr (list_ex (is_firing inst (fi_Kind f)) (ad_alerts s)), s)) s = (Inr existed, s1)"
    and rest: "bindE (alert_stmt ''alerts: sync upsert'' (alert_upsert inst now f)) (\<lambda>_. bindE (sync_findings inst now fs) (\<lambda>ts.
      ret ((if existed then [] else [\<lparr>tr_Kind = fi_Kind f, tr_InstanceID = inst, tr_From = [], tr_To = StateFiring,
       tr_Severity = fi_Severity f, tr_Message = fi_Message f, tr_Timestamp = now\<rparr>]) @ ts))) s1 = (Inr ts, s')"
    using Cons.prems(1) unfolding sync_findings.simps by (rule bindE_Inr) (rule that)
  obtain s2 where up: "alert_stmt ''alerts: sync upsert'' (alert_upsert inst now f) s1 = (Inr (), s2)"
    and rest2: "bindE (sync_findings inst now fs) (\<lambda>ts.
      ret ((if existed then [] else [\<lparr>tr_Kind = fi_Kind f, tr_InstanceID = inst, tr_From = [], tr_To = StateFiring,
       tr_Severity = fi_Severity f, tr_Message = fi_Message f, tr_Timestamp = now\<rparr>]) @ ts)) s2 = (Inr ts, s')"
    using rest by (rule bindE_Inr) (auto intro: that)
  obtain ts' where go: "sync_findings inst now fs s2 = (Inr ts', s')"
    and ts: "ts = (if existed then [] else [\<lparr>tr_Kind = fi_Kind f, tr_InstanceID = inst, tr_From = [], tr_To = StateFiring,
       tr_Severity = fi_Severity f, tr_Message = fi_Message f, tr_Timestamp = now\<rparr>]) @ ts'"
    using rest2 by (rule bindE_Inr) (simp add: ret_def that)
  have e: "existed = ((inst, fi_Kind f) \<in> set (fkeys s))" "fkeys s1 = fkeys s"
    using alert_stmt_Inr [OF ex] by (auto simp: existed_iff)
  have k2: "fkeys s2 = (if (inst, fi_Kind f) \<in> set (fkeys s) then fkeys s else fkeys s @ [(inst, fi_Kind f)])"
    using alert_stmt_Inr [OF up] e(2) alert_upsert_fkeys by metis
  then have "distinct (fkeys s2)" using Cons.prems(2) by simp
  note ih = Cons.IH [OF go this]
  have "fkeys s' = fkeys s @ map (\<lambda>t. (inst, tr_Kind t)) ts" using ih k2 e(1) ts by simp
  moreover have "set (fkeys s') = set (fkeys s) \<union> {inst} \<times> fi_Kind ` set (f # fs)"
  proof -
    have "set (fkeys s') = set (fkeys s2) \<union> {inst} \<times> fi_Kind ` set fs" using ih by blast
    then show ?thesis unfolding k2 by (simp split: if_splits) blast
  qed
  moreover have "fired_by inst StateFiring ts" using ih ts by (simp add: fired_by_def)
  ultimately show ?case using ih by blast
qed (simp add: ret_def fired_by_def)

lemma resolve_stale_fkeys:
  assumes "resolve_stale inst now as s = (Inr ts, s')"
  shows "fkeys s' = filter (\<lambda>k. k \<notin> {inst} \<times> al_Kind ` set as) (fkeys s) \<and> map tr_Kind ts = map al_Kind as \<and>
    fired_by inst StateResolved ts"
  using assms
proof (induction as arbitrary: s ts)
  case (Cons a as)
  obtain s1 where up: "alert_stmt ''alerts: sync resolve'' (alert_resolve inst now (al_Kind a)) s = (Inr (), s1)"
    and rest: "bindE (resolve_stale inst now as) (\<lambda>ts. ret (\<lparr>tr_Kind = al_Kind a, tr_InstanceID = inst, tr_From = StateFiring,
       tr_To = StateResolved, tr_Severity = al_Severity a, tr_Message = al_Message a, tr_Timestamp = now\<rparr> # ts)) s1 = (Inr ts, s')"
    using Cons.prems unfolding resolve_stale.simps by (rule bindE_Inr) (auto intro: that)
  obtain ts' where go: "resolve_stale inst now as s1 = (Inr ts', s')"
    and ts: "ts = \<lparr>tr_Kind = al_Kind a, tr_InstanceID = inst, tr_From = StateFiring,
       tr_To = StateResolved, tr_Severity = al_Severity a, tr_Message = al_Message a, tr_Timestamp = now\<rparr> # ts'"
    using rest by (rule bindE_Inr) (simp add: ret_def that)
  have "fkeys s1 = filter (\<lambda>k. k \<noteq> (inst, al_Kind a)) (fkeys s)"
    using alert_stmt_Inr [OF up] alert_resolve_fkeys by metis
  with Cons.IH [OF go] ts show ?case by (auto simp: fired_by_def intro!: filter_cong)
qed (simp add: ret_def fired_by_def)

text \<open>The specification of a synchronisation: for the instance exactly the kinds found fire, the others are
  untouched, and a kind is announced once if it starts firing and once if it stops.\<close>

definition sync_spec :: "string \<Rightarrow> string set \<Rightarrow> (string \<times> string) set \<Rightarrow> (string \<times> string) set \<Rightarrow> Transition list \<Rightarrow> bool" where
  "sync_spec inst kinds before after ts \<longleftrightarrow>
     after = {k \<in> before. fst k \<noteq> inst} \<union> {inst} \<times> kinds \<and>
     distinct (map tr_Kind ts) \<and> (\<forall>t\<in>set ts. tr_InstanceID t = inst \<and> tr_To t \<in> {StateFiring, StateResolved}) \<and>
     {tr_Kind t |t. t \<in> set ts \<and> tr_To t = StateFiring} = {k \<in> kinds. (inst, k) \<notin> before} \<and>
     {tr_Kind t |t. t \<in> set ts \<and> tr_To t = StateResolved} = {k. (inst, k) \<in> before \<and> k \<notin> kinds}"

lemma stale_kinds:
  assumes "fkeys s0 = ks" "ad_alerts s = ad_alerts s0"
  shows "map al_Kind (filter (\<lambda>a. al_Kind a \<notin> K) (filter (\<lambda>a. al_InstanceID a = inst \<and> al_State a = StateFiring) (ad_alerts s))) =
    map snd (filter (\<lambda>k. fst k = inst \<and> snd k \<notin> K) ks)"
proof -
  have "map al_Kind (filter (\<lambda>a. al_Kind a \<notin> K) (filter (\<lambda>a. al_InstanceID a = inst \<and> al_State a = StateFiring) as)) =
    map snd (filter (\<lambda>k. fst k = inst \<and> snd k \<notin> K)
      (map (\<lambda>a. (al_InstanceID a, al_Kind a)) (filter (\<lambda>a. al_State a = StateFiring) as)))" for as :: "'a Alert list"
    by (induction as) simp_all
  then show ?thesis using assms by (simp add: fkeys_def)
qed

lemma distinct_snd: "distinct ks \<Longrightarrow> (\<And>k. k \<in> set ks \<Longrightarrow> fst k = inst) \<Longrightarrow> distinct (map snd ks)"
  by (auto simp: distinct_map inj_on_def prod_eq_iff)

lemma alerts_Sync_parts:
  assumes "alerts_Sync inst findings now s = (Inr ts, s')"
  obtains s0 fired s1 s2 resolved s3 where "fkeys s0 = fkeys s" "sync_findings inst now findings s0 = (Inr fired, s1)"
    "fkeys s2 = fkeys s1" "fkeys s' = fkeys s3" "ts = fired @ resolved"
    "resolve_stale inst now (filter (\<lambda>a. al_Kind a \<notin> fi_Kind ` set findings)
       (filter (\<lambda>a. al_InstanceID a = inst \<and> al_State a = StateFiring) (ad_alerts s1))) s2 = (Inr resolved, s3)"
proof -
  obtain s0 where beg: "alert_stmt ''alerts: begin'' (ret ()) s = (Inr (), s0)"
    and tx: "alert_tx (bindE (sync_findings inst now findings) (\<lambda>fired.
       bindE (alert_stmt ''alerts: sync list firing'' (\<lambda>s.
         (Inr (filter (\<lambda>a. al_InstanceID a = inst \<and> al_State a = StateFiring) (ad_alerts s)), s))) (\<lambda>firing.
       let stale = filter (\<lambda>a. al_Kind a \<notin> fi_Kind ` set findings) firing in
       bindE (resolve_stale inst now stale) (\<lambda>resolved.
       bindE (alert_stmt ''alerts: commit'' (ret ())) (\<lambda>_.
       ret (fired @ resolved)))))) s0 = (Inr ts, s')"
    using assms unfolding alerts_Sync_def by (rule bindE_Inr) (auto intro: that)
  obtain fired s1 firing s2 resolved s3 s4 where run: "sync_findings inst now findings s0 = (Inr fired, s1)"
    "alert_stmt ''alerts: sync list firing'' (\<lambda>s.
       (Inr (filter (\<lambda>a. al_InstanceID a = inst \<and> al_State a = StateFiring) (ad_alerts s)), s)) s1 = (Inr firing, s2)"
    "resolve_stale inst now (filter (\<lambda>a. al_Kind a \<notin> fi_Kind ` set findings) firing) s2 = (Inr resolved, s3)"
    "alert_stmt ''alerts: commit'' (ret ()) s3 = (Inr (), s4)" "ret (fired @ resolved) s4 = (Inr ts :: goerr + Transition list, s')"
    using tx unfolding alert_tx_def Let_def
    by (auto split: prod.splits sum.splits elim!: bindE_Inr intro: that)
  have "fkeys s0 = fkeys s" "fkeys s4 = fkeys s3" using alert_stmt_Inr [OF beg] alert_stmt_Inr [OF run(4)] by (auto simp: ret_def)
  moreover have "firing = filter (\<lambda>a. al_InstanceID a = inst \<and> al_State a = StateFiring) (ad_alerts s1)" "fkeys s2 = fkeys s1"
    using alert_stmt_Inr [OF run(2)] by auto
  ultimately show thesis using run(1,3,5) by (intro that [of s0 fired s1 s2 s3 resolved]) (simp_all add: ret_def)
qed

lemma kinds_of: "(\<And>t. t \<in> T \<and> tr_To t = to \<longleftrightarrow> t \<in> U) \<Longrightarrow> {tr_Kind t |t. t \<in> T \<and> tr_To t = to} = tr_Kind ` U"
  by (auto simp: image_iff)

lemma alerts_spec_met:
  assumes B: "distinct B" and f: "ks = B @ map (\<lambda>t. (inst, tr_Kind t)) fired" "distinct ks"
    "set ks = set B \<union> {inst} \<times> K" "fired_by inst StateFiring fired"
    and r: "ks' = filter (\<lambda>k. k \<notin> {inst} \<times> set (map snd (filter (\<lambda>k. fst k = inst \<and> snd k \<notin> K) ks))) ks"
    "map tr_Kind resolved = map snd (filter (\<lambda>k. fst k = inst \<and> snd k \<notin> K) ks)" "fired_by inst StateResolved resolved"
  shows "distinct ks' \<and> sync_spec inst K (set B) (set ks') (fired @ resolved)"
proof -
  have fk: "tr_Kind ` set fired = {k \<in> K. (inst, k) \<notin> set B}"
  proof -
    have "set ks = set B \<union> (\<lambda>t. (inst, tr_Kind t)) ` set fired" "set B \<inter> (\<lambda>t. (inst, tr_Kind t)) ` set fired = {}"
      using f(1,2) by auto
    then have "(\<lambda>t. (inst, tr_Kind t)) ` set fired = {inst} \<times> K - set B" using f(3) by blast
    then show ?thesis by (auto simp: set_eq_iff image_iff)
  qed
  have rk: "tr_Kind ` set resolved = {k. (inst, k) \<in> set B \<and> k \<notin> K}"
  proof -
    have "tr_Kind ` set resolved = set (map tr_Kind resolved)" by simp
    also have "\<dots> = {k. (inst, k) \<in> set ks \<and> k \<notin> K}" unfolding r(2) by force
    finally show ?thesis using f(3) by auto
  qed
  have "set (map snd (filter (\<lambda>k. fst k = inst \<and> snd k \<notin> K) ks)) = {k. (inst, k) \<in> set ks \<and> k \<notin> K}" by force
  then have "set ks' = {k \<in> set ks. \<not> (fst k = inst \<and> snd k \<notin> K)}" unfolding r(1) by (auto simp: mem_Times_iff)
  also have "\<dots> = {k \<in> set B. fst k \<noteq> inst} \<union> {inst} \<times> K" unfolding f(3) by (auto simp: mem_Times_iff)
  finally have "set ks' = {k \<in> set B. fst k \<noteq> inst} \<union> {inst} \<times> K" .
  moreover have "distinct (map tr_Kind (fired @ resolved))"
  proof -
    have "distinct (map tr_Kind fired)" using f(1,2) by (simp add: distinct_map inj_on_def)
    moreover have "distinct (map tr_Kind resolved)" unfolding r(2) by (rule distinct_snd) (use f(2) in auto)
    ultimately show ?thesis using fk rk by auto
  qed
  moreover have "{tr_Kind t |t. t \<in> set (fired @ resolved) \<and> tr_To t = StateFiring} = {k \<in> K. (inst, k) \<notin> set B}"
    by (rule kinds_of [THEN trans, OF _ fk]) (use f(4) r(3) StateResolved_neq in \<open>auto simp: fired_by_def\<close>)
  moreover have "{tr_Kind t |t. t \<in> set (fired @ resolved) \<and> tr_To t = StateResolved} = {k. (inst, k) \<in> set B \<and> k \<notin> K}"
    by (rule kinds_of [THEN trans, OF _ rk]) (use f(4) r(3) StateResolved_neq in \<open>auto simp: fired_by_def\<close>)
  moreover have "distinct ks'" unfolding r(1) using f(2) by simp
  ultimately show ?thesis using f(4) r(3) unfolding sync_spec_def fired_by_def by auto
qed

lemma alerts_Sync_spec:
  assumes "alerts_Sync inst findings now s = (r, s')" "distinct (fkeys s)"
  shows "distinct (fkeys s') \<and> (case r of
     Inl _ \<Rightarrow> ad_alerts s' = ad_alerts s
   | Inr ts \<Rightarrow> sync_spec inst (fi_Kind ` set findings) (set (fkeys s)) (set (fkeys s')) ts)"
proof (cases r)
  case (Inl e)
  have "ad_alerts s' = ad_alerts s"
    using assms(1) Inl by (auto simp: alerts_Sync_def alert_stmt_def alert_tx_def bindE_def ret_def
        split: list.splits if_splits prod.splits sum.splits)
  with Inl assms(2) show ?thesis by (simp add: fkeys_def)
next
  case (Inr ts)
  let ?K = "fi_Kind ` set findings" and ?B = "set (fkeys s)"
  obtain s0 fired s1 s2 resolved s3 where p: "fkeys s0 = fkeys s" "sync_findings inst now findings s0 = (Inr fired, s1)"
    "fkeys s2 = fkeys s1" "fkeys s' = fkeys s3" "ts = fired @ resolved"
    "resolve_stale inst now (filter (\<lambda>a. al_Kind a \<notin> ?K)
       (filter (\<lambda>a. al_InstanceID a = inst \<and> al_State a = StateFiring) (ad_alerts s1))) s2 = (Inr resolved, s3)"
    using assms(1) unfolding Inr by (rule alerts_Sync_parts)
  have f: "fkeys s1 = fkeys s @ map (\<lambda>t. (inst, tr_Kind t)) fired" "distinct (fkeys s1)"
    "set (fkeys s1) = ?B \<union> {inst} \<times> ?K" "fired_by inst StateFiring fired"
    using sync_findings_fkeys [OF p(2)] assms(2) unfolding p(1) by blast+
  let ?stale = "filter (\<lambda>k. fst k = inst \<and> snd k \<notin> ?K) (fkeys s1)"
  have r: "fkeys s3 = filter (\<lambda>k. k \<notin> {inst} \<times> set (map snd ?stale)) (fkeys s1)"
    "map tr_Kind resolved = map snd ?stale" "fired_by inst StateResolved resolved"
    using resolve_stale_fkeys [OF p(6)] stale_kinds [OF refl refl, of ?K inst s1] p(3) by (metis set_map)+
  have "distinct (fkeys s3) \<and> sync_spec inst ?K ?B (set (fkeys s3)) (fired @ resolved)"
    by (rule alerts_spec_met [OF assms(2) f r])
  then show ?thesis unfolding Inr p(4,5) by simp
qed

text \<open>
  C9. Synchronising alerts refines its specification. When \<open>Sync\<close> succeeds, exactly the kinds of the
  findings fire for the instance and no other instance's alerts change; the returned transitions
  name each kind at most once, those that start to fire and those that stop, and nothing
  else. When it fails, at any statement or at the commit, the alert table is as it was. At
  most one alert fires per instance and kind throughout.
\<close>

theorem alerts_Sync_refines:
  assumes "alerts_Sync inst findings now s = (r, s')" "distinct (fkeys s)"
  shows "distinct (fkeys s') \<and> (case r of
     Inl _ \<Rightarrow> ad_alerts s' = ad_alerts s
   | Inr ts \<Rightarrow> sync_spec inst (fi_Kind ` set findings) (set (fkeys s)) (set (fkeys s')) ts)"
  using assms by (rule alerts_Sync_spec)

section \<open>Which rule counts\<close>

definition threshold_of :: "string \<Rightarrow> 'f Thresholds \<Rightarrow> 'f" where
  "threshold_of kind th =
     (if kind = KindDiskFull then MinDiskFreePercent th
      else if kind = KindReplicationLag then MaxReplicationLagSeconds th
      else if kind = KindBackupStale then MaxBackupAgeSeconds th
      else MaxConnectionUtilizationPercent th)"

definition latest :: "'f Rule list \<Rightarrow> 'f \<Rightarrow> 'f" where
  "latest rs d = (if rs = [] then d else ru_Threshold (last rs))"

lemma kinds_neq:
  "KindDiskFull \<noteq> KindReplicationLag" "KindDiskFull \<noteq> KindBackupStale" "KindDiskFull \<noteq> KindConnectionSaturation"
  "KindReplicationLag \<noteq> KindBackupStale" "KindReplicationLag \<noteq> KindConnectionSaturation"
  "KindBackupStale \<noteq> KindConnectionSaturation"
  by (simp_all add: kind_defs)

lemma apply_rule_threshold:
  "kind \<in> set knownKinds \<Longrightarrow>
   threshold_of kind (apply_rule r th) = (if ru_Enabled r \<and> ru_Kind r = kind then ru_Threshold r else threshold_of kind th)"
  using kinds_neq kinds_neq [THEN not_sym] by (auto simp: apply_rule_def threshold_of_def knownKinds_def)

lemma effective_latest:
  assumes "kind \<in> set knownKinds"
  shows "threshold_of kind (EffectiveThresholds d rules) =
    latest (filter (\<lambda>r. ru_Enabled r \<and> ru_Kind r = kind) rules) (threshold_of kind d)"
proof (induction rules rule: rev_induct)
  case (snoc r rules)
  then show ?case using assms by (simp add: EffectiveThresholds_def apply_rule_threshold latest_def)
qed (simp add: EffectiveThresholds_def latest_def)

text \<open>
  The most specific rule counts. For every alert kind, the threshold an instance is judged by is
  that of the newest enabled rule of that kind scoped to the instance; without one, that of
  the newest enabled rule for all instances; and without either, the default. Rules that are
  disabled or scoped to another instance never matter, in whatever order they were created.
\<close>

theorem effective_precedence:
  assumes "ListEffective inst s = (Inr rules, s')" "kind \<in> set knownKinds"
  shows "threshold_of kind (EffectiveThresholds d rules) =
    latest (filter (\<lambda>r. ru_Enabled r \<and> ru_Kind r = kind \<and> ru_InstanceID r = Some inst) (ad_rules s))
      (latest (filter (\<lambda>r. ru_Enabled r \<and> ru_Kind r = kind \<and> ru_InstanceID r = None) (ad_rules s)) (threshold_of kind d))"
proof -
  have rules: "rules = (let rs = filter (\<lambda>r. ru_Enabled r \<and> (ru_InstanceID r = None \<or> ru_InstanceID r = Some inst)) (ad_rules s)
      in filter (\<lambda>r. ru_InstanceID r = None) rs @ filter (\<lambda>r. ru_InstanceID r \<noteq> None) rs)"
    using assms(1) by (auto simp: ListEffective_def alert_stmt_def Let_def split: list.splits if_splits)
  have "filter (\<lambda>r. ru_Enabled r \<and> ru_Kind r = kind) rules =
      filter (\<lambda>r. ru_Enabled r \<and> ru_Kind r = kind \<and> ru_InstanceID r = None) (ad_rules s) @
      filter (\<lambda>r. ru_Enabled r \<and> ru_Kind r = kind \<and> ru_InstanceID r = Some inst) (ad_rules s)"
    unfolding rules Let_def by (auto intro!: arg_cong2 [where f = "(@)"] filter_cong)
  then show ?thesis unfolding effective_latest [OF assms(2)] by (simp add: latest_def)
qed

section \<open>Witnesses\<close>

definition demo_floats :: "int float_ops" where
  "demo_floats = \<lparr>f_less = (<), f_lit = (\<lambda>n. n), f_isNaN = (\<lambda>_. False), f_isInf = (\<lambda>_. False), f_fmt = (\<lambda>_. Itoa)\<rparr>"

definition demo_rule :: "string \<Rightarrow> string option \<Rightarrow> int \<Rightarrow> int Rule" where
  "demo_rule rid inst th = \<lparr>ru_ID = rid, ru_InstanceID = inst, ru_Kind = KindReplicationLag, ru_Threshold = th,
     ru_Severity = SeverityWarning, ru_Enabled = True\<rparr>"

definition demo_alert :: "string \<Rightarrow> string \<Rightarrow> int Alert" where
  "demo_alert inst kind = \<lparr>al_ID = inst @ kind, al_InstanceID = inst, al_Kind = kind, al_Severity = SeverityWarning,
     al_State = StateFiring, al_Message = [], al_Value = 0, al_Threshold = 0, al_FiredAt = 0, al_ResolvedAt = None, al_UpdatedAt = 0\<rparr>"

definition demo_alert_db :: "int alert_db" where
  "demo_alert_db = \<lparr>ad_faults = [], ad_uuids = (\<lambda>n. show_nat n), ad_next = 0, ad_instances = [''i1'', ''i2''],
     ad_alerts = [demo_alert ''i1'' KindDiskFull, demo_alert ''i2'' KindDiskFull],
     ad_rules = [demo_rule ''r1'' (Some ''i1'') 60, demo_rule ''r2'' None 120]\<rparr>"

definition demo_lag :: "int Finding list" where
  "demo_lag = Evaluate demo_floats \<lparr>sn_InstanceID = ''i1'', DiskFreePercent = None, ReplicationLagSeconds = Some 1000,
     BackupAgeSeconds = None, ConnectionUtilizationPercent = Some 50\<rparr> (DefaultThresholds demo_floats)"

text \<open>A rule of the instance counts although a global one was created after it.\<close>

theorem effective_precedence_witness:
  "\<exists>rules s'. ListEffective ''i1'' demo_alert_db = (Inr rules, s') \<and>
     threshold_of KindReplicationLag (EffectiveThresholds (DefaultThresholds demo_floats) rules) = 60"
proof -
  obtain rules s' where run: "ListEffective ''i1'' demo_alert_db = (Inr rules, s')"
    by (simp add: ListEffective_def alert_stmt_def demo_alert_db_def Let_def)
  have k: "KindReplicationLag \<in> set knownKinds" by (simp add: knownKinds_def)
  have "threshold_of KindReplicationLag (EffectiveThresholds (DefaultThresholds demo_floats) rules) = 60"
    unfolding effective_precedence [OF run k] by (simp add: demo_alert_db_def demo_rule_def latest_def)
  with run show ?thesis by blast
qed

text \<open>Lag starts to fire for one instance while its full disk is resolved; the other's stays.\<close>

theorem alerts_Sync_refines_witness:
  "\<exists>ts s'. alerts_Sync ''i1'' demo_lag 7 demo_alert_db = (Inr ts, s') \<and>
     set (fkeys s') = {(''i2'', KindDiskFull), (''i1'', KindReplicationLag)} \<and> length ts = 2"
proof -
  have "(case alerts_Sync ''i1'' demo_lag 7 demo_alert_db of (Inr ts, s') \<Rightarrow> length ts = 2 | _ \<Rightarrow> False)" by code_simp
  then obtain ts s' where run: "alerts_Sync ''i1'' demo_lag 7 demo_alert_db = (Inr ts, s')" "length ts = 2"
    by (auto split: prod.splits sum.splits)
  have k: "fi_Kind ` set demo_lag = {KindReplicationLag}"
    by (simp add: demo_lag_def Evaluate_def known_def lag_finding_def connection_finding_def DefaultThresholds_def demo_floats_def)
  have d: "fkeys demo_alert_db = [(''i1'', KindDiskFull), (''i2'', KindDiskFull)]"
    by (simp add: fkeys_def demo_alert_db_def demo_alert_def)
  then have "distinct (fkeys demo_alert_db)" by simp
  from alerts_Sync_refines [OF run(1) this] have "set (fkeys s') = {x \<in> set (fkeys demo_alert_db). fst x \<noteq> ''i1''} \<union> {''i1''} \<times> {KindReplicationLag}"
    by (simp add: sync_spec_def k)
  also have "\<dots> = {(''i2'', KindDiskFull), (''i1'', KindReplicationLag)}" unfolding d by auto
  finally show ?thesis using run by blast
qed

end
