(* ===== verification/Health.thy ===== *)
theory Health
  imports BackupSvc
begin

text \<open>
  Package \<^verbatim>\<open>internal/health\<close> and its handler \<^verbatim>\<open>internal/api/health_api.go\<close>: the
  assessment of one instance (archiving, age of the newest backup, size of \<^verbatim>\<open>pg_wal\<close>) and
  the table of the latest reports.

  Durations and times are in nanoseconds; a backup's stop time is in seconds since the epoch,
  with \<open>None\<close> for the zero time. \<open>to_secs\<close> is \<^verbatim>\<open>int64(d.Seconds())\<close>, which goes through a
  floating-point number.
\<close>

section \<open>Durations (time)\<close>

definition maxInt64 :: int where "maxInt64 = 2 ^ 63 - 1"

definition sat64 :: "int \<Rightarrow> int" where
  "sat64 d = (if d > maxInt64 then maxInt64 else if d < - (2 ^ 63) then - (2 ^ 63) else d)"

text \<open>\<^verbatim>\<open>Duration.Round\<close>: to a multiple of \<open>m\<close>, half away from zero, saturating. Go's
  remainder has the sign of the dividend.\<close>

definition duration_Round :: "int \<Rightarrow> int \<Rightarrow> int" where
  "duration_Round d m =
     (if m \<le> 0 then d
      else let r = \<bar>d\<bar> mod m in
        if d < 0 then if 2 * r < m then d + r else sat64 (d - m + r)
        else if 2 * r < m then d - r else sat64 (d + m - r))"

text \<open>\<^verbatim>\<open>Duration.String\<close> for durations of at least a second, or zero; a rounded one is no other. The
  fraction of the seconds is written without trailing zeros.\<close>

definition frac_digits :: "nat \<Rightarrow> string" where
  "frac_digits ns =
     (let ds = show_nat ns; padded = replicate (9 - length ds) CHR ''0'' @ ds
      in if ns = 0 then [] else CHR ''.'' # rev (dropWhile (\<lambda>c. c = CHR ''0'') (rev padded)))"

definition duration_String :: "int \<Rightarrow> string" where
  "duration_String d =
     (let u = nat \<bar>d\<bar>; secs = u div 10 ^ 9; mins = secs div 60; hours = mins div 60 in
      if u = 0 then ''0s''
      else (if d < 0 then [CHR ''-''] else []) @
        (if hours > 0 then show_nat hours @ ''h'' else []) @
        (if mins > 0 then show_nat (mins mod 60) @ ''m'' else []) @
        show_nat (secs mod 60) @ frac_digits (u mod 10 ^ 9) @ ''s'')"

section \<open>Reports and thresholds (health.go)\<close>

record Report =
  rp_InstanceID :: string
  rp_ArchivingOK :: bool
  rp_HasBackup :: bool
  rp_LastBackupAge :: int
  rp_WALBytes :: int
  rp_DrillRan :: bool
  rp_DrillOK :: bool
  rp_Issues :: "string list"
  rp_CheckedAt :: int

definition report_Healthy :: "Report \<Rightarrow> bool" where
  "report_Healthy r \<longleftrightarrow> length (rp_Issues r) = 0"

record health_Thresholds =
  ht_MaxBackupAge :: int
  ht_MaxWALBytes :: int

definition health_DefaultThresholds :: health_Thresholds where
  "health_DefaultThresholds = \<lparr>ht_MaxBackupAge = 25 * 3600 * second, ht_MaxWALBytes = 2 * 2 ^ 30\<rparr>"

record 'e Checker =
  ck_rt :: "'e host"
  ck_thresholds :: health_Thresholds

text \<open>\<^verbatim>\<open>strings.Fields\<close>: the first field of a string without leading space.\<close>

fun first_field :: "string \<Rightarrow> string" where
  "first_field [] = []"
| "first_field (c # cs) = (if leading_space (c # cs) = None then c # first_field cs else [])"

definition parseDuBytes :: "string \<Rightarrow> int" where
  "parseDuBytes out =
     (let s = TrimSpace out; f = first_field s in
      if s = [] then 0
      else case ParseInt f of
          Inl err \<Rightarrow> if err = ErrRange \<and> \<not> HasPrefix f ''-'' then maxInt64 else 0
        | Inr n \<Rightarrow> if n < 0 then 0 else n)"

text \<open>The loop over the backups: the newest stop time, the zero time at first.\<close>

definition later :: "gotime \<Rightarrow> gotime \<Rightarrow> gotime" where
  "later newest t = (case t of
       None \<Rightarrow> newest
     | Some x \<Rightarrow> (case newest of None \<Rightarrow> Some x | Some y \<Rightarrow> if x > y then Some x else newest))"

definition newest_stop :: "BackupInfo list \<Rightarrow> gotime" where
  "newest_stop bs = fold (\<lambda>b newest. later newest (b_StopTime b)) bs None"

definition check_archiving :: "goerr + exec_result \<Rightarrow> Report \<Rightarrow> Report" where
  "check_archiving res r = (case res of
       Inr x \<Rightarrow> if ExitCode x = 0 then r\<lparr>rp_ArchivingOK := True\<rparr>
                else r\<lparr>rp_Issues := rp_Issues r @ [''WAL archiving check is failing'']\<rparr>
     | Inl _ \<Rightarrow> r\<lparr>rp_Issues := rp_Issues r @ [''WAL archiving check is failing'']\<rparr>)"

definition check_freshness :: "health_Thresholds \<Rightarrow> int \<Rightarrow> BackupInfo list \<Rightarrow> Report \<Rightarrow> Report" where
  "check_freshness th now bs r =
     (if bs = [] then r\<lparr>rp_Issues := rp_Issues r @ [''no backups exist'']\<rparr>
      else case newest_stop bs of
          None \<Rightarrow> r\<lparr>rp_HasBackup := True, rp_Issues := rp_Issues r @ [''no completed backup yet'']\<rparr>
        | Some t \<Rightarrow>
            let age = sat64 (now - t * second) in
            if age > ht_MaxBackupAge th then
              r\<lparr>rp_HasBackup := True, rp_LastBackupAge := age, rp_Issues := rp_Issues r @
                [''last backup is '' @ duration_String (duration_Round age (60 * second)) @ '' old'']\<rparr>
            else r\<lparr>rp_HasBackup := True, rp_LastBackupAge := age\<rparr>)"

definition check_wal :: "health_Thresholds \<Rightarrow> goerr + exec_result \<Rightarrow> Report \<Rightarrow> Report" where
  "check_wal th res r =
     (let failed = r\<lparr>rp_Issues := rp_Issues r @ [''pg_wal probe failed'']\<rparr> in
      case res of
        Inr x \<Rightarrow>
          if ExitCode x = 0 then
            let n = parseDuBytes (Stdout x) in
            if ht_MaxWALBytes th > 0 \<and> n > ht_MaxWALBytes th then
              r\<lparr>rp_WALBytes := n, rp_Issues := rp_Issues r @ [''pg_wal is large; archiving may be stalled'']\<rparr>
            else r\<lparr>rp_WALBytes := n\<rparr>
          else failed
      | Inl _ \<Rightarrow> failed)"

definition new_report :: "string \<Rightarrow> int \<Rightarrow> Report" where
  "new_report instanceID now = \<lparr>rp_InstanceID = instanceID, rp_ArchivingOK = False, rp_HasBackup = False, rp_LastBackupAge = 0,
     rp_WALBytes = 0, rp_DrillRan = False, rp_DrillOK = False, rp_Issues = [], rp_CheckedAt = now\<rparr>"

definition health_Check :: "'e Checker \<Rightarrow> string \<Rightarrow> ('e world, Report) gofun" where
  "health_Check c instanceID =
     (let h = ck_rt c; th = ck_thresholds c in
      bindE (onD (instance_Get instanceID)) (\<lambda>inst.
      withS (\<lambda>w0.
      let r0 = new_report instanceID (Now h (env w0)) in
      attempt (onE (Exec h (i_ContainerID inst) (asPostgres (Check (i_Stanza inst) confPath)))) (\<lambda>res.
      bindE (onD (catalog_List instanceID)) (\<lambda>bs.
      withS (\<lambda>w1.
      attempt (onE (Exec h (i_ContainerID inst) [''du'', ''-sb'', pgDataPath @ ''/pg_wal''])) (\<lambda>du.
      ret (check_wal th du (check_freshness th (Now h (env w1)) bs (check_archiving res r0))))))))))"

section \<open>The table of reports (store.go)\<close>

record health_db =
  hs_faults :: "bool list"
  hs_known :: "string list"
  hs_now :: int
  hs_rows :: "Report list"

definition hstmt :: "string \<Rightarrow> (health_db, 'a) gofun \<Rightarrow> (health_db, 'a) gofun" where
  "hstmt msg m s = (case hs_faults s of
       [] \<Rightarrow> m s
     | bad # fs \<Rightarrow>
         if bad then (Inl (Wrap KindInternal msg (Plain ''statement failed'')), s\<lparr>hs_faults := fs\<rparr>)
         else m (s\<lparr>hs_faults := fs\<rparr>))"

text \<open>\<^verbatim>\<open>INSERT ... ON CONFLICT (instance_id) DO UPDATE\<close>, with the foreign key.\<close>

definition on_conflict :: "string \<Rightarrow> Report \<Rightarrow> (Report \<Rightarrow> Report) \<Rightarrow> (health_db, unit) gofun" where
  "on_conflict msg row up s =
     (if rp_InstanceID row \<in> rp_InstanceID ` set (hs_rows s) then
        (Inr (), s\<lparr>hs_rows := map (\<lambda>r. if rp_InstanceID r = rp_InstanceID row then up r else r) (hs_rows s)\<rparr>)
      else if rp_InstanceID row \<notin> set (hs_known s) then (Inl (Wrap KindInternal msg (Plain ''23503'')), s)
      else (Inr (), s\<lparr>hs_rows := hs_rows s @ [row]\<rparr>))"

text \<open>The column keeps whole seconds; \<open>rp_LastBackupAge\<close> of a row is that number of seconds as a duration.\<close>

definition health_Upsert :: "(int \<Rightarrow> int) \<Rightarrow> Report \<Rightarrow> (health_db, unit) gofun" where
  "health_Upsert to_secs r =
     (let row = r\<lparr>rp_LastBackupAge := to_secs (rp_LastBackupAge r) * second\<rparr>
      in hstmt ''health: upsert'' (on_conflict ''health: upsert'' row (\<lambda>_. row)))"

definition UpdateDrill :: "string \<Rightarrow> bool \<Rightarrow> (health_db, unit) gofun" where
  "UpdateDrill instanceID ok = hstmt ''health: update drill'' (\<lambda>s.
     on_conflict ''health: update drill'' \<lparr>rp_InstanceID = instanceID, rp_ArchivingOK = False, rp_HasBackup = False,
         rp_LastBackupAge = 0, rp_WALBytes = 0, rp_DrillRan = True, rp_DrillOK = ok, rp_Issues = [], rp_CheckedAt = hs_now s\<rparr>
       (\<lambda>r. r\<lparr>rp_DrillRan := True, rp_DrillOK := ok\<rparr>) s)"

definition health_List :: "(health_db, Report list) gofun" where
  "health_List = hstmt ''health: list'' (\<lambda>s. (Inr (hs_rows s), s))"

section \<open>The fleet view (api/health\_api.go)\<close>

definition health_alerts :: "Report list \<Rightarrow> (string \<times> string) list" where
  "health_alerts reports = concat (map (\<lambda>rep. map (Pair (rp_InstanceID rep)) (rp_Issues rep)) reports)"

definition HealthHandler_List :: "(health_db, Report list \<times> (string \<times> string) list) gofun" where
  "HealthHandler_List = bindE health_List (\<lambda>reports. ret (reports, health_alerts reports))"

section \<open>Sizes\<close>

lemma first_field_stop:
  assumes "\<And>a b. s = a @ b \<Longrightarrow> b \<noteq> [] \<Longrightarrow> leading_space (b @ t) = None" "leading_space t \<noteq> None"
  shows "first_field (s @ t) = s"
  using assms
proof (induction s)
  case Nil
  then show ?case by (cases t) auto
next
  case (Cons c s)
  have "leading_space (c # s @ t) = None" using Cons.prems(1) [of "[]" "c # s"] by simp
  moreover have "first_field (s @ t) = s"
    by (rule Cons.IH) (use Cons.prems in \<open>auto intro: Cons.prems(1) [of "c # _"]\<close>)
  ultimately show ?case by simp
qed

lemma digit_no_space:
  assumes "is_digit c"
  shows "leading_space (c # cs) = None"
proof (rule ccontr)
  assume "leading_space (c # cs) \<noteq> None"
  then obtain r where r: "r \<in> set space_runes" "HasPrefix (c # cs) r"
    by (auto simp: leading_space_def dest: find_SomeD)
  have all: "\<forall>r\<in>set space_runes. r \<noteq> [] \<and> \<not> is_digit (hd r)" by code_simp
  then have "r \<noteq> []" using r(1) by blast
  with r(2) have "c = hd r" unfolding HasPrefix_def by (cases r) simp_all
  with all r(1) assms show False by blast
qed

lemma first_field_digits: "list_all is_digit s \<Longrightarrow> first_field s = s"
  by (induction s) (simp_all add: digit_no_space)

lemma show_nat_overflow: "lim < n \<Longrightarrow> parse_digits lim 0 (show_nat n) = Inl ErrRange"
proof (induction n rule: show_nat.induct)
  case (1 n)
  have d: "is_digit (digit_char (n mod 10))" "digit_val (digit_char (n mod 10)) = n mod 10"
    by (simp_all add: is_digit_digit_char digit_val_digit_char)
  show ?case
  proof (cases "n < 10")
    case True
    with 1(2) d show ?thesis by (subst show_nat.simps) simp
  next
    case False
    then have n: "show_nat n = show_nat (n div 10) @ [digit_char (n mod 10)]" by (subst show_nat.simps) simp
    show ?thesis
    proof (cases "lim < n div 10")
      case True
      with 1(1) [OF False] n show ?thesis by (simp add: parse_digits_append)
    next
      case f: False
      then have "parse_digits lim 0 (show_nat (n div 10)) = Inr (n div 10)" by (simp add: parse_digits_show)
      moreover have "10 * (n div 10) + n mod 10 = n" by simp
      ultimately show ?thesis using n d 1(2) by (simp add: parse_digits_append)
    qed
  qed
qed

lemma ParseInt_show: "ParseInt (show_nat n) = (if n < 2 ^ 63 then Inr (int n) else Inl ErrRange)"
proof -
  have hd: "hd (show_nat n) \<noteq> CHR ''-'' \<and> hd (show_nat n) \<noteq> CHR ''+''"
    using show_nat_digits [of n] by (cases "show_nat n") (auto simp: is_digit_def byte_val_def)
  have "ParseUint (show_nat n) = (if n \<le> 2 ^ 64 - 1 then Inr n else Inl ErrRange)"
    using parse_digits_show [of n "2 ^ 64 - 1"] show_nat_overflow [of "2 ^ 64 - 1" n] by (simp add: ParseUint_def not_le)
  with hd show ?thesis by (simp add: ParseInt_def Let_def)
qed

lemma no_digit_prefix: "\<not> HasPrefix (show_nat n) ''-''"
  using show_nat_digits [of n] by (cases "show_nat n") (auto simp: HasPrefix_def is_digit_def byte_val_def)

lemma first_field_number: "first_field (show_nat n @ tab # path) = show_nat n"
proof (rule first_field_stop)
  fix a b assume "show_nat n = a @ b" "b \<noteq> []"
  then show "leading_space (b @ tab # path) = None"
    using show_nat_digits [of n] by (cases b) (auto simp: digit_no_space)
next
  have "[tab] \<in> set space_runes" by code_simp
  then show "leading_space (tab # path) \<noteq> None"
    by (auto simp: leading_space_def find_None_iff HasPrefix_def intro!: bexI [of _ "[tab]"])
qed

lemma TrimRight_keeps:
  assumes "is_digit c"
  shows "\<exists>t. TrimRightSpace (a @ c # b) = a @ c # t \<and> (\<exists>u. b = t @ u)"
proof (induction "length b" arbitrary: b rule: less_induct)
  case less
  show ?case
  proof (cases "trailing_space (a @ c # b)")
    case None
    then show ?thesis by (subst TrimRightSpace.simps) simp
  next
    case (Some r)
    then have r: "r \<in> set space_runes" "HasPrefix (rev (a @ c # b)) (rev r)" by (auto simp: trailing_space_def dest: find_SomeD)
    have all: "\<forall>r\<in>set space_runes. r \<noteq> [] \<and> list_all (\<lambda>c. \<not> is_digit c) r" by code_simp
    obtain s' where "rev (a @ c # b) = rev r @ rev s'" using r(2) by (metis HasPrefix_iff rev_rev_ident)
    then have s': "a @ c # b = s' @ r" by (metis rev_append rev_is_rev_conv)
    have "c \<notin> set r" using all r(1) assms by (auto simp: list_all_iff)
    with s' obtain b' where b': "b = b' @ r" "s' = a @ c # b'"
      by (auto simp: append_eq_append_conv2 append_eq_Cons_conv Cons_eq_append_conv)
    have "r \<noteq> []" using all r(1) by blast
    with b' less [of b'] obtain t u where t: "TrimRightSpace (a @ c # b') = a @ c # t" "b' = t @ u" by auto
    have "TrimRightSpace (a @ c # b) = TrimRightSpace (a @ c # b')"
      using Some b'(1) by (subst TrimRightSpace.simps) simp
    with t b' show ?thesis by auto
  qed
qed

lemma TrimSpace_number: "\<exists>t. TrimSpace (show_nat n @ tab # path) = show_nat n @ t \<and> (t = [] \<or> (\<exists>t'. t = tab # t'))"
proof -
  obtain a c where ac: "show_nat n = a @ [c]" "is_digit c"
    using show_nat_digits [of n] by (cases "show_nat n" rule: rev_cases) (auto simp: list_all_iff)
  have "leading_space (show_nat n @ tab # path) = None"
    using show_nat_digits [of n] by (cases "show_nat n") (auto simp: digit_no_space)
  then have "TrimLeftSpace (show_nat n @ tab # path) = show_nat n @ tab # path" by (subst TrimLeftSpace.simps) simp
  then have "TrimSpace (show_nat n @ tab # path) = TrimRightSpace (a @ c # tab # path)"
    by (simp add: TrimSpace_def ac(1))
  moreover obtain t u where "TrimRightSpace (a @ c # tab # path) = a @ c # t" "tab # path = t @ u"
    using TrimRight_keeps [OF ac(2)] by blast
  ultimately show ?thesis using ac(1) by (cases t) auto
qed

text \<open>
  The size that \<^verbatim>\<open>du -sb\<close> reports is read exactly when it fits, and as the largest 64-bit integer
  otherwise, never as zero, so a huge \<^verbatim>\<open>pg_wal\<close> still trips the threshold; whatever the output, the
  result is a non-negative 64-bit integer.
\<close>

theorem parseDuBytes_saturates:
  "parseDuBytes (show_nat n @ tab # path) = min (int n) maxInt64 \<and> 0 \<le> parseDuBytes out \<and> parseDuBytes out \<le> maxInt64"
proof -
  obtain t where t: "TrimSpace (show_nat n @ tab # path) = show_nat n @ t" "t = [] \<or> (\<exists>t'. t = tab # t')"
    using TrimSpace_number by blast
  have "first_field (show_nat n @ t) = show_nat n"
    using t(2) first_field_number first_field_digits [OF show_nat_digits] by auto
  with t(1) have "parseDuBytes (show_nat n @ tab # path) = min (int n) maxInt64"
    by (simp add: parseDuBytes_def ParseInt_show no_digit_prefix maxInt64_def)
  moreover have "0 \<le> parseDuBytes out \<and> parseDuBytes out \<le> maxInt64"
    using ParseInt_range [of "first_field (TrimSpace out)"]
    by (auto simp: parseDuBytes_def maxInt64_def Let_def split: sum.splits)
  ultimately show ?thesis by blast
qed

section \<open>The assessment\<close>

lemma later_None: "later newest t = None \<longleftrightarrow> newest = None \<and> t = None"
  by (auto simp: later_def split: option.splits)

lemma newest_fold:
  "fold (\<lambda>b newest. later newest (b_StopTime b)) bs m0 = Some t \<longleftrightarrow>
     (m0 = Some t \<or> Some t \<in> b_StopTime ` set bs) \<and> (\<forall>x. m0 = Some x \<or> Some x \<in> b_StopTime ` set bs \<longrightarrow> x \<le> t)"
proof (induction bs arbitrary: m0)
  case Nil
  then show ?case by auto
next
  case (Cons b bs)
  have "(later m0 (b_StopTime b) = Some t \<or> Some t \<in> b_StopTime ` set bs) \<and>
      (\<forall>x. later m0 (b_StopTime b) = Some x \<or> Some x \<in> b_StopTime ` set bs \<longrightarrow> x \<le> t) \<longleftrightarrow>
    (m0 = Some t \<or> Some t \<in> b_StopTime ` set (b # bs)) \<and>
      (\<forall>x. m0 = Some x \<or> Some x \<in> b_StopTime ` set (b # bs) \<longrightarrow> x \<le> t)"
    by (cases m0; cases "b_StopTime b") (force simp: later_def split: if_splits)+
  with Cons.IH show ?case by simp
qed

lemma newest_none: "fold (\<lambda>b newest. later newest (b_StopTime b)) bs m0 = None \<longleftrightarrow> m0 = None \<and> (\<forall>b\<in>set bs. b_StopTime b = None)"
  by (induction bs arbitrary: m0) (auto simp: later_None)

lemma sat64_mono: "x \<le> y \<Longrightarrow> sat64 x \<le> sat64 y"
  by (auto simp: sat64_def maxInt64_def)

definition fresh :: "health_Thresholds \<Rightarrow> int \<Rightarrow> BackupInfo \<Rightarrow> bool" where
  "fresh th now b \<longleftrightarrow> (\<exists>t. b_StopTime b = Some t \<and> sat64 (now - t * second) \<le> ht_MaxBackupAge th)"

lemma freshness_issues:
  "rp_Issues (check_freshness th now bs r) = rp_Issues r \<longleftrightarrow> (\<exists>b\<in>set bs. fresh th now b)"
proof (cases "newest_stop bs")
  case None
  then have "\<forall>b\<in>set bs. b_StopTime b = None" by (simp add: newest_stop_def newest_none)
  with None show ?thesis by (auto simp: check_freshness_def fresh_def)
next
  case (Some t)
  then have t: "Some t \<in> b_StopTime ` set bs" "\<forall>x. Some x \<in> b_StopTime ` set bs \<longrightarrow> x \<le> t"
    by (simp_all add: newest_stop_def newest_fold)
  have "sat64 (now - t * second) \<le> sat64 (now - x * second)" if "Some x \<in> b_StopTime ` set bs" for x
    using t(2) that by (intro sat64_mono) (simp add: second_def)
  with t(1) have "(\<exists>b\<in>set bs. fresh th now b) \<longleftrightarrow> sat64 (now - t * second) \<le> ht_MaxBackupAge th"
    unfolding fresh_def by (force simp: image_iff)
  with Some t(1) show ?thesis by (auto simp: check_freshness_def Let_def)
qed

lemma issues_grow:
  "\<exists>xs. rp_Issues (check_freshness th now bs r) = rp_Issues r @ xs"
  by (auto simp: check_freshness_def Let_def split: option.splits)

definition exec_ok :: "goerr + exec_result \<Rightarrow> bool" where
  "exec_ok res \<longleftrightarrow> (\<exists>x. res = Inr x \<and> ExitCode x = 0)"

definition wal_ok :: "health_Thresholds \<Rightarrow> goerr + exec_result \<Rightarrow> bool" where
  "wal_ok th du \<longleftrightarrow> (\<exists>x. du = Inr x \<and> ExitCode x = 0 \<and> (ht_MaxWALBytes th > 0 \<longrightarrow> parseDuBytes (Stdout x) \<le> ht_MaxWALBytes th))"

lemma archiving_issues: "rp_Issues (check_archiving res r) = (if exec_ok res then rp_Issues r else rp_Issues r @ [''WAL archiving check is failing''])"
  by (auto simp: check_archiving_def exec_ok_def split: sum.splits)

lemma wal_issues: "rp_Issues (check_wal th du r) = rp_Issues r \<longleftrightarrow> wal_ok th du"
  "\<exists>xs. rp_Issues (check_wal th du r) = rp_Issues r @ xs"
  by (auto simp: check_wal_def wal_ok_def Let_def split: sum.splits)

lemma report_healthy_iff:
  assumes "rp_Issues r0 = []"
  shows "report_Healthy (check_wal th du (check_freshness th now bs (check_archiving res r0))) \<longleftrightarrow>
    exec_ok res \<and> (\<exists>b\<in>set bs. fresh th now b) \<and> wal_ok th du"
proof -
  let ?r1 = "check_archiving res r0" let ?r2 = "check_freshness th now bs ?r1" let ?r3 = "check_wal th du ?r2"
  have r1: "rp_Issues ?r1 = [] \<longleftrightarrow> exec_ok res" by (simp add: archiving_issues assms)
  obtain xs where "rp_Issues ?r2 = rp_Issues ?r1 @ xs" using issues_grow by blast
  then have r2: "rp_Issues ?r2 = [] \<longleftrightarrow> exec_ok res \<and> (\<exists>b\<in>set bs. fresh th now b)"
    using freshness_issues [of th now bs ?r1] r1 by auto
  obtain ys where "rp_Issues ?r3 = rp_Issues ?r2 @ ys" using wal_issues(2) by blast
  then have "rp_Issues ?r3 = [] \<longleftrightarrow> rp_Issues ?r2 = [] \<and> wal_ok th du" using wal_issues(1) [of th du ?r2] by auto
  with r2 show ?thesis by (auto simp: report_Healthy_def)
qed

lemma catalog_List_set: "catalog_List iid d = (Inr bs, d') \<Longrightarrow> set bs = {b. (iid, b) \<in> set (backups d)}"
  by (force simp: catalog_List_def stmt_def split: list.splits if_splits)

text \<open>
  An instance is reported healthy exactly when the archiving check ran and exited with 0, some
  completed backup of it in the catalog is no older than the threshold, and the probe of
  \<^verbatim>\<open>pg_wal\<close> ran, exited with 0 and found a size within its threshold. A probe that fails, in
  whichever way, is an issue, never silence.
\<close>

theorem Check_healthy_iff:
  assumes "health_Check c iid w = (Inr r, w')"
  shows "\<exists>inst res e1 du e2. find_instance (db w) iid = Some inst \<and>
    Exec (ck_rt c) (i_ContainerID inst) (asPostgres (Check (i_Stanza inst) confPath)) (env w) = (res, e1) \<and>
    Exec (ck_rt c) (i_ContainerID inst) [''du'', ''-sb'', pgDataPath @ ''/pg_wal''] e1 = (du, e2) \<and>
    (report_Healthy r \<longleftrightarrow> exec_ok res \<and>
       (\<exists>b. (iid, b) \<in> set (backups (db w)) \<and> fresh (ck_thresholds c) (Now (ck_rt c) e1) b) \<and> wal_ok (ck_thresholds c) du)"
proof -
  let ?h = "ck_rt c"
  obtain inst w1 where g: "onD (instance_Get iid) w = (Inr inst, w1)"
    using assms by (auto simp: health_Check_def Let_def elim!: bindE_Inr)
  have w1: "env w1 = env w" "backups (db w1) = backups (db w)" "find_instance (db w) iid = Some inst"
    using g by (auto simp: onD_def instance_Get_def queryOne_def find_instance_def stmt_def
        split: prod.splits list.splits if_splits option.splits)
  obtain res e1 where x1: "Exec ?h (i_ContainerID inst) (asPostgres (Check (i_Stanza inst) confPath)) (env w) = (res, e1)" by fastforce
  obtain du e2 where x2: "Exec ?h (i_ContainerID inst) [''du'', ''-sb'', pgDataPath @ ''/pg_wal''] e1 = (du, e2)" by fastforce
  let ?r0 = "new_report iid (Now ?h (env w))"
  have "\<exists>bs d'. catalog_List iid (db w1) = (Inr bs, d') \<and>
      r = check_wal (ck_thresholds c) du (check_freshness (ck_thresholds c) (Now ?h e1) bs (check_archiving res ?r0))"
    using assms g x1 x2 w1(1)
    by (auto simp: health_Check_def Let_def prog_run onE_def onD_def split: prod.splits sum.splits)
  then obtain bs d' where "catalog_List iid (db w1) = (Inr bs, d')"
    "r = check_wal (ck_thresholds c) du (check_freshness (ck_thresholds c) (Now ?h e1) bs (check_archiving res ?r0))" by blast
  moreover have "rp_Issues ?r0 = []" by (simp add: new_report_def)
  ultimately show ?thesis
    using x1 x2 w1 report_healthy_iff [of ?r0 "ck_thresholds c" du "Now ?h e1" bs res] catalog_List_set [of iid "db w1" bs d']
    by (intro exI [of _ inst] exI [of _ res] exI [of _ e1] exI [of _ du] exI [of _ e2]) auto
qed

definition demo_checker :: "fake_env Checker" where
  "demo_checker = \<lparr>ck_rt = bs_rt demo_backup_service, ck_thresholds = health_DefaultThresholds\<rparr>"

theorem Check_healthy_iff_witness:
  "\<exists>r w'. health_Check demo_checker ''i1'' demo_catalog_world = (Inr r, w') \<and>
     (report_Healthy r \<longrightarrow> (\<exists>b. (''i1'', b) \<in> set (backups (db demo_catalog_world)) \<and>
        fresh health_DefaultThresholds 0 b))"
proof -
  have "\<not> isl (fst (health_Check demo_checker ''i1'' demo_catalog_world))"
    by (simp add: health_Check_def demo_checker_def demo_backup_service_def demo_catalog_world_def demo_running_world_def
        demo_running_env_def demo_running_def demo_db_def demo_instance_def prog_run fake_run onE_def onD_def instance_Get_def
        queryOne_def stmt_def catalog_List_def Let_def)
  then obtain r w' where run: "health_Check demo_checker ''i1'' demo_catalog_world = (Inr r, w')"
    by (cases "health_Check demo_checker ''i1'' demo_catalog_world"; cases "fst (health_Check demo_checker ''i1'' demo_catalog_world)") auto
  from Check_healthy_iff [OF run] obtain inst :: Instance and res e1 du where
    x: "Exec (ck_rt demo_checker) (i_ContainerID inst) (asPostgres (Check (i_Stanza inst) confPath)) (env demo_catalog_world) = (res, e1)"
    and h: "report_Healthy r \<longleftrightarrow> exec_ok res \<and> (\<exists>b. (''i1'', b) \<in> set (backups (db demo_catalog_world)) \<and>
      fresh (ck_thresholds demo_checker) (Now (ck_rt demo_checker) e1) b) \<and> wal_ok (ck_thresholds demo_checker) du"
    by blast
  from x have "snd e1 = snd (env demo_catalog_world)"
    by (auto simp: demo_checker_def demo_backup_service_def fake_host_def on_fake_def split: prod.splits)
  then have "Now (ck_rt demo_checker) e1 = 0"
    by (cases e1) (simp add: demo_checker_def demo_backup_service_def fake_host_def demo_catalog_world_def demo_running_world_def
        demo_running_env_def plain_process_def)
  with h run show ?thesis by (auto simp: demo_checker_def)
qed

section \<open>The stored reports\<close>

text \<open>A successful write leaves one row per instance, changes no other instance's row, and a drill's
  outcome leaves the rest of the report as the check wrote it.\<close>

definition row_of_health :: "string \<Rightarrow> health_db \<Rightarrow> Report option" where
  "row_of_health iid s = find (\<lambda>r. rp_InstanceID r = iid) (hs_rows s)"

lemma find_map_same:
  assumes "\<And>r. rp_InstanceID (up r) = rp_InstanceID r"
  shows "find (\<lambda>r. rp_InstanceID r = j) (map (\<lambda>r. if rp_InstanceID r = iid then up r else r) rows) =
    map_option (if j = iid then up else id) (find (\<lambda>r. rp_InstanceID r = j) rows)"
  by (induction rows) (auto simp: assms)

lemma UpdateDrill_keeps_report:
  assumes "row_of_health iid s = Some r" "UpdateDrill iid ok s = (Inr (), s')"
  shows "row_of_health j s' = (if j = iid then Some (r\<lparr>rp_DrillRan := True, rp_DrillOK := ok\<rparr>) else row_of_health j s)"
proof -
  have "iid \<in> rp_InstanceID ` set (hs_rows s)" using assms(1) by (auto simp: row_of_health_def dest: find_SomeD)
  then have "hs_rows s' = map (\<lambda>r. if rp_InstanceID r = iid then r\<lparr>rp_DrillRan := True, rp_DrillOK := ok\<rparr> else r) (hs_rows s)"
    using assms(2) by (auto simp: UpdateDrill_def hstmt_def on_conflict_def split: list.splits if_splits)
  then show ?thesis using assms(1) by (auto simp: row_of_health_def find_map_same option.map_id)
qed

end
