(* ===== verification/Metrics.thy ===== *)
theory Metrics
  imports Alerts Health PgTools Console
begin

text \<open>
  Package \<^verbatim>\<open>internal/metrics\<close>: the collectors of PostgreSQL and container statistics, the table of
  samples, and the endpoints over it (\<^verbatim>\<open>internal/api/metrics.go\<close>, \<^verbatim>\<open>prometheus.go\<close>).

  Values are floating-point numbers of an abstract type, as in \<open>Alerts\<close>, with the operations the
  package uses. The driver is a record with one field per query, whose text is fixed; a time is
  in nanoseconds since the epoch. \<^verbatim>\<open>time.Parse\<close> of a query parameter is a parameter.
\<close>

section \<open>Samples and their table (metrics.go)\<close>

record 'f metric_ops = "'f float_ops" +
  f_div :: "'f \<Rightarrow> 'f \<Rightarrow> 'f"
  f_mul :: "'f \<Rightarrow> 'f \<Rightarrow> 'f"
  f_g :: "'f \<Rightarrow> string"

record 'f Sample =
  sm_InstanceID :: string
  sm_Metric :: string
  sm_Value :: 'f
  sm_At :: int

text \<open>The rows in the order of their insertion. A batch names an instance that has to exist.\<close>

record 'f metric_db =
  md_faults :: "bool list"
  md_instances :: "string list"
  md_rows :: "'f Sample list"

definition mstmt :: "string \<Rightarrow> ('f metric_db, 'a) gofun \<Rightarrow> ('f metric_db, 'a) gofun" where
  "mstmt msg m s = (case md_faults s of
       [] \<Rightarrow> m s
     | bad # fs \<Rightarrow>
         if bad then (Inl (Wrap KindInternal msg (Plain ''statement failed'')), s\<lparr>md_faults := fs\<rparr>)
         else m (s\<lparr>md_faults := fs\<rparr>))"

definition metrics_Insert :: "'f Sample list \<Rightarrow> ('f metric_db, unit) gofun" where
  "metrics_Insert samples =
     (if samples = [] then ret ()
      else mstmt ''metrics: insert'' (\<lambda>s.
        if sm_InstanceID ` set samples \<subseteq> set (md_instances s) then (Inr (), s\<lparr>md_rows := md_rows s @ samples\<rparr>)
        else (Inl (Wrap KindInternal ''metrics: insert'' (Plain ''23503'')), s)))"

definition metrics_Query :: "string \<Rightarrow> string \<Rightarrow> int \<Rightarrow> int \<Rightarrow> ('f metric_db, 'f Sample list) gofun" where
  "metrics_Query iid metric since until = mstmt ''metrics: query'' (\<lambda>s.
     (Inr (sort_key sm_At (filter (\<lambda>x. sm_InstanceID x = iid \<and> sm_Metric x = metric \<and> since \<le> sm_At x \<and> sm_At x \<le> until) (md_rows s))), s))"

text \<open>\<^verbatim>\<open>DISTINCT ON (metric) ... ORDER BY metric, at DESC\<close>: per metric the sample with the greatest time, of
  several any one, here the last inserted.\<close>

definition newer :: "'f Sample \<Rightarrow> 'f Sample option \<Rightarrow> 'f Sample option" where
  "newer x best = (case best of None \<Rightarrow> Some x | Some y \<Rightarrow> if sm_At y \<le> sm_At x then Some x else Some y)"

definition latest_of :: "'f Sample list \<Rightarrow> string \<Rightarrow> string \<Rightarrow> 'f Sample option" where
  "latest_of rows iid metric = fold newer (filter (\<lambda>x. sm_InstanceID x = iid \<and> sm_Metric x = metric) rows) None"

definition metrics_Latest :: "string \<Rightarrow> ('f metric_db, string \<rightharpoonup> 'f Sample) gofun" where
  "metrics_Latest iid = mstmt ''metrics: latest'' (\<lambda>s. (Inr (latest_of (md_rows s) iid), s))"

definition metrics_Prune :: "int \<Rightarrow> ('f metric_db, unit) gofun" where
  "metrics_Prune before = mstmt ''metrics: prune'' (\<lambda>s. (Inr (), s\<lparr>md_rows := filter (\<lambda>x. before \<le> sm_At x) (md_rows s)\<rparr>))"

section \<open>PostgreSQL statistics (collector.go, insights.go)\<close>

definition checkpointQuery :: "int \<Rightarrow> string" where
  "checkpointQuery serverVersionNum =
     (if 170000 \<le> serverVersionNum then ''SELECT num_timed, num_requested, buffers_written FROM pg_stat_checkpointer''
      else ''SELECT checkpoints_timed, checkpoints_req, buffers_checkpoint FROM pg_stat_bgwriter'')"

record db_stats =
  ds_conns :: int
  ds_active :: int
  ds_dbSize :: int
  ds_xactCommit :: int
  ds_xactRollback :: int
  ds_blksHit :: int
  ds_blksRead :: int
  ds_tupIns :: int
  ds_tupUpd :: int
  ds_tupDel :: int
  ds_deadlocks :: int
  ds_tupReturned :: int
  ds_tupFetched :: int
  ds_tempFiles :: int
  ds_tempBytes :: int
  ds_blkReadTime :: int
  ds_blkWriteTime :: int

record QueryStat_row =
  qs_Query :: string
  qs_Calls :: int
  qs_Rows :: int

record ('f, 'e) stats_driver =
  sd_Connect :: "string \<Rightarrow> ('e, unit) gofun"
  sd_Database :: "string \<Rightarrow> ('e, db_stats) gofun"
  sd_Sessions :: "string \<Rightarrow> ('e, int \<times> int \<times> int \<times> 'f) gofun"
  sd_Locks :: "string \<Rightarrow> ('e, int \<times> int) gofun"
  sd_Version :: "string \<Rightarrow> ('e, int) gofun"
  sd_Checkpoint :: "string \<Rightarrow> string \<Rightarrow> ('e, int \<times> int \<times> int) gofun"
  sd_Wal :: "string \<Rightarrow> ('e, int \<times> int \<times> int) gofun"
  sd_InRecovery :: "string \<Rightarrow> ('e, bool) gofun"
  sd_StandbyLag :: "string \<Rightarrow> ('e, 'f) gofun"
  sd_Replication :: "string \<Rightarrow> ('e, int \<times> 'f) gofun"
  sd_Statements :: "string \<Rightarrow> int \<Rightarrow> ('e, (goerr + QueryStat_row \<times> 'f \<times> 'f) list \<times> goerr option) gofun"

text \<open>Addition of \<^verbatim>\<open>int64\<close>, which wraps around.\<close>

definition add64 :: "int \<Rightarrow> int \<Rightarrow> int" where
  "add64 a b = (a + b + 2 ^ 63) mod 2 ^ 64 - 2 ^ 63"

text \<open>A block \<^verbatim>\<open>if err := ...; err == nil { add ... }\<close>: the pairs of names and values to add.\<close>

definition probe :: "('e, 'x) gofun \<Rightarrow> ('x \<Rightarrow> (string \<times> 'f) list) \<Rightarrow> ('e, (string \<times> 'f) list) gofun" where
  "probe q f = attempt q (\<lambda>r. case r of Inl _ \<Rightarrow> ret [] | Inr x \<Rightarrow> ret (f x))"

definition database_values :: "'f metric_ops \<Rightarrow> db_stats \<Rightarrow> (string \<times> 'f) list" where
  "database_values fp d =
     map (map_prod id (f_lit fp))
       [(''connections'', ds_conns d), (''active_connections'', ds_active d), (''db_size_bytes'', ds_dbSize d),
        (''xact_commit'', ds_xactCommit d), (''xact_rollback'', ds_xactRollback d), (''blks_hit'', ds_blksHit d),
        (''blks_read'', ds_blksRead d), (''tup_inserted'', ds_tupIns d), (''tup_updated'', ds_tupUpd d),
        (''tup_deleted'', ds_tupDel d), (''deadlocks'', ds_deadlocks d), (''tup_returned'', ds_tupReturned d),
        (''tup_fetched'', ds_tupFetched d), (''temp_files'', ds_tempFiles d), (''temp_bytes'', ds_tempBytes d),
        (''blk_read_time_ms'', ds_blkReadTime d), (''blk_write_time_ms'', ds_blkWriteTime d)] @
     (let total = add64 (ds_blksHit d) (ds_blksRead d) in
      if total > 0 then [(''cache_hit_ratio'', f_mul fp (f_div fp (f_lit fp (ds_blksHit d)) (f_lit fp total)) (f_lit fp 100))] else [])"

definition session_values :: "'f metric_ops \<Rightarrow> int \<Rightarrow> int \<times> int \<times> int \<times> 'f \<Rightarrow> (string \<times> 'f) list" where
  "session_values fp conns = (\<lambda>(maxConns, idleInTx, waiting, longestTxSecs).
     [(''max_connections'', f_lit fp maxConns), (''idle_in_transaction'', f_lit fp idleInTx), (''waiting_sessions'', f_lit fp waiting),
      (''longest_transaction_seconds'', longestTxSecs)] @
     (if maxConns > 0 then [(''connection_utilization'', f_mul fp (f_div fp (f_lit fp conns) (f_lit fp maxConns)) (f_lit fp 100))] else []))"

definition collectReplication :: "'f metric_ops \<Rightarrow> ('f, 'e) stats_driver \<Rightarrow> string \<Rightarrow> ('e, (string \<times> 'f) list) gofun" where
  "collectReplication fp drv conn =
     attempt (sd_InRecovery drv conn) (\<lambda>r. case r of
         Inl _ \<Rightarrow> ret []
       | Inr inRecovery \<Rightarrow>
           if inRecovery then probe (sd_StandbyLag drv conn) (\<lambda>lagSecs. [(''replication_lag_seconds'', lagSecs)])
           else probe (sd_Replication drv conn) (\<lambda>(standbys, worstLagBytes).
             [(''connected_standbys'', f_lit fp standbys), (''replica_lag_bytes'', worstLagBytes)]))"

definition as_samples :: "string \<Rightarrow> int \<Rightarrow> (string \<times> 'f) list \<Rightarrow> 'f Sample list" where
  "as_samples iid at vals = map (\<lambda>(metric, v). \<lparr>sm_InstanceID = iid, sm_Metric = metric, sm_Value = v, sm_At = at\<rparr>) vals"

definition metrics_Collect ::
    "'f metric_ops \<Rightarrow> ('f, 'e) stats_driver \<Rightarrow> ('e \<Rightarrow> int) \<Rightarrow> string \<Rightarrow> string \<Rightarrow> ('e, 'f Sample list) gofun" where
  "metrics_Collect fp drv now iid dsn =
     bindE (wrap_error (Wrap KindInternal ''metrics: connect'') (sd_Connect drv dsn)) (\<lambda>_.
     withS (\<lambda>e. let at = now e in
     bindE (wrap_error (Wrap KindInternal ''metrics: query stat_database'') (sd_Database drv dsn)) (\<lambda>d.
     bindE (probe (sd_Sessions drv dsn) (session_values fp (ds_conns d))) (\<lambda>sessions.
     bindE (probe (sd_Locks drv dsn) (\<lambda>(held, waiting). [(''locks_held'', f_lit fp held), (''locks_waiting'', f_lit fp waiting)])) (\<lambda>locks.
     attempt (sd_Version drv dsn) (\<lambda>v. let serverVerNum = (case v of Inl _ \<Rightarrow> 0 | Inr n \<Rightarrow> n) in
     bindE (probe (sd_Checkpoint drv dsn (checkpointQuery serverVerNum)) (\<lambda>(timed, req, buffers).
        [(''checkpoints_timed'', f_lit fp timed), (''checkpoints_req'', f_lit fp req), (''buffers_checkpoint'', f_lit fp buffers)])) (\<lambda>ckpt.
     bindE (probe (sd_Wal drv dsn) (\<lambda>(bytes, recs, fpi).
        [(''wal_bytes'', f_lit fp bytes), (''wal_records'', f_lit fp recs), (''wal_full_page_images'', f_lit fp fpi)])) (\<lambda>wal.
     bindE (collectReplication fp drv dsn) (\<lambda>repl.
     ret (as_samples iid at (database_values fp d @ sessions @ locks @ ckpt @ wal @ repl)))))))))))"

record 'f QueryStat =
  qt_Query :: string
  qt_Calls :: int
  qt_TotalTimeMS :: 'f
  qt_MeanTimeMS :: 'f
  qt_Rows :: int

fun scan_stats :: "(goerr + QueryStat_row \<times> 'f \<times> 'f) list \<Rightarrow> goerr + 'f QueryStat list" where
  "scan_stats [] = Inr []"
| "scan_stats (Inl e # rows) = Inl (Wrap KindInternal ''metrics: scan query stat'' e)"
| "scan_stats (Inr (q, total_ms, mean_ms) # rows) = map_sum id ((#) \<lparr>qt_Query = qs_Query q, qt_Calls = qs_Calls q, qt_TotalTimeMS = total_ms,
     qt_MeanTimeMS = mean_ms, qt_Rows = qs_Rows q\<rparr>) (scan_stats rows)"

definition TopQueries :: "('f, 'e) stats_driver \<Rightarrow> string \<Rightarrow> int \<Rightarrow> ('e, 'f QueryStat list) gofun" where
  "TopQueries drv dsn limit0 =
     (let limit = (if limit0 \<le> 0 then 20 else limit0) in
      bindE (wrap_error (Wrap KindInternal ''metrics: connect'') (sd_Connect drv dsn)) (\<lambda>_.
      attempt (sd_Statements drv dsn limit) (\<lambda>r. case r of
          Inl _ \<Rightarrow> ret []
        | Inr (rows, err) \<Rightarrow> (case scan_stats rows of
            Inl e \<Rightarrow> fail e
          | Inr out \<Rightarrow> (case err of Some e \<Rightarrow> fail e | None \<Rightarrow> ret out)))))"

section \<open>Container statistics (resource.go)\<close>

record 'f ContainerStats =
  cst_CPUPercent :: 'f
  cst_MemoryBytes :: int
  cst_MemoryLimitBytes :: int
  cst_MemoryPercent :: 'f
  cst_DiskIOAvailable :: bool
  cst_DiskReadBytes :: int
  cst_DiskWriteBytes :: int
  cst_DiskReadOps :: int
  cst_DiskWriteOps :: int

definition collectStats :: "'f metric_ops \<Rightarrow> (string \<Rightarrow> ('e, 'f ContainerStats) gofun) \<Rightarrow> string \<Rightarrow> ('e, (string \<times> 'f) list) gofun" where
  "collectStats fp stats containerID = bindE (stats containerID) (\<lambda>st.
     ret ([(''memory_bytes'', f_lit fp (cst_MemoryBytes st)), (''memory_percent'', cst_MemoryPercent st)] @
       (if cst_DiskIOAvailable st then
          [(''disk_read_bytes'', f_lit fp (cst_DiskReadBytes st)), (''disk_write_bytes'', f_lit fp (cst_DiskWriteBytes st)),
           (''disk_read_ops'', f_lit fp (cst_DiskReadOps st)), (''disk_write_ops'', f_lit fp (cst_DiskWriteOps st))]
        else [])))"

text \<open>\<^verbatim>\<open>strings.Fields\<close>.\<close>

lemma first_field_nonempty: "leading_space s = None \<Longrightarrow> s \<noteq> [] \<Longrightarrow> first_field s \<noteq> []"
  by (cases s) auto

lemma TrimLeft_no_space: "leading_space (TrimLeftSpace s) = None"
proof (induction s rule: TrimLeftSpace.induct)
  case (1 s)
  then show ?case by (subst TrimLeftSpace.simps) (auto split: option.splits)
qed

lemma TrimLeft_length: "length (TrimLeftSpace s) \<le> length s"
  using take_TrimLeft [of s] by (metis le_add2 length_append)

function Fields :: "string \<Rightarrow> string list" where
  "Fields s =
     (let t = TrimLeftSpace s in
      if t = [] then [] else first_field t # Fields (drop (length (first_field t)) t))"
  by pat_completeness auto
termination
proof (relation "measure length", simp)
  fix s t assume t: "t = TrimLeftSpace s" "t \<noteq> []"
  have "first_field t \<noteq> []" using first_field_nonempty TrimLeft_no_space t by blast
  then have "length t - length (first_field t) < length t" using t(2) by simp
  with t TrimLeft_length [of s] show "(drop (length (first_field t)) t, s) \<in> measure length" by simp
qed

declare Fields.simps [simp del]

fun second_line :: "nat \<Rightarrow> string list \<Rightarrow> string" where
  "second_line seen [] = []"
| "second_line seen (ln # rest) =
     (if TrimSpace ln = [] then second_line seen rest
      else if seen + 1 = 2 then ln else second_line (seen + 1) rest)"

definition parseDfBytes :: "string \<Rightarrow> (int \<times> int \<times> int) option" where
  "parseDfBytes out =
     (let lines = Split (trim_newlines out) nl in
      if length lines < 2 then None
      else let dataLine = second_line 0 lines in
        if dataLine = [] then None
        else let fields = Fields dataLine in
          if length fields < 6 then None
          else case (ParseInt (fields ! 1), ParseInt (fields ! 2), ParseInt (fields ! 3)) of
            (Inr t, Inr u, Inr a) \<Rightarrow> if t < 0 \<or> u < 0 \<or> a < 0 then None else Some (t, u, a)
          | _ \<Rightarrow> None)"

definition collectDisk :: "'f metric_ops \<Rightarrow> 'e host \<Rightarrow> string \<Rightarrow> ('e, (string \<times> 'f) list) gofun" where
  "collectDisk fp h containerID =
     bindE (Exec h containerID [''df'', ''-PB1'', ''/var/lib/postgresql/data'']) (\<lambda>res.
     if ExitCode res \<noteq> 0 then fail (New KindInternal (''metrics: df exited '' @ Itoa (ExitCode res)))
     else case parseDfBytes (Stdout res) of
       None \<Rightarrow> fail (New KindInternal ''metrics: unparseable df output'')
     | Some (total_b, used, avail) \<Rightarrow>
         ret ([(''disk_total_bytes'', f_lit fp total_b), (''disk_used_bytes'', f_lit fp used)] @
           (if total_b > 0 then [(''disk_free_percent'', f_mul fp (f_div fp (f_lit fp avail) (f_lit fp total_b)) (f_lit fp 100))] else [])))"

definition resource_Collect ::
    "'f metric_ops \<Rightarrow> 'e host \<Rightarrow> (string \<Rightarrow> ('e, 'f ContainerStats) gofun) \<Rightarrow> string \<Rightarrow> string \<Rightarrow> ('e, 'f Sample list) gofun" where
  "resource_Collect fp h stats iid containerID = withS (\<lambda>e.
     attempt (collectStats fp stats containerID) (\<lambda>st.
     attempt (collectDisk fp h containerID) (\<lambda>disk.
     case (st, disk) of
       (Inl statsErr, Inl _) \<Rightarrow> fail (Wrap KindInternal ''metrics: collect resource stats'' statsErr)
     | _ \<Rightarrow> ret (as_samples iid (Now h e) ((case st of Inl _ \<Rightarrow> [] | Inr vs \<Rightarrow> vs) @ (case disk of Inl _ \<Rightarrow> [] | Inr vs \<Rightarrow> vs))))))"

section \<open>Endpoints (api/metrics.go)\<close>

definition metrics_handler_Latest :: "string \<Rightarrow> ('f metric_db, nat \<times> (string \<rightharpoonup> 'f Sample)) gofun" where
  "metrics_handler_Latest iid = bindE (metrics_Latest iid) (\<lambda>newest. ret (200, newest))"

definition parseTimeParam :: "(string \<Rightarrow> int option) \<Rightarrow> string \<Rightarrow> string \<Rightarrow> int \<Rightarrow> goerr + int" where
  "parseTimeParam parse name v def =
     (if v = [] then Inr def
      else case parse v of
        None \<Rightarrow> Inl (New KindInvalid (''invalid '' @ name @ '' timestamp (want RFC3339)''))
      | Some t \<Rightarrow> Inr t)"

definition metrics_Range ::
    "(string \<Rightarrow> int option) \<Rightarrow> int \<Rightarrow> string \<Rightarrow> string \<Rightarrow> string \<Rightarrow> string \<Rightarrow> ('f metric_db, nat \<times> 'f Sample list) gofun" where
  "metrics_Range parse now iid metric since_q until_q =
     (case parseTimeParam parse ''until'' until_q now of
        Inl e \<Rightarrow> fail e
      | Inr until \<Rightarrow> (case parseTimeParam parse ''since'' since_q (until - 3600 * second) of
          Inl e \<Rightarrow> fail e
        | Inr since \<Rightarrow>
            if until < since then fail (New KindInvalid ''since must not be after until'')
            else bindE (metrics_Query iid metric since until) (\<lambda>samples. ret (200, samples))))"

definition queries_limit :: "string \<Rightarrow> int" where
  "queries_limit v =
     (let limit = (if v = [] then 20 else case ParseInt v of Inr n \<Rightarrow> if n > 0 then n else 20 | Inl _ \<Rightarrow> 20) in
      if limit > 200 then 200 else limit)"

definition metrics_Queries :: "(string \<Rightarrow> int \<Rightarrow> ('e, 'q list) gofun) option \<Rightarrow> string \<Rightarrow> string \<Rightarrow> ('e, nat \<times> 'q list) gofun" where
  "metrics_Queries insights iid limit = (case insights of
       None \<Rightarrow> ret (200, [])
     | Some f \<Rightarrow> bindE (f iid (queries_limit limit)) (\<lambda>queries. ret (200, queries)))"

section \<open>Prometheus exposition (api/prometheus.go)\<close>

text \<open>The switch of \<open>promName\<close> on a rune below 128; every other rune becomes one underscore.\<close>

definition prom_char :: "char \<Rightarrow> bool" where
  "prom_char c \<longleftrightarrow> is_lower c \<or> is_upper c \<or> is_digit c \<or> c = CHR ''_'' \<or> c = CHR '':''"

function promName :: "string \<Rightarrow> string" where
  "promName [] = []"
| "promName (c # cs) =
     (if byte_val c < 0x80 then (if prom_char c then c else CHR ''_'') # promName cs
      else CHR ''_'' # promName (drop (rune_width (c # cs)) (c # cs)))"
  by pat_completeness auto
termination
  by (relation "measure length") (use rune_width_pos in \<open>auto simp: diff_less\<close>)

definition prom_line :: "'f metric_ops \<Rightarrow> Instance \<Rightarrow> string \<Rightarrow> 'f \<Rightarrow> string" where
  "prom_line fp inst name v = ''pgfleet_'' @ promName name @ ''{instance_id='' @ Quote (i_ID inst) @ '',name='' @ Quote (i_Name inst) @ ''} '' @
     f_g fp v @ [nl]"

text \<open>The keys of the map, sorted; they are the metrics of the instance's rows.\<close>

definition metric_names :: "'f Sample list \<Rightarrow> string \<Rightarrow> string list" where
  "metric_names rows iid = sort (remdups (map sm_Metric (filter (\<lambda>x. sm_InstanceID x = iid) rows)))"

fun prom_instances :: "'f metric_ops \<Rightarrow> Instance list \<Rightarrow> 'f metric_db \<Rightarrow> string \<times> 'f metric_db" where
  "prom_instances fp [] s = ([], s)"
| "prom_instances fp (inst # rest) s =
     (case metrics_Latest (i_ID inst) s of
        (Inl _, s1) \<Rightarrow> prom_instances fp rest s1
      | (Inr newest, s1) \<Rightarrow> (case prom_instances fp rest s1 of (text, s2) \<Rightarrow>
          (concat (map (\<lambda>name. case newest name of None \<Rightarrow> [] | Some x \<Rightarrow> prom_line fp inst name (sm_Value x)) (metric_names (md_rows s1) (i_ID inst))) @ text, s2)))"

definition prometheus_Metrics :: "'f metric_ops \<Rightarrow> (goerr + Instance list) \<Rightarrow> 'f metric_db \<Rightarrow> (nat \<times> string) \<times> 'f metric_db" where
  "prometheus_Metrics fp listed s = (case listed of
       Inl _ \<Rightarrow> ((500, ''# failed to list instances'' @ [nl, nl]), s)
     | Inr insts \<Rightarrow> (case prom_instances fp insts s of (text, s') \<Rightarrow> ((200, text), s')))"

section \<open>What the table answers\<close>

lemma fold_newer_spec:
  "fold newer xs best = Some y \<Longrightarrow> (y \<in> set xs \<or> best = Some y) \<and> (\<forall>x\<in>set xs. sm_At x \<le> sm_At y) \<and> (\<forall>b. best = Some b \<longrightarrow> sm_At b \<le> sm_At y)"
proof (induction xs arbitrary: best)
  case (Cons x xs)
  from Cons.IH [of "newer x best"] Cons.prems show ?case
    by (cases best) (auto simp: newer_def split: if_splits)
qed simp

lemma fold_newer_None: "fold newer xs best = None \<longleftrightarrow> xs = [] \<and> best = None"
  by (induction xs arbitrary: best) (auto simp: newer_def split: option.splits)

lemma latest_of_spec:
  "latest_of rows iid m = Some y \<Longrightarrow> y \<in> set rows \<and> sm_InstanceID y = iid \<and> sm_Metric y = m \<and>
     (\<forall>x\<in>set rows. sm_InstanceID x = iid \<and> sm_Metric x = m \<longrightarrow> sm_At x \<le> sm_At y)"
  unfolding latest_of_def by (drule fold_newer_spec) auto

lemma latest_of_None: "latest_of rows iid m = None \<longleftrightarrow> (\<forall>x\<in>set rows. \<not> (sm_InstanceID x = iid \<and> sm_Metric x = m))"
  by (auto simp: latest_of_def fold_newer_None filter_empty_conv)

lemma metrics_Latest_result: "metrics_Latest iid s = (Inr newest, s') \<Longrightarrow> newest = latest_of (md_rows s) iid"
  by (auto simp: metrics_Latest_def mstmt_def split: list.splits if_splits)

lemma metrics_Latest_frame: "md_rows (snd (metrics_Latest iid s)) = md_rows s"
  by (auto simp: metrics_Latest_def mstmt_def split: list.splits)

lemma parseDfBytes_range:
  "parseDfBytes out = Some (t, u, a) \<Longrightarrow> 0 \<le> t \<and> 0 \<le> u \<and> 0 \<le> a \<and> t < 2 ^ 63 \<and> u < 2 ^ 63 \<and> a < 2 ^ 63"
  by (auto simp: parseDfBytes_def Let_def split: if_splits sum.splits dest!: ParseInt_range)

lemma queries_limit_range: "1 \<le> queries_limit v \<and> queries_limit v \<le> 200"
  by (simp add: queries_limit_def Let_def split: sum.split)

lemma promName_chars: "list_all prom_char (promName s)"
  by (induction s rule: promName.induct) (auto simp: prom_char_def)

lemma checkpointQuery_by_version: "checkpointQuery v = checkpointQuery w \<longleftrightarrow> (170000 \<le> v \<longleftrightarrow> 170000 \<le> w)"
  by (simp add: checkpointQuery_def)

end
