(* ===== verification/Notifier.thy ===== *)
theory Notifier
  imports Alerts RemoteBackup Handlers
begin

text \<open>
  What leaves the alerting and event stores: the webhook notifier (\<^verbatim>\<open>internal/alerts/notifier.go\<close>)
  with its guard against server-side request forgery, the alert and alert-rule endpoints
  (\<^verbatim>\<open>internal/api/alerts.go\<close>, \<^verbatim>\<open>alert_rules.go\<close>), and the listing of events
  (\<^verbatim>\<open>internal/events/repo.go\<close>, \<^verbatim>\<open>internal/api/events_history.go\<close>).

  The HTTP client is a parameter: given the control function of its dialer and a request it
  returns the status code or an error. The JSON encoder is a parameter too.
\<close>

section \<open>Addresses (net.SplitHostPort)\<close>

text \<open>The position of the first and of the last occurrence of a character.\<close>

fun index_byte :: "string \<Rightarrow> char \<Rightarrow> nat option" where
  "index_byte [] c = None"
| "index_byte (x # xs) c = (if x = c then Some 0 else map_option Suc (index_byte xs c))"

definition last_index_byte :: "string \<Rightarrow> char \<Rightarrow> nat option" where
  "last_index_byte s c = map_option (\<lambda>i. length s - 1 - i) (index_byte (rev s) c)"

definition addr_error :: "string \<Rightarrow> string \<Rightarrow> goerr" where
  "addr_error addr why = Plain (''address '' @ addr @ '': '' @ why)"

definition split_rest :: "string \<Rightarrow> string \<Rightarrow> nat \<Rightarrow> nat \<Rightarrow> nat \<Rightarrow> goerr + string \<times> string" where
  "split_rest hp host i j k =
     (if CHR ''['' \<in> set (drop j hp) then Inl (addr_error hp ''unexpected [ in address'')
      else if CHR '']'' \<in> set (drop k hp) then Inl (addr_error hp ''unexpected ] in address'')
      else Inr (host, drop (i + 1) hp))"

definition SplitHostPort :: "string \<Rightarrow> goerr + string \<times> string" where
  "SplitHostPort hp = (case last_index_byte hp (CHR '':'') of
       None \<Rightarrow> Inl (addr_error hp ''missing port in address'')
     | Some i \<Rightarrow>
         if hd hp = CHR ''['' then
           (case index_byte hp (CHR '']'') of
              None \<Rightarrow> Inl (addr_error hp ''missing ] in address'')
            | Some e \<Rightarrow>
                if e + 1 = length hp then Inl (addr_error hp ''missing port in address'')
                else if e + 1 = i then split_rest hp (take (e - 1) (drop 1 hp)) i 1 (e + 1)
                else if hp ! (e + 1) = CHR '':'' then Inl (addr_error hp ''too many colons in address'')
                else Inl (addr_error hp ''missing port in address''))
         else if CHR '':'' \<in> set (take i hp) then Inl (addr_error hp ''too many colons in address'')
         else split_rest hp (take i hp) i 0 0)"

section \<open>The guarded client (notifier.go)\<close>

definition defaultNotifyTimeout :: int where "defaultNotifyTimeout = 5 * second"

text \<open>The two parsed literals; \<^verbatim>\<open>Equal\<close> on 16-byte addresses is equality.\<close>

definition isMetadataIP :: "nat list \<Rightarrow> bool" where
  "isMetadataIP ip \<longleftrightarrow> Some ip = ParseIP ''169.254.169.254'' \<or> Some ip = ParseIP ''fd00:ec2::254''"

text \<open>\<open>ip_text\<close> is \<^verbatim>\<open>IP.String\<close>, used in the message only.\<close>

definition blockedDialControl :: "(nat list \<Rightarrow> string) \<Rightarrow> string \<Rightarrow> goerr option" where
  "blockedDialControl ip_text address = (case SplitHostPort address of
       Inl e \<Rightarrow> Some e
     | Inr (host, _) \<Rightarrow> (case ParseIP host of
         None \<Rightarrow> Some (Plain (''alerts: webhook host '' @ Quote host @ '' did not resolve to an IP''))
       | Some ip \<Rightarrow>
           if IsLinkLocalUnicast ip \<or> IsLinkLocalMulticast ip \<or> isMetadataIP ip then
             Some (Plain (''alerts: webhook target '' @ ip_text ip @ '' is a blocked link-local/metadata address''))
           else None))"

record notifyTransition =
  nt_Kind :: string
  nt_InstanceID :: string
  nt_State :: string
  nt_Message :: string
  nt_Severity :: string
  nt_Timestamp :: int

record http_post =
  hp_url :: string
  hp_type :: string
  hp_body :: string
  hp_timeout :: int

record 'e webhook_env =
  we_ipText :: "nat list \<Rightarrow> string"
  we_Marshal :: "notifyTransition list \<Rightarrow> goerr + string"
  we_NewRequest :: "string \<Rightarrow> goerr option"
  we_Do :: "(string \<Rightarrow> goerr option) \<Rightarrow> http_post \<Rightarrow> ('e, int) gofun"

record WebhookNotifier =
  wn_url :: string
  wn_timeout :: int

definition NewWebhookNotifier :: "string \<Rightarrow> int \<Rightarrow> WebhookNotifier" where
  "NewWebhookNotifier url timeout = \<lparr>wn_url = url, wn_timeout = (if timeout \<le> 0 then defaultNotifyTimeout else timeout)\<rparr>"

definition to_wire :: "Transition \<Rightarrow> notifyTransition" where
  "to_wire t = \<lparr>nt_Kind = tr_Kind t, nt_InstanceID = tr_InstanceID t, nt_State = tr_To t, nt_Message = tr_Message t,
     nt_Severity = tr_Severity t, nt_Timestamp = tr_Timestamp t\<rparr>"

definition guardedHTTPClient :: "'e webhook_env \<Rightarrow> http_post \<Rightarrow> ('e, int) gofun" where
  "guardedHTTPClient we req = we_Do we (blockedDialControl (we_ipText we)) req"

definition Notify :: "'e webhook_env \<Rightarrow> WebhookNotifier \<Rightarrow> Transition list \<Rightarrow> ('e, unit) gofun" where
  "Notify we n transitions =
     (if wn_url n = [] \<or> length transitions = 0 then ret ()
      else case we_Marshal we (map to_wire transitions) of
        Inl e \<Rightarrow> fail (Wrap KindInternal ''alerts: marshal notification'' e)
      | Inr body \<Rightarrow> (case we_NewRequest we (wn_url n) of
          Some e \<Rightarrow> fail (Wrap KindInternal ''alerts: build notification request'' e)
        | None \<Rightarrow>
            bindE (wrap_error (Wrap KindInternal ''alerts: post notification'')
              (guardedHTTPClient we \<lparr>hp_url = wn_url n, hp_type = ''application/json'', hp_body = body, hp_timeout = wn_timeout n\<rparr>)) (\<lambda>status.
            if status < 200 \<or> 300 \<le> status then
              fail (New KindInternal (''alerts: notification webhook returned '' @ Itoa status))
            else ret ())))"

section \<open>Alert endpoints (api/alerts.go, api/alert\_rules.go)\<close>

record ('f, 'e) alert_server =
  as_db :: "'f alert_db"
  as_audit :: "'e accounts"

definition onAlerts :: "('f alert_db, 'a) gofun \<Rightarrow> (('f, 'e) alert_server, 'a) gofun" where
  "onAlerts m s = (case m (as_db s) of (r, d) \<Rightarrow> (r, s\<lparr>as_db := d\<rparr>))"

definition rule_audit :: "bool \<Rightarrow> Claims option \<Rightarrow> string \<Rightarrow> string \<Rightarrow> (('f, 'e) alert_server, unit) gofun" where
  "rule_audit recorder ctx action target s =
     (case recordAudit recorder ctx action target (as_audit s) of (r, a) \<Rightarrow> (r, s\<lparr>as_audit := a\<rparr>))"

record 'f alertRuleRequest =
  ar_InstanceID :: "string option"
  ar_Kind :: string
  ar_Threshold :: 'f
  ar_Severity :: string
  ar_Enabled :: bool

definition toRule :: "'f alertRuleRequest \<Rightarrow> string \<Rightarrow> 'f Rule" where
  "toRule req rid = \<lparr>ru_ID = rid, ru_InstanceID = ar_InstanceID req, ru_Kind = ar_Kind req, ru_Threshold = ar_Threshold req,
     ru_Severity = ar_Severity req, ru_Enabled = ar_Enabled req\<rparr>"

datatype 'f rule_body = RuleBody "'f Rule" | RulesBody "'f Rule list" | NoRule

definition alert_rules_Create ::
    "'f float_ops \<Rightarrow> bool \<Rightarrow> Claims option \<Rightarrow> 'f alertRuleRequest decoder \<Rightarrow> string \<Rightarrow> (('f, 'e) alert_server, nat \<times> 'f rule_body) gofun" where
  "alert_rules_Create fp recorder ctx dec body = (case decodeJSON dec body of
       Inl e \<Rightarrow> fail e
     | Inr req \<Rightarrow> (case Rule_Validate fp (toRule req []) of
         Some e \<Rightarrow> fail e
       | None \<Rightarrow>
           bindE (onAlerts (rules_Create fp (toRule req []))) (\<lambda>created.
           ignoring (rule_audit recorder ctx ''alertrule.create'' (ru_ID created)) (ret (201, RuleBody created)))))"

definition alert_rules_List :: "(('f, 'e) alert_server, nat \<times> 'f rule_body) gofun" where
  "alert_rules_List = bindE (onAlerts rules_List) (\<lambda>rules. ret (200, RulesBody rules))"

definition alert_rules_Update ::
    "'f float_ops \<Rightarrow> bool \<Rightarrow> Claims option \<Rightarrow> 'f alertRuleRequest decoder \<Rightarrow> string \<Rightarrow> string \<Rightarrow> (('f, 'e) alert_server, nat \<times> 'f rule_body) gofun" where
  "alert_rules_Update fp recorder ctx dec rid body = (case decodeJSON dec body of
       Inl e \<Rightarrow> fail e
     | Inr req \<Rightarrow> (case Rule_Validate fp (toRule req rid) of
         Some e \<Rightarrow> fail e
       | None \<Rightarrow>
           bindE (onAlerts (rules_Update fp (toRule req rid))) (\<lambda>_.
           ignoring (rule_audit recorder ctx ''alertrule.update'' rid) (ret (200, RuleBody (toRule req rid))))))"

definition alert_rules_Delete :: "bool \<Rightarrow> Claims option \<Rightarrow> string \<Rightarrow> (('f, 'e) alert_server, nat \<times> 'f rule_body) gofun" where
  "alert_rules_Delete recorder ctx rid =
     bindE (onAlerts (rules_Delete rid)) (\<lambda>_.
     ignoring (rule_audit recorder ctx ''alertrule.delete'' rid) (ret (204, NoRule)))"

definition alerts_List :: "string \<Rightarrow> ('f alert_db, nat \<times> 'f Alert list) gofun" where
  "alerts_List instance_id =
     bindE (if instance_id \<noteq> [] then ListForInstance instance_id else ListActive) (\<lambda>xs. ret (200, xs))"

section \<open>Events (events/repo.go, api/events\_history.go)\<close>

definition defaultLimit :: int where "defaultLimit = 100"
definition maxLimit :: int where "maxLimit = 500"

record Filter =
  ef_InstanceID :: string
  ef_ClusterID :: string
  ef_Type :: string
  ef_Limit :: int

definition event_limit :: "int \<Rightarrow> int" where
  "event_limit l = (let limit = (if l \<le> 0 then defaultLimit else l) in if maxLimit < limit then maxLimit else limit)"

text \<open>One condition of the statement: none for a blank value.\<close>

definition event_cond :: "string \<Rightarrow> string \<Rightarrow> bool" where
  "event_cond val col \<longleftrightarrow> TrimSpace val = [] \<or> col = val"

definition event_matches :: "Filter \<Rightarrow> Event \<Rightarrow> bool" where
  "event_matches f e \<longleftrightarrow> event_cond (ef_InstanceID f) (ev_InstanceID e) \<and> event_cond (ef_ClusterID f) (ev_ClusterID e) \<and>
     event_cond (ef_Type f) (ev_Type e)"

text \<open>Events are kept in the order of their insertion, so newest first is the reverse.\<close>

definition event_List :: "Filter \<Rightarrow> (metadb, Event list) gofun" where
  "event_List f = stmt ''events: list'' (\<lambda>d.
     (Inr (take (nat (event_limit (ef_Limit f))) (filter (event_matches f) (rev (events d)))), d))"

text \<open>The value \<^verbatim>\<open>strconv.Atoi\<close> returns beside its error: 0 for a malformed number, the nearest bound for one out of range.\<close>

definition Atoi_value :: "string \<Rightarrow> int" where
  "Atoi_value s = (case ParseInt s of
       Inr n \<Rightarrow> n
     | Inl ErrSyntax \<Rightarrow> 0
     | Inl ErrRange \<Rightarrow> if s \<noteq> [] \<and> hd s = CHR ''-'' then - (2 ^ 63) else 2 ^ 63 - 1)"

definition events_history_List :: "string \<Rightarrow> string \<Rightarrow> string \<Rightarrow> string \<Rightarrow> (metadb, nat \<times> Event list) gofun" where
  "events_history_List instance_id cluster_id ty limit =
     bindE (event_List \<lparr>ef_InstanceID = instance_id, ef_ClusterID = cluster_id, ef_Type = ty, ef_Limit = Atoi_value limit\<rparr>)
       (\<lambda>evs. ret (200, evs))"

lemma event_limit_range: "1 \<le> event_limit l \<and> event_limit l \<le> 500"
  by (simp add: event_limit_def defaultLimit_def maxLimit_def Let_def)

lemma events_history_bounded:
  assumes "events_history_List iid cid ty limit d = (Inr (st, evs), d')"
  shows "length evs \<le> 500 \<and> (\<forall>e\<in>set evs. e \<in> set (events d) \<and> event_matches \<lparr>ef_InstanceID = iid, ef_ClusterID = cid, ef_Type = ty, ef_Limit = Atoi_value limit\<rparr> e)"
proof -
  let ?f = "\<lparr>ef_InstanceID = iid, ef_ClusterID = cid, ef_Type = ty, ef_Limit = Atoi_value limit\<rparr>"
  have "evs = take (nat (event_limit (Atoi_value limit))) (filter (event_matches ?f) (rev (events d)))"
    using assms by (auto simp: events_history_List_def event_List_def prog_run stmt_def split: list.splits if_splits)
  then show ?thesis using event_limit_range [of "Atoi_value limit"] by (auto dest: in_set_takeD)
qed

section \<open>Where a webhook may go\<close>

lemma index_byte_append: "c \<notin> set a \<Longrightarrow> index_byte (a @ c # b) c = Some (length a)"
  by (induction a) auto

lemma last_index_byte_append: "c \<notin> set b \<Longrightarrow> last_index_byte (a @ c # b) c = Some (length a)"
  using index_byte_append [of c "rev b" "rev a"] by (simp add: last_index_byte_def)

lemma digits_dotted: "x \<in> set (dotted a b c d) \<Longrightarrow> is_digit x \<or> x = CHR ''.''"
  using show_nat_digits by (auto simp: dotted_def list_all_iff)

lemma SplitHostPort_plain:
  assumes "\<forall>x\<in>set h. is_digit x \<or> x = CHR ''.''" "\<forall>x\<in>set p. is_digit x" "h \<noteq> []"
  shows "SplitHostPort (h @ CHR '':'' # p) = Inr (h, p)"
proof -
  have no: "CHR '':'' \<notin> set p" "CHR '':'' \<notin> set h" "CHR ''['' \<notin> set h" "CHR ''['' \<notin> set p" "CHR '']'' \<notin> set h" "CHR '']'' \<notin> set p"
    using assms(1,2) by (auto simp: is_digit_def byte_val_def)
  have hd: "hd (h @ CHR '':'' # p) \<noteq> CHR ''[''" using assms(3) no(3) by (cases h) auto
  show ?thesis
    unfolding SplitHostPort_def last_index_byte_append [OF no(1)] option.simps
    using no hd by (simp add: split_rest_def)
qed

lemma SplitHostPort_dotted: "SplitHostPort (dotted a b c d @ CHR '':'' # show_nat port) = Inr (dotted a b c d, show_nat port)"
  using digits_dotted [of _ a b c d] show_nat_digits [of port]
  by (intro SplitHostPort_plain) (auto simp: list_all_iff dotted_def)

lemma control_passes:
  "blockedDialControl txt address = None \<longleftrightarrow> (\<exists>host port ip. SplitHostPort address = Inr (host, port) \<and> ParseIP host = Some ip \<and>
     \<not> IsLinkLocalUnicast ip \<and> \<not> IsLinkLocalMulticast ip \<and> \<not> isMetadataIP ip)"
  by (auto simp: blockedDialControl_def split: sum.splits option.splits)

lemma control_link_local:
  "a \<le> 255 \<Longrightarrow> b \<le> 255 \<Longrightarrow> blockedDialControl txt (dotted 169 254 a b @ CHR '':'' # show_nat port) \<noteq> None"
  by (simp add: blockedDialControl_def SplitHostPort_dotted ParseIP_dotted v4_link_local)

lemma metadata4_literal: "ParseIP ''169.254.169.254'' = Some (v4_mapped [169, 254, 169, 254])"
proof -
  have "dotted 169 254 169 254 = ''169.254.169.254''" by (simp add: dotted_def str_eval)
  then show ?thesis using ParseIP_dotted [of 169 254 169 254] by simp
qed

lemma metadata6_literal: "ParseIP ''fd00:ec2::254'' = Some ([253, 0, 14, 194] @ replicate 10 0 @ [2, 84])"
proof -
  have g: "hex_group ''fd00:ec2::254'' 0 0 = Some (64768, 4, '':ec2::254'')" "hex_group ''ec2::254'' 0 0 = Some (3778, 3, ''::254'')"
    "hex_group ''254'' 0 0 = Some (596, 3, [])"
    by (simp_all add: hex_val_def str_eval)
  have "ipv6_loop [253, 0, 14, 194] (Some (Suc (Suc (Suc (Suc 0))))) ''254'' = Some ([253, 0, 14, 194, 2, 84], Some 4)"
    by (subst ipv6_loop.simps) (simp only: g, simp add: Let_def)
  then have "ipv6_loop [253, 0] None ''ec2::254'' = Some ([253, 0, 14, 194, 2, 84], Some 4)"
    by (subst ipv6_loop.simps) (simp only: g, simp add: Let_def)
  then have "ipv6_loop [] None ''fd00:ec2::254'' = Some ([253, 0, 14, 194, 2, 84], Some 4)"
    by (subst ipv6_loop.simps) (simp only: g, simp add: Let_def)
  then show ?thesis by (simp add: ParseIP_def parseIPv6_def HasPrefix_def expand_ellipsis_def)
qed

lemmas metadata_literals = metadata4_literal metadata6_literal

lemma control_metadata6: "blockedDialControl txt ''[fd00:ec2::254]:80'' \<noteq> None"
proof -
  have "SplitHostPort ''[fd00:ec2::254]:80'' = Inr (''fd00:ec2::254'', ''80'')" by code_simp
  then show ?thesis by (auto simp: blockedDialControl_def isMetadataIP_def metadata_literals)
qed

text \<open>The networks of RFC 1918 and loopback stay reachable, as the comment in the source intends.\<close>

lemma control_private:
  assumes "a = 10 \<or> a = 127 \<or> a = 172 \<or> a = 192" "b \<le> 255" "c \<le> 255" "d \<le> 255"
  shows "blockedDialControl txt (dotted a b c d @ CHR '':'' # show_nat port) = None"
proof -
  have "ParseIP (dotted a b c d) = Some (v4_mapped [a, b, c, d])" using assms by (intro ParseIP_dotted) auto
  moreover have "\<not> IsLinkLocalUnicast (v4_mapped [a, b, c, d])" "\<not> IsLinkLocalMulticast (v4_mapped [a, b, c, d])"
    "\<not> isMetadataIP (v4_mapped [a, b, c, d])"
    using assms(1) by (auto simp: IsLinkLocalUnicast_def IsLinkLocalMulticast_def To4_def v4_mapped_def isMetadataIP_def
        metadata_literals eval_nat_numeral)
  ultimately show ?thesis by (simp add: blockedDialControl_def SplitHostPort_dotted)
qed

text \<open>
  C22. The webhook cannot be turned against the metadata service. When the HTTP client connects only where the
  control function of its dialer lets it, on every hop, then a notification opens no connection to an
  address of 169.254.0.0/16, on any port, nor to any other link-local or metadata address,
  whatever the configured URL resolves or redirects to; private and loopback receivers are let through. Without a URL or
  without a transition nothing is sent.
\<close>

theorem webhook_never_dials_metadata:
  assumes dialer: "\<And>ctl req e r e'. we_Do we ctl req e = (r, e') \<Longrightarrow> \<forall>a\<in>dialed e' - dialed e. ctl a = None"
    and run: "Notify we n transitions e = (r, e')"
  shows "(\<forall>a b port. a \<le> 255 \<and> b \<le> 255 \<longrightarrow> dotted 169 254 a b @ CHR '':'' # show_nat port \<notin> dialed e' - dialed e) \<and>
    (\<forall>addr\<in>dialed e' - dialed e. \<exists>host port ip. SplitHostPort addr = Inr (host, port) \<and> ParseIP host = Some ip \<and>
       \<not> IsLinkLocalUnicast ip \<and> \<not> IsLinkLocalMulticast ip \<and> \<not> isMetadataIP ip) \<and>
    (\<forall>b c d port. b \<le> 255 \<and> c \<le> 255 \<and> d \<le> 255 \<longrightarrow>
       blockedDialControl (we_ipText we) (dotted 10 b c d @ CHR '':'' # show_nat port) = None) \<and>
    (wn_url n = [] \<or> transitions = [] \<longrightarrow> r = Inr () \<and> e' = e)"
proof -
  have new: "\<forall>a\<in>dialed e' - dialed e. blockedDialControl (we_ipText we) a = None"
  proof (cases "\<exists>req r1. we_Do we (blockedDialControl (we_ipText we)) req e = (r1, e')")
    case True
    then show ?thesis using dialer by blast
  next
    case False
    have "e' = e"
      using run False
      by (auto simp: Notify_def guardedHTTPClient_def prog_run wrap_error_def split: sum.splits option.splits prod.splits if_splits)
    then show ?thesis by simp
  qed
  have "dotted 169 254 a b @ CHR '':'' # show_nat port \<notin> dialed e' - dialed e" if "a \<le> 255" "b \<le> 255" for a b port
    using new control_link_local [OF that] by blast
  moreover have "wn_url n = [] \<or> transitions = [] \<Longrightarrow> r = Inr () \<and> e' = e"
    using run by (auto simp: Notify_def prog_run)
  ultimately show ?thesis using new control_passes control_private by auto
qed

text \<open>A client that dials one fixed address when it is allowed to, and records it.\<close>

definition demo_webhook :: "string \<Rightarrow> string set webhook_env" where
  "demo_webhook target = \<lparr>we_ipText = (\<lambda>_. []), we_Marshal = (\<lambda>_. Inr ''{}''), we_NewRequest = (\<lambda>_. None),
     we_Do = (\<lambda>ctl _ e. case ctl target of Some err \<Rightarrow> (Inl err, e) | None \<Rightarrow> (Inr 200, insert target e))\<rparr>"

theorem webhook_never_dials_metadata_witness:
  "dotted 169 254 169 254 @ CHR '':'' # show_nat 80 \<notin>
     snd (Notify (demo_webhook (dotted 169 254 169 254 @ CHR '':'' # show_nat 80)) (NewWebhookNotifier ''http://rebound.example'' 0)
       [\<lparr>tr_Kind = ''disk_full'', tr_InstanceID = ''i1'', tr_From = [], tr_To = ''firing'', tr_Severity = ''warning'', tr_Message = ''m'', tr_Timestamp = 0\<rparr>] {})"
proof -
  let ?t = "dotted 169 254 169 254 @ CHR '':'' # show_nat 80"
  let ?tr = "[\<lparr>tr_Kind = ''disk_full'', tr_InstanceID = ''i1'', tr_From = [], tr_To = ''firing'', tr_Severity = ''warning'', tr_Message = ''m'', tr_Timestamp = 0\<rparr>]"
  obtain r e' where run: "Notify (demo_webhook ?t) (NewWebhookNotifier ''http://rebound.example'' 0) ?tr {} = (r, e')" by fastforce
  have "we_Do (demo_webhook ?t) ctl req e = (r, e') \<Longrightarrow> \<forall>a\<in>id e' - id e. ctl a = None" for ctl req e r e'
    by (auto simp: demo_webhook_def split: option.splits)
  from webhook_never_dials_metadata [where dialed = id, OF this run] have "?t \<notin> e'" by simp
  with run show ?thesis by simp
qed

end
