(* ===== verification/Monitoring.thy ===== *)
theory Monitoring
  imports Metrics Notifier Health
begin

text \<open>
  The scheduled jobs of \<^verbatim>\<open>cmd/pgfleet-api/main.go\<close> that watch the fleet: metrics collection, health checks,
  restore drills and the evaluation of alerts, which compose the repositories, the provisioner, the
  metric, health, alert and event stores and the webhook.

  The state has one part per store. The jobs go on with the next instance after any error.
\<close>

section \<open>State\<close>

record ('f, 'e) monitor =
  mo_world :: "'e world"
  mo_health :: health_db
  mo_metrics :: "'f metric_db"
  mo_alerts :: "'f alert_db"

definition onMW :: "('e world, 'a) gofun \<Rightarrow> (('f, 'e) monitor, 'a) gofun" where
  "onMW m s = (case m (mo_world s) of (r, w) \<Rightarrow> (r, s\<lparr>mo_world := w\<rparr>))"

definition onHealth :: "(health_db, 'a) gofun \<Rightarrow> (('f, 'e) monitor, 'a) gofun" where
  "onHealth m s = (case m (mo_health s) of (r, d) \<Rightarrow> (r, s\<lparr>mo_health := d\<rparr>))"

definition onMetrics :: "('f metric_db, 'a) gofun \<Rightarrow> (('f, 'e) monitor, 'a) gofun" where
  "onMetrics m s = (case m (mo_metrics s) of (r, d) \<Rightarrow> (r, s\<lparr>mo_metrics := d\<rparr>))"

definition onMAlerts :: "('f alert_db, 'a) gofun \<Rightarrow> (('f, 'e) monitor, 'a) gofun" where
  "onMAlerts m s = (case m (mo_alerts s) of (r, d) \<Rightarrow> (r, s\<lparr>mo_alerts := d\<rparr>))"

section \<open>Jobs\<close>

definition when_running :: "Instance \<Rightarrow> ('s, unit) gofun \<Rightarrow> ('s, unit) gofun" where
  "when_running inst m = (if i_Status inst \<noteq> StatusRunning then ret () else m)"

definition runHealthChecks :: "'e Checker \<Rightarrow> (int \<Rightarrow> int) \<Rightarrow> (('f, 'e) monitor, unit) gofun" where
  "runHealthChecks checker to_secs =
     bindE (onMW (onD instance_List)) (\<lambda>insts.
     forI (\<lambda>inst. when_running inst (
       bindE (onMW (health_Check checker (i_ID inst))) (\<lambda>report.
       ignoring (onHealth (health_Upsert to_secs report)) (ret ())))) insts)"

definition runRestoreDrills :: "'e Provisioner \<Rightarrow> (('f, 'e) monitor, unit) gofun" where
  "runRestoreDrills p =
     bindE (onMW (onD instance_List)) (\<lambda>insts.
     forI (\<lambda>inst. when_running inst (
       bindE (onMW (RestoreDrill p (i_ID inst))) (\<lambda>result.
       ignoring (onHealth (UpdateDrill (i_ID inst) (dr_OK result))) (ret ())))) insts)"

record ('f, 'e) collectors =
  co_ops :: "'f metric_ops"
  co_prov :: "'e Provisioner"
  co_driver :: "('f, 'e) stats_driver"
  co_stats :: "string \<Rightarrow> ('e, 'f ContainerStats) gofun"

definition collect_postgres :: "('f, 'e) collectors \<Rightarrow> string \<Rightarrow> (('f, 'e) monitor, unit) gofun" where
  "collect_postgres c iid =
     bindE (onMW (DSN (co_prov c) iid)) (\<lambda>dsn.
     bindE (onMW (onE (metrics_Collect (co_ops c) (co_driver c) (Now (p_rt (co_prov c))) iid dsn))) (\<lambda>samples.
     onMetrics (metrics_Insert samples)))"

definition collect_container :: "('f, 'e) collectors \<Rightarrow> string \<Rightarrow> string \<Rightarrow> (('f, 'e) monitor, unit) gofun" where
  "collect_container c iid cid =
     bindE (onMW (onE (resource_Collect (co_ops c) (p_rt (co_prov c)) (co_stats c) iid cid))) (\<lambda>rs.
     onMetrics (metrics_Insert rs))"

definition collectMetrics :: "('f, 'e) collectors \<Rightarrow> (('f, 'e) monitor, unit) gofun" where
  "collectMetrics c =
     bindE (onMW (onD instance_List)) (\<lambda>insts.
     forI (\<lambda>inst. when_running inst (
       ignoring (collect_postgres c (i_ID inst)) (
       if i_ContainerID inst \<noteq> [] then collect_container c (i_ID inst) (i_ContainerID inst) else ret ()))) insts)"

text \<open>\<open>ev_seconds\<close> is \<^verbatim>\<open>Duration.Seconds\<close>.\<close>

record ('f, 'e) evaluator =
  ev_ops :: "'f float_ops"
  ev_seconds :: "int \<Rightarrow> 'f"
  ev_host :: "'e host"
  ev_webhook :: "'e webhook_env"
  ev_notifier :: WebhookNotifier

definition backup_ages :: "(int \<Rightarrow> 'f) \<Rightarrow> Report list \<Rightarrow> string \<rightharpoonup> 'f" where
  "backup_ages secs reports =
     fold (\<lambda>rep m. if rp_LastBackupAge rep > 0 then m(rp_InstanceID rep \<mapsto> secs (rp_LastBackupAge rep)) else m) reports Map.empty"

definition alert_snapshot :: "string \<Rightarrow> (string \<rightharpoonup> 'f Sample) \<Rightarrow> (string \<rightharpoonup> 'f) \<Rightarrow> 'f Snapshot" where
  "alert_snapshot iid newest ages = \<lparr>sn_InstanceID = iid,
     DiskFreePercent = map_option sm_Value (newest ''disk_free_percent''),
     ReplicationLagSeconds = map_option sm_Value (newest ''replication_lag_seconds''),
     BackupAgeSeconds = ages iid,
     ConnectionUtilizationPercent = map_option sm_Value (newest ''connection_utilization'')\<rparr>"

definition record_transition :: "string \<Rightarrow> Transition \<Rightarrow> (('f, 'e) monitor, Event) gofun" where
  "record_transition iid t = onMW (onD (event_Record \<lparr>ev_InstanceID = iid, ev_ClusterID = [], ev_Type = ''alert'',
     ev_Message = tr_Message t, ev_Metadata = [(''kind'', tr_Kind t), (''state'', tr_To t), (''severity'', tr_Severity t)]\<rparr>))"

definition evaluate_instance :: "('f, 'e) evaluator \<Rightarrow> (string \<rightharpoonup> 'f) \<Rightarrow> Instance \<Rightarrow> (('f, 'e) monitor, unit) gofun" where
  "evaluate_instance ev ages inst = when_running inst (
     attempt (onMAlerts (ListEffective (i_ID inst))) (\<lambda>rules.
     let defaults = DefaultThresholds (ev_ops ev);
         th = (case rules of Inl _ \<Rightarrow> defaults | Inr rs \<Rightarrow> EffectiveThresholds defaults rs) in
     bindE (onMetrics (metrics_Latest (i_ID inst))) (\<lambda>newest.
     withS (\<lambda>s.
     bindE (onMAlerts (alerts_Sync (i_ID inst) (Evaluate (ev_ops ev) (alert_snapshot (i_ID inst) newest ages) th)
        (Now (ev_host ev) (env (mo_world s))))) (\<lambda>transitions.
     if transitions = [] then ret ()
     else
       ignoring (onMW (onE (Notify (ev_webhook ev) (ev_notifier ev) transitions)))
         (forI (record_transition (i_ID inst)) transitions))))))"

definition evaluateAlerts :: "('f, 'e) evaluator \<Rightarrow> (('f, 'e) monitor, unit) gofun" where
  "evaluateAlerts ev =
     bindE (onMW (onD instance_List)) (\<lambda>insts.
     attempt (onHealth health_List) (\<lambda>reports.
     let ages = backup_ages (ev_seconds ev) (case reports of Inl _ \<Rightarrow> [] | Inr rs \<Rightarrow> rs) in
     forI (evaluate_instance ev ages) insts))"

section \<open>What a pass of the evaluation leaves\<close>

definition kinds_firing :: "'f alert_db \<Rightarrow> string \<Rightarrow> string set" where
  "kinds_firing d iid = {k. (iid, k) \<in> set (fkeys d)}"

definition effective_rules :: "'f Rule list \<Rightarrow> string \<Rightarrow> 'f Rule list" where
  "effective_rules rules iid =
     (let rs = filter (\<lambda>r. ru_Enabled r \<and> (ru_InstanceID r = None \<or> ru_InstanceID r = Some iid)) rules
      in filter (\<lambda>r. ru_InstanceID r = None) rs @ filter (\<lambda>r. ru_InstanceID r \<noteq> None) rs)"

text \<open>The kinds due for an instance: what its latest samples and the age of its last backup give under given thresholds.\<close>

definition kinds_under :: "'f float_ops \<Rightarrow> 'f Thresholds \<Rightarrow> 'f Sample list \<Rightarrow> (string \<rightharpoonup> 'f) \<Rightarrow> string \<Rightarrow> string set" where
  "kinds_under fp th rows ages iid = fi_Kind ` set (Evaluate fp (alert_snapshot iid (latest_of rows iid) ages) th)"

definition kinds_due :: "'f float_ops \<Rightarrow> 'f Rule list \<Rightarrow> 'f Sample list \<Rightarrow> (string \<rightharpoonup> 'f) \<Rightarrow> string \<Rightarrow> string set" where
  "kinds_due fp rules rows ages iid =
     kinds_under fp (EffectiveThresholds (DefaultThresholds fp) (effective_rules rules iid)) rows ages iid"

text \<open>The reports a pass works with: those of the health store, none when the one statement that reads them fails.\<close>

definition reports_read :: "health_db \<Rightarrow> Report list" where
  "reports_read d = (if hs_faults d \<noteq> [] \<and> hd (hs_faults d) then [] else hs_rows d)"

text \<open>
  What a pass may find for an instance: the kinds due under its rules, or, only when a statement of the alert store
  fails (\<open>broken\<close>), so that its rules may not be readable, those under the defaults.
\<close>

definition evaluated :: "bool \<Rightarrow> 'f float_ops \<Rightarrow> 'f Rule list \<Rightarrow> 'f Sample list \<Rightarrow> (string \<rightharpoonup> 'f) \<Rightarrow> string \<Rightarrow> string set \<Rightarrow> bool" where
  "evaluated broken fp rules rows ages iid kinds \<longleftrightarrow>
     kinds = kinds_due fp rules rows ages iid \<or> broken \<and> kinds = kinds_under fp (DefaultThresholds fp) rows ages iid"

text \<open>The operations of the alert store keep the rules and only use up the schedule of failures.\<close>

abbreviation calm :: "'f Rule list \<Rightarrow> bool set \<Rightarrow> 'f alert_db \<Rightarrow> bool" where
  "calm R F s \<equiv> ad_rules s = R \<and> set (ad_faults s) \<subseteq> F"

lemma calm_stmt: "keeps (calm R F) m \<Longrightarrow> keeps (calm R F) (alert_stmt msg m)"
  by (auto simp: keeps_def alert_stmt_def split: list.splits)

lemma calm_sync_findings: "keeps (calm R F) (sync_findings inst now fs)"
proof (induction fs)
  case (Cons f fs)
  have "keeps (calm R F) (alert_upsert inst now f)" by (simp add: keeps_def alert_upsert_def)
  with Cons show ?case unfolding sync_findings.simps by (intro keeps_rules calm_stmt) (auto simp: keeps_def)
qed (simp add: keeps_ret)

lemma calm_resolve_stale: "keeps (calm R F) (resolve_stale inst now as)"
proof (induction as)
  case (Cons a as)
  then show ?case unfolding resolve_stale.simps
    by (intro keeps_rules calm_stmt) (auto simp: keeps_def alert_resolve_def)
qed (simp add: keeps_ret)

lemma calm_Sync: "keeps (calm R F) (alerts_Sync inst fs now)"
proof -
  have tx: "keeps (calm R F) (alert_tx m)" if "keeps (calm R F) m" for m :: "('a alert_db, 'b) gofun"
  proof (rule keepsI)
    fix s assume "calm R F s"
    from keepsD [OF that this] show "calm R F (snd (alert_tx m s))" by (cases "m s") (simp add: alert_tx_def split: sum.split)
  qed
  show ?thesis unfolding alerts_Sync_def Let_def
    by (intro keeps_rules tx calm_stmt calm_sync_findings calm_resolve_stale) (auto simp: keeps_def)
qed

text \<open>
  When no statement of the alert store fails, a synchronisation succeeds. Generated identifiers are fresh, as
  \<^verbatim>\<open>gen_random_uuid()\<close> makes them.
\<close>

definition alerts_ready :: "string set \<Rightarrow> 'f alert_db \<Rightarrow> bool" where
  "alerts_ready ids d \<longleftrightarrow> ad_faults d = [] \<and> ids \<subseteq> set (ad_instances d) \<and> inj_on (ad_uuids d) {ad_next d..} \<and>
     (\<forall>n\<ge>ad_next d. ad_uuids d n \<notin> al_ID ` set (ad_alerts d))"

abbreviation works :: "string set \<Rightarrow> ('f alert_db, 'a) gofun \<Rightarrow> bool" where
  "works ids m \<equiv> (\<forall>d. alerts_ready ids d \<longrightarrow> (\<exists>x d'. m d = (Inr x, d') \<and> alerts_ready ids d'))"

lemma works_bind: "works ids m \<Longrightarrow> (\<And>x. works ids (k x)) \<Longrightarrow> works ids (bindE m k)"
  by (simp add: bindE_def) (metis (no_types, lifting) case_prod_conv sum.case(2))

lemma works_stmt: "works ids m \<Longrightarrow> works ids (alert_stmt msg m)"
  by (simp add: alert_stmt_def alerts_ready_def)

lemma works_ret: "works ids (ret x)"
  by (simp add: ret_def)

lemma same_ids: "(\<And>a. al_ID (up a) = al_ID a) \<Longrightarrow> al_ID ` set (map up as) = al_ID ` set as"
  by (simp add: image_image)

lemma works_upsert: "inst \<in> ids \<Longrightarrow> works ids (alert_upsert inst now f)"
proof (intro allI impI)
  fix d :: "'a alert_db" assume i: "inst \<in> ids" and d: "alerts_ready ids d"
  have im: "al_ID ` set (map (\<lambda>a. if is_firing inst (fi_Kind f) a then a\<lparr>al_Severity := fi_Severity f, al_Message := fi_Message f,
      al_Value := fi_Value f, al_Threshold := fi_Threshold f, al_UpdatedAt := now\<rparr> else a) (ad_alerts d)) = al_ID ` set (ad_alerts d)"
    by (rule same_ids) simp
  show "\<exists>x d'. alert_upsert inst now f d = (Inr x, d') \<and> alerts_ready ids d'"
  proof (cases "list_ex (is_firing inst (fi_Kind f)) (ad_alerts d)")
    case True
    with i d im show ?thesis by (auto simp: alert_upsert_def alerts_ready_def simp del: set_map)
  next
    case False
    have "inj_on (ad_uuids d) {Suc (ad_next d)..}"
      using d by (auto simp: alerts_ready_def intro: inj_on_subset)
    moreover have "ad_uuids d n \<noteq> ad_uuids d (ad_next d)" if "Suc (ad_next d) \<le> n" for n
      using d that inj_onD [of "ad_uuids d" "{ad_next d..}" n "ad_next d"] by (auto simp: alerts_ready_def)
    ultimately show ?thesis using i d False by (auto simp: alert_upsert_def alerts_ready_def)
  qed
qed

lemma works_sync_findings: "inst \<in> ids \<Longrightarrow> works ids (sync_findings inst now fs)"
  by (induction fs) (simp add: works_ret, simp only: sync_findings.simps, intro works_bind works_stmt works_ret works_upsert, auto)

lemma works_resolve: "works ids (alert_resolve inst now k)"
proof (intro allI impI)
  fix d :: "'a alert_db" assume "alerts_ready ids d"
  moreover have "al_ID ` set (map (\<lambda>a. if is_firing inst k a then
       a\<lparr>al_State := StateResolved, al_ResolvedAt := Some now, al_UpdatedAt := now\<rparr> else a) (ad_alerts d)) = al_ID ` set (ad_alerts d)"
    by (rule same_ids) simp
  ultimately show "\<exists>x d'. alert_resolve inst now k d = (Inr x, d') \<and> alerts_ready ids d'"
    by (simp add: alert_resolve_def alerts_ready_def del: set_map)
qed

lemma works_resolve_stale: "works ids (resolve_stale inst now as)"
  by (induction as) (simp add: works_ret, simp only: resolve_stale.simps, intro works_bind works_stmt works_ret works_resolve, auto)

lemma works_Sync: "inst \<in> ids \<Longrightarrow> works ids (alerts_Sync inst fs now)"
proof -
  assume i: "inst \<in> ids"
  have tx: "works ids m \<Longrightarrow> works ids (alert_tx m)" for m :: "('a alert_db, 'b) gofun"
    by (force simp: alert_tx_def)
  show ?thesis unfolding alerts_Sync_def Let_def
    by (intro works_bind tx works_stmt works_ret works_sync_findings [OF i] works_resolve_stale) auto
qed

lemma Sync_done_kinds:
  assumes "alerts_Sync iid fs now d = (Inr ts, d')" "distinct (fkeys d)"
  shows "kinds_firing d' x = (if x = iid then fi_Kind ` set fs else kinds_firing d x)"
proof -
  have "set (fkeys d') = {k \<in> set (fkeys d). fst k \<noteq> iid} \<union> {iid} \<times> fi_Kind ` set fs"
    using alerts_Sync_spec [OF assms] by (simp add: sync_spec_def)
  then show ?thesis by (auto simp: kinds_firing_def)
qed

lemma Sync_kinds:
  assumes "alerts_Sync iid fs now d = (r, d')" "distinct (fkeys d)"
  shows "distinct (fkeys d') \<and> ad_rules d' = ad_rules d \<and> set (ad_faults d') \<subseteq> set (ad_faults d) \<and>
    (\<forall>x. kinds_firing d' x = kinds_firing d x \<or> (x = iid \<and> kinds_firing d' x = fi_Kind ` set fs))"
proof -
  have "calm (ad_rules d) (set (ad_faults d)) d'" using keeps_result [OF calm_Sync _ assms(1)] by blast
  moreover have "kinds_firing d' x = kinds_firing d x \<or> (x = iid \<and> kinds_firing d' x = fi_Kind ` set fs)" for x
  proof (cases r)
    case (Inl e)
    then have "fkeys d' = fkeys d" using alerts_Sync_spec [OF assms] by (simp add: fkeys_def)
    then show ?thesis by (simp add: kinds_firing_def)
  next
    case (Inr ts)
    then show ?thesis using Sync_done_kinds [OF assms(1) [unfolded Inr] assms(2), of x] by auto
  qed
  ultimately show ?thesis using alerts_Sync_spec [OF assms] by blast
qed

definition pass_inv :: "'f float_ops \<Rightarrow> 'f alert_db \<Rightarrow> 'f Sample list \<Rightarrow> (string \<rightharpoonup> 'f) \<Rightarrow> string set \<Rightarrow> ('f, 'e) monitor \<Rightarrow> bool" where
  "pass_inv fp d0 rows ages ids s \<longleftrightarrow>
     calm (ad_rules d0) (set (ad_faults d0)) (mo_alerts s) \<and> md_rows (mo_metrics s) = rows \<and> distinct (fkeys (mo_alerts s)) \<and>
     (\<forall>iid. kinds_firing (mo_alerts s) iid = kinds_firing d0 iid \<or>
        iid \<in> ids \<and> evaluated (True \<in> set (ad_faults d0)) fp (ad_rules d0) rows ages iid (kinds_firing (mo_alerts s) iid))"

lemma pass_inv_world: "keeps (pass_inv fp d0 rows ages ids) (onMW m)"
  by (auto simp: keeps_def pass_inv_def onMW_def split: prod.splits)

lemma ListEffective_frame: "ad_rules (snd (ListEffective iid d)) = ad_rules d \<and> fkeys (snd (ListEffective iid d)) = fkeys d \<and>
    set (ad_faults (snd (ListEffective iid d))) \<subseteq> set (ad_faults d)"
  by (auto simp: ListEffective_def alert_stmt_def Let_def fkeys_def split: list.splits)

lemma ListEffective_result: "ListEffective iid d = (Inr rs, d') \<Longrightarrow> rs = effective_rules (ad_rules d) iid"
  by (auto simp: ListEffective_def alert_stmt_def Let_def effective_rules_def split: list.splits if_splits)

lemma ListEffective_fails: "ListEffective iid d = (Inl e, d') \<Longrightarrow> True \<in> set (ad_faults d)"
  by (auto simp: ListEffective_def alert_stmt_def Let_def split: list.splits if_splits)

lemma pass_inv_Sync:
  assumes "pass_inv fp d0 rows ages ids s" "iid \<in> ids"
    "evaluated (True \<in> set (ad_faults d0)) fp (ad_rules d0) rows ages iid (fi_Kind ` set fs)"
  shows "pass_inv fp d0 rows ages ids (snd (onMAlerts (alerts_Sync iid fs now) s))"
proof -
  obtain r d' where d': "alerts_Sync iid fs now (mo_alerts s) = (r, d')" by fastforce
  have "distinct (fkeys (mo_alerts s))" using assms(1) by (simp add: pass_inv_def)
  from Sync_kinds [OF d' this] assms show ?thesis
    unfolding pass_inv_def onMAlerts_def d' by simp (metis subset_trans)
qed

lemma evaluate_instance_keeps:
  fixes ev :: "('f, 'e) evaluator"
  assumes "i_Status inst = StatusRunning \<Longrightarrow> i_ID inst \<in> ids"
  shows "keeps (pass_inv (ev_ops ev) d0 rows ages ids) (evaluate_instance ev ages inst)"
proof (cases "i_Status inst = StatusRunning")
  case False
  then show ?thesis by (simp add: evaluate_instance_def when_running_def keeps_ret)
next
  case True
  let ?I = "pass_inv (ev_ops ev) d0 rows ages ids" and ?D = "DefaultThresholds (ev_ops ev)"
  have ids: "i_ID inst \<in> ids" using assms True by simp
  define th_of where "th_of r = (case r of Inl (_ :: goerr) \<Rightarrow> ?D | Inr rs \<Rightarrow> EffectiveThresholds ?D rs)" for r
  have tail: "keeps ?I (
       ignoring (onMW (onE (Notify (ev_webhook ev) (ev_notifier ev) ts))) (forI (record_transition (i_ID inst)) ts))" for ts
    unfolding record_transition_def by (intro keeps_rules pass_inv_world)
  have sync: "?I (snd (bindE (onMAlerts (alerts_Sync (i_ID inst) fs t)) (\<lambda>ts. if ts = [] then ret () else
       ignoring (onMW (onE (Notify (ev_webhook ev) (ev_notifier ev) ts))) (forI (record_transition (i_ID inst)) ts)) s))"
    if "?I s" "evaluated (True \<in> set (ad_faults d0)) (ev_ops ev) (ad_rules d0) rows ages (i_ID inst) (fi_Kind ` set fs)" for fs t s
    using pass_inv_Sync [OF that(1) ids that(2), of t] keepsD [OF tail, unfolded prog_run]
    by (auto simp: prog_run split: prod.splits sum.splits)
  show ?thesis
  proof (rule keepsI)
    fix s :: "('f, 'e) monitor" assume s: "?I s"
    obtain r d1 where l: "ListEffective (i_ID inst) (mo_alerts s) = (r, d1)" by fastforce
    let ?s1 = "s\<lparr>mo_alerts := d1\<rparr>"
    have r: "\<And>rs. r = Inr rs \<Longrightarrow> rs = effective_rules (ad_rules d0) (i_ID inst)"
      using ListEffective_result [of "i_ID inst" "mo_alerts s"] l s by (simp add: pass_inv_def)
    have s1: "?I ?s1" using s ListEffective_frame [of "i_ID inst" "mo_alerts s"] l by (auto simp: pass_inv_def kinds_firing_def)
    obtain n d2 where n: "metrics_Latest (i_ID inst) (mo_metrics s) = (n, d2)" by fastforce
    let ?s2 = "?s1\<lparr>mo_metrics := d2\<rparr>"
    have s2: "?I ?s2" using s1 metrics_Latest_frame [of "i_ID inst" "mo_metrics s"] n by (simp add: pass_inv_def)
    have newest: "\<And>m. n = Inr m \<Longrightarrow> m = latest_of rows (i_ID inst)"
      using metrics_Latest_result [of "i_ID inst" "mo_metrics s"] n s by (simp add: pass_inv_def)
    show "?I (snd (evaluate_instance ev ages inst s))"
    proof (cases n)
      case (Inl e)
      then show ?thesis using True l n s2
        by (simp add: evaluate_instance_def when_running_def prog_run onMAlerts_def onMetrics_def Let_def)
    next
      case (Inr m)
      let ?fs = "Evaluate (ev_ops ev) (alert_snapshot (i_ID inst) m ages) (th_of r)"
      have "True \<in> set (ad_faults d0) \<and> th_of r = ?D \<or> th_of r = EffectiveThresholds ?D (effective_rules (ad_rules d0) (i_ID inst))"
        using r s ListEffective_fails [of "i_ID inst" "mo_alerts s"] l by (cases r) (auto simp: th_of_def pass_inv_def)
      then have "evaluated (True \<in> set (ad_faults d0)) (ev_ops ev) (ad_rules d0) rows ages (i_ID inst) (fi_Kind ` set ?fs)"
        unfolding evaluated_def kinds_due_def kinds_under_def newest [OF Inr] by auto
      from sync [OF s2 this, of "Now (ev_host ev) (env (mo_world ?s2))"] True l n Inr show ?thesis
        by (simp add: evaluate_instance_def when_running_def prog_run onMAlerts_def onMetrics_def Let_def th_of_def)
    qed
  qed
qed

text \<open>A pass in which no statement fails evaluates every running instance.\<close>

definition pass_done :: "'f float_ops \<Rightarrow> 'f alert_db \<Rightarrow> 'f Sample list \<Rightarrow> (string \<rightharpoonup> 'f) \<Rightarrow> string set \<Rightarrow> string set \<Rightarrow> ('f, 'e) monitor \<Rightarrow> bool" where
  "pass_done fp d0 rows ages ids D s \<longleftrightarrow>
     alerts_ready ids (mo_alerts s) \<and> ad_rules (mo_alerts s) = ad_rules d0 \<and> md_faults (mo_metrics s) = [] \<and>
     md_rows (mo_metrics s) = rows \<and> distinct (fkeys (mo_alerts s)) \<and>
     (\<forall>x. kinds_firing (mo_alerts s) x = (if x \<in> D then kinds_due fp (ad_rules d0) rows ages x else kinds_firing d0 x))"

lemma pass_done_world: "keeps (pass_done fp d0 rows ages ids D) (onMW m)"
  by (auto simp: keeps_def pass_done_def onMW_def split: prod.splits)

lemma pass_done_Sync:
  assumes s: "pass_done fp d0 rows ages ids D s" and i: "iid \<in> ids" and fs: "fi_Kind ` set fs = kinds_due fp (ad_rules d0) rows ages iid"
  obtains ts s' where "onMAlerts (alerts_Sync iid fs now) s = (Inr ts, s')" "pass_done fp d0 rows ages ids (insert iid D) s'"
proof -
  from works_Sync [OF i, of fs now] s obtain ts d' where d': "alerts_Sync iid fs now (mo_alerts s) = (Inr ts, d')" and rd: "alerts_ready ids d'"
    unfolding pass_done_def by blast
  have "distinct (fkeys (mo_alerts s))" using s by (simp add: pass_done_def)
  note k = Sync_kinds [OF d' this] Sync_done_kinds [OF d' this]
  show ?thesis
    by (rule that [of ts "s\<lparr>mo_alerts := d'\<rparr>"]) (use d' rd k s fs in \<open>auto simp: onMAlerts_def pass_done_def\<close>)
qed

lemma evaluate_instance_done:
  fixes ev :: "('f, 'e) evaluator"
  assumes s: "pass_done (ev_ops ev) d0 rows ages ids D s" and i: "i_Status inst = StatusRunning" "i_ID inst \<in> ids"
  shows "pass_done (ev_ops ev) d0 rows ages ids (insert (i_ID inst) D) (snd (evaluate_instance ev ages inst s))"
proof -
  let ?fs = "Evaluate (ev_ops ev) (alert_snapshot (i_ID inst) (latest_of rows (i_ID inst)) ages)
     (EffectiveThresholds (DefaultThresholds (ev_ops ev)) (effective_rules (ad_rules d0) (i_ID inst)))"
  have l: "onMAlerts (ListEffective (i_ID inst)) s = (Inr (effective_rules (ad_rules d0) (i_ID inst)), s)"
    using s by (simp add: onMAlerts_def ListEffective_def alert_stmt_def effective_rules_def Let_def pass_done_def alerts_ready_def)
  have m: "onMetrics (metrics_Latest (i_ID inst)) s = (Inr (latest_of rows (i_ID inst)), s)"
    using s by (simp add: onMetrics_def metrics_Latest_def mstmt_def pass_done_def)
  obtain ts s' where y: "onMAlerts (alerts_Sync (i_ID inst) ?fs (Now (ev_host ev) (env (mo_world s)))) s = (Inr ts, s')"
      "pass_done (ev_ops ev) d0 rows ages ids (insert (i_ID inst) D) s'"
    by (rule pass_done_Sync [OF s i(2), of ?fs]) (simp_all add: kinds_due_def kinds_under_def)
  have "evaluate_instance ev ages inst s = (if ts = [] then ret () else
       ignoring (onMW (onE (Notify (ev_webhook ev) (ev_notifier ev) ts))) (forI (record_transition (i_ID inst)) ts)) s'"
    unfolding evaluate_instance_def when_running_def using i(1) l m y(1) by (simp add: prog_run Let_def)
  moreover have "keeps (pass_done (ev_ops ev) d0 rows ages ids (insert (i_ID inst) D)) (if ts = [] then ret () else
       ignoring (onMW (onE (Notify (ev_webhook ev) (ev_notifier ev) ts))) (forI (record_transition (i_ID inst)) ts))"
    unfolding record_transition_def by (intro keeps_rules pass_done_world)
  ultimately show ?thesis using keepsD y(2) by fastforce
qed

lemma pass_completes:
  fixes ev :: "('f, 'e) evaluator"
  assumes "pass_done (ev_ops ev) d0 rows ages ids D s" "i_ID ` {i \<in> set insts. i_Status i = StatusRunning} \<subseteq> ids"
  shows "pass_done (ev_ops ev) d0 rows ages ids (D \<union> i_ID ` {i \<in> set insts. i_Status i = StatusRunning})
     (snd ((forI (evaluate_instance ev ages) insts :: (('f, 'e) monitor, unit) gofun) s))"
  using assms
proof (induction insts arbitrary: D s)
  case (Cons a insts)
  let ?s1 = "snd (evaluate_instance ev ages a s)" and ?D = "if i_Status a = StatusRunning then insert (i_ID a) D else D"
  have "pass_done (ev_ops ev) d0 rows ages ids ?D ?s1"
  proof (cases "i_Status a = StatusRunning")
    case True
    with evaluate_instance_done [OF Cons.prems(1) True] Cons.prems(2) show ?thesis by auto
  next
    case False
    with Cons.prems(1) show ?thesis by (simp add: evaluate_instance_def when_running_def ret_def)
  qed
  then have "pass_done (ev_ops ev) d0 rows ages ids (?D \<union> i_ID ` {i \<in> set insts. i_Status i = StatusRunning})
     (snd ((forI (evaluate_instance ev ages) insts :: (('f, 'e) monitor, unit) gofun) ?s1))"
    using Cons.prems(2) by (intro Cons.IH) auto
  moreover have "D \<union> i_ID ` {i \<in> set (a # insts). i_Status i = StatusRunning} = ?D \<union> i_ID ` {i \<in> set insts. i_Status i = StatusRunning}"
    by auto
  moreover have "snd ((forI (evaluate_instance ev ages) (a # insts) :: (('f, 'e) monitor, unit) gofun) s) =
      snd ((forI (evaluate_instance ev ages) insts :: (('f, 'e) monitor, unit) gofun) ?s1)"
    by (simp add: prog_run split: prod.split)
  ultimately show ?case by metis
qed (simp add: ret_def)

definition running_ids :: "('f, 'e) monitor \<Rightarrow> string set" where
  "running_ids s = i_ID ` {i \<in> set (instances (db (mo_world s))). i_Status i = StatusRunning}"

lemma evaluateAlerts_run:
  assumes "evaluateAlerts ev s = (r, s')"
  obtains (unread) e where "fst (onD instance_List (mo_world s)) = Inl e" "mo_alerts s' = mo_alerts s"
  | (read) insts w1 h1 where "onD instance_List (mo_world s) = (Inr insts, w1)" "set insts = set (instances (db (mo_world s)))"
      "forI (evaluate_instance ev (backup_ages (ev_seconds ev) (reports_read (mo_health s)))) insts
         (s\<lparr>mo_world := w1, mo_health := h1\<rparr>) = (r, s')"
proof -
  obtain l w1 where l: "onD instance_List (mo_world s) = (l, w1)" by fastforce
  have l': "\<And>insts. l = Inr insts \<Longrightarrow> set insts = set (instances (db (mo_world s)))"
    using l by (auto simp: onD_def instance_List_def queryMany_def stmt_def split: prod.splits list.splits if_splits)
  obtain hr h1 where h: "health_List (mo_health s) = (hr, h1)" by fastforce
  have h': "(case hr of Inl _ \<Rightarrow> [] | Inr rs \<Rightarrow> rs) = reports_read (mo_health s)"
    using h by (auto simp: health_List_def hstmt_def reports_read_def split: list.splits if_splits)
  show ?thesis
  proof (cases l)
    case (Inl e)
    then show ?thesis using assms l by (intro unread [of e]) (auto simp: evaluateAlerts_def prog_run onMW_def)
  next
    case (Inr insts)
    then show ?thesis using assms l l' h h'
      by (intro read [of insts w1 h1]) (simp_all add: evaluateAlerts_def prog_run onMW_def onHealth_def Let_def)
  qed
qed

text \<open>
  C11. Alert evaluation is sound and complete across the whole pipeline. After a pass, whatever failed on the way, at most one alert
  fires per instance and kind, and for each instance the kinds that fire are either the ones that
  fired before, or, only for a running instance, exactly those that its latest samples and the age of its last backup give under the
  thresholds of its own rules. The thresholds are the defaults only if a statement of the alert store failed, and
  backup ages are missing only if the read of the health reports failed. When no statement
  fails, every running instance has exactly the kinds due to it, and every other instance those it had.
\<close>

theorem evaluateAlerts_sound:
  assumes run: "evaluateAlerts ev s = (r, s')" and keys: "distinct (fkeys (mo_alerts s))"
  shows "distinct (fkeys (mo_alerts s')) \<and>
    (\<forall>iid. kinds_firing (mo_alerts s') iid = kinds_firing (mo_alerts s) iid \<or>
      iid \<in> running_ids s \<and>
      evaluated (True \<in> set (ad_faults (mo_alerts s))) (ev_ops ev) (ad_rules (mo_alerts s)) (md_rows (mo_metrics s))
        (backup_ages (ev_seconds ev) (reports_read (mo_health s))) iid (kinds_firing (mo_alerts s') iid)) \<and>
    (faults (db (mo_world s)) = [] \<and> hs_faults (mo_health s) = [] \<and> md_faults (mo_metrics s) = [] \<and>
     alerts_ready (running_ids s) (mo_alerts s) \<longrightarrow>
      (\<forall>iid. kinds_firing (mo_alerts s') iid =
         (if iid \<in> running_ids s then kinds_due (ev_ops ev) (ad_rules (mo_alerts s)) (md_rows (mo_metrics s))
            (backup_ages (ev_seconds ev) (hs_rows (mo_health s))) iid
          else kinds_firing (mo_alerts s) iid)))"
  using run
proof (cases rule: evaluateAlerts_run)
  case (unread e)
  then have "faults (db (mo_world s)) \<noteq> []"
    by (auto simp: onD_def instance_List_def queryMany_def stmt_def split: prod.splits list.splits)
  with unread keys show ?thesis by simp
next
  case (read insts w1 h1)
  let ?ages = "backup_ages (ev_seconds ev) (reports_read (mo_health s))" and ?s1 = "s\<lparr>mo_world := w1, mo_health := h1\<rparr>"
  have ids: "i_ID ` {i \<in> set insts. i_Status i = StatusRunning} = running_ids s" by (simp add: running_ids_def read(2))
  have i0: "pass_inv (ev_ops ev) (mo_alerts s) (md_rows (mo_metrics s)) ?ages (running_ids s) ?s1"
    using keys by (simp add: pass_inv_def)
  have kp: "keeps (pass_inv (ev_ops ev) (mo_alerts s) (md_rows (mo_metrics s)) ?ages (running_ids s)) (forI (evaluate_instance ev ?ages) insts)"
    unfolding ids [symmetric] by (intro keeps_forI evaluate_instance_keeps) auto
  note inv = keeps_result [OF kp i0 read(3)]
  have "\<forall>iid. kinds_firing (mo_alerts s') iid =
      (if iid \<in> running_ids s then kinds_due (ev_ops ev) (ad_rules (mo_alerts s)) (md_rows (mo_metrics s)) ?ages iid
       else kinds_firing (mo_alerts s) iid)"
    if "md_faults (mo_metrics s) = []" "alerts_ready (running_ids s) (mo_alerts s)"
  proof -
    have "pass_done (ev_ops ev) (mo_alerts s) (md_rows (mo_metrics s)) ?ages (running_ids s) {} ?s1"
      using keys that by (simp add: pass_done_def)
    then have "pass_done (ev_ops ev) (mo_alerts s) (md_rows (mo_metrics s)) ?ages (running_ids s) ({} \<union> running_ids s) s'"
      using pass_completes [of ev "mo_alerts s" "md_rows (mo_metrics s)" ?ages "running_ids s" "{}" ?s1 insts] unfolding ids read(3) by simp
    then show ?thesis by (simp add: pass_done_def)
  qed
  moreover have "reports_read (mo_health s) = hs_rows (mo_health s)" if "hs_faults (mo_health s) = []"
    using that by (simp add: reports_read_def)
  ultimately show ?thesis using inv unfolding pass_inv_def by auto
qed

definition demo_monitor :: "(int, fake_env) monitor" where
  "demo_monitor = \<lparr>mo_world = demo_running_world [], mo_health = \<lparr>hs_faults = [], hs_known = [''i1''], hs_now = 0, hs_rows = []\<rparr>,
     mo_metrics = \<lparr>md_faults = [], md_instances = [''i1''],
       md_rows = [\<lparr>sm_InstanceID = ''i1'', sm_Metric = ''replication_lag_seconds'', sm_Value = 90, sm_At = 5\<rparr>]\<rparr>,
     mo_alerts = demo_alert_db\<rparr>"

definition plain_floats :: "int float_ops" where
  "plain_floats = demo_floats\<lparr>f_fmt := (\<lambda>_ _. [])\<rparr>"

definition demo_evaluator :: "(int, fake_env) evaluator" where
  "demo_evaluator = \<lparr>ev_ops = plain_floats, ev_seconds = (\<lambda>d. d div 1000000000), ev_host = p_rt demo_provisioner,
     ev_webhook = \<lparr>we_ipText = (\<lambda>_. []), we_Marshal = (\<lambda>_. Inr []), we_NewRequest = (\<lambda>_. None), we_Do = (\<lambda>_ _. ret 200)\<rparr>,
     ev_notifier = NewWebhookNotifier [] 0\<rparr>"

lemma kinds_firing_filter: "kinds_firing d iid = snd ` set (filter (\<lambda>k. fst k = iid) (fkeys d))"
  by (force simp: kinds_firing_def)

lemma demo_pass: "kinds_firing (mo_alerts (snd (evaluateAlerts demo_evaluator demo_monitor))) ''i1'' = {KindReplicationLag}"
proof -
  let ?w = "mo_world demo_monitor" and ?m = "mo_metrics demo_monitor" and ?h = "mo_health demo_monitor"
  let ?rules = "[demo_rule ''r2'' None 120, demo_rule ''r1'' (Some ''i1'') 60]"
  let ?fs = "Evaluate plain_floats (alert_snapshot ''i1'' (latest_of (md_rows ?m) ''i1'') Map.empty)
    (EffectiveThresholds (DefaultThresholds plain_floats) ?rules)"
  have l: "onD instance_List ?w = (Inr [demo_running], ?w)"
    by (simp add: demo_monitor_def demo_running_world_def onD_def instance_List_def queryMany_def stmt_def demo_db_def demo_running_def demo_instance_def)
  have h: "health_List ?h = (Inr [], ?h)" by (simp add: demo_monitor_def health_List_def hstmt_def)
  have rules: "ListEffective ''i1'' (mo_alerts demo_monitor) = (Inr ?rules, mo_alerts demo_monitor)"
    by (simp add: demo_monitor_def ListEffective_def alert_stmt_def demo_alert_db_def demo_rule_def Let_def)
  have m: "metrics_Latest ''i1'' ?m = (Inr (latest_of (md_rows ?m) ''i1''), ?m)"
    by (simp add: demo_monitor_def metrics_Latest_def mstmt_def)
  have now: "Now (p_rt demo_provisioner) (env ?w) = 0" by code_simp
  have "case alerts_Sync ''i1'' ?fs 0 demo_alert_db of (Inr ts, d) \<Rightarrow>
      ts \<noteq> [] \<and> filter (\<lambda>k. fst k = ''i1'') (fkeys d) = [(''i1'', KindReplicationLag)] | _ \<Rightarrow> False"
    by code_simp
  then obtain ts d where sync: "alerts_Sync ''i1'' ?fs 0 (mo_alerts demo_monitor) = (Inr ts, d)" "ts \<noteq> []"
      "filter (\<lambda>k. fst k = ''i1'') (fkeys d) = [(''i1'', KindReplicationLag)]"
    by (auto simp: demo_monitor_def split: prod.splits sum.splits)
  let ?ev = demo_evaluator
  define tail :: "Transition list \<Rightarrow> ((int, fake_env) monitor, unit) gofun" where
    "tail ts = ignoring (onMW (onE (Notify (ev_webhook ?ev) (ev_notifier ?ev) ts))) (forI (record_transition ''i1'') ts)" for ts
  have kp: "keeps (\<lambda>s. mo_alerts s = d) (tail ts)"
    unfolding tail_def record_transition_def by (intro keeps_rules) (auto simp: keeps_def onMW_def split: prod.splits)
  have ev: "ev_ops ?ev = plain_floats" "ev_host ?ev = p_rt demo_provisioner" by (simp_all add: demo_evaluator_def)
  have inst: "i_ID demo_running = ''i1''" "i_Status demo_running = StatusRunning" by (simp_all add: demo_running_def demo_instance_def)
  have one: "evaluate_instance ?ev Map.empty demo_running demo_monitor = tail ts (demo_monitor\<lparr>mo_alerts := d\<rparr>)"
    unfolding evaluate_instance_def when_running_def inst ev tail_def [symmetric]
    using rules m now sync(1,2) by (simp add: prog_run onMAlerts_def onMetrics_def Let_def)
  have "snd (evaluateAlerts ?ev demo_monitor) = snd (evaluate_instance ?ev Map.empty demo_running demo_monitor)"
    using l h by (simp add: evaluateAlerts_def prog_run onMW_def onHealth_def backup_ages_def)
  then have "mo_alerts (snd (evaluateAlerts ?ev demo_monitor)) = d"
    using keepsD [OF kp, of "demo_monitor\<lparr>mo_alerts := d\<rparr>"] by (simp add: one)
  then show ?thesis by (simp only: kinds_firing_filter sync(3)) simp
qed

lemma demo_running_ids: "running_ids demo_monitor = {''i1''}"
proof -
  have "instances (db (mo_world demo_monitor)) = [demo_running]" by (simp add: demo_monitor_def demo_running_world_def demo_db_def)
  moreover have "i_ID demo_running = ''i1''" "i_Status demo_running = StatusRunning" by (simp_all add: demo_running_def demo_instance_def)
  ultimately have "running_ids demo_monitor = i_ID ` {demo_running}" unfolding running_ids_def by auto
  with \<open>i_ID demo_running = ''i1''\<close> show ?thesis by simp
qed

lemma demo_alerts_ready: "alerts_ready {''i1''} demo_alert_db"
proof -
  have "show_nat n \<noteq> CHR ''i'' # s" for n s using show_nat_digits [of n] by (auto simp: list_all_iff is_digit_def byte_val_def)
  then show ?thesis by (auto simp: alerts_ready_def demo_alert_db_def demo_alert_def inj_on_def)
qed

theorem evaluateAlerts_sound_witness:
  "\<exists>s'. snd (evaluateAlerts demo_evaluator demo_monitor) = s' \<and>
     kinds_firing (mo_alerts s') ''i1'' = {KindReplicationLag} \<and> distinct (fkeys (mo_alerts s')) \<and>
     kinds_due plain_floats (ad_rules demo_alert_db) (md_rows (mo_metrics demo_monitor)) Map.empty ''i1'' = {KindReplicationLag} \<and>
     kinds_firing (mo_alerts s') ''i2'' = {KindDiskFull}"
proof -
  obtain r s' where run: "evaluateAlerts demo_evaluator demo_monitor = (r, s')" by fastforce
  have k: "fkeys (mo_alerts demo_monitor) = [(''i1'', KindDiskFull), (''i2'', KindDiskFull)]"
    by (simp add: demo_monitor_def fkeys_def demo_alert_db_def demo_alert_def)
  then have d: "distinct (fkeys (mo_alerts demo_monitor))" by simp
  have fire: "kinds_firing (mo_alerts s') ''i1'' = {KindReplicationLag}" using demo_pass run by simp
  have old: "kinds_firing (mo_alerts demo_monitor) ''i2'' = {KindDiskFull}" using k by (auto simp: kinds_firing_def)
  have m: "ev_ops demo_evaluator = plain_floats" "mo_alerts demo_monitor = demo_alert_db" "hs_rows (mo_health demo_monitor) = []"
    "faults (db (mo_world demo_monitor)) = []" "hs_faults (mo_health demo_monitor) = []" "md_faults (mo_metrics demo_monitor) = []"
    by (simp_all add: demo_evaluator_def demo_monitor_def demo_running_world_def demo_db_def)
  note sound = evaluateAlerts_sound [OF run d]
  have "alerts_ready (running_ids demo_monitor) (mo_alerts demo_monitor)" by (simp add: demo_running_ids m demo_alerts_ready)
  with sound m have "\<forall>iid. kinds_firing (mo_alerts s') iid = (if iid \<in> running_ids demo_monitor then
      kinds_due plain_floats (ad_rules demo_alert_db) (md_rows (mo_metrics demo_monitor)) (backup_ages (ev_seconds demo_evaluator) []) iid
      else kinds_firing (mo_alerts demo_monitor) iid)" by simp
  from spec [OF this, of "''i1''"] spec [OF this, of "''i2''"] fire old conjunct1 [OF sound] run show ?thesis
    by (simp add: demo_running_ids backup_ages_def)
qed

end
