(* ===== verification/Compose.thy ===== *)
theory Compose
  imports MetaDB PgTools
begin

text \<open>
  Downloadable compose files: package \<^verbatim>\<open>internal/composegen\<close>, a pure string builder, and the handlers of
  \<^verbatim>\<open>internal/api/compose.go\<close> that map an instance or a cluster onto its input.

  A document is the list of its lines, each written with its newline; \<open>%q\<close> is \<open>Quote\<close>.
\<close>

section \<open>The builder (composegen/compose.go)\<close>

definition containerName :: "string \<Rightarrow> string" where "containerName name = ''pgfleet-pg-'' @ name"
definition dataVolume :: "string \<Rightarrow> string" where "dataVolume name = ''pgfleet-data-'' @ name"
definition repoVolume :: "string \<Rightarrow> string" where "repoVolume name = ''pgfleet-repo-'' @ name"
definition routerName :: "string \<Rightarrow> string" where "routerName cluster = ''pgfleet-router-'' @ cluster"

record InstanceComposeInput =
  ii_Name :: string
  ii_PGVersion :: string
  ii_Image :: string
  ii_Port :: int
  ii_RepoType :: string
  ii_Superuser :: string

record ClusterComposeInput =
  ki_Name :: string
  ki_PrimaryName :: string
  ki_PGVersion :: string
  ki_Image :: string
  ki_Port :: int
  ki_RepoType :: string
  ki_Superuser :: string
  ki_Replicas :: "string list"
  ki_PgCatImage :: string
  ki_RouterPort :: int

definition instanceVolumes :: "string \<Rightarrow> string \<Rightarrow> string list" where
  "instanceVolumes name repoType = [dataVolume name] @ (if repoType \<noteq> ''s3'' then [repoVolume name] else [])"

definition writeHeader :: "string \<Rightarrow> string \<Rightarrow> string list" where
  "writeHeader name pgVersion =
     [''# Generated by PgFleet for '' @ Quote name @ '' (pg version '' @ pgVersion @ '')'',
      ''# Reproduces how PgFleet runs this; review before use.'']"

definition port_line :: "int \<Rightarrow> int \<Rightarrow> string" where
  "port_line hostPort containerPort = ''      - '' @ [dquote] @ Itoa hostPort @ '':'' @ Itoa containerPort @ [dquote]"

definition writeInstanceService :: "string \<Rightarrow> string \<Rightarrow> string \<Rightarrow> string \<Rightarrow> int \<Rightarrow> int \<Rightarrow> string list \<Rightarrow> string list" where
  "writeInstanceService name img superuser repoType hostPort containerPort deps =
     (let svc = containerName name; su = (if superuser = [] then ''postgres'' else superuser) in
      [''  '' @ svc @ '':'',
       ''    image: '' @ img,
       ''    container_name: '' @ svc,
       ''    restart: unless-stopped'',
       ''    environment:'',
       ''      POSTGRES_USER: '' @ su,
       ''      POSTGRES_PASSWORD: ${POSTGRES_PASSWORD}'',
       ''      POSTGRES_DB: postgres'',
       ''    ports:'',
       port_line hostPort containerPort,
       ''    volumes:'',
       ''      - '' @ dataVolume name @ '':/var/lib/postgresql/data''] @
      (if repoType \<noteq> ''s3'' then [''      - '' @ repoVolume name @ '':/var/lib/pgbackrest''] else []) @
      (if 0 < length deps then ''    depends_on:'' # map (\<lambda>d. ''      - '' @ d) deps else []) @
      [''    healthcheck:'',
       ''      test: ['' @ [dquote] @ ''CMD-SHELL'' @ [dquote] @ '', '' @ [dquote] @ ''pg_isready -U '' @ su @ [dquote] @ '']'',
       ''      interval: 10s'',
       ''      timeout: 5s'',
       ''      retries: 5''])"

definition writeRouterService :: "string \<Rightarrow> string \<Rightarrow> string \<Rightarrow> int \<Rightarrow> string list \<Rightarrow> string list" where
  "writeRouterService cluster primaryName pgcatImage routerPort replicas =
     [''  '' @ routerName cluster @ '':'',
      ''    image: '' @ pgcatImage,
      ''    container_name: '' @ routerName cluster,
      ''    restart: unless-stopped'',
      ''    # The router needs its generated pgcat.toml mounted at /etc/pgcat/pgcat.toml'',
      ''    # (PgFleet generates it with the cluster'' @ [squote] @ ''s credentials and member backends).'',
      ''    ports:'',
      port_line routerPort routerPort,
      ''    depends_on:'',
      ''      - '' @ containerName primaryName] @
     map (\<lambda>r. ''      - '' @ containerName r) replicas"

text \<open>The lines that both documents have between the header and the first service.\<close>

definition preamble :: "string list" where
  "preamble = [''# set POSTGRES_PASSWORD in a .env file next to this compose file.'',
     ''version: '' @ [dquote] @ ''3.8'' @ [dquote], [], ''services:'']"

definition volume_line :: "string \<Rightarrow> string" where
  "volume_line v = ''  '' @ v @ '':''"

definition instance_lines :: "InstanceComposeInput \<Rightarrow> string list" where
  "instance_lines i =
     (let port = (if ii_Port i = 0 then 5432 else ii_Port i) in
      writeHeader (ii_Name i) (ii_PGVersion i) @ preamble @
      writeInstanceService (ii_Name i) (ii_Image i) (ii_Superuser i) (ii_RepoType i) port port [] @ [[]] @
      [''volumes:''] @ map volume_line (instanceVolumes (ii_Name i) (ii_RepoType i)))"

definition cluster_port :: "ClusterComposeInput \<Rightarrow> int" where
  "cluster_port c = (if ki_Port c = 0 then 5432 else ki_Port c)"

definition cluster_router_port :: "ClusterComposeInput \<Rightarrow> int" where
  "cluster_router_port c = (if ki_RouterPort c = 0 then 6432 else ki_RouterPort c)"

fun replica_lines :: "ClusterComposeInput \<Rightarrow> int \<Rightarrow> string list \<Rightarrow> string list" where
  "replica_lines c i [] = []"
| "replica_lines c i (r # rs) =
     writeInstanceService r (ki_Image c) (ki_Superuser c) (ki_RepoType c) (cluster_port c + 1 + i) (cluster_port c)
       [containerName (ki_PrimaryName c)] @ [[]] @ replica_lines c (i + 1) rs"

definition cluster_lines :: "ClusterComposeInput \<Rightarrow> string list" where
  "cluster_lines c =
     writeHeader (ki_Name c) (ki_PGVersion c) @ preamble @
     writeInstanceService (ki_PrimaryName c) (ki_Image c) (ki_Superuser c) (ki_RepoType c) (cluster_port c) (cluster_port c) [] @ [[]] @
     replica_lines c 0 (ki_Replicas c) @
     writeRouterService (ki_Name c) (ki_PrimaryName c) (ki_PgCatImage c) (cluster_router_port c) (ki_Replicas c) @ [[]] @
     [''volumes:''] @ concat (map (\<lambda>name. map volume_line (instanceVolumes name (ki_RepoType c))) (ki_PrimaryName c # ki_Replicas c))"

definition write_lines :: "string list \<Rightarrow> string" where
  "write_lines ls = concat (map (\<lambda>l. l @ [nl]) ls)"

definition InstanceCompose :: "InstanceComposeInput \<Rightarrow> string" where
  "InstanceCompose i = write_lines (instance_lines i)"

definition ClusterCompose :: "ClusterComposeInput \<Rightarrow> string" where
  "ClusterCompose c = write_lines (cluster_lines c)"

section \<open>The handlers (api/compose.go)\<close>

record compose_response =
  cr_type :: string
  cr_disposition :: string
  cr_body :: string

definition writeCompose :: "string \<Rightarrow> string \<Rightarrow> nat \<times> compose_response" where
  "writeCompose name yaml = (200, \<lparr>cr_type = ''application/yaml'',
     cr_disposition = ''attachment; filename='' @ [dquote] @ name @ ''-compose.yml'' @ [dquote], cr_body = yaml\<rparr>)"

definition compose_GetInstance :: "string \<Rightarrow> (metadb, nat \<times> compose_response) gofun" where
  "compose_GetInstance iid =
     bindE (instance_Get iid) (\<lambda>inst.
     ret (writeCompose (i_Name inst) (InstanceCompose \<lparr>ii_Name = i_Name inst, ii_PGVersion = i_PGVersion inst, ii_Image = i_Image inst,
       ii_Port = 5432, ii_RepoType = repo_string (i_RepoType inst), ii_Superuser = i_Superuser inst\<rparr>)))"

text \<open>The index of the first member with the role, else of the first member; \<open>None\<close> is -1.\<close>

fun index_of_primary :: "Instance list \<Rightarrow> nat option" where
  "index_of_primary [] = None"
| "index_of_primary (m # ms) = (if i_Role m = RolePrimary then Some 0 else map_option Suc (index_of_primary ms))"

definition primaryIdx :: "Instance list \<Rightarrow> nat option" where
  "primaryIdx members = (case index_of_primary members of
       Some i \<Rightarrow> Some i
     | None \<Rightarrow> if 0 < length members then Some 0 else None)"

definition compose_input :: "string \<Rightarrow> Instance list \<Rightarrow> ClusterComposeInput" where
  "compose_input name members =
     (let base = \<lparr>ki_Name = name, ki_PrimaryName = [], ki_PGVersion = [], ki_Image = [], ki_Port = 5432, ki_RepoType = [],
            ki_Superuser = [], ki_Replicas = [], ki_PgCatImage = ''ghcr.io/postgresml/pgcat:latest'', ki_RouterPort = 6432\<rparr>
      in case primaryIdx members of
           None \<Rightarrow> base
         | Some k \<Rightarrow> let p = members ! k in
             base\<lparr>ki_PrimaryName := i_Name p, ki_PGVersion := i_PGVersion p, ki_Image := i_Image p,
               ki_RepoType := repo_string (i_RepoType p), ki_Superuser := i_Superuser p,
               ki_Replicas := map i_Name (take k members @ drop (Suc k) members)\<rparr>)"

definition compose_GetCluster :: "string \<Rightarrow> (metadb, nat \<times> compose_response) gofun" where
  "compose_GetCluster cid =
     bindE (cluster_Get cid) (\<lambda>cl.
     bindE (instance_ListByCluster cid) (\<lambda>members.
     ret (writeCompose (c_Name cl) (ClusterCompose (compose_input (c_Name cl) members)))))"

section \<open>Reading a document back\<close>

text \<open>The lines of the document that publish a port.\<close>

definition is_port_line :: "string \<Rightarrow> bool" where
  "is_port_line l \<longleftrightarrow> HasPrefix l (''      - '' @ [dquote])"

definition published :: "string \<Rightarrow> string list" where
  "published doc = filter is_port_line (Split doc nl)"

text \<open>The host side of a published port.\<close>

definition host_port :: "string \<Rightarrow> string" where
  "host_port l = takeWhile (\<lambda>ch. ch \<noteq> CHR '':'') (drop 9 l)"

lemma Split_line: "nl \<notin> set l \<Longrightarrow> Split (l @ nl # rest) nl = l # Split rest nl"
  by (induction l) auto

lemma Split_write_lines: "\<forall>l\<in>set ls. nl \<notin> set l \<Longrightarrow> Split (write_lines ls) nl = ls @ [[]]"
  by (induction ls) (simp_all add: write_lines_def Split_line)

lemma hex_digit_no_nl: "d < 16 \<Longrightarrow> hex_digit d \<noteq> nl"
proof
  assume d: "d < 16" and eq: "hex_digit d = nl"
  have "of_char (hex_digit d) = (if d < 10 then 48 + d else 87 + d)" using d by (simp add: hex_digit_def)
  moreover have "of_char nl = (10 :: nat)" by simp
  ultimately show False unfolding eq by (simp split: if_splits)
qed

lemma quote_char_no_nl: "nl \<notin> set (quote_char c)"
proof -
  have "byte_val c < 256" unfolding byte_val_def by (cases c) (simp add: of_char_def) 
  then have "byte_val c div 16 < 16" by (simp add: div_less_iff_less_mult)
  then have "nl \<notin> set (hex_encode [c])" using hex_digit_no_nl [symmetric] by (simp add: hex_encode_def)
  then show ?thesis by (simp add: quote_char_def)
qed

lemma Quote_no_nl: "nl \<notin> set (Quote s)"
  using quote_char_no_nl by (auto simp: Quote_def)

lemma digits_no_nl: "nl \<notin> set (Itoa i)"
proof -
  have "nl \<notin> set (show_nat n)" for n
    using show_nat_digits [of n] by (auto simp: list_all_iff is_digit_def byte_val_def dest!: bspec)
  then show ?thesis by (simp add: Itoa_def)
qed

lemma Itoa_no_colon: "takeWhile (\<lambda>ch. ch \<noteq> CHR '':'') (Itoa i @ CHR '':'' # rest) = Itoa i"
proof -
  have "CHR '':'' \<notin> set (show_nat n)" for n
    using show_nat_digits [of n] by (auto simp: list_all_iff is_digit_def byte_val_def dest!: bspec)
  then have "CHR '':'' \<notin> set (Itoa i)" by (simp add: Itoa_def)
  then show ?thesis by (subst takeWhile_append2) auto
qed

lemma Itoa_inject [simp]: "Itoa i = Itoa j \<longleftrightarrow> i = j"
proof -
  have "CHR ''-'' # t \<noteq> show_nat n" for t n
  proof
    assume "CHR ''-'' # t = show_nat n"
    with show_nat_digits [of n] have "is_digit (CHR ''-'')" by (metis list.pred_inject(2))
    then show False by (simp add: is_digit_def byte_val_def)
  qed
  then show ?thesis by (auto simp: Itoa_def split: if_splits) metis
qed

lemma host_port_line: "host_port (port_line h c) = Itoa h"
  by (simp add: host_port_def port_line_def Itoa_no_colon)

text \<open>Which lines publish a port.\<close>

lemmas line_defs = is_port_line_def HasPrefix_def dataVolume_def repoVolume_def containerName_def routerName_def port_line_def

lemma is_port_line_port [simp]: "is_port_line (port_line h c)"
  by (simp add: line_defs)

lemma dep_not_port [simp]: "\<not> is_port_line (''      - '' @ containerName n)"
  by (simp add: line_defs)

lemma volume_not_port: "filter is_port_line (map volume_line (instanceVolumes n rt)) = []"
  by (simp add: instanceVolumes_def volume_line_def line_defs)

lemma ports_instance:
  "filter is_port_line (writeInstanceService n img su rt h c []) = [port_line h c]"
  "filter is_port_line (writeInstanceService n img su rt h c [containerName d]) = [port_line h c]"
  by (simp_all add: writeInstanceService_def Let_def line_defs)

lemma ports_router: "filter is_port_line (writeRouterService cl p img rp reps) = [port_line rp rp]"
proof -
  have "filter is_port_line (map (\<lambda>r. ''      - '' @ containerName r) reps) = []" by (induction reps) (simp_all add: line_defs)
  then show ?thesis by (simp add: writeRouterService_def line_defs)
qed

lemma ports_preamble: "filter is_port_line preamble = []" "filter is_port_line (writeHeader n v) = []"
  by (simp_all add: preamble_def writeHeader_def line_defs)

lemma ports_replicas:
  "filter is_port_line (replica_lines c i rs) = map (\<lambda>k. port_line (cluster_port c + 1 + i + int k) (cluster_port c)) [0..<length rs]"
proof (induction rs arbitrary: i)
  case (Cons r rs)
  have "map (\<lambda>k. port_line (cluster_port c + 1 + i + int k) (cluster_port c)) [0..<length (r # rs)] =
      port_line (cluster_port c + 1 + i) (cluster_port c) # map (\<lambda>k. port_line (cluster_port c + 1 + (i + 1) + int k) (cluster_port c)) [0..<length rs]"
    by (simp add: upt_conv_Cons map_Suc_upt [symmetric] del: upt_Suc) (simp add: algebra_simps)
  then show ?case using Cons by (simp add: ports_instance) (simp add: line_defs)
qed simp

definition no_newlines :: "ClusterComposeInput \<Rightarrow> bool" where
  "no_newlines c \<longleftrightarrow> list_all (\<lambda>s. nl \<notin> set s) ([ki_Name c, ki_PrimaryName c, ki_PGVersion c, ki_Image c, ki_Superuser c, ki_PgCatImage c] @ ki_Replicas c)"

lemma instance_service_no_nl:
  assumes "nl \<notin> set n" "nl \<notin> set img" "nl \<notin> set su" "\<forall>d\<in>set deps. nl \<notin> set d"
  shows "\<forall>l\<in>set (writeInstanceService n img su rt h c deps). nl \<notin> set l"
  using assms digits_no_nl by (auto simp: writeInstanceService_def Let_def port_line_def dataVolume_def repoVolume_def containerName_def)

lemma cluster_lines_no_nl:
  assumes "no_newlines c"
  shows "\<forall>l\<in>set (cluster_lines c). nl \<notin> set l"
proof -
  have f: "nl \<notin> set (ki_Name c)" "nl \<notin> set (ki_PrimaryName c)" "nl \<notin> set (ki_PGVersion c)" "nl \<notin> set (ki_Image c)"
    "nl \<notin> set (ki_Superuser c)" "nl \<notin> set (ki_PgCatImage c)" "\<forall>r\<in>set (ki_Replicas c). nl \<notin> set r"
    using assms by (simp_all add: no_newlines_def list_all_iff)
  have reps: "\<forall>l\<in>set (replica_lines c i rs). nl \<notin> set l" if "\<forall>r\<in>set rs. nl \<notin> set r" for i rs
    using that
  proof (induction rs arbitrary: i)
    case (Cons r rs)
    have "\<forall>l\<in>set (writeInstanceService r (ki_Image c) (ki_Superuser c) (ki_RepoType c) h p [containerName (ki_PrimaryName c)]). nl \<notin> set l" for h p
      using Cons.prems f by (intro instance_service_no_nl) (auto simp: containerName_def)
    with Cons show ?case by auto
  qed simp
  have prim: "\<forall>l\<in>set (writeInstanceService (ki_PrimaryName c) (ki_Image c) (ki_Superuser c) (ki_RepoType c) h p []). nl \<notin> set l" for h p
    using f by (intro instance_service_no_nl) auto
  have router: "\<forall>l\<in>set (writeRouterService (ki_Name c) (ki_PrimaryName c) (ki_PgCatImage c) rp (ki_Replicas c)). nl \<notin> set l" for rp
    using f digits_no_nl by (auto simp: writeRouterService_def port_line_def containerName_def routerName_def)
  have vols: "\<forall>l\<in>set (concat (map (\<lambda>name. map volume_line (instanceVolumes name rt)) ns)). nl \<notin> set l" if "\<forall>n\<in>set ns. nl \<notin> set n" for ns rt
    using that by (auto simp: volume_line_def instanceVolumes_def dataVolume_def repoVolume_def)
  have names: "\<forall>n\<in>set (ki_PrimaryName c # ki_Replicas c). nl \<notin> set n" using f(2,7) by simp
  have head: "\<forall>l\<in>set (writeHeader (ki_Name c) (ki_PGVersion c) @ preamble). nl \<notin> set l"
    using f Quote_no_nl by (auto simp: writeHeader_def preamble_def)
  show ?thesis
    using head prim reps [OF f(7)] router vols [OF names] unfolding cluster_lines_def set_append ball_Un by simp
qed

text \<open>
  The compose file of a cluster starts as it is written: read line by line, it publishes one port for the primary, the following
  ones for the replicas in their order, and the router's, and nothing else; no two services ask for the same
  host port, exactly when the router's port does not lie among the members'.
\<close>

theorem cluster_compose_ports:
  assumes "no_newlines c"
  shows "published (ClusterCompose c) =
      map (\<lambda>k. port_line (cluster_port c + int k) (cluster_port c)) [0..<Suc (length (ki_Replicas c))] @
      [port_line (cluster_router_port c) (cluster_router_port c)] \<and>
    (distinct (map host_port (published (ClusterCompose c))) \<longleftrightarrow>
     cluster_router_port c \<notin> {cluster_port c .. cluster_port c + int (length (ki_Replicas c))})"
proof -
  have vols: "filter is_port_line (concat (map (\<lambda>name. map volume_line (instanceVolumes name rt)) ns)) = []" for rt ns
    by (induction ns) (simp_all add: volume_not_port)
  have "filter is_port_line (cluster_lines c @ [[]]) = port_line (cluster_port c) (cluster_port c) #
      map (\<lambda>k. port_line (cluster_port c + 1 + int k) (cluster_port c)) [0..<length (ki_Replicas c)] @
      [port_line (cluster_router_port c) (cluster_router_port c)]"
    unfolding cluster_lines_def filter_append vols
    by (simp add: ports_preamble ports_instance ports_router ports_replicas) (simp add: line_defs)
  moreover have "map (\<lambda>k. port_line (cluster_port c + int k) (cluster_port c)) [0..<Suc (length (ki_Replicas c))] =
      port_line (cluster_port c) (cluster_port c) # map (\<lambda>k. port_line (cluster_port c + 1 + int k) (cluster_port c)) [0..<length (ki_Replicas c)]"
    by (simp add: upt_conv_Cons map_Suc_upt [symmetric] del: upt_Suc) (simp add: algebra_simps)
  ultimately have pub: "published (ClusterCompose c) =
      map (\<lambda>k. port_line (cluster_port c + int k) (cluster_port c)) [0..<Suc (length (ki_Replicas c))] @
      [port_line (cluster_router_port c) (cluster_router_port c)]"
    using Split_write_lines [OF cluster_lines_no_nl [OF assms]] unfolding published_def ClusterCompose_def by simp
  have range: "(\<lambda>k. cluster_port c + int k) ` {0..<Suc n} = {cluster_port c .. cluster_port c + int n}" for n
  proof -
    have "h \<in> (\<lambda>k. cluster_port c + int k) ` {0..<Suc n}" if "cluster_port c \<le> h" "h \<le> cluster_port c + int n" for h
      using that by (intro image_eqI [where x = "nat (h - cluster_port c)"]) auto
    then show ?thesis by auto
  qed
  have "map host_port (published (ClusterCompose c)) =
      map Itoa (map (\<lambda>k. cluster_port c + int k) [0..<Suc (length (ki_Replicas c))] @ [cluster_router_port c])"
    unfolding pub by (simp add: host_port_line del: upt_Suc)
  moreover have "distinct (map Itoa xs) = distinct xs" for xs by (simp add: distinct_map inj_on_def)
  moreover have "distinct (map (\<lambda>k. cluster_port c + int k) [0..<n])" for n by (simp add: distinct_map inj_on_def)
  ultimately have "distinct (map host_port (published (ClusterCompose c))) \<longleftrightarrow>
      cluster_router_port c \<notin> set (map (\<lambda>k. cluster_port c + int k) [0..<Suc (length (ki_Replicas c))])"
    by (simp only: distinct_append) simp
  then show ?thesis using pub by (simp add: range del: upt_Suc)
qed

theorem cluster_compose_ports_witness:
  "distinct (map host_port (published (ClusterCompose
     (compose_input ''c'' []\<lparr>ki_PrimaryName := ''a'', ki_Replicas := [''b'', ''d'']\<rparr>))))"
proof -
  let ?c = "compose_input ''c'' []\<lparr>ki_PrimaryName := ''a'', ki_Replicas := [''b'', ''d'']\<rparr>"
  have "no_newlines ?c" by (simp add: no_newlines_def compose_input_def primaryIdx_def Let_def)
  from cluster_compose_ports [OF this] have "distinct (map host_port (published (ClusterCompose ?c))) \<longleftrightarrow>
      cluster_router_port ?c \<notin> {cluster_port ?c .. cluster_port ?c + int (length (ki_Replicas ?c))}" by blast
  moreover have "cluster_router_port ?c = 6432" "cluster_port ?c = 5432" "length (ki_Replicas ?c) = 2"
    by (simp_all add: cluster_port_def cluster_router_port_def compose_input_def primaryIdx_def Let_def)
  ultimately show ?thesis by simp
qed

end
