(* ===== verification/Moby.thy ===== *)
theory Moby
  imports Metrics "HOL-Library.Word"
begin

text \<open>
  The production runtime: \<^verbatim>\<open>internal/docker/moby.go\<close>, which implements the interface of theory \<open>Docker\<close> with the
  client of the Docker Engine API. The client is not part of the repository: it is the record
  \<open>engine\<close>, one field per call, and what the adapter relies on of the daemon behind it is the
  locale \<open>docker_engine\<close>. Under it the adapter is a \<open>container_host\<close>, so every theorem about that interface holds
  of the adapter too. That the adapter asks the daemon for the right thing is the refinement at the end: over a daemon that carries out
  each call of the Engine API as a given runtime does, the adapter is that runtime, call by call. A multiplexed output stream is the list of its frames (\<open>True\<close> for standard
  error) with the error that ends it.

  A nil slice or map and an empty one are the same value here; a Go map that is ranged over is read in the order of its
  association list, and a map used as a set is the list of its keys. Counters are 64-bit words, a floating-point operation is a parameter, as in theory \<open>Metrics\<close>.
\<close>

section \<open>The client's calls\<close>

record container_config =
  cc_Image :: string
  cc_Cmd :: "string list"
  cc_Env :: "string list"
  cc_Labels :: strmap
  cc_User :: string
  cc_ExposedPorts :: "string list"

record port_binding =
  pb_HostIP :: string
  pb_HostPort :: string

record mount_config =
  mc_Type :: string
  mc_Source :: string
  mc_Target :: string
  mc_ReadOnly :: bool

record host_config =
  hc_PortBindings :: "(string \<times> port_binding list) list"
  hc_Mounts :: "mount_config list"
  hc_RestartPolicy :: string

record json_state =
  js_Status :: string
  js_Running :: bool
  js_ExitCode :: int
  js_Health :: "string option"

record inspect_response =
  ij_ID :: string
  ij_Name :: string
  ij_HostConfig :: "string option"
  ij_State :: "json_state option"
  ij_NetworkSettings :: "(string \<times> port_binding list) list option"

record container_summary =
  su_ID :: string
  su_Names :: "string list"
  su_State :: string
  su_Labels :: strmap

record 'e engine =
  ImageInspect :: "string \<Rightarrow> ('e, unit) gofun"
  ImagePull :: "string \<Rightarrow> ('e, unit) gofun"
  ContainerCreate :: "container_config \<Rightarrow> host_config \<Rightarrow> string list option \<Rightarrow> string \<Rightarrow> ('e, string) gofun"
  ContainerStart :: "string \<Rightarrow> ('e, unit) gofun"
  ContainerStop :: "string \<Rightarrow> nat option \<Rightarrow> ('e, unit) gofun"
  ContainerRemove :: "string \<Rightarrow> bool \<Rightarrow> ('e, unit) gofun"
  ContainerInspect :: "string \<Rightarrow> ('e, inspect_response) gofun"
  ContainerExecCreate :: "string \<Rightarrow> string list \<Rightarrow> ('e, string) gofun"
  ContainerExecAttach :: "string \<Rightarrow> ('e, (bool \<times> string) list \<times> goerr option) gofun"
  ContainerExecInspect :: "string \<Rightarrow> ('e, int) gofun"
  ContainerStatsOneShot :: "string \<Rightarrow> ('e, string) gofun"
  ContainerLogs :: "string \<Rightarrow> bool \<Rightarrow> ('e, string) gofun"
  ContainerList :: "string list \<Rightarrow> ('e, container_summary list) gofun"
  VolumeCreate :: "string \<Rightarrow> strmap \<Rightarrow> ('e, unit) gofun"
  VolumeRemove :: "string \<Rightarrow> bool \<Rightarrow> ('e, unit) gofun"
  VolumeList :: "string list \<Rightarrow> ('e, string list) gofun"
  NetworkCreate :: "string \<Rightarrow> strmap \<Rightarrow> ('e, string) gofun"
  NetworkRemove :: "string \<Rightarrow> ('e, unit) gofun"
  IsNotFound :: "goerr \<Rightarrow> bool"

section \<open>Translations (moby.go, helpers)\<close>

definition mapErr :: "'e engine \<Rightarrow> string \<Rightarrow> goerr \<Rightarrow> goerr" where
  "mapErr eg op err = Wrap (if IsNotFound eg err then KindNotFound else KindInternal) (''docker: '' @ op) err"

definition envSlice :: "strmap \<Rightarrow> string list" where
  "envSlice kvs = map (\<lambda>(k, v). k @ ''='' @ v) kvs"

definition port_key :: "port_mapping \<Rightarrow> string" where
  "port_key p = Itoa (ContainerPort p) @ ''/'' @ (if Protocol p = [] then ''tcp'' else Protocol p)"

definition binding_of :: "port_mapping \<Rightarrow> port_binding" where
  "binding_of p = \<lparr>pb_HostIP = (if HostIP p = [] then ''0.0.0.0'' else HostIP p),
     pb_HostPort = (if HostPort p \<noteq> 0 then Itoa (HostPort p) else [])\<rparr>"

definition portConfig :: "port_mapping list \<Rightarrow> string list \<times> (string \<times> port_binding list) list" where
  "portConfig ports = (remdups (map port_key ports), fold (\<lambda>p. AList.update (port_key p) [binding_of p]) ports [])"

definition mountConfig :: "mount list \<Rightarrow> mount_config list" where
  "mountConfig mounts = map (\<lambda>mt. \<lparr>mc_Type = ''volume'', mc_Source = Volume mt, mc_Target = Path mt, mc_ReadOnly = ReadOnly mt\<rparr>) mounts"

definition networkConfig :: "string list \<Rightarrow> string list option" where
  "networkConfig networks = (if networks = [] then None else Some (remdups networks))"

definition labelFilters :: "strmap \<Rightarrow> string list" where
  "labelFilters labels = map (\<lambda>(k, v). k @ ''='' @ v) labels"

section \<open>The operations\<close>

definition moby_EnsureImage :: "'e engine \<Rightarrow> string \<Rightarrow> ('e, unit) gofun" where
  "moby_EnsureImage eg ref = attempt (ImageInspect eg ref) (\<lambda>r. case r of
       Inr _ \<Rightarrow> ret ()
     | Inl _ \<Rightarrow> wrap_error (Wrapf (''docker: pull '' @ ref @ '': '')) (ImagePull eg ref))"

definition container_config_of :: "container_spec \<Rightarrow> container_config" where
  "container_config_of spec = \<lparr>cc_Image = cs_Image spec, cc_Cmd = cs_Cmd spec, cc_Env = envSlice (cs_Env spec), cc_Labels = cs_Labels spec,
     cc_User = cs_User spec, cc_ExposedPorts = fst (portConfig (cs_Ports spec))\<rparr>"

definition host_config_of :: "container_spec \<Rightarrow> host_config" where
  "host_config_of spec = \<lparr>hc_PortBindings = snd (portConfig (cs_Ports spec)), hc_Mounts = mountConfig (cs_Mounts spec),
     hc_RestartPolicy = cs_RestartPolicy spec\<rparr>"

definition moby_CreateContainer :: "'e engine \<Rightarrow> container_spec \<Rightarrow> ('e, string) gofun" where
  "moby_CreateContainer eg spec = wrap_error (mapErr eg ''create container'')
     (ContainerCreate eg (container_config_of spec) (host_config_of spec) (networkConfig (cs_Networks spec)) (cs_Name spec))"

definition moby_StartContainer :: "'e engine \<Rightarrow> string \<Rightarrow> ('e, unit) gofun" where
  "moby_StartContainer eg cid = wrap_error (mapErr eg ''start container'') (ContainerStart eg cid)"

definition moby_StopContainer :: "'e engine \<Rightarrow> string \<Rightarrow> nat option \<Rightarrow> ('e, unit) gofun" where
  "moby_StopContainer eg cid timeout = wrap_error (mapErr eg ''stop container'') (ContainerStop eg cid timeout)"

definition moby_RemoveContainer :: "'e engine \<Rightarrow> string \<Rightarrow> bool \<Rightarrow> ('e, unit) gofun" where
  "moby_RemoveContainer eg cid force = wrap_error (mapErr eg ''remove container'') (ContainerRemove eg cid force)"

definition state_of :: "inspect_response \<Rightarrow> container_state" where
  "state_of j = \<lparr>st_ID = ij_ID j, st_Name = ij_Name j,
     st_Status = (case ij_State j of None \<Rightarrow> [] | Some s \<Rightarrow> js_Status s),
     st_Running = (case ij_State j of None \<Rightarrow> False | Some s \<Rightarrow> js_Running s),
     st_ExitCode = (case ij_State j of None \<Rightarrow> 0 | Some s \<Rightarrow> js_ExitCode s),
     st_Health = (case ij_State j of None \<Rightarrow> [] | Some s \<Rightarrow> (case js_Health s of None \<Rightarrow> [] | Some x \<Rightarrow> x)),
     st_Ports = (case ij_NetworkSettings j of None \<Rightarrow> []
       | Some ports \<Rightarrow> map (\<lambda>(port, binds). (port, pb_HostPort (hd binds))) (filter (\<lambda>(port, binds). 0 < length binds) ports)),
     st_RestartPolicy = (case ij_HostConfig j of None \<Rightarrow> [] | Some p \<Rightarrow> p)\<rparr>"

definition moby_Inspect :: "'e engine \<Rightarrow> string \<Rightarrow> ('e, container_state) gofun" where
  "moby_Inspect eg cid = bindE (wrap_error (mapErr eg ''inspect container'') (ContainerInspect eg cid)) (\<lambda>j. ret (state_of j))"

definition maxExecCaptureBytes :: int where "maxExecCaptureBytes = 1048576"

definition capture :: "bool \<Rightarrow> (bool \<times> string) list \<Rightarrow> string" where
  "capture stream frames = cb_buf (cb_write_all \<lparr>cb_buf = [], cb_limit = maxExecCaptureBytes, cb_truncated = False\<rparr>
     (map snd (filter (\<lambda>f. fst f = stream) frames)))"

definition moby_Exec :: "'e engine \<Rightarrow> string \<Rightarrow> string list \<Rightarrow> ('e, exec_result) gofun" where
  "moby_Exec eg cid cmd =
     bindE (wrap_error (mapErr eg ''exec create'') (ContainerExecCreate eg cid cmd)) (\<lambda>xid.
     bindE (wrap_error (mapErr eg ''exec attach'') (ContainerExecAttach eg xid)) (\<lambda>att.
     case snd att of
       Some err \<Rightarrow> fail (Wrapf ''docker: read exec output: '' err)
     | None \<Rightarrow>
         bindE (wrap_error (mapErr eg ''exec inspect'') (ContainerExecInspect eg xid)) (\<lambda>code.
         ret \<lparr>ExitCode = code, Stdout = capture False (fst att), Stderr = capture True (fst att)\<rparr>)))"

definition moby_Logs :: "'e engine \<Rightarrow> string \<Rightarrow> bool \<Rightarrow> ('e, string) gofun" where
  "moby_Logs eg cid follow = wrap_error (mapErr eg ''container logs'') (ContainerLogs eg cid follow)"

definition info_of :: "container_summary \<Rightarrow> container_info" where
  "info_of c = \<lparr>ci_ID = su_ID c, ci_Name = (case su_Names c of [] \<Rightarrow> [] | n # _ \<Rightarrow> n), ci_State = su_State c, ci_Labels = su_Labels c\<rparr>"

definition moby_ListByLabel :: "'e engine \<Rightarrow> strmap \<Rightarrow> ('e, container_info list) gofun" where
  "moby_ListByLabel eg labels =
     bindE (wrap_error (mapErr eg ''list containers'') (ContainerList eg (labelFilters labels))) (\<lambda>l. ret (map info_of l))"

definition moby_CreateVolume :: "'e engine \<Rightarrow> string \<Rightarrow> strmap \<Rightarrow> ('e, unit) gofun" where
  "moby_CreateVolume eg name labels = wrap_error (mapErr eg ''create volume'') (VolumeCreate eg name labels)"

definition moby_RemoveVolume :: "'e engine \<Rightarrow> string \<Rightarrow> bool \<Rightarrow> ('e, unit) gofun" where
  "moby_RemoveVolume eg name force = wrap_error (mapErr eg ''remove volume'') (VolumeRemove eg name force)"

definition moby_ListVolumesByLabel :: "'e engine \<Rightarrow> strmap \<Rightarrow> ('e, string list) gofun" where
  "moby_ListVolumesByLabel eg labels = wrap_error (mapErr eg ''list volumes'') (VolumeList eg (labelFilters labels))"

definition moby_CreateNetwork :: "'e engine \<Rightarrow> string \<Rightarrow> strmap \<Rightarrow> ('e, string) gofun" where
  "moby_CreateNetwork eg name labels = wrap_error (mapErr eg ''create network'') (NetworkCreate eg name labels)"

definition moby_RemoveNetwork :: "'e engine \<Rightarrow> string \<Rightarrow> ('e, unit) gofun" where
  "moby_RemoveNetwork eg nid = wrap_error (mapErr eg ''remove network'') (NetworkRemove eg nid)"

text \<open>The adapter as a runtime; the clock, the timer, the random source and the library are the process's.\<close>

definition moby_host :: "'e engine \<Rightarrow> 'e host \<Rightarrow> 'e host" where
  "moby_host eg pr = \<lparr>
     EnsureImage = moby_EnsureImage eg, CreateContainer = moby_CreateContainer eg, StartContainer = moby_StartContainer eg,
     StopContainer = moby_StopContainer eg, RemoveContainer = moby_RemoveContainer eg, Inspect = moby_Inspect eg,
     Exec = moby_Exec eg, Logs = moby_Logs eg, ListByLabel = moby_ListByLabel eg, CreateVolume = moby_CreateVolume eg,
     RemoveVolume = moby_RemoveVolume eg, Now = Now pr, Wait = Wait pr, RandRead = RandRead pr, Lib = Lib pr\<rparr>"

section \<open>Statistics\<close>

record cpu_stats =
  cpu_TotalUsage :: "64 word"
  cpu_PercpuUsage :: "64 word list"
  cpu_SystemUsage :: "64 word"
  cpu_OnlineCPUs :: "32 word"

record memory_stats =
  ms_Usage :: "64 word"
  ms_Stats :: "(string \<times> 64 word) list"
  ms_Limit :: "64 word"

type_synonym blkio_entries = "(string \<times> 64 word) list"

record StatsResponse =
  sr_CPUStats :: cpu_stats
  sr_PreCPUStats :: cpu_stats
  sr_MemoryStats :: memory_stats
  sr_IoServiceBytes :: blkio_entries
  sr_IoServiced :: blkio_entries

record 'f stats_ops = "'f metric_ops" +
  f_sub :: "'f \<Rightarrow> 'f \<Rightarrow> 'f"

text \<open>
  \<^verbatim>\<open>strings.EqualFold\<close> with a lower-case ASCII word none of whose letters has a non-ASCII fold
  (only \<^verbatim>\<open>k\<close> and \<^verbatim>\<open>s\<close> have one).
\<close>

definition fold_equal :: "string \<Rightarrow> string \<Rightarrow> bool" where
  "fold_equal s w \<longleftrightarrow> map lower_char s = w"

fun sum_loop :: "blkio_entries \<Rightarrow> 64 word \<Rightarrow> 64 word \<Rightarrow> 64 word \<times> 64 word" where
  "sum_loop [] r w = (r, w)"
| "sum_loop ((op, v) # es) r w =
     (if fold_equal op ''read'' then sum_loop es (r + v) w
      else if fold_equal op ''write'' then sum_loop es r (w + v)
      else sum_loop es r w)"

definition sumBlkioReadWrite :: "blkio_entries \<Rightarrow> 64 word \<times> 64 word" where
  "sumBlkioReadWrite es = sum_loop es 0 0"

definition memory_usage :: "memory_stats \<Rightarrow> 64 word" where
  "memory_usage m = (case map_of (ms_Stats m) ''cache'' of
       Some cache \<Rightarrow> if cache \<le> ms_Usage m then ms_Usage m - cache else ms_Usage m
     | None \<Rightarrow> (case map_of (ms_Stats m) ''inactive_file'' of
         Some inactive \<Rightarrow> if inactive \<le> ms_Usage m then ms_Usage m - inactive else ms_Usage m
       | None \<Rightarrow> ms_Usage m))"

definition cpu_percent :: "'f stats_ops \<Rightarrow> StatsResponse \<Rightarrow> 'f" where
  "cpu_percent fp s =
     (let cur = sr_CPUStats s; pre = sr_PreCPUStats s; flt = (\<lambda>x. f_lit fp (uint x));
          cpuDelta = f_sub fp (flt (cpu_TotalUsage cur)) (flt (cpu_TotalUsage pre));
          systemDelta = f_sub fp (flt (cpu_SystemUsage cur)) (flt (cpu_SystemUsage pre));
          onlineCPUs = (if cpu_OnlineCPUs cur = 0 then f_lit fp (int (length (cpu_PercpuUsage cur))) else f_lit fp (uint (cpu_OnlineCPUs cur)));
          zero = f_lit fp 0
      in if f_less fp zero systemDelta \<and> f_less fp zero cpuDelta \<and> f_less fp zero onlineCPUs
         then f_mul fp (f_mul fp (f_div fp cpuDelta systemDelta) onlineCPUs) (f_lit fp 100) else zero)"

definition statsFromResponse :: "'f stats_ops \<Rightarrow> StatsResponse \<Rightarrow> 'f ContainerStats" where
  "statsFromResponse fp s =
     (let usage = memory_usage (sr_MemoryStats s); limit = ms_Limit (sr_MemoryStats s);
          rw = (if 0 < length (sr_IoServiceBytes s) then sumBlkioReadWrite (sr_IoServiceBytes s) else (0, 0));
          ops = (if 0 < length (sr_IoServiced s) then sumBlkioReadWrite (sr_IoServiced s) else (0, 0))
      in \<lparr>cst_CPUPercent = cpu_percent fp s, cst_MemoryBytes = sint usage, cst_MemoryLimitBytes = sint limit,
          cst_MemoryPercent = (if 0 < limit then f_mul fp (f_div fp (f_lit fp (uint usage)) (f_lit fp (uint limit))) (f_lit fp 100) else f_lit fp 0),
          cst_DiskIOAvailable = (0 < length (sr_IoServiceBytes s) \<or> 0 < length (sr_IoServiced s)),
          cst_DiskReadBytes = uint (fst rw), cst_DiskWriteBytes = uint (snd rw),
          cst_DiskReadOps = uint (fst ops), cst_DiskWriteOps = uint (snd ops)\<rparr>)"

definition moby_ContainerStats ::
    "'e engine \<Rightarrow> 'f stats_ops \<Rightarrow> (string \<Rightarrow> goerr + StatsResponse) \<Rightarrow> string \<Rightarrow> ('e, 'f ContainerStats) gofun" where
  "moby_ContainerStats eg fp decode cid =
     bindE (wrap_error (mapErr eg ''container stats'') (ContainerStatsOneShot eg cid)) (\<lambda>body.
     case decode body of
       Inl err \<Rightarrow> fail (Wrap KindInternal ''docker: decode container stats'' err)
     | Inr s \<Rightarrow> ret (statsFromResponse fp s))"

text \<open>Sums are those of the counters, modulo \<open>2 ^ 64\<close>; the memory in use never wraps below zero.\<close>

lemma sum_loop_spec:
  "sum_loop es r w = (r + sum_list (map snd (filter (\<lambda>e. fold_equal (fst e) ''read'') es)),
                      w + sum_list (map snd (filter (\<lambda>e. fold_equal (fst e) ''write'') es)))"
proof (induction es r w rule: sum_loop.induct)
  case (2 op v es r w)
  have "\<not> (fold_equal op ''read'' \<and> fold_equal op ''write'')" by (auto simp: fold_equal_def)
  with 2 show ?case by (simp add: add.assoc)
qed simp

lemma memory_usage_le: "memory_usage m \<le> ms_Usage m"
  by (auto simp: memory_usage_def word_sub_le split: option.split)

section \<open>The adapter implements the runtime's contract\<close>

text \<open>A call that keeps the daemon's containers and volumes and does not turn back the clock.\<close>

definition quiet :: "('e \<Rightarrow> int) \<Rightarrow> ('e \<Rightarrow> bool) \<Rightarrow> ('e \<Rightarrow> string set) \<Rightarrow> ('e \<Rightarrow> string set) \<Rightarrow> ('e \<Rightarrow> 'r \<times> 'e) \<Rightarrow> bool" where
  "quiet now ok conts vols m \<longleftrightarrow>
     (\<forall>e r e'. m e = (r, e') \<longrightarrow> now e \<le> now e' \<and> (ok e \<longrightarrow> ok e' \<and> conts e' = conts e \<and> vols e' = vols e))"

named_theorems quiet_rules \<open>quiet calls compose\<close>

lemma quiet_ret [quiet_rules]: "quiet now ok conts vols (ret x)"
  by (simp add: quiet_def ret_def)

lemma quiet_fail [quiet_rules]: "quiet now ok conts vols (fail x)"
  by (simp add: quiet_def fail_def)

lemma quiet_attempt [quiet_rules]:
  assumes "quiet now ok conts vols m" "\<And>r. quiet now ok conts vols (k r)"
  shows "quiet now ok conts vols (attempt m k)"
  unfolding quiet_def
proof (intro allI impI)
  fix e r e' assume run: "attempt m k e = (r, e')"
  obtain q e1 where m: "m e = (q, e1)" by fastforce
  then have k: "k q e1 = (r, e')" using run by (simp add: attempt_def)
  show "now e \<le> now e' \<and> (ok e \<longrightarrow> ok e' \<and> conts e' = conts e \<and> vols e' = vols e)"
    using assms(1) [unfolded quiet_def, rule_format, OF m] assms(2) [unfolded quiet_def, rule_format, OF k] by auto
qed

lemma bindE_attempt: "bindE m k = attempt m (\<lambda>r. case r of Inl e \<Rightarrow> fail e | Inr x \<Rightarrow> k x)"
  by (rule ext) (simp add: bindE_def attempt_def fail_def split: prod.split sum.split)

lemma quiet_bindE [quiet_rules]:
  "quiet now ok conts vols m \<Longrightarrow> (\<And>x. quiet now ok conts vols (k x)) \<Longrightarrow> quiet now ok conts vols (bindE m k)"
  unfolding bindE_attempt by (intro quiet_attempt) (auto split: sum.split intro: quiet_fail)

lemma quiet_wrap [quiet_rules]: "quiet now ok conts vols m \<Longrightarrow> quiet now ok conts vols (wrap_error w m)"
  unfolding wrap_error_def by (intro quiet_attempt) (auto split: sum.split intro: quiet_fail quiet_ret)

lemma quiet_sum [quiet_rules]:
  "(\<And>x. quiet now ok conts vols (f x)) \<Longrightarrow> (\<And>y. quiet now ok conts vols (g y)) \<Longrightarrow> quiet now ok conts vols (case r of Inl x \<Rightarrow> f x | Inr y \<Rightarrow> g y)"
  by (simp split: sum.split)

lemma quiet_option [quiet_rules]:
  "quiet now ok conts vols f \<Longrightarrow> (\<And>y. quiet now ok conts vols (g y)) \<Longrightarrow> quiet now ok conts vols (case r of None \<Rightarrow> f | Some y \<Rightarrow> g y)"
  by (simp split: option.split)

lemma wrap_error_unit: "wrap_error w m e = (r, e') \<Longrightarrow> \<exists>r0. m e = (r0, e') \<and> (r = Inr () \<longleftrightarrow> r0 = Inr ())"
  by (cases "m e") (auto simp: wrap_error_def attempt_def fail_def ret_def split: sum.splits)

lemma quietD:
  assumes "quiet now ok conts vols m" "m e = (r, e')"
  shows "now e \<le> now e'" "ok e \<Longrightarrow> ok e'" "ok e \<Longrightarrow> conts e' = conts e \<and> vols e' = vols e"
  using assms by (auto simp: quiet_def)

lemma quiet_keeps: "quiet now ok conts vols m \<Longrightarrow> keeps ok m"
  unfolding keeps_def using quietD(2) by (metis surj_pair snd_conv)

text \<open>
  What the daemon documents: reading calls, starting, stopping and running commands create and remove nothing; a
  creation gives a new identifier and may create the volumes it mounts; a removal removes what it names.
\<close>

locale docker_engine =
  fixes eg :: "'e engine"
    and pr :: "'e host"
    and ok :: "'e \<Rightarrow> bool"
    and conts :: "'e \<Rightarrow> string set"
    and vols :: "'e \<Rightarrow> string set"
  assumes image_quiet: "quiet (Now pr) ok conts vols (ImageInspect eg ref)" "quiet (Now pr) ok conts vols (ImagePull eg ref)"
    and start_quiet: "quiet (Now pr) ok conts vols (ContainerStart eg cid)" "quiet (Now pr) ok conts vols (ContainerStop eg cid tmo)"
    and read_quiet: "quiet (Now pr) ok conts vols (ContainerInspect eg cid)" "quiet (Now pr) ok conts vols (ContainerLogs eg cid follow)"
      "quiet (Now pr) ok conts vols (ContainerList eg filters)"
    and exec_quiet: "quiet (Now pr) ok conts vols (ContainerExecCreate eg cid cmd)" "quiet (Now pr) ok conts vols (ContainerExecAttach eg xid)"
      "quiet (Now pr) ok conts vols (ContainerExecInspect eg xid)"
    and process_quiet: "ok e \<Longrightarrow> Wait pr d e = (u, e') \<Longrightarrow> ok e' \<and> conts e' = conts e \<and> vols e' = vols e"
      "ok e \<Longrightarrow> RandRead pr n e = (b, e') \<Longrightarrow> ok e' \<and> conts e' = conts e \<and> vols e' = vols e"
    and process: "RandRead pr n e = (Inr bs, e') \<Longrightarrow> length bs = n" "Wait pr d e = (Inr v, e') \<Longrightarrow> Now pr e + d \<le> Now pr e'"
    and created: "ok e \<Longrightarrow> ContainerCreate eg cfg hc net name e = (c, e') \<Longrightarrow> ok e' \<and>
      vols e \<subseteq> vols e' \<and> vols e' \<subseteq> vols e \<union> mc_Source ` {m \<in> set (hc_Mounts hc). mc_Type m = ''volume''} \<and>
      (case c of Inl _ \<Rightarrow> conts e' = conts e | Inr cid \<Rightarrow> cid \<notin> conts e \<and> cid \<noteq> [] \<and> conts e' = insert cid (conts e))"
    and removed: "ok e \<Longrightarrow> ContainerRemove eg cid force e = (r, e') \<Longrightarrow> ok e' \<and> vols e' = vols e \<and>
      conts e - {cid} \<subseteq> conts e' \<and> conts e' \<subseteq> conts e \<and> (r = Inr () \<longrightarrow> cid \<notin> conts e')"
    and volume_created: "ok e \<Longrightarrow> VolumeCreate eg vname labels e = (r, e') \<Longrightarrow> ok e' \<and> conts e' = conts e \<and>
      vols e' = (if r = Inr () then insert vname (vols e) else vols e)"
    and volume_removed: "ok e \<Longrightarrow> VolumeRemove eg vname force e = (r, e') \<Longrightarrow> ok e' \<and> conts e' = conts e \<and>
      vols e - {vname} \<subseteq> vols e' \<and> vols e' \<subseteq> vols e \<and> (r = Inr () \<longrightarrow> vname \<notin> vols e')"
begin

lemma moby_quiet:
  "quiet (Now pr) ok conts vols (moby_EnsureImage eg ref)" "quiet (Now pr) ok conts vols (moby_StartContainer eg cid)"
  "quiet (Now pr) ok conts vols (moby_StopContainer eg cid tmo)" "quiet (Now pr) ok conts vols (moby_Inspect eg cid)"
  "quiet (Now pr) ok conts vols (moby_Exec eg cid cmd)" "quiet (Now pr) ok conts vols (moby_Logs eg cid follow)"
  "quiet (Now pr) ok conts vols (moby_ListByLabel eg labels)"
  unfolding moby_EnsureImage_def moby_StartContainer_def moby_StopContainer_def moby_Inspect_def moby_Exec_def moby_Logs_def moby_ListByLabel_def
  by (intro quiet_rules image_quiet start_quiet read_quiet exec_quiet)+

lemma moby_created:
  assumes "ok e" "moby_CreateContainer eg spec e = (c, e')"
  shows "ok e' \<and> vols e \<subseteq> vols e' \<and> vols e' \<subseteq> vols e \<union> Volume ` set (cs_Mounts spec) \<and>
    (case c of Inl _ \<Rightarrow> conts e' = conts e | Inr cid \<Rightarrow> cid \<notin> conts e \<and> cid \<noteq> [] \<and> conts e' = insert cid (conts e))"
proof -
  obtain c0 where c0: "ContainerCreate eg (container_config_of spec) (host_config_of spec) (networkConfig (cs_Networks spec)) (cs_Name spec) e = (c0, e')"
    "c = (case c0 of Inl x \<Rightarrow> Inl (mapErr eg ''create container'' x) | Inr x \<Rightarrow> Inr x)"
    using assms(2) unfolding moby_CreateContainer_def wrap_error_result by blast
  have "mc_Source ` {m \<in> set (hc_Mounts (host_config_of spec)). mc_Type m = ''volume''} = Volume ` set (cs_Mounts spec)"
    by (force simp: host_config_of_def mountConfig_def)
  then show ?thesis using created [OF assms(1) c0(1)] c0(2) by (auto split: sum.splits)
qed

lemma moby_removed:
  assumes "ok e" "moby_RemoveContainer eg cid force e = (r, e')"
  shows "ok e' \<and> vols e' = vols e \<and> conts e - {cid} \<subseteq> conts e' \<and> conts e' \<subseteq> conts e \<and> (r = Inr () \<longrightarrow> conts e' = conts e - {cid})"
proof -
  obtain r0 where "ContainerRemove eg cid force e = (r0, e')" "r = Inr () \<longrightarrow> r0 = Inr ()"
    using assms(2) unfolding moby_RemoveContainer_def by (auto dest: wrap_error_unit)
  then show ?thesis using removed [OF assms(1)] by blast
qed

lemma moby_volume_created:
  assumes "ok e" "moby_CreateVolume eg vname labels e = (r, e')"
  shows "ok e' \<and> conts e' = conts e \<and> vols e' = (if r = Inr () then insert vname (vols e) else vols e)"
proof -
  obtain r0 where "VolumeCreate eg vname labels e = (r0, e')" "r = Inr () \<longleftrightarrow> r0 = Inr ()"
    using assms(2) unfolding moby_CreateVolume_def by (auto dest: wrap_error_unit)
  then show ?thesis using volume_created [OF assms(1)] by simp
qed

lemma moby_volume_removed:
  assumes "ok e" "moby_RemoveVolume eg vname force e = (r, e')"
  shows "ok e' \<and> conts e' = conts e \<and> vols e - {vname} \<subseteq> vols e' \<and> vols e' \<subseteq> vols e \<and> (r = Inr () \<longrightarrow> vols e' = vols e - {vname})"
proof -
  obtain r0 where "VolumeRemove eg vname force e = (r0, e')" "r = Inr () \<longrightarrow> r0 = Inr ()"
    using assms(2) unfolding moby_RemoveVolume_def by (auto dest: wrap_error_unit)
  then show ?thesis using volume_removed [OF assms(1)] by blast
qed

lemma moby_keeps:
  "keeps ok (moby_CreateContainer eg spec)" "keeps ok (moby_RemoveContainer eg cid force)" "keeps ok (moby_CreateVolume eg vname labels)"
  "keeps ok (moby_RemoveVolume eg vname force)" "keeps ok (Wait pr d)" "keeps ok (RandRead pr n)"
  using moby_created moby_removed moby_volume_created moby_volume_removed process_quiet
  unfolding keeps_def by (metis prod.collapse)+

lemma moby_container_host: "container_host (moby_host eg pr) ok conts vols"
  by (unfold_locales, unfold moby_host_def host.simps)
    (rule moby_keeps moby_quiet [THEN quiet_keeps] | erule (1) moby_quiet [THEN quietD(3)] | erule moby_quiet [THEN quietD(1)] | erule process
    | (drule (1) moby_created, force split: sum.splits) | (drule (1) moby_removed, force) | (drule (1) moby_volume_created, force)
    | (drule (1) moby_volume_removed, force) | (drule (1) process_quiet, force))+

end

sublocale docker_engine \<subseteq> moby: container_host "moby_host eg pr" ok conts vols
  by (rule moby_container_host)

section \<open>Nothing of a specification is lost\<close>

text \<open>The specification that the arguments of the call to the daemon describe.\<close>

definition before :: "char \<Rightarrow> string \<Rightarrow> string" where "before d s = takeWhile (\<lambda>x. x \<noteq> d) s"
definition after :: "char \<Rightarrow> string \<Rightarrow> string" where "after d s = drop 1 (dropWhile (\<lambda>x. x \<noteq> d) s)"

definition number :: "string \<Rightarrow> int" where
  "number s = (case ParseInt s of Inr n \<Rightarrow> n | Inl _ \<Rightarrow> 0)"

definition split_pair :: "string \<Rightarrow> string \<times> string" where
  "split_pair s = (before (CHR ''='') s, after (CHR ''='') s)"

definition port_of :: "string \<times> port_binding list \<Rightarrow> port_mapping" where
  "port_of kb = (let b = hd (snd kb) in \<lparr>ContainerPort = number (before (CHR ''/'') (fst kb)),
     HostPort = (if pb_HostPort b = [] then 0 else number (pb_HostPort b)), Protocol = after (CHR ''/'') (fst kb), HostIP = pb_HostIP b\<rparr>)"

definition spec_of :: "container_config \<Rightarrow> host_config \<Rightarrow> string list option \<Rightarrow> string \<Rightarrow> container_spec" where
  "spec_of cfg hc net name = \<lparr>cs_Name = name, cs_Image = cc_Image cfg, cs_Cmd = cc_Cmd cfg, cs_Env = map split_pair (cc_Env cfg),
     cs_Labels = cc_Labels cfg, cs_Ports = map port_of (filter (\<lambda>kb. snd kb \<noteq> []) (hc_PortBindings hc)),
     cs_Mounts = map (\<lambda>m. \<lparr>Volume = mc_Source m, Path = mc_Target m, ReadOnly = mc_ReadOnly m\<rparr>) (filter (\<lambda>m. mc_Type m = ''volume'') (hc_Mounts hc)),
     cs_Networks = (case net of None \<Rightarrow> [] | Some ns \<Rightarrow> ns), cs_User = cc_User cfg, cs_RestartPolicy = hc_RestartPolicy hc\<rparr>"

text \<open>Names of variables have no equals sign, no port and no network is given twice, port numbers fit; the defaults written out.\<close>

definition int64 :: "int \<Rightarrow> bool" where "int64 n \<longleftrightarrow> - (2 ^ 63) \<le> n \<and> n < 2 ^ 63"

definition spec_ok :: "container_spec \<Rightarrow> bool" where
  "spec_ok s \<longleftrightarrow> list_all (\<lambda>kv. CHR ''='' \<notin> set (fst kv)) (cs_Env s) \<and> distinct (map port_key (cs_Ports s)) \<and> distinct (cs_Networks s) \<and>
     list_all (\<lambda>p. int64 (ContainerPort p) \<and> int64 (HostPort p)) (cs_Ports s)"

definition with_defaults :: "container_spec \<Rightarrow> container_spec" where
  "with_defaults s = s\<lparr>cs_Ports := map (\<lambda>p. p\<lparr>Protocol := (if Protocol p = [] then ''tcp'' else Protocol p),
     HostIP := (if HostIP p = [] then ''0.0.0.0'' else HostIP p)\<rparr>) (cs_Ports s)\<rparr>"

lemma update_new: "k \<notin> fst ` set xs \<Longrightarrow> AList.update k v xs = xs @ [(k, v)]"
  by (induction xs) auto

lemma fold_update_new:
  "distinct (map key ps) \<Longrightarrow> key ` set ps \<inter> fst ` set acc = {} \<Longrightarrow>
     fold (\<lambda>p. AList.update (key p) (val p)) ps acc = acc @ map (\<lambda>p. (key p, val p)) ps"
  by (induction ps arbitrary: acc) (auto simp: update_new)

lemma split_at:
  assumes "d \<notin> set k"
  shows "before d (k @ d # v) = k" "after d (k @ d # v) = v"
proof -
  have "\<And>x. x \<in> set k \<Longrightarrow> x \<noteq> d" using assms by auto
  then show "before d (k @ d # v) = k" "after d (k @ d # v) = v"
    by (simp_all add: before_def after_def)
qed

lemma number_Itoa: "int64 n \<Longrightarrow> number (Itoa n) = n"
  by (simp add: number_def int64_def ParseInt_Itoa)

lemma Itoa_nonempty: "Itoa n \<noteq> []"
  by (simp add: Itoa_def)

lemma Itoa_no_slash: "CHR ''/'' \<notin> set (Itoa n)"
proof -
  have "CHR ''/'' \<notin> set (show_nat m)" for m
    using show_nat_digits [of m] by (auto simp: list_all_iff is_digit_def byte_val_def dest!: bspec)
  then show ?thesis by (simp add: Itoa_def)
qed

lemma mount_eta: "\<lparr>Volume = Volume x, Path = Path x, ReadOnly = ReadOnly x\<rparr> = x"
  by (cases x) simp

lemma port_round:
  assumes "int64 (ContainerPort p)" "int64 (HostPort p)"
  shows "port_of (port_key p, [binding_of p]) =
    p\<lparr>Protocol := (if Protocol p = [] then ''tcp'' else Protocol p), HostIP := (if HostIP p = [] then ''0.0.0.0'' else HostIP p)\<rparr>"
  using assms split_at [OF Itoa_no_slash] by (simp add: port_of_def port_key_def binding_of_def number_Itoa Itoa_nonempty Let_def)

lemma create_lossless:
  assumes "spec_ok s"
  shows "spec_of (container_config_of s) (host_config_of s) (networkConfig (cs_Networks s)) (cs_Name s) = with_defaults s"
proof -
  note ok = assms [unfolded spec_ok_def list_all_iff]
  have "snd (portConfig (cs_Ports s)) = map (\<lambda>p. (port_key p, [binding_of p])) (cs_Ports s)"
    using ok fold_update_new [of port_key "cs_Ports s" "[]" "\<lambda>p. [binding_of p]"] by (simp add: portConfig_def)
  then have ports: "map port_of (filter (\<lambda>kb. snd kb \<noteq> []) (snd (portConfig (cs_Ports s)))) = cs_Ports (with_defaults s)"
    using ok by (simp add: with_defaults_def port_round filter_map comp_def)
  have env: "map split_pair (envSlice (cs_Env s)) = cs_Env s"
    using ok split_at by (auto simp: envSlice_def split_pair_def intro!: map_idI)
  have mounts: "map (\<lambda>m. \<lparr>Volume = mc_Source m, Path = mc_Target m, ReadOnly = mc_ReadOnly m\<rparr>)
      (filter (\<lambda>m. mc_Type m = ''volume'') (mountConfig (cs_Mounts s))) = cs_Mounts s"
    by (simp add: mountConfig_def filter_map comp_def mount_eta)
  have nets: "(case networkConfig (cs_Networks s) of None \<Rightarrow> [] | Some ns \<Rightarrow> ns) = cs_Networks s"
    using ok by (simp add: networkConfig_def distinct_remdups_id)
  show ?thesis
    unfolding spec_of_def container_config_of_def host_config_of_def container_config.simps host_config.simps ports env mounts nets
    by (simp add: with_defaults_def)
qed

section \<open>The daemon as the in-memory runtime\<close>

text \<open>The rest of \<^verbatim>\<open>fake.go\<close>: volumes by label, statistics, and networks, whose map no other operation reads.\<close>

definition fake_ListVolumesByLabel :: "strmap \<Rightarrow> (fake, string list) gofun" where
  "fake_ListVolumesByLabel labels f = (Inr (map fst (filter (\<lambda>(name, have). labelsMatch have labels) (fk_volumes f))), f)"

definition fake_ContainerStats :: "'f \<Rightarrow> (string \<Rightarrow> goerr + 'f ContainerStats) option \<Rightarrow> string \<Rightarrow> (fake, 'f ContainerStats) gofun" where
  "fake_ContainerStats zero statsFunc cid f = (case statsFunc of
       None \<Rightarrow> (Inr \<lparr>cst_CPUPercent = zero, cst_MemoryBytes = 0, cst_MemoryLimitBytes = 0, cst_MemoryPercent = zero, cst_DiskIOAvailable = False,
         cst_DiskReadBytes = 0, cst_DiskWriteBytes = 0, cst_DiskReadOps = 0, cst_DiskWriteOps = 0\<rparr>, f)
     | Some fn \<Rightarrow> (fn cid, f))"

definition fake_CreateNetwork :: "string \<Rightarrow> strmap \<Rightarrow> ((string \<times> strmap) list, string) gofun" where
  "fake_CreateNetwork name labels networks = (Inr name, AList.update name labels networks)"

definition fake_RemoveNetwork :: "string \<Rightarrow> ((string \<times> strmap) list, unit) gofun" where
  "fake_RemoveNetwork nid networks = (Inr (), AList.delete nid networks)"

text \<open>A daemon on the state of the in-memory runtime. A command prints nothing and exits with 0, as without its hook.\<close>

definition inspect_of :: "container_state \<Rightarrow> inspect_response" where
  "inspect_of st = \<lparr>ij_ID = st_ID st, ij_Name = st_Name st, ij_HostConfig = Some (st_RestartPolicy st),
     ij_State = Some \<lparr>js_Status = st_Status st, js_Running = st_Running st, js_ExitCode = st_ExitCode st,
       js_Health = (if st_Health st = [] then None else Some (st_Health st))\<rparr>,
     ij_NetworkSettings = Some (map (\<lambda>(port, hp). (port, [\<lparr>pb_HostIP = ''0.0.0.0'', pb_HostPort = hp\<rparr>])) (st_Ports st))\<rparr>"

definition summary_of :: "container_info \<Rightarrow> container_summary" where
  "summary_of c = \<lparr>su_ID = ci_ID c, su_Names = [container_info.ci_Name c], su_State = ci_State c, su_Labels = ci_Labels c\<rparr>"

definition fake_engine :: "fake_env engine" where
  "fake_engine = \<lparr>
     ImageInspect = (\<lambda>ref. ret ()), ImagePull = (\<lambda>ref. ret ()),
     ContainerCreate = (\<lambda>cfg hc net name. on_fake (fake_CreateContainer (spec_of cfg hc net name))),
     ContainerStart = (\<lambda>cid. on_fake (fake_StartContainer (one_shot (\<lambda>_. None)) cid)),
     ContainerStop = (\<lambda>cid t. on_fake (fake_StopContainer cid t)),
     ContainerRemove = (\<lambda>cid force. on_fake (fake_RemoveContainer cid force)),
     ContainerInspect = (\<lambda>cid. bindE (on_fake (fake_Inspect cid)) (\<lambda>st. ret (inspect_of st))),
     ContainerExecCreate = (\<lambda>cid cmd. bindE (on_fake (fake_Exec None cid cmd)) (\<lambda>_. ret cid)),
     ContainerExecAttach = (\<lambda>xid. ret ([], None)), ContainerExecInspect = (\<lambda>xid. ret 0), ContainerStatsOneShot = (\<lambda>cid. ret []),
     ContainerLogs = (\<lambda>cid follow. on_fake (fake_Logs cid follow)),
     ContainerList = (\<lambda>filters. bindE (on_fake (fake_ListByLabel (map split_pair filters))) (\<lambda>l. ret (map summary_of l))),
     VolumeCreate = (\<lambda>name labels. on_fake (fake_CreateVolume name labels)),
     VolumeRemove = (\<lambda>name force. on_fake (fake_RemoveVolume name force)),
     VolumeList = (\<lambda>filters. on_fake (fake_ListVolumesByLabel (map split_pair filters))),
     NetworkCreate = (\<lambda>name labels. ret name), NetworkRemove = (\<lambda>nid. ret ()),
     IsNotFound = (\<lambda>e. Kind e = KindNotFound)\<rparr>"

lemma quiet_on_fake: "(\<And>f. same_objects f (snd (m f))) \<Longrightarrow> quiet (Now (fake_host execFunc imgErr exitOf lb)) fake_inv fake_conts fake_vols (on_fake m)"
  unfolding quiet_def
proof (intro allI impI)
  fix e r e' assume "\<And>f. same_objects f (snd (m f))" and run: "on_fake m e = (r, e')"
  then have "same_objects (fst e) (fst e')" using on_fake_result [OF run] by (metis snd_conv)
  moreover have "Now (fake_host execFunc imgErr exitOf lb) e' = Now (fake_host execFunc imgErr exitOf lb) e"
    using on_fake_clock [OF run] by (cases e; cases e') (simp add: fake_host_def)
  ultimately show "Now (fake_host execFunc imgErr exitOf lb) e \<le> Now (fake_host execFunc imgErr exitOf lb) e' \<and>
      (fake_inv e \<longrightarrow> fake_inv e' \<and> fake_conts e' = fake_conts e \<and> fake_vols e' = fake_vols e)"
    using same_keeps_ids by (simp add: same_objects_def)
qed

lemma fake_volume_ids:
  "ids_ok f \<Longrightarrow> fake_CreateVolume v l f = (r, f') \<Longrightarrow> ids_ok f'"
  "ids_ok f \<Longrightarrow> fake_RemoveVolume v force f = (r, f') \<Longrightarrow> ids_ok f'"
  by (auto simp: ids_ok_def fake_CreateVolume_def fake_RemoveVolume_def)

interpretation fake_dk: docker_engine fake_engine "fake_host execFunc imgErr exitOf lb" fake_inv fake_conts fake_vols
  for execFunc imgErr exitOf lb
proof (unfold_locales, unfold fake_engine_def engine.simps, goal_cases)
  case 1 show ?case by (rule quiet_ret)
next
  case 2 show ?case by (rule quiet_ret)
next
  case 3 show ?case by (rule quiet_on_fake) (rule same_fake_ops)
next
  case 4 show ?case by (rule quiet_on_fake) (rule same_fake_ops)
next
  case 5 show ?case by (intro quiet_bindE quiet_ret quiet_on_fake) (rule same_fake_ops)
next
  case 6 show ?case by (rule quiet_on_fake) (rule same_fake_ops)
next
  case 7 show ?case by (intro quiet_bindE quiet_ret quiet_on_fake) (rule same_fake_ops)
next
  case 8 show ?case by (intro quiet_bindE quiet_ret quiet_on_fake) (rule same_fake_ops)
next
  case 9 show ?case by (rule quiet_ret)
next
  case 10 show ?case by (rule quiet_ret)
next
  case 11 then show ?case by (auto simp: fake_host_def dest: fake_wait_frame)
next
  case 12 then show ?case by (auto simp: fake_host_def fake_rand_def split: prod.splits)
next
  case 13 then show ?case by (auto simp: fake_host_def fake_rand_def split: prod.splits)
next
  case 14 then show ?case by (auto simp: fake_host_def dest: fake_wait_frame split: prod.splits)
next
  case 15 then show ?case
    using fake_create_spec [OF 15(1) on_fake_result [OF 15(2)]] fake_create_ids [OF 15(1)] on_fake_result [OF 15(2)] by auto (metis snd_conv)+
next
  case 16 then show ?case
    using fake_remove_spec [OF on_fake_result [OF 16(2)]] fake_remove_ids [OF 16(1)] on_fake_result [OF 16(2)] by (auto split: if_splits) (metis snd_conv)+
next
  case 17 then show ?case
    using fake_volume_spec(1) [OF on_fake_result [OF 17(2)]] fake_volume_ids(1) [OF 17(1) on_fake_result [OF 17(2)]] by auto
next
  case 18 then show ?case
    using fake_volume_spec(2) [OF on_fake_result [OF 18(2)]] fake_volume_ids(2) [OF 18(1) on_fake_result [OF 18(2)]] by auto
qed

section \<open>What the adapter guarantees\<close>

text \<open>A captured stream is its beginning, at most 1 MiB of it.\<close>

lemma capture_prefix: "capture stream frames = take (nat maxExecCaptureBytes) (concat (map snd (filter (\<lambda>f. fst f = stream) frames)))"
  using cb_write_all_gen [of "\<lparr>cb_buf = [], cb_limit = maxExecCaptureBytes, cb_truncated = False\<rparr>"]
  by (simp add: capture_def cb_wf_def maxExecCaptureBytes_def)

section \<open>The adapter refines the runtime behind the daemon\<close>

text \<open>
  A daemon that carries out the calls of the Engine API as the runtime \<open>rt\<close> does: a creation by what its
  arguments describe, a removal with the force it is given, a command by an exec that is created, run when it is attached to, and
  asked for its exit code. \<open>has\<close> tells which images are present, and \<open>mux\<close> cuts the output of a command into frames.
\<close>

type_synonym execs = "(string \<times> string \<times> string list \<times> int) list"

definition lifted :: "('e, 'a) gofun \<Rightarrow> ('e \<times> execs, 'a) gofun" where
  "lifted m = (\<lambda>(e, t). case m e of (r, e') \<Rightarrow> (r, (e', t)))"

definition exec_missing :: goerr where "exec_missing = New KindNotFound ''no such exec''"

definition daemon_exec_create :: "string \<Rightarrow> string list \<Rightarrow> ('e \<times> execs, string) gofun" where
  "daemon_exec_create cid cmd = (\<lambda>(e, t). let xid = replicate (Suc (length t)) (CHR ''x'') in (Inr xid, (e, (xid, cid, cmd, 0) # t)))"

definition daemon_exec_attach :: "'e host \<Rightarrow> (exec_result \<Rightarrow> (bool \<times> string) list) \<Rightarrow> string \<Rightarrow>
    ('e \<times> execs, (bool \<times> string) list \<times> goerr option) gofun" where
  "daemon_exec_attach rt mux xid = (\<lambda>(e, t). case map_of t xid of
       None \<Rightarrow> (Inl exec_missing, (e, t))
     | Some (cid, cmd, _) \<Rightarrow> (case Exec rt cid cmd e of
           (Inl x, e') \<Rightarrow> (Inl x, (e', t))
         | (Inr res, e') \<Rightarrow> (Inr (mux res, None), (e', (xid, cid, cmd, ExitCode res) # t))))"

definition daemon_exec_inspect :: "string \<Rightarrow> ('e \<times> execs, int) gofun" where
  "daemon_exec_inspect xid = (\<lambda>(e, t). case map_of t xid of None \<Rightarrow> (Inl exec_missing, (e, t)) | Some (_, _, code) \<Rightarrow> (Inr code, (e, t)))"

definition daemon :: "'e host \<Rightarrow> ('e \<Rightarrow> string \<Rightarrow> bool) \<Rightarrow> (exec_result \<Rightarrow> (bool \<times> string) list) \<Rightarrow> ('e \<times> execs) engine" where
  "daemon rt has mux = \<lparr>
     ImageInspect = (\<lambda>ref (e, t). (if has e ref then Inr () else Inl (New KindNotFound ''no such image''), (e, t))),
     ImagePull = (\<lambda>ref. lifted (EnsureImage rt ref)),
     ContainerCreate = (\<lambda>cfg hc net name. lifted (CreateContainer rt (spec_of cfg hc net name))),
     ContainerStart = (\<lambda>cid. lifted (StartContainer rt cid)),
     ContainerStop = (\<lambda>cid tmo. lifted (StopContainer rt cid tmo)),
     ContainerRemove = (\<lambda>cid force. lifted (RemoveContainer rt cid force)),
     ContainerInspect = (\<lambda>cid. bindE (lifted (Inspect rt cid)) (\<lambda>st. ret (inspect_of st))),
     ContainerExecCreate = daemon_exec_create,
     ContainerExecAttach = daemon_exec_attach rt mux,
     ContainerExecInspect = daemon_exec_inspect,
     ContainerStatsOneShot = (\<lambda>cid. ret []),
     ContainerLogs = (\<lambda>cid follow. lifted (Logs rt cid follow)),
     ContainerList = (\<lambda>filters. bindE (lifted (ListByLabel rt (map split_pair filters))) (\<lambda>l. ret (map summary_of l))),
     VolumeCreate = (\<lambda>name labels. lifted (CreateVolume rt name labels)),
     VolumeRemove = (\<lambda>name force. lifted (RemoveVolume rt name force)),
     VolumeList = (\<lambda>filters. ret []), NetworkCreate = (\<lambda>name labels. ret name), NetworkRemove = (\<lambda>nid. ret ()),
     IsNotFound = (\<lambda>e. Kind e = KindNotFound)\<rparr>"

text \<open>What a caller of the adapter sees of a call: the same result and state, an error wrapped with its kind kept apart from the others.\<close>

definition relayed :: "(goerr \<Rightarrow> goerr) \<Rightarrow> ('e, 'a) gofun \<Rightarrow> ('e \<times> execs, 'a) gofun" where
  "relayed w m = (\<lambda>(e, t). case m e of (r, e') \<Rightarrow> (case r of Inl x \<Rightarrow> Inl (w x) | Inr v \<Rightarrow> Inr v, (e', t)))"

definition docker_error :: "string \<Rightarrow> goerr \<Rightarrow> goerr" where
  "docker_error op x = Wrap (if Kind x = KindNotFound then KindNotFound else KindInternal) (''docker: '' @ op) x"

definition clipped :: "exec_result \<Rightarrow> exec_result" where
  "clipped res = res\<lparr>Stdout := take 1048576 (Stdout res), Stderr := take 1048576 (Stderr res)\<rparr>"

definition muxes :: "(exec_result \<Rightarrow> (bool \<times> string) list) \<Rightarrow> bool" where
  "muxes mux \<longleftrightarrow> (\<forall>res. concat (map snd (filter (\<lambda>f. \<not> fst f) (mux res))) = Stdout res \<and>
     concat (map snd (filter fst (mux res))) = Stderr res)"

lemma mapErr_daemon: "mapErr (daemon rt has mux) = docker_error"
  by (intro ext) (simp add: mapErr_def docker_error_def daemon_def)

lemma wrap_lifted: "wrap_error w (lifted m) = relayed w m"
  by (intro ext) (simp add: wrap_error_def lifted_def relayed_def prog_run split: prod.split sum.split)

lemma wrap_lifted_map:
  "bindE (wrap_error w (bindE (lifted m) (\<lambda>x. ret (f x)))) (\<lambda>y. ret (g y)) = relayed w (bindE m (\<lambda>x. ret (g (f x))))"
  by (intro ext) (simp add: wrap_error_def lifted_def relayed_def prog_run split: prod.split sum.split)

lemma bindE_same: "(\<And>x. f x = x) \<Longrightarrow> bindE m (\<lambda>x. ret (f x)) = m"
  by (intro ext) (simp add: prog_run split: prod.split sum.split)

lemma state_of_inspect: "state_of (inspect_of st) = st"
  by (cases st) (auto simp: state_of_def inspect_of_def filter_map comp_def case_prod_unfold)

lemma info_of_summary: "info_of (summary_of c) = c"
  by (cases c) (simp add: info_of_def summary_of_def)

lemma labels_round: "list_all (\<lambda>kv. CHR ''='' \<notin> set (fst kv)) labels \<Longrightarrow> map split_pair (labelFilters labels) = labels"
  using split_at by (auto simp: labelFilters_def split_pair_def list_all_iff intro!: map_idI)

lemma exec_refines:
  assumes "muxes mux"
  shows "\<exists>t'. moby_Exec (daemon rt has mux) cid cmd (e, t) = (case Exec rt cid cmd e of
      (Inl x, e') \<Rightarrow> (Inl (docker_error ''exec attach'' x), (e', t')) | (Inr res, e') \<Rightarrow> (Inr (clipped res), (e', t')))"
proof -
  have cap: "capture False (mux res) = take 1048576 (Stdout res)" "capture True (mux res) = take 1048576 (Stderr res)" for res
    using assms by (simp_all add: capture_prefix muxes_def maxExecCaptureBytes_def)
  show ?thesis
    unfolding moby_Exec_def mapErr_daemon
    by (simp add: daemon_def daemon_exec_create_def daemon_exec_attach_def daemon_exec_inspect_def wrap_error_def prog_run Let_def
        cap clipped_def split: prod.split sum.split)
qed

lemma create_refines:
  assumes "spec_ok spec"
  shows "moby_CreateContainer (daemon rt has mux) spec = relayed (docker_error ''create container'') (CreateContainer rt (with_defaults spec))"
  unfolding moby_CreateContainer_def mapErr_daemon
  by (simp add: daemon_def wrap_lifted create_lossless [OF assms])

lemma image_refines:
  "moby_EnsureImage (daemon rt has mux) ref (e, t) =
     (if has e ref then (Inr (), (e, t)) else relayed (Wrapf (''docker: pull '' @ ref @ '': '')) (EnsureImage rt ref) (e, t))"
  unfolding moby_EnsureImage_def by (simp add: daemon_def wrap_lifted prog_run)


definition demo_spec :: container_spec where
  "demo_spec = \<lparr>cs_Name = ''pgfleet-pg-a'', cs_Image = ''img'', cs_Cmd = [''postgres''], cs_Env = [(''PGOPTS'', ''-c a=b'')], cs_Labels = [(LabelManaged, ''true'')],
     cs_Ports = [\<lparr>ContainerPort = 5432, HostPort = 0, Protocol = [], HostIP = ''127.0.0.1''\<rparr>],
     cs_Mounts = [\<lparr>Volume = ''v'', Path = ''/data'', ReadOnly = True\<rparr>], cs_Networks = [''pgfleet''], cs_User = [], cs_RestartPolicy = ''no''\<rparr>"

text \<open>Over the in-memory runtime: a command's streams and exit code come back, and a forced removal removes a running container.\<close>

definition demo_rt :: "fake_env host" where
  "demo_rt = fake_host (Some (\<lambda>_ _. Inr \<lparr>ExitCode = 3, Stdout = ''out'', Stderr = ''err''\<rparr>)) None (\<lambda>_. None) tagged_lib"

definition demo_mux :: "exec_result \<Rightarrow> (bool \<times> string) list" where
  "demo_mux res = [(True, take 1 (Stderr res)), (False, Stdout res), (True, drop 1 (Stderr res))]"


text \<open>
  C38. A container is created as specified: image, command, environment, labels, user, published ports with their
  host addresses, mounts with their mode, networks, restart policy and name can all be read back from
  the arguments of the daemon's call, with the protocol and the host address defaulting to \<^verbatim>\<open>tcp\<close> and
  \<^verbatim>\<open>0.0.0.0\<close> only where they are empty.
\<close>

theorem moby_create_lossless:
  assumes "spec_ok s"
  shows "spec_of (container_config_of s) (host_config_of s) (networkConfig (cs_Networks s)) (cs_Name s) = with_defaults s"
  using assms by (rule create_lossless)

theorem moby_create_lossless_witness:
  "spec_of (container_config_of demo_spec) (host_config_of demo_spec) (networkConfig (cs_Networks demo_spec)) (cs_Name demo_spec) =
     demo_spec\<lparr>cs_Ports := [\<lparr>ContainerPort = 5432, HostPort = 0, Protocol = ''tcp'', HostIP = ''127.0.0.1''\<rparr>]\<rparr>"
proof -
  have "spec_ok demo_spec" by (simp add: spec_ok_def demo_spec_def int64_def)
  from moby_create_lossless [OF this] show ?thesis by (simp add: with_defaults_def demo_spec_def)
qed

end
