(* ===== verification/InstanceLocks.thy ===== *)
theory InstanceLocks
  imports Prelude
begin

text \<open>
  Operations that swap an instance's container or data volume are serialised per instance: \<^verbatim>\<open>instanceOpMutex\<close> of
  \<^verbatim>\<open>internal/provision/provision.go\<close> keeps a table of mutexes, one per instance and created on
  first use, behind a mutex of its own; \<^verbatim>\<open>Restore\<close> and \<^verbatim>\<open>SetVisibility\<close> hold the instance's mutex for their whole
  body. No other operation takes it: \<^verbatim>\<open>Start\<close>, \<^verbatim>\<open>Stop\<close>, \<^verbatim>\<open>Restart\<close>, \<^verbatim>\<open>Destroy\<close>, \<^verbatim>\<open>Provision\<close> and \<^verbatim>\<open>Clone\<close> run
  unserialised, and a goroutine of the model is one call of \<^verbatim>\<open>Restore\<close> or \<^verbatim>\<open>SetVisibility\<close>. \<^verbatim>\<open>lockFor\<close> of
  \<^verbatim>\<open>internal/backup/backup.go\<close> is the same code over a second table, which the backup operations share.

  A goroutine is in one of the phases below; the steps of all goroutines interleave, and reading the table and
  writing it are separate steps. A mutex is its address, and locking it is a step that is possible
  only while nobody holds it. The body of an operation is one phase: theories \<open>Restore\<close> and \<open>Visibility\<close> have what it does.
\<close>

datatype op_phase =
    Idle
  | Calls string
  | InTable string
  | Looked string "nat option"
  | Got string nat
  | Works string nat

record locks =
  opMuMap :: "string \<Rightarrow> nat option"
  opMuLock :: "nat option"
  mutexes :: nat
  holder :: "nat \<Rightarrow> nat option"
  at :: "nat \<Rightarrow> op_phase"

definition no_locks :: locks where
  "no_locks = \<lparr>opMuMap = Map.empty, opMuLock = None, mutexes = 0, holder = Map.empty, at = (\<lambda>_. Idle)\<rparr>"

text \<open>The steps of a goroutine \<open>g\<close> on instance \<open>k\<close>.\<close>

definition op_call :: "nat \<Rightarrow> string \<Rightarrow> locks \<Rightarrow> locks" where
  "op_call g k s = s\<lparr>at := (at s)(g := Calls k)\<rparr>"

definition table_lock :: "nat \<Rightarrow> string \<Rightarrow> locks \<Rightarrow> locks" where
  "table_lock g k s = s\<lparr>opMuLock := Some g, at := (at s)(g := InTable k)\<rparr>"

definition table_read :: "nat \<Rightarrow> string \<Rightarrow> locks \<Rightarrow> locks" where
  "table_read g k s = s\<lparr>at := (at s)(g := Looked k (opMuMap s k))\<rparr>"

definition table_return :: "nat \<Rightarrow> string \<Rightarrow> nat option \<Rightarrow> locks \<Rightarrow> locks" where
  "table_return g k found s = (case found of
       Some m \<Rightarrow> s\<lparr>opMuLock := None, at := (at s)(g := Got k m)\<rparr>
     | None \<Rightarrow> s\<lparr>opMuMap := (opMuMap s)(k \<mapsto> mutexes s), mutexes := Suc (mutexes s), opMuLock := None,
                at := (at s)(g := Got k (mutexes s))\<rparr>)"

definition op_lock :: "nat \<Rightarrow> string \<Rightarrow> nat \<Rightarrow> locks \<Rightarrow> locks" where
  "op_lock g k m s = s\<lparr>holder := (holder s)(m \<mapsto> g), at := (at s)(g := Works k m)\<rparr>"

definition op_unlock :: "nat \<Rightarrow> nat \<Rightarrow> locks \<Rightarrow> locks" where
  "op_unlock g m s = s\<lparr>holder := (holder s)(m := None), at := (at s)(g := Idle)\<rparr>"

inductive lock_move :: "nat \<Rightarrow> locks \<Rightarrow> locks \<Rightarrow> bool" where
  enter: "at s g = Calls k \<Longrightarrow> opMuLock s = None \<Longrightarrow> lock_move g s (table_lock g k s)"
| look: "at s g = InTable k \<Longrightarrow> lock_move g s (table_read g k s)"
| leave: "at s g = Looked k found \<Longrightarrow> lock_move g s (table_return g k found s)"
| acquire: "at s g = Got k m \<Longrightarrow> holder s m = None \<Longrightarrow> lock_move g s (op_lock g k m s)"
| release: "at s g = Works k m \<Longrightarrow> lock_move g s (op_unlock g m s)"

inductive lock_reachable :: "locks \<Rightarrow> bool" where
  start: "lock_reachable no_locks"
| call: "lock_reachable s \<Longrightarrow> at s g = Idle \<Longrightarrow> lock_reachable (op_call g k s)"
| move: "lock_reachable s \<Longrightarrow> lock_move g s s' \<Longrightarrow> lock_reachable s'"

lemmas lock_defs = op_call_def table_lock_def table_read_def table_return_def op_lock_def op_unlock_def

section \<open>The invariant\<close>

fun in_table :: "op_phase \<Rightarrow> bool" where
  "in_table (InTable k) = True"
| "in_table (Looked k r) = True"
| "in_table _ = False"

fun phase_ok :: "locks \<Rightarrow> nat \<Rightarrow> op_phase \<Rightarrow> bool" where
  "phase_ok s g (Looked k found) \<longleftrightarrow> found = opMuMap s k"
| "phase_ok s g (Got k m) \<longleftrightarrow> opMuMap s k = Some m"
| "phase_ok s g (Works k m) \<longleftrightarrow> opMuMap s k = Some m \<and> holder s m = Some g"
| "phase_ok s g _ \<longleftrightarrow> True"

definition locks_inv :: "locks \<Rightarrow> bool" where
  "locks_inv s \<longleftrightarrow> (\<forall>g. in_table (at s g) \<longleftrightarrow> opMuLock s = Some g) \<and> (\<forall>g. phase_ok s g (at s g)) \<and>
     (\<forall>m g. holder s m = Some g \<longrightarrow> (\<exists>k. at s g = Works k m)) \<and>
     (\<forall>k m. opMuMap s k = Some m \<longrightarrow> m < mutexes s) \<and> inj_on (opMuMap s) (dom (opMuMap s))"

lemma locks_invD:
  assumes "locks_inv s"
  shows "in_table (at s g) \<longleftrightarrow> opMuLock s = Some g" "phase_ok s g (at s g)"
    "holder s m = Some g \<Longrightarrow> \<exists>k. at s g = Works k m" "opMuMap s k = Some m \<Longrightarrow> m < mutexes s" "inj_on (opMuMap s) (dom (opMuMap s))"
  using assms by (auto simp: locks_inv_def)

lemma inv_start: "locks_inv no_locks"
  by (simp add: locks_inv_def no_locks_def)

lemma phase_ok_frame [simp]:
  "phase_ok (s\<lparr>at := f\<rparr>) g p = phase_ok s g p" "phase_ok (s\<lparr>opMuLock := l\<rparr>) g p = phase_ok s g p"
  "phase_ok (s\<lparr>mutexes := n\<rparr>) g p = phase_ok s g p"
  by (cases p; simp)+

lemma inv_phase:
  assumes inv: "locks_inv s" and "\<And>k m. at s g \<noteq> Works k m" "phase_ok s g p" "in_table p \<longleftrightarrow> l = Some g"
    "\<And>h. h \<noteq> g \<Longrightarrow> opMuLock s = Some h \<longleftrightarrow> l = Some h"
  shows "locks_inv (s\<lparr>opMuLock := l, at := (at s)(g := p)\<rparr>)"
proof -
  have "\<exists>k. ((at s)(g := p)) h = Works k m" if "holder s m = Some h" for h m
    using locks_invD(3) [OF inv that] assms(2) by auto
  then show ?thesis using assms locks_invD [OF inv] unfolding locks_inv_def by auto
qed

lemma inv_call: "locks_inv s \<Longrightarrow> at s g = Idle \<Longrightarrow> locks_inv (op_call g k s)"
  using inv_phase [of s g "Calls k" "opMuLock s"] locks_invD(1) [of s g] by (simp add: op_call_def)

text \<open>A new entry disturbs nobody: no other goroutine is in the table, and whoever has a mutex has it from an existing entry.\<close>

lemma inv_new_entry:
  assumes inv: "locks_inv s" and g: "at s g = Looked k None"
  shows "locks_inv (table_return g k None s)"
proof -
  let ?s = "table_return g k None s"
  have new: "opMuMap s k = None" using locks_invD(2) [OF inv, of g] g by simp
  have "phase_ok ?s h (at ?s h)" for h
  proof (cases "h = g")
    case False
    have "\<not> in_table (at s h)" using locks_invD(1) [OF inv] g False by (metis in_table.simps(2) option.inject)
    then show ?thesis using locks_invD(2) [OF inv, of h] new False by (cases "at s h") (auto simp: table_return_def)
  qed (simp add: table_return_def)
  moreover have "in_table (at ?s h) \<longleftrightarrow> opMuLock ?s = Some h" for h
    using locks_invD(1) [OF inv] g by (auto simp: table_return_def) (metis in_table.simps(2) option.inject)
  moreover have "\<exists>k'. at ?s h = Works k' m" if "holder ?s m = Some h" for h m
    using locks_invD(3) [OF inv, of m h] that g by (auto simp: table_return_def)
  moreover have "inj_on (opMuMap ?s) (dom (opMuMap ?s))"
    using locks_invD(4,5) [OF inv] by (fastforce simp: table_return_def inj_on_def dom_def)
  moreover have "m < mutexes ?s" if "opMuMap ?s k' = Some m" for k' m
    using locks_invD(4) [OF inv, of k' m] that by (auto simp: table_return_def split: if_splits)
  ultimately show ?thesis unfolding locks_inv_def by blast
qed

lemma inv_acquire:
  assumes inv: "locks_inv s" and g: "at s g = Got k m" "holder s m = None"
  shows "locks_inv (op_lock g k m s)"
proof -
  let ?s = "op_lock g k m s"
  have "phase_ok ?s h (at ?s h)" for h
    using locks_invD(2) [OF inv, of h] locks_invD(2) [OF inv, of g] g by (cases "at s h") (auto simp: op_lock_def)
  moreover have "in_table (at ?s h) \<longleftrightarrow> opMuLock ?s = Some h" for h
    using locks_invD(1) [OF inv, of h] g by (auto simp: op_lock_def)
  moreover have "\<exists>k'. at ?s h = Works k' n" if "holder ?s n = Some h" for h n
    using locks_invD(3) [OF inv, of n h] that g by (auto simp: op_lock_def split: if_splits)
  ultimately show ?thesis using inv unfolding locks_inv_def by (simp add: op_lock_def)
qed

lemma inv_release:
  assumes inv: "locks_inv s" and g: "at s g = Works k m"
  shows "locks_inv (op_unlock g m s)"
proof -
  let ?s = "op_unlock g m s"
  have m: "holder s m = Some g" using locks_invD(2) [OF inv, of g] g by simp
  have "phase_ok ?s h (at ?s h)" for h
    using locks_invD(2) [OF inv, of h] m by (cases "at s h") (auto simp: op_unlock_def)
  moreover have "in_table (at ?s h) \<longleftrightarrow> opMuLock ?s = Some h" for h
    using locks_invD(1) [OF inv, of h] g by (auto simp: op_unlock_def)
  moreover have "\<exists>k'. at ?s h = Works k' n" if "holder ?s n = Some h" for h n
    using locks_invD(3) [OF inv, of n h] that g by (auto simp: op_unlock_def split: if_splits)
  ultimately show ?thesis using inv unfolding locks_inv_def by (simp add: op_unlock_def)
qed

lemma inv_move: "lock_move g s s' \<Longrightarrow> locks_inv s \<Longrightarrow> locks_inv s'"
proof (induction rule: lock_move.induct)
  case (enter s g k)
  then show ?case using inv_phase [of s g "InTable k" "Some g"] by (simp add: table_lock_def)
next
  case (look s g k)
  then have "opMuLock s = Some g" using locks_invD(1) [of s g] by simp
  with look show ?case using inv_phase [of s g "Looked k (opMuMap s k)" "Some g"]
    by (simp add: table_read_def) (metis (no_types, lifting) locks.surjective locks.update_convs(2))
next
  case (leave s g k found)
  then have "opMuLock s = Some g" "found = opMuMap s k" using locks_invD(1,2) [of s g] by simp_all
  with leave show ?case using inv_new_entry [of s g k] inv_phase [of s g "Got k m" None for m]
    by (auto simp: table_return_def split: option.split)
qed (auto intro: inv_acquire inv_release)

lemma reachable_inv: "lock_reachable s \<Longrightarrow> locks_inv s"
  by (induction rule: lock_reachable.induct) (auto intro: inv_start inv_call inv_move)

lemma lock_progress:
  assumes inv: "locks_inv s" and g: "at s g \<noteq> Idle"
  shows "\<exists>g s'. lock_move g s s'"
proof (cases "opMuLock s")
  case (Some h)
  then have "in_table (at s h)" using locks_invD(1) [OF inv] by simp
  then show ?thesis by (cases "at s h") (auto intro: lock_move.intros)
next
  case None
  show ?thesis
  proof (cases "at s g")
    case (Got k m)
    show ?thesis
    proof (cases "holder s m")
      case (Some h)
      then obtain k' where "at s h = Works k' m" using locks_invD(3) [OF inv] by blast
      then show ?thesis by (auto intro: lock_move.release)
    qed (use Got lock_move.acquire in blast)
  qed (use None g lock_move.intros in blast)+
qed

text \<open>
  C14. The bodies that \<^verbatim>\<open>instanceOpMutex\<close> guards, those of \<^verbatim>\<open>Restore\<close> and \<^verbatim>\<open>SetVisibility\<close>, never overlap on one
  instance, and serialising them blocks nothing else. In every
  interleaving at most one goroutine is inside such a body for a given instance; a call whose instance no other one holds can
  enter at once, whatever runs on other instances; and while any call is under way some goroutine can
  take a step, so the two levels of locking never deadlock. Operations that take no such lock (start, stop,
  restart, destroy, provision, clone) are not excluded, nor are backups, which use a table of their own.
\<close>

theorem instance_ops_exclusive:
  assumes "lock_reachable s"
  shows "(\<forall>g h k m n. at s g = Works k m \<and> at s h = Works k n \<longrightarrow> g = h) \<and>
    (\<forall>g k m. at s g = Got k m \<and> (\<forall>h n. at s h \<noteq> Works k n) \<longrightarrow> lock_move g s (op_lock g k m s)) \<and>
    ((\<exists>g. at s g \<noteq> Idle) \<longrightarrow> (\<exists>g s'. lock_move g s s'))"
proof (intro conjI allI impI)
  note inv = reachable_inv [OF assms]
  show "g = h" if "at s g = Works k m \<and> at s h = Works k n" for g h k m n
    using that locks_invD(2) [OF inv, of g] locks_invD(2) [OF inv, of h] by auto
  show "lock_move g s (op_lock g k m s)" if g: "at s g = Got k m \<and> (\<forall>h n. at s h \<noteq> Works k n)" for g k m
  proof -
    have km: "opMuMap s k = Some m" using g locks_invD(2) [OF inv, of g] by simp
    have "holder s m \<noteq> Some h" for h
    proof
      assume "holder s m = Some h"
      then obtain k' where h: "at s h = Works k' m" using locks_invD(3) [OF inv] by blast
      then have "opMuMap s k' = Some m" using locks_invD(2) [OF inv, of h] by simp
      then have "k' = k" using km locks_invD(5) [OF inv] by (auto simp: inj_on_def dom_def)
      with h g show False by blast
    qed
    then have "holder s m = None" by (cases "holder s m") auto
    with g show ?thesis by (intro lock_move.acquire) auto
  qed
  show "\<exists>g s'. lock_move g s s'" if "\<exists>h. at s h \<noteq> Idle" using that lock_progress [OF inv] by blast
qed

text \<open>Two goroutines call for the same instance, and the first is inside its operation.\<close>

definition demo_locks :: locks where
  "demo_locks = (let s1 = op_lock 0 ''i1'' 0 (table_return 0 ''i1'' None (table_read 0 ''i1'' (table_lock 0 ''i1'' (op_call 0 ''i1'' no_locks))))
     in table_return 1 ''i1'' (Some 0) (table_read 1 ''i1'' (table_lock 1 ''i1'' (op_call 1 ''i1'' s1))))"

lemmas reach = lock_reachable.start lock_reachable.call lock_reachable.move [OF _ lock_move.enter] lock_reachable.move [OF _ lock_move.look]
  lock_reachable.move [OF _ lock_move.leave] lock_reachable.move [OF _ lock_move.acquire]

lemma demo_locks_reachable: "lock_reachable demo_locks"
  unfolding demo_locks_def Let_def by (intro reach) (simp_all add: lock_defs no_locks_def)

theorem instance_ops_exclusive_witness:
  "at demo_locks 0 = Works ''i1'' 0 \<and> at demo_locks 1 = Got ''i1'' 0 \<and> \<not> (\<exists>m. at demo_locks 1 = Works ''i1'' m) \<and> (\<exists>g s'. lock_move g demo_locks s')"
proof -
  have a: "at demo_locks 0 = Works ''i1'' 0" "at demo_locks 1 = Got ''i1'' 0"
    by (simp_all add: demo_locks_def lock_defs no_locks_def Let_def)
  then have "\<exists>g. at demo_locks g \<noteq> Idle" by (metis op_phase.distinct(9))
  with instance_ops_exclusive [OF demo_locks_reachable] a show ?thesis by simp
qed

end
