(* ===== verification/Spec2Isabelle.thy ===== *)
theory Spec2Isabelle
  imports FailoverMeta Reconcile Handlers Hub Timescale Polling Scheduler MetaBackup RemoteAPI Config WsHandler PoolStats
    RestoreCLI Console TimescaleAPI Monitoring Compose Moby InstanceLocks
begin

text \<open>
  A verification development for pgfleet, a control plane for managed PostgreSQL: a Go service
  that runs instances and replicated clusters in Docker containers, keeps their records in a
  metadata database, backs them up with pgBackRest, fails clusters over, routes queries
  through PgCat and serves an HTTP API with users and roles.

  \<^bold>\<open>Parts of the program and how they interact.\<close> The provisioner (\<^verbatim>\<open>internal/provision\<close>) creates,
  starts, restores, clones and destroys instances through a container runtime
  (\<^verbatim>\<open>internal/docker\<close>) and records what it did in the repositories (\<^verbatim>\<open>internal/instance\<close>,
  \<^verbatim>\<open>cluster\<close>, \<^verbatim>\<open>backup\<close>, \<^verbatim>\<open>events\<close>). The cluster service (\<^verbatim>\<open>internal/clusterctl\<close>) composes
  provisioner calls into clusters; the failover controller (\<^verbatim>\<open>internal/failover\<close>) watches
  their primaries and promotes replicas; the reconciler (\<^verbatim>\<open>internal/reconcile\<close>) brings the
  records in line with the containers; the backup service (\<^verbatim>\<open>internal/backup\<close>) runs pgBackRest
  in them and keeps a catalog. \<^verbatim>\<open>internal/scheduler\<close> drives the periodic work,
  \<^verbatim>\<open>internal/alerts\<close> turns metrics into alerts, \<^verbatim>\<open>internal/auth\<close>, \<^verbatim>\<open>user\<close>, \<^verbatim>\<open>audit\<close>,
  \<^verbatim>\<open>bootstrap\<close> and \<^verbatim>\<open>api\<close> decide who may do what.

  \<^bold>\<open>The shape of the model.\<close> A Go function that can fail is a program
  \<open>'s \<Rightarrow> (goerr + 'a) \<times> 's\<close> (theory \<open>Prelude\<close>): it returns the error or the value together
  with the state, because a Go function that fails keeps the effects it had. Sequencing with
  \<^verbatim>\<open>if err != nil\<close>, ignored errors, deferred clean-ups and loops over slices are combinators, so
  that a definition reads like its source. Errors are values of \<open>goerr\<close> (\<open>Apperr\<close>) with the
  source's codes and messages. The state of the provisioning components is a \<open>world\<close>
  (\<open>MetaDB\<close>): an environment of any type, the metadata database with its tables and
  constraints, and the stamp counter. Any SQL statement may fail: the database carries an
  arbitrary schedule of failures, so a theorem about all databases covers every failure.
  The container runtime, the clock, the random source and the cryptographic primitives are the record
  \<open>host\<close>, an argument of the definitions; what the code relies on of the runtime is the
  locale \<open>container_host\<close>, which the repository's own in-memory runtime
  (\<^verbatim>\<open>docker/fake.go\<close>) is proved to satisfy, and so is the Docker adapter (\<^verbatim>\<open>docker/moby.go\<close>, theory \<open>Moby\<close>) over
  a daemon that behaves as documented (locale \<open>docker_engine\<close>). The account and alert tables have states of their own,
  built the same way.

  \<^bold>\<open>Theories, the code they model, and what their lemmas show.\<close>
  \<^item> \<open>Prelude\<close>: programs, combinators, Hoare triples and preserved invariants.
    \<open>GoStrings\<close>, \<open>GoURL\<close>, \<open>GoURLParse\<close>, \<open>GoTime\<close> and \<open>NetIP\<close>: the parts of \<^verbatim>\<open>strings\<close>, \<^verbatim>\<open>strconv\<close>, \<^verbatim>\<open>fmt\<close>,
    \<^verbatim>\<open>net/url\<close>, \<^verbatim>\<open>time\<close> and \<^verbatim>\<open>net\<close> the code uses, on byte strings; \<open>PgTools\<close>: quoting and the client tools'
    command lines.
  \<^item> \<open>Apperr\<close>, \<open>PgConfig\<close>, \<open>Instance\<close>, \<open>PgBackRest\<close>, \<open>Secrets\<close>, \<open>Redact\<close>: error kinds, parameter and
    extension validation (preloads are merged without loss), instance and cluster inputs,
    pgBackRest's configuration and commands, envelope encryption (a round trip under the laws
    of an AEAD), and the redaction of secrets from output (no secret survives).
  \<^item> \<open>Docker\<close>: the runtime's interface and contract, the in-memory runtime, the capped buffer.
    \<open>Moby\<close>: the adapter over the Docker client; it keeps the contract, over a daemon that carries out a runtime's operations it is
    that runtime call by call, and a created container is the one
    specified. \<open>InstanceLocks\<close>: the per-instance mutexes of \<^verbatim>\<open>provision.go\<close> as a step relation; the two operations
    that take them, restore and visibility change, never overlap on one instance and never deadlock.
    \<open>MetaDB\<close>: every statement of the repositories; no sequence of them breaks the schema's
    invariants, so a cluster never has two recorded primaries.
  \<^item> \<open>ProvisionBase\<close>, \<open>Provision\<close>, \<open>Restore\<close>, \<open>Visibility\<close>, \<open>Replica\<close>, \<open>Polling\<close>:
    \<^verbatim>\<open>internal/provision\<close>. Provisioning is all or nothing, up to removals the daemon refuses; a failed restore keeps the live copy; a
    visibility change never loses the data volume; single-node operations refuse cluster
    members; the polling loops return.
  \<^item> \<open>PgCat\<close>: \<^verbatim>\<open>internal/pgcat/config.go\<close>; values round-trip through TOML and cannot break a line.
  \<^item> \<open>Failover\<close>, \<open>FailoverTrace\<close>, \<open>FailoverMeta\<close>: \<^verbatim>\<open>internal/failover\<close>; the order of its calls (quorum,
    election, fencing, promotion, reattachment), the strike counter, and the metadata it leaves, which
    names the node that was promoted.
  \<^item> \<open>Reconcile\<close>: \<^verbatim>\<open>internal/reconcile\<close> refines an observation function, settles in one
    pass and leaves rows with an operation in flight alone.
  \<^item> \<open>ClusterCtl\<close>, \<open>ClusterOps\<close>: \<^verbatim>\<open>internal/clusterctl\<close>; creation is all or nothing, teardown
    keeps the primary to the last, connection strings carry the stored credentials.
  \<^item> \<open>BackupSvc\<close>: \<^verbatim>\<open>internal/backup\<close>; the catalog after a synchronisation is exactly what the
    repository reports, and is left alone when the report is not to be trusted; replicas are refused, annotations are bounded.
  \<^item> \<open>Auth\<close>, \<open>Accounts\<close>, \<open>Router\<close>: \<^verbatim>\<open>internal/auth\<close>, \<^verbatim>\<open>user\<close>, \<^verbatim>\<open>audit\<close>, \<^verbatim>\<open>bootstrap\<close> and the account
    handlers and routes of \<^verbatim>\<open>internal/api\<close>; hashes verify, logins and single sign-on are
    sound, nobody is locked out, and every route keeps to least privilege.
  \<^item> \<open>Timescale\<close>: \<^verbatim>\<open>internal/timescale\<close>; one statement per request, no quoted argument escapes its literal. \<open>Alerts\<close>:
    \<^verbatim>\<open>internal/alerts\<close>; synchronisation refines its specification, the most specific rule counts.
    \<open>Scheduler\<close>: \<^verbatim>\<open>internal/scheduler\<close> as a step relation; one loop per job, no orphans.
  \<^item> \<open>Async\<close>, \<open>Hub\<close>, \<open>WsHandler\<close>: background tasks (\<^verbatim>\<open>api/async.go\<close>) and the event hub (\<^verbatim>\<open>internal/ws\<close>) as
    step relations; nothing starts after the drain, a subscriber sees what was published, in order and
    without a send on a closed channel; only a page of the same origin with a valid token is subscribed.
  \<^item> \<open>Handlers\<close>: the instance, cluster and backup handlers and the bodies of their tasks; a refused
    request changes nothing, and a task settles its instance. \<open>RemoteAPI\<close>: the migrate-in endpoints.
    \<open>Console\<close>: the SQL, exec, dump and log endpoints, with their bounds and audit entries.
    \<open>TimescaleAPI\<close>, \<open>PoolStats\<close>, \<open>Compose\<close>: hypertable administration, the attribution of router
    connections to members, and the generated compose files with the ports they publish.
  \<^item> \<open>ObjectStore\<close>, \<open>RemoteBackup\<close>, \<open>MetaBackup\<close>: \<^verbatim>\<open>internal/objectstore\<close>, \<^verbatim>\<open>remotebackup\<close> and
    \<^verbatim>\<open>metabackup\<close>; what is captured is what is fetched, errors carry no password, retention keeps
    the newest dumps. \<open>RestoreCLI\<close>: the disaster-recovery command of \<^verbatim>\<open>cmd/pgfleet\<close>, which leaves nothing
    behind but a container Docker refuses to remove, and whose command line a shell reads as intended.
  \<^item> \<open>Health\<close>, \<open>Metrics\<close>, \<open>Notifier\<close>, \<open>Monitoring\<close>: \<^verbatim>\<open>internal/health\<close>, \<^verbatim>\<open>metrics\<close>, the webhook of
    \<^verbatim>\<open>alerts\<close> and the scheduled jobs of \<^verbatim>\<open>cmd/pgfleet-api\<close> that compose them; the whole pass of alert
    evaluation is sound whatever fails on the way and complete when nothing does, and the webhook never reaches a metadata address.
  \<^item> \<open>Config\<close>: \<^verbatim>\<open>internal/config\<close>; a configuration that loads is usable.

  The property at the end of this theory composes the Docker adapter with the exec endpoint.

  \<^bold>\<open>Fuel and bounds.\<close> The polling loops of provisioning run on fuel in the model: one unit per
  interval of their deadline and two more (92, 302 and 32 rounds; 1802 for the 30 minutes of the
  disaster-recovery command). Theory \<open>Polling\<close> writes the loop
  without a bound and proves that it returns the fuelled loop's result. Every other recursion is
  structural or has a termination proof. Lengths, ports and cost parameters are integers
  with the source's bounds written out.

  \<^bold>\<open>Hypotheses.\<close> Theorems name what they assume of code that is not in the repository: the container
  runtime (\<open>container_host\<close>, which does not promise that a removal succeeds), the AEAD (\<open>gcm_host\<close>), argon2id and the random source (\<open>kdf_sound\<close>), the
  JWT library (\<open>jwt_sound\<close>), the clock (\<open>clock_ok\<close>). Each has a witness on a concrete instance.

  \<^bold>\<open>Abstractions.\<close> Identifiers are compared as text, and a NULL text column is the empty string, as
  the Go code reads it. \<^verbatim>\<open>strings.ToLower\<close> is exact on ASCII, and so is \<^verbatim>\<open>strings.EqualFold\<close> but for the two runes that fold into it. A
  malformed identifier finds no row, where the driver would report another error; a transaction whose commit fails is
  rolled back. The state passing is
  sequential: where the code's guarantee is one of whole requests, overlapping requests are treated
  separately (\<open>concurrent_disable_locks_out\<close>, \<open>overlapping_stop_orphans\<close>). Logging and
  progress callbacks are left out.

  \<^bold>\<open>Not modelled.\<close> Image builds (\<^verbatim>\<open>docker/build.go\<close>) stream a build context to the Docker client. The wiring of the server (\<^verbatim>\<open>run\<close> of \<^verbatim>\<open>cmd/pgfleet-api\<close>) constructs
  the components, registers the jobs and listens; \<^verbatim>\<open>api/server.go\<close>, the logging middleware,
  \<^verbatim>\<open>internal/logging\<close>, \<^verbatim>\<open>version\<close> and \<^verbatim>\<open>store\<close> (the connection pool and the migration runner) are glue over
  libraries. \<^verbatim>\<open>cmd/loadgen\<close> is a benchmark driver, \<^verbatim>\<open>internal/testsupport\<close> and \<^verbatim>\<open>provisiontest\<close> serve
  tests. What commands and handlers print or log is left out everywhere.
\<close>

section \<open>Output of commands, from the daemon to the client\<close>

text \<open>
  Two limits of the same size follow each other: the adapter keeps at most 1 MiB of a stream (theory \<open>Moby\<close>) and
  forgets whether it dropped anything, the handler clips what is longer than 1 MiB (theory \<open>Console\<close>).
\<close>

lemma moby_Exec_short:
  assumes "moby_Exec eg cid cmd e = (Inr res, e')"
  shows "length (Stdout res) \<le> maxExecOutputBytes" "length (Stderr res) \<le> maxExecOutputBytes"
proof -
  have "length (capture stream frames) \<le> maxExecOutputBytes" for stream frames
    by (simp add: capture_prefix maxExecCaptureBytes_def maxExecOutputBytes_def)
  then show "length (Stdout res) \<le> maxExecOutputBytes" "length (Stderr res) \<le> maxExecOutputBytes"
    using assms by (auto simp: moby_Exec_def prog_run wrap_error_def split: prod.splits sum.splits option.splits)
qed

text \<open>
  C35. With the Docker adapter the exec endpoint never reports truncation, whatever the command prints: the adapter
  has already cut each stream to the handler's limit. The witness runs a command that prints one byte more than the limit; the
  answer is cut and not marked.
\<close>

theorem exec_truncation_unreported:
  assumes rt: "p_rt (ap_prov h) = moby_host eg pr" and run: "exec_Run h ctx dec iid body s = (Inr (200, resp), s')"
  shows "\<not> xr_truncated resp"
  using run unfolding exec_Run_def
  by (auto simp: prog_run wrap_error_def rt moby_host_def clipOutput_def onW_def onE_def dest: moby_Exec_short
      split: sum.splits prod.splits if_splits)

definition loud :: string where "loud = replicate (Suc maxExecOutputBytes) (CHR ''x'')"

definition loud_engine :: "fake_env engine" where
  "loud_engine = fake_engine\<lparr>ContainerExecAttach := (\<lambda>_. ret ([(False, loud)], None))\<rparr>"

definition loud_api :: "fake_env api" where
  "loud_api = demo_api\<lparr>ap_prov := demo_provisioner\<lparr>p_rt := moby_host loud_engine (p_rt demo_provisioner)\<rparr>\<rparr>"

theorem exec_truncation_unreported_witness:
  "\<exists>resp s'. exec_Run loud_api None (\<lambda>_ _. Inr ([''yes''], True)) ''i1'' [] demo_exec_server = (Inr (200, resp), s') \<and>
     \<not> xr_truncated resp \<and> length (xr_stdout resp) < length loud"
proof -
  let ?dec = "\<lambda>_ _. Inr ([''yes''], True)"
  have dec: "decodeJSON ?dec [] = Inr [''yes'']" by (simp add: decodeJSON_def)
  have get: "store_Get ''i1'' demo_exec_server = (Inr demo_running, demo_exec_server)"
    by (simp add: demo_exec_server_def demo_server_def store_Get_def onW_def demo_running_world_def demo_db_def prog_run db_run demo_running_def demo_instance_def)
  have cid: "i_ContainerID demo_running = ''fake-1''" by (simp add: demo_running_def)
  have rt: "p_rt (ap_prov loud_api) = moby_host loud_engine (p_rt demo_provisioner)" by (simp add: loud_api_def)
  have w: "env (sv_world demo_exec_server) = demo_running_env" by (simp add: demo_exec_server_def demo_running_world_def)
  let ?res = "\<lparr>ExitCode = 0, Stdout = capture False [(False, loud)], Stderr = capture True [(False, loud)]\<rparr>"
  have ex: "moby_Exec loud_engine ''fake-1'' [''yes''] demo_running_env = (Inr ?res, demo_running_env)"
    by (simp add: moby_Exec_def loud_engine_def fake_engine_def prog_run wrap_error_def fake_run demo_running_env_def)
  obtain resp s' where run: "exec_Run loud_api None ?dec ''i1'' [] demo_exec_server = (Inr (200, resp), s')"
      and out: "xr_stdout resp = take maxExecOutputBytes (capture False [(False, loud)])"
    by (simp add: exec_Run_def dec get cid prog_run wrap_error_def rt moby_host_def onW_def onE_def w ex clipOutput_take split: prod.splits)
  have "length (xr_stdout resp) < length loud" unfolding out by (simp add: loud_def)
  with run exec_truncation_unreported [OF rt run] show ?thesis by blast
qed

end
